(* ===== verification/Prelude.thy ===== *)
theory Prelude
  imports Main "HOL-Library.Word"
begin

text \<open>
  Shared vocabulary of the development: machine-integer and byte types, the
  result type of fallible Rust code (a value, a returned error, or a panic), checked,
  wrapping and saturating integer arithmetic, byte slices and in-place buffer writes,
  and the little-endian encoding of fixed-width integers.

  \<^item> \<open>usize\<close> is \<open>nat\<close>; the places where the source can overflow a 64-bit \<open>usize\<close> use
    \<open>uadd\<close>, which panics as a build with overflow checks does.
  \<^item> \<open>i64\<close> is a 64-bit word read by \<open>sint\<close>.
  \<^item> A slice expression, an index or a \<open>copy_from_slice\<close> that is out of range is
    the value \<open>Panic\<close>, never an unspecified element.
\<close>

unbundle bit_operations_syntax

named_theorems wire_simps \<open>evaluation of reads and writes on laid-out buffers\<close>
named_theorems result_simps \<open>the result monad\<close>

section \<open>Types\<close>

type_synonym u8 = "8 word"
type_synonym u16 = "16 word"
type_synonym u32 = "32 word"
type_synonym u64 = "64 word"
type_synonym i64 = "64 word"
type_synonym usize = nat
type_synonym bytes = "u8 list"

section \<open>Results: a value, an error, or a panic\<close>

datatype ('a, 'e) result = Ok 'a | Err 'e | Panic

fun rbind :: "('a, 'e) result \<Rightarrow> ('a \<Rightarrow> ('b, 'e) result) \<Rightarrow> ('b, 'e) result" where
  "rbind (Ok x) f = f x"
| "rbind (Err e) f = Err e"
| "rbind Panic f = Panic"

fun map_ok :: "('a \<Rightarrow> 'b) \<Rightarrow> ('a, 'e) result \<Rightarrow> ('b, 'e) result" where
  "map_ok f (Ok x) = Ok (f x)"
| "map_ok f (Err e) = Err e"
| "map_ok f Panic = Panic"

fun map_err :: "('e \<Rightarrow> 'f) \<Rightarrow> ('a, 'e) result \<Rightarrow> ('a, 'f) result" where
  "map_err f (Ok x) = Ok x"
| "map_err f (Err e) = Err (f e)"
| "map_err f Panic = Panic"

fun ok_or :: "'e \<Rightarrow> 'a option \<Rightarrow> ('a, 'e) result" where
  "ok_or e None = Err e"
| "ok_or e (Some x) = Ok x"

declare rbind.simps [result_simps] map_ok.simps [result_simps] map_err.simps [result_simps]

lemma rbind_Ok_iff: "rbind m f = Ok y \<longleftrightarrow> (\<exists>x. m = Ok x \<and> f x = Ok y)"
  by (cases m) auto

lemma rbind_Err_iff: "rbind m f = Err e \<longleftrightarrow> m = Err e \<or> (\<exists>x. m = Ok x \<and> f x = Err e)"
  by (cases m) auto

lemma rbind_Panic_iff: "rbind m f = Panic \<longleftrightarrow> m = Panic \<or> (\<exists>x. m = Ok x \<and> f x = Panic)"
  by (cases m) auto

lemma rbind_not_Panic:
  "m \<noteq> Panic \<Longrightarrow> (\<And>x. m = Ok x \<Longrightarrow> f x \<noteq> Panic) \<Longrightarrow> rbind m f \<noteq> Panic"
  by (cases m) auto

lemma map_ok_Ok_iff: "map_ok f m = Ok y \<longleftrightarrow> (\<exists>x. m = Ok x \<and> y = f x)"
  by (cases m) auto

lemma map_ok_id [simp]: "map_ok (\<lambda>a. a) m = m"
  by (cases m) auto

lemma map_ok_Panic_iff [simp]: "map_ok f m = Panic \<longleftrightarrow> m = Panic"
  by (cases m) auto

lemma map_err_Panic_iff [simp]: "map_err f m = Panic \<longleftrightarrow> m = Panic"
  by (cases m) auto

lemma map_err_Ok_iff [simp]: "map_err f m = Ok y \<longleftrightarrow> m = Ok y"
  by (cases m) auto

lemma ok_or_not_Panic [simp]: "ok_or e x \<noteq> Panic"
  by (cases x) auto

lemma ok_or_Ok_iff [simp]: "ok_or e x = Ok y \<longleftrightarrow> x = Some y"
  by (cases x) auto

section \<open>Integer arithmetic\<close>

definition usize_limit :: nat where
  "usize_limit = 2 ^ 64"

text \<open>\<open>usize\<close>/\<open>u64\<close> addition with the overflow check of a debug build.\<close>

definition uadd :: "usize \<Rightarrow> usize \<Rightarrow> (usize, 'e) result" where
  "uadd a b = (if a + b < usize_limit then Ok (a + b) else Panic)"

lemma uadd_Ok [simp]: "a + b < usize_limit \<Longrightarrow> uadd a b = Ok (a + b)"
  by (simp add: uadd_def)

lemma uadd_Ok_iff: "uadd a b = Ok c \<longleftrightarrow> a + b < usize_limit \<and> c = a + b"
  by (auto simp: uadd_def)

lemma uadd_not_Err [simp]: "uadd a b \<noteq> Err e"
  by (simp add: uadd_def)

lemma unat_u64_small: "n < usize_limit \<Longrightarrow> unat (of_nat n :: u64) = n"
  by (simp add: usize_limit_def unat_of_nat take_bit_nat_eq_self)

lemma unat_u32_small: "n < 2 ^ 32 \<Longrightarrow> unat (of_nat n :: u32) = n"
  by (simp add: unat_of_nat take_bit_nat_eq_self)

lemma unat_ucast_u32 [simp]: "unat (ucast (w :: u32) :: u64) = unat w"
proof -
  have "unat w < 2 ^ 32" using unsigned_less [of w, where 'a = nat] by simp
  then show ?thesis by (simp add: unsigned_ucast_eq take_bit_nat_eq_self)
qed

lemma uint_u32_pos:
  assumes "0 < (m :: u32)"
  shows "0 < uint m" "uint m < 2 ^ 32"
proof -
  have "uint m \<noteq> 0" using assms by (auto simp: word_gt_0 uint_0_iff)
  moreover have "0 \<le> uint m" by simp
  ultimately show "0 < uint m" by linarith
  show "uint m < 2 ^ 32" using unsigned_less [of m, where 'a = int] by simp
qed

text \<open>\<open>x += 1\<close> on a \<open>u64\<close>, with the overflow check.\<close>

definition u64_incr :: "u64 \<Rightarrow> (u64, 'e) result" where
  "u64_incr w = (if w = - 1 then Panic else Ok (w + 1))"

lemma unat_u64_incr: "unat w + 1 < 2 ^ 64 \<Longrightarrow> unat (w + 1 :: u64) = unat w + 1"
  by (simp add: unat_word_ariths)

lemma u64_incr_eq: "u64_incr w = (if unat w + 1 < 2 ^ 64 then Ok (w + 1) else Panic)"
proof -
  have "w = - 1 \<longleftrightarrow> \<not> unat w + 1 < 2 ^ 64"
    using unsigned_less [of w, where 'a = nat]
    by (auto simp: word_unat_eq_iff unsigned_minus_1_eq_mask mask_eq_exp_minus_1)
  then show ?thesis by (auto simp: u64_incr_def)
qed

definition in_i64 :: "int \<Rightarrow> bool" where
  "in_i64 z \<longleftrightarrow> - (2 ^ 63) \<le> z \<and> z < 2 ^ 63"

definition i64_checked :: "int \<Rightarrow> (i64, 'e) result" where
  "i64_checked z = (if in_i64 z then Ok (word_of_int z) else Panic)"

text \<open>The operators \<open>+\<close>, \<open>-\<close> and \<open>*\<close> of \<open>i64\<close>, which panic on overflow.\<close>

definition i64_add :: "i64 \<Rightarrow> i64 \<Rightarrow> (i64, 'e) result" where
  "i64_add a b = i64_checked (sint a + sint b)"

definition i64_sub :: "i64 \<Rightarrow> i64 \<Rightarrow> (i64, 'e) result" where
  "i64_sub a b = i64_checked (sint a - sint b)"

definition i64_mul :: "i64 \<Rightarrow> i64 \<Rightarrow> (i64, 'e) result" where
  "i64_mul a b = i64_checked (sint a * sint b)"

definition i64_clamp :: "int \<Rightarrow> i64" where
  "i64_clamp z = word_of_int (max (- (2 ^ 63)) (min (2 ^ 63 - 1) z))"

definition i64_saturating_add :: "i64 \<Rightarrow> i64 \<Rightarrow> i64" where
  "i64_saturating_add a b = i64_clamp (sint a + sint b)"

definition i64_saturating_sub :: "i64 \<Rightarrow> i64 \<Rightarrow> i64" where
  "i64_saturating_sub a b = i64_clamp (sint a - sint b)"

text \<open>Rust division and remainder on \<open>i64\<close> truncate towards zero.\<close>

definition trunc_div :: "int \<Rightarrow> int \<Rightarrow> int" where
  "trunc_div a b = sgn a * sgn b * (\<bar>a\<bar> div \<bar>b\<bar>)"

definition trunc_mod :: "int \<Rightarrow> int \<Rightarrow> int" where
  "trunc_mod a b = a - b * trunc_div a b"

lemma sint_i64_bounds: "- (2 ^ 63) \<le> sint (w :: i64)" "sint (w :: i64) < 2 ^ 63"
  using sint_range_size [of w] by (simp_all add: word_size)

lemma sint_in_i64 [simp]: "in_i64 (sint (w :: i64))"
  using sint_i64_bounds [of w] by (simp add: in_i64_def)

lemma sint_word_of_int [simp]: "in_i64 z \<Longrightarrow> sint (word_of_int z :: i64) = z"
  by (simp add: in_i64_def sint_sbintrunc' signed_take_bit_int_eq_self)

lemma sint_eqI: "sint (a :: i64) = sint b \<Longrightarrow> a = b"
  by (rule signed_word_eqI)

lemma sint_i64_plus:
  fixes a b :: i64
  shows "in_i64 (sint a + sint b) \<Longrightarrow> sint (a + b) = sint a + sint b"
  using sint_word_of_int [of "sint a + sint b"] by simp

lemma sint_i64_minus:
  fixes a b :: i64
  shows "in_i64 (sint a - sint b) \<Longrightarrow> sint (a - b) = sint a - sint b"
  using sint_word_of_int [of "sint a - sint b"] by simp

lemma i64_add_eq: "i64_add a b = (if in_i64 (sint a + sint b) then Ok (a + b) else Panic)"
  by (simp add: i64_add_def i64_checked_def)

lemma i64_sub_eq: "i64_sub a b = (if in_i64 (sint a - sint b) then Ok (a - b) else Panic)"
  by (simp add: i64_sub_def i64_checked_def)

lemma i64_checked_Ok_iff: "i64_checked z = Ok w \<longleftrightarrow> in_i64 z \<and> sint w = z"
  by (auto simp: i64_checked_def)

lemma i64_checked_not_Err [simp]: "i64_checked z \<noteq> Err e"
  by (simp add: i64_checked_def)

lemma sint_clamp: "sint (i64_clamp z) = max (- (2 ^ 63)) (min (2 ^ 63 - 1) z)"
  unfolding i64_clamp_def by (rule sint_word_of_int) (simp add: in_i64_def)

section \<open>Slices\<close>

text \<open>\<open>&buf[i..j]\<close>.\<close>

definition subslice :: "'a list \<Rightarrow> nat \<Rightarrow> nat \<Rightarrow> ('a list, 'e) result" where
  "subslice buf i j = (if i \<le> j \<and> j \<le> length buf then Ok (take (j - i) (drop i buf)) else Panic)"

text \<open>\<open>buf[i]\<close>.\<close>

definition index :: "'a list \<Rightarrow> nat \<Rightarrow> ('a, 'e) result" where
  "index buf i = (if i < length buf then Ok (buf ! i) else Panic)"

text \<open>\<open>buf[off..off + bs.len()].copy_from_slice(bs)\<close>.\<close>

definition write_at :: "'a list \<Rightarrow> nat \<Rightarrow> 'a list \<Rightarrow> ('a list, 'e) result" where
  "write_at buf off bs = (if off + length bs \<le> length buf
     then Ok (take off buf @ bs @ drop (off + length bs) buf) else Panic)"

text \<open>\<open>buf[i] = x\<close>.\<close>

definition set_index :: "'a list \<Rightarrow> nat \<Rightarrow> 'a \<Rightarrow> ('a list, 'e) result" where
  "set_index buf i x = (if i < length buf then Ok (buf[i := x]) else Panic)"

lemma subslice_Ok_iff:
  "subslice buf i j = Ok s \<longleftrightarrow> i \<le> j \<and> j \<le> length buf \<and> s = take (j - i) (drop i buf)"
  by (auto simp: subslice_def)

lemma subslice_not_Err [simp]: "subslice buf i j \<noteq> Err e"
  by (simp add: subslice_def)

lemma subslice_in_range [wire_simps]:
  "i \<le> j \<Longrightarrow> j \<le> length buf \<Longrightarrow> subslice buf i j = Ok (take (j - i) (drop i buf))"
  by (simp add: subslice_def)

lemma index_in_range [wire_simps]: "i < length buf \<Longrightarrow> index buf i = Ok (buf ! i)"
  by (simp add: index_def)

lemma index_not_Err [simp]: "index buf i \<noteq> Err e"
  by (simp add: index_def)

lemma write_at_in_range [wire_simps]:
  "off + length bs \<le> length buf \<Longrightarrow>
     write_at buf off bs = Ok (take off buf @ bs @ drop (off + length bs) buf)"
  by (simp add: write_at_def)

lemma write_at_length: "write_at buf off bs = Ok buf' \<Longrightarrow> length buf' = length buf"
  by (auto simp: write_at_def split: if_splits)

lemma set_index_in_range [wire_simps]:
  "i < length buf \<Longrightarrow> set_index buf i x = Ok (take i buf @ [x] @ drop (Suc i) buf)"
  by (simp add: set_index_def upd_conv_take_nth_drop)

section \<open>Little-endian encoding\<close>

fun le_bytes :: "nat \<Rightarrow> nat \<Rightarrow> bytes" where
  "le_bytes 0 n = []"
| "le_bytes (Suc k) n = of_nat (n mod 256) # le_bytes k (n div 256)"

fun le_nat :: "bytes \<Rightarrow> nat" where
  "le_nat [] = 0"
| "le_nat (b # bs) = unat b + 256 * le_nat bs"

text \<open>\<open>x.to_le_bytes()\<close> and \<open>T::from_le_bytes(bs)\<close>.\<close>

definition to_le :: "'a::len word \<Rightarrow> bytes" where
  "to_le w = le_bytes (LENGTH('a) div 8) (unat w)"

definition from_le :: "bytes \<Rightarrow> 'a::len word" where
  "from_le bs = of_nat (le_nat bs)"

lemma le_bytes_numeral [simp]:
  "le_bytes (numeral k) n = of_nat (n mod 256) # le_bytes (pred_numeral k) (n div 256)"
  unfolding numeral_eq_Suc [of k] by (rule le_bytes.simps(2))

lemma length_le_bytes [simp]: "length (le_bytes k n) = k"
  by (induction k arbitrary: n) auto

lemma length_to_le [simp]: "length (to_le (w :: 'a::len word)) = LENGTH('a) div 8"
  by (simp add: to_le_def)

lemma unat_of_nat_byte: "unat (of_nat (n mod 256) :: u8) = n mod 256"
  by (simp add: unat_of_nat take_bit_eq_mod)

lemma le_nat_le_bytes: "le_nat (le_bytes k n) = n mod 256 ^ k"
proof (induction k arbitrary: n)
  case 0
  then show ?case by simp
next
  case (Suc k)
  then show ?case
    by (simp add: unat_of_nat_byte mod_mult2_eq add.commute)
qed

lemma le_nat_bound: "le_nat bs < 256 ^ length bs"
proof (induction bs)
  case Nil
  then show ?case by simp
next
  case (Cons b bs)
  have "unat b < 256" using unsigned_less [of b, where 'a = nat] by simp
  with Cons show ?case by simp
qed

lemma le_bytes_le_nat: "le_bytes (length bs) (le_nat bs) = bs"
proof (induction bs)
  case Nil
  then show ?case by simp
next
  case (Cons b bs)
  have b: "unat b < 256" using unsigned_less [of b, where 'a = nat] by simp
  then have "(unat b + 256 * le_nat bs) mod 256 = unat b"
    and "(unat b + 256 * le_nat bs) div 256 = le_nat bs" by simp_all
  with Cons show ?case by simp
qed

lemma from_le_to_le [simp]:
  assumes "8 dvd LENGTH('a::len)"
  shows "from_le (to_le (w :: 'a word)) = w"
proof -
  obtain k where k: "LENGTH('a) = 8 * k" using assms by (auto elim: dvdE)
  have "unat w < 2 ^ (8 * k)" using unsigned_less [of w, where 'a = nat] k by simp
  also have "(2::nat) ^ (8 * k) = 256 ^ k" by (simp add: power_mult)
  finally show ?thesis
    by (simp add: from_le_def to_le_def le_nat_le_bytes k)
qed

lemma to_le_from_le:
  assumes "length bs = LENGTH('a::len) div 8" and "8 dvd LENGTH('a)"
  shows "to_le (from_le bs :: 'a word) = bs"
proof -
  obtain k where k: "LENGTH('a) = 8 * k" using assms(2) by (auto elim: dvdE)
  have "le_nat bs < 256 ^ k" using le_nat_bound [of bs] assms(1) k by simp
  also have "(256::nat) ^ k = 2 ^ LENGTH('a)" by (simp add: k power_mult)
  finally have "unat (of_nat (le_nat bs) :: 'a word) = le_nat bs"
    by (simp add: unat_of_nat take_bit_nat_eq_self)
  with assms(1) show ?thesis
    by (metis from_le_def le_bytes_le_nat to_le_def)
qed

lemma le_bytes_0: "le_bytes k 0 = replicate k 0"
  by (induction k) simp_all

lemma to_le_0: "to_le (0 :: 'a::len word) = replicate (LENGTH('a) div 8) 0"
  by (simp add: to_le_def le_bytes_0)

lemma to_le_inject:
  fixes a b :: "'a::len word"
  assumes "to_le a = to_le b" and "8 dvd LENGTH('a)"
  shows "a = b"
  by (metis assms from_le_to_le)

end
