(* ===== verification/Text.thy ===== *)
theory Text
  imports Prelude
begin

text \<open>
  Rust text as the model sees it: a \<open>String\<close> or \<open>&str\<close> is a byte string
  (\<open>string\<close>, whose characters are the UTF-8 bytes), \<open>as_bytes\<close> and
  \<open>std::str::from_utf8\<close> convert to and from \<open>u8\<close> sequences (the latter with the
  validity check of RFC 3629 that the standard library performs), and the
  decimal and hexadecimal formatting of integers that the source's \<open>format!\<close>
  calls use.
\<close>

section \<open>Bytes of a string\<close>

definition as_bytes :: "string \<Rightarrow> bytes" where
  "as_bytes s = map of_char s"

definition chars_of :: "bytes \<Rightarrow> string" where
  "chars_of bs = map (\<lambda>b. char_of (unat b)) bs"

lemma length_as_bytes [simp]: "length (as_bytes s) = length s"
  by (simp add: as_bytes_def)

lemma of_char_char_of_u8: "(of_char (char_of (unat b)) :: u8) = b"
proof -
  have "unat b < 256" using unsigned_less [of b, where 'a = nat] by simp
  then have "(of_char (char_of (unat b)) :: nat) = unat b" by simp
  then show ?thesis by (metis of_nat_of_char of_nat_unat ucast_id)
qed

lemma unat_of_char: "unat (of_char c :: u8) = of_char c"
  unfolding of_nat_of_char [where 'a = u8, symmetric]
  by (simp add: unat_of_nat take_bit_nat_eq_self)

lemma chars_of_as_bytes [simp]: "chars_of (as_bytes s) = s"
  by (simp add: chars_of_def as_bytes_def unat_of_char o_def)

lemma as_bytes_chars_of [simp]: "as_bytes (chars_of bs) = bs"
  by (induction bs) (simp_all add: as_bytes_def chars_of_def of_char_char_of_u8)

section \<open>UTF-8 validity\<close>

definition utf8_cont :: "u8 \<Rightarrow> bool" where
  "utf8_cont b \<longleftrightarrow> 128 \<le> unat b \<and> unat b \<le> 191"

fun utf8_valid :: "bytes \<Rightarrow> bool" where
  "utf8_valid [] = True"
| "utf8_valid (b # bs) =
    (let n = unat b in
     if n \<le> 127 then utf8_valid bs
     else if 194 \<le> n \<and> n \<le> 223 then
       (case bs of c1 # r \<Rightarrow> utf8_cont c1 \<and> utf8_valid r | _ \<Rightarrow> False)
     else if 224 \<le> n \<and> n \<le> 239 then
       (case bs of c1 # c2 # r \<Rightarrow>
          utf8_cont c1 \<and> (n = 224 \<longrightarrow> 160 \<le> unat c1) \<and> (n = 237 \<longrightarrow> unat c1 \<le> 159)
          \<and> utf8_cont c2 \<and> utf8_valid r
        | _ \<Rightarrow> False)
     else if 240 \<le> n \<and> n \<le> 244 then
       (case bs of c1 # c2 # c3 # r \<Rightarrow>
          utf8_cont c1 \<and> (n = 240 \<longrightarrow> 144 \<le> unat c1) \<and> (n = 244 \<longrightarrow> unat c1 \<le> 143)
          \<and> utf8_cont c2 \<and> utf8_cont c3 \<and> utf8_valid r
        | _ \<Rightarrow> False)
     else False)"

definition from_utf8 :: "bytes \<Rightarrow> string option" where
  "from_utf8 bs = (if utf8_valid bs then Some (chars_of bs) else None)"

text \<open>
  The text of a \<open>FromUtf8Error\<close>: \<open>valid_up_to\<close> is the length of the longest valid prefix,
  \<open>error_len\<close> the length of the invalid sequence after it (none if the input just ends).
\<close>

definition utf8_valid_up_to :: "bytes \<Rightarrow> nat" where
  "utf8_valid_up_to bs = last (filter (\<lambda>n. utf8_valid (take n bs)) [0..<Suc (length bs)])"

definition utf8_lead_ok :: "nat \<Rightarrow> u8 \<Rightarrow> bool" where
  "utf8_lead_ok n c \<longleftrightarrow> utf8_cont c
     \<and> (n = 224 \<longrightarrow> 160 \<le> unat c) \<and> (n = 237 \<longrightarrow> unat c \<le> 159)
     \<and> (n = 240 \<longrightarrow> 144 \<le> unat c) \<and> (n = 244 \<longrightarrow> unat c \<le> 143)"

fun utf8_error_len :: "bytes \<Rightarrow> nat option" where
  "utf8_error_len [] = None"
| "utf8_error_len (b # cs) =
    (let n = unat b in
     if n < 194 \<or> 244 < n then Some 1
     else (case cs of
         [] \<Rightarrow> None
       | c1 # cs1 \<Rightarrow>
           if n \<le> 223 \<or> \<not> utf8_lead_ok n c1 then Some 1
           else (case cs1 of
               [] \<Rightarrow> None
             | c2 # cs2 \<Rightarrow>
                 if n \<le> 239 \<or> \<not> utf8_cont c2 then Some 2
                 else (case cs2 of [] \<Rightarrow> None | _ \<Rightarrow> Some 3))))"

text \<open>A value of type \<open>&str\<close> is valid UTF-8 by construction.\<close>

definition is_str :: "string \<Rightarrow> bool" where
  "is_str s \<longleftrightarrow> utf8_valid (as_bytes s)"

lemma from_utf8_as_bytes [simp]: "is_str s \<Longrightarrow> from_utf8 (as_bytes s) = Some s"
  by (simp add: from_utf8_def is_str_def)

lemma from_utf8_Some_iff: "from_utf8 bs = Some s \<longleftrightarrow> utf8_valid bs \<and> s = chars_of bs"
  by (auto simp: from_utf8_def)

lemma utf8_valid_ascii: "\<forall>b \<in> set bs. unat b \<le> 127 \<Longrightarrow> utf8_valid bs"
  by (induction bs) (auto simp: Let_def)

lemma is_str_ascii: "\<forall>c \<in> set s. (of_char c :: nat) \<le> 127 \<Longrightarrow> is_str s"
  unfolding is_str_def by (rule utf8_valid_ascii) (auto simp: as_bytes_def unat_of_char)

section \<open>Errors of the operating system\<close>

text \<open>A \<open>std::io::Error\<close>: its kind, the raw code if the system raised it, and its message.\<close>

datatype io_kind = IoWriteZero | IoInvalidInput | IoInvalidData | IoUnsupported | IoOther

datatype io_error = IoError io_kind "int option" string

section \<open>Formatting integers\<close>

definition digit_char :: "nat \<Rightarrow> char" where
  "digit_char d = (if d < 10 then char_of (48 + d) else char_of (87 + d))"

fun show_nat :: "nat \<Rightarrow> string" where
  "show_nat n = (if n < 10 then [digit_char n] else show_nat (n div 10) @ [digit_char (n mod 10)])"

declare show_nat.simps [simp del]

definition show_int :: "int \<Rightarrow> string" where
  "show_int z = (if z < 0 then CHR ''-'' # show_nat (nat (- z)) else show_nat (nat z))"

text \<open>\<open>{:0w$}\<close> of an unsigned value.\<close>

definition pad_left :: "nat \<Rightarrow> char \<Rightarrow> string \<Rightarrow> string" where
  "pad_left w c s = replicate (w - length s) c @ s"

text \<open>\<open>{:02x}\<close> of a byte.\<close>

definition hex2 :: "u8 \<Rightarrow> string" where
  "hex2 b = [digit_char (unat b div 16), digit_char (unat b mod 16)]"

text \<open>\<open>{:?}\<close> of a byte array.\<close>

fun comma_sep :: "string list \<Rightarrow> string" where
  "comma_sep [] = []"
| "comma_sep [s] = s"
| "comma_sep (s # ss) = s @ '', '' @ comma_sep ss"

definition debug_bytes :: "bytes \<Rightarrow> string" where
  "debug_bytes bs = ''['' @ comma_sep (map (\<lambda>b. show_nat (unat b)) bs) @ '']''"

definition utf8_error_display :: "bytes \<Rightarrow> string" where
  "utf8_error_display bs =
     (let n = utf8_valid_up_to bs in
      case utf8_error_len (drop n bs) of
        Some k \<Rightarrow> ''invalid utf-8 sequence of '' @ show_nat k @ '' bytes from index '' @ show_nat n
      | None \<Rightarrow> ''incomplete utf-8 byte sequence from index '' @ show_nat n)"

lemma show_nat_not_Nil [simp]: "show_nat n \<noteq> []"
  by (subst show_nat.simps) simp

lemma Nil_not_show_nat [simp]: "[] \<noteq> show_nat n"
  using show_nat_not_Nil [of n] by metis

lemma length_hex2 [simp]: "length (hex2 b) = 2"
  by (simp add: hex2_def)

lemma of_char_digit_char: "d < 16 \<Longrightarrow> (of_char (digit_char d) :: nat) = (if d < 10 then 48 + d else 87 + d)"
  by (simp add: digit_char_def)

lemma digit_char_inject:
  assumes "a < 16" and "b < 16" and "digit_char a = digit_char b"
  shows "a = b"
proof -
  have "(of_char (digit_char a) :: nat) = of_char (digit_char b)"
    using assms(3) by simp
  then show ?thesis
    using assms(1,2) by (simp add: of_char_digit_char split: if_splits)
qed

lemma show_nat_small: "n < 10 \<Longrightarrow> show_nat n = [digit_char n]"
  by (subst show_nat.simps) simp

lemma show_nat_large:
  "\<not> n < 10 \<Longrightarrow> show_nat n = show_nat (n div 10) @ [digit_char (n mod 10)]"
  by (subst show_nat.simps) simp

lemma show_nat_inject: "show_nat m = show_nat n \<Longrightarrow> m = n"
proof (induction m arbitrary: n rule: show_nat.induct)
  case (1 m)
  show ?case
  proof (cases "m < 10")
    case True
    with "1.prems" have "n < 10"
      by (cases "n < 10") (simp_all add: show_nat_small show_nat_large)
    with True "1.prems" show ?thesis
      by (auto simp: show_nat_small intro: digit_char_inject)
  next
    case False
    with "1.prems" have n: "\<not> n < 10"
      by (cases "n < 10") (simp_all add: show_nat_small show_nat_large)
    with False "1.prems" have "show_nat (m div 10) = show_nat (n div 10)"
      and "digit_char (m mod 10) = digit_char (n mod 10)"
      by (simp_all add: show_nat_large)
    moreover have "k mod 10 < 16" for k :: nat
      by (rule less_trans [of _ 10]) simp_all
    ultimately have "m div 10 = n div 10" "m mod 10 = n mod 10"
      using "1.IH" False digit_char_inject by blast+
    then show ?thesis by (metis div_mult_mod_eq)
  qed
qed

lemma hex2_inject:
  assumes "hex2 a = hex2 b"
  shows "a = b"
proof -
  have "unat a < 256" "unat b < 256"
    using unsigned_less [of a, where 'a = nat] unsigned_less [of b, where 'a = nat] by simp_all
  with assms have "unat a div 16 = unat b div 16" "unat a mod 16 = unat b mod 16"
    by (auto simp: hex2_def intro: digit_char_inject)
  then have "unat a = unat b" by (metis div_mult_mod_eq)
  then show ?thesis by (simp add: word_unat_eq_iff)
qed

end
