(* ===== verification/Market_Types.thy ===== *)
theory Market_Types
  imports Text
begin

text \<open>
  The crate \<open>blackbox-types\<close>: \<open>Exchange\<close>, \<open>Side\<close>, \<open>Timestamp\<close> (microseconds in an
  \<open>i64\<close>) and the fixed-size \<open>Instrument\<close>. Arrays \<open>[u8; N]\<close> are byte lists whose
  length is part of the type invariant.
\<close>

section \<open>Exchange\<close>

datatype exchange = ExUnknown | ExDeribit | ExBinance | ExBybit | ExOKX

fun exchange_as_u8 :: "exchange \<Rightarrow> u8" where
  "exchange_as_u8 ExUnknown = 0"
| "exchange_as_u8 ExDeribit = 1"
| "exchange_as_u8 ExBinance = 2"
| "exchange_as_u8 ExBybit = 3"
| "exchange_as_u8 ExOKX = 4"

definition exchange_from_u8 :: "u8 \<Rightarrow> exchange option" where
  "exchange_from_u8 value =
     (if value = 0 then Some ExUnknown
      else if value = 1 then Some ExDeribit
      else if value = 2 then Some ExBinance
      else if value = 3 then Some ExBybit
      else if value = 4 then Some ExOKX
      else None)"

fun exchange_name :: "exchange \<Rightarrow> string" where
  "exchange_name ExUnknown = ''Unknown''"
| "exchange_name ExDeribit = ''Deribit''"
| "exchange_name ExBinance = ''Binance''"
| "exchange_name ExBybit = ''Bybit''"
| "exchange_name ExOKX = ''OKX''"

definition exchange_all :: "exchange list" where
  "exchange_all = [ExDeribit, ExBinance, ExBybit, ExOKX]"

lemma exchange_roundtrip [simp]: "exchange_from_u8 (exchange_as_u8 e) = Some e"
  by (cases e) (simp_all add: exchange_from_u8_def)

lemma exchange_from_u8_Some: "exchange_from_u8 v = Some e \<Longrightarrow> exchange_as_u8 e = v"
  by (auto simp: exchange_from_u8_def split: if_splits)

lemma exchange_from_u8_None: "exchange_from_u8 v = None \<longleftrightarrow> 4 < v"
  by (simp add: exchange_from_u8_def word_less_nat_alt word_unat_eq_iff)

lemma exchange_name_inject: "exchange_name a = exchange_name b \<Longrightarrow> a = b"
  by (cases a; cases b) simp_all

section \<open>Side\<close>

datatype side = SideBuy | SideSell

fun side_as_u8 :: "side \<Rightarrow> u8" where
  "side_as_u8 SideBuy = 0"
| "side_as_u8 SideSell = 1"

definition side_from_u8 :: "u8 \<Rightarrow> side option" where
  "side_from_u8 value =
     (if value = 0 then Some SideBuy else if value = 1 then Some SideSell else None)"

fun side_opposite :: "side \<Rightarrow> side" where
  "side_opposite SideBuy = SideSell"
| "side_opposite SideSell = SideBuy"

fun side_is_buy :: "side \<Rightarrow> bool" where
  "side_is_buy SideBuy = True"
| "side_is_buy SideSell = False"

fun side_is_sell :: "side \<Rightarrow> bool" where
  "side_is_sell SideSell = True"
| "side_is_sell SideBuy = False"

fun side_name :: "side \<Rightarrow> string" where
  "side_name SideBuy = ''Buy''"
| "side_name SideSell = ''Sell''"

lemma side_roundtrip [simp]: "side_from_u8 (side_as_u8 s) = Some s"
  by (cases s) (simp_all add: side_from_u8_def)

lemma side_from_u8_Some: "side_from_u8 v = Some s \<Longrightarrow> side_as_u8 s = v"
  by (auto simp: side_from_u8_def split: if_splits)

lemma side_opposite_opposite [simp]: "side_opposite (side_opposite s) = s"
  by (cases s) simp_all

section \<open>Timestamp\<close>

type_synonym timestamp = i64

definition ts_epoch :: timestamp where
  "ts_epoch = 0"

definition ts_min :: timestamp where
  "ts_min = word_of_int (- (2 ^ 63))"

definition ts_max :: timestamp where
  "ts_max = word_of_int (2 ^ 63 - 1)"

definition ts_from_millis :: "i64 \<Rightarrow> (timestamp, 'e) result" where
  "ts_from_millis millis = i64_mul millis 1000"

definition ts_from_secs :: "i64 \<Rightarrow> (timestamp, 'e) result" where
  "ts_from_secs secs = i64_mul secs 1000000"

definition ts_as_millis :: "timestamp \<Rightarrow> i64" where
  "ts_as_millis t = word_of_int (trunc_div (sint t) 1000)"

definition ts_as_secs :: "timestamp \<Rightarrow> i64" where
  "ts_as_secs t = word_of_int (trunc_div (sint t) 1000000)"

definition ts_duration_since :: "timestamp \<Rightarrow> timestamp \<Rightarrow> (i64, 'e) result" where
  "ts_duration_since self other = i64_sub self other"

definition ts_is_after :: "timestamp \<Rightarrow> timestamp \<Rightarrow> bool" where
  "ts_is_after self other \<longleftrightarrow> sint self > sint other"

definition ts_is_before :: "timestamp \<Rightarrow> timestamp \<Rightarrow> bool" where
  "ts_is_before self other \<longleftrightarrow> sint self < sint other"

definition ts_add_micros :: "timestamp \<Rightarrow> i64 \<Rightarrow> timestamp" where
  "ts_add_micros self micros = i64_saturating_add self micros"

definition ts_sub_micros :: "timestamp \<Rightarrow> i64 \<Rightarrow> timestamp" where
  "ts_sub_micros self micros = i64_saturating_sub self micros"

text \<open>\<open>{secs}.{micros:06}\<close>, with \<open>micros\<close> the absolute value of the remainder.\<close>

definition ts_display :: "timestamp \<Rightarrow> string" where
  "ts_display t =
     (let secs = trunc_div (sint t) 1000000;
          micros = \<bar>trunc_mod (sint t) 1000000\<bar>
      in show_int secs @ ''.'' @ pad_left 6 CHR ''0'' (show_int micros))"

lemma ts_add_micros_bounded:
  "sint (ts_add_micros t d) = max (- (2 ^ 63)) (min (2 ^ 63 - 1) (sint t + sint d))"
  by (simp add: ts_add_micros_def i64_saturating_add_def sint_clamp)

lemma ts_sub_micros_bounded:
  "sint (ts_sub_micros t d) = max (- (2 ^ 63)) (min (2 ^ 63 - 1) (sint t - sint d))"
  by (simp add: ts_sub_micros_def i64_saturating_sub_def sint_clamp)

section \<open>Instrument\<close>

definition MAX_SYMBOL_LEN :: usize where
  "MAX_SYMBOL_LEN = 32"

definition MAX_CURRENCY_LEN :: usize where
  "MAX_CURRENCY_LEN = 8"

record instrument =
  inst_exchange :: exchange
  inst_symbol :: bytes
  inst_symbol_len :: u8
  inst_base :: bytes
  inst_base_len :: u8

text \<open>\<open>let mut arr = [0u8; n]; arr[..s.len()].copy_from_slice(s.as_bytes())\<close>.\<close>

definition fixed_array :: "nat \<Rightarrow> string \<Rightarrow> (bytes, 'e) result" where
  "fixed_array n s = write_at (replicate n 0) 0 (as_bytes s)"

definition instrument_new :: "exchange \<Rightarrow> string \<Rightarrow> string \<Rightarrow> (instrument, 'e) result" where
  "instrument_new exch symbol base_currency =
     (if length symbol \<le> MAX_SYMBOL_LEN then
        if length base_currency \<le> MAX_CURRENCY_LEN then
          rbind (fixed_array MAX_SYMBOL_LEN symbol) (\<lambda>symbol_arr.
          rbind (fixed_array MAX_CURRENCY_LEN base_currency) (\<lambda>base_currency_arr.
          Ok \<lparr>inst_exchange = exch,
              inst_symbol = symbol_arr,
              inst_symbol_len = of_nat (length symbol),
              inst_base = base_currency_arr,
              inst_base_len = of_nat (length base_currency)\<rparr>))
        else Panic
      else Panic)"

definition instrument_try_new ::
    "exchange \<Rightarrow> string \<Rightarrow> string \<Rightarrow> (instrument option, 'e) result" where
  "instrument_try_new exch symbol base_currency =
     (if length symbol > MAX_SYMBOL_LEN \<or> length base_currency > MAX_CURRENCY_LEN
      then Ok None
      else
        rbind (fixed_array MAX_SYMBOL_LEN symbol) (\<lambda>symbol_arr.
        rbind (fixed_array MAX_CURRENCY_LEN base_currency) (\<lambda>base_currency_arr.
        Ok (Some \<lparr>inst_exchange = exch,
                  inst_symbol = symbol_arr,
                  inst_symbol_len = of_nat (length symbol),
                  inst_base = base_currency_arr,
                  inst_base_len = of_nat (length base_currency)\<rparr>))))"

definition expect_utf8 :: "bytes \<Rightarrow> (string, 'e) result" where
  "expect_utf8 bs = (case from_utf8 bs of Some s \<Rightarrow> Ok s | None \<Rightarrow> Panic)"

definition instrument_symbol :: "instrument \<Rightarrow> (string, 'e) result" where
  "instrument_symbol i =
     rbind (subslice (inst_symbol i) 0 (unat (inst_symbol_len i))) expect_utf8"

definition instrument_base_currency :: "instrument \<Rightarrow> (string, 'e) result" where
  "instrument_base_currency i =
     rbind (subslice (inst_base i) 0 (unat (inst_base_len i))) expect_utf8"

definition instrument_default :: instrument where
  "instrument_default = \<lparr>inst_exchange = ExUnknown,
     inst_symbol = replicate MAX_SYMBOL_LEN 0, inst_symbol_len = 0,
     inst_base = replicate MAX_CURRENCY_LEN 0, inst_base_len = 0\<rparr>"

definition instrument_display :: "instrument \<Rightarrow> (string, 'e) result" where
  "instrument_display i =
     map_ok (\<lambda>s. exchange_name (inst_exchange i) @ '':'' @ s) (instrument_symbol i)"

lemma fixed_array_eq:
  "length s \<le> n \<Longrightarrow> fixed_array n s = Ok (as_bytes s @ replicate (n - length s) 0)"
  by (simp add: fixed_array_def write_at_def)

lemma unat_small_len: "n \<le> 32 \<Longrightarrow> unat (of_nat n :: u8) = n"
  by (simp add: unat_of_nat take_bit_nat_eq_self)

lemma instrument_try_new_Some:
  assumes "length symbol \<le> MAX_SYMBOL_LEN" and "length base \<le> MAX_CURRENCY_LEN"
  shows "instrument_try_new e symbol base = Ok (Some \<lparr>inst_exchange = e,
      inst_symbol = as_bytes symbol @ replicate (32 - length symbol) 0,
      inst_symbol_len = of_nat (length symbol),
      inst_base = as_bytes base @ replicate (8 - length base) 0,
      inst_base_len = of_nat (length base)\<rparr>)"
  using assms
  by (simp add: instrument_try_new_def fixed_array_eq MAX_SYMBOL_LEN_def MAX_CURRENCY_LEN_def)

end
