(* ===== verification/Codec_Data.thy ===== *)
theory Codec_Data
  imports Market_Types
begin

text \<open>
  \<open>codec/data.rs\<close> and \<open>codec/error.rs\<close>: the symbol buffer, the codec's own
  \<open>Exchange\<close> and \<open>Side\<close> enums, SHA-256 values, the eleven message records, the
  \<open>DecodedMessage\<close> sum with its \<open>timestamp\<close> and \<open>message_id\<close>, and the error types.
  Record fields carry a prefix for their struct (\<open>ss_\<close> SessionStart, \<open>se_\<close>
  SessionEnd, \<open>cp_\<close> Checkpoint, and so on).
\<close>

section \<open>Symbol\<close>

definition MAX_SYMBOL_LENGTH :: usize where
  "MAX_SYMBOL_LENGTH = 32"

definition MAX_VAR_DATA_LENGTH :: usize where
  "MAX_VAR_DATA_LENGTH = 64 * 1024"

record symbol =
  sym_data :: bytes
  sym_length :: u8

definition symbol_new :: "string \<Rightarrow> symbol" where
  "symbol_new s =
     (let bytes = as_bytes s;
          len = min (length bytes) MAX_SYMBOL_LENGTH
      in \<lparr>sym_data = take len bytes @ replicate (MAX_SYMBOL_LENGTH - len) 0,
          sym_length = of_nat len\<rparr>)"

definition symbol_from_raw :: "bytes \<Rightarrow> u8 \<Rightarrow> symbol" where
  "symbol_from_raw data len = \<lparr>sym_data = data, sym_length = len\<rparr>"

text \<open>\<open>as_str\<close>: the slice panics when the length byte exceeds 32; invalid UTF-8 reads as
  the empty string.\<close>

definition symbol_as_str :: "symbol \<Rightarrow> (string, 'e) result" where
  "symbol_as_str s =
     map_ok (\<lambda>bs. case from_utf8 bs of Some t \<Rightarrow> t | None \<Rightarrow> '''')
       (subslice (sym_data s) 0 (unat (sym_length s)))"

definition symbol_len :: "symbol \<Rightarrow> usize" where
  "symbol_len s = unat (sym_length s)"

definition symbol_is_empty :: "symbol \<Rightarrow> bool" where
  "symbol_is_empty s \<longleftrightarrow> sym_length s = 0"

definition symbol_default :: symbol where
  "symbol_default = \<lparr>sym_data = replicate MAX_SYMBOL_LENGTH 0, sym_length = 0\<rparr>"

text \<open>\<open>PartialEq\<close> compares the displayed strings.\<close>

definition symbol_eq :: "symbol \<Rightarrow> symbol \<Rightarrow> (bool, 'e) result" where
  "symbol_eq a b =
     rbind (symbol_as_str a) (\<lambda>x. rbind (symbol_as_str b) (\<lambda>y. Ok (x = y)))"

definition symbol_wf :: "symbol \<Rightarrow> bool" where
  "symbol_wf s \<longleftrightarrow> length (sym_data s) = MAX_SYMBOL_LENGTH"

lemma symbol_new_wf: "symbol_wf (symbol_new s)"
  by (simp add: symbol_wf_def symbol_new_def Let_def)

lemma symbol_as_str_Panic_iff:
  "symbol_wf s \<Longrightarrow> symbol_as_str s = Panic \<longleftrightarrow> 32 < unat (sym_length s)"
  by (auto simp: symbol_as_str_def subslice_def symbol_wf_def MAX_SYMBOL_LENGTH_def)

lemma symbol_new_as_str:
  assumes "is_str s" and "length s \<le> MAX_SYMBOL_LENGTH"
  shows "symbol_as_str (symbol_new s) = Ok s"
  using assms
  by (simp add: symbol_as_str_def symbol_new_def Let_def subslice_def MAX_SYMBOL_LENGTH_def
      unat_small_len)

section \<open>Exchange and side\<close>

datatype codec_exchange = CxUnknown | CxDeribit | CxBinance | CxBybit | CxOKX

definition codec_exchange_from_u8 :: "u8 \<Rightarrow> codec_exchange option" where
  "codec_exchange_from_u8 value =
     (if value = 0 then Some CxUnknown
      else if value = 1 then Some CxDeribit
      else if value = 2 then Some CxBinance
      else if value = 3 then Some CxBybit
      else if value = 4 then Some CxOKX
      else None)"

fun codec_exchange_as_u8 :: "codec_exchange \<Rightarrow> u8" where
  "codec_exchange_as_u8 CxUnknown = 0"
| "codec_exchange_as_u8 CxDeribit = 1"
| "codec_exchange_as_u8 CxBinance = 2"
| "codec_exchange_as_u8 CxBybit = 3"
| "codec_exchange_as_u8 CxOKX = 4"

datatype codec_side = CsBuy | CsSell

definition codec_side_from_u8 :: "u8 \<Rightarrow> codec_side option" where
  "codec_side_from_u8 value =
     (if value = 0 then Some CsBuy else if value = 1 then Some CsSell else None)"

fun codec_side_as_u8 :: "codec_side \<Rightarrow> u8" where
  "codec_side_as_u8 CsBuy = 0"
| "codec_side_as_u8 CsSell = 1"

lemma codec_exchange_roundtrip [simp]:
  "codec_exchange_from_u8 (codec_exchange_as_u8 e) = Some e"
  by (cases e) (simp_all add: codec_exchange_from_u8_def)

lemma codec_side_roundtrip [simp]: "codec_side_from_u8 (codec_side_as_u8 s) = Some s"
  by (cases s) (simp_all add: codec_side_from_u8_def)

lemma codec_exchange_from_u8_Some:
  "codec_exchange_from_u8 v = Some e \<Longrightarrow> codec_exchange_as_u8 e = v"
  by (auto simp: codec_exchange_from_u8_def split: if_splits)

lemma codec_side_from_u8_Some: "codec_side_from_u8 v = Some s \<Longrightarrow> codec_side_as_u8 s = v"
  by (auto simp: codec_side_from_u8_def split: if_splits)

section \<open>Message records\<close>

type_synonym sha256 = bytes

definition sha256_zeroed :: sha256 where
  "sha256_zeroed = replicate 32 0"

definition sha256_display :: "sha256 \<Rightarrow> string" where
  "sha256_display h = concat (map hex2 h)"

record session_start_data =
  ss_timestamp :: i64
  ss_session_id :: u64
  ss_exchange :: codec_exchange
  ss_metadata :: bytes

record session_end_data =
  se_timestamp :: i64
  se_session_id :: u64
  se_record_count :: u64
  se_final_state_hash :: sha256

record checkpoint_msg =
  cp_timestamp :: i64
  cp_sequence_number :: u64
  cp_state_hash :: sha256
  cp_orderbook_hash :: sha256
  cp_position_hash :: sha256

record raw_frame_data =
  rf_timestamp :: i64
  rf_exchange :: codec_exchange
  rf_sequence_number :: u32
  rf_payload :: bytes

record quote_update_data =
  qu_timestamp :: i64
  qu_exchange :: codec_exchange
  qu_symbol :: symbol
  qu_bid_price :: i64
  qu_bid_size :: i64
  qu_ask_price :: i64
  qu_ask_size :: i64

record trade_data =
  tr_timestamp :: i64
  tr_exchange :: codec_exchange
  tr_symbol :: symbol
  tr_price :: i64
  tr_size :: i64
  tr_side :: codec_side
  tr_trade_id :: bytes

record order_submit_data =
  os_timestamp :: i64
  os_exchange :: codec_exchange
  os_symbol :: symbol
  os_side :: codec_side
  os_price :: i64
  os_size :: i64
  os_client_order_id :: bytes

record order_ack_data =
  oa_timestamp :: i64
  oa_exchange :: codec_exchange
  oa_client_order_id :: bytes
  oa_exchange_order_id :: bytes

record order_fill_data =
  of_timestamp :: i64
  of_exchange :: codec_exchange
  of_fill_price :: i64
  of_fill_size :: i64
  of_remaining_size :: i64
  of_exchange_order_id :: bytes

record state_change_data =
  sc_timestamp :: i64
  sc_event_type :: u16
  sc_state_data :: bytes

record signal_data =
  sg_timestamp :: i64
  sg_signal_type :: u16
  sg_exchange :: codec_exchange
  sg_symbol :: symbol
  sg_side :: codec_side
  sg_strength :: i64
  sg_metadata :: bytes

datatype decoded_message =
    MSessionStart session_start_data
  | MSessionEnd session_end_data
  | MCheckpoint checkpoint_msg
  | MRawFrame raw_frame_data
  | MQuoteUpdate quote_update_data
  | MTrade trade_data
  | MOrderSubmit order_submit_data
  | MOrderAck order_ack_data
  | MOrderFill order_fill_data
  | MStateChange state_change_data
  | MSignal signal_data

fun message_timestamp :: "decoded_message \<Rightarrow> i64" where
  "message_timestamp (MSessionStart d) = ss_timestamp d"
| "message_timestamp (MSessionEnd d) = se_timestamp d"
| "message_timestamp (MCheckpoint d) = cp_timestamp d"
| "message_timestamp (MRawFrame d) = rf_timestamp d"
| "message_timestamp (MQuoteUpdate d) = qu_timestamp d"
| "message_timestamp (MTrade d) = tr_timestamp d"
| "message_timestamp (MOrderSubmit d) = os_timestamp d"
| "message_timestamp (MOrderAck d) = oa_timestamp d"
| "message_timestamp (MOrderFill d) = of_timestamp d"
| "message_timestamp (MStateChange d) = sc_timestamp d"
| "message_timestamp (MSignal d) = sg_timestamp d"

fun message_id :: "decoded_message \<Rightarrow> u16" where
  "message_id (MSessionStart _) = 1"
| "message_id (MSessionEnd _) = 2"
| "message_id (MCheckpoint _) = 3"
| "message_id (MRawFrame _) = 256"
| "message_id (MQuoteUpdate _) = 257"
| "message_id (MTrade _) = 258"
| "message_id (MOrderSubmit _) = 512"
| "message_id (MOrderAck _) = 513"
| "message_id (MOrderFill _) = 514"
| "message_id (MStateChange _) = 768"
| "message_id (MSignal _) = 769"

section \<open>Errors\<close>

datatype decode_error =
    DecBufferTooSmall usize usize
  | InvalidMessageType u16
  | InvalidEnumValue string u64
  | InvalidUtf8 string string
  | DecVarDataTooLarge string usize usize
  | ChecksumMismatch u32 u32

datatype encode_error =
    EncBufferTooSmall usize usize
  | StringTooLong string usize usize
  | EncVarDataTooLarge string usize usize

datatype codec_error =
    UnsupportedVersion u8 u8
  | SchemaParseError string
  | CodecDecode decode_error
  | CodecEncode encode_error

section \<open>Type invariant of messages\<close>

text \<open>
  The sizes of the fixed arrays, and lengths that fit the \<open>u32\<close> length prefix (a
  \<open>Vec<u8>\<close> of 4 GiB or more is the only input the wire format cannot carry).
\<close>

definition var_ok :: "bytes \<Rightarrow> bool" where
  "var_ok bs \<longleftrightarrow> length bs < 2 ^ 32"

fun message_wf :: "decoded_message \<Rightarrow> bool" where
  "message_wf (MSessionStart d) \<longleftrightarrow> var_ok (ss_metadata d)"
| "message_wf (MSessionEnd d) \<longleftrightarrow> length (se_final_state_hash d) = 32"
| "message_wf (MCheckpoint d) \<longleftrightarrow> length (cp_state_hash d) = 32
     \<and> length (cp_orderbook_hash d) = 32 \<and> length (cp_position_hash d) = 32"
| "message_wf (MRawFrame d) \<longleftrightarrow> var_ok (rf_payload d)"
| "message_wf (MQuoteUpdate d) \<longleftrightarrow> symbol_wf (qu_symbol d)"
| "message_wf (MTrade d) \<longleftrightarrow> symbol_wf (tr_symbol d) \<and> var_ok (tr_trade_id d)"
| "message_wf (MOrderSubmit d) \<longleftrightarrow> symbol_wf (os_symbol d) \<and> var_ok (os_client_order_id d)"
| "message_wf (MOrderAck d) \<longleftrightarrow> var_ok (oa_client_order_id d) \<and> var_ok (oa_exchange_order_id d)"
| "message_wf (MOrderFill d) \<longleftrightarrow> var_ok (of_exchange_order_id d)"
| "message_wf (MStateChange d) \<longleftrightarrow> var_ok (sc_state_data d)"
| "message_wf (MSignal d) \<longleftrightarrow> symbol_wf (sg_symbol d) \<and> var_ok (sg_metadata d)"

end
