(* ===== verification/Codec_Wire.thy ===== *)
theory Codec_Wire
  imports Codec_Data
begin

text \<open>
  The \<open>read_le\<close> and \<open>write_le\<close> helpers of \<open>codec/traits.rs\<close>. The callers pass
  \<open>&buf[off..]\<close>; the model takes the buffer and the offset, and a read or write that
  does not fit behind the offset panics as the indexing would.
\<close>

definition read_u8 :: "bytes \<Rightarrow> usize \<Rightarrow> (u8, 'e) result" where
  "read_u8 buf off = index buf off"

definition read_u16 :: "bytes \<Rightarrow> usize \<Rightarrow> (u16, 'e) result" where
  "read_u16 buf off = map_ok from_le (subslice buf off (off + 2))"

definition read_u32 :: "bytes \<Rightarrow> usize \<Rightarrow> (u32, 'e) result" where
  "read_u32 buf off = map_ok from_le (subslice buf off (off + 4))"

definition read_u64 :: "bytes \<Rightarrow> usize \<Rightarrow> (u64, 'e) result" where
  "read_u64 buf off = map_ok from_le (subslice buf off (off + 8))"

definition read_i64 :: "bytes \<Rightarrow> usize \<Rightarrow> (i64, 'e) result" where
  "read_i64 buf off = map_ok from_le (subslice buf off (off + 8))"

definition write_u8 :: "bytes \<Rightarrow> usize \<Rightarrow> u8 \<Rightarrow> (bytes, 'e) result" where
  "write_u8 buf off v = set_index buf off v"

definition write_u16 :: "bytes \<Rightarrow> usize \<Rightarrow> u16 \<Rightarrow> (bytes, 'e) result" where
  "write_u16 buf off v = write_at buf off (to_le v)"

definition write_u32 :: "bytes \<Rightarrow> usize \<Rightarrow> u32 \<Rightarrow> (bytes, 'e) result" where
  "write_u32 buf off v = write_at buf off (to_le v)"

definition write_u64 :: "bytes \<Rightarrow> usize \<Rightarrow> u64 \<Rightarrow> (bytes, 'e) result" where
  "write_u64 buf off v = write_at buf off (to_le v)"

definition write_i64 :: "bytes \<Rightarrow> usize \<Rightarrow> i64 \<Rightarrow> (bytes, 'e) result" where
  "write_i64 buf off v = write_at buf off (to_le v)"

lemmas wire_defs = read_u8_def read_u16_def read_u32_def read_u64_def read_i64_def
  write_u8_def write_u16_def write_u32_def write_u64_def write_i64_def

lemma read_not_Err [simp]:
  "read_u8 buf off \<noteq> Err e" "read_u16 buf off \<noteq> Err e" "read_u32 buf off \<noteq> Err e"
  "read_u64 buf off \<noteq> Err e" "read_i64 buf off \<noteq> Err e"
  by (simp_all add: wire_defs index_def subslice_def)

lemma read_in_range:
  "off < length buf \<Longrightarrow> read_u8 buf off = Ok (buf ! off)"
  "off + 2 \<le> length buf \<Longrightarrow> read_u16 buf off = Ok (from_le (take 2 (drop off buf)))"
  "off + 4 \<le> length buf \<Longrightarrow> read_u32 buf off = Ok (from_le (take 4 (drop off buf)))"
  "off + 8 \<le> length buf \<Longrightarrow> read_u64 buf off = Ok (from_le (take 8 (drop off buf)))"
  "off + 8 \<le> length buf \<Longrightarrow> read_i64 buf off = Ok (from_le (take 8 (drop off buf)))"
  by (simp_all add: wire_defs index_def subslice_def)

lemma write_in_range:
  "off < length buf \<Longrightarrow> write_u8 buf off a = Ok (take off buf @ [a] @ drop (off + 1) buf)"
  "off + 2 \<le> length buf \<Longrightarrow> write_u16 buf off b = Ok (take off buf @ to_le b @ drop (off + 2) buf)"
  "off + 4 \<le> length buf \<Longrightarrow> write_u32 buf off c = Ok (take off buf @ to_le c @ drop (off + 4) buf)"
  "off + 8 \<le> length buf \<Longrightarrow> write_u64 buf off d = Ok (take off buf @ to_le d @ drop (off + 8) buf)"
  "off + 8 \<le> length buf \<Longrightarrow> write_i64 buf off d = Ok (take off buf @ to_le d @ drop (off + 8) buf)"
  by (simp_all add: wire_defs set_index_def write_at_def upd_conv_take_nth_drop)

lemma take_drop_append:
  "take n (drop m (xs @ ys)) =
     take n (drop m xs) @ take (n - (length xs - m)) (drop (m - length xs) ys)"
  by simp

text \<open>Reads of a field that starts right after a known prefix.\<close>

lemma read_after [wire_simps]:
  "length pre = off \<Longrightarrow> read_u8 (pre @ x # rest) off = Ok x"
  "length pre = off \<Longrightarrow> read_u16 (pre @ to_le b @ rest) off = Ok b"
  "length pre = off \<Longrightarrow> read_u32 (pre @ to_le c @ rest) off = Ok c"
  "length pre = off \<Longrightarrow> read_u64 (pre @ to_le d @ rest) off = Ok d"
  "length pre = off \<Longrightarrow> read_i64 (pre @ to_le d @ rest) off = Ok d"
  by (auto simp: wire_defs index_def subslice_def)

end
