(* ===== verification/Codec_Encoder.thy ===== *)
theory Codec_Encoder
  imports Codec_Wire
begin

text \<open>
  \<open>codec/v1_0/encoder.rs\<close>: the v1.0 encoder, one definition per message, writing in
  place into the caller's buffer and returning the size written together with the
  buffer. \<open>wire_layout\<close> is the abstract format: the bytes a message stands for. The
  refinement lemmas say that each encoder writes exactly those bytes at the front of
  the buffer, leaves the rest alone, and rejects a buffer that is too small.
\<close>

section \<open>Helpers\<close>

definition enc_check_size :: "bytes \<Rightarrow> usize \<Rightarrow> (unit, encode_error) result" where
  "enc_check_size buf required =
     (if length buf < required then Err (EncBufferTooSmall required (length buf)) else Ok ())"

definition write_symbol :: "bytes \<Rightarrow> usize \<Rightarrow> symbol \<Rightarrow> (bytes, encode_error) result" where
  "write_symbol buf offset s =
     rbind (write_at buf offset (sym_data s)) (\<lambda>buf.
     set_index buf (offset + MAX_SYMBOL_LENGTH) (sym_length s))"

definition write_sha256 :: "bytes \<Rightarrow> usize \<Rightarrow> sha256 \<Rightarrow> (bytes, encode_error) result" where
  "write_sha256 buf offset h = write_at buf offset h"

definition write_var_data ::
    "bytes \<Rightarrow> usize \<Rightarrow> bytes \<Rightarrow> (usize \<times> bytes, encode_error) result" where
  "write_var_data buf offset data =
     (let required = offset + 4 + length data in
      if length buf < required then Err (EncBufferTooSmall required (length buf))
      else rbind (write_u32 buf offset (of_nat (length data))) (\<lambda>buf.
           rbind (write_at buf (offset + 4) data) (\<lambda>buf.
           Ok (4 + length data, buf))))"

section \<open>Message encoders\<close>

definition encode_session_start ::
    "session_start_data \<Rightarrow> bytes \<Rightarrow> (usize \<times> bytes, encode_error) result" where
  "encode_session_start data buf =
     (let fixed_size = 8 + 8 + 1; total_size = fixed_size + 4 + length (ss_metadata data) in
      rbind (enc_check_size buf total_size) (\<lambda>_.
      rbind (write_i64 buf 0 (ss_timestamp data)) (\<lambda>buf.
      rbind (write_u64 buf 8 (ss_session_id data)) (\<lambda>buf.
      rbind (write_u8 buf 16 (codec_exchange_as_u8 (ss_exchange data))) (\<lambda>buf.
      rbind (write_var_data buf fixed_size (ss_metadata data)) (\<lambda>(_, buf).
      Ok (total_size, buf)))))))"

definition encode_session_end ::
    "session_end_data \<Rightarrow> bytes \<Rightarrow> (usize \<times> bytes, encode_error) result" where
  "encode_session_end data buf =
     (let fixed_size = 8 + 8 + 8 + 32 in
      rbind (enc_check_size buf fixed_size) (\<lambda>_.
      rbind (write_i64 buf 0 (se_timestamp data)) (\<lambda>buf.
      rbind (write_u64 buf 8 (se_session_id data)) (\<lambda>buf.
      rbind (write_u64 buf 16 (se_record_count data)) (\<lambda>buf.
      rbind (write_sha256 buf 24 (se_final_state_hash data)) (\<lambda>buf.
      Ok (fixed_size, buf)))))))"

definition encode_checkpoint ::
    "checkpoint_msg \<Rightarrow> bytes \<Rightarrow> (usize \<times> bytes, encode_error) result" where
  "encode_checkpoint data buf =
     (let fixed_size = 8 + 8 + 32 + 32 + 32 in
      rbind (enc_check_size buf fixed_size) (\<lambda>_.
      rbind (write_i64 buf 0 (cp_timestamp data)) (\<lambda>buf.
      rbind (write_u64 buf 8 (cp_sequence_number data)) (\<lambda>buf.
      rbind (write_sha256 buf 16 (cp_state_hash data)) (\<lambda>buf.
      rbind (write_sha256 buf 48 (cp_orderbook_hash data)) (\<lambda>buf.
      rbind (write_sha256 buf 80 (cp_position_hash data)) (\<lambda>buf.
      Ok (fixed_size, buf))))))))"

definition encode_raw_frame ::
    "raw_frame_data \<Rightarrow> bytes \<Rightarrow> (usize \<times> bytes, encode_error) result" where
  "encode_raw_frame data buf =
     (let fixed_size = 8 + 1 + 4; total_size = fixed_size + 4 + length (rf_payload data) in
      rbind (enc_check_size buf total_size) (\<lambda>_.
      rbind (write_i64 buf 0 (rf_timestamp data)) (\<lambda>buf.
      rbind (write_u8 buf 8 (codec_exchange_as_u8 (rf_exchange data))) (\<lambda>buf.
      rbind (write_u32 buf 9 (rf_sequence_number data)) (\<lambda>buf.
      rbind (write_var_data buf fixed_size (rf_payload data)) (\<lambda>(_, buf).
      Ok (total_size, buf)))))))"

definition encode_quote_update ::
    "quote_update_data \<Rightarrow> bytes \<Rightarrow> (usize \<times> bytes, encode_error) result" where
  "encode_quote_update data buf =
     (let fixed_size = 8 + 1 + 33 + 8 + 8 + 8 + 8 in
      rbind (enc_check_size buf fixed_size) (\<lambda>_.
      rbind (write_i64 buf 0 (qu_timestamp data)) (\<lambda>buf.
      rbind (write_u8 buf 8 (codec_exchange_as_u8 (qu_exchange data))) (\<lambda>buf.
      rbind (write_symbol buf 9 (qu_symbol data)) (\<lambda>buf.
      rbind (write_i64 buf 42 (qu_bid_price data)) (\<lambda>buf.
      rbind (write_i64 buf 50 (qu_bid_size data)) (\<lambda>buf.
      rbind (write_i64 buf 58 (qu_ask_price data)) (\<lambda>buf.
      rbind (write_i64 buf 66 (qu_ask_size data)) (\<lambda>buf.
      Ok (fixed_size, buf))))))))))"

definition encode_trade ::
    "trade_data \<Rightarrow> bytes \<Rightarrow> (usize \<times> bytes, encode_error) result" where
  "encode_trade data buf =
     (let fixed_size = 8 + 1 + 33 + 8 + 8 + 1;
          total_size = fixed_size + 4 + length (tr_trade_id data) in
      rbind (enc_check_size buf total_size) (\<lambda>_.
      rbind (write_i64 buf 0 (tr_timestamp data)) (\<lambda>buf.
      rbind (write_u8 buf 8 (codec_exchange_as_u8 (tr_exchange data))) (\<lambda>buf.
      rbind (write_symbol buf 9 (tr_symbol data)) (\<lambda>buf.
      rbind (write_i64 buf 42 (tr_price data)) (\<lambda>buf.
      rbind (write_i64 buf 50 (tr_size data)) (\<lambda>buf.
      rbind (write_u8 buf 58 (codec_side_as_u8 (tr_side data))) (\<lambda>buf.
      rbind (write_var_data buf fixed_size (tr_trade_id data)) (\<lambda>(_, buf).
      Ok (total_size, buf))))))))))"

definition encode_order_submit ::
    "order_submit_data \<Rightarrow> bytes \<Rightarrow> (usize \<times> bytes, encode_error) result" where
  "encode_order_submit data buf =
     (let fixed_size = 8 + 1 + 33 + 1 + 8 + 8;
          total_size = fixed_size + 4 + length (os_client_order_id data) in
      rbind (enc_check_size buf total_size) (\<lambda>_.
      rbind (write_i64 buf 0 (os_timestamp data)) (\<lambda>buf.
      rbind (write_u8 buf 8 (codec_exchange_as_u8 (os_exchange data))) (\<lambda>buf.
      rbind (write_symbol buf 9 (os_symbol data)) (\<lambda>buf.
      rbind (write_u8 buf 42 (codec_side_as_u8 (os_side data))) (\<lambda>buf.
      rbind (write_i64 buf 43 (os_price data)) (\<lambda>buf.
      rbind (write_i64 buf 51 (os_size data)) (\<lambda>buf.
      rbind (write_var_data buf fixed_size (os_client_order_id data)) (\<lambda>(_, buf).
      Ok (total_size, buf))))))))))"

definition encode_order_ack ::
    "order_ack_data \<Rightarrow> bytes \<Rightarrow> (usize \<times> bytes, encode_error) result" where
  "encode_order_ack data buf =
     (let fixed_size = 8 + 1;
          total_size = fixed_size + 4 + length (oa_client_order_id data)
                       + 4 + length (oa_exchange_order_id data) in
      rbind (enc_check_size buf total_size) (\<lambda>_.
      rbind (write_i64 buf 0 (oa_timestamp data)) (\<lambda>buf.
      rbind (write_u8 buf 8 (codec_exchange_as_u8 (oa_exchange data))) (\<lambda>buf.
      rbind (write_var_data buf fixed_size (oa_client_order_id data)) (\<lambda>(consumed1, buf).
      rbind (write_var_data buf (fixed_size + consumed1) (oa_exchange_order_id data)) (\<lambda>(_, buf).
      Ok (total_size, buf)))))))"

definition encode_order_fill ::
    "order_fill_data \<Rightarrow> bytes \<Rightarrow> (usize \<times> bytes, encode_error) result" where
  "encode_order_fill data buf =
     (let fixed_size = 8 + 1 + 8 + 8 + 8;
          total_size = fixed_size + 4 + length (of_exchange_order_id data) in
      rbind (enc_check_size buf total_size) (\<lambda>_.
      rbind (write_i64 buf 0 (of_timestamp data)) (\<lambda>buf.
      rbind (write_u8 buf 8 (codec_exchange_as_u8 (of_exchange data))) (\<lambda>buf.
      rbind (write_i64 buf 9 (of_fill_price data)) (\<lambda>buf.
      rbind (write_i64 buf 17 (of_fill_size data)) (\<lambda>buf.
      rbind (write_i64 buf 25 (of_remaining_size data)) (\<lambda>buf.
      rbind (write_var_data buf fixed_size (of_exchange_order_id data)) (\<lambda>(_, buf).
      Ok (total_size, buf)))))))))"

definition encode_state_change ::
    "state_change_data \<Rightarrow> bytes \<Rightarrow> (usize \<times> bytes, encode_error) result" where
  "encode_state_change data buf =
     (let fixed_size = 8 + 2; total_size = fixed_size + 4 + length (sc_state_data data) in
      rbind (enc_check_size buf total_size) (\<lambda>_.
      rbind (write_i64 buf 0 (sc_timestamp data)) (\<lambda>buf.
      rbind (write_u16 buf 8 (sc_event_type data)) (\<lambda>buf.
      rbind (write_var_data buf fixed_size (sc_state_data data)) (\<lambda>(_, buf).
      Ok (total_size, buf))))))"

definition encode_signal ::
    "signal_data \<Rightarrow> bytes \<Rightarrow> (usize \<times> bytes, encode_error) result" where
  "encode_signal data buf =
     (let fixed_size = 8 + 2 + 1 + 33 + 1 + 8;
          total_size = fixed_size + 4 + length (sg_metadata data) in
      rbind (enc_check_size buf total_size) (\<lambda>_.
      rbind (write_i64 buf 0 (sg_timestamp data)) (\<lambda>buf.
      rbind (write_u16 buf 8 (sg_signal_type data)) (\<lambda>buf.
      rbind (write_u8 buf 10 (codec_exchange_as_u8 (sg_exchange data))) (\<lambda>buf.
      rbind (write_symbol buf 11 (sg_symbol data)) (\<lambda>buf.
      rbind (write_u8 buf 44 (codec_side_as_u8 (sg_side data))) (\<lambda>buf.
      rbind (write_i64 buf 45 (sg_strength data)) (\<lambda>buf.
      rbind (write_var_data buf fixed_size (sg_metadata data)) (\<lambda>(_, buf).
      Ok (total_size, buf))))))))))"

fun encoded_size :: "decoded_message \<Rightarrow> usize" where
  "encoded_size (MSessionStart d) = 17 + 4 + length (ss_metadata d)"
| "encoded_size (MSessionEnd _) = 56"
| "encoded_size (MCheckpoint _) = 112"
| "encoded_size (MRawFrame d) = 13 + 4 + length (rf_payload d)"
| "encoded_size (MQuoteUpdate _) = 74"
| "encoded_size (MTrade d) = 59 + 4 + length (tr_trade_id d)"
| "encoded_size (MOrderSubmit d) = 59 + 4 + length (os_client_order_id d)"
| "encoded_size (MOrderAck d) =
     9 + 4 + length (oa_client_order_id d) + 4 + length (oa_exchange_order_id d)"
| "encoded_size (MOrderFill d) = 33 + 4 + length (of_exchange_order_id d)"
| "encoded_size (MStateChange d) = 10 + 4 + length (sc_state_data d)"
| "encoded_size (MSignal d) = 53 + 4 + length (sg_metadata d)"

text \<open>\<open>MessageEncoder::encode\<close>: dispatch on the message.\<close>

fun encode :: "decoded_message \<Rightarrow> bytes \<Rightarrow> (usize \<times> bytes, encode_error) result" where
  "encode (MSessionStart d) buf = encode_session_start d buf"
| "encode (MSessionEnd d) buf = encode_session_end d buf"
| "encode (MCheckpoint d) buf = encode_checkpoint d buf"
| "encode (MRawFrame d) buf = encode_raw_frame d buf"
| "encode (MQuoteUpdate d) buf = encode_quote_update d buf"
| "encode (MTrade d) buf = encode_trade d buf"
| "encode (MOrderSubmit d) buf = encode_order_submit d buf"
| "encode (MOrderAck d) buf = encode_order_ack d buf"
| "encode (MOrderFill d) buf = encode_order_fill d buf"
| "encode (MStateChange d) buf = encode_state_change d buf"
| "encode (MSignal d) buf = encode_signal d buf"

section \<open>The wire format\<close>

definition wire_var :: "bytes \<Rightarrow> bytes" where
  "wire_var bs = to_le (of_nat (length bs) :: u32) @ bs"

definition wire_symbol :: "symbol \<Rightarrow> bytes" where
  "wire_symbol s = sym_data s @ [sym_length s]"

fun wire_layout :: "decoded_message \<Rightarrow> bytes" where
  "wire_layout (MSessionStart d) =
     to_le (ss_timestamp d) @ to_le (ss_session_id d)
     @ [codec_exchange_as_u8 (ss_exchange d)] @ wire_var (ss_metadata d)"
| "wire_layout (MSessionEnd d) =
     to_le (se_timestamp d) @ to_le (se_session_id d) @ to_le (se_record_count d)
     @ se_final_state_hash d"
| "wire_layout (MCheckpoint d) =
     to_le (cp_timestamp d) @ to_le (cp_sequence_number d)
     @ cp_state_hash d @ cp_orderbook_hash d @ cp_position_hash d"
| "wire_layout (MRawFrame d) =
     to_le (rf_timestamp d) @ [codec_exchange_as_u8 (rf_exchange d)]
     @ to_le (rf_sequence_number d) @ wire_var (rf_payload d)"
| "wire_layout (MQuoteUpdate d) =
     to_le (qu_timestamp d) @ [codec_exchange_as_u8 (qu_exchange d)]
     @ wire_symbol (qu_symbol d) @ to_le (qu_bid_price d) @ to_le (qu_bid_size d)
     @ to_le (qu_ask_price d) @ to_le (qu_ask_size d)"
| "wire_layout (MTrade d) =
     to_le (tr_timestamp d) @ [codec_exchange_as_u8 (tr_exchange d)]
     @ wire_symbol (tr_symbol d) @ to_le (tr_price d) @ to_le (tr_size d)
     @ [codec_side_as_u8 (tr_side d)] @ wire_var (tr_trade_id d)"
| "wire_layout (MOrderSubmit d) =
     to_le (os_timestamp d) @ [codec_exchange_as_u8 (os_exchange d)]
     @ wire_symbol (os_symbol d) @ [codec_side_as_u8 (os_side d)]
     @ to_le (os_price d) @ to_le (os_size d) @ wire_var (os_client_order_id d)"
| "wire_layout (MOrderAck d) =
     to_le (oa_timestamp d) @ [codec_exchange_as_u8 (oa_exchange d)]
     @ wire_var (oa_client_order_id d) @ wire_var (oa_exchange_order_id d)"
| "wire_layout (MOrderFill d) =
     to_le (of_timestamp d) @ [codec_exchange_as_u8 (of_exchange d)]
     @ to_le (of_fill_price d) @ to_le (of_fill_size d) @ to_le (of_remaining_size d)
     @ wire_var (of_exchange_order_id d)"
| "wire_layout (MStateChange d) =
     to_le (sc_timestamp d) @ to_le (sc_event_type d) @ wire_var (sc_state_data d)"
| "wire_layout (MSignal d) =
     to_le (sg_timestamp d) @ to_le (sg_signal_type d)
     @ [codec_exchange_as_u8 (sg_exchange d)] @ wire_symbol (sg_symbol d)
     @ [codec_side_as_u8 (sg_side d)] @ to_le (sg_strength d) @ wire_var (sg_metadata d)"

lemma length_wire_var [simp]: "length (wire_var bs) = 4 + length bs"
  by (simp add: wire_var_def)

lemma length_wire_symbol [simp]: "symbol_wf s \<Longrightarrow> length (wire_symbol s) = 33"
  by (simp add: wire_symbol_def symbol_wf_def MAX_SYMBOL_LENGTH_def)

lemma length_wire_layout:
  "message_wf m \<Longrightarrow> length (wire_layout m) = encoded_size m"
  by (cases m) simp_all


section \<open>Refinement: the encoders write the wire format\<close>

text \<open>A one-byte field kept as an opaque block, so that the writes before and after it line up.\<close>

definition one_byte :: "u8 \<Rightarrow> bytes" where
  "one_byte x = [x]"

lemma length_one_byte [simp]: "length (one_byte x) = 1"
  by (simp add: one_byte_def)

lemma write_u8_in_range:
  "off < length buf \<Longrightarrow> write_u8 buf off a = Ok (take off buf @ one_byte a @ drop (off + 1) buf)"
  by (simp add: one_byte_def write_in_range)

lemma set_index_one_byte:
  "off < length buf \<Longrightarrow> set_index buf off a = Ok (take off buf @ one_byte a @ drop (off + 1) buf)"
  by (simp add: one_byte_def set_index_in_range)

lemma write_var_data_in_range:
  "off + 4 + length data \<le> length buf \<Longrightarrow> write_var_data buf off data =
     Ok (4 + length data, take off buf @ wire_var data @ drop (off + 4 + length data) buf)"
  by (simp add: write_var_data_def write_in_range write_at_in_range wire_var_def
      add.commute add.left_commute)

lemma enc_check_size_in_range: "n \<le> length buf \<Longrightarrow> enc_check_size buf n = Ok ()"
  by (simp add: enc_check_size_def)

lemmas encoder_defs = encode_session_start_def encode_session_end_def encode_checkpoint_def
  encode_raw_frame_def encode_quote_update_def encode_trade_def encode_order_submit_def
  encode_order_ack_def encode_order_fill_def encode_state_change_def encode_signal_def

lemmas encoder_writes = write_u8_in_range write_in_range(2-5) write_at_in_range
  enc_check_size_in_range write_symbol_def write_sha256_def set_index_one_byte symbol_wf_def
  MAX_SYMBOL_LENGTH_def write_var_data_in_range

lemma encode_too_small:
  "length buf < encoded_size m \<Longrightarrow>
     encode m buf = Err (EncBufferTooSmall (encoded_size m) (length buf))"
  by (cases m) (simp_all add: enc_check_size_def encoder_defs)

lemma encode_writes_layout:
  assumes "message_wf m" and "encoded_size m \<le> length buf"
  shows "encode m buf = Ok (encoded_size m, wire_layout m @ drop (encoded_size m) buf)"
  using assms
  by (cases m; simp add: encoder_defs encoder_writes Let_def;
      simp add: one_byte_def wire_symbol_def add_ac)

end
