(* ===== verification/Codec_Decoder.thy ===== *)
theory Codec_Decoder
  imports Codec_Encoder
begin

text \<open>
  \<open>codec/v1_0/decoder.rs\<close> and \<open>MessageDecoder::decode_by_id\<close>: the v1.0 decoder, one
  definition per message. Every slice and index is a panicking read; the lemmas show
  that the size checks in front of them make the decoder total, that decoding inverts
  the wire format with any trailing bytes, and that everything it accepts is
  well-formed.
\<close>

section \<open>Helpers\<close>

definition dec_check_size :: "bytes \<Rightarrow> usize \<Rightarrow> (unit, decode_error) result" where
  "dec_check_size buf expected =
     (if length buf < expected then Err (DecBufferTooSmall expected (length buf)) else Ok ())"

definition read_symbol :: "bytes \<Rightarrow> usize \<Rightarrow> (symbol, decode_error) result" where
  "read_symbol buf offset =
     rbind (subslice buf offset (offset + MAX_SYMBOL_LENGTH)) (\<lambda>data.
     rbind (index buf (offset + MAX_SYMBOL_LENGTH)) (\<lambda>len.
     Ok (symbol_from_raw data len)))"

definition read_sha256 :: "bytes \<Rightarrow> usize \<Rightarrow> (sha256, decode_error) result" where
  "read_sha256 buf offset = subslice buf offset (offset + 32)"

definition read_var_data ::
    "bytes \<Rightarrow> usize \<Rightarrow> (bytes \<times> usize, decode_error) result" where
  "read_var_data buf offset =
     (if length buf < offset + 4 then Err (DecBufferTooSmall (offset + 4) (length buf))
      else rbind (read_u32 buf offset) (\<lambda>n.
        let len = unat n in
        if length buf < offset + 4 + len
        then Err (DecBufferTooSmall (offset + 4 + len) (length buf))
        else rbind (subslice buf (offset + 4) (offset + 4 + len)) (\<lambda>bs.
          Ok (bs, 4 + len))))"

definition read_exchange :: "u8 \<Rightarrow> (codec_exchange, decode_error) result" where
  "read_exchange value =
     ok_or (InvalidEnumValue ''Exchange'' (ucast value)) (codec_exchange_from_u8 value)"

definition read_side :: "u8 \<Rightarrow> (codec_side, decode_error) result" where
  "read_side value =
     ok_or (InvalidEnumValue ''Side'' (ucast value)) (codec_side_from_u8 value)"

section \<open>Message decoders\<close>

definition decode_session_start :: "bytes \<Rightarrow> (session_start_data, decode_error) result" where
  "decode_session_start buf =
     (let fixed_size = 8 + 8 + 1 in
      rbind (dec_check_size buf fixed_size) (\<lambda>_.
      rbind (read_i64 buf 0) (\<lambda>timestamp.
      rbind (read_u64 buf 8) (\<lambda>session_id.
      rbind (rbind (index buf 16) read_exchange) (\<lambda>exch.
      rbind (read_var_data buf fixed_size) (\<lambda>(metadata, _).
      Ok \<lparr>ss_timestamp = timestamp, ss_session_id = session_id, ss_exchange = exch,
          ss_metadata = metadata\<rparr>))))))"

definition decode_session_end :: "bytes \<Rightarrow> (session_end_data, decode_error) result" where
  "decode_session_end buf =
     (let fixed_size = 8 + 8 + 8 + 32 in
      rbind (dec_check_size buf fixed_size) (\<lambda>_.
      rbind (read_i64 buf 0) (\<lambda>timestamp.
      rbind (read_u64 buf 8) (\<lambda>session_id.
      rbind (read_u64 buf 16) (\<lambda>record_count.
      rbind (read_sha256 buf 24) (\<lambda>final_state_hash.
      Ok \<lparr>se_timestamp = timestamp, se_session_id = session_id,
          se_record_count = record_count, se_final_state_hash = final_state_hash\<rparr>))))))"

definition decode_checkpoint :: "bytes \<Rightarrow> (checkpoint_msg, decode_error) result" where
  "decode_checkpoint buf =
     (let fixed_size = 8 + 8 + 32 + 32 + 32 in
      rbind (dec_check_size buf fixed_size) (\<lambda>_.
      rbind (read_i64 buf 0) (\<lambda>timestamp.
      rbind (read_u64 buf 8) (\<lambda>sequence_number.
      rbind (read_sha256 buf 16) (\<lambda>state_hash.
      rbind (read_sha256 buf 48) (\<lambda>orderbook_hash.
      rbind (read_sha256 buf 80) (\<lambda>position_hash.
      Ok \<lparr>cp_timestamp = timestamp, cp_sequence_number = sequence_number,
          cp_state_hash = state_hash, cp_orderbook_hash = orderbook_hash,
          cp_position_hash = position_hash\<rparr>)))))))"

definition decode_raw_frame :: "bytes \<Rightarrow> (raw_frame_data, decode_error) result" where
  "decode_raw_frame buf =
     (let fixed_size = 8 + 1 + 4 in
      rbind (dec_check_size buf fixed_size) (\<lambda>_.
      rbind (read_i64 buf 0) (\<lambda>timestamp.
      rbind (rbind (index buf 8) read_exchange) (\<lambda>exch.
      rbind (read_u32 buf 9) (\<lambda>sequence_number.
      rbind (read_var_data buf fixed_size) (\<lambda>(payload, _).
      Ok \<lparr>rf_timestamp = timestamp, rf_exchange = exch,
          rf_sequence_number = sequence_number, rf_payload = payload\<rparr>))))))"

definition decode_quote_update :: "bytes \<Rightarrow> (quote_update_data, decode_error) result" where
  "decode_quote_update buf =
     (let fixed_size = 8 + 1 + 33 + 8 + 8 + 8 + 8 in
      rbind (dec_check_size buf fixed_size) (\<lambda>_.
      rbind (read_i64 buf 0) (\<lambda>timestamp.
      rbind (rbind (index buf 8) read_exchange) (\<lambda>exch.
      rbind (read_symbol buf 9) (\<lambda>sym.
      rbind (read_i64 buf 42) (\<lambda>bid_price.
      rbind (read_i64 buf 50) (\<lambda>bid_size.
      rbind (read_i64 buf 58) (\<lambda>ask_price.
      rbind (read_i64 buf 66) (\<lambda>ask_size.
      Ok \<lparr>qu_timestamp = timestamp, qu_exchange = exch, qu_symbol = sym,
          qu_bid_price = bid_price, qu_bid_size = bid_size,
          qu_ask_price = ask_price, qu_ask_size = ask_size\<rparr>)))))))))"

definition decode_trade :: "bytes \<Rightarrow> (trade_data, decode_error) result" where
  "decode_trade buf =
     (let fixed_size = 8 + 1 + 33 + 8 + 8 + 1 in
      rbind (dec_check_size buf fixed_size) (\<lambda>_.
      rbind (read_i64 buf 0) (\<lambda>timestamp.
      rbind (rbind (index buf 8) read_exchange) (\<lambda>exch.
      rbind (read_symbol buf 9) (\<lambda>sym.
      rbind (read_i64 buf 42) (\<lambda>price.
      rbind (read_i64 buf 50) (\<lambda>size.
      rbind (rbind (index buf 58) read_side) (\<lambda>side.
      rbind (read_var_data buf fixed_size) (\<lambda>(trade_id, _).
      Ok \<lparr>tr_timestamp = timestamp, tr_exchange = exch, tr_symbol = sym, tr_price = price,
          tr_size = size, tr_side = side, tr_trade_id = trade_id\<rparr>)))))))))"

definition decode_order_submit :: "bytes \<Rightarrow> (order_submit_data, decode_error) result" where
  "decode_order_submit buf =
     (let fixed_size = 8 + 1 + 33 + 1 + 8 + 8 in
      rbind (dec_check_size buf fixed_size) (\<lambda>_.
      rbind (read_i64 buf 0) (\<lambda>timestamp.
      rbind (rbind (index buf 8) read_exchange) (\<lambda>exch.
      rbind (read_symbol buf 9) (\<lambda>sym.
      rbind (rbind (index buf 42) read_side) (\<lambda>side.
      rbind (read_i64 buf 43) (\<lambda>price.
      rbind (read_i64 buf 51) (\<lambda>size.
      rbind (read_var_data buf fixed_size) (\<lambda>(client_order_id, _).
      Ok \<lparr>os_timestamp = timestamp, os_exchange = exch, os_symbol = sym, os_side = side,
          os_price = price, os_size = size, os_client_order_id = client_order_id\<rparr>)))))))))"

definition decode_order_ack :: "bytes \<Rightarrow> (order_ack_data, decode_error) result" where
  "decode_order_ack buf =
     (let fixed_size = 8 + 1 in
      rbind (dec_check_size buf fixed_size) (\<lambda>_.
      rbind (read_i64 buf 0) (\<lambda>timestamp.
      rbind (rbind (index buf 8) read_exchange) (\<lambda>exch.
      rbind (read_var_data buf fixed_size) (\<lambda>(client_order_id, consumed1).
      rbind (read_var_data buf (fixed_size + consumed1)) (\<lambda>(exchange_order_id, _).
      Ok \<lparr>oa_timestamp = timestamp, oa_exchange = exch,
          oa_client_order_id = client_order_id,
          oa_exchange_order_id = exchange_order_id\<rparr>))))))"

definition decode_order_fill :: "bytes \<Rightarrow> (order_fill_data, decode_error) result" where
  "decode_order_fill buf =
     (let fixed_size = 8 + 1 + 8 + 8 + 8 in
      rbind (dec_check_size buf fixed_size) (\<lambda>_.
      rbind (read_i64 buf 0) (\<lambda>timestamp.
      rbind (rbind (index buf 8) read_exchange) (\<lambda>exch.
      rbind (read_i64 buf 9) (\<lambda>fill_price.
      rbind (read_i64 buf 17) (\<lambda>fill_size.
      rbind (read_i64 buf 25) (\<lambda>remaining_size.
      rbind (read_var_data buf fixed_size) (\<lambda>(exchange_order_id, _).
      Ok \<lparr>of_timestamp = timestamp, of_exchange = exch, of_fill_price = fill_price,
          of_fill_size = fill_size, of_remaining_size = remaining_size,
          of_exchange_order_id = exchange_order_id\<rparr>))))))))"

definition decode_state_change :: "bytes \<Rightarrow> (state_change_data, decode_error) result" where
  "decode_state_change buf =
     (let fixed_size = 8 + 2 in
      rbind (dec_check_size buf fixed_size) (\<lambda>_.
      rbind (read_i64 buf 0) (\<lambda>timestamp.
      rbind (read_u16 buf 8) (\<lambda>event_type.
      rbind (read_var_data buf fixed_size) (\<lambda>(state_data, _).
      Ok \<lparr>sc_timestamp = timestamp, sc_event_type = event_type,
          sc_state_data = state_data\<rparr>)))))"

definition decode_signal :: "bytes \<Rightarrow> (signal_data, decode_error) result" where
  "decode_signal buf =
     (let fixed_size = 8 + 2 + 1 + 33 + 1 + 8 in
      rbind (dec_check_size buf fixed_size) (\<lambda>_.
      rbind (read_i64 buf 0) (\<lambda>timestamp.
      rbind (read_u16 buf 8) (\<lambda>signal_type.
      rbind (rbind (index buf 10) read_exchange) (\<lambda>exch.
      rbind (read_symbol buf 11) (\<lambda>sym.
      rbind (rbind (index buf 44) read_side) (\<lambda>side.
      rbind (read_i64 buf 45) (\<lambda>strength.
      rbind (read_var_data buf fixed_size) (\<lambda>(metadata, _).
      Ok \<lparr>sg_timestamp = timestamp, sg_signal_type = signal_type, sg_exchange = exch,
          sg_symbol = sym, sg_side = side, sg_strength = strength,
          sg_metadata = metadata\<rparr>)))))))))"

definition decode_by_id :: "u16 \<Rightarrow> bytes \<Rightarrow> (decoded_message, decode_error) result" where
  "decode_by_id mid buf =
     (if mid = 1 then map_ok MSessionStart (decode_session_start buf)
      else if mid = 2 then map_ok MSessionEnd (decode_session_end buf)
      else if mid = 3 then map_ok MCheckpoint (decode_checkpoint buf)
      else if mid = 256 then map_ok MRawFrame (decode_raw_frame buf)
      else if mid = 257 then map_ok MQuoteUpdate (decode_quote_update buf)
      else if mid = 258 then map_ok MTrade (decode_trade buf)
      else if mid = 512 then map_ok MOrderSubmit (decode_order_submit buf)
      else if mid = 513 then map_ok MOrderAck (decode_order_ack buf)
      else if mid = 514 then map_ok MOrderFill (decode_order_fill buf)
      else if mid = 768 then map_ok MStateChange (decode_state_change buf)
      else if mid = 769 then map_ok MSignal (decode_signal buf)
      else Err (InvalidMessageType mid))"

lemmas decoder_defs = decode_session_start_def decode_session_end_def decode_checkpoint_def
  decode_raw_frame_def decode_quote_update_def decode_trade_def decode_order_submit_def
  decode_order_ack_def decode_order_fill_def decode_state_change_def decode_signal_def


section \<open>The decoder never panics\<close>

lemma dec_check_size_Ok: "dec_check_size buf n = Ok u \<longleftrightarrow> n \<le> length buf"
  by (auto simp: dec_check_size_def)

lemma dec_check_size_in_range: "n \<le> length buf \<Longrightarrow> dec_check_size buf n = Ok ()"
  by (simp add: dec_check_size_def)

lemma decoder_helpers_total [simp]:
  "dec_check_size buf n \<noteq> Panic" "read_exchange v \<noteq> Panic" "read_side v \<noteq> Panic"
  "read_var_data buf off \<noteq> Panic"
  by (simp_all add: dec_check_size_def read_exchange_def read_side_def read_var_data_def
      read_in_range subslice_def Let_def)

text \<open>
  C35: Whatever bytes and message id the decoder is handed, it returns a message or a
  \<open>DecodeError\<close>: no slice, index or array conversion in it is ever out of range.
\<close>

theorem decode_never_panics: "decode_by_id mid buf \<noteq> Panic"
  by (auto simp: decode_by_id_def decoder_defs rbind_Panic_iff dec_check_size_Ok read_in_range
      index_in_range subslice_def read_symbol_def read_sha256_def MAX_SYMBOL_LENGTH_def
      split: prod.splits)

section \<open>Decoding inverts the wire format\<close>

text \<open>The length-prefixed field at the front of a byte list, if it is complete.\<close>

definition var_split :: "bytes \<Rightarrow> bytes option" where
  "var_split bs = (let n = unat (from_le (take 4 bs) :: u32) in
     if 4 \<le> length bs \<and> n \<le> length bs - 4 then Some (take n (drop 4 bs)) else None)"

lemma var_split_wire_var_append [simp]: "var_ok data \<Longrightarrow> var_split (wire_var data @ rest) = Some data"
  by (simp add: var_split_def wire_var_def var_ok_def unat_of_nat take_bit_nat_eq_self)

lemma var_split_wire_var [simp]: "var_ok data \<Longrightarrow> var_split (wire_var data) = Some data"
  using var_split_wire_var_append [of data "[]"] by simp

lemma read_var_data_split:
  "off \<le> length buf \<Longrightarrow> var_split (drop off buf) = Some bs \<Longrightarrow>
     read_var_data buf off = Ok (bs, 4 + length bs)"
  by (auto simp: var_split_def read_var_data_def Let_def read_in_range subslice_def add.commute
      split: if_splits)

lemma read_exchange_as_u8 [simp]: "read_exchange (codec_exchange_as_u8 e) = Ok e"
  by (simp add: read_exchange_def)

lemma read_side_as_u8 [simp]: "read_side (codec_side_as_u8 e) = Ok e"
  by (simp add: read_side_def)

lemma decode_wire_layout:
  "message_wf m \<Longrightarrow> decode_by_id (message_id m) (wire_layout m @ rest) = Ok m"
  by (cases m; simp add: decode_by_id_def decoder_defs dec_check_size_in_range read_in_range
      index_in_range read_symbol_def read_sha256_def subslice_in_range symbol_wf_def
      MAX_SYMBOL_LENGTH_def wire_symbol_def symbol_from_raw_def nth_append
      read_var_data_split drop_Cons')

section \<open>Everything the decoder accepts is in wire format\<close>

lemma read_var_data_Ok:
  assumes "read_var_data buf off = Ok (bs, n)"
  shows "n = 4 + length bs \<and> off + n \<le> length buf \<and> var_ok bs
    \<and> wire_var bs = take n (drop off buf)"
proof -
  have fits: "off + 4 + length bs \<le> length buf" "n = 4 + length bs"
    and len: "length bs = unat (from_le (take 4 (drop off buf)) :: u32)"
    and bs: "bs = take (length bs) (drop (4 + off) buf)"
    using assms
    by (auto simp: read_var_data_def Let_def read_in_range subslice_def add.commute
        split: if_splits)
  have "to_le (of_nat (length bs) :: u32) = take 4 (drop off buf)"
    using fits(1) len by (simp add: to_le_from_le)
  moreover have "length bs < 2 ^ 32"
    using len unsigned_less [of "from_le (take 4 (drop off buf)) :: u32", where 'a = nat] by simp
  moreover have "take (4 + length bs) (drop off buf)
      = take 4 (drop off buf) @ take (length bs) (drop (4 + off) buf)"
    by (simp add: take_add)
  ultimately show ?thesis
    using fits bs by (simp add: wire_var_def var_ok_def add.commute)
qed

lemma read_exchange_Ok: "read_exchange v = Ok e \<longleftrightarrow> v = codec_exchange_as_u8 e"
  by (auto simp: read_exchange_def dest: codec_exchange_from_u8_Some)

lemma read_side_Ok: "read_side v = Ok e \<longleftrightarrow> v = codec_side_as_u8 e"
  by (auto simp: read_side_def dest: codec_side_from_u8_Some)

lemma index_Ok_iff: "index buf i = Ok x \<longleftrightarrow> i < length buf \<and> one_byte x = take 1 (drop i buf)"
  by (auto simp: index_def one_byte_def take_Suc_conv_app_nth take_Suc hd_drop_conv_nth)

lemma from_le_eq_iff:
  fixes w :: "'a::len word"
  assumes "length bs = LENGTH('a) div 8" and "8 dvd LENGTH('a)"
  shows "w = from_le bs \<longleftrightarrow> to_le w = bs"
  using assms by (metis from_le_to_le to_le_from_le)

lemma read_Ok_iff:
  "read_u16 buf off = Ok a \<longleftrightarrow> off + 2 \<le> length buf \<and> to_le a = take 2 (drop off buf)"
  "read_u32 buf off = Ok b \<longleftrightarrow> off + 4 \<le> length buf \<and> to_le b = take 4 (drop off buf)"
  "read_u64 buf off = Ok c \<longleftrightarrow> off + 8 \<le> length buf \<and> to_le c = take 8 (drop off buf)"
  "read_i64 buf off = Ok c \<longleftrightarrow> off + 8 \<le> length buf \<and> to_le c = take 8 (drop off buf)"
  by (auto simp: wire_defs subslice_Ok_iff map_ok_Ok_iff from_le_eq_iff to_le_from_le)

text \<open>Adjacent pieces of a buffer join up.\<close>

lemma take_merge:
  "k' = k + a \<Longrightarrow> take a (drop k buf) @ take b (drop k' buf) = take (a + b) (drop k buf)"
  "k' = k + a \<Longrightarrow> take a (drop k buf) @ take b (drop k' buf) @ r = take (a + b) (drop k buf) @ r"
  "take a buf @ take b (drop a buf) = take (a + b) buf"
  "take a buf @ take b (drop a buf) @ r = take (a + b) buf @ r"
  by (simp_all add: take_add add.commute)

lemmas decoder_inv = rbind_Ok_iff map_ok_Ok_iff dec_check_size_Ok read_Ok_iff read_exchange_Ok
  read_side_Ok index_Ok_iff read_symbol_def read_sha256_def subslice_Ok_iff
  MAX_SYMBOL_LENGTH_def symbol_from_raw_def symbol_wf_def wire_symbol_def
  one_byte_def [symmetric]

text \<open>
  The decoder accepts nothing but the wire format. A buffer it decodes starts with
  exactly the bytes the encoder would write for the message it returns; the message has
  the requested id and well-formed fields. So no two messages share an encoding and no
  garbage is silently read as a message.
\<close>

theorem decode_canonical:
  assumes "decode_by_id mid buf = Ok m"
  shows "message_wf m \<and> message_id m = mid \<and> take (encoded_size m) buf = wire_layout m"
  using assms unfolding decode_by_id_def
  by (simp split: if_splits;
      clarsimp simp: decoder_defs decoder_inv dest!: read_var_data_Ok split: prod.splits;
      simp add: take_merge add_ac flip: one_byte_def)

text \<open>
  C3: The codec round trip. Encoding a well-formed message into a buffer that is large
  enough returns the announced size, keeps the buffer's length and every byte behind
  the message, and decoding the buffer by the message's id gives the message back.
\<close>

theorem codec_roundtrip:
  assumes "message_wf m" and "encoded_size m \<le> length buf"
  shows "\<exists>buf'. encode m buf = Ok (encoded_size m, buf') \<and> length buf' = length buf
    \<and> drop (encoded_size m) buf' = drop (encoded_size m) buf
    \<and> decode_by_id (message_id m) buf' = Ok m"
  using assms
  by (simp add: encode_writes_layout length_wire_layout decode_wire_layout)

definition sample_trade :: decoded_message where
  "sample_trade = MTrade \<lparr>tr_timestamp = 7, tr_exchange = CxBinance,
     tr_symbol = symbol_new ''BTC'', tr_price = 5, tr_size = 2, tr_side = CsSell,
     tr_trade_id = [1, 2]\<rparr>"

lemma sample_trade_wf: "message_wf sample_trade" "encoded_size sample_trade = 65"
  by (simp_all add: sample_trade_def symbol_new_wf var_ok_def)

lemma codec_roundtrip_witness:
  "\<exists>buf'. encode sample_trade (replicate 70 0) = Ok (65, buf')
    \<and> decode_by_id (message_id sample_trade) buf' = Ok sample_trade"
  using codec_roundtrip [of sample_trade "replicate 70 0"]
  by (auto simp: sample_trade_wf)

lemma decode_canonical_witness:
  "take (encoded_size sample_trade) (wire_layout sample_trade @ [9]) = wire_layout sample_trade"
  using decode_canonical [OF decode_wire_layout, of sample_trade "[9]"]
  by (simp add: sample_trade_wf)

text \<open>
  A buffer one byte or more too small is refused with the size the message needs and
  the size it got; the encoder succeeds on exactly the buffers of at least
  \<open>encoded_size\<close> bytes, and never panics on a well-formed message.
\<close>

theorem encode_exact_size:
  assumes "message_wf m"
  shows "encode m buf =
    (if length buf < encoded_size m
     then Err (EncBufferTooSmall (encoded_size m) (length buf))
     else Ok (encoded_size m, wire_layout m @ drop (encoded_size m) buf))"
  using assms by (simp add: encode_too_small encode_writes_layout)

lemma encode_exact_size_witness:
  "encode sample_trade (replicate 64 0) = Err (EncBufferTooSmall 65 64)"
  using encode_exact_size [of sample_trade "replicate 64 0"] by (simp add: sample_trade_wf)

section \<open>The symbol length byte is not validated\<close>

definition hostile_quote :: bytes where
  "hostile_quote = replicate 41 0 @ [200] @ replicate 32 0"

text \<open>
  a symbol's length byte is taken from the wire without a check. This quote update
  decodes successfully, and reading its symbol as text then panics (the slice
  \<open>data[..200]\<close> of a 32-byte array), so input from a file can abort the reader of a
  message the decoder has accepted.
\<close>

theorem decoded_symbol_can_panic:
  "\<exists>d. decode_by_id 257 hostile_quote = Ok (MQuoteUpdate d)
    \<and> symbol_as_str (qu_symbol d) = Panic"
proof -
  define d where "d = \<lparr>qu_timestamp = 0, qu_exchange = CxUnknown,
    qu_symbol = \<lparr>sym_data = replicate 32 0, sym_length = 200\<rparr>,
    qu_bid_price = 0, qu_bid_size = 0, qu_ask_price = 0, qu_ask_size = 0\<rparr>"
  have "to_le (0 :: i64) = replicate 8 0"
    by code_simp
  moreover have "replicate 41 (0 :: u8) = replicate 8 0 @ [0] @ replicate 32 0"
    by code_simp
  moreover have "replicate 32 (0 :: u8) = replicate 8 0 @ replicate 8 0 @ replicate 8 0 @ replicate 8 0"
    by code_simp
  ultimately have "hostile_quote = wire_layout (MQuoteUpdate d)"
    by (simp add: hostile_quote_def d_def wire_symbol_def)
  moreover have "message_wf (MQuoteUpdate d)"
    by (simp add: d_def symbol_wf_def MAX_SYMBOL_LENGTH_def)
  ultimately have "decode_by_id 257 hostile_quote = Ok (MQuoteUpdate d)"
    using decode_wire_layout [of "MQuoteUpdate d" "[]"] by simp
  moreover have "symbol_as_str (qu_symbol d) = Panic"
    by (simp add: d_def symbol_as_str_def subslice_def)
  ultimately show ?thesis by blast
qed

end
