(* ===== verification/Codec_Registry.thy ===== *)
theory Codec_Registry
  imports Codec_Decoder "HOL-Library.Product_Lexorder"
begin

text \<open>
  \<open>codec/registry.rs\<close>: decoders and encoders by schema version. A \<open>HashMap\<close> is an
  association list with distinct keys whose order stands for the unspecified iteration
  order; lookups do not depend on it, and the fallback search is shown not to either.
\<close>

type_synonym version = "u8 \<times> u8"

datatype codec_handle = CodecV1_0

definition SCHEMA_VERSION :: version where
  "SCHEMA_VERSION = (1, 0)"

record 'd codec_registry =
  reg_decoders :: "(version \<times> 'd) list"
  reg_encoders :: "(version \<times> 'd) list"
  reg_current_version :: version

definition hash_insert :: "'k \<Rightarrow> 'v \<Rightarrow> ('k \<times> 'v) list \<Rightarrow> ('k \<times> 'v) list" where
  "hash_insert k v m = (k, v) # filter (\<lambda>p. fst p \<noteq> k) m"

definition registry_new :: "codec_handle codec_registry" where
  "registry_new =
     \<lparr>reg_decoders = hash_insert (1, 0) CodecV1_0 [],
      reg_encoders = hash_insert (1, 0) CodecV1_0 [],
      reg_current_version = SCHEMA_VERSION\<rparr>"

definition registry_decoder :: "'d codec_registry \<Rightarrow> u8 \<Rightarrow> u8 \<Rightarrow> 'd option" where
  "registry_decoder r major minor = map_of (reg_decoders r) (major, minor)"

definition registry_encoder_for_version :: "'d codec_registry \<Rightarrow> u8 \<Rightarrow> u8 \<Rightarrow> 'd option" where
  "registry_encoder_for_version r major minor = map_of (reg_encoders r) (major, minor)"

definition registry_encoder :: "'d codec_registry \<Rightarrow> ('d, 'e) result" where
  "registry_encoder r =
     (case map_of (reg_encoders r) (reg_current_version r) of Some e \<Rightarrow> Ok e | None \<Rightarrow> Panic)"

definition registry_is_supported :: "'d codec_registry \<Rightarrow> u8 \<Rightarrow> u8 \<Rightarrow> bool" where
  "registry_is_supported r major minor \<longleftrightarrow> (major, minor) \<in> fst ` set (reg_decoders r)"

definition supported_decoder_versions :: "'d codec_registry \<Rightarrow> version list" where
  "supported_decoder_versions r = sort (map fst (reg_decoders r))"

definition supported_encoder_versions :: "'d codec_registry \<Rightarrow> version list" where
  "supported_encoder_versions r = sort (map fst (reg_encoders r))"

text \<open>The loop body of \<open>decoder_with_fallback\<close>: keep the best match so far.\<close>

fun fallback_step ::
    "u8 \<Rightarrow> u8 \<Rightarrow> version \<times> 'd \<Rightarrow> (u8 \<times> 'd) option \<Rightarrow> (u8 \<times> 'd) option" where
  "fallback_step major minor ((maj, mi), d) best =
     (if maj = major \<and> mi \<le> minor
      then (case best of
              None \<Rightarrow> Some (mi, d)
            | Some (best_min, _) \<Rightarrow> if mi > best_min then Some (mi, d) else best)
      else best)"

definition decoder_with_fallback ::
    "'d codec_registry \<Rightarrow> u8 \<Rightarrow> u8 \<Rightarrow> ('d, codec_error) result" where
  "decoder_with_fallback r major minor =
     (case map_of (reg_decoders r) (major, minor) of
        Some d \<Rightarrow> Ok d
      | None \<Rightarrow>
          (case fold (fallback_step major minor) (reg_decoders r) None of
             Some (_, d) \<Rightarrow> Ok d
           | None \<Rightarrow> Err (UnsupportedVersion major minor)))"

definition dynamic_decoder :: "'d codec_registry \<Rightarrow> string \<Rightarrow> ('d, codec_error) result" where
  "dynamic_decoder r schema_xml =
     Err (SchemaParseError ''Dynamic schema decoding not yet implemented'')"

section \<open>The fallback search\<close>

definition registry_wf :: "'d codec_registry \<Rightarrow> bool" where
  "registry_wf r \<longleftrightarrow> distinct (map fst (reg_decoders r)) \<and> distinct (map fst (reg_encoders r))
     \<and> reg_current_version r \<in> fst ` set (reg_encoders r)"

lemma registry_new_wf: "registry_wf registry_new"
  by (simp add: registry_wf_def registry_new_def hash_insert_def SCHEMA_VERSION_def)

text \<open>A candidate list's best match: the largest minor version not above the request.\<close>

definition best_of :: "u8 \<Rightarrow> u8 \<Rightarrow> (version \<times> 'd) set \<Rightarrow> (u8 \<times> 'd) option \<Rightarrow> bool" where
  "best_of major minor S best \<longleftrightarrow>
     (case best of
        None \<Rightarrow> (\<forall>m d. ((major, m), d) \<in> S \<longrightarrow> minor < m)
      | Some (m, d) \<Rightarrow> ((major, m), d) \<in> S \<and> m \<le> minor
          \<and> (\<forall>m' d'. ((major, m'), d') \<in> S \<longrightarrow> m' \<le> minor \<longrightarrow> m' \<le> m))"

lemma best_of_None: "best_of major minor S None \<longleftrightarrow> (\<forall>m d. ((major, m), d) \<in> S \<longrightarrow> minor < m)"
  by (simp add: best_of_def)

lemma best_of_Some: "best_of major minor S (Some (m, d)) \<longleftrightarrow> ((major, m), d) \<in> S \<and> m \<le> minor
          \<and> (\<forall>m' d'. ((major, m'), d') \<in> S \<longrightarrow> m' \<le> minor \<longrightarrow> m' \<le> m)"
  by (simp add: best_of_def)

lemma fallback_step_best:
  assumes "best_of major minor S best"
  shows "best_of major minor (insert p S) (fallback_step major minor p best)"
proof -
  obtain maj mi d where p: "p = ((maj, mi), d)" by (metis surj_pair)
  show ?thesis
  proof (cases "maj = major \<and> mi \<le> minor")
    case outside: False
    then have "m \<le> minor \<Longrightarrow> ((major, m), d') \<noteq> p" for m d' by (auto simp: p)
    with assms have "best_of major minor (insert p S) best"
      by (cases best) (use outside p in \<open>auto simp: best_of_None best_of_Some not_le\<close>)
    with outside show ?thesis by (auto simp: p)
  next
    case inside: True
    show ?thesis
    proof (cases best)
      case None
      with assms have "((major, m), d') \<in> S \<Longrightarrow> minor < m" for m d'
        unfolding None best_of_None by blast
      with inside have "best_of major minor (insert p S) (Some (mi, d))"
        by (simp add: best_of_Some p) (meson not_le)
      with inside None show ?thesis by (simp add: p)
    next
      case (Some q)
      obtain m d0 where q: "q = (m, d0)" by (cases q)
      have S: "((major, m), d0) \<in> S" "m \<le> minor"
        "\<And>m' d'. ((major, m'), d') \<in> S \<Longrightarrow> m' \<le> minor \<Longrightarrow> m' \<le> m"
        using assms unfolding Some q best_of_Some by blast+
      show ?thesis
      proof (cases "m < mi")
        case True
        then have "((major, m'), d') \<in> S \<Longrightarrow> m' \<le> minor \<Longrightarrow> m' \<le> mi" for m' d'
          using S(3) by (meson less_imp_le order_trans)
        with inside have "best_of major minor (insert p S) (Some (mi, d))"
          by (simp add: best_of_Some p)
        with inside True show ?thesis by (simp add: p Some q)
      next
        case False
        then have "mi \<le> m" by simp
        with S inside have "best_of major minor (insert p S) (Some (m, d0))"
          by (simp add: best_of_Some p)
        with inside False show ?thesis by (simp add: p Some q)
      qed
    qed
  qed
qed

lemma fallback_fold_best:
  "best_of major minor S best \<Longrightarrow>
     best_of major minor (S \<union> set ps) (fold (fallback_step major minor) ps best)"
proof (induction ps arbitrary: S best)
  case Nil
  then show ?case by simp
next
  case (Cons p ps)
  from Cons.IH [OF fallback_step_best [OF Cons.prems]] show ?case by simp
qed

lemma fallback_best:
  "best_of major minor (set ps) (fold (fallback_step major minor) ps None)"
  using fallback_fold_best [of major minor "{}" None ps] by (simp add: best_of_def)

lemma best_of_unique:
  assumes "distinct (map fst ps)" and "best_of major minor (set ps) (Some (m, d))"
    and "best_of major minor (set ps) (Some (m', d'))"
  shows "m = m' \<and> d = d'"
proof -
  have mem: "((major, m), d) \<in> set ps" "((major, m'), d') \<in> set ps"
    using assms(2,3) unfolding best_of_Some by blast+
  have "m \<le> m'" "m' \<le> m" using assms(2,3) unfolding best_of_Some by blast+
  then have "m = m'" by (rule order.antisym)
  with mem eq_key_imp_eq_value [OF assms(1)] show ?thesis by blast
qed

text \<open>
  \<open>decoder_with_fallback\<close> returns a decoder exactly when the registry holds one of the
  requested major version with a minor version at most the requested one, and then it
  is the decoder of the largest such minor version. Since the right-hand side mentions
  only the set of entries, the answer does not depend on the \<open>HashMap\<close>'s iteration order.
\<close>

theorem decoder_fallback_correct:
  assumes "registry_wf r"
  shows "decoder_with_fallback r major minor = Ok d \<longleftrightarrow>
      (\<exists>m. ((major, m), d) \<in> set (reg_decoders r) \<and> m \<le> minor
        \<and> (\<forall>m' d'. ((major, m'), d') \<in> set (reg_decoders r) \<longrightarrow> m' \<le> minor \<longrightarrow> m' \<le> m))"
    (is "?L \<longleftrightarrow> (\<exists>m. ?R m)")
proof -
  have dist: "distinct (map fst (reg_decoders r))" using assms by (simp add: registry_wf_def)
  have R: "?R m \<longleftrightarrow> best_of major minor (set (reg_decoders r)) (Some (m, d))" for m
    by (simp add: best_of_def)
  show ?thesis
  proof (cases "map_of (reg_decoders r) (major, minor)")
    case (Some d0)
    then have in0: "((major, minor), d0) \<in> set (reg_decoders r)" by (rule map_of_SomeD)
    then have "best_of major minor (set (reg_decoders r)) (Some (minor, d0))"
      by (simp add: best_of_def)
    then have "(\<exists>m. ?R m) \<longleftrightarrow> d = d0" unfolding R by (metis best_of_unique dist)
    with Some show ?thesis by (auto simp: decoder_with_fallback_def)
  next
    case None
    let ?b = "fold (fallback_step major minor) (reg_decoders r) None"
    have best: "best_of major minor (set (reg_decoders r)) ?b" by (rule fallback_best)
    show ?thesis
    proof (cases ?b)
      case None: None
      with best have "\<not> (\<exists>m. ?R m)" by (fastforce simp: best_of_def)
      with None \<open>map_of _ _ = None\<close> show ?thesis by (simp add: decoder_with_fallback_def)
    next
      case (Some p)
      obtain m1 d1 where p: "p = (m1, d1)" by (cases p)
      with best Some have "best_of major minor (set (reg_decoders r)) (Some (m1, d1))" by simp
      then have "(\<exists>m. ?R m) \<longleftrightarrow> d = d1" unfolding R by (metis best_of_unique dist)
      with Some p None show ?thesis by (auto simp: decoder_with_fallback_def)
    qed
  qed
qed

lemma decoder_fallback_correct_witness:
  "decoder_with_fallback registry_new 1 7 = Ok CodecV1_0"
  using decoder_fallback_correct [OF registry_new_wf, of 1 7 CodecV1_0]
  by (simp add: registry_new_def hash_insert_def)

lemma registry_encoder_total: "registry_wf r \<Longrightarrow> \<exists>e. registry_encoder r = Ok e"
  by (cases "map_of (reg_encoders r) (reg_current_version r)")
     (auto simp: registry_wf_def registry_encoder_def map_of_eq_None_iff)

end
