(* ===== verification/Fifo_Queue.thy ===== *)
theory Fifo_Queue
  imports Prelude
begin

text \<open>
  The interface of a bounded queue, shared by the journal's ring buffer and the bounded
  channels of the adapter: runs of push and pop operations, the abstract FIFO list, and the
  locale \<open>bounded_queue\<close> with its client lemmas (a lawful queue behaves like the list; what was
  popped and what remains is what was accepted, in order).
\<close>

section \<open>Runs of queue operations\<close>

datatype 'a queue_op = QPush 'a | QPop

datatype 'a queue_out = Pushed bool | Popped "'a option"

fun run_queue ::
    "('q \<Rightarrow> 'a \<Rightarrow> (bool \<times> 'q, 'e) result) \<Rightarrow> ('q \<Rightarrow> ('a option \<times> 'q, 'e) result) \<Rightarrow>
     'q \<Rightarrow> 'a queue_op list \<Rightarrow> ('a queue_out list \<times> 'q, 'e) result" where
  "run_queue push pop q [] = Ok ([], q)"
| "run_queue push pop q (QPush x # ops) =
     rbind (push q x) (\<lambda>(b, q1). rbind (run_queue push pop q1 ops)
       (\<lambda>(outs, q2). Ok (Pushed b # outs, q2)))"
| "run_queue push pop q (QPop # ops) =
     rbind (pop q) (\<lambda>(v, q1). rbind (run_queue push pop q1 ops)
       (\<lambda>(outs, q2). Ok (Popped v # outs, q2)))"

text \<open>The abstract queue: a list of at most \<open>n\<close> items.\<close>

definition fifo_push :: "nat \<Rightarrow> 'a list \<Rightarrow> 'a \<Rightarrow> (bool \<times> 'a list, 'e) result" where
  "fifo_push n xs x = Ok (if length xs < n then (True, xs @ [x]) else (False, xs))"

fun fifo_pop :: "'a list \<Rightarrow> ('a option \<times> 'a list, 'e) result" where
  "fifo_pop [] = Ok (None, [])"
| "fifo_pop (x # xs) = Ok (Some x, xs)"

text \<open>
  What the users of a bounded queue rely on. The laws are over the contents only, so a
  client proved against them cannot depend on indices or capacity rounding.
\<close>

locale bounded_queue =
  fixes inv :: "'q \<Rightarrow> bool"
    and contents :: "'q \<Rightarrow> 'a list"
    and bound :: "'q \<Rightarrow> nat"
    and push :: "'q \<Rightarrow> 'a \<Rightarrow> (bool \<times> 'q, 'e) result"
    and pop :: "'q \<Rightarrow> ('a option \<times> 'q, 'e) result"
  assumes within_bound: "inv q \<Longrightarrow> length (contents q) \<le> bound q"
    and push_full: "inv q \<Longrightarrow> length (contents q) = bound q \<Longrightarrow> push q x = Ok (False, q)"
    and push_free: "inv q \<Longrightarrow> length (contents q) < bound q \<Longrightarrow>
      \<exists>q'. push q x = Ok (True, q') \<and> inv q' \<and> contents q' = contents q @ [x] \<and> bound q' = bound q"
    and pop_empty: "inv q \<Longrightarrow> contents q = [] \<Longrightarrow> pop q = Ok (None, q)"
    and pop_front: "inv q \<Longrightarrow> contents q = x # xs \<Longrightarrow>
      \<exists>q'. pop q = Ok (Some x, q') \<and> inv q' \<and> contents q' = xs \<and> bound q' = bound q"
begin

lemma push_simulates:
  assumes "inv q"
  shows "\<exists>b q'. push q x = Ok (b, q') \<and> inv q' \<and> bound q' = bound q
    \<and> fifo_push (bound q) (contents q) x = (Ok (b, contents q') :: (bool \<times> 'a list, 'e) result)"
  using within_bound [OF assms] push_full [OF assms, of x] push_free [OF assms, of x] assms
  by (cases "length (contents q) = bound q") (fastforce simp: fifo_push_def)+

lemma pop_simulates:
  assumes "inv q"
  shows "\<exists>v q'. pop q = Ok (v, q') \<and> inv q' \<and> bound q' = bound q
    \<and> fifo_pop (contents q) = (Ok (v, contents q') :: ('a option \<times> 'a list, 'e) result)"
  using pop_empty [OF assms] pop_front [OF assms] assms
  by (cases "contents q") fastforce+

lemma run_simulates:
  assumes "inv q"
  shows "\<exists>outs q'. run_queue push pop q ops = Ok (outs, q') \<and> inv q' \<and> bound q' = bound q
    \<and> run_queue (fifo_push (bound q)) fifo_pop (contents q) ops
        = (Ok (outs, contents q') :: ('a queue_out list \<times> 'a list, 'e) result)"
  using assms
proof (induction ops arbitrary: q)
  case Nil
  then show ?case by simp
next
  case (Cons opn ops)
  show ?case
  proof (cases opn)
    case (QPush x)
    obtain b q1 where q1: "push q x = Ok (b, q1)" "inv q1" "bound q1 = bound q"
      "fifo_push (bound q) (contents q) x = (Ok (b, contents q1) :: (bool \<times> 'a list, 'e) result)"
      using push_simulates [OF Cons.prems] by blast
    from Cons.IH [OF q1(2)] show ?thesis by (auto simp: QPush q1)
  next
    case QPop
    obtain v q1 where q1: "pop q = Ok (v, q1)" "inv q1" "bound q1 = bound q"
      "fifo_pop (contents q) = (Ok (v, contents q1) :: ('a option \<times> 'a list, 'e) result)"
      using pop_simulates [OF Cons.prems] by blast
    from Cons.IH [OF q1(2)] show ?thesis by (auto simp: QPop q1)
  qed
qed

end

section \<open>Conservation\<close>

text \<open>The items accepted and the items delivered by a run.\<close>

fun accepted :: "'a queue_op list \<Rightarrow> 'a queue_out list \<Rightarrow> 'a list" where
  "accepted (QPush x # ops) (Pushed b # outs) = (if b then x # accepted ops outs else accepted ops outs)"
| "accepted (QPop # ops) (_ # outs) = accepted ops outs"
| "accepted _ _ = []"

fun delivered :: "'a queue_out list \<Rightarrow> 'a list" where
  "delivered [] = []"
| "delivered (Popped (Some x) # outs) = x # delivered outs"
| "delivered (_ # outs) = delivered outs"

lemma fifo_conserves:
  "run_queue (fifo_push n) fifo_pop xs ops = (Ok (outs, ys) :: ('a queue_out list \<times> 'a list, 'e) result) \<Longrightarrow> length xs \<le> n \<Longrightarrow>
     xs @ accepted ops outs = delivered outs @ ys \<and> length ys \<le> n \<and> length outs = length ops"
proof (induction ops arbitrary: xs outs)
  case Nil
  then show ?case by simp
next
  case (Cons opn ops)
  show ?case
  proof (cases opn)
    case (QPush x)
    let ?xs = "if length xs < n then xs @ [x] else xs"
    obtain o1 where o1: "outs = Pushed (length xs < n) # o1"
      "run_queue (fifo_push n) fifo_pop ?xs ops = (Ok (o1, ys) :: ('a queue_out list \<times> 'a list, 'e) result)"
      using Cons.prems(1) by (auto simp: QPush fifo_push_def [of n xs x] rbind_Ok_iff split: if_splits)
    from Cons.IH [OF o1(2)] Cons.prems(2) show ?thesis by (auto simp: QPush o1(1) split: if_splits)
  next
    case QPop
    then obtain v o1 xs1 where o1: "fifo_pop xs = (Ok (v, xs1) :: (_, 'e) result)" "outs = Popped v # o1"
      "run_queue (fifo_push n) fifo_pop xs1 ops = (Ok (o1, ys) :: ('a queue_out list \<times> 'a list, 'e) result)"
      using Cons.prems(1) by (auto simp: rbind_Ok_iff)
    have "length xs1 \<le> n" using o1(1) Cons.prems(2) by (cases xs) auto
    from Cons.IH [OF o1(3) this] o1(1) show ?thesis by (cases xs) (auto simp: QPop o1(2))
  qed
qed

context bounded_queue
begin

lemma run_conserves:
  assumes "inv q" "run_queue push pop q ops = Ok (outs, q')"
  shows "contents q @ accepted ops outs = delivered outs @ contents q' \<and> length (contents q') \<le> bound q"
proof -
  obtain outs1 q1 where run: "run_queue push pop q ops = Ok (outs1, q1)"
    "run_queue (fifo_push (bound q)) fifo_pop (contents q) ops
       = (Ok (outs1, contents q1) :: ('a queue_out list \<times> 'a list, 'e) result)"
    using run_simulates [OF assms(1), of ops] by blast
  with assms(2) have "outs1 = outs" "q1 = q'" by simp_all
  with fifo_conserves [OF run(2) within_bound [OF assms(1)]] show ?thesis by simp
qed

end

end
