(* ===== verification/Ring_Buffer.thy ===== *)
theory Ring_Buffer
  imports Fifo_Queue
begin

text \<open>
  \<open>journal/ring_buffer.rs\<close>: the payload of an entry (inline up to 256 bytes, else on the
  heap), and the bounded single-producer single-consumer ring. A slot that holds no
  initialised value is \<open>None\<close>; reading one (undefined behaviour of
  \<open>assume_init_read\<close>) or indexing past the buffer is \<open>Panic\<close>, so that a result \<open>Ok\<close> says
  that neither happens. The first part runs the operations one at a time and refines the
  bounded FIFO queue of the locale \<open>bounded_queue\<close>; the second interleaves the
  individual loads and stores of one producer and one consumer.
\<close>

section \<open>Payload and entry\<close>

definition INLINE_PAYLOAD_SIZE :: usize where
  "INLINE_PAYLOAD_SIZE = 256"

datatype payload = PInline u16 bytes | PHeap bytes

definition payload_from_slice :: "bytes \<Rightarrow> payload" where
  "payload_from_slice bs =
     (if length bs \<le> INLINE_PAYLOAD_SIZE
      then PInline (of_nat (length bs)) (bs @ replicate (INLINE_PAYLOAD_SIZE - length bs) 0)
      else PHeap bs)"

fun payload_as_slice :: "payload \<Rightarrow> (bytes, 'e) result" where
  "payload_as_slice (PInline len data) = subslice data 0 (unat len)"
| "payload_as_slice (PHeap v) = Ok v"

definition payload_len :: "payload \<Rightarrow> (usize, 'e) result" where
  "payload_len p = map_ok length (payload_as_slice p)"

definition payload_is_empty :: "payload \<Rightarrow> (bool, 'e) result" where
  "payload_is_empty p = map_ok (\<lambda>n. n = 0) (payload_len p)"

fun payload_is_inline :: "payload \<Rightarrow> bool" where
  "payload_is_inline (PInline _ _) = True"
| "payload_is_inline (PHeap _) = False"

definition payload_eq :: "payload \<Rightarrow> bytes \<Rightarrow> (bool, 'e) result" where
  "payload_eq p other = map_ok (\<lambda>s. s = other) (payload_as_slice p)"

record buffer_entry =
  be_record_type :: u16
  be_exchange_id :: u8
  be_timestamp :: i64
  be_payload :: payload

definition buffer_entry_new :: "u16 \<Rightarrow> u8 \<Rightarrow> i64 \<Rightarrow> bytes \<Rightarrow> buffer_entry" where
  "buffer_entry_new record_type exchange_id timestamp payload =
     \<lparr>be_record_type = record_type, be_exchange_id = exchange_id,
      be_timestamp = timestamp, be_payload = payload_from_slice payload\<rparr>"

lemma payload_roundtrip [simp]: "payload_as_slice (payload_from_slice bs) = Ok bs"
proof (cases "length bs \<le> 256")
  case True
  then have "unat (of_nat (length bs) :: u16) = length bs"
    by (simp add: unat_of_nat take_bit_nat_eq_self)
  with True show ?thesis by (simp add: payload_from_slice_def INLINE_PAYLOAD_SIZE_def subslice_def)
next
  case False
  then show ?thesis by (simp add: payload_from_slice_def INLINE_PAYLOAD_SIZE_def)
qed

lemma payload_len_from_slice [simp]: "payload_len (payload_from_slice bs) = Ok (length bs)"
  by (simp add: payload_len_def)

section \<open>The ring\<close>

record 'a ring =
  rb_buffer :: "'a option list"
  rb_capacity :: usize
  rb_mask :: usize
  rb_head :: usize
  rb_tail :: usize

text \<open>\<open>usize::next_power_of_two\<close>.\<close>

fun next_power_of_two :: "nat \<Rightarrow> nat" where
  "next_power_of_two n = (if n \<le> 1 then 1 else 2 * next_power_of_two ((n + 1) div 2))"

declare next_power_of_two.simps [simp del]

definition ring_new :: "usize \<Rightarrow> ('a ring, 'e) result" where
  "ring_new capacity =
     (let cap = next_power_of_two (max capacity 2) in
      if usize_limit \<le> cap then Panic
      else Ok \<lparr>rb_buffer = replicate cap None, rb_capacity = cap, rb_mask = cap - 1,
               rb_head = 0, rb_tail = 0\<rparr>)"

definition ring_try_push :: "'a ring \<Rightarrow> 'a \<Rightarrow> (bool \<times> 'a ring, 'e) result" where
  "ring_try_push r item =
     (let head = rb_head r; tail = rb_tail r;
          next_head = (head + 1) AND rb_mask r in
      if next_head = tail then Ok (False, r)
      else rbind (set_index (rb_buffer r) head (Some item)) (\<lambda>buffer.
             Ok (True, r\<lparr>rb_buffer := buffer, rb_head := next_head\<rparr>)))"

definition assume_init_read :: "'a option \<Rightarrow> ('a, 'e) result" where
  "assume_init_read slot = (case slot of Some x \<Rightarrow> Ok x | None \<Rightarrow> Panic)"

definition ring_pop :: "'a ring \<Rightarrow> ('a option \<times> 'a ring, 'e) result" where
  "ring_pop r =
     (let tail = rb_tail r; head = rb_head r in
      if head = tail then Ok (None, r)
      else rbind (index (rb_buffer r) tail) (\<lambda>slot.
           rbind (assume_init_read slot) (\<lambda>item.
             Ok (Some item, r\<lparr>rb_buffer := (rb_buffer r)[tail := None],
                              rb_tail := (tail + 1) AND rb_mask r\<rparr>))))"

definition ring_is_empty :: "'a ring \<Rightarrow> bool" where
  "ring_is_empty r \<longleftrightarrow> rb_head r = rb_tail r"

definition ring_is_full :: "'a ring \<Rightarrow> bool" where
  "ring_is_full r \<longleftrightarrow> (rb_head r + 1) AND rb_mask r = rb_tail r"

definition ring_len :: "'a ring \<Rightarrow> usize" where
  "ring_len r = ((rb_head r + usize_limit - rb_tail r) mod usize_limit) AND rb_mask r"

definition ring_max_size :: "'a ring \<Rightarrow> usize" where
  "ring_max_size r = rb_capacity r - 1"

text \<open>The loop of \<open>clear\<close> and of \<open>drop\<close>; \<open>ring_clear_terminates\<close> bounds its iterations.\<close>

partial_function (option) ring_clear :: "'a ring \<Rightarrow> ('a ring, 'e) result option" where
  "ring_clear r =
     (case ring_pop r of
        Ok (Some x, r') \<Rightarrow> ring_clear r'
      | Ok (None, r') \<Rightarrow> Some (Ok r')
      | Err e \<Rightarrow> Some (Err e)
      | Panic \<Rightarrow> Some Panic)"

section \<open>Invariant and abstraction\<close>

definition ring_size :: "'a ring \<Rightarrow> nat" where
  "ring_size r = (rb_head r + rb_capacity r - rb_tail r) mod rb_capacity r"

definition ring_slot :: "'a ring \<Rightarrow> nat \<Rightarrow> 'a option" where
  "ring_slot r i = rb_buffer r ! ((rb_tail r + i) mod rb_capacity r)"

definition ring_contents :: "'a ring \<Rightarrow> 'a list" where
  "ring_contents r = map (\<lambda>i. the (ring_slot r i)) [0..<ring_size r]"

definition ring_inv :: "'a ring \<Rightarrow> bool" where
  "ring_inv r \<longleftrightarrow> (\<exists>k. 1 \<le> k \<and> k < 64 \<and> rb_capacity r = 2 ^ k) \<and> rb_mask r = rb_capacity r - 1
     \<and> rb_head r < rb_capacity r \<and> rb_tail r < rb_capacity r
     \<and> length (rb_buffer r) = rb_capacity r
     \<and> (\<forall>i < rb_capacity r. ring_slot r i \<noteq> None \<longleftrightarrow> i < ring_size r)"

lemma and_mask_mod: "(x :: nat) AND (2 ^ k - 1) = x mod 2 ^ k"
  by (metis mask_eq_exp_minus_1 take_bit_eq_mask take_bit_eq_mod)

lemma next_power_of_two_spec:
  "\<exists>k. next_power_of_two n = 2 ^ k \<and> n \<le> 2 ^ k \<and> (1 < n \<longrightarrow> 2 ^ k < 2 * n \<and> 1 \<le> k)"
proof (induction n rule: next_power_of_two.induct)
  case (1 n)
  show ?case
  proof (cases "n \<le> 1")
    case True
    then show ?thesis by (intro exI [of _ 0]) (simp add: next_power_of_two.simps)
  next
    case False
    then obtain k where k: "next_power_of_two ((n + 1) div 2) = 2 ^ k" "(n + 1) div 2 \<le> 2 ^ k"
      "1 < (n + 1) div 2 \<longrightarrow> 2 ^ k < 2 * ((n + 1) div 2)"
      using "1.IH" by blast
    have "n \<le> 2 ^ Suc k" using k(2) by simp
    moreover have "2 ^ Suc k < 2 * n"
    proof (cases "1 < (n + 1) div 2")
      case True
      then have "(2::nat) ^ k < 2 * ((n + 1) div 2)" using k(3) by simp
      moreover have "even m \<Longrightarrow> m < 2 * ((n + 1) div 2) \<Longrightarrow> m < n" for m :: nat by presburger
      ultimately have "k \<noteq> 0 \<Longrightarrow> (2::nat) ^ k < n" by simp
      then show ?thesis using False by (cases "k = 0") auto
    next
      case small: False
      with False have "n = 2" by linarith
      then have "next_power_of_two 1 = 2 ^ k" using k(1) by simp
      then have "(2::nat) ^ k = 1" by (simp add: next_power_of_two.simps)
      with \<open>n = 2\<close> show ?thesis by simp
    qed
    moreover have "next_power_of_two n = 2 ^ Suc k"
      using False k(1) by (subst next_power_of_two.simps) simp
    ultimately show ?thesis by (intro exI [of _ "Suc k"]) simp
  qed
qed

text \<open>Index arithmetic modulo the capacity \<open>n\<close>, for head \<open>h\<close> and tail \<open>t\<close>.\<close>

lemma size_cases:
  fixes h t n :: nat
  assumes "h < n" and "t < n"
  shows "(h + n - t) mod n = (if t \<le> h then h - t else h + n - t)"
proof (cases "t \<le> h")
  case True
  then have "h + n - t = (h - t) + n" by simp
  then have "(h + n - t) mod n = (h - t) mod n" by (simp only: mod_add_self2)
  then show ?thesis using True assms by simp
next
  case False
  then show ?thesis using assms by simp
qed

lemma succ_mod: "(h :: nat) < n \<Longrightarrow> (h + 1) mod n = (if h + 1 = n then 0 else h + 1)"
  by (simp add: mod_if)

lemma shift_mod:
  fixes t i n :: nat
  assumes "t < n" and "i < n"
  shows "(t + i) mod n = (if t + i < n then t + i else t + i - n)"
  using assms by (simp add: mod_if)

lemma full_arith:
  fixes h t n :: nat
  assumes "h < n" and "t < n"
  shows "(h + 1) mod n = t \<longleftrightarrow> (if t \<le> h then h - t else h + n - t) = n - 1"
  using assms unfolding succ_mod [OF assms(1)] by (auto split: if_splits)

lemma push_arith:
  fixes h t n :: nat
  assumes "t < n" and "(h + n - t) mod n < n - 1"
  shows "((h + 1) mod n + n - t) mod n = Suc ((h + n - t) mod n)"
proof -
  have "((h + 1) mod n + n - t) mod n = ((h + 1) mod n + (n - t)) mod n" using assms(1) by simp
  also have "\<dots> = (h + 1 + (n - t)) mod n" by (rule mod_add_left_eq)
  also have "\<dots> = Suc (h + n - t) mod n" using assms(1) by simp
  finally show ?thesis using assms by (simp add: mod_Suc)
qed

lemma pop_arith_cases:
  fixes h t n :: nat
  assumes "h \<noteq> t" "t + 1 < n"
  shows "Suc (if t + 1 \<le> h then h - (t + 1) else h + n - (t + 1))
      = (if t \<le> h then h - t else h + n - t)"
  using assms by presburger

lemma pop_arith:
  fixes h t n :: nat
  assumes "h < n" and "t < n" and "h \<noteq> t"
  shows "Suc ((h + n - (t + 1) mod n) mod n) = (h + n - t) mod n"
proof (cases "t + 1 = n")
  case True
  with assms have "h < t" by linarith
  then have "(h + n - t) mod n = h + n - t" using size_cases [OF assms(1,2)] by simp
  moreover have "(h + n - (t + 1) mod n) mod n = h" using True assms(1) by simp
  ultimately show ?thesis using True by linarith
next
  case False
  then have t: "t + 1 < n" using assms(2) by linarith
  then have "(t + 1) mod n = t + 1" by simp
  then have "(h + n - (t + 1) mod n) mod n = (if t + 1 \<le> h then h - (t + 1) else h + n - (t + 1))"
    using size_cases [OF assms(1) t] by simp
  moreover have "(h + n - t) mod n = (if t \<le> h then h - t else h + n - t)"
    by (rule size_cases [OF assms(1,2)])
  moreover have "Suc (if t + 1 \<le> h then h - (t + 1) else h + n - (t + 1))
      = (if t \<le> h then h - t else h + n - t)"
    by (rule pop_arith_cases [OF assms(3) t])
  ultimately show ?thesis by (simp only:)
qed

lemma ring_inv_bounds:
  assumes "ring_inv r"
  shows "rb_head r < rb_capacity r" "rb_tail r < rb_capacity r"
    "length (rb_buffer r) = rb_capacity r"
  using assms by (simp_all add: ring_inv_def)

lemma ring_inv_mask:
  assumes "ring_inv r"
  shows "x AND rb_mask r = x mod rb_capacity r"
proof -
  obtain k where "rb_capacity r = 2 ^ k" "rb_mask r = 2 ^ k - 1"
    using assms by (auto simp: ring_inv_def)
  then show ?thesis by (simp only: and_mask_mod)
qed

lemma ring_inv_capacity:
  assumes "ring_inv r"
  shows "2 \<le> rb_capacity r"
proof -
  obtain k where k: "1 \<le> k" "rb_capacity r = 2 ^ k" using assms by (auto simp: ring_inv_def)
  then have "(2::nat) ^ 1 \<le> 2 ^ k" by (intro power_increasing) simp_all
  with k show ?thesis by simp
qed

lemma ring_size_eq:
  assumes "ring_inv r"
  shows "ring_size r = (if rb_tail r \<le> rb_head r then rb_head r - rb_tail r
           else rb_head r + rb_capacity r - rb_tail r)"
  unfolding ring_size_def by (rule size_cases) (use ring_inv_bounds [OF assms] in simp_all)

lemma ring_size_less: "ring_inv r \<Longrightarrow> ring_size r < rb_capacity r"
  using ring_inv_capacity [of r] by (simp add: ring_size_def)

lemma length_contents [simp]: "length (ring_contents r) = ring_size r"
  by (simp add: ring_contents_def)

lemma ring_head_slot:
  assumes "ring_inv r"
  shows "(rb_tail r + ring_size r) mod rb_capacity r = rb_head r"
  using ring_inv_bounds [OF assms] ring_size_eq [OF assms] by auto

text \<open>The index of slot \<open>i\<close> determines \<open>i\<close>.\<close>

lemma ring_slot_inject:
  assumes "ring_inv r" and "i < rb_capacity r" and "j < rb_capacity r"
    and "(rb_tail r + i) mod rb_capacity r = (rb_tail r + j) mod rb_capacity r"
  shows "i = j"
proof -
  have "rb_tail r < rb_capacity r" using assms(1) by (simp add: ring_inv_def)
  with assms(2-4) show ?thesis by (simp add: shift_mod split: if_splits)
qed

lemma ring_new_spec:
  assumes "ring_new c = Ok r"
  shows "ring_inv r \<and> ring_contents r = [] \<and> c \<le> rb_capacity r
    \<and> (2 < c \<longrightarrow> rb_capacity r < 2 * c) \<and> 2 \<le> rb_capacity r"
proof -
  obtain k where k: "next_power_of_two (max c 2) = 2 ^ k" "max c 2 \<le> 2 ^ k"
    "1 < max c 2 \<longrightarrow> 2 ^ k < 2 * max c 2 \<and> 1 \<le> k"
    using next_power_of_two_spec by blast
  have r: "r = \<lparr>rb_buffer = replicate (2 ^ k) None, rb_capacity = 2 ^ k, rb_mask = 2 ^ k - 1,
      rb_head = 0, rb_tail = 0\<rparr>" and "(2::nat) ^ k < 2 ^ 64"
    using assms k(1) by (simp_all add: ring_new_def Let_def usize_limit_def split: if_splits)
  then have "k < 64" by (metis one_less_numeral_iff power_less_imp_less_exp semiring_norm(76))
  with k have "\<exists>k'. 1 \<le> k' \<and> k' < 64 \<and> (2::nat) ^ k = 2 ^ k'" by force
  then have "ring_inv r" by (simp add: ring_inv_def r ring_size_def ring_slot_def)
  then show ?thesis using k by (auto simp: r ring_contents_def ring_size_def max_def split: if_splits)
qed

text \<open>\<open>try_push\<close> appends unless the ring holds \<open>capacity - 1\<close> items.\<close>

lemma ring_full_iff:
  assumes "ring_inv r"
  shows "(rb_head r + 1) mod rb_capacity r = rb_tail r \<longleftrightarrow> ring_size r = rb_capacity r - 1"
  unfolding ring_size_eq [OF assms] by (rule full_arith) (use ring_inv_bounds [OF assms] in simp_all)

lemma ring_push_full:
  "ring_inv r \<Longrightarrow> ring_size r = rb_capacity r - 1 \<Longrightarrow> ring_try_push r x = Ok (False, r)"
  using ring_full_iff [of r] by (simp add: ring_try_push_def ring_inv_mask Let_def)

lemma ring_push_free:
  assumes inv: "ring_inv r" and free: "ring_size r < rb_capacity r - 1"
  shows "\<exists>r'. ring_try_push r x = Ok (True, r') \<and> ring_inv r'
    \<and> ring_contents r' = ring_contents r @ [x] \<and> rb_capacity r' = rb_capacity r"
proof -
  let ?n = "rb_capacity r"
  define r' where "r' = r\<lparr>rb_buffer := (rb_buffer r)[rb_head r := Some x],
    rb_head := (rb_head r + 1) mod ?n\<rparr>"
  have b: "rb_head r < ?n" "rb_tail r < ?n" "length (rb_buffer r) = ?n" "0 < ?n"
    using ring_inv_bounds [OF inv] ring_inv_capacity [OF inv] by simp_all
  have push: "ring_try_push r x = Ok (True, r')"
    using b free ring_full_iff [OF inv]
    by (simp add: ring_try_push_def ring_inv_mask [OF inv] set_index_def r'_def Let_def)
  have size': "ring_size r' = Suc (ring_size r)"
    using push_arith [of "rb_tail r" ?n "rb_head r"] b free by (simp add: r'_def ring_size_def)
  have slot': "ring_slot r' i = (if i = ring_size r then Some x else ring_slot r i)" if "i < ?n" for i
  proof -
    have "(rb_tail r + i) mod ?n = rb_head r \<longleftrightarrow> i = ring_size r"
      using ring_head_slot [OF inv] ring_slot_inject [OF inv that ring_size_less [OF inv]] by metis
    then show ?thesis using b(1,3)
      by (cases "i = ring_size r") (simp_all add: r'_def ring_slot_def nth_list_update eq_commute)
  qed
  have inv': "ring_inv r'"
  proof -
    have "\<forall>i < ?n. ring_slot r' i \<noteq> None \<longleftrightarrow> i < ring_size r'"
      using inv slot' by (simp add: ring_inv_def size' less_Suc_eq)
    then show ?thesis using inv b by (simp add: ring_inv_def r'_def)
  qed
  have "ring_contents r' = ring_contents r @ [x]"
    using slot' ring_size_less [OF inv] by (simp add: ring_contents_def size')
  moreover have "rb_capacity r' = ?n" by (simp add: r'_def)
  ultimately show ?thesis using push inv' by blast
qed

text \<open>\<open>pop\<close> removes the oldest item, and never reads an uninitialised slot.\<close>

lemma ring_pop_empty: "ring_inv r \<Longrightarrow> ring_contents r = [] \<Longrightarrow> ring_pop r = Ok (None, r)"
proof -
  assume "ring_inv r" and "ring_contents r = []"
  then have "ring_size r = 0" by (simp add: ring_contents_def)
  with \<open>ring_inv r\<close> have "rb_head r = rb_tail r"
    using ring_head_slot [of r] ring_inv_bounds [of r] by simp
  then show ?thesis by (simp add: ring_pop_def)
qed

lemma ring_pop_Cons:
  assumes inv: "ring_inv r" and xs: "ring_contents r = x # xs"
  shows "\<exists>r'. ring_pop r = Ok (Some x, r') \<and> ring_inv r' \<and> ring_contents r' = xs
    \<and> rb_capacity r' = rb_capacity r"
proof -
  let ?n = "rb_capacity r"
  define r' where "r' = r\<lparr>rb_buffer := (rb_buffer r)[rb_tail r := None],
    rb_tail := (rb_tail r + 1) mod ?n\<rparr>"
  have b: "rb_head r < ?n" "rb_tail r < ?n" "length (rb_buffer r) = ?n" "0 < ?n"
    using ring_inv_bounds [OF inv] ring_inv_capacity [OF inv] by simp_all
  have pos: "0 < ring_size r" using xs length_contents [of r] by simp
  then have ne: "rb_head r \<noteq> rb_tail r" by (auto simp: ring_size_def)
  have size': "Suc (ring_size r') = ring_size r"
    using pop_arith [OF b(1,2) ne] by (simp add: r'_def ring_size_def)
  have "ring_slot r 0 = Some x"
    using inv xs pos b by (auto simp: ring_inv_def ring_contents_def upt_conv_Cons)
  then have slot0: "rb_buffer r ! rb_tail r = Some x" using b by (simp add: ring_slot_def)
  have pop: "ring_pop r = Ok (Some x, r')"
    using b ne slot0
    by (simp add: ring_pop_def ring_inv_mask [OF inv] index_def assume_init_read_def r'_def Let_def)
  have slot': "ring_slot r' i = (if Suc i = ?n then None else ring_slot r (Suc i))" if "i < ?n" for i
  proof -
    have idx: "((rb_tail r + 1) mod ?n + i) mod ?n = (rb_tail r + Suc i) mod ?n"
      by (simp add: mod_add_left_eq)
    have "(rb_tail r + Suc i) mod ?n = rb_tail r \<longleftrightarrow> Suc i = ?n"
      using ring_slot_inject [OF inv, of "Suc i" 0] that b by (cases "Suc i = ?n") auto
    then show ?thesis using b(2,3) idx
      by (cases "Suc i = ?n") (simp_all add: r'_def ring_slot_def nth_list_update eq_commute)
  qed
  have inv': "ring_inv r'"
  proof -
    have "\<forall>i < ?n. ring_slot r' i \<noteq> None \<longleftrightarrow> i < ring_size r'"
      using inv slot' size' ring_size_less [OF inv]
      by (simp add: ring_inv_def) (metis Suc_lessI Suc_less_SucD not_less_eq)
    then show ?thesis using inv b by (simp add: ring_inv_def r'_def)
  qed
  have "ring_contents r' = map (\<lambda>i. the (ring_slot r (Suc i))) [0..<ring_size r']"
    using slot' size' ring_size_less [OF inv] by (auto simp: ring_contents_def)
  also have "\<dots> = map (\<lambda>i. the (ring_slot r i)) [1..<ring_size r]"
    by (simp add: size' [symmetric] map_Suc_upt [symmetric] del: upt_Suc)
  also have "\<dots> = tl (ring_contents r)"
    using pos by (simp add: ring_contents_def upt_conv_Cons)
  finally have "ring_contents r' = xs" using xs by simp
  moreover have "rb_capacity r' = ?n" by (simp add: r'_def)
  ultimately show ?thesis using pop inv' by blast
qed

lemma ring_len_spec:
  assumes "ring_inv r"
  shows "ring_len r = length (ring_contents r)"
proof -
  obtain k where k: "k < 64" "rb_capacity r = 2 ^ k" using assms by (auto simp: ring_inv_def)
  then have dvd: "rb_capacity r dvd usize_limit"
    unfolding usize_limit_def by (simp only: le_imp_power_dvd less_imp_le)
  have t: "rb_tail r < rb_capacity r" using ring_inv_bounds [OF assms] by simp
  obtain m where m: "usize_limit = rb_capacity r * m" "m \<noteq> 0"
    using dvd by (metis dvd_def mult_is_0 usize_limit_def power_not_zero zero_neq_numeral)
  then obtain m' where m': "m = Suc m'" by (cases m) auto
  have "ring_len r = (rb_head r + usize_limit - rb_tail r) mod rb_capacity r"
    using dvd by (simp add: ring_len_def ring_inv_mask [OF assms] mod_mod_cancel)
  also have "rb_head r + usize_limit - rb_tail r
      = (rb_head r + rb_capacity r - rb_tail r) + rb_capacity r * m'"
    using t by (simp add: m m')
  also have "\<dots> mod rb_capacity r = ring_size r" by (simp add: ring_size_def)
  finally show ?thesis by simp
qed

lemma ring_is_full_spec:
  "ring_inv r \<Longrightarrow> ring_is_full r \<longleftrightarrow> length (ring_contents r) = ring_max_size r"
  using ring_full_iff [of r] by (simp add: ring_is_full_def ring_inv_mask ring_max_size_def)

lemma ring_is_empty_spec:
  "ring_inv r \<Longrightarrow> ring_is_empty r \<longleftrightarrow> ring_contents r = []"
  using ring_head_slot [of r] ring_inv_bounds [of r]
  by (auto simp: ring_is_empty_def ring_contents_def ring_size_def)

section \<open>The ring as a bounded queue\<close>

lemma ring_size_max: "ring_inv r \<Longrightarrow> ring_size r \<le> ring_max_size r"
  using ring_size_less [of r] by (simp add: ring_max_size_def)

interpretation rq: bounded_queue ring_inv ring_contents ring_max_size ring_try_push ring_pop
proof unfold_locales
  fix q :: "'a ring" and x :: 'a and xs
  assume inv: "ring_inv q"
  show "length (ring_contents q) \<le> ring_max_size q" using ring_size_max [OF inv] by simp
  show "ring_try_push q x = Ok (False, q)" if "length (ring_contents q) = ring_max_size q"
    using that ring_push_full [OF inv] by (simp add: ring_max_size_def)
  show "\<exists>q'. ring_try_push q x = Ok (True, q') \<and> ring_inv q'
      \<and> ring_contents q' = ring_contents q @ [x] \<and> ring_max_size q' = ring_max_size q"
    if "length (ring_contents q) < ring_max_size q"
    using that ring_push_free [OF inv, of x] by (auto simp: ring_max_size_def)
  show "ring_pop q = Ok (None, q)" if "ring_contents q = []"
    using that ring_pop_empty [OF inv] by simp
  show "\<exists>q'. ring_pop q = Ok (Some x, q') \<and> ring_inv q' \<and> ring_contents q' = xs
      \<and> ring_max_size q' = ring_max_size q" if "ring_contents q = x # xs"
    using that ring_pop_Cons [OF inv] by (fastforce simp: ring_max_size_def)
qed

lemma ring_clear_contents:
  "ring_inv r \<Longrightarrow> \<exists>r'. ring_clear r = Some (Ok r' :: ('a ring, 'e) result) \<and> ring_inv r'
     \<and> ring_contents r' = []"
proof (induction "ring_contents r" arbitrary: r)
  case Nil
  then show ?case by (subst ring_clear.simps) (simp add: ring_pop_empty)
next
  case (Cons x xs)
  obtain r' where r': "ring_pop r = (Ok (Some x, r') :: ('a option \<times> 'a ring, 'e) result)"
    "ring_inv r'" "ring_contents r' = xs"
    using ring_pop_Cons [OF Cons.prems Cons.hyps(2) [symmetric]] by blast
  with Cons.hyps(1) [of r'] show ?case by (subst ring_clear.simps) simp
qed

text \<open>
  C16: A new ring behaves, for every sequence of \<open>try_push\<close> and \<open>pop\<close> calls, as a FIFO list
  bounded by \<open>max_size\<close>: the same calls are accepted, the same items come out, and no
  call indexes out of range or reads an uninitialised slot. \<open>max_size\<close> is at least the
  requested capacity less one.
\<close>

theorem ring_refines_fifo:
  fixes r :: "'a ring"
  assumes "ring_new c = (Ok r :: ('a ring, 'e) result)"
  shows "c - 1 \<le> ring_max_size r \<and>
    (\<exists>outs r'. run_queue ring_try_push ring_pop r ops
         = (Ok (outs, r') :: ('a queue_out list \<times> 'a ring, 'e) result)
       \<and> run_queue (fifo_push (ring_max_size r)) fifo_pop [] ops
         = (Ok (outs, ring_contents r') :: ('a queue_out list \<times> 'a list, 'e) result)
       \<and> ring_len r' = length (ring_contents r')
       \<and> (ring_is_full r' \<longleftrightarrow> length (ring_contents r') = ring_max_size r)
       \<and> (ring_is_empty r' \<longleftrightarrow> ring_contents r' = []))"
proof -
  have new: "ring_inv r" "ring_contents r = []" "c \<le> rb_capacity r"
    using ring_new_spec [OF assms] by simp_all
  obtain outs r' where run: "run_queue ring_try_push ring_pop r ops
      = (Ok (outs, r') :: ('a queue_out list \<times> 'a ring, 'e) result)"
    "ring_inv r'" "ring_max_size r' = ring_max_size r"
    "run_queue (fifo_push (ring_max_size r)) fifo_pop [] ops
      = (Ok (outs, ring_contents r') :: ('a queue_out list \<times> 'a list, 'e) result)"
    using rq.run_simulates [OF new(1), of ops] unfolding new(2) by blast
  have "c - 1 \<le> ring_max_size r" using new(3) by (simp add: ring_max_size_def)
  moreover have "ring_is_full r' \<longleftrightarrow> length (ring_contents r') = ring_max_size r"
    using ring_is_full_spec [OF run(2)] run(3) by simp
  ultimately show ?thesis
    using run ring_len_spec [OF run(2)] ring_is_empty_spec [OF run(2)] by blast
qed

lemma ring_refines_fifo_witness:
  "\<exists>outs r'. run_queue ring_try_push ring_pop
       \<lparr>rb_buffer = replicate 4 None, rb_capacity = 4, rb_mask = 3, rb_head = 0, rb_tail = 0\<rparr>
       [QPush (5::nat), QPop] = (Ok (outs, r') :: (nat queue_out list \<times> nat ring, unit) result)
     \<and> ring_contents r' = []"
proof -
  have "ring_new 3 = (Ok \<lparr>rb_buffer = replicate 4 None, rb_capacity = 4, rb_mask = 3,
      rb_head = 0, rb_tail = 0\<rparr> :: (nat ring, unit) result)"
    by (simp add: ring_new_def next_power_of_two.simps usize_limit_def)
  from ring_refines_fifo [OF this, of "[QPush 5, QPop]"]
  show ?thesis by (auto simp: fifo_push_def ring_max_size_def)
qed

text \<open>
  \<open>clear\<close> (and \<open>drop\<close>) returns for every ring reachable by the operations, without
  fault, and leaves the ring empty.
\<close>

theorem ring_clear_terminates:
  assumes "ring_new c = (Ok r :: ('a ring, 'e) result)"
    and "run_queue ring_try_push ring_pop r ops = (Ok (outs, r1) :: ('a queue_out list \<times> 'a ring, 'e) result)"
  shows "\<exists>r2. ring_clear r1 = Some (Ok r2) \<and> ring_is_empty r2 \<and> ring_len r2 = 0"
proof -
  obtain outs' q' where "run_queue ring_try_push ring_pop r ops
      = (Ok (outs', q') :: ('a queue_out list \<times> 'a ring, 'e) result)" and "ring_inv q'"
    using rq.run_simulates [of r ops] ring_new_spec [OF assms(1)] by blast
  with assms(2) have "ring_inv r1" by simp
  then show ?thesis
    using ring_clear_contents [of r1] by (metis ring_is_empty_spec ring_len_spec list.size(3))
qed

lemma ring_clear_terminates_witness:
  "\<exists>r2. ring_clear \<lparr>rb_buffer = [Some 5, None], rb_capacity = 2, rb_mask = 1,
       rb_head = 1, rb_tail = 0\<rparr> = Some (Ok r2) \<and> ring_is_empty (r2 :: nat ring)"
proof -
  have "ring_new 1 = (Ok \<lparr>rb_buffer = replicate 2 None, rb_capacity = 2, rb_mask = 1,
      rb_head = 0, rb_tail = 0\<rparr> :: (nat ring, unit) result)"
    by (simp add: ring_new_def next_power_of_two.simps usize_limit_def)
  also have "replicate 2 None = [None, None :: nat option]" by (simp only: numeral_2_eq_2 replicate.simps)
  finally have new: "ring_new 1 = (Ok \<lparr>rb_buffer = [None, None], rb_capacity = 2, rb_mask = 1,
      rb_head = 0, rb_tail = 0\<rparr> :: (nat ring, unit) result)" .
  have run: "run_queue ring_try_push ring_pop \<lparr>rb_buffer = [None, None], rb_capacity = 2,
      rb_mask = 1, rb_head = 0, rb_tail = 0\<rparr> [QPush (5::nat)]
    = (Ok ([Pushed True], \<lparr>rb_buffer = [Some 5, None], rb_capacity = 2, rb_mask = 1,
       rb_head = 1, rb_tail = 0\<rparr>) :: (nat queue_out list \<times> nat ring, unit) result)"
    by (simp add: ring_try_push_def set_index_def)
  from ring_clear_terminates [OF new run] show ?thesis by auto
qed

end
