(* ===== verification/Ring_Concurrent.thy ===== *)
theory Ring_Concurrent
  imports Ring_Buffer
begin

text \<open>
  The atomic accesses of \<open>try_push\<close> and \<open>pop\<close> (\<open>journal/ring_buffer.rs\<close>) interleaved: one
  producer thread and one consumer thread, each at a program point of its call. An
  atomic index is the list of all values stored to it, in modification order. A thread
  reads its own index exactly (only it stores there); its load of the other thread's
  index may return any value from the last one it saw onwards, so a stale \<open>Acquire\<close> load is
  allowed, coherence is kept, and what the matching \<open>Release\<close> store published is
  visible. Overwriting a live slot, reading a dead one and indexing out of range set
  \<open>sp_fault\<close>.
\<close>

section \<open>The step relation\<close>

datatype 'a producer_pc =
    ProdIdle
  | ProdHead 'a usize               \<comment> \<open>head loaded\<close>
  | ProdTail 'a usize usize         \<comment> \<open>head and tail loaded\<close>
  | ProdWritten 'a usize            \<comment> \<open>slot written, next head to store\<close>

datatype 'a consumer_pc =
    ConsIdle
  | ConsTail usize                  \<comment> \<open>tail loaded\<close>
  | ConsHead usize usize            \<comment> \<open>tail and head loaded\<close>
  | ConsRead 'a usize               \<comment> \<open>slot read, next tail to store\<close>

record 'a spsc =
  sp_buffer :: "'a option list"
  sp_mask :: usize
  sp_heads :: "usize list"
  sp_tails :: "usize list"
  sp_tail_seen :: nat
  sp_head_seen :: nat
  sp_prod :: "'a producer_pc"
  sp_cons :: "'a consumer_pc"
  sp_pushed :: "'a list"
  sp_popped :: "'a list"
  sp_fault :: bool

definition spsc_init :: "'a ring \<Rightarrow> 'a spsc" where
  "spsc_init r =
     \<lparr>sp_buffer = rb_buffer r, sp_mask = rb_mask r, sp_heads = [rb_head r], sp_tails = [rb_tail r],
      sp_tail_seen = 0, sp_head_seen = 0, sp_prod = ProdIdle, sp_cons = ConsIdle,
      sp_pushed = [], sp_popped = [], sp_fault = False\<rparr>"

inductive spsc_step :: "'a spsc \<Rightarrow> 'a spsc \<Rightarrow> bool" where
  push_load_head:
    "sp_prod s = ProdIdle \<Longrightarrow>
     spsc_step s (s\<lparr>sp_prod := ProdHead x (last (sp_heads s))\<rparr>)"
| push_load_tail:
    "sp_prod s = ProdHead x h \<Longrightarrow> sp_tail_seen s \<le> i \<Longrightarrow> i < length (sp_tails s) \<Longrightarrow>
     spsc_step s (s\<lparr>sp_prod := ProdTail x h (sp_tails s ! i), sp_tail_seen := i\<rparr>)"
| push_full:
    "sp_prod s = ProdTail x h t \<Longrightarrow> (h + 1) AND sp_mask s = t \<Longrightarrow>
     spsc_step s (s\<lparr>sp_prod := ProdIdle\<rparr>)"
| push_write:
    "sp_prod s = ProdTail x h t \<Longrightarrow> (h + 1) AND sp_mask s \<noteq> t \<Longrightarrow>
     h < length (sp_buffer s) \<Longrightarrow> sp_buffer s ! h = None \<Longrightarrow>
     spsc_step s (s\<lparr>sp_buffer := (sp_buffer s)[h := Some x],
       sp_prod := ProdWritten x ((h + 1) AND sp_mask s)\<rparr>)"
| push_write_fault:
    "sp_prod s = ProdTail x h t \<Longrightarrow> (h + 1) AND sp_mask s \<noteq> t \<Longrightarrow>
     \<not> (h < length (sp_buffer s) \<and> sp_buffer s ! h = None) \<Longrightarrow>
     spsc_step s (s\<lparr>sp_fault := True\<rparr>)"
| push_store_head:
    "sp_prod s = ProdWritten x n \<Longrightarrow>
     spsc_step s (s\<lparr>sp_prod := ProdIdle, sp_heads := sp_heads s @ [n],
       sp_pushed := sp_pushed s @ [x]\<rparr>)"
| pop_load_tail:
    "sp_cons s = ConsIdle \<Longrightarrow>
     spsc_step s (s\<lparr>sp_cons := ConsTail (last (sp_tails s))\<rparr>)"
| pop_load_head:
    "sp_cons s = ConsTail t \<Longrightarrow> sp_head_seen s \<le> i \<Longrightarrow> i < length (sp_heads s) \<Longrightarrow>
     spsc_step s (s\<lparr>sp_cons := ConsHead t (sp_heads s ! i), sp_head_seen := i\<rparr>)"
| pop_empty:
    "sp_cons s = ConsHead t h \<Longrightarrow> h = t \<Longrightarrow>
     spsc_step s (s\<lparr>sp_cons := ConsIdle\<rparr>)"
| pop_read:
    "sp_cons s = ConsHead t h \<Longrightarrow> h \<noteq> t \<Longrightarrow>
     t < length (sp_buffer s) \<Longrightarrow> sp_buffer s ! t = Some x \<Longrightarrow>
     spsc_step s (s\<lparr>sp_buffer := (sp_buffer s)[t := None],
       sp_cons := ConsRead x ((t + 1) AND sp_mask s)\<rparr>)"
| pop_read_fault:
    "sp_cons s = ConsHead t h \<Longrightarrow> h \<noteq> t \<Longrightarrow>
     \<not> (t < length (sp_buffer s) \<and> sp_buffer s ! t \<noteq> None) \<Longrightarrow>
     spsc_step s (s\<lparr>sp_fault := True\<rparr>)"
| pop_store_tail:
    "sp_cons s = ConsRead x n \<Longrightarrow>
     spsc_step s (s\<lparr>sp_cons := ConsIdle, sp_tails := sp_tails s @ [n],
       sp_popped := sp_popped s @ [x]\<rparr>)"

inductive spsc_reach :: "'a ring \<Rightarrow> 'a spsc \<Rightarrow> bool" for r where
  reach_init: "spsc_reach r (spsc_init r)"
| reach_step: "spsc_reach r s \<Longrightarrow> spsc_step s s' \<Longrightarrow> spsc_reach r s'"

section \<open>The invariant\<close>

text \<open>
  \<open>n\<close> is the capacity, \<open>H\<close> and \<open>T\<close> count the completed pushes and pops, \<open>T'\<close> also the pop
  whose read is done.
\<close>

definition pushes :: "'a spsc \<Rightarrow> nat" where
  "pushes s = length (sp_pushed s)"

definition pops :: "'a spsc \<Rightarrow> nat" where
  "pops s = length (sp_popped s)"

definition reads :: "'a spsc \<Rightarrow> nat" where
  "reads s = (case sp_cons s of ConsRead _ _ \<Rightarrow> Suc (pops s) | _ \<Rightarrow> pops s)"

text \<open>The item that position \<open>i\<close> of the stream holds, as far as it has been written.\<close>

definition written :: "'a spsc \<Rightarrow> nat \<Rightarrow> 'a option" where
  "written s i =
     (if i < pushes s then Some (sp_pushed s ! i)
      else if i = pushes s then (case sp_prod s of ProdWritten x _ \<Rightarrow> Some x | _ \<Rightarrow> None)
      else None)"

definition producer_ok :: "nat \<Rightarrow> 'a spsc \<Rightarrow> bool" where
  "producer_ok n s \<longleftrightarrow>
     (case sp_prod s of
        ProdIdle \<Rightarrow> True
      | ProdHead x h \<Rightarrow> h = pushes s mod n
      | ProdTail x h t \<Rightarrow> h = pushes s mod n \<and> t = sp_tail_seen s mod n
      | ProdWritten x m \<Rightarrow> m = Suc (pushes s) mod n \<and> Suc (pushes s) < sp_tail_seen s + n)"

definition consumer_ok :: "nat \<Rightarrow> 'a spsc \<Rightarrow> bool" where
  "consumer_ok n s \<longleftrightarrow>
     (case sp_cons s of
        ConsIdle \<Rightarrow> True
      | ConsTail t \<Rightarrow> t = pops s mod n
      | ConsHead t h \<Rightarrow> t = pops s mod n \<and> h = sp_head_seen s mod n
      | ConsRead x m \<Rightarrow> m = Suc (pops s) mod n \<and> pops s < sp_head_seen s \<and> x = sp_pushed s ! pops s)"

definition spsc_inv :: "nat \<Rightarrow> 'a spsc \<Rightarrow> bool" where
  "spsc_inv n s \<longleftrightarrow>
     2 \<le> n \<and> (\<forall>x. x AND sp_mask s = x mod n) \<and> length (sp_buffer s) = n
     \<and> sp_heads s = map (\<lambda>i. i mod n) [0..<Suc (pushes s)]
     \<and> sp_tails s = map (\<lambda>i. i mod n) [0..<Suc (pops s)]
     \<and> sp_popped s = take (pops s) (sp_pushed s)
     \<and> pops s \<le> sp_head_seen s \<and> sp_head_seen s \<le> pushes s
     \<and> sp_tail_seen s \<le> pops s \<and> pushes s < sp_tail_seen s + n
     \<and> producer_ok n s \<and> consumer_ok n s
     \<and> (\<forall>i. reads s \<le> i \<longrightarrow> i < reads s + n \<longrightarrow> sp_buffer s ! (i mod n) = written s i)
     \<and> \<not> sp_fault s"

lemma pushes_update [simp]:
  "pushes (s\<lparr>sp_buffer := v0\<rparr>) = pushes s" "pushes (s\<lparr>sp_heads := v1\<rparr>) = pushes s"
    "pushes (s\<lparr>sp_tails := v2\<rparr>) = pushes s" "pushes (s\<lparr>sp_tail_seen := v3\<rparr>) = pushes s"
    "pushes (s\<lparr>sp_head_seen := v4\<rparr>) = pushes s" "pushes (s\<lparr>sp_prod := v5\<rparr>) = pushes s"
    "pushes (s\<lparr>sp_cons := v6\<rparr>) = pushes s" "pushes (s\<lparr>sp_fault := v7\<rparr>) = pushes s"
    "pushes (s\<lparr>sp_popped := v8\<rparr>) = pushes s"
  by (simp_all add: pushes_def)

lemma pops_update [simp]:
  "pops (s\<lparr>sp_buffer := v0\<rparr>) = pops s" "pops (s\<lparr>sp_heads := v1\<rparr>) = pops s"
    "pops (s\<lparr>sp_tails := v2\<rparr>) = pops s" "pops (s\<lparr>sp_tail_seen := v3\<rparr>) = pops s"
    "pops (s\<lparr>sp_head_seen := v4\<rparr>) = pops s" "pops (s\<lparr>sp_prod := v5\<rparr>) = pops s"
    "pops (s\<lparr>sp_cons := v6\<rparr>) = pops s" "pops (s\<lparr>sp_fault := v7\<rparr>) = pops s"
    "pops (s\<lparr>sp_pushed := v8\<rparr>) = pops s"
  by (simp_all add: pops_def)

lemma window_mod:
  fixes a i j n :: nat
  assumes "a \<le> i" "i < a + n" "a \<le> j" "j < a + n" "i mod n = j mod n"
  shows "i = j"
proof -
  have "n dvd i - j" "n dvd j - i"
    using assms(5) mod_eq_dvd_iff_nat [of j i n] mod_eq_dvd_iff_nat [of i j n]
    by (cases "j \<le> i"; simp add: dvd_0_right)+
  moreover have "i - j < n" "j - i < n" using assms(1-4) by linarith+
  ultimately have "i - j = 0" "j - i = 0" by (auto dest: dvd_imp_le)
  then show ?thesis by simp
qed

lemmas spsc_defs = spsc_inv_def producer_ok_def consumer_ok_def reads_def written_def
  pushes_def pops_def

lemma last_indices: "last (map (\<lambda>i. i mod n) [0..<Suc k]) = k mod n"
  by simp

lemma spsc_inv_reads:
  assumes "spsc_inv n s"
  shows "reads s \<le> sp_head_seen s" "reads s \<le> pushes s" "pushes s < reads s + n"
  using assms
  by (auto simp: spsc_inv_def reads_def consumer_ok_def split: consumer_pc.splits)

lemma producer_slot_free:
  assumes "spsc_inv n s" and "sp_prod s = ProdTail x h t"
  shows "h < length (sp_buffer s)" "sp_buffer s ! h = None"
proof -
  have h: "h = pushes s mod n" and n: "2 \<le> n" "length (sp_buffer s) = n"
    using assms by (simp_all add: spsc_inv_def producer_ok_def)
  then show "h < length (sp_buffer s)" by simp
  have "sp_buffer s ! (pushes s mod n) = written s (pushes s)"
    using assms(1) spsc_inv_reads [OF assms(1)] by (simp add: spsc_inv_def)
  with h show "sp_buffer s ! h = None" using assms(2) by (simp add: written_def)
qed

lemma consumer_slot_live:
  assumes "spsc_inv n s" and "sp_cons s = ConsHead t h" and "h \<noteq> t"
  shows "t < length (sp_buffer s)" "pops s < sp_head_seen s"
    "sp_buffer s ! t = Some (sp_pushed s ! pops s)"
proof -
  have t: "t = pops s mod n" "h = sp_head_seen s mod n" and n: "2 \<le> n" "length (sp_buffer s) = n"
    and le: "pops s \<le> sp_head_seen s" "sp_head_seen s \<le> pushes s"
    using assms by (simp_all add: spsc_inv_def consumer_ok_def)
  then show "t < length (sp_buffer s)" by simp
  show lt: "pops s < sp_head_seen s" using t le assms(3) by (cases "pops s = sp_head_seen s") auto
  have "reads s = pops s" using assms(2) by (simp add: reads_def)
  then have "sp_buffer s ! (pops s mod n) = written s (pops s)"
    using assms(1) n by (simp add: spsc_inv_def)
  with t lt le show "sp_buffer s ! t = Some (sp_pushed s ! pops s)" by (simp add: written_def)
qed

lemma inv_push_write:
  assumes inv: "spsc_inv n s" and pc: "sp_prod s = ProdTail x h t"
    and not_full: "(h + 1) AND sp_mask s \<noteq> t"
  shows "spsc_inv n (s\<lparr>sp_buffer := (sp_buffer s)[h := Some x],
    sp_prod := ProdWritten x ((h + 1) AND sp_mask s)\<rparr>)" (is "spsc_inv n ?s'")
proof -
  have h: "h = pushes s mod n" and t: "t = sp_tail_seen s mod n"
    and mask: "(h + 1) AND sp_mask s = Suc (pushes s) mod n"
    and lt: "pushes s < sp_tail_seen s + n" and len: "length (sp_buffer s) = n" "2 \<le> n"
    using inv pc by (simp_all add: spsc_inv_def producer_ok_def mod_Suc_eq)
  have "Suc (pushes s) \<noteq> sp_tail_seen s + n" using not_full t mask by auto
  with lt have lt': "Suc (pushes s) < sp_tail_seen s + n" by linarith
  note R = spsc_inv_reads [OF inv]
  have buf: "sp_buffer ?s' ! (i mod n) = written ?s' i" if "reads s \<le> i" "i < reads s + n" for i
  proof -
    have "i mod n = h \<longleftrightarrow> i = pushes s" using window_mod [OF that R(2,3)] h by auto
    moreover have "sp_buffer s ! (i mod n) = written s i" using inv that by (simp add: spsc_inv_def)
    moreover have "h < n" using h len by simp
    ultimately show ?thesis using len pc
      by (cases "i = pushes s") (simp_all add: written_def pushes_def nth_list_update)
  qed
  have "reads ?s' = reads s" "pushes ?s' = pushes s" "pops ?s' = pops s"
    by (simp_all add: reads_def split: consumer_pc.splits)
  then show ?thesis using inv buf lt' mask pc
    by (simp add: spsc_inv_def producer_ok_def consumer_ok_def split: consumer_pc.splits)
qed

lemma inv_pop_read:
  assumes inv: "spsc_inv n s" and pc: "sp_cons s = ConsHead t h" and ne: "h \<noteq> t"
    and x: "sp_buffer s ! t = Some x"
  shows "spsc_inv n (s\<lparr>sp_buffer := (sp_buffer s)[t := None],
    sp_cons := ConsRead x ((t + 1) AND sp_mask s)\<rparr>)" (is "spsc_inv n ?s'")
proof -
  have t: "t = pops s mod n" and mask: "(t + 1) AND sp_mask s = Suc (pops s) mod n"
    and len: "length (sp_buffer s) = n" "2 \<le> n"
    using inv pc by (simp_all add: spsc_inv_def consumer_ok_def mod_Suc_eq)
  note live = consumer_slot_live [OF inv pc ne]
  have r: "reads s = pops s" using pc by (simp add: reads_def)
  have buf: "sp_buffer ?s' ! (i mod n) = written ?s' i"
    if "Suc (pops s) \<le> i" "i < Suc (pops s) + n" for i
  proof (cases "i = pops s + n")
    case True
    then have "i mod n = t" using t by simp
    moreover have "written ?s' i = None"
      using True spsc_inv_reads [OF inv] r by (simp add: written_def pushes_def)
    ultimately show ?thesis using len by (simp add: t)
  next
    case False
    then have i: "reads s \<le> i" "i < reads s + n" using that r by simp_all
    then have "i mod n \<noteq> t"
      using window_mod [OF i, of "pops s"] that len by (auto simp: t r)
    moreover have "sp_buffer s ! (i mod n) = written s i" using inv i by (simp add: spsc_inv_def)
    ultimately show ?thesis by (simp add: written_def pushes_def)
  qed
  have "reads ?s' = Suc (pops s)" "pushes ?s' = pushes s" "pops ?s' = pops s"
    by (simp_all add: reads_def)
  moreover have "x = sp_pushed s ! pops s" using live(3) x by simp
  ultimately show ?thesis using inv buf live(2) mask
    by (simp add: spsc_inv_def producer_ok_def consumer_ok_def split: producer_pc.splits)
qed

lemma inv_push_store:
  assumes inv: "spsc_inv n s" and pc: "sp_prod s = ProdWritten x m"
  shows "spsc_inv n (s\<lparr>sp_prod := ProdIdle, sp_heads := sp_heads s @ [m],
    sp_pushed := sp_pushed s @ [x]\<rparr>)"
proof -
  define s' where "s' = s\<lparr>sp_prod := ProdIdle, sp_heads := sp_heads s @ [m],
    sp_pushed := sp_pushed s @ [x]\<rparr>"
  have same: "sp_mask s' = sp_mask s" "sp_buffer s' = sp_buffer s" "sp_tails s' = sp_tails s"
    "sp_popped s' = sp_popped s" "sp_head_seen s' = sp_head_seen s" "sp_fault s' = sp_fault s"
    "sp_tail_seen s' = sp_tail_seen s" "reads s' = reads s" "pushes s' = Suc (pushes s)"
    "pops s' = pops s" "sp_pushed s' = sp_pushed s @ [x]"
    by (simp_all add: s'_def reads_def pushes_def split: consumer_pc.splits)
  have wr: "written s' i = written s i" for i
    using pc by (simp add: s'_def written_def nth_append pushes_def)
  have "pops s \<le> pushes s" using inv by (auto simp: spsc_inv_def)
  then have "take (pops s) (sp_pushed s @ [x]) = take (pops s) (sp_pushed s)"
    by (simp add: pushes_def)
  moreover have "consumer_ok n s'"
    using inv by (auto simp: s'_def spsc_inv_def consumer_ok_def nth_append pushes_def
        split: consumer_pc.splits)
  moreover have "producer_ok n s'" by (simp add: s'_def producer_ok_def)
  moreover have "sp_heads s' = map (\<lambda>i. i mod n) [0..<Suc (pushes s')]"
    using inv pc by (simp add: s'_def spsc_inv_def producer_ok_def pushes_def)
  moreover have "Suc (pushes s) < sp_tail_seen s + n"
    using inv pc by (simp add: spsc_inv_def producer_ok_def)
  ultimately have "spsc_inv n s'" using inv by (simp add: spsc_inv_def same wr)
  then show ?thesis by (simp add: s'_def)
qed

lemma inv_pop_store:
  assumes inv: "spsc_inv n s" and pc: "sp_cons s = ConsRead x m"
  shows "spsc_inv n (s\<lparr>sp_cons := ConsIdle, sp_tails := sp_tails s @ [m],
    sp_popped := sp_popped s @ [x]\<rparr>)"
proof -
  define s' where "s' = s\<lparr>sp_cons := ConsIdle, sp_tails := sp_tails s @ [m],
    sp_popped := sp_popped s @ [x]\<rparr>"
  have same: "sp_mask s' = sp_mask s" "sp_buffer s' = sp_buffer s" "sp_heads s' = sp_heads s"
    "sp_pushed s' = sp_pushed s" "sp_head_seen s' = sp_head_seen s" "sp_fault s' = sp_fault s"
    "sp_tail_seen s' = sp_tail_seen s" "reads s' = reads s" "pushes s' = pushes s"
    "pops s' = Suc (pops s)" "sp_popped s' = sp_popped s @ [x]"
    using pc by (simp_all add: s'_def reads_def pops_def)
  have wr: "written s' i = written s i" for i by (simp add: s'_def written_def)
  have c: "pops s < sp_head_seen s" "x = sp_pushed s ! pops s" "m = Suc (pops s) mod n"
    using inv pc by (simp_all add: spsc_inv_def consumer_ok_def)
  moreover have "sp_head_seen s \<le> pushes s" using inv by (simp add: spsc_inv_def)
  ultimately have "take (Suc (pops s)) (sp_pushed s) = take (pops s) (sp_pushed s) @ [x]"
    by (simp add: pushes_def take_Suc_conv_app_nth)
  moreover have "producer_ok n s'"
    using inv by (auto simp: s'_def spsc_inv_def producer_ok_def split: producer_pc.splits)
  moreover have "consumer_ok n s'" by (simp add: s'_def consumer_ok_def)
  moreover have "sp_tails s' = map (\<lambda>i. i mod n) [0..<Suc (pops s')]"
    using inv c by (simp add: s'_def spsc_inv_def pops_def)
  ultimately have "spsc_inv n s'" using inv c by (simp add: spsc_inv_def same wr)
  then show ?thesis by (simp add: s'_def)
qed

text \<open>The steps that only load an index or return.\<close>

lemma inv_loads:
  assumes inv: "spsc_inv n s"
  shows "sp_prod s = ProdIdle \<Longrightarrow> spsc_inv n (s\<lparr>sp_prod := ProdHead x (last (sp_heads s))\<rparr>)"
    and "sp_prod s = ProdHead x h \<Longrightarrow> sp_tail_seen s \<le> i \<Longrightarrow> i < length (sp_tails s) \<Longrightarrow>
      spsc_inv n (s\<lparr>sp_prod := ProdTail x h (sp_tails s ! i), sp_tail_seen := i\<rparr>)"
    and "sp_prod s = ProdTail x h t \<Longrightarrow> spsc_inv n (s\<lparr>sp_prod := ProdIdle\<rparr>)"
    and "sp_cons s = ConsIdle \<Longrightarrow> spsc_inv n (s\<lparr>sp_cons := ConsTail (last (sp_tails s))\<rparr>)"
    and "sp_cons s = ConsTail t \<Longrightarrow> sp_head_seen s \<le> i \<Longrightarrow> i < length (sp_heads s) \<Longrightarrow>
      spsc_inv n (s\<lparr>sp_cons := ConsHead t (sp_heads s ! i), sp_head_seen := i\<rparr>)"
    and "sp_cons s = ConsHead t h \<Longrightarrow> spsc_inv n (s\<lparr>sp_cons := ConsIdle\<rparr>)"
  using inv
  by (auto simp: spsc_inv_def producer_ok_def consumer_ok_def reads_def written_def last_indices
      simp del: upt_Suc split: producer_pc.splits consumer_pc.splits)

section \<open>Every interleaving keeps the invariant\<close>

lemma spsc_step_inv: "spsc_step s s' \<Longrightarrow> spsc_inv n s \<Longrightarrow> spsc_inv n s'"
proof (induction rule: spsc_step.induct)
  case (push_write_fault s x h t)
  then show ?case using producer_slot_free [of n s x h t] by simp
next
  case (pop_read_fault s t h)
  then show ?case using consumer_slot_live [of n s t h] by simp
next
  case (push_write s x h t)
  then show ?case by (intro inv_push_write)
next
  case (pop_read s t h x)
  then show ?case by (intro inv_pop_read)
qed (simp_all add: inv_loads inv_push_store inv_pop_store)

lemma spsc_init_inv:
  assumes "ring_new c = (Ok r :: ('a ring, 'e) result)"
  shows "spsc_inv (rb_capacity r) (spsc_init r)"
proof -
  have inv: "ring_inv r" using ring_new_spec [OF assms] by simp
  have r: "rb_head r = 0" "rb_tail r = 0" "rb_buffer r = replicate (rb_capacity r) None"
    using assms by (auto simp: ring_new_def Let_def split: if_splits)
  show ?thesis
    using ring_inv_mask [OF inv] ring_inv_capacity [OF inv] r
    by (simp add: spsc_inv_def spsc_init_def pushes_def pops_def reads_def written_def
        producer_ok_def consumer_ok_def)
qed

lemma spsc_reach_inv:
  assumes "spsc_reach r s" and "ring_new c = (Ok r :: ('a ring, 'e) result)"
  shows "spsc_inv (rb_capacity r) s"
  using assms
proof (induction rule: spsc_reach.induct)
  case reach_init
  then show ?case by (rule spsc_init_inv)
next
  case (reach_step s s')
  then show ?case using spsc_step_inv by blast
qed

text \<open>
  C5: Under every interleaving of the atomic steps of one producer and one consumer, with
  stale loads of the other side's index allowed, no slot is overwritten while live, read
  while dead, or indexed out of range; the items popped so far are, in order, a prefix of
  the items pushed; and at most \<open>max_size\<close> items are in flight.
\<close>

theorem spsc_safe:
  assumes "ring_new c = (Ok r :: ('a ring, 'e) result)" and "spsc_reach r s"
  shows "\<not> sp_fault s \<and> (\<exists>rest. sp_pushed s = sp_popped s @ rest \<and> length rest \<le> ring_max_size r)"
proof -
  note inv = spsc_reach_inv [OF assms(2,1)]
  have "sp_popped s = take (pops s) (sp_pushed s)" using inv by (simp add: spsc_inv_def)
  then have "sp_pushed s = sp_popped s @ drop (pops s) (sp_pushed s)" by simp
  moreover have "length (drop (pops s) (sp_pushed s)) \<le> ring_max_size r"
    using inv by (auto simp: spsc_inv_def ring_max_size_def pushes_def)
  moreover have "\<not> sp_fault s" using inv by (simp add: spsc_inv_def)
  ultimately show ?thesis by blast
qed

lemma spsc_safe_witness:
  "\<not> sp_fault ((spsc_init \<lparr>rb_buffer = replicate 4 None, rb_capacity = 4, rb_mask = 3,
       rb_head = 0, rb_tail = 0\<rparr>)\<lparr>sp_prod := ProdHead (5::nat) 0\<rparr>)"
proof -
  let ?r = "\<lparr>rb_buffer = replicate 4 None, rb_capacity = 4, rb_mask = 3, rb_head = 0,
    rb_tail = 0\<rparr> :: nat ring"
  have new: "ring_new 3 = (Ok ?r :: (nat ring, unit) result)"
    by (simp add: ring_new_def next_power_of_two.simps usize_limit_def)
  have "spsc_step (spsc_init ?r) ((spsc_init ?r)\<lparr>sp_prod := ProdHead 5 0\<rparr>)"
    using push_load_head [of "spsc_init ?r" 5] by (simp add: spsc_init_def)
  then have "spsc_reach ?r ((spsc_init ?r)\<lparr>sp_prod := ProdHead 5 0\<rparr>)"
    by (rule reach_step [OF reach_init])
  from spsc_safe [OF new this] show ?thesis by simp
qed

definition producer_rank :: "'a spsc \<Rightarrow> nat" where
  "producer_rank s = (case sp_prod s of ProdIdle \<Rightarrow> 0 | ProdHead _ _ \<Rightarrow> 3 | ProdTail _ _ _ \<Rightarrow> 2
     | ProdWritten _ _ \<Rightarrow> 1)"

definition consumer_rank :: "'a spsc \<Rightarrow> nat" where
  "consumer_rank s = (case sp_cons s of ConsIdle \<Rightarrow> 0 | ConsTail _ \<Rightarrow> 3 | ConsHead _ _ \<Rightarrow> 2
     | ConsRead _ _ \<Rightarrow> 1)"

text \<open>
  Both calls are wait-free: in every reachable state a producer or consumer inside a
  call has a step that brings it nearer to its return, whatever the other thread has
  done, so a call returns after at most three steps of its own.
\<close>

theorem spsc_wait_free:
  assumes "ring_new c = (Ok r :: ('a ring, 'e) result)" and "spsc_reach r s"
  shows "(sp_prod s \<noteq> ProdIdle \<longrightarrow> (\<exists>s'. spsc_step s s' \<and> producer_rank s' < producer_rank s \<and> sp_cons s' = sp_cons s))
    \<and> (sp_cons s \<noteq> ConsIdle \<longrightarrow> (\<exists>s'. spsc_step s s' \<and> consumer_rank s' < consumer_rank s \<and> sp_prod s' = sp_prod s))"
proof (intro conjI impI)
  note inv = spsc_reach_inv [OF assms(2,1)]
  have seen: "sp_tail_seen s < length (sp_tails s)" "sp_head_seen s < length (sp_heads s)"
    using inv by (auto simp: spsc_inv_def)
  show "\<exists>s'. spsc_step s s' \<and> producer_rank s' < producer_rank s \<and> sp_cons s' = sp_cons s" if "sp_prod s \<noteq> ProdIdle"
  proof (cases "sp_prod s")
    case ProdIdle
    with that show ?thesis by simp
  next
    case (ProdHead x h)
    from push_load_tail [OF this le_refl seen(1)] ProdHead show ?thesis by (force simp: producer_rank_def consumer_rank_def)
  next
    case (ProdTail x h t)
    show ?thesis
    proof (cases "(h + 1) AND sp_mask s = t")
      case True
      from push_full [OF ProdTail True] ProdTail show ?thesis by (force simp: producer_rank_def consumer_rank_def)
    next
      case False
      from push_write [OF ProdTail False producer_slot_free [OF inv ProdTail]] ProdTail
      show ?thesis by (force simp: producer_rank_def consumer_rank_def)
    qed
  next
    case (ProdWritten x n)
    from push_store_head [OF this] ProdWritten show ?thesis by (force simp: producer_rank_def consumer_rank_def)
  qed
  show "\<exists>s'. spsc_step s s' \<and> consumer_rank s' < consumer_rank s \<and> sp_prod s' = sp_prod s" if "sp_cons s \<noteq> ConsIdle"
  proof (cases "sp_cons s")
    case ConsIdle
    with that show ?thesis by simp
  next
    case (ConsTail t)
    from pop_load_head [OF this le_refl seen(2)] ConsTail show ?thesis by (force simp: producer_rank_def consumer_rank_def)
  next
    case (ConsHead t h)
    show ?thesis
    proof (cases "h = t")
      case True
      from pop_empty [OF ConsHead True] ConsHead show ?thesis by (force simp: producer_rank_def consumer_rank_def)
    next
      case False
      note live = consumer_slot_live [OF inv ConsHead False]
      from pop_read [OF ConsHead False live(1) live(3)] ConsHead show ?thesis by (force simp: producer_rank_def consumer_rank_def)
    qed
  next
    case (ConsRead x n)
    from pop_store_tail [OF this] ConsRead show ?thesis by (force simp: producer_rank_def consumer_rank_def)
  qed
qed

lemma spsc_wait_free_witness:
  "\<exists>s'. spsc_step ((spsc_init \<lparr>rb_buffer = replicate 4 None, rb_capacity = 4, rb_mask = 3,
       rb_head = 0, rb_tail = 0\<rparr>)\<lparr>sp_prod := ProdHead (5::nat) 0\<rparr>) s' \<and> producer_rank s' < 3"
proof -
  let ?r = "\<lparr>rb_buffer = replicate 4 None, rb_capacity = 4, rb_mask = 3, rb_head = 0,
    rb_tail = 0\<rparr> :: nat ring"
  have new: "ring_new 3 = (Ok ?r :: (nat ring, unit) result)"
    by (simp add: ring_new_def next_power_of_two.simps usize_limit_def)
  have "spsc_step (spsc_init ?r) ((spsc_init ?r)\<lparr>sp_prod := ProdHead 5 0\<rparr>)"
    using push_load_head [of "spsc_init ?r" 5] by (simp add: spsc_init_def)
  then have "spsc_reach ?r ((spsc_init ?r)\<lparr>sp_prod := ProdHead 5 0\<rparr>)"
    by (rule reach_step [OF reach_init])
  from spsc_wait_free [OF new this] show ?thesis by (auto simp: producer_rank_def)
qed

end
