(* ===== verification/Verify_Hash.thy ===== *)
theory Verify_Hash
  imports Codec_Data
begin

text \<open>
  \<open>verify/state_hash.rs\<close> and \<open>verify/checkpoint.rs\<close>. SHA-256 (crate \<open>sha2\<close>) is the parameter
  \<open>sha\<close>; its streaming interface makes the state of a hasher the bytes fed to it so far.
  A checkpoint is 48 bytes on the wire.
\<close>

section \<open>The state hasher\<close>

record state_hash =
  sh_input :: bytes
  sh_update_count :: u64

definition state_hash_new :: state_hash where
  "state_hash_new = \<lparr>sh_input = [], sh_update_count = 0\<rparr>"

text \<open>Feeding pieces to the hasher and counting one update.\<close>

definition hash_pieces :: "bytes list \<Rightarrow> state_hash \<Rightarrow> (state_hash, 'e) result" where
  "hash_pieces ps h =
     map_ok (\<lambda>n. h\<lparr>sh_input := sh_input h @ concat ps, sh_update_count := n\<rparr>)
       (u64_incr (sh_update_count h))"

definition newline :: bytes where
  "newline = [10]"

definition update_orderbook :: "bytes \<Rightarrow> state_hash \<Rightarrow> (state_hash, 'e) result" where
  "update_orderbook data = hash_pieces [as_bytes ''OB:'', data, newline]"

definition update_position :: "bytes \<Rightarrow> state_hash \<Rightarrow> (state_hash, 'e) result" where
  "update_position data = hash_pieces [as_bytes ''POS:'', data, newline]"

definition update_orders :: "bytes \<Rightarrow> state_hash \<Rightarrow> (state_hash, 'e) result" where
  "update_orders data = hash_pieces [as_bytes ''ORD:'', data, newline]"

definition sh_update :: "bytes \<Rightarrow> bytes \<Rightarrow> state_hash \<Rightarrow> (state_hash, 'e) result" where
  "sh_update label data = hash_pieces [label, as_bytes '':'', data, newline]"

definition update_raw :: "bytes \<Rightarrow> state_hash \<Rightarrow> (state_hash, 'e) result" where
  "update_raw data = hash_pieces [data]"

definition update_sequence :: "u64 \<Rightarrow> state_hash \<Rightarrow> (state_hash, 'e) result" where
  "update_sequence seq = hash_pieces [as_bytes ''SEQ:'', to_le seq, newline]"

definition update_timestamp :: "i64 \<Rightarrow> state_hash \<Rightarrow> (state_hash, 'e) result" where
  "update_timestamp ts = hash_pieces [as_bytes ''TS:'', to_le ts, newline]"

definition update_hash :: "sha256 \<Rightarrow> state_hash \<Rightarrow> (state_hash, 'e) result" where
  "update_hash hash = hash_pieces [as_bytes ''HASH:'', hash, newline]"

definition update_price_level :: "i64 \<Rightarrow> i64 \<Rightarrow> state_hash \<Rightarrow> (state_hash, 'e) result" where
  "update_price_level price quantity =
     hash_pieces [as_bytes ''LVL:'', to_le price, to_le quantity, newline]"

fun level_bytes :: "(i64 \<times> i64) list \<Rightarrow> bytes" where
  "level_bytes [] = []"
| "level_bytes ((price, qty) # levels) = to_le price @ to_le qty @ level_bytes levels"

definition update_bids :: "(i64 \<times> i64) list \<Rightarrow> state_hash \<Rightarrow> (state_hash, 'e) result" where
  "update_bids levels = hash_pieces
     [as_bytes ''BIDS:'', to_le (of_nat (length levels) :: u32), level_bytes levels, newline]"

definition update_asks :: "(i64 \<times> i64) list \<Rightarrow> state_hash \<Rightarrow> (state_hash, 'e) result" where
  "update_asks levels = hash_pieces
     [as_bytes ''ASKS:'', to_le (of_nat (length levels) :: u32), level_bytes levels, newline]"

definition sh_finalize :: "(bytes \<Rightarrow> sha256) \<Rightarrow> state_hash \<Rightarrow> sha256" where
  "sh_finalize sha h = sha (sh_input h)"

definition hash_once :: "(bytes \<Rightarrow> sha256) \<Rightarrow> bytes \<Rightarrow> sha256" where
  "hash_once sha data = sha data"

definition combine_hashes :: "(bytes \<Rightarrow> sha256) \<Rightarrow> sha256 list \<Rightarrow> sha256" where
  "combine_hashes sha hashes =
     sh_finalize sha (state_hash_new\<lparr>sh_input :=
       as_bytes ''COMBINE:'' @ to_le (of_nat (length hashes) :: u32) @ concat hashes\<rparr>)"

definition to_hex :: "sha256 \<Rightarrow> string" where
  "to_hex hash = concat (map hex2 hash)"

text \<open>\<open>u8::from_str_radix(s, 16)\<close>: an optional plus sign, then at least one digit.\<close>

definition hex_digit :: "u8 \<Rightarrow> nat option" where
  "hex_digit b =
     (let n = unat b in
      if 48 \<le> n \<and> n \<le> 57 then Some (n - 48)
      else if 97 \<le> n \<and> n \<le> 102 then Some (n - 87)
      else if 65 \<le> n \<and> n \<le> 70 then Some (n - 55)
      else None)"

fun hex_digits :: "nat \<Rightarrow> bytes \<Rightarrow> nat option" where
  "hex_digits acc [] = Some acc"
| "hex_digits acc (b # bs) =
     (case hex_digit b of
        None \<Rightarrow> None
      | Some d \<Rightarrow> if 16 * acc + d > 255 then None else hex_digits (16 * acc + d) bs)"

definition u8_from_hex :: "bytes \<Rightarrow> u8 option" where
  "u8_from_hex bs =
     (case bs of
        [] \<Rightarrow> None
      | b # rest \<Rightarrow>
          if (b = 43 \<or> b = 45) \<and> rest = [] then None
          else map_option of_nat (hex_digits 0 (if b = 43 then rest else bs)))"

fun hex_chunks :: "bytes \<Rightarrow> bytes option" where
  "hex_chunks [] = Some []"
| "hex_chunks [a] = None"
| "hex_chunks (a # b # rest) =
     (if utf8_valid [a, b]
      then (case u8_from_hex [a, b] of
              None \<Rightarrow> None
            | Some v \<Rightarrow> map_option (\<lambda>vs. v # vs) (hex_chunks rest))
      else None)"

definition from_hex :: "string \<Rightarrow> sha256 option" where
  "from_hex hex = (if length hex \<noteq> 64 then None else hex_chunks (as_bytes hex))"

text \<open>The implementations of \<open>Hashable\<close>; a double is given by its bits.\<close>

definition hash_i64 :: "i64 \<Rightarrow> state_hash \<Rightarrow> (state_hash, 'e) result" where
  "hash_i64 v = sh_update (as_bytes ''i64'') (to_le v)"

definition hash_u64 :: "u64 \<Rightarrow> state_hash \<Rightarrow> (state_hash, 'e) result" where
  "hash_u64 v = sh_update (as_bytes ''u64'') (to_le v)"

definition hash_f64 :: "u64 \<Rightarrow> state_hash \<Rightarrow> (state_hash, 'e) result" where
  "hash_f64 bits = sh_update (as_bytes ''f64'') (to_le bits)"

definition hash_digest :: "sha256 \<Rightarrow> state_hash \<Rightarrow> (state_hash, 'e) result" where
  "hash_digest v = update_hash v"

fun hash_items ::
    "('a \<Rightarrow> state_hash \<Rightarrow> (state_hash, 'e) result) \<Rightarrow> 'a list \<Rightarrow> state_hash \<Rightarrow> (state_hash, 'e) result" where
  "hash_items elem [] h = Ok h"
| "hash_items elem (x # xs) h = rbind (elem x h) (hash_items elem xs)"

definition hash_vec ::
    "('a \<Rightarrow> state_hash \<Rightarrow> (state_hash, 'e) result) \<Rightarrow> 'a list \<Rightarrow> state_hash \<Rightarrow> (state_hash, 'e) result" where
  "hash_vec elem xs h =
     rbind (sh_update (as_bytes ''VEC_LEN'') (to_le (of_nat (length xs) :: u64)) h) (hash_items elem xs)"

definition hash_option ::
    "('a \<Rightarrow> state_hash \<Rightarrow> (state_hash, 'e) result) \<Rightarrow> 'a option \<Rightarrow> state_hash \<Rightarrow> (state_hash, 'e) result" where
  "hash_option elem v h =
     (case v of Some x \<Rightarrow> rbind (update_raw [1] h) (elem x) | None \<Rightarrow> update_raw [0] h)"

definition from_hashable ::
    "(bytes \<Rightarrow> sha256) \<Rightarrow> ('a \<Rightarrow> state_hash \<Rightarrow> (state_hash, 'e) result) \<Rightarrow> 'a \<Rightarrow> (sha256, 'e) result" where
  "from_hashable sha hash_into v = map_ok (sh_finalize sha) (hash_into v state_hash_new)"

section \<open>Checkpoints\<close>

definition CHECKPOINT_DATA_SIZE :: usize where
  "CHECKPOINT_DATA_SIZE = 48"

record checkpoint_data =
  cd_sequence :: u64
  cd_timestamp :: i64
  cd_state_hash :: sha256

definition checkpoint_data_new :: "u64 \<Rightarrow> i64 \<Rightarrow> sha256 \<Rightarrow> checkpoint_data" where
  "checkpoint_data_new seq ts h = \<lparr>cd_sequence = seq, cd_timestamp = ts, cd_state_hash = h\<rparr>"

definition checkpoint_data_to_bytes :: "checkpoint_data \<Rightarrow> (bytes, 'e) result" where
  "checkpoint_data_to_bytes d =
     rbind (write_at (replicate CHECKPOINT_DATA_SIZE 0) 0 (to_le (cd_sequence d))) (\<lambda>b.
     rbind (write_at b 8 (to_le (cd_timestamp d))) (\<lambda>b.
     if length (cd_state_hash d) = 32 then write_at b 16 (cd_state_hash d) else Panic))"

datatype checkpoint_error =
    CkInvalidSize usize usize
  | CkMissingHash
  | CkVerificationFailed u64 sha256 sha256

definition checkpoint_data_from_bytes :: "bytes \<Rightarrow> (checkpoint_data, checkpoint_error) result" where
  "checkpoint_data_from_bytes bytes =
     (if length bytes < CHECKPOINT_DATA_SIZE
      then Err (CkInvalidSize CHECKPOINT_DATA_SIZE (length bytes))
      else
        rbind (subslice bytes 0 8) (\<lambda>a.
        rbind (subslice bytes 8 16) (\<lambda>b.
        rbind (subslice bytes 16 48) (\<lambda>c.
        Ok \<lparr>cd_sequence = from_le a, cd_timestamp = from_le b, cd_state_hash = c\<rparr>))))"

record checkpoint =
  ckp_sequence :: u64
  ckp_timestamp :: i64
  ckp_state_hash :: sha256

definition checkpoint_new :: "u64 \<Rightarrow> i64 \<Rightarrow> sha256 \<Rightarrow> checkpoint" where
  "checkpoint_new seq ts h = \<lparr>ckp_sequence = seq, ckp_timestamp = ts, ckp_state_hash = h\<rparr>"

definition checkpoint_state_hash_hex :: "checkpoint \<Rightarrow> string" where
  "checkpoint_state_hash_hex c = to_hex (ckp_state_hash c)"

definition checkpoint_to_data :: "checkpoint \<Rightarrow> checkpoint_data" where
  "checkpoint_to_data c =
     \<lparr>cd_sequence = ckp_sequence c, cd_timestamp = ckp_timestamp c, cd_state_hash = ckp_state_hash c\<rparr>"

definition checkpoint_from_data :: "checkpoint_data \<Rightarrow> checkpoint" where
  "checkpoint_from_data d =
     \<lparr>ckp_sequence = cd_sequence d, ckp_timestamp = cd_timestamp d, ckp_state_hash = cd_state_hash d\<rparr>"

definition checkpoint_from_bytes :: "bytes \<Rightarrow> (checkpoint, checkpoint_error) result" where
  "checkpoint_from_bytes bytes =
     (if length bytes < CHECKPOINT_DATA_SIZE
      then Err (CkInvalidSize CHECKPOINT_DATA_SIZE (length bytes))
      else map_ok checkpoint_from_data (checkpoint_data_from_bytes bytes))"

definition checkpoint_verify :: "checkpoint \<Rightarrow> sha256 \<Rightarrow> bool" where
  "checkpoint_verify c expected \<longleftrightarrow> ckp_state_hash c = expected"

definition checkpoint_is_after :: "checkpoint \<Rightarrow> checkpoint \<Rightarrow> bool" where
  "checkpoint_is_after c other \<longleftrightarrow> ckp_sequence c > ckp_sequence other"

definition checkpoint_to_bytes :: "checkpoint \<Rightarrow> (bytes, 'e) result" where
  "checkpoint_to_bytes c = checkpoint_data_to_bytes (checkpoint_to_data c)"

record checkpoint_builder =
  cb_sequence :: u64
  cb_timestamp :: i64
  cb_state_hash :: "sha256 option"

definition builder_new :: checkpoint_builder where
  "builder_new = \<lparr>cb_sequence = 0, cb_timestamp = 0, cb_state_hash = None\<rparr>"

definition builder_sequence :: "u64 \<Rightarrow> checkpoint_builder \<Rightarrow> checkpoint_builder" where
  "builder_sequence seq b = b\<lparr>cb_sequence := seq\<rparr>"

definition builder_timestamp :: "i64 \<Rightarrow> checkpoint_builder \<Rightarrow> checkpoint_builder" where
  "builder_timestamp ts b = b\<lparr>cb_timestamp := ts\<rparr>"

definition builder_hash :: "sha256 \<Rightarrow> checkpoint_builder \<Rightarrow> checkpoint_builder" where
  "builder_hash h b = b\<lparr>cb_state_hash := Some h\<rparr>"

definition builder_from_hasher ::
    "(bytes \<Rightarrow> sha256) \<Rightarrow> state_hash \<Rightarrow> checkpoint_builder \<Rightarrow> checkpoint_builder" where
  "builder_from_hasher sha h b = b\<lparr>cb_state_hash := Some (sh_finalize sha h)\<rparr>"

definition builder_build :: "checkpoint_builder \<Rightarrow> checkpoint" where
  "builder_build b =
     \<lparr>ckp_sequence = cb_sequence b, ckp_timestamp = cb_timestamp b,
      ckp_state_hash = (case cb_state_hash b of None \<Rightarrow> replicate 32 0 | Some h \<Rightarrow> h)\<rparr>"

definition builder_build_checked :: "checkpoint_builder \<Rightarrow> (checkpoint, checkpoint_error) result" where
  "builder_build_checked b =
     map_ok (\<lambda>h. \<lparr>ckp_sequence = cb_sequence b, ckp_timestamp = cb_timestamp b, ckp_state_hash = h\<rparr>)
       (ok_or CkMissingHash (cb_state_hash b))"

definition checkpoint_error_display :: "checkpoint_error \<Rightarrow> string" where
  "checkpoint_error_display e =
     (case e of
        CkInvalidSize expected actual \<Rightarrow>
          ''Invalid checkpoint size: expected '' @ show_nat expected @ '' bytes, got '' @ show_nat actual
      | CkMissingHash \<Rightarrow> ''Missing state hash in checkpoint builder''
      | CkVerificationFailed seq expected actual \<Rightarrow>
          ''Checkpoint '' @ show_nat (unat seq) @ '' verification failed: expected '' @
          to_hex expected @ '', got '' @ to_hex actual)"

section \<open>What a digest commits to\<close>

text \<open>The updates whose length is fixed or given by a count.\<close>

datatype hash_update =
    HU_Sequence u64 | HU_Timestamp i64 | HU_Hash sha256 | HU_Level i64 i64
  | HU_Bids "(i64 \<times> i64) list" | HU_Asks "(i64 \<times> i64) list"

fun apply_update :: "hash_update \<Rightarrow> state_hash \<Rightarrow> (state_hash, 'e) result" where
  "apply_update (HU_Sequence n) = update_sequence n"
| "apply_update (HU_Timestamp t) = update_timestamp t"
| "apply_update (HU_Hash h) = update_hash h"
| "apply_update (HU_Level p q) = update_price_level p q"
| "apply_update (HU_Bids ls) = update_bids ls"
| "apply_update (HU_Asks ls) = update_asks ls"

fun apply_updates :: "hash_update list \<Rightarrow> state_hash \<Rightarrow> (state_hash, 'e) result" where
  "apply_updates [] h = Ok h"
| "apply_updates (u # us) h = rbind (apply_update u h) (apply_updates us)"

fun update_wf :: "hash_update \<Rightarrow> bool" where
  "update_wf (HU_Hash h) \<longleftrightarrow> length h = 32"
| "update_wf (HU_Bids ls) \<longleftrightarrow> length ls < 2 ^ 32"
| "update_wf (HU_Asks ls) \<longleftrightarrow> length ls < 2 ^ 32"
| "update_wf _ \<longleftrightarrow> True"

fun update_bytes :: "hash_update \<Rightarrow> bytes" where
  "update_bytes (HU_Sequence n) = as_bytes ''SEQ:'' @ to_le n @ newline"
| "update_bytes (HU_Timestamp t) = as_bytes ''TS:'' @ to_le t @ newline"
| "update_bytes (HU_Hash h) = as_bytes ''HASH:'' @ h @ newline"
| "update_bytes (HU_Level p q) = as_bytes ''LVL:'' @ to_le p @ to_le q @ newline"
| "update_bytes (HU_Bids ls) =
     as_bytes ''BIDS:'' @ to_le (of_nat (length ls) :: u32) @ level_bytes ls @ newline"
| "update_bytes (HU_Asks ls) =
     as_bytes ''ASKS:'' @ to_le (of_nat (length ls) :: u32) @ level_bytes ls @ newline"

lemma hash_pieces_input: "hash_pieces ps h = Ok h' \<Longrightarrow> sh_input h' = sh_input h @ concat ps"
  by (auto simp: hash_pieces_def map_ok_Ok_iff)

lemma apply_update_input: "apply_update u h = Ok h' \<Longrightarrow> sh_input h' = sh_input h @ update_bytes u"
  by (cases u) (auto simp: update_sequence_def update_timestamp_def update_hash_def
      update_price_level_def update_bids_def update_asks_def dest: hash_pieces_input)

lemma apply_updates_input:
  "apply_updates us h = Ok h' \<Longrightarrow> sh_input h' = sh_input h @ concat (map update_bytes us)"
  by (induction us arbitrary: h) (auto simp: rbind_Ok_iff dest: apply_update_input)

lemma length_level_bytes: "length (level_bytes ls) = 16 * length ls"
  by (induction ls rule: level_bytes.induct) simp_all

lemma level_bytes_inject: "length ls = length ms \<Longrightarrow> level_bytes ls = level_bytes ms \<Longrightarrow> ls = ms"
  by (induction ls ms rule: list_induct2) (auto dest!: to_le_inject)

lemma levels_inject:
  assumes "(of_nat (length ls) :: u32) = of_nat (length ms)"
    and "level_bytes ls @ x # r = level_bytes ms @ x # r'"
    and "length ls < 2 ^ 32" and "length ms < 2 ^ 32"
  shows "ls = ms \<and> r = r'"
proof -
  have "length ls = length ms" using assms(1,3,4) unat_u32_small by metis
  with assms(2) show ?thesis
    by (auto simp: append_eq_append_conv length_level_bytes dest: level_bytes_inject)
qed

lemma update_bytes_inject:
  assumes "update_bytes u @ r = update_bytes v @ r'" and "update_wf u" and "update_wf v"
  shows "u = v \<and> r = r'"
  using assms
  by (cases u; cases v) (simp_all add: as_bytes_def append_eq_append_conv newline_def,
      (auto dest!: to_le_inject dest: levels_inject)+)

text \<open>
  The structured updates are framed without ambiguity: two sequences of sequence-number,
  timestamp, hash, price-level, bid and ask updates feed the same bytes to the hasher only if
  they are the same sequence. Equal digests of different sequences are collisions of SHA-256.
\<close>

theorem structured_updates_injective:
  assumes "apply_updates us state_hash_new = (Ok h :: (_, 'e) result)"
    and "apply_updates vs state_hash_new = (Ok h' :: (_, 'e) result)"
    and "\<forall>u \<in> set us \<union> set vs. update_wf u"
  shows "sh_input h = sh_input h' \<longleftrightarrow> us = vs"
proof -
  have "concat (map update_bytes us) = concat (map update_bytes vs) \<Longrightarrow> us = vs"
    using assms(3)
  proof (induction us arbitrary: vs)
    case Nil
    have "update_bytes v \<noteq> []" for v by (cases v) (simp_all add: as_bytes_def)
    with Nil show ?case by (cases vs) auto
  next
    case (Cons u us)
    have "update_bytes u \<noteq> []" by (cases u) (simp_all add: as_bytes_def)
    then obtain v vs' where "vs = v # vs'" using Cons.prems(1) by (cases vs) auto
    with Cons update_bytes_inject [of u "concat (map update_bytes us)" v "concat (map update_bytes vs')"]
    show ?case by auto
  qed
  with apply_updates_input [OF assms(1)] apply_updates_input [OF assms(2)] assms(1,2)
  show ?thesis by (auto simp: state_hash_new_def)
qed

theorem structured_updates_injective_witness:
  "\<exists>h h'. apply_updates [HU_Sequence 1, HU_Bids [(1, 2)]] state_hash_new = (Ok h :: (_, unit) result) \<and>
     apply_updates [HU_Sequence 1, HU_Asks [(1, 2)]] state_hash_new = (Ok h' :: (_, unit) result) \<and>
     sh_input h \<noteq> sh_input h'"
proof -
  obtain h h' where h: "apply_updates [HU_Sequence 1, HU_Bids [(1, 2)]] state_hash_new = (Ok h :: (_, unit) result)"
    "apply_updates [HU_Sequence 1, HU_Asks [(1, 2)]] state_hash_new = (Ok h' :: (_, unit) result)"
    by (simp add: update_sequence_def update_bids_def update_asks_def hash_pieces_def u64_incr_def state_hash_new_def)
  from structured_updates_injective [OF h] h show ?thesis by auto
qed

text \<open>
  The updates with free data are not framed: order-book data that contains the separator
  and the next tag hashes like two updates, under any hash function.
\<close>

theorem free_updates_collide:
  "map_ok (sh_finalize sha) (update_orderbook (as_bytes ''A'' @ newline @ as_bytes ''POS:B'') state_hash_new)
   = (map_ok (sh_finalize sha) (rbind (update_orderbook (as_bytes ''A'') state_hash_new)
       (update_position (as_bytes ''B''))) :: (_, 'e) result)"
  by (simp add: update_orderbook_def update_position_def hash_pieces_def u64_incr_def state_hash_new_def
      sh_finalize_def as_bytes_def)

section \<open>Hexadecimal and checkpoint round trips\<close>

lemma hex_digit_char: "d < 16 \<Longrightarrow> hex_digit (of_char (digit_char d)) = Some d"
  by (simp add: hex_digit_def unat_of_char of_char_digit_char)

lemma hex2_bytes: "as_bytes (hex2 b) =
   [of_char (digit_char (unat b div 16)), of_char (digit_char (unat b mod 16))]"
  by (simp add: hex2_def as_bytes_def)

lemma digit_not_sign: "d < 16 \<Longrightarrow> (of_char (digit_char d) :: u8) \<noteq> 43"
  using of_char_digit_char [of d] unat_of_char [of "digit_char d"] by (auto split: if_splits)

lemma u8_from_hex2: "u8_from_hex (as_bytes (hex2 b)) = Some b"
proof -
  have b: "unat b < 256" using unsigned_less [of b, where 'a = nat] by simp
  then have "unat b div 16 < 16" "unat b mod 16 < 16" by simp_all
  moreover have "16 * (unat b div 16) + unat b mod 16 = unat b" by simp
  ultimately show ?thesis using b digit_not_sign
    by (simp add: u8_from_hex_def hex2_bytes hex_digit_char)
qed

lemma hex_chunks_to_hex: "hex_chunks (as_bytes (concat (map hex2 h))) = Some h"
proof (induction h)
  case Nil
  show ?case by (simp add: as_bytes_def)
next
  case (Cons b h)
  have "as_bytes (concat (map hex2 (b # h))) = as_bytes (hex2 b) @ as_bytes (concat (map hex2 h))"
    by (simp add: as_bytes_def)
  moreover have "utf8_valid (as_bytes (hex2 b))"
  proof -
    have "unat b div 16 < 16" "unat b mod 16 < 16"
      using unsigned_less [of b, where 'a = nat] by simp_all
    then show ?thesis
      by (intro utf8_valid_ascii) (auto simp: hex2_bytes unat_of_char of_char_digit_char)
  qed
  ultimately show ?case using Cons u8_from_hex2 [of b] by (simp add: hex2_bytes)
qed

lemma length_to_hex: "length (to_hex h) = 2 * length h"
  by (induction h) (simp_all add: to_hex_def)

text \<open>
  \<open>from_hex\<close> reads back what \<open>to_hex\<close> prints.
\<close>

theorem hex_roundtrip: "from_hex (to_hex h) = (if length h = 32 then Some h else None)"
proof (cases "length h = 32")
  case True
  then have "length (to_hex h) = 64" by (simp add: length_to_hex)
  with True show ?thesis
    by (simp add: from_hex_def) (simp add: to_hex_def hex_chunks_to_hex)
next
  case False
  then have "length (to_hex h) \<noteq> 64" by (simp add: length_to_hex)
  with False show ?thesis by (simp add: from_hex_def)
qed

text \<open>
  A checkpoint with a 32-byte hash is written as 48 bytes, and reading them back, followed
  by anything, gives the checkpoint; shorter input is an error; nothing panics.
\<close>

theorem checkpoint_roundtrip:
  assumes "length (ckp_state_hash c) = 32"
  shows "\<exists>bs. checkpoint_to_bytes c = (Ok bs :: (_, 'e) result) \<and> length bs = CHECKPOINT_DATA_SIZE \<and>
      checkpoint_from_bytes (bs @ extra) = Ok c"
    and "checkpoint_from_bytes b \<noteq> Panic"
    and "(\<exists>x. checkpoint_from_bytes b = Ok x) \<longleftrightarrow> length b \<ge> CHECKPOINT_DATA_SIZE"
proof -
  let ?bs = "to_le (ckp_sequence c) @ to_le (ckp_timestamp c) @ ckp_state_hash c"
  have "checkpoint_to_bytes c = (Ok ?bs :: (_, 'e) result)"
    using assms by (simp add: checkpoint_to_bytes_def checkpoint_data_to_bytes_def checkpoint_to_data_def
        write_at_def CHECKPOINT_DATA_SIZE_def)
  moreover have "checkpoint_from_bytes (?bs @ extra) = Ok c"
    using assms by (simp add: checkpoint_from_bytes_def checkpoint_data_from_bytes_def subslice_def
        checkpoint_from_data_def CHECKPOINT_DATA_SIZE_def)
  ultimately show "\<exists>bs. checkpoint_to_bytes c = (Ok bs :: (_, 'e) result) \<and>
      length bs = CHECKPOINT_DATA_SIZE \<and> checkpoint_from_bytes (bs @ extra) = Ok c"
    using assms by (auto simp: CHECKPOINT_DATA_SIZE_def)
  show "checkpoint_from_bytes b \<noteq> Panic" "(\<exists>x. checkpoint_from_bytes b = Ok x) \<longleftrightarrow> length b \<ge> CHECKPOINT_DATA_SIZE"
    by (auto simp: checkpoint_from_bytes_def checkpoint_data_from_bytes_def subslice_def CHECKPOINT_DATA_SIZE_def)
qed

theorem checkpoint_roundtrip_witness:
  "\<exists>bs. checkpoint_to_bytes (checkpoint_new 7 9 (replicate 32 1)) = (Ok bs :: (_, unit) result) \<and>
     checkpoint_from_bytes (bs @ []) = Ok (checkpoint_new 7 9 (replicate 32 1))"
  using checkpoint_roundtrip(1) [of "checkpoint_new 7 9 (replicate 32 1)" "[]", where 'e = unit]
  by (auto simp: checkpoint_new_def)

text \<open>
  \<open>from_hex\<close> accepts a plus sign in place of a leading digit.
\<close>

theorem from_hex_accepts_plus:
  "from_hex (concat (replicate 32 ''+f'')) = Some (replicate 32 15)"
proof -
  have one: "u8_from_hex [43, 102] = Some 15" "utf8_valid [43, 102]"
    by (simp_all add: u8_from_hex_def hex_digit_def utf8_valid_ascii)
  have "hex_chunks (concat (replicate n [43, 102])) = Some (replicate n 15)" for n
    by (induction n) (simp_all add: one)
  moreover have "as_bytes (concat (replicate n ''+f'')) = concat (replicate n [43, 102])" for n
    by (induction n) (simp_all add: as_bytes_def)
  moreover have "length (concat (replicate 32 ''+f'')) = 64"
    by (simp add: length_concat sum_list_replicate)
  ultimately show ?thesis by (simp only: from_hex_def if_False not_True_eq_False) simp
qed

end
