(* ===== verification/F64.thy ===== *)
theory F64
  imports Complex_Main Prelude
begin

text \<open>
  The \<open>f64\<close> of Rust as far as the modelled code uses it: IEEE 754 binary64 values (the sign
  of zero is not observable here), every operation the exact rational result rounded
  to nearest, ties to even, and the saturating casts to \<open>u64\<close> and \<open>i64\<close>. Integers of
  magnitude at most \<open>2^53\<close> are represented exactly, which is what the proofs use.
\<close>

datatype f64 = FNaN | FInf bool | FFin rat

section \<open>Rounding\<close>

fun bitlen :: "nat \<Rightarrow> nat" where
  "bitlen n = (if n = 0 then 0 else Suc (bitlen (n div 2)))"

declare bitlen.simps [simp del]

definition pow2 :: "int \<Rightarrow> rat" where
  "pow2 e = (if e \<ge> 0 then 2 ^ nat e else 1 / 2 ^ nat (- e))"

text \<open>The nearest integer of a non-negative rational, ties to even.\<close>

definition round_even :: "rat \<Rightarrow> int" where
  "round_even r =
     (let f = \<lfloor>r\<rfloor>; d = r - of_int f in
      if d < 1 / 2 then f else if d > 1 / 2 then f + 1 else if even f then f else f + 1)"

text \<open>The exponent of the last place of a positive rational, at least that of the subnormals.\<close>

definition ulp_exp :: "rat \<Rightarrow> int" where
  "ulp_exp x =
     (let (p, q) = quotient_of x;
          e = int (bitlen (nat p)) - int (bitlen (nat q)) - 53;
          e' = (if x / pow2 e < 2 ^ 53 then e else e + 1) in
      max e' (- 1074))"

definition round_pos :: "rat \<Rightarrow> f64" where
  "round_pos x =
     (let e = ulp_exp x; y = of_int (round_even (x / pow2 e)) * pow2 e in
      if y < 2 ^ 1024 then FFin y else FInf False)"

fun f64_neg :: "f64 \<Rightarrow> f64" where
  "f64_neg FNaN = FNaN"
| "f64_neg (FInf s) = FInf (\<not> s)"
| "f64_neg (FFin x) = FFin (- x)"

definition f64_of_rat :: "rat \<Rightarrow> f64" where
  "f64_of_rat x =
     (if x = 0 then FFin 0 else if x > 0 then round_pos x else f64_neg (round_pos (- x)))"

section \<open>Operations\<close>

text \<open>\<open>x as f64\<close> of an integer.\<close>

definition f64_of_int :: "int \<Rightarrow> f64" where
  "f64_of_int z = f64_of_rat (of_int z)"

definition f64_is_neg :: "f64 \<Rightarrow> bool" where
  "f64_is_neg x = (case x of FNaN \<Rightarrow> False | FInf s \<Rightarrow> s | FFin r \<Rightarrow> r < 0)"

fun f64_mul :: "f64 \<Rightarrow> f64 \<Rightarrow> f64" where
  "f64_mul (FFin a) (FFin b) = f64_of_rat (a * b)"
| "f64_mul FNaN y = FNaN"
| "f64_mul x FNaN = FNaN"
| "f64_mul x y =
     (if x = FFin 0 \<or> y = FFin 0 then FNaN else FInf (f64_is_neg x \<noteq> f64_is_neg y))"

text \<open>Division by a positive finite number, the only use.\<close>

fun f64_div_pos :: "f64 \<Rightarrow> rat \<Rightarrow> f64" where
  "f64_div_pos (FFin a) b = f64_of_rat (a / b)"
| "f64_div_pos x b = x"

fun f64_add :: "f64 \<Rightarrow> f64 \<Rightarrow> f64" where
  "f64_add (FFin a) (FFin b) = f64_of_rat (a + b)"
| "f64_add FNaN y = FNaN"
| "f64_add x FNaN = FNaN"
| "f64_add (FInf s) (FInf t) = (if s = t then FInf s else FNaN)"
| "f64_add (FInf s) (FFin b) = FInf s"
| "f64_add (FFin a) (FInf t) = FInf t"

definition f64_sub :: "f64 \<Rightarrow> f64 \<Rightarrow> f64" where
  "f64_sub x y = f64_add x (f64_neg y)"

text \<open>
  Division by anything but zero, which the code excludes (the sign of the result of a division
  by zero is the sign of the zero).
\<close>

fun f64_div :: "f64 \<Rightarrow> f64 \<Rightarrow> f64" where
  "f64_div (FFin a) (FFin b) = f64_of_rat (a / b)"
| "f64_div FNaN y = FNaN"
| "f64_div x FNaN = FNaN"
| "f64_div (FInf s) (FInf t) = FNaN"
| "f64_div (FInf s) (FFin b) = FInf (s \<noteq> (b < 0))"
| "f64_div (FFin a) (FInf t) = FFin 0"

text \<open>\<open>mul_add\<close>: the product is not rounded before the sum.\<close>

fun f64_mul_add :: "f64 \<Rightarrow> f64 \<Rightarrow> f64 \<Rightarrow> f64" where
  "f64_mul_add (FFin a) (FFin b) (FFin c) = f64_of_rat (a * b + c)"
| "f64_mul_add (FFin a) (FFin b) c = c"
| "f64_mul_add x y c = f64_add (f64_mul x y) c"

text \<open>Comparisons with a finite constant; every comparison with NaN is false.\<close>

fun f64_gt :: "f64 \<Rightarrow> rat \<Rightarrow> bool" where
  "f64_gt FNaN c \<longleftrightarrow> False"
| "f64_gt (FInf s) c \<longleftrightarrow> \<not> s"
| "f64_gt (FFin r) c \<longleftrightarrow> r > c"

fun f64_ge :: "f64 \<Rightarrow> rat \<Rightarrow> bool" where
  "f64_ge FNaN c \<longleftrightarrow> False"
| "f64_ge (FInf s) c \<longleftrightarrow> \<not> s"
| "f64_ge (FFin r) c \<longleftrightarrow> r \<ge> c"

text \<open>\<open>f64::round\<close>: ties away from zero. A rounded double is a double again.\<close>

fun f64_round :: "f64 \<Rightarrow> f64" where
  "f64_round (FFin x) = FFin (of_int (if x \<ge> 0 then \<lfloor>x + 1 / 2\<rfloor> else - \<lfloor>- x + 1 / 2\<rfloor>))"
| "f64_round y = y"

text \<open>\<open>x as u64\<close> and \<open>x as i64\<close> truncate and saturate; NaN becomes 0.\<close>

definition rat_trunc :: "rat \<Rightarrow> int" where
  "rat_trunc x = (if x \<ge> 0 then \<lfloor>x\<rfloor> else - \<lfloor>- x\<rfloor>)"

fun f64_as_u64 :: "f64 \<Rightarrow> u64" where
  "f64_as_u64 FNaN = 0"
| "f64_as_u64 (FInf s) = (if s then 0 else - 1)"
| "f64_as_u64 (FFin x) = word_of_int (max 0 (min (2 ^ 64 - 1) (rat_trunc x)))"

fun f64_as_i64 :: "f64 \<Rightarrow> i64" where
  "f64_as_i64 FNaN = 0"
| "f64_as_i64 (FInf s) = i64_clamp (if s then - (2 ^ 63) else 2 ^ 63 - 1)"
| "f64_as_i64 (FFin x) = i64_clamp (rat_trunc x)"

section \<open>Integers up to \<open>2^53\<close> are exact\<close>

lemma bitlen_bounds: "0 < n \<Longrightarrow> 2 ^ (bitlen n - 1) \<le> n \<and> n < 2 ^ bitlen n \<and> 0 < bitlen n"
proof (induction n rule: bitlen.induct)
  case (1 n)
  show ?case
  proof (cases "n = 1")
    case True
    then show ?thesis by (simp add: bitlen.simps)
  next
    case False
    with "1.prems" have pos: "0 < n div 2" "n \<noteq> 0" by simp_all
    from "1.IH" [OF pos(2) pos(1)] have IH: "2 ^ (bitlen (n div 2) - 1) \<le> n div 2"
      "n div 2 < 2 ^ bitlen (n div 2)" "0 < bitlen (n div 2)" by simp_all
    obtain k where k: "bitlen (n div 2) = Suc k" using IH(3) by (cases "bitlen (n div 2)") auto
    have "bitlen n = Suc (Suc k)" using "1.prems" k by (simp add: bitlen.simps [of n])
    moreover have "2 * 2 ^ k \<le> n" "n < 2 * (2 * 2 ^ k)" using IH(1,2) k by (simp, simp)
    ultimately show ?thesis by simp
  qed
qed

lemma bitlen_le: "n \<le> 2 ^ k \<Longrightarrow> bitlen n \<le> Suc k"
proof (rule ccontr)
  assume le: "n \<le> 2 ^ k" and "\<not> bitlen n \<le> Suc k"
  then have k: "Suc k \<le> bitlen n - 1" "0 < n" by (auto simp: bitlen.simps [of n] split: if_splits)
  then have "(2::nat) ^ Suc k \<le> 2 ^ (bitlen n - 1)" by (intro power_increasing) simp_all
  also have "\<dots> \<le> n" using bitlen_bounds [OF k(2)] by simp
  finally have "2 * 2 ^ k \<le> n" by simp
  moreover have "(0::nat) < 2 ^ k" by simp
  ultimately show False using le by linarith
qed

lemma round_even_int [simp]: "round_even (of_int z) = z"
  by (simp add: round_even_def)

lemma round_pos_int:
  assumes "0 < n" and "n \<le> 2 ^ 53"
  shows "round_pos (of_nat n) = FFin (of_nat n)"
proof -
  have q: "quotient_of (of_nat n :: rat) = (int n, 1)"
    using quotient_of_int [of "int n"] by simp
  have b1: "bitlen (Suc 0) = Suc 0" by (simp add: bitlen.simps)
  define e where "e = int (bitlen n) - 1 - 53"
  have len: "bitlen n \<le> 54" using bitlen_le [OF assms(2)] by simp
  have e: "ulp_exp (of_nat n) = max (if (of_nat n :: rat) / pow2 e < 2 ^ 53 then e else e + 1) (- 1074)"
    by (simp add: ulp_exp_def q b1 e_def Let_def)
  show ?thesis
  proof (cases "e = 0")
    case True
    then have "bitlen n = 54" by (simp add: e_def)
    then have "2 ^ 53 \<le> n" using bitlen_bounds [OF assms(1)] by simp
    then have n: "n = 2 ^ 53" using assms(2) by simp
    have "ulp_exp (of_nat n) = 1" unfolding e True by (simp add: pow2_def n)
    moreover have "(of_nat n :: rat) / pow2 1 = of_int (2 ^ 52)" by (simp add: pow2_def n)
    ultimately have "round_pos (of_nat n)
        = (if of_int (2 ^ 52) * pow2 1 < 2 ^ 1024 then FFin (of_int (2 ^ 52) * pow2 1) else FInf False)"
      by (simp only: round_pos_def Let_def round_even_int)
    then show ?thesis by (simp add: pow2_def n)
  next
    case False
    then have "e < 0" using len by (simp add: e_def)
    let ?u = "ulp_exp (of_nat n)"
    have u: "?u \<le> 0" "- 1074 \<le> ?u" unfolding e using \<open>e < 0\<close> by auto
    have "(of_nat n :: rat) / pow2 ?u = of_int (int n * 2 ^ nat (- ?u))"
      using u(1) by (cases "?u = 0") (simp_all add: pow2_def)
    then have "of_int (round_even (of_nat n / pow2 ?u)) * pow2 ?u = (of_nat n :: rat)"
      using u(1) by (simp only: round_even_int) (cases "?u = 0"; simp add: pow2_def)
    moreover have "(of_nat n :: rat) < 2 ^ 1024"
    proof -
      have "(of_nat n :: rat) \<le> of_nat (2 ^ 53)" using assms(2) by (simp only: of_nat_le_iff)
      also have "\<dots> < 2 ^ 1024" by simp
      finally show ?thesis .
    qed
    ultimately show ?thesis by (simp only: round_pos_def Let_def if_True)
  qed
qed

lemma f64_of_rat_int:
  assumes "\<bar>z\<bar> \<le> 2 ^ 53"
  shows "f64_of_rat (of_int z) = FFin (of_int z)"
proof (cases z "0 :: int" rule: linorder_cases)
  case less
  have "round_pos (of_nat (nat (- z))) = FFin (of_nat (nat (- z)))"
    by (rule round_pos_int) (use less assms in auto)
  with less show ?thesis by (simp add: f64_of_rat_def)
next
  case greater
  have "round_pos (of_nat (nat z)) = FFin (of_nat (nat z))"
    by (rule round_pos_int) (use greater assms in auto)
  with greater show ?thesis by (simp add: f64_of_rat_def)
qed (simp add: f64_of_rat_def)

lemma f64_of_int_exact: "\<bar>z\<bar> \<le> 2 ^ 53 \<Longrightarrow> f64_of_int z = FFin (of_int z)"
  unfolding f64_of_int_def by (rule f64_of_rat_int)

lemma f64_mul_int:
  "\<bar>a * b\<bar> \<le> 2 ^ 53 \<Longrightarrow> f64_mul (FFin (of_int a)) (FFin (of_int b)) = FFin (of_int (a * b))"
  using f64_of_rat_int [of "a * b"] by simp

lemma f64_round_int [simp]: "f64_round (FFin (of_int z)) = FFin (of_int z)"
proof -
  have "\<lfloor>(of_int z :: rat) + 1 / 2\<rfloor> = z" "\<lfloor>- (of_int z :: rat) + 1 / 2\<rfloor> = - z" by linarith+
  then show ?thesis by simp
qed

lemma f64_as_u64_int: "0 \<le> z \<Longrightarrow> z < 2 ^ 64 \<Longrightarrow> f64_as_u64 (FFin (of_int z)) = word_of_int z"
  by (simp add: rat_trunc_def)

lemma f64_as_i64_int: "in_i64 z \<Longrightarrow> f64_as_i64 (FFin (of_int z)) = word_of_int z"
  by (simp add: rat_trunc_def i64_clamp_def in_i64_def)

section \<open>Signs\<close>

lemma round_even_nonneg: "0 \<le> r \<Longrightarrow> 0 \<le> round_even r"
  by (simp add: round_even_def Let_def)

lemma f64_of_rat_nonneg: "0 \<le> x \<Longrightarrow> \<not> f64_is_neg (f64_of_rat x)"
  by (auto simp: f64_of_rat_def round_pos_def f64_is_neg_def Let_def pow2_def not_less
      intro!: mult_nonneg_nonneg divide_nonneg_pos round_even_nonneg)

lemma f64_of_int_nonneg: "0 \<le> z \<Longrightarrow> \<not> f64_is_neg (f64_of_int z)"
  by (simp add: f64_of_int_def f64_of_rat_nonneg)

lemma f64_mul_nonneg: "\<not> f64_is_neg x \<Longrightarrow> \<not> f64_is_neg y \<Longrightarrow> \<not> f64_is_neg (f64_mul x y)"
  by (cases x; cases y) (simp_all add: f64_is_neg_def [of "FFin r" for r] f64_of_rat_nonneg,
      simp_all add: f64_is_neg_def)

lemma f64_div_pos_nonneg: "\<not> f64_is_neg x \<Longrightarrow> 0 < b \<Longrightarrow> \<not> f64_is_neg (f64_div_pos x b)"
  by (cases x) (simp_all add: f64_is_neg_def [of "FFin r" for r] f64_of_rat_nonneg)

lemma f64_round_nonneg: "\<not> f64_is_neg x \<Longrightarrow> \<not> f64_is_neg (f64_round x)"
  by (cases x) (simp_all add: f64_is_neg_def not_less)

lemma f64_as_i64_nonneg: "\<not> f64_is_neg x \<Longrightarrow> 0 \<le> sint (f64_as_i64 x)"
  by (cases x) (simp_all add: f64_is_neg_def sint_clamp rat_trunc_def)

end
