(* ===== verification/Replay_Scheduler.thy ===== *)
theory Replay_Scheduler
  imports Market_Types F64
begin

text \<open>
  \<open>replay/simulated_clock.rs\<close> and \<open>replay/scheduler.rs\<close>: the clock that replay advances, and
  the scheduler that moves it to the next event, possibly in bounded jumps. Clock and
  scheduler are shared cells in the source; here their states are passed explicitly.
  The \<open>i64\<close> operators of \<open>schedule\<close> are checked (\<open>Panic\<close> on overflow), the atomic
  \<open>fetch_add\<close>s wrap.
\<close>

section \<open>The simulated clock\<close>

record simulated_clock =
  clk_current :: i64
  clk_paused :: bool
  clk_warp_enabled :: bool

definition clock_new :: "timestamp \<Rightarrow> simulated_clock" where
  "clock_new start = \<lparr>clk_current = start, clk_paused = False, clk_warp_enabled = True\<rparr>"

definition clock_at_epoch :: simulated_clock where
  "clock_at_epoch = clock_new ts_epoch"

definition clock_set :: "timestamp \<Rightarrow> simulated_clock \<Rightarrow> simulated_clock" where
  "clock_set t c = c\<lparr>clk_current := t\<rparr>"

definition clock_advance :: "i64 \<Rightarrow> simulated_clock \<Rightarrow> simulated_clock" where
  "clock_advance micros c = c\<lparr>clk_current := clk_current c + micros\<rparr>"

definition clock_advance_to :: "timestamp \<Rightarrow> simulated_clock \<Rightarrow> bool \<times> simulated_clock" where
  "clock_advance_to target c =
     (if sint target > sint (clk_current c) then (True, c\<lparr>clk_current := target\<rparr>) else (False, c))"

definition clock_pause :: "simulated_clock \<Rightarrow> simulated_clock" where
  "clock_pause c = c\<lparr>clk_paused := True\<rparr>"

definition clock_resume :: "simulated_clock \<Rightarrow> simulated_clock" where
  "clock_resume c = c\<lparr>clk_paused := False\<rparr>"

definition clock_enable_warp :: "simulated_clock \<Rightarrow> simulated_clock" where
  "clock_enable_warp c = c\<lparr>clk_warp_enabled := True\<rparr>"

definition clock_disable_warp :: "simulated_clock \<Rightarrow> simulated_clock" where
  "clock_disable_warp c = c\<lparr>clk_warp_enabled := False\<rparr>"

definition clock_now :: "simulated_clock \<Rightarrow> timestamp" where
  "clock_now c = clk_current c"

section \<open>The scheduler\<close>

record warp_config =
  wp_idle_threshold_us :: i64
  wp_max_warp_factor :: "f64 option"

definition warp_config_default :: warp_config where
  "warp_config_default = \<lparr>wp_idle_threshold_us = 10000, wp_max_warp_factor = None\<rparr>"

definition warp_config_with_threshold :: "i64 \<Rightarrow> warp_config" where
  "warp_config_with_threshold t = \<lparr>wp_idle_threshold_us = t, wp_max_warp_factor = None\<rparr>"

definition warp_config_real_time :: warp_config where
  "warp_config_real_time = \<lparr>wp_idle_threshold_us = word_of_int (2 ^ 63 - 1), wp_max_warp_factor = None\<rparr>"

definition warp_config_instant :: warp_config where
  "warp_config_instant = \<lparr>wp_idle_threshold_us = 0, wp_max_warp_factor = None\<rparr>"

definition warp_config_fast_forward :: "u32 \<Rightarrow> warp_config" where
  "warp_config_fast_forward multiplier =
     \<lparr>wp_idle_threshold_us = 10000, wp_max_warp_factor = Some (f64_of_int (uint multiplier))\<rparr>"

record warp_stats =
  ws_total_warped_us :: i64
  ws_warp_count :: u64

definition warp_stats_new :: warp_stats where
  "warp_stats_new = \<lparr>ws_total_warped_us = 0, ws_warp_count = 0\<rparr>"

text \<open>\<open>time_saved\<close> in microseconds.\<close>

definition warp_stats_time_saved :: "warp_stats \<Rightarrow> nat" where
  "warp_stats_time_saved s = nat (max (sint (ws_total_warped_us s)) 0)"

text \<open>The count is cast to \<open>i64\<close>; \<open>i64::MIN / -1\<close> overflows.\<close>

definition average_warp_us :: "warp_stats \<Rightarrow> (i64, 'e) result" where
  "average_warp_us s =
     (if ws_warp_count s = 0 then Ok 0
      else i64_checked (trunc_div (sint (ws_total_warped_us s)) (sint (ws_warp_count s))))"

record scheduler =
  sc_config :: warp_config
  sc_total_warped_us :: i64
  sc_warp_count :: u64
  sc_max_factor_scaled :: u64

text \<open>\<open>(f * 1000.0).round() as u64\<close>; 0 stands for no factor.\<close>

definition scale_factor :: "f64 option \<Rightarrow> u64" where
  "scale_factor factor =
     (case factor of None \<Rightarrow> 0 | Some f \<Rightarrow> f64_as_u64 (f64_round (f64_mul f (FFin 1000))))"

definition scheduler_new :: "warp_config \<Rightarrow> scheduler" where
  "scheduler_new config =
     \<lparr>sc_config = config, sc_total_warped_us = 0, sc_warp_count = 0,
      sc_max_factor_scaled = scale_factor (wp_max_warp_factor config)\<rparr>"

definition set_max_warp_factor :: "f64 option \<Rightarrow> scheduler \<Rightarrow> scheduler" where
  "set_max_warp_factor factor s = s\<lparr>sc_max_factor_scaled := scale_factor factor\<rparr>"

definition max_warp_factor :: "scheduler \<Rightarrow> f64 option" where
  "max_warp_factor s =
     (if sc_max_factor_scaled s = 0 then None
      else Some (f64_div_pos (f64_of_int (uint (sc_max_factor_scaled s))) 1000))"

record schedule_result =
  sr_advanced :: bool
  sr_warped :: bool
  sr_gap_us :: i64
  sr_remaining_us :: i64

text \<open>The jump of \<open>schedule\<close> over a gap: how far to advance, and what remains.\<close>

definition warp_advance :: "scheduler \<Rightarrow> i64 \<Rightarrow> (i64 \<times> i64, 'e) result" where
  "warp_advance s gap =
     (case max_warp_factor s of
        None \<Rightarrow> Ok (gap, 0)
      | Some factor \<Rightarrow>
          let max_advance = f64_as_i64 (f64_round
                (f64_mul (f64_of_int (sint (wp_idle_threshold_us (sc_config s)))) factor)) in
          if sint gap > sint max_advance
          then map_ok (\<lambda>remaining. (max_advance, remaining)) (i64_sub gap max_advance)
          else Ok (gap, 0))"

definition schedule ::
    "simulated_clock \<Rightarrow> timestamp \<Rightarrow> scheduler \<Rightarrow>
     (schedule_result \<times> simulated_clock \<times> scheduler, 'e) result" where
  "schedule clock next_event_ts s =
     (let current = clock_now clock in
      rbind (i64_sub next_event_ts current) (\<lambda>gap.
      if sint gap \<le> 0
      then Ok (\<lparr>sr_advanced = False, sr_warped = False, sr_gap_us = gap, sr_remaining_us = 0\<rparr>,
             clock, s)
      else if sint gap > sint (wp_idle_threshold_us (sc_config s)) \<and> clk_warp_enabled clock
      then
        rbind (warp_advance s gap) (\<lambda>(actual_advance, remaining).
        rbind (i64_add current actual_advance) (\<lambda>new_time.
        Ok (\<lparr>sr_advanced = True, sr_warped = True, sr_gap_us = gap, sr_remaining_us = remaining\<rparr>,
            clock_set new_time clock,
            s\<lparr>sc_total_warped_us := sc_total_warped_us s + actual_advance,
              sc_warp_count := sc_warp_count s + 1\<rparr>)))
      else Ok (\<lparr>sr_advanced = True, sr_warped = False, sr_gap_us = gap, sr_remaining_us = 0\<rparr>,
             clock_set next_event_ts clock, s)))"

definition would_warp :: "scheduler \<Rightarrow> i64 \<Rightarrow> bool \<Rightarrow> bool" where
  "would_warp s gap_us warp_enabled \<longleftrightarrow>
     sint gap_us > sint (wp_idle_threshold_us (sc_config s)) \<and> warp_enabled"

definition scheduler_stats :: "scheduler \<Rightarrow> warp_stats" where
  "scheduler_stats s =
     \<lparr>ws_total_warped_us = sc_total_warped_us s, ws_warp_count = sc_warp_count s\<rparr>"

definition scheduler_reset :: "scheduler \<Rightarrow> scheduler" where
  "scheduler_reset s = s\<lparr>sc_total_warped_us := 0, sc_warp_count := 0\<rparr>"

section \<open>Factors given by a multiplier\<close>

text \<open>A multiplier survives the scaling by 1000 exactly.\<close>

lemma scale_multiplier:
  assumes "0 < m"
  shows "uint (scale_factor (Some (f64_of_int (uint (m :: u32))))) = uint m * 1000"
proof -
  have m: "0 < uint m" "uint m < 2 ^ 32" using uint_u32_pos [OF assms] by simp_all
  then have "f64_of_int (uint m) = FFin (of_int (uint m))" by (intro f64_of_int_exact) simp
  moreover have "f64_mul (FFin (of_int (uint m))) (FFin (of_int 1000)) = FFin (of_int (uint m * 1000))"
    by (rule f64_mul_int) (use m in simp)
  ultimately have "scale_factor (Some (f64_of_int (uint m))) = word_of_int (uint m * 1000)"
    using m by (simp only: scale_factor_def option.case of_int_numeral f64_round_int)
      (rule f64_as_u64_int; simp)
  moreover have "uint (word_of_int (uint m * 1000) :: u64) = uint m * 1000"
    unfolding uint_word_of_int by (rule mod_pos_pos_trivial) (use m in simp_all)
  ultimately show ?thesis by (simp only:)
qed

lemma max_factor_multiplier:
  assumes "uint (sc_max_factor_scaled s) = uint (m :: u32) * 1000" and "0 < m"
  shows "max_warp_factor s = Some (FFin (of_int (uint m)))"
proof -
  have m: "0 < uint m" "uint m < 2 ^ 32" using uint_u32_pos [OF assms(2)] by simp_all
  then have "f64_of_int (uint m * 1000) = FFin (of_int (uint m * 1000))"
    by (intro f64_of_int_exact) simp
  then have "f64_div_pos (f64_of_int (uint m * 1000)) 1000 = f64_of_rat (of_int (uint m))" by simp
  also have "\<dots> = FFin (of_int (uint m))" by (rule f64_of_rat_int) (use m in simp)
  finally have "f64_div_pos (f64_of_int (uint m * 1000)) 1000 = FFin (of_int (uint m))" .
  moreover have "sc_max_factor_scaled s \<noteq> 0" using assms(1) m by auto
  ultimately show ?thesis by (simp only: max_warp_factor_def assms(1) if_False)
qed

lemma warp_advance_multiplier:
  fixes m :: u32
  assumes "uint (sc_max_factor_scaled s) = uint m * 1000" and "0 < m"
    and "t = sint (wp_idle_threshold_us (sc_config s))" and "0 \<le> t" and "t * uint m \<le> 2 ^ 53"
    and "0 \<le> sint gap"
  shows "warp_advance s gap =
    (if sint gap > t * uint m then Ok (word_of_int (t * uint m), word_of_int (sint gap - t * uint m))
     else Ok (gap, 0))"
proof -
  have m: "0 < uint m" by (rule uint_u32_pos [OF assms(2)])
  then have "t \<le> t * uint m" using assms(4) by (simp add: mult_le_cancel_left1)
  then have "f64_of_int t = FFin (of_int t)" using assms(4,5) by (intro f64_of_int_exact) simp
  moreover have "f64_mul (FFin (of_int t)) (FFin (of_int (uint m))) = FFin (of_int (t * uint m))"
    by (rule f64_mul_int) (use assms(4,5) m in simp)
  moreover have in64: "in_i64 (t * uint m)" using assms(4,5) \<open>t \<le> t * uint m\<close>
    by (simp add: in_i64_def)
  ultimately have adv: "f64_as_i64 (f64_round (f64_mul (f64_of_int t) (FFin (of_int (uint m)))))
      = word_of_int (t * uint m)"
    by (simp only: f64_round_int f64_as_i64_int)
  have s: "sint (word_of_int (t * uint m) :: i64) = t * uint m" using in64 by (rule sint_word_of_int)
  have diff: "in_i64 (sint gap - t * uint m)" if "sint gap > t * uint m"
    using that sint_i64_bounds [of gap] assms(4) \<open>t \<le> t * uint m\<close> by (simp add: in_i64_def)
  have sub: "i64_sub gap (word_of_int (t * uint m)) = Ok (word_of_int (sint gap - t * uint m))"
    if "sint gap > t * uint m"
    using diff [OF that] by (simp only: i64_sub_def s i64_checked_def if_True)
  then show ?thesis
    by (simp only: warp_advance_def max_factor_multiplier [OF assms(1,2)] option.case Let_def
        assms(3) [symmetric] adv s split: if_split)
      (simp add: sub del: of_int_mult)
qed

section \<open>Scheduling\<close>

text \<open>A non-negative threshold and a scaled factor give a non-negative jump.\<close>

lemma max_warp_factor_nonneg: "max_warp_factor s = Some f \<Longrightarrow> \<not> f64_is_neg f"
  by (auto simp: max_warp_factor_def f64_div_pos_nonneg f64_of_int_nonneg split: if_splits)

lemma warp_advance_bounds:
  assumes "0 \<le> sint (wp_idle_threshold_us (sc_config s))" and "0 < sint gap"
  shows "\<exists>a r. warp_advance s gap = Ok (a, r) \<and> 0 \<le> sint a \<and> 0 \<le> sint r \<and>
    sint a + sint r = sint gap \<and> (sc_max_factor_scaled s = 0 \<longrightarrow> r = 0)"
proof (cases "max_warp_factor s")
  case None
  then show ?thesis using assms(2) by (simp add: warp_advance_def)
next
  case (Some factor)
  define m where "m = f64_as_i64 (f64_round
    (f64_mul (f64_of_int (sint (wp_idle_threshold_us (sc_config s)))) factor))"
  have "0 \<le> sint m"
    unfolding m_def using assms(1) max_warp_factor_nonneg [OF Some]
    by (intro f64_as_i64_nonneg f64_round_nonneg f64_mul_nonneg f64_of_int_nonneg)
  moreover have "in_i64 (sint gap - sint m)" if "sint m < sint gap"
    using that \<open>0 \<le> sint m\<close> sint_i64_bounds [of gap] by (simp add: in_i64_def)
  moreover have "sc_max_factor_scaled s \<noteq> 0" using Some by (auto simp: max_warp_factor_def)
  ultimately show ?thesis using Some assms(2)
    by (auto simp: warp_advance_def Let_def m_def [symmetric] i64_sub_eq sint_i64_minus)
qed

text \<open>
  \<open>schedule\<close> is sound for a non-negative threshold: it fails (by overflow) exactly when
  the gap does not fit \<open>i64\<close>; the clock never goes back nor past the event; what remains is
  the distance to the event; without a factor the event is always reached.
\<close>

theorem schedule_sound:
  assumes "0 \<le> sint (wp_idle_threshold_us (sc_config s))"
  shows "if in_i64 (sint ts - sint (clk_current c))
    then \<exists>r c' s'. schedule c ts s = (Ok (r, c', s') :: (_, 'e) result) \<and>
      sint (sr_gap_us r) = sint ts - sint (clk_current c) \<and>
      sint (clk_current c') + sint (sr_remaining_us r) = max (sint (clk_current c)) (sint ts) \<and>
      sint (clk_current c) \<le> sint (clk_current c') \<and> 0 \<le> sint (sr_remaining_us r) \<and>
      (sc_max_factor_scaled s = 0 \<longrightarrow> sr_remaining_us r = 0) \<and>
      c' = c\<lparr>clk_current := clk_current c'\<rparr> \<and> sc_config s' = sc_config s \<and>
      sc_max_factor_scaled s' = sc_max_factor_scaled s \<and>
      (sr_warped r \<longleftrightarrow> would_warp s (sr_gap_us r) (clk_warp_enabled c)) \<and>
      sc_warp_count s' = sc_warp_count s + (if sr_warped r then 1 else 0) \<and>
      sc_total_warped_us s' = sc_total_warped_us s +
        (if sr_warped r then clk_current c' - clk_current c else 0)
    else schedule c ts s = (Panic :: (_, 'e) result)"
proof (cases "in_i64 (sint ts - sint (clk_current c))")
  case False
  then show ?thesis by (simp add: schedule_def i64_sub_eq clock_now_def)
next
  case True
  let ?cur = "clk_current c" and ?gap = "ts - clk_current c"
  have gap: "sint ?gap = sint ts - sint ?cur" by (rule sint_i64_minus [OF True])
  show ?thesis
  proof (cases "sint (wp_idle_threshold_us (sc_config s)) < sint ?gap \<and> clk_warp_enabled c")
    case False
    show ?thesis
    proof (cases "sint ts \<le> sint ?cur")
      case True
      with \<open>in_i64 _\<close> gap assms False show ?thesis
        by (simp add: schedule_def i64_sub_eq clock_now_def would_warp_def Let_def)
    next
      case le: False
      have nw: "\<not> (sint (wp_idle_threshold_us (sc_config s)) < sint ts - sint ?cur \<and> clk_warp_enabled c)"
        using False gap by simp
      show ?thesis using True gap le
        by (simp add: schedule_def i64_sub_eq clock_now_def clock_set_def would_warp_def Let_def nw)
    qed
  next
    case warp: True
    then have pos: "0 < sint ?gap" using assms by linarith
    then obtain a r where a: "warp_advance s ?gap = (Ok (a, r) :: (_, 'e) result)" "0 \<le> sint a"
      "0 \<le> sint r" "sint a + sint r = sint ?gap" "sc_max_factor_scaled s = 0 \<longrightarrow> r = 0"
      using warp_advance_bounds [OF assms pos] by blast
    then have "in_i64 (sint ?cur + sint a)"
      using gap sint_i64_bounds [of ?cur] sint_i64_bounds [of ts] by (simp add: in_i64_def)
    moreover note sint_i64_plus [OF this]
    moreover have "sint ?cur < sint ts" "sint (wp_idle_threshold_us (sc_config s)) < sint ts - sint ?cur"
      using pos warp gap by linarith+
    ultimately show ?thesis using True gap warp a
      by (simp add: schedule_def i64_sub_eq i64_add_eq clock_now_def clock_set_def would_warp_def Let_def)
  qed
qed

theorem schedule_sound_witness:
  "\<exists>r c' s'. schedule (clock_at_epoch) 1000000 (scheduler_new warp_config_default)
      = (Ok (r, c', s') :: (_, unit) result) \<and> sint (clk_current c') + sint (sr_remaining_us r) = 1000000"
  using schedule_sound [of "scheduler_new warp_config_default" 1000000 clock_at_epoch, where 'e = unit]
  by (auto simp: scheduler_new_def warp_config_default_def clock_at_epoch_def clock_new_def
      ts_epoch_def in_i64_def)

lemma schedule_multiplier:
  fixes m :: u32
  assumes "uint (sc_max_factor_scaled s) = uint m * 1000" and "0 < m"
    and "t = sint (wp_idle_threshold_us (sc_config s))" and "0 \<le> t" and "t * uint m \<le> 2 ^ 53"
    and "in_i64 (sint ts - sint (clk_current c))" and "clk_warp_enabled c"
    and "gap = max 0 (sint ts - sint (clk_current c))"
  shows "\<exists>r c' s'. schedule c ts s = (Ok (r, c', s') :: (_, 'e) result) \<and>
    sint (clk_current c') = sint (clk_current c) + min gap (t * uint m) \<and>
    sint (sr_remaining_us r) = gap - min gap (t * uint m)"
proof -
  have m: "0 < uint m" "uint m < 2 ^ 32" using uint_u32_pos [OF assms(2)] by simp_all
  then have tm: "t \<le> t * uint m" using assms(4) by (simp add: mult_le_cancel_left1)
  have gap: "sint (ts - clk_current c) = sint ts - sint (clk_current c)"
    by (rule sint_i64_minus [OF assms(6)])
  have adv: "warp_advance s g = (if sint g > t * uint m
      then Ok (word_of_int (t * uint m), word_of_int (sint g - t * uint m)) else Ok (g, 0))"
    if "0 \<le> sint g" for g
    by (rule warp_advance_multiplier [OF assms(1-5) that])
  show ?thesis
  proof (cases "sint ts - sint (clk_current c) > t")
    case True
    let ?a = "min (sint (ts - clk_current c)) (t * uint m)"
    let ?g = "sint ts - sint (clk_current c)"
    have bnd: "in_i64 (sint (clk_current c) + ?a)" "in_i64 ?a" "in_i64 (?g - ?a)"
      using gap True tm assms(4) sint_i64_bounds [of "clk_current c"] sint_i64_bounds [of ts] assms(6)
      by (auto simp: in_i64_def min_def)
    have "warp_advance s (ts - clk_current c)
        = (Ok (word_of_int ?a, word_of_int (?g - ?a)) :: (_, 'e) result)"
    proof (cases "sint (ts - clk_current c) \<le> t * uint m")
      case True
      with adv [of "ts - clk_current c"] \<open>?g > t\<close> gap assms(4) show ?thesis by (simp add: min_def)
    next
      case le: False
      then have a: "?a = t * uint m" by simp
      show ?thesis unfolding a
        using adv [of "ts - clk_current c"] True le gap assms(4) by (simp del: of_int_mult of_int_diff)
    qed
    moreover have "i64_add (clk_current c) (word_of_int ?a)
        = (Ok (word_of_int (sint (clk_current c) + ?a)) :: (_, 'e) result)"
      using bnd by (simp only: i64_add_def sint_word_of_int i64_checked_def if_True)
    ultimately have "\<exists>r c' s'. schedule c ts s = (Ok (r, c', s') :: (_, 'e) result) \<and>
        clk_current c' = word_of_int (sint (clk_current c) + ?a) \<and>
        sr_remaining_us r = word_of_int (?g - ?a)"
      using assms(3,4,6,7) True gap
      by (simp add: schedule_def i64_sub_eq clock_now_def clock_set_def Let_def del: of_int_add of_int_diff)
    moreover have "?a = min gap (t * uint m)" "?g = gap" using True gap assms(4,8) by simp_all
    ultimately show ?thesis using bnd by (metis sint_word_of_int)
  next
    case False
    then have "min gap (t * uint m) = gap" using tm assms(4,8) by simp
    with False show ?thesis using assms(3,6,7,8) gap
      by (simp add: schedule_def i64_sub_eq clock_now_def clock_set_def Let_def)
  qed
qed

text \<open>
  With \<open>WarpConfig::fast_forward(m)\<close> one call of \<open>schedule\<close> moves the clock exactly
  \<open>min(gap, 10000 * m)\<close> microseconds: the floating-point detour through the scaled factor
  loses nothing, for every \<open>m > 0\<close>.
\<close>

theorem fast_forward_exact:
  assumes "0 < m" and "in_i64 (sint ts - sint (clk_current c))" and "clk_warp_enabled c"
    and "gap = max 0 (sint ts - sint (clk_current c))"
  shows "\<exists>r c' s'. schedule c ts (scheduler_new (warp_config_fast_forward m))
      = (Ok (r, c', s') :: (_, 'e) result) \<and>
    sint (clk_current c') = sint (clk_current c) + min gap (10000 * uint m) \<and>
    sint (sr_remaining_us r) = gap - min gap (10000 * uint m)"
proof (rule schedule_multiplier [OF _ assms(1) _ _ _ assms(2-4)])
  show "uint (sc_max_factor_scaled (scheduler_new (warp_config_fast_forward m))) = uint m * 1000"
    using scale_multiplier [OF assms(1)] by (simp add: scheduler_new_def warp_config_fast_forward_def)
qed (use uint_u32_pos [OF assms(1)] in \<open>simp_all add: scheduler_new_def warp_config_fast_forward_def\<close>)

theorem fast_forward_exact_witness:
  "\<exists>r c' s'. schedule clock_at_epoch 1000000 (scheduler_new (warp_config_fast_forward 10))
    = (Ok (r, c', s') :: (_, unit) result) \<and> sint (clk_current c') = 100000 \<and>
    sint (sr_remaining_us r) = 900000"
proof -
  have c: "clk_current clock_at_epoch = 0" "clk_warp_enabled clock_at_epoch"
    by (simp_all add: clock_at_epoch_def clock_new_def ts_epoch_def)
  have "in_i64 (sint (1000000 :: i64) - sint (clk_current clock_at_epoch))"
    "(1000000 :: int) = max 0 (sint (1000000 :: i64) - sint (clk_current clock_at_epoch))"
    by (simp_all add: c in_i64_def)
  from fast_forward_exact [OF _ this(1) c(2) this(2), of 10, where 'e = unit]
  obtain r c' s' where "schedule clock_at_epoch 1000000 (scheduler_new (warp_config_fast_forward 10))
      = (Ok (r, c', s') :: (_, unit) result)"
    and "sint (clk_current c') = sint (clk_current clock_at_epoch) + min 1000000 (10000 * uint (10 :: u32))"
    and "sint (sr_remaining_us r) = 1000000 - min 1000000 (10000 * uint (10 :: u32))"
    by auto
  moreover have "min 1000000 (10000 * uint (10 :: u32)) = (100000 :: int)" by simp
  ultimately show ?thesis using c(1) by (intro exI conjI) (assumption, simp_all)
qed

text \<open>
  A negative threshold together with a factor makes the clock run backwards: the jump
  is the threshold times the factor. \<open>WarpConfig\<close> does not exclude it.
\<close>

theorem negative_threshold_regresses:
  "\<exists>r c' s'. schedule clock_at_epoch 1000000
      (set_max_warp_factor (Some (f64_of_int 2)) (scheduler_new (warp_config_with_threshold (- 5000))))
    = (Ok (r, c', s') :: (_, 'e) result) \<and> sint (clk_current c') = - 10000"
proof -
  let ?s = "set_max_warp_factor (Some (f64_of_int 2)) (scheduler_new (warp_config_with_threshold (- 5000)))"
  have "max_warp_factor ?s = Some (FFin (of_int 2))"
    using scale_multiplier [of 2] max_factor_multiplier [of ?s 2] by (simp add: set_max_warp_factor_def)
  moreover have "f64_of_int (- 5000) = FFin (of_int (- 5000))" by (rule f64_of_int_exact) simp
  moreover have "f64_mul (FFin (of_int (- 5000))) (FFin (of_int 2)) = FFin (of_int (- 5000 * 2))"
    by (rule f64_mul_int) simp
  moreover have "f64_as_i64 (FFin (of_int (- 10000))) = word_of_int (- 10000)"
    by (rule f64_as_i64_int) (simp add: in_i64_def)
  moreover have "sint (wp_idle_threshold_us (sc_config ?s)) = - 5000"
    by (simp add: scheduler_new_def warp_config_with_threshold_def set_max_warp_factor_def)
  moreover have "f64_round (FFin (of_int (- 10000))) = FFin (of_int (- 10000))" by (rule f64_round_int)
  moreover have "(- 5000 * 2 :: int) = - 10000" by simp
  ultimately have "max_warp_factor ?s = Some (FFin (of_int 2))" and
    "f64_as_i64 (f64_round (f64_mul (f64_of_int (sint (wp_idle_threshold_us (sc_config ?s)))) (FFin (of_int 2))))
      = word_of_int (- 10000)" by (simp_all only:)
  then have "warp_advance ?s 1000000 = (Ok (word_of_int (- 10000), word_of_int 1010000) :: (_, 'e) result)"
    by (simp only: warp_advance_def option.case Let_def) (simp add: i64_sub_eq in_i64_def)
  moreover have "wp_idle_threshold_us (sc_config ?s) = - 5000" "i64_add 0 (- 10000) = (Ok (- 10000) :: (_, 'e) result)"
    by (simp_all add: scheduler_new_def warp_config_with_threshold_def set_max_warp_factor_def
        i64_add_eq in_i64_def)
  ultimately show ?thesis
    by (simp add: schedule_def i64_sub_eq in_i64_def clock_now_def clock_set_def clock_at_epoch_def
        clock_new_def ts_epoch_def Let_def)
qed

end
