(* ===== verification/Replay_Data_Source.thy ===== *)
theory Replay_Data_Source
  imports Market_Types
begin

text \<open>
  \<open>replay/data_source.rs\<close>: frames, the \<open>DataSource\<close> trait as a record of operations, and
  its four implementations. \<open>peek\<close> returns the state as well, since the live source
  receives a frame into its one-frame buffer when it is asked to look ahead.

  The locale \<open>data_source\<close> is what a consumer relies on: a list of pending frames that
  \<open>next\<close> pops and \<open>peek\<close> shows. Each implementation is shown to provide it, and the
  three stored sources also the law of \<open>reset\<close>.
\<close>

section \<open>Frames\<close>

datatype frame_type =
    FT_WebSocketText | FT_WebSocketBinary | FT_BookSnapshot | FT_BookDelta | FT_Trade
  | FT_Checkpoint | FT_Heartbeat | FT_Unknown

definition frame_type_from_record_type :: "u8 \<Rightarrow> frame_type" where
  "frame_type_from_record_type r =
     (if r = 0x01 then FT_WebSocketText else if r = 0x02 then FT_WebSocketBinary
      else if r = 0x03 then FT_Checkpoint else if r = 0x10 then FT_BookSnapshot
      else if r = 0x11 then FT_BookDelta else if r = 0x12 then FT_Trade
      else if r = 0xF0 then FT_Heartbeat else FT_Unknown)"

fun frame_type_to_record_type :: "frame_type \<Rightarrow> u8" where
  "frame_type_to_record_type FT_WebSocketText = 0x01"
| "frame_type_to_record_type FT_WebSocketBinary = 0x02"
| "frame_type_to_record_type FT_BookSnapshot = 0x10"
| "frame_type_to_record_type FT_BookDelta = 0x11"
| "frame_type_to_record_type FT_Trade = 0x12"
| "frame_type_to_record_type FT_Checkpoint = 0x03"
| "frame_type_to_record_type FT_Heartbeat = 0xF0"
| "frame_type_to_record_type FT_Unknown = 0xFF"

record data_frame =
  df_timestamp :: timestamp
  df_exchange :: exchange
  df_frame_type :: frame_type
  df_payload :: bytes

definition data_frame_new :: "timestamp \<Rightarrow> exchange \<Rightarrow> frame_type \<Rightarrow> bytes \<Rightarrow> data_frame" where
  "data_frame_new ts ex ft payload =
     \<lparr>df_timestamp = ts, df_exchange = ex, df_frame_type = ft, df_payload = payload\<rparr>"

definition data_frame_empty :: "timestamp \<Rightarrow> exchange \<Rightarrow> frame_type \<Rightarrow> data_frame" where
  "data_frame_empty ts ex ft =
     \<lparr>df_timestamp = ts, df_exchange = ex, df_frame_type = ft, df_payload = []\<rparr>"

definition data_frame_payload_len :: "data_frame \<Rightarrow> usize" where
  "data_frame_payload_len f = length (df_payload f)"

definition data_frame_is_empty :: "data_frame \<Rightarrow> bool" where
  "data_frame_is_empty f \<longleftrightarrow> df_payload f = []"

section \<open>The trait\<close>

record 's source_ops =
  ds_next :: "'s \<Rightarrow> data_frame option \<times> 's"
  ds_peek :: "'s \<Rightarrow> data_frame option \<times> 's"
  ds_has_next :: "'s \<Rightarrow> bool \<times> 's"
  ds_peek_timestamp :: "'s \<Rightarrow> timestamp option \<times> 's"
  ds_is_active :: "'s \<Rightarrow> bool"
  ds_reset :: "'s \<Rightarrow> 's"
  ds_frame_count :: "'s \<Rightarrow> usize option"
  ds_position :: "'s \<Rightarrow> usize option"

text \<open>The provided methods of the trait.\<close>

definition default_has_next :: "('s \<Rightarrow> data_frame option \<times> 's) \<Rightarrow> 's \<Rightarrow> bool \<times> 's" where
  "default_has_next peek s = (let (f, s') = peek s in (f \<noteq> None, s'))"

definition default_peek_timestamp ::
    "('s \<Rightarrow> data_frame option \<times> 's) \<Rightarrow> 's \<Rightarrow> timestamp option \<times> 's" where
  "default_peek_timestamp peek s = (let (f, s') = peek s in (map_option df_timestamp f, s'))"

section \<open>The null source\<close>

definition null_ops :: "unit source_ops" where
  "null_ops =
     \<lparr>ds_next = (\<lambda>s. (None, s)), ds_peek = (\<lambda>s. (None, s)), ds_has_next = (\<lambda>s. (False, s)),
      ds_peek_timestamp = (\<lambda>s. (None, s)), ds_is_active = (\<lambda>s. False), ds_reset = (\<lambda>s. s),
      ds_frame_count = (\<lambda>s. Some 0), ds_position = (\<lambda>s. Some 0)\<rparr>"

section \<open>The buffered source\<close>

record buffered_source =
  bf_frames :: "data_frame list"
  bf_position :: usize
  bf_active :: bool

definition buffered_new :: "data_frame list \<Rightarrow> buffered_source" where
  "buffered_new frames = \<lparr>bf_frames = frames, bf_position = 0, bf_active = True\<rparr>"

definition buffered_empty :: buffered_source where
  "buffered_empty = buffered_new []"

definition buffered_inactive :: buffered_source where
  "buffered_inactive = \<lparr>bf_frames = [], bf_position = 0, bf_active = False\<rparr>"

definition buffered_set_active :: "bool \<Rightarrow> buffered_source \<Rightarrow> buffered_source" where
  "buffered_set_active active s = s\<lparr>bf_active := active\<rparr>"

definition buffered_remaining :: "buffered_source \<Rightarrow> usize" where
  "buffered_remaining s = length (bf_frames s) - bf_position s"

definition buffered_next :: "buffered_source \<Rightarrow> data_frame option \<times> buffered_source" where
  "buffered_next s =
     (if \<not> bf_active s then (None, s)
      else if bf_position s < length (bf_frames s)
      then (Some (bf_frames s ! bf_position s), s\<lparr>bf_position := bf_position s + 1\<rparr>)
      else (None, s))"

definition buffered_peek :: "buffered_source \<Rightarrow> data_frame option \<times> buffered_source" where
  "buffered_peek s =
     (if \<not> bf_active s then (None, s)
      else (if bf_position s < length (bf_frames s)
            then Some (bf_frames s ! bf_position s) else None, s))"

definition buffered_reset :: "buffered_source \<Rightarrow> buffered_source" where
  "buffered_reset s = s\<lparr>bf_position := 0\<rparr>"

definition buffered_ops :: "buffered_source source_ops" where
  "buffered_ops =
     \<lparr>ds_next = buffered_next, ds_peek = buffered_peek,
      ds_has_next = default_has_next buffered_peek,
      ds_peek_timestamp = default_peek_timestamp buffered_peek,
      ds_is_active = bf_active, ds_reset = buffered_reset,
      ds_frame_count = (\<lambda>s. Some (length (bf_frames s))),
      ds_position = (\<lambda>s. Some (bf_position s))\<rparr>"

section \<open>The live source\<close>

text \<open>
  The receiving end of an unbounded channel: the frames sent and not yet received, and
  whether a sender is left. The mutex and the unsafe cell guard the one-frame buffer.
\<close>

record live_source =
  lv_queue :: "data_frame list"
  lv_connected :: bool
  lv_peeked :: "data_frame option"
  lv_active :: bool

datatype try_recv_error = RecvEmpty | RecvDisconnected

text \<open>\<open>try_recv\<close> of the channel, and the sender's side.\<close>

definition live_try_recv :: "live_source \<Rightarrow> (data_frame, try_recv_error) result \<times> live_source" where
  "live_try_recv s =
     (case lv_queue s of
        f # fs \<Rightarrow> (Ok f, s\<lparr>lv_queue := fs\<rparr>)
      | [] \<Rightarrow> (Err (if lv_connected s then RecvEmpty else RecvDisconnected), s))"

definition live_send :: "data_frame \<Rightarrow> live_source \<Rightarrow> live_source" where
  "live_send f s = s\<lparr>lv_queue := lv_queue s @ [f]\<rparr>"

definition live_new :: "data_frame list \<Rightarrow> bool \<Rightarrow> live_source" where
  "live_new queue connected =
     \<lparr>lv_queue = queue, lv_connected = connected, lv_peeked = None, lv_active = True\<rparr>"

definition live_inactive :: "data_frame list \<Rightarrow> bool \<Rightarrow> live_source" where
  "live_inactive queue connected =
     \<lparr>lv_queue = queue, lv_connected = connected, lv_peeked = None, lv_active = False\<rparr>"

definition live_with_sender :: live_source where
  "live_with_sender = live_new [] True"

definition live_set_active :: "bool \<Rightarrow> live_source \<Rightarrow> live_source" where
  "live_set_active active s = s\<lparr>lv_active := active\<rparr>"

text \<open>
  \<open>is_disconnected\<close> receives to learn the state of the channel; a sender may act between
  its two accesses, which is the argument \<open>env\<close>.
\<close>

definition live_is_disconnected :: "(live_source \<Rightarrow> live_source) \<Rightarrow> live_source \<Rightarrow> bool \<times> live_source" where
  "live_is_disconnected env s =
     (if lv_queue s = []
      then let (r, s') = live_try_recv (env s) in (r = Err RecvDisconnected, s')
      else (False, s))"

definition live_next :: "live_source \<Rightarrow> data_frame option \<times> live_source" where
  "live_next s =
     (if \<not> lv_active s then (None, s)
      else case lv_peeked s of
        Some frame \<Rightarrow> (Some frame, s\<lparr>lv_peeked := None\<rparr>)
      | None \<Rightarrow>
          (case live_try_recv s of
             (Ok frame, s') \<Rightarrow> (Some frame, s')
           | (_, s') \<Rightarrow> (None, s')))"

definition live_peek :: "live_source \<Rightarrow> data_frame option \<times> live_source" where
  "live_peek s =
     (if \<not> lv_active s then (None, s)
      else
        let s1 = (if lv_peeked s = None
                  then (case live_try_recv s of
                          (Ok frame, s') \<Rightarrow> s'\<lparr>lv_peeked := Some frame\<rparr>
                        | (_, s') \<Rightarrow> s')
                  else s) in
        (lv_peeked s1, s1))"

definition live_reset :: "live_source \<Rightarrow> live_source" where
  "live_reset s = s\<lparr>lv_peeked := None\<rparr>"

definition live_ops :: "live_source source_ops" where
  "live_ops =
     \<lparr>ds_next = live_next, ds_peek = live_peek,
      ds_has_next = default_has_next live_peek,
      ds_peek_timestamp = default_peek_timestamp live_peek,
      ds_is_active = lv_active, ds_reset = live_reset,
      ds_frame_count = (\<lambda>s. None), ds_position = (\<lambda>s. None)\<rparr>"

section \<open>The journal source\<close>

record journal_source =
  js_frames :: "data_frame list"
  js_position :: usize
  js_active :: bool

definition journal_source_from_frames :: "data_frame list \<Rightarrow> journal_source" where
  "journal_source_from_frames frames =
     \<lparr>js_frames = frames, js_position = 0, js_active = (frames \<noteq> [])\<rparr>"

definition journal_source_empty :: journal_source where
  "journal_source_empty = \<lparr>js_frames = [], js_position = 0, js_active = False\<rparr>"

definition journal_source_single :: "data_frame \<Rightarrow> journal_source" where
  "journal_source_single frame = journal_source_from_frames [frame]"

definition journal_source_len :: "journal_source \<Rightarrow> usize" where
  "journal_source_len s = length (js_frames s)"

definition journal_source_is_empty :: "journal_source \<Rightarrow> bool" where
  "journal_source_is_empty s \<longleftrightarrow> js_frames s = []"

definition journal_source_next :: "journal_source \<Rightarrow> data_frame option \<times> journal_source" where
  "journal_source_next s =
     (if js_position s \<ge> length (js_frames s) then (None, s)
      else (Some (js_frames s ! js_position s), s\<lparr>js_position := js_position s + 1\<rparr>))"

definition journal_source_peek :: "journal_source \<Rightarrow> data_frame option \<times> journal_source" where
  "journal_source_peek s =
     (if js_position s < length (js_frames s) then Some (js_frames s ! js_position s) else None, s)"

definition journal_source_reset :: "journal_source \<Rightarrow> journal_source" where
  "journal_source_reset s = s\<lparr>js_position := 0\<rparr>"

definition journal_ops :: "journal_source source_ops" where
  "journal_ops =
     \<lparr>ds_next = journal_source_next, ds_peek = journal_source_peek,
      ds_has_next = default_has_next journal_source_peek,
      ds_peek_timestamp = default_peek_timestamp journal_source_peek,
      ds_is_active = js_active, ds_reset = journal_source_reset,
      ds_frame_count = (\<lambda>s. Some (length (js_frames s))),
      ds_position = (\<lambda>s. Some (js_position s))\<rparr>"

section \<open>The contract\<close>

fun opt_hd :: "'a list \<Rightarrow> 'a option" where
  "opt_hd [] = None"
| "opt_hd (x # xs) = Some x"

lemma opt_hd_None [simp]: "opt_hd xs = None \<longleftrightarrow> xs = []"
  by (cases xs) auto

lemma opt_hd_drop: "opt_hd (drop n xs) = (if n < length xs then Some (xs ! n) else None)"
proof (cases "n < length xs")
  case True
  then show ?thesis by (simp add: Cons_nth_drop_Suc [symmetric, OF True])
qed simp

locale data_source =
  fixes ops :: "'s source_ops" and pending :: "'s \<Rightarrow> data_frame list"
  assumes next_frame: "fst (ds_next ops s) = opt_hd (pending s)"
    and next_pending: "pending (snd (ds_next ops s)) = tl (pending s)"
    and peek_frame: "fst (ds_peek ops s) = opt_hd (pending s)"
    and peek_pending: "pending (snd (ds_peek ops s)) = pending s"
    and has_next: "ds_has_next ops s = (fst (ds_peek ops s) \<noteq> None, snd (ds_peek ops s))"
    and peek_timestamp: "ds_peek_timestamp ops s
      = (map_option df_timestamp (fst (ds_peek ops s)), snd (ds_peek ops s))"
    and next_active: "ds_is_active ops (snd (ds_next ops s)) = ds_is_active ops s"
    and peek_active: "ds_is_active ops (snd (ds_peek ops s)) = ds_is_active ops s"

locale rewindable_source = data_source +
  fixes all_frames :: "'s \<Rightarrow> data_frame list"
  assumes reset_pending: "pending (ds_reset ops s) = all_frames s"
    and next_all: "all_frames (snd (ds_next ops s)) = all_frames s"
    and peek_all: "all_frames (snd (ds_peek ops s)) = all_frames s"
    and reset_all: "all_frames (ds_reset ops s) = all_frames s"
    and frame_count: "ds_frame_count ops s \<noteq> None"

definition buffered_pending :: "buffered_source \<Rightarrow> data_frame list" where
  "buffered_pending s = (if bf_active s then drop (bf_position s) (bf_frames s) else [])"

definition buffered_all :: "buffered_source \<Rightarrow> data_frame list" where
  "buffered_all s = (if bf_active s then bf_frames s else [])"

definition live_pending :: "live_source \<Rightarrow> data_frame list" where
  "live_pending s =
     (if lv_active s then (case lv_peeked s of None \<Rightarrow> [] | Some f \<Rightarrow> [f]) @ lv_queue s else [])"

definition journal_pending :: "journal_source \<Rightarrow> data_frame list" where
  "journal_pending s = drop (js_position s) (js_frames s)"

lemmas source_defs = default_has_next_def default_peek_timestamp_def null_ops_def
  buffered_ops_def buffered_next_def buffered_peek_def buffered_pending_def buffered_reset_def
  buffered_all_def live_ops_def live_next_def live_peek_def live_pending_def live_reset_def
  live_try_recv_def journal_ops_def journal_source_next_def journal_source_peek_def
  journal_pending_def journal_source_reset_def

interpretation null_src: rewindable_source null_ops "\<lambda>s. []" "\<lambda>s. []"
  by unfold_locales (simp_all add: source_defs)

interpretation buffered_src: rewindable_source buffered_ops buffered_pending buffered_all
  by unfold_locales (auto simp: source_defs opt_hd_drop tl_drop drop_Suc split: option.splits)

interpretation live_src: data_source live_ops live_pending
  by unfold_locales (auto simp: source_defs split: option.splits list.splits)

interpretation journal_src: rewindable_source journal_ops journal_pending js_frames
  by unfold_locales (auto simp: source_defs opt_hd_drop tl_drop drop_Suc)

lemma frame_type_record_type [simp]:
  "frame_type_from_record_type (frame_type_to_record_type t) = t"
  by (cases t) (simp_all add: frame_type_from_record_type_def)

section \<open>Using a source\<close>

text \<open>The frames of \<open>n\<close> calls of \<open>next\<close>.\<close>

fun source_take :: "'s source_ops \<Rightarrow> nat \<Rightarrow> 's \<Rightarrow> data_frame list \<times> 's" where
  "source_take ops 0 s = ([], s)"
| "source_take ops (Suc n) s =
     (let (f, s1) = ds_next ops s; (fs, s2) = source_take ops n s1 in
      ((case f of None \<Rightarrow> fs | Some x \<Rightarrow> x # fs), s2))"

context data_source
begin

lemma take_pending:
  "fst (source_take ops n s) = take n (pending s) \<and>
   pending (snd (source_take ops n s)) = drop n (pending s)"
proof (induction n arbitrary: s)
  case (Suc n)
  show ?case
    using Suc [of "snd (ds_next ops s)"] next_frame [of s] next_pending [of s]
    by (cases "pending s") (auto split: prod.splits)
qed simp

end

context rewindable_source
begin

lemma take_all: "all_frames (snd (source_take ops n s)) = all_frames s"
proof (induction n arbitrary: s)
  case (Suc n)
  show ?case
    using Suc [of "snd (ds_next ops s)"] next_all [of s] by (auto split: prod.splits)
qed simp

lemma replay_after_reset:
  assumes "m \<ge> length (all_frames s)"
  shows "fst (source_take ops m (ds_reset ops (snd (source_take ops n s)))) = all_frames s"
  using assms take_pending [of m "ds_reset ops (snd (source_take ops n s))"]
  by (simp add: reset_pending take_all)

end

text \<open>
  A stored source, buffered or journal, can be replayed: whatever was consumed before,
  after \<open>reset\<close> calls of \<open>next\<close> give all frames again, in order, and then none.
\<close>

theorem stored_sources_replay:
  assumes "length frames \<le> m"
  shows "fst (source_take buffered_ops m (buffered_reset (snd (source_take buffered_ops n (buffered_new frames)))))
      = frames"
    and "fst (source_take journal_ops m
      (journal_source_reset (snd (source_take journal_ops n (journal_source_from_frames frames))))) = frames"
  using buffered_src.replay_after_reset [of "buffered_new frames" m n]
    journal_src.replay_after_reset [of "journal_source_from_frames frames" m n] assms
  by (simp_all add: buffered_all_def buffered_new_def journal_source_from_frames_def
      buffered_ops_def journal_ops_def)

theorem stored_sources_replay_witness:
  "fst (source_take buffered_ops 2 (buffered_reset (snd (source_take buffered_ops 1
      (buffered_new [data_frame_empty 7 ExBinance FT_Trade]))))) = [data_frame_empty 7 ExBinance FT_Trade]"
  by (rule stored_sources_replay(1)) simp

datatype live_op = LSend data_frame | LNext | LPeek | LHasNext | LPeekTimestamp

fun live_step :: "live_op \<Rightarrow> live_source \<Rightarrow> data_frame list \<times> live_source" where
  "live_step (LSend f) s = ([], live_send f s)"
| "live_step LNext s =
     (let (f, s') = ds_next live_ops s in (case f of None \<Rightarrow> [] | Some x \<Rightarrow> [x], s'))"
| "live_step LPeek s = ([], snd (ds_peek live_ops s))"
| "live_step LHasNext s = ([], snd (ds_has_next live_ops s))"
| "live_step LPeekTimestamp s = ([], snd (ds_peek_timestamp live_ops s))"

fun live_run :: "live_op list \<Rightarrow> live_source \<Rightarrow> data_frame list \<times> live_source" where
  "live_run [] s = ([], s)"
| "live_run (p # ps) s =
     (let (out, s1) = live_step p s; (outs, s2) = live_run ps s1 in (out @ outs, s2))"

fun live_sent :: "live_op list \<Rightarrow> data_frame list" where
  "live_sent [] = []"
| "live_sent (LSend f # ps) = f # live_sent ps"
| "live_sent (_ # ps) = live_sent ps"

lemma live_step_pending:
  assumes "lv_active s" and "live_step p s = (out, s')"
  shows "lv_active s' \<and> out @ live_pending s' = live_pending s @ live_sent [p]"
proof (cases p)
  case (LSend f)
  with assms show ?thesis by (auto simp: live_send_def live_pending_def)
next
  case LNext
  have "opt_hd xs = Some x \<Longrightarrow> x # tl xs = xs" for xs and x :: data_frame by (cases xs) auto
  with LNext assms live_src.next_frame [of s] live_src.next_pending [of s] live_src.next_active [of s]
  show ?thesis by (auto simp: live_ops_def split: prod.splits option.splits)
qed (use assms live_src.peek_pending [of s] live_src.peek_active [of s] in
      \<open>auto simp: live_ops_def default_has_next_def default_peek_timestamp_def split: prod.splits\<close>)

text \<open>
  The live source loses, duplicates and reorders nothing: for every interleaving of
  sends with calls of \<open>next\<close>, \<open>peek\<close>, \<open>has_next\<close> and \<open>peek_timestamp\<close> on an active source,
  the frames returned by \<open>next\<close> followed by those still held are the frames held before
  followed by those sent.
\<close>

theorem live_delivery:
  assumes "lv_active s" and "live_run ps s = (out, s')"
  shows "out @ live_pending s' = live_pending s @ live_sent ps"
  using assms
proof (induction ps arbitrary: s out)
  case (Cons p ps)
  obtain o1 s1 where s1: "live_step p s = (o1, s1)" by fastforce
  obtain o2 where o2: "live_run ps s1 = (o2, s')" "out = o1 @ o2"
    using Cons.prems(2) s1 by (auto split: prod.splits)
  have "live_sent (p # ps) = live_sent [p] @ live_sent ps" by (cases p) simp_all
  moreover note live_step_pending [OF Cons.prems(1) s1] Cons.IH [OF _ o2(1)] o2(2)
  ultimately show ?case by (metis append.assoc)
qed simp

theorem live_delivery_witness:
  "fst (live_run [LSend (data_frame_empty 7 ExBinance FT_Trade), LPeek, LNext] live_with_sender)
    = [data_frame_empty 7 ExBinance FT_Trade]"
proof -
  let ?f = "data_frame_empty 7 ExBinance FT_Trade"
  obtain out s' where r: "live_run [LSend ?f, LPeek, LNext] live_with_sender = (out, s')" by fastforce
  then have "live_pending s' = []"
    by (auto simp: live_ops_def live_peek_def live_next_def live_send_def live_try_recv_def
        live_with_sender_def live_new_def live_pending_def)
  with live_delivery [OF _ r] r show ?thesis
    by (simp add: live_with_sender_def live_new_def live_pending_def)
qed

text \<open>
  \<open>is_disconnected\<close> can lose a frame: when a sender acts between its emptiness test and
  its \<open>try_recv\<close>, the frame is received and dropped.
\<close>

theorem is_disconnected_drops_frame:
  "live_is_disconnected (live_send f) live_with_sender = (False, live_with_sender)"
  by (simp add: live_is_disconnected_def live_try_recv_def live_send_def live_with_sender_def
      live_new_def)

end
