(* ===== verification/Journal_Format.thy ===== *)
theory Journal_Format
  imports Market_Types
begin

text \<open>
  \<open>journal/format.rs\<close>: the on-disk layout of a journal file. Each \<open>#[repr(C, packed)]\<close>
  struct is a record; \<open>to_bytes\<close> and \<open>from_bytes\<close>, which the source gets by
  \<open>transmute_copy\<close> and \<open>ptr::read\<close> on a little-endian target, are the concatenation of the
  fields' little-endian bytes and its inverse. The theorems are the two round trips of
  each header, and the distinctness of the magic numbers.
\<close>

definition FILE_MAGIC :: bytes where
  "FILE_MAGIC = as_bytes ''BLKBOXJL''"

definition SCHEMA_MAGIC :: bytes where
  "SCHEMA_MAGIC = as_bytes ''BLKBOXSC''"

definition FOOTER_MAGIC :: bytes where
  "FOOTER_MAGIC = as_bytes ''BLKBOXND''"

definition FORMAT_VERSION_MAJOR :: u8 where
  "FORMAT_VERSION_MAJOR = 1"

definition FORMAT_VERSION_MINOR :: u8 where
  "FORMAT_VERSION_MINOR = 2"

definition SCHEMA_VERSION_MAJOR :: u8 where
  "SCHEMA_VERSION_MAJOR = 1"

definition SCHEMA_VERSION_MINOR :: u8 where
  "SCHEMA_VERSION_MINOR = 0"

definition FILE_HEADER_SIZE :: usize where
  "FILE_HEADER_SIZE = 128"

definition RECORD_HEADER_SIZE :: usize where
  "RECORD_HEADER_SIZE = 24"

definition SCHEMA_BLOCK_HEADER_SIZE :: usize where
  "SCHEMA_BLOCK_HEADER_SIZE = 32"

definition FILE_FOOTER_SIZE :: usize where
  "FILE_FOOTER_SIZE = 32"

datatype header_error =
    HeInvalidMagic
  | HeInvalidSchemaMagic
  | HeInvalidFooterMagic
  | HeUnsupportedVersion u8 u8

fun header_error_display :: "header_error \<Rightarrow> string" where
  "header_error_display HeInvalidMagic = ''Invalid file header magic number''"
| "header_error_display HeInvalidSchemaMagic = ''Invalid schema block magic number''"
| "header_error_display HeInvalidFooterMagic = ''Invalid file footer magic number''"
| "header_error_display (HeUnsupportedVersion major minor) =
     ''Unsupported version: '' @ show_nat (unat major) @ ''.'' @ show_nat (unat minor)"

section \<open>File header\<close>

record file_header =
  fh_magic :: bytes
  fh_format_major :: u8
  fh_format_minor :: u8
  fh_schema_major :: u8
  fh_schema_minor :: u8
  fh_header_size :: u32
  fh_schema_offset :: u64
  fh_schema_size :: u64
  fh_first_record :: u64
  fh_session_start :: i64
  fh_session_end :: i64
  fh_record_count :: u64
  fh_flags :: u16
  fh_reserved_1 :: u16
  fh_schema_hash :: u32
  fh_checksum :: bytes
  fh_reserved_2 :: bytes

definition new_with_session_start :: "i64 \<Rightarrow> file_header" where
  "new_with_session_start session_start =
     \<lparr>fh_magic = FILE_MAGIC,
      fh_format_major = FORMAT_VERSION_MAJOR, fh_format_minor = FORMAT_VERSION_MINOR,
      fh_schema_major = SCHEMA_VERSION_MAJOR, fh_schema_minor = SCHEMA_VERSION_MINOR,
      fh_header_size = of_nat FILE_HEADER_SIZE, fh_schema_offset = of_nat FILE_HEADER_SIZE,
      fh_schema_size = 0, fh_first_record = 0,
      fh_session_start = session_start, fh_session_end = 0,
      fh_record_count = 0, fh_flags = 0, fh_reserved_1 = 0, fh_schema_hash = 0,
      fh_checksum = replicate 32 0, fh_reserved_2 = replicate 24 0\<rparr>"

text \<open>
  \<open>FileHeader::new\<close> reads the system clock: the argument is the result of
  \<open>duration_since(UNIX_EPOCH)\<close>, in microseconds before the cast to \<open>i64\<close>, if the clock is
  not before the epoch.
\<close>

definition file_header_new :: "nat option \<Rightarrow> file_header" where
  "file_header_new system_micros =
     new_with_session_start (case system_micros of Some d \<Rightarrow> of_nat d | None \<Rightarrow> 0)"

definition new_with_timestamp :: "timestamp \<Rightarrow> file_header" where
  "new_with_timestamp t = new_with_session_start t"

definition file_header_validate :: "file_header \<Rightarrow> (unit, header_error) result" where
  "file_header_validate h =
     (if fh_magic h \<noteq> FILE_MAGIC then Err HeInvalidMagic
      else if fh_format_major h > FORMAT_VERSION_MAJOR
      then Err (HeUnsupportedVersion (fh_format_major h) (fh_format_minor h))
      else Ok ())"

definition file_header_to_bytes :: "file_header \<Rightarrow> bytes" where
  "file_header_to_bytes h =
     fh_magic h @ [fh_format_major h, fh_format_minor h, fh_schema_major h, fh_schema_minor h]
     @ to_le (fh_header_size h) @ to_le (fh_schema_offset h) @ to_le (fh_schema_size h)
     @ to_le (fh_first_record h) @ to_le (fh_session_start h) @ to_le (fh_session_end h)
     @ to_le (fh_record_count h) @ to_le (fh_flags h) @ to_le (fh_reserved_1 h)
     @ to_le (fh_schema_hash h) @ fh_checksum h @ fh_reserved_2 h"

text \<open>\<open>field bs off n\<close> is the \<open>n\<close>-byte field at offset \<open>off\<close> of the packed struct.\<close>

definition field :: "bytes \<Rightarrow> nat \<Rightarrow> nat \<Rightarrow> bytes" where
  "field bs off n = take n (drop off bs)"

definition file_header_from_bytes :: "bytes \<Rightarrow> file_header" where
  "file_header_from_bytes bs =
     \<lparr>fh_magic = field bs 0 8,
      fh_format_major = bs ! 8, fh_format_minor = bs ! 9,
      fh_schema_major = bs ! 10, fh_schema_minor = bs ! 11,
      fh_header_size = from_le (field bs 12 4), fh_schema_offset = from_le (field bs 16 8),
      fh_schema_size = from_le (field bs 24 8), fh_first_record = from_le (field bs 32 8),
      fh_session_start = from_le (field bs 40 8), fh_session_end = from_le (field bs 48 8),
      fh_record_count = from_le (field bs 56 8), fh_flags = from_le (field bs 64 2),
      fh_reserved_1 = from_le (field bs 66 2), fh_schema_hash = from_le (field bs 68 4),
      fh_checksum = field bs 72 32, fh_reserved_2 = field bs 104 24\<rparr>"

definition file_header_wf :: "file_header \<Rightarrow> bool" where
  "file_header_wf h \<longleftrightarrow> length (fh_magic h) = 8 \<and> length (fh_checksum h) = 32
     \<and> length (fh_reserved_2 h) = 24"

definition schema_version :: "file_header \<Rightarrow> u8 \<times> u8" where
  "schema_version h = (fh_schema_major h, fh_schema_minor h)"

definition format_version :: "file_header \<Rightarrow> u8 \<times> u8" where
  "format_version h = (fh_format_major h, fh_format_minor h)"

section \<open>Schema block\<close>

definition compression_NONE :: u8 where
  "compression_NONE = 0"

definition compression_ZSTD :: u8 where
  "compression_ZSTD = 1"

record schema_block_header =
  sbh_magic :: bytes
  sbh_xml_uncompressed :: u32
  sbh_xml_compressed :: u32
  sbh_compression :: u8
  sbh_reserved :: bytes

definition schema_block_header_new :: "u32 \<Rightarrow> u32 \<Rightarrow> u8 \<Rightarrow> schema_block_header" where
  "schema_block_header_new uncompressed_size compressed_size compression_type =
     \<lparr>sbh_magic = SCHEMA_MAGIC, sbh_xml_uncompressed = uncompressed_size,
      sbh_xml_compressed = compressed_size, sbh_compression = compression_type,
      sbh_reserved = replicate 15 0\<rparr>"

definition schema_block_header_validate :: "schema_block_header \<Rightarrow> (unit, header_error) result" where
  "schema_block_header_validate h =
     (if sbh_magic h \<noteq> SCHEMA_MAGIC then Err HeInvalidSchemaMagic else Ok ())"

definition schema_block_header_to_bytes :: "schema_block_header \<Rightarrow> bytes" where
  "schema_block_header_to_bytes h =
     sbh_magic h @ to_le (sbh_xml_uncompressed h) @ to_le (sbh_xml_compressed h)
     @ [sbh_compression h] @ sbh_reserved h"

definition schema_block_header_from_bytes :: "bytes \<Rightarrow> schema_block_header" where
  "schema_block_header_from_bytes bs =
     \<lparr>sbh_magic = field bs 0 8, sbh_xml_uncompressed = from_le (field bs 8 4),
      sbh_xml_compressed = from_le (field bs 12 4), sbh_compression = bs ! 16,
      sbh_reserved = field bs 17 15\<rparr>"

record schema_block =
  sb_header :: schema_block_header
  sb_data :: bytes

definition total_size :: "schema_block \<Rightarrow> usize" where
  "total_size b = SCHEMA_BLOCK_HEADER_SIZE + length (sb_data b)"

definition with_schema :: "file_header \<Rightarrow> schema_block \<Rightarrow> u32 \<Rightarrow> file_header" where
  "with_schema h b schema_hash =
     (let size = (of_nat (total_size b) :: u64) in
      h\<lparr>fh_schema_offset := of_nat FILE_HEADER_SIZE, fh_schema_size := size,
        fh_first_record := of_nat FILE_HEADER_SIZE + size, fh_schema_hash := schema_hash\<rparr>)"

section \<open>Footer\<close>

record file_footer =
  ff_magic :: bytes
  ff_total_records :: u64
  ff_total_bytes :: u64
  ff_final_timestamp :: i64

definition file_footer_new :: "u64 \<Rightarrow> u64 \<Rightarrow> i64 \<Rightarrow> file_footer" where
  "file_footer_new total_records total_bytes final_timestamp =
     \<lparr>ff_magic = FOOTER_MAGIC, ff_total_records = total_records,
      ff_total_bytes = total_bytes, ff_final_timestamp = final_timestamp\<rparr>"

definition file_footer_validate :: "file_footer \<Rightarrow> (unit, header_error) result" where
  "file_footer_validate f = (if ff_magic f \<noteq> FOOTER_MAGIC then Err HeInvalidFooterMagic else Ok ())"

definition file_footer_to_bytes :: "file_footer \<Rightarrow> bytes" where
  "file_footer_to_bytes f =
     ff_magic f @ to_le (ff_total_records f) @ to_le (ff_total_bytes f)
     @ to_le (ff_final_timestamp f)"

definition file_footer_from_bytes :: "bytes \<Rightarrow> file_footer" where
  "file_footer_from_bytes bs =
     \<lparr>ff_magic = field bs 0 8, ff_total_records = from_le (field bs 8 8),
      ff_total_bytes = from_le (field bs 16 8), ff_final_timestamp = from_le (field bs 24 8)\<rparr>"

section \<open>Record header\<close>

datatype record_type =
    RtUnknown | RtSessionStart | RtSessionEnd | RtCheckpoint
  | RtRawFrame | RtQuoteUpdate | RtTrade | RtBookSnapshot
  | RtOrderSubmit | RtOrderAck | RtOrderFill | RtOrderCancel
  | RtStateChange | RtSignal

fun record_type_as_u16 :: "record_type \<Rightarrow> u16" where
  "record_type_as_u16 RtUnknown = 0x0000"
| "record_type_as_u16 RtSessionStart = 0x0001"
| "record_type_as_u16 RtSessionEnd = 0x0002"
| "record_type_as_u16 RtCheckpoint = 0x0003"
| "record_type_as_u16 RtRawFrame = 0x0100"
| "record_type_as_u16 RtQuoteUpdate = 0x0101"
| "record_type_as_u16 RtTrade = 0x0102"
| "record_type_as_u16 RtBookSnapshot = 0x0103"
| "record_type_as_u16 RtOrderSubmit = 0x0200"
| "record_type_as_u16 RtOrderAck = 0x0201"
| "record_type_as_u16 RtOrderFill = 0x0202"
| "record_type_as_u16 RtOrderCancel = 0x0203"
| "record_type_as_u16 RtStateChange = 0x0300"
| "record_type_as_u16 RtSignal = 0x0301"

definition record_type_from_u16 :: "u16 \<Rightarrow> record_type" where
  "record_type_from_u16 v =
     (if v = 0x0000 then RtUnknown
      else if v = 0x0001 then RtSessionStart
      else if v = 0x0002 then RtSessionEnd
      else if v = 0x0003 then RtCheckpoint
      else if v = 0x0100 then RtRawFrame
      else if v = 0x0101 then RtQuoteUpdate
      else if v = 0x0102 then RtTrade
      else if v = 0x0103 then RtBookSnapshot
      else if v = 0x0200 then RtOrderSubmit
      else if v = 0x0201 then RtOrderAck
      else if v = 0x0202 then RtOrderFill
      else if v = 0x0203 then RtOrderCancel
      else if v = 0x0300 then RtStateChange
      else if v = 0x0301 then RtSignal
      else RtUnknown)"

record record_header =
  rh_timestamp :: i64
  rh_payload_size :: u32
  rh_record_type :: u16
  rh_exchange_id :: u8
  rh_flags :: u8
  rh_sequence_number :: u32
  rh_crc32 :: u32

definition record_header_new ::
    "timestamp \<Rightarrow> record_type \<Rightarrow> u8 \<Rightarrow> u32 \<Rightarrow> u32 \<Rightarrow> record_header" where
  "record_header_new t rt exchange_id payload_size seq =
     \<lparr>rh_timestamp = t, rh_payload_size = payload_size,
      rh_record_type = record_type_as_u16 rt, rh_exchange_id = exchange_id,
      rh_flags = 0, rh_sequence_number = seq, rh_crc32 = 0\<rparr>"

definition record_header_to_bytes :: "record_header \<Rightarrow> bytes" where
  "record_header_to_bytes h =
     to_le (rh_timestamp h) @ to_le (rh_payload_size h) @ to_le (rh_record_type h)
     @ [rh_exchange_id h, rh_flags h] @ to_le (rh_sequence_number h) @ to_le (rh_crc32 h)"

definition record_header_from_bytes :: "bytes \<Rightarrow> record_header" where
  "record_header_from_bytes bs =
     \<lparr>rh_timestamp = from_le (field bs 0 8), rh_payload_size = from_le (field bs 8 4),
      rh_record_type = from_le (field bs 12 2), rh_exchange_id = bs ! 14,
      rh_flags = bs ! 15, rh_sequence_number = from_le (field bs 16 4),
      rh_crc32 = from_le (field bs 20 4)\<rparr>"

lemmas format_sizes = FILE_HEADER_SIZE_def RECORD_HEADER_SIZE_def
  SCHEMA_BLOCK_HEADER_SIZE_def FILE_FOOTER_SIZE_def

section \<open>Round trips\<close>

lemma length_magics [simp]:
  "length FILE_MAGIC = 8" "length SCHEMA_MAGIC = 8" "length FOOTER_MAGIC = 8"
  by (simp_all add: FILE_MAGIC_def SCHEMA_MAGIC_def FOOTER_MAGIC_def)

lemma record_type_roundtrip [simp]: "record_type_from_u16 (record_type_as_u16 rt) = rt"
  by (cases rt) (simp_all add: record_type_from_u16_def)

lemma file_header_validate_Ok_iff:
  "file_header_validate h = Ok () \<longleftrightarrow> fh_magic h = FILE_MAGIC \<and> fh_format_major h \<le> FORMAT_VERSION_MAJOR"
  by (auto simp: file_header_validate_def)

lemma record_header_length [simp]: "length (record_header_to_bytes h) = 24"
  by (simp add: record_header_to_bytes_def)

lemma file_footer_length: "length (ff_magic f) = 8 \<Longrightarrow> length (file_footer_to_bytes f) = 32"
  by (simp add: file_footer_to_bytes_def)

lemma file_header_length: "file_header_wf h \<Longrightarrow> length (file_header_to_bytes h) = 128"
  by (simp add: file_header_to_bytes_def file_header_wf_def)

lemma schema_block_header_length:
  "length (sbh_magic h) = 8 \<Longrightarrow> length (sbh_reserved h) = 15 \<Longrightarrow>
     length (schema_block_header_to_bytes h) = 32"
  by (simp add: schema_block_header_to_bytes_def)

lemma record_header_roundtrip [simp]:
  "record_header_from_bytes (record_header_to_bytes h) = h"
  by (simp add: record_header_from_bytes_def record_header_to_bytes_def field_def nth_append)

lemma file_header_roundtrip:
  "file_header_wf h \<Longrightarrow> file_header_from_bytes (file_header_to_bytes h) = h"
  by (simp add: file_header_from_bytes_def file_header_to_bytes_def field_def nth_append
      file_header_wf_def)

lemma file_footer_roundtrip:
  "length (ff_magic f) = 8 \<Longrightarrow> file_footer_from_bytes (file_footer_to_bytes f) = f"
  by (simp add: file_footer_from_bytes_def file_footer_to_bytes_def field_def)

lemma schema_block_header_roundtrip:
  "length (sbh_magic h) = 8 \<Longrightarrow> length (sbh_reserved h) = 15 \<Longrightarrow>
     schema_block_header_from_bytes (schema_block_header_to_bytes h) = h"
  by (simp add: schema_block_header_from_bytes_def schema_block_header_to_bytes_def field_def
      nth_append)

text \<open>The other direction: a byte array of the struct's size is the image of its reading.\<close>

lemma field_append: "field bs off m @ field bs (off + m) n = field bs off (m + n)"
  by (simp add: field_def take_add drop_drop add.commute)

lemma field_Cons: "off < length bs \<Longrightarrow> bs ! off # field bs (Suc off) n = field bs off (Suc n)"
  by (simp add: field_def take_Suc_conv_app_nth Cons_nth_drop_Suc [symmetric])

lemma field_all: "length bs = n \<Longrightarrow> field bs 0 n = bs"
  by (simp add: field_def)

lemma to_le_field:
  "length bs \<ge> off + LENGTH('a::len) div 8 \<Longrightarrow> n = LENGTH('a) div 8 \<Longrightarrow> 8 dvd LENGTH('a) \<Longrightarrow>
     to_le (from_le (field bs off n) :: 'a word) = field bs off n"
  by (rule to_le_from_le) (simp_all add: field_def)

lemma nth_Cons_field: "off < length bs \<Longrightarrow> bs ! off # field bs (Suc off) n = field bs off (Suc n)"
  by (simp add: field_def Cons_nth_drop_Suc [symmetric])

lemma record_header_from_bytes_inverse:
  assumes "length bs = 24"
  shows "record_header_to_bytes (record_header_from_bytes bs) = bs"
proof -
  have "record_header_to_bytes (record_header_from_bytes bs) =
      field bs 0 8 @ field bs 8 4 @ field bs 12 2 @ (bs ! 14 # [bs ! 15])
      @ field bs 16 4 @ field bs 20 4"
    using assms by (simp add: record_header_to_bytes_def record_header_from_bytes_def to_le_field)
  also have "bs ! 14 # [bs ! 15] = field bs 14 2"
    using assms nth_Cons_field [of 15 bs 0] nth_Cons_field [of 14 bs 1]
    by (simp add: numeral_2_eq_2 field_def)
  finally show ?thesis
    using assms field_append [of bs 16 4 4] field_append [of bs 14 2 8]
      field_append [of bs 12 2 10] field_append [of bs 8 4 12] field_append [of bs 0 8 16]
    by (simp add: field_all)
qed

lemma file_footer_from_bytes_inverse:
  assumes "length bs = 32"
  shows "file_footer_to_bytes (file_footer_from_bytes bs) = bs"
proof -
  have "file_footer_to_bytes (file_footer_from_bytes bs) =
      field bs 0 8 @ field bs 8 8 @ field bs 16 8 @ field bs 24 8"
    using assms by (simp add: file_footer_to_bytes_def file_footer_from_bytes_def to_le_field)
  then show ?thesis
    using assms field_append [of bs 16 8 8] field_append [of bs 8 8 16] field_append [of bs 0 8 24]
    by (simp add: field_all)
qed

lemma file_header_from_bytes_inverse:
  assumes "length bs = 128"
  shows "file_header_to_bytes (file_header_from_bytes bs) = bs"
proof -
  have "file_header_to_bytes (file_header_from_bytes bs) =
      field bs 0 8 @ (bs ! 8 # bs ! 9 # bs ! 10 # [bs ! 11]) @ field bs 12 4 @ field bs 16 8
      @ field bs 24 8 @ field bs 32 8 @ field bs 40 8 @ field bs 48 8 @ field bs 56 8
      @ field bs 64 2 @ field bs 66 2 @ field bs 68 4 @ field bs 72 32 @ field bs 104 24"
    using assms by (simp add: file_header_to_bytes_def file_header_from_bytes_def to_le_field)
  also have "bs ! 8 # bs ! 9 # bs ! 10 # [bs ! 11] = field bs 8 4"
    using assms nth_Cons_field [of 11 bs 0] nth_Cons_field [of 10 bs 1]
      nth_Cons_field [of 9 bs 2] nth_Cons_field [of 8 bs 3]
    by (simp add: eval_nat_numeral field_def)
  finally show ?thesis
    using assms field_append [of bs 72 32 24] field_append [of bs 68 4 56]
      field_append [of bs 66 2 60] field_append [of bs 64 2 62] field_append [of bs 56 8 64]
      field_append [of bs 48 8 72] field_append [of bs 40 8 80] field_append [of bs 32 8 88]
      field_append [of bs 24 8 96] field_append [of bs 16 8 104] field_append [of bs 12 4 112]
      field_append [of bs 8 4 116] field_append [of bs 0 8 120]
    by (simp add: field_all)
qed

text \<open>
  The packed layouts are bijections between the structs and the byte arrays of their
  sizes: serialising and reading back a record header, a file header or a footer gives
  the same struct, and reading any array of the right size and serialising gives the
  same bytes.
\<close>

theorem journal_layouts_bijective:
  assumes "length rbs = RECORD_HEADER_SIZE" and "length fbs = FILE_HEADER_SIZE"
    and "length gbs = FILE_FOOTER_SIZE" and "file_header_wf fh" and "length (ff_magic ff) = 8"
  shows "record_header_from_bytes (record_header_to_bytes rh) = rh
    \<and> record_header_to_bytes (record_header_from_bytes rbs) = rbs
    \<and> file_header_from_bytes (file_header_to_bytes fh) = fh
    \<and> file_header_to_bytes (file_header_from_bytes fbs) = fbs
    \<and> file_footer_from_bytes (file_footer_to_bytes ff) = ff
    \<and> file_footer_to_bytes (file_footer_from_bytes gbs) = gbs"
  using assms
  by (simp add: format_sizes record_header_from_bytes_inverse file_header_roundtrip
      file_header_from_bytes_inverse file_footer_roundtrip file_footer_from_bytes_inverse)

lemma new_with_session_start_wf [simp]: "file_header_wf (new_with_session_start t)"
  by (simp add: file_header_wf_def new_with_session_start_def)

lemma journal_layouts_bijective_witness:
  "file_header_from_bytes (file_header_to_bytes (new_with_timestamp 5)) = new_with_timestamp 5
   \<and> record_header_to_bytes (record_header_from_bytes (replicate 24 7)) = replicate 24 7
   \<and> file_footer_to_bytes (file_footer_from_bytes (replicate 32 9)) = replicate 32 9"
  using journal_layouts_bijective [of "replicate 24 7" "replicate 128 1" "replicate 32 9"
      "new_with_timestamp 5" "file_footer_new 1 2 3"]
  by (simp add: format_sizes new_with_timestamp_def file_footer_new_def)

end
