(* ===== verification/Journal_Schema.thy ===== *)
theory Journal_Schema
  imports Journal_Format
begin

text \<open>
  \<open>journal/schema.rs\<close> and the part of \<open>build.rs\<close> it includes: the embedded schema XML with
  its CRC-32, and the schema block that every journal file carries after its header.
  The XML text (read by the build script), \<open>zstd\<close> and \<open>crc32fast\<close> are parameters, gathered
  in the record \<open>deps\<close>; what the code relies on is stated by \<open>zstd_inverse\<close> and
  \<open>crc_agrees\<close>. The CRC of the build script is modelled bit by bit and proved to detect
  every change of a single byte.
\<close>

section \<open>Code outside the repository\<close>

record deps =
  SCHEMA_XML :: string
  crc32fast_hash :: "bytes \<Rightarrow> u32"
  zstd_encode_all :: "bytes \<Rightarrow> int \<Rightarrow> (bytes, string) result"
  zstd_decode_all :: "bytes \<Rightarrow> (bytes, string) result"
  zstd_decoder_new :: "bytes \<Rightarrow> (unit, string) result"
  zstd_read_to_end :: "bytes \<Rightarrow> (bytes, string) result"

text \<open>
  \<open>zstd::decode_all\<close> and the streaming decoder invert \<open>zstd::encode_all\<close>; none of them panics.
\<close>

definition zstd_inverse :: "deps \<Rightarrow> bool" where
  "zstd_inverse d \<longleftrightarrow> (\<forall>bs level.
     (\<forall>c. zstd_encode_all d bs level = Ok c \<longrightarrow>
        zstd_decode_all d c = Ok bs \<and> zstd_decoder_new d c = Ok () \<and> zstd_read_to_end d c = Ok bs)
     \<and> zstd_encode_all d bs level \<noteq> Panic)
   \<and> (\<forall>c. zstd_decode_all d c \<noteq> Panic \<and> zstd_decoder_new d c \<noteq> Panic \<and> zstd_read_to_end d c \<noteq> Panic)"

section \<open>The build script's CRC-32\<close>

definition crc_bit :: "u32 \<Rightarrow> u32" where
  "crc_bit crc = (if crc AND 1 \<noteq> 0 then drop_bit 1 crc XOR 0xEDB88320 else drop_bit 1 crc)"

definition crc_byte :: "u8 \<Rightarrow> u32 \<Rightarrow> u32" where
  "crc_byte b crc = (crc_bit ^^ 8) (crc XOR ucast b)"

definition crc32_hash :: "bytes \<Rightarrow> u32" where
  "crc32_hash data = NOT (fold crc_byte data 0xFFFFFFFF)"

definition SCHEMA_HASH :: "deps \<Rightarrow> u32" where
  "SCHEMA_HASH d = crc32_hash (as_bytes (SCHEMA_XML d))"

text \<open>\<open>crc32fast::hash\<close> computes the same CRC-32 (IEEE polynomial).\<close>

definition crc_agrees :: "deps \<Rightarrow> bool" where
  "crc_agrees d \<longleftrightarrow> crc32fast_hash d = crc32_hash"

section \<open>Schema blocks\<close>

datatype schema_error =
    ScCompressionFailed string
  | ScDecompressionFailed string
  | ScHashMismatch u32 u32
  | ScInvalidHeader string
  | ScBufferTooSmall usize usize

definition embedded_xml :: "deps \<Rightarrow> string" where
  "embedded_xml d = SCHEMA_XML d"

definition embedded_hash :: "deps \<Rightarrow> u32" where
  "embedded_hash d = SCHEMA_HASH d"

definition embedded_version :: "u8 \<times> u8" where
  "embedded_version = (1, 0)"

definition compute_hash :: "deps \<Rightarrow> bytes \<Rightarrow> u32" where
  "compute_hash d data = crc32fast_hash d data"

definition verify_hash :: "deps \<Rightarrow> bytes \<Rightarrow> u32 \<Rightarrow> (unit, schema_error) result" where
  "verify_hash d xml expected =
     (let actual = compute_hash d xml in
      if actual \<noteq> expected then Err (ScHashMismatch expected actual) else Ok ())"

definition create_block_with_level ::
    "deps \<Rightarrow> bool \<Rightarrow> int \<Rightarrow> (schema_block, schema_error) result" where
  "create_block_with_level d compress level =
     (let xml_bytes = as_bytes (SCHEMA_XML d);
          uncompressed_size = (of_nat (length xml_bytes) :: u32) in
      rbind (if compress
         then map_ok (\<lambda>c. (c, of_nat (length c) :: u32, compression_ZSTD))
                (map_err ScCompressionFailed (zstd_encode_all d xml_bytes level))
         else Ok (xml_bytes, uncompressed_size, compression_NONE))
      (\<lambda>(data, compressed_size, compression_type).
         Ok \<lparr>sb_header = schema_block_header_new uncompressed_size compressed_size compression_type,
             sb_data = data\<rparr>))"

definition create_block :: "deps \<Rightarrow> bool \<Rightarrow> (schema_block, schema_error) result" where
  "create_block d compress = create_block_with_level d compress 3"

definition parse_block ::
    "deps \<Rightarrow> bytes \<Rightarrow> (schema_block_header \<times> string, schema_error) result" where
  "parse_block d bs =
     (if length bs < SCHEMA_BLOCK_HEADER_SIZE
      then Err (ScBufferTooSmall SCHEMA_BLOCK_HEADER_SIZE (length bs))
      else
        let header = schema_block_header_from_bytes (take SCHEMA_BLOCK_HEADER_SIZE bs) in
        if sbh_magic header \<noteq> SCHEMA_MAGIC
        then Err (ScInvalidHeader (''Invalid magic: expected '' @ debug_bytes SCHEMA_MAGIC
               @ '', got '' @ debug_bytes (sbh_magic header)))
        else
          let total = SCHEMA_BLOCK_HEADER_SIZE + unat (sbh_xml_compressed header) in
          if length bs < total then Err (ScBufferTooSmall total (length bs))
          else
            rbind (subslice bs SCHEMA_BLOCK_HEADER_SIZE total) (\<lambda>payload.
            rbind (if sbh_compression header = compression_ZSTD
                   then map_err ScDecompressionFailed (zstd_decode_all d payload)
                   else Ok payload) (\<lambda>xml_bytes.
            if length xml_bytes \<noteq> unat (sbh_xml_uncompressed header)
            then Err (ScDecompressionFailed (''Size mismatch: expected ''
                   @ show_nat (unat (sbh_xml_uncompressed header))
                   @ '', got '' @ show_nat (length xml_bytes)))
            else
              rbind (ok_or (ScInvalidHeader (''Invalid UTF-8: '' @ utf8_error_display xml_bytes))
                       (from_utf8 xml_bytes))
                (\<lambda>xml_string. Ok (header, xml_string)))))"

definition serialize_block :: "schema_block \<Rightarrow> bytes" where
  "serialize_block b = schema_block_header_to_bytes (sb_header b) @ sb_data b"

text \<open>The clock reading of \<open>FileHeader::new\<close> is the argument \<open>now\<close>.\<close>

definition create_journal_header ::
    "deps \<Rightarrow> nat option \<Rightarrow> bool \<Rightarrow> (file_header \<times> schema_block, schema_error) result" where
  "create_journal_header d now compress =
     rbind (create_block d compress) (\<lambda>block.
       Ok (with_schema (file_header_new now) block (embedded_hash d), block))"

section \<open>The CRC detects any change of one byte\<close>

lemma crc_bit_top: "bit (crc_bit c) 31 \<longleftrightarrow> bit c 0"
  using bit_imp_le_length [of c 32]
  by (auto simp: crc_bit_def and_one_eq odd_iff_mod_2_eq_one bit_simps bit_0 even_iff_mod_2_eq_zero)

lemma xor_cancel_right: "(a :: u32) XOR c = b XOR c \<Longrightarrow> a = b"
  by (metis xor.assoc xor.right_neutral xor_self_eq)

lemma xor_cancel_left: "(c :: u32) XOR a = c XOR b \<Longrightarrow> a = b"
  by (metis xor.assoc xor.left_neutral xor_self_eq)

lemma crc_bit_inject:
  assumes "crc_bit a = crc_bit b"
  shows "a = b"
proof -
  have lsb: "bit a 0 = bit b 0" using assms by (metis crc_bit_top)
  then have odd: "(a AND 1 \<noteq> 0) = (b AND 1 \<noteq> 0)"
    by (simp add: and_one_eq bit_0 odd_iff_mod_2_eq_one)
  have "drop_bit 1 a = drop_bit 1 b"
    using assms odd by (auto simp: crc_bit_def split: if_splits dest: xor_cancel_right)
  then have "bit a (Suc n) = bit b (Suc n)" for n
    by (metis bit_drop_bit_eq comp_apply plus_1_eq_Suc)
  with lsb show ?thesis
    by (metis bit_eqI not0_implies_Suc)
qed

lemma crc_bits_inject: "(crc_bit ^^ n) a = (crc_bit ^^ n) b \<Longrightarrow> a = b"
  by (induction n) (auto dest: crc_bit_inject)

lemma crc_byte_inject: "crc_byte b c = crc_byte b c' \<Longrightarrow> c = c'"
  unfolding crc_byte_def by (blast dest: crc_bits_inject xor_cancel_right)

lemma crc_byte_inject_byte:
  assumes "crc_byte b c = crc_byte b' c"
  shows "b = b'"
proof -
  have "(ucast b :: u32) = ucast b'"
    using assms unfolding crc_byte_def by (blast dest: crc_bits_inject xor_cancel_left)
  then have "(ucast (ucast b :: u32) :: u8) = ucast (ucast b' :: u32)" by simp
  then show ?thesis by (simp add: ucast_up_ucast_id is_up)
qed

lemma crc_fold_inject: "fold crc_byte bs c = fold crc_byte bs c' \<Longrightarrow> c = c'"
  by (induction bs arbitrary: c c') (auto dest: crc_byte_inject)

lemma crc32_hash_single_byte:
  assumes "crc32_hash (xs @ b # ys) = crc32_hash (xs @ b' # ys)"
  shows "b = b'"
proof -
  let ?c = "fold crc_byte xs 0xFFFFFFFF"
  have "fold crc_byte ys (crc_byte b ?c) = fold crc_byte ys (crc_byte b' ?c)"
    using assms by (simp add: crc32_hash_def)
  then show ?thesis by (blast dest: crc_fold_inject crc_byte_inject_byte)
qed

section \<open>Round trip of the schema block\<close>

definition deps_sane :: "deps \<Rightarrow> bool" where
  "deps_sane d \<longleftrightarrow> zstd_inverse d \<and> crc_agrees d \<and> is_str (SCHEMA_XML d)
     \<and> length (SCHEMA_XML d) < 2 ^ 32"

lemma parse_serialize_block:
  assumes header: "sb_header b = schema_block_header_new u (of_nat (length (sb_data b))) c"
    and small: "length (sb_data b) < 2 ^ 32"
    and raw: "(if c = compression_ZSTD
               then map_err ScDecompressionFailed (zstd_decode_all d (sb_data b))
               else Ok (sb_data b)) = Ok (as_bytes xml)"
    and len: "u = of_nat (length xml)" "length xml < 2 ^ 32" and str: "is_str xml"
  shows "parse_block d (serialize_block b @ rest) = Ok (sb_header b, xml)"
proof -
  let ?h = "sb_header b"
  have L: "length (schema_block_header_to_bytes ?h) = 32"
    by (rule schema_block_header_length) (simp_all add: header schema_block_header_new_def)
  have H: "schema_block_header_from_bytes (schema_block_header_to_bytes ?h) = ?h"
    by (rule schema_block_header_roundtrip) (simp_all add: header schema_block_header_new_def)
  have "sbh_magic ?h = SCHEMA_MAGIC" "unat (sbh_xml_compressed ?h) = length (sb_data b)"
    "sbh_compression ?h = c" "unat (sbh_xml_uncompressed ?h) = length xml"
    using small len by (simp_all add: header schema_block_header_new_def unat_u32_small)
  with L H raw str show ?thesis
    by (simp add: parse_block_def serialize_block_def SCHEMA_BLOCK_HEADER_SIZE_def Let_def
        subslice_def)
qed

text \<open>
  The CRC-32 of \<open>build.rs\<close> (and of any library that computes the same function) detects
  every corruption confined to one byte, wherever it is and whatever the new value.
\<close>

theorem crc_detects_single_byte:
  assumes "i < length data" and "data ! i \<noteq> b"
  shows "crc32_hash (data[i := b]) \<noteq> crc32_hash data"
  using assms crc32_hash_single_byte [of "take i data" b "drop (Suc i) data" "data ! i"]
  by (metis id_take_nth_drop upd_conv_take_nth_drop)

lemma crc_detects_single_byte_witness: "crc32_hash [1, 7, 3] \<noteq> crc32_hash [1, 2, 3]"
  using crc_detects_single_byte [of 1 "[1, 2, 3]" 7] by simp

text \<open>
  A schema block created by the writer and serialised at the start of any byte string
  is parsed back to its header and the embedded XML, compressed or not, and the hash
  check of that XML against the embedded hash succeeds.
\<close>

theorem schema_block_roundtrip:
  assumes "deps_sane d" and "create_block d compress = Ok b" and "length (sb_data b) < 2 ^ 32"
  shows "parse_block d (serialize_block b @ rest) = Ok (sb_header b, embedded_xml d)
    \<and> verify_hash d (as_bytes (embedded_xml d)) (embedded_hash d) = Ok ()"
proof
  have sane: "zstd_inverse d" "is_str (SCHEMA_XML d)" "length (SCHEMA_XML d) < 2 ^ 32"
    "crc32fast_hash d = crc32_hash"
    using assms(1) by (simp_all add: deps_sane_def crc_agrees_def)
  let ?x = "as_bytes (SCHEMA_XML d)"
  show "parse_block d (serialize_block b @ rest) = Ok (sb_header b, embedded_xml d)"
  proof (cases compress)
    case True
    then obtain c where c: "zstd_encode_all d ?x 3 = Ok c"
      and b: "b = \<lparr>sb_header = schema_block_header_new (of_nat (length ?x)) (of_nat (length c))
                compression_ZSTD, sb_data = c\<rparr>"
      using assms(2)
      by (auto simp: create_block_def create_block_with_level_def Let_def rbind_Ok_iff map_ok_Ok_iff)
    have "zstd_decode_all d c = Ok ?x" using sane(1) c by (auto simp: zstd_inverse_def)
    then show ?thesis unfolding embedded_xml_def
      by (intro parse_serialize_block [where u = "of_nat (length ?x)" and c = compression_ZSTD])
        (use sane b assms(3) in simp_all)
  next
    case False
    then have b: "b = \<lparr>sb_header = schema_block_header_new (of_nat (length ?x)) (of_nat (length ?x))
                compression_NONE, sb_data = ?x\<rparr>"
      using assms(2) by (simp add: create_block_def create_block_with_level_def Let_def)
    then show ?thesis unfolding embedded_xml_def
      by (intro parse_serialize_block [where u = "of_nat (length ?x)" and c = compression_NONE])
        (use sane assms(3) in \<open>simp_all add: compression_NONE_def compression_ZSTD_def\<close>)
  qed
  show "verify_hash d (as_bytes (embedded_xml d)) (embedded_hash d) = Ok ()"
    using sane(4)
    by (simp add: verify_hash_def compute_hash_def embedded_xml_def embedded_hash_def SCHEMA_HASH_def)
qed

text \<open>A concrete environment, for the witnesses: a "compressor" that reverses its input.\<close>

definition example_deps :: deps where
  "example_deps = \<lparr>SCHEMA_XML = ''<sbe/>'', crc32fast_hash = crc32_hash,
     zstd_encode_all = (\<lambda>bs level. Ok (rev bs)), zstd_decode_all = (\<lambda>bs. Ok (rev bs)),
     zstd_decoder_new = (\<lambda>bs. Ok ()), zstd_read_to_end = (\<lambda>bs. Ok (rev bs))\<rparr>"

lemma example_deps_sane: "deps_sane example_deps"
proof -
  have "is_str ''<sbe/>''" by (rule is_str_ascii) simp
  then show ?thesis by (simp add: deps_sane_def example_deps_def zstd_inverse_def crc_agrees_def)
qed

lemma schema_block_roundtrip_witness:
  "parse_block example_deps
     (serialize_block \<lparr>sb_header = schema_block_header_new 6 6 compression_ZSTD,
        sb_data = rev (as_bytes ''<sbe/>'')\<rparr> @ [1, 2, 3])
   = Ok (schema_block_header_new 6 6 compression_ZSTD, ''<sbe/>'')"
  using schema_block_roundtrip [OF example_deps_sane, of True
      "\<lparr>sb_header = schema_block_header_new 6 6 compression_ZSTD,
        sb_data = rev (as_bytes ''<sbe/>'')\<rparr>" "[1, 2, 3]"]
  by (simp add: create_block_def create_block_with_level_def example_deps_def Let_def
      embedded_xml_def)

end
