(* ===== verification/Journal_Reader.thy ===== *)
theory Journal_Reader
  imports Journal_Schema
begin

text \<open>
  \<open>journal/reader.rs\<close>: opening a journal, iterating over its records with CRC checking and
  the optional skipping of corrupt ones, seeking, and reading the footer and the schema
  block. The memory map is the byte string \<open>jr_mmap\<close>; the sums of offsets taken from the
  file use \<open>uadd\<close>, so an overflow of a hostile header is \<open>Panic\<close>. The theorems cover
  arbitrary file contents (termination, no panic after \<open>open\<close>), the exact sequence of
  records returned for a well-formed image, and what a corrupted payload does.
\<close>

datatype reader_error =
    RdIo io_error
  | RdInvalidHeader header_error
  | RdCorruptRecord u64 u32 u32
  | RdUnexpectedEof usize usize
  | RdFileTooSmall usize usize
  | RdSchemaDecompress string
  | RdInvalidSchemaBlock header_error
  | RdSchemaHashMismatch u32 u32

record jrecord =
  jr_rec_header :: record_header
  jr_payload :: bytes
  jr_offset :: u64

definition jrecord_record_type :: "jrecord \<Rightarrow> record_type" where
  "jrecord_record_type r = record_type_from_u16 (rh_record_type (jr_rec_header r))"

record reader_config =
  rc_verify_crc :: bool
  rc_skip_corrupt :: bool
  rc_verify_schema_hash :: bool

definition reader_config_default :: reader_config where
  "reader_config_default =
     \<lparr>rc_verify_crc = True, rc_skip_corrupt = False, rc_verify_schema_hash = True\<rparr>"

definition reader_config_lenient :: reader_config where
  "reader_config_lenient =
     \<lparr>rc_verify_crc = True, rc_skip_corrupt = True, rc_verify_schema_hash = True\<rparr>"

definition reader_config_fast :: reader_config where
  "reader_config_fast =
     \<lparr>rc_verify_crc = False, rc_skip_corrupt = False, rc_verify_schema_hash = False\<rparr>"

definition reader_config_skip_schema_hash :: reader_config where
  "reader_config_skip_schema_hash =
     \<lparr>rc_verify_crc = True, rc_skip_corrupt = False, rc_verify_schema_hash = False\<rparr>"

record journal_reader =
  jr_mmap :: bytes
  jr_header :: file_header
  jr_schema_xml :: string
  jr_read_position :: usize
  jr_records_read :: u64
  jr_finished :: bool
  jr_config :: reader_config

section \<open>Opening\<close>

definition extract_schema :: "deps \<Rightarrow> bytes \<Rightarrow> usize \<Rightarrow> usize \<Rightarrow> (string, reader_error) result" where
  "extract_schema d mmap offset block_size =
     (if block_size < SCHEMA_BLOCK_HEADER_SIZE
      then Err (RdFileTooSmall SCHEMA_BLOCK_HEADER_SIZE block_size)
      else
        rbind (uadd offset SCHEMA_BLOCK_HEADER_SIZE) (\<lambda>data_offset.
        rbind (subslice mmap offset data_offset) (\<lambda>header_bytes.
        let h = schema_block_header_from_bytes header_bytes in
        rbind (map_err RdInvalidSchemaBlock (schema_block_header_validate h)) (\<lambda>_.
        let compressed_size = unat (sbh_xml_compressed h) in
        rbind (uadd data_offset compressed_size) (\<lambda>data_end.
        if length mmap < data_end then Err (RdFileTooSmall data_end (length mmap))
        else
          rbind (subslice mmap data_offset data_end) (\<lambda>data.
          rbind (if sbh_compression h = compression_NONE then Ok data
                 else if sbh_compression h = compression_ZSTD then
                   rbind (map_err (\<lambda>e. RdSchemaDecompress (''Failed to create decoder: '' @ e))
                            (zstd_decoder_new d data)) (\<lambda>_.
                     map_err (\<lambda>e. RdSchemaDecompress (''Failed to decompress: '' @ e))
                       (zstd_read_to_end d data))
                 else Err (RdSchemaDecompress (''Unknown compression type: ''
                        @ show_nat (unat (sbh_compression h))))) (\<lambda>xml_bytes.
          ok_or (RdSchemaDecompress (''Invalid UTF-8: '' @ utf8_error_display xml_bytes))
            (from_utf8 xml_bytes))))))))"

text \<open>The argument \<open>mapped\<close> is what opening and mapping the file gives.\<close>

definition open_with_config ::
    "deps \<Rightarrow> (bytes, io_error) result \<Rightarrow> reader_config \<Rightarrow> (journal_reader, reader_error) result" where
  "open_with_config d mapped config =
     rbind (map_err RdIo mapped) (\<lambda>mmap.
     if length mmap < FILE_HEADER_SIZE then Err (RdFileTooSmall FILE_HEADER_SIZE (length mmap))
     else
       let header = file_header_from_bytes (take FILE_HEADER_SIZE mmap) in
       rbind (map_err RdInvalidHeader (file_header_validate header)) (\<lambda>_.
       let schema_offset = unat (fh_schema_offset header);
           schema_size = unat (fh_schema_size header) in
       rbind (uadd schema_offset schema_size) (\<lambda>schema_end.
       if length mmap < schema_end then Err (RdFileTooSmall schema_end (length mmap))
       else
         rbind (extract_schema d mmap schema_offset schema_size) (\<lambda>schema_xml.
         let actual_hash = crc32fast_hash d (as_bytes schema_xml) in
         if rc_verify_schema_hash config \<and> actual_hash \<noteq> fh_schema_hash header
         then Err (RdSchemaHashMismatch (fh_schema_hash header) actual_hash)
         else Ok \<lparr>jr_mmap = mmap, jr_header = header, jr_schema_xml = schema_xml,
                  jr_read_position = unat (fh_first_record header), jr_records_read = 0,
                  jr_finished = False, jr_config = config\<rparr>))))"

definition reader_open :: "deps \<Rightarrow> (bytes, io_error) result \<Rightarrow> (journal_reader, reader_error) result" where
  "reader_open d mapped = open_with_config d mapped reader_config_default"

section \<open>Positioning\<close>

definition has_more :: "journal_reader \<Rightarrow> (bool, 'e) result" where
  "has_more r =
     (if jr_finished r then Ok False
      else rbind (uadd (jr_read_position r) RECORD_HEADER_SIZE) (\<lambda>e. Ok (e \<le> length (jr_mmap r))))"

definition rewind :: "journal_reader \<Rightarrow> journal_reader" where
  "rewind r = r\<lparr>jr_read_position := unat (fh_first_record (jr_header r)),
     jr_records_read := 0, jr_finished := False\<rparr>"

definition seek :: "journal_reader \<Rightarrow> usize \<Rightarrow> (journal_reader, reader_error) result" where
  "seek r offset =
     (let first_record = unat (fh_first_record (jr_header r)) in
      if offset < first_record
      then Err (RdIo (IoError IoInvalidInput None
             (''Cannot seek before first record (offset '' @ show_nat offset @ '' < first_record ''
              @ show_nat first_record @ '')'')))
      else if offset > length (jr_mmap r)
      then Err (RdIo (IoError IoInvalidInput None
             (''Cannot seek past end of file (offset '' @ show_nat offset @ '' > len ''
              @ show_nat (length (jr_mmap r)) @ '')'')))
      else Ok (r\<lparr>jr_read_position := offset, jr_finished := False\<rparr>))"

section \<open>Reading records\<close>

text \<open>
  One call of \<open>read_next\<close> up to its recursive call: \<open>Done\<close> is a return, \<open>Skip\<close> the state in
  which the function calls itself after a corrupt record.
\<close>

datatype read_outcome =
    ReadDone "(reader_error + jrecord) option" journal_reader
  | ReadSkip journal_reader

definition read_record_at ::
    "deps \<Rightarrow> journal_reader \<Rightarrow> usize \<Rightarrow> bytes \<Rightarrow> (read_outcome, unit) result" where
  "read_record_at d r header_end header_bytes =
     (let header = record_header_from_bytes header_bytes;
          payload_size = unat (rh_payload_size header);
          expected_crc = rh_crc32 header;
          payload_start = header_end;
          offset = (of_nat (jr_read_position r) :: u64) in
      rbind (uadd payload_start payload_size) (\<lambda>payload_end.
      if payload_end > length (jr_mmap r)
      then Ok (ReadDone (Some (Inl (RdUnexpectedEof payload_size (length (jr_mmap r) - payload_start))))
             (r\<lparr>jr_finished := True\<rparr>))
      else
        rbind (subslice (jr_mmap r) payload_start payload_end) (\<lambda>payload.
        let actual_crc = crc32fast_hash d payload;
            next = r\<lparr>jr_read_position := payload_end, jr_records_read := jr_records_read r + 1\<rparr> in
        if rc_verify_crc (jr_config r) \<and> actual_crc \<noteq> expected_crc
        then if rc_skip_corrupt (jr_config r) then Ok (ReadSkip next)
             else Ok (ReadDone (Some (Inl (RdCorruptRecord offset expected_crc actual_crc)))
                    (r\<lparr>jr_finished := True\<rparr>))
        else Ok (ReadDone (Some (Inr \<lparr>jr_rec_header = header, jr_payload = payload,
                      jr_offset = offset\<rparr>)) next))))"

definition read_step :: "deps \<Rightarrow> journal_reader \<Rightarrow> (read_outcome, unit) result" where
  "read_step d r =
     (if jr_finished r then Ok (ReadDone None r)
      else
        rbind (uadd (jr_read_position r) RECORD_HEADER_SIZE) (\<lambda>header_end.
        if header_end > length (jr_mmap r) then Ok (ReadDone None (r\<lparr>jr_finished := True\<rparr>))
        else
          rbind (if jr_read_position r + 8 \<le> length (jr_mmap r)
                 then map_ok (\<lambda>magic. magic = FOOTER_MAGIC)
                        (subslice (jr_mmap r) (jr_read_position r) (jr_read_position r + 8))
                 else Ok False) (\<lambda>at_footer.
          if at_footer then Ok (ReadDone None (r\<lparr>jr_finished := True\<rparr>))
          else if header_end > length (jr_mmap r)
          then Ok (ReadDone (Some (Inl (RdUnexpectedEof RECORD_HEADER_SIZE
                      (length (jr_mmap r) - jr_read_position r)))) (r\<lparr>jr_finished := True\<rparr>))
          else
            rbind (subslice (jr_mmap r) (jr_read_position r) header_end) (\<lambda>header_bytes.
            if list_all (\<lambda>b. b = 0) header_bytes
            then Ok (ReadDone None (r\<lparr>jr_finished := True\<rparr>))
            else read_record_at d r header_end header_bytes))))"

text \<open>Each skipped or returned record moves the position forward, inside the file.\<close>

definition same_file :: "journal_reader \<Rightarrow> journal_reader \<Rightarrow> bool" where
  "same_file r r' \<longleftrightarrow> jr_mmap r' = jr_mmap r \<and> jr_config r' = jr_config r \<and> jr_header r' = jr_header r"

definition moves_to :: "journal_reader \<Rightarrow> journal_reader \<Rightarrow> bool" where
  "moves_to r r' \<longleftrightarrow> jr_read_position r < jr_read_position r'
     \<and> jr_read_position r' \<le> length (jr_mmap r)"

fun step_ok :: "journal_reader \<Rightarrow> read_outcome \<Rightarrow> bool" where
  "step_ok r (ReadSkip r') \<longleftrightarrow> same_file r r' \<and> \<not> jr_finished r \<and> \<not> jr_finished r' \<and> moves_to r r'"
| "step_ok r (ReadDone None r') \<longleftrightarrow> same_file r r' \<and> jr_finished r'"
| "step_ok r (ReadDone (Some x) r') \<longleftrightarrow>
     same_file r r' \<and> \<not> jr_finished r \<and> (jr_finished r' \<or> moves_to r r')"

lemma same_file_refl [simp]: "same_file r r"
  by (simp add: same_file_def)

lemma same_file_trans: "same_file r r' \<Longrightarrow> same_file r' r'' \<Longrightarrow> same_file r r''"
  by (simp add: same_file_def)

lemma moves_to_trans:
  "moves_to r r' \<Longrightarrow> moves_to r' r'' \<Longrightarrow> same_file r r' \<Longrightarrow> moves_to r r''"
  by (auto simp: moves_to_def same_file_def)

lemma same_file_update [simp]:
  "same_file r (r\<lparr>jr_finished := b\<rparr>)"
  "same_file r (r\<lparr>jr_read_position := p, jr_records_read := n\<rparr>)"
  by (simp_all add: same_file_def)

lemma read_record_at_ok:
  assumes "read_record_at d r e hb = Ok s" and "jr_read_position r < e" and "\<not> jr_finished r"
  shows "step_ok r s"
proof -
  let ?e = "e + unat (rh_payload_size (record_header_from_bytes hb))"
  show ?thesis
  proof (cases "?e < usize_limit")
    case False
    with assms(1) show ?thesis by (simp add: read_record_at_def uadd_def)
  next
    case limit: True
    show ?thesis
    proof (cases "?e \<le> length (jr_mmap r)")
      case False
      with assms limit show ?thesis by (auto simp: read_record_at_def Let_def)
    next
      case True
      have "moves_to r (r\<lparr>jr_read_position := ?e, jr_records_read := n\<rparr>)" for n
        using True assms(2) by (simp add: moves_to_def)
      with True assms limit show ?thesis
        by (auto simp: read_record_at_def Let_def subslice_in_range split: if_splits)
    qed
  qed
qed

lemma read_step_ok:
  assumes "read_step d r = Ok s"
  shows "step_ok r s"
proof (cases "jr_finished r")
  case True
  with assms show ?thesis by (auto simp: read_step_def)
next
  case False
  let ?e = "jr_read_position r + 24"
  show ?thesis
  proof (cases "\<exists>hb. read_record_at d r ?e hb = Ok s")
    case True
    with False read_record_at_ok show ?thesis by fastforce
  next
    case no: False
    show ?thesis
    proof (cases "?e < usize_limit \<and> ?e \<le> length (jr_mmap r)")
      case False
      with assms \<open>\<not> jr_finished r\<close> show ?thesis
        by (auto simp: read_step_def RECORD_HEADER_SIZE_def uadd_def split: if_splits)
    next
      case True
      with assms no \<open>\<not> jr_finished r\<close> have "s = ReadDone None (r\<lparr>jr_finished := True\<rparr>)"
        by (auto simp: read_step_def RECORD_HEADER_SIZE_def subslice_in_range split: if_splits)
      then show ?thesis by simp
    qed
  qed
qed

function read_next ::
    "deps \<Rightarrow> journal_reader \<Rightarrow> ((reader_error + jrecord) option \<times> journal_reader, unit) result" where
  "read_next d r =
     (case read_step d r of
        Ok (ReadDone x r') \<Rightarrow> Ok (x, r')
      | Ok (ReadSkip r') \<Rightarrow> read_next d r'
      | Err e \<Rightarrow> Err e
      | Panic \<Rightarrow> Panic)"
  by auto
termination
proof (relation "measure (\<lambda>(d, r). length (jr_mmap r) - jr_read_position r)")
  fix d r x r'
  assume "read_step d r = Ok x" and "x = ReadSkip r'"
  with read_step_ok [of d r x]
  have "moves_to r r'" and "same_file r r'" by simp_all
  then show "((d, r'), d, r) \<in> measure (\<lambda>(d, r). length (jr_mmap r) - jr_read_position r)"
    by (auto simp: moves_to_def same_file_def)
qed simp

declare read_next.simps [simp del]

lemma read_next_ok:
  "read_next d r = Ok (x, r') \<Longrightarrow> step_ok r (ReadDone x r')"
proof (induction d r rule: read_next.induct)
  case (1 d r)
  show ?case
  proof (cases "read_step d r")
    case (Ok s)
    note ok = read_step_ok [OF Ok]
    show ?thesis
    proof (cases s)
      case (ReadDone y r1)
      with Ok "1.prems" have "x = y" "r' = r1" by (simp_all add: read_next.simps [of d r])
      with ReadDone ok show ?thesis by simp
    next
      case (ReadSkip r1)
      with Ok "1.prems" have "read_next d r1 = Ok (x, r')" by (simp add: read_next.simps [of d r])
      from "1.IH" [OF Ok ReadSkip this] ReadSkip ok show ?thesis
        by (cases x) (auto intro: same_file_trans moves_to_trans)
    qed
  qed (use "1.prems" in \<open>simp_all add: read_next.simps [of d r]\<close>)
qed

text \<open>The \<open>Iterator\<close>, collected to its end.\<close>

function read_all ::
    "deps \<Rightarrow> journal_reader \<Rightarrow> ((reader_error + jrecord) list \<times> journal_reader, unit) result" where
  "read_all d r =
     (case read_next d r of
        Ok (None, r') \<Rightarrow> Ok ([], r')
      | Ok (Some x, r') \<Rightarrow> rbind (read_all d r') (\<lambda>(xs, r''). Ok (x # xs, r''))
      | Err e \<Rightarrow> Err e
      | Panic \<Rightarrow> Panic)"
  by auto
termination
proof (relation "measure (\<lambda>(d, r). if jr_finished r then 0 else Suc (length (jr_mmap r) - jr_read_position r))")
  fix d r p r' q x
  assume "read_next d r = Ok p" and "(q, r') = p" and "q = Some x"
  with read_next_ok [of d r "Some x" r']
  have "same_file r r'" "\<not> jr_finished r" "jr_finished r' \<or> moves_to r r'" by auto
  then show "((d, r'), d, r) \<in> measure (\<lambda>(d, r). if jr_finished r then 0
      else Suc (length (jr_mmap r) - jr_read_position r))"
    by (auto simp: moves_to_def same_file_def)
qed simp

declare read_all.simps [simp del]

section \<open>Footer and schema block\<close>

definition footer_at :: "bytes \<Rightarrow> usize \<Rightarrow> (file_footer option, 'e) result" where
  "footer_at mmap pos =
     rbind (subslice mmap pos (pos + 8)) (\<lambda>magic.
     if magic = FOOTER_MAGIC
     then rbind (subslice mmap pos (pos + FILE_FOOTER_SIZE)) (\<lambda>bs.
            Ok (Some (file_footer_from_bytes bs)))
     else Ok None)"

definition read_footer :: "journal_reader \<Rightarrow> (file_footer option, 'e) result" where
  "read_footer r =
     (let len = length (jr_mmap r) in
      rbind (uadd (jr_read_position r) FILE_FOOTER_SIZE) (\<lambda>here_end.
      rbind (if here_end \<le> len then footer_at (jr_mmap r) (jr_read_position r) else Ok None) (\<lambda>here.
      case here of
        Some f \<Rightarrow> Ok (Some f)
      | None \<Rightarrow>
          if len \<ge> FILE_FOOTER_SIZE then footer_at (jr_mmap r) (len - FILE_FOOTER_SIZE)
          else Ok None)))"

definition read_schema_block :: "journal_reader \<Rightarrow> (schema_block, reader_error) result" where
  "read_schema_block r =
     (let offset = unat (fh_schema_offset (jr_header r));
          block_size = unat (fh_schema_size (jr_header r)) in
      if block_size < SCHEMA_BLOCK_HEADER_SIZE
      then Err (RdFileTooSmall SCHEMA_BLOCK_HEADER_SIZE block_size)
      else
        rbind (uadd offset SCHEMA_BLOCK_HEADER_SIZE) (\<lambda>data_offset.
        rbind (subslice (jr_mmap r) offset data_offset) (\<lambda>header_bytes.
        let h = schema_block_header_from_bytes header_bytes in
        rbind (map_err RdInvalidSchemaBlock (schema_block_header_validate h)) (\<lambda>_.
        rbind (uadd data_offset (unat (sbh_xml_compressed h))) (\<lambda>data_end.
        rbind (subslice (jr_mmap r) data_offset data_end) (\<lambda>data.
        Ok \<lparr>sb_header = h, sb_data = data\<rparr>))))))"

section \<open>Any file\<close>

text \<open>Offsets within a file of less than \<open>2^63\<close> bytes cannot overflow.\<close>

definition positions_sane :: "journal_reader \<Rightarrow> bool" where
  "positions_sane r \<longleftrightarrow> length (jr_mmap r) < 2 ^ 63 \<and> jr_read_position r < 2 ^ 63"

lemma read_record_at_total:
  assumes "e \<le> length (jr_mmap r)" and "length (jr_mmap r) < 2 ^ 63"
  shows "\<exists>s. read_record_at d r e hb = Ok s"
proof -
  have "unat (rh_payload_size (record_header_from_bytes hb)) < 2 ^ 32"
    using unsigned_less [of "rh_payload_size (record_header_from_bytes hb)", where 'a = nat] by simp
  then have "e + unat (rh_payload_size (record_header_from_bytes hb)) < usize_limit"
    using assms by (simp add: usize_limit_def)
  then show ?thesis by (auto simp: read_record_at_def Let_def subslice_in_range)
qed

lemma read_step_total:
  assumes "positions_sane r"
  shows "\<exists>s. read_step d r = Ok s"
proof (cases "jr_finished r \<or> length (jr_mmap r) < jr_read_position r + 24")
  case True
  then show ?thesis
    using assms by (auto simp: read_step_def RECORD_HEADER_SIZE_def uadd_def positions_sane_def
        usize_limit_def)
next
  case False
  then show ?thesis
    using assms read_record_at_total [of "jr_read_position r + 24" r d]
    by (simp add: read_step_def RECORD_HEADER_SIZE_def uadd_def positions_sane_def
        usize_limit_def subslice_in_range)
qed

lemma moves_to_sane: "positions_sane r \<Longrightarrow> same_file r r' \<Longrightarrow> moves_to r r' \<Longrightarrow> positions_sane r'"
  by (auto simp: positions_sane_def same_file_def moves_to_def)

lemma read_next_total: "positions_sane r \<Longrightarrow> \<exists>x r'. read_next d r = Ok (x, r')"
proof (induction d r rule: read_next.induct)
  case (1 d r)
  obtain s where s: "read_step d r = Ok s" using read_step_total [OF "1.prems"] by blast
  note ok = read_step_ok [OF s]
  show ?case
  proof (cases s)
    case (ReadDone x r')
    with s show ?thesis by (simp add: read_next.simps [of d r])
  next
    case (ReadSkip r')
    with ok "1.prems" have "positions_sane r'" by (auto intro: moves_to_sane)
    from "1.IH" [OF s ReadSkip this] s ReadSkip show ?thesis by (simp add: read_next.simps [of d r])
  qed
qed

text \<open>An error ends the iteration.\<close>

lemma read_record_at_error:
  "read_record_at d r e hb = Ok (ReadDone (Some (Inl err)) r') \<Longrightarrow> jr_finished r'"
  by (auto simp: read_record_at_def Let_def rbind_Ok_iff split: if_splits)

lemma read_step_error:
  "read_step d r = Ok (ReadDone (Some (Inl err)) r') \<Longrightarrow> jr_finished r'"
  by (auto simp: read_step_def rbind_Ok_iff split: if_splits dest: read_record_at_error)

lemma read_next_error: "read_next d r = Ok (Some (Inl err), r') \<Longrightarrow> jr_finished r'"
proof (induction d r rule: read_next.induct)
  case (1 d r)
  from "1.prems" show ?case
    by (subst (asm) read_next.simps)
      (auto split: result.splits read_outcome.splits dest: read_step_error "1.IH")
qed

lemma read_all_finished: "jr_finished r \<Longrightarrow> read_all d r = Ok ([], r)"
  by (subst read_all.simps, subst read_next.simps) (simp add: read_step_def)

lemma read_all_total:
  "jr_finished r \<or> positions_sane r \<Longrightarrow>
     \<exists>recs errs r'. read_all d r = Ok (map Inr recs @ map Inl errs, r')
       \<and> length errs \<le> 1 \<and> jr_finished r' \<and> same_file r r'"
proof (induction d r rule: read_all.induct)
  case (1 d r)
  show ?case
  proof (cases "jr_finished r")
    case True
    then show ?thesis
      by (intro exI [of _ "[]"] exI [of _ r]) (simp add: read_all_finished)
  next
    case False
    with "1.prems" have sane: "positions_sane r" by simp
    obtain x r1 where x: "read_next d r = Ok (x, r1)" using read_next_total [OF sane] by blast
    note ok = read_next_ok [OF x]
    show ?thesis
    proof (cases x)
      case None
      with ok x show ?thesis
        by (intro exI [of _ "[]"] exI [of _ r1]) (simp add: read_all.simps [of d r])
    next
      case (Some y)
      have same: "same_file r r1" and next1: "jr_finished r1 \<or> positions_sane r1"
        using ok Some sane moves_to_sane by auto
      from "1.IH" [OF x refl Some next1] obtain recs errs r' where
        IH: "read_all d r1 = Ok (map Inr recs @ map Inl errs, r')" "length errs \<le> 1"
          "jr_finished r'" "same_file r1 r'" by blast
      have all: "read_all d r = Ok (y # map Inr recs @ map Inl errs, r')"
        using x Some IH(1) by (simp add: read_all.simps [of d r])
      show ?thesis
      proof (cases y)
        case (Inr rec)
        with all IH same same_file_trans show ?thesis
          by (intro exI [of _ "rec # recs"] exI [of _ errs] exI [of _ r']) auto
      next
        case (Inl err)
        then have "jr_finished r1" using read_next_error x Some by blast
        then have "map Inr recs @ map Inl errs = []" "r' = r1"
          using IH(1) by (simp_all add: read_all_finished)
        with all Inl IH same show ?thesis
          by (intro exI [of _ "[]"] exI [of _ "[err]"] exI [of _ r']) auto
      qed
    qed
  qed
qed


text \<open>
  the offsets in the header are used before they are checked: a file of a valid magic
  and version whose schema offset and size overflow makes \<open>open\<close> panic instead of
  reporting an error.
\<close>

theorem open_trusts_schema_offset:
  "open_with_config d (Ok (file_header_to_bytes
     ((new_with_timestamp 0)\<lparr>fh_schema_offset := - 1, fh_schema_size := 1\<rparr>))) config = Panic"
proof -
  let ?h = "(new_with_timestamp 0)\<lparr>fh_schema_offset := - 1, fh_schema_size := 1\<rparr>"
  have wf: "file_header_wf ?h"
    by (simp add: file_header_wf_def new_with_timestamp_def new_with_session_start_def)
  have "file_header_validate ?h = Ok ()"
    by (simp add: file_header_validate_def new_with_timestamp_def new_with_session_start_def)
  moreover have "unat (- 1 :: u64) = 2 ^ 64 - 1" by (simp add: unsigned_minus_1_eq_mask mask_eq_exp_minus_1)
  ultimately show ?thesis
    using file_header_roundtrip [OF wf] file_header_length [OF wf]
    by (simp add: open_with_config_def format_sizes uadd_def usize_limit_def)
qed

section \<open>Well-formed images\<close>

fun record_image :: "record_header \<times> bytes \<Rightarrow> bytes" where
  "record_image (h, p) = record_header_to_bytes h @ p"

definition records_image :: "(record_header \<times> bytes) list \<Rightarrow> bytes" where
  "records_image rs = concat (map record_image rs)"

text \<open>A record header that the reader does not take for the end of the journal.\<close>

definition readable_header :: "record_header \<Rightarrow> bool" where
  "readable_header h \<longleftrightarrow> take 8 (record_header_to_bytes h) \<noteq> FOOTER_MAGIC
     \<and> record_header_to_bytes h \<noteq> replicate 24 0"

definition record_wf :: "record_header \<times> bytes \<Rightarrow> bool" where
  "record_wf r \<longleftrightarrow> unat (rh_payload_size (fst r)) = length (snd r) \<and> readable_header (fst r)"

definition crc_ok :: "deps \<Rightarrow> record_header \<times> bytes \<Rightarrow> bool" where
  "crc_ok d r \<longleftrightarrow> rh_crc32 (fst r) = crc32fast_hash d (snd r)"

lemma readable_by_timestamp:
  assumes "rh_timestamp h \<noteq> 0" and "to_le (rh_timestamp h) \<noteq> FOOTER_MAGIC"
  shows "readable_header h"
proof -
  have first: "take 8 (record_header_to_bytes h) = to_le (rh_timestamp h)"
    by (simp add: record_header_to_bytes_def)
  have "to_le (rh_timestamp h) \<noteq> to_le (0 :: i64)"
    using assms(1) to_le_inject [of "rh_timestamp h" 0] by auto
  then have "take 8 (record_header_to_bytes h) \<noteq> take 8 (replicate 24 0)"
    unfolding first by (simp add: to_le_0)
  then have "record_header_to_bytes h \<noteq> replicate 24 0" by metis
  then show ?thesis using first assms(2) by (simp add: readable_header_def)
qed

text \<open>What may follow the last record: the footer, unused zeros, or less than a header.\<close>

definition journal_end :: "bytes \<Rightarrow> bool" where
  "journal_end rest \<longleftrightarrow> length rest < 24 \<or> take 8 rest = FOOTER_MAGIC \<or> take 24 rest = replicate 24 0"

fun jrecords_at :: "nat \<Rightarrow> (record_header \<times> bytes) list \<Rightarrow> jrecord list" where
  "jrecords_at off [] = []"
| "jrecords_at off ((h, p) # rs) =
     \<lparr>jr_rec_header = h, jr_payload = p, jr_offset = of_nat off\<rparr> # jrecords_at (off + 24 + length p) rs"

lemma records_image_simps [simp]:
  "records_image [] = []"
  "records_image (r # rs) = record_image r @ records_image rs"
  "records_image (rs @ rs') = records_image rs @ records_image rs'"
  by (simp_all add: records_image_def)

lemma length_record_image [simp]: "length (record_image (h, p)) = 24 + length p"
  by simp

lemma list_all_zero: "list_all (\<lambda>b. b = 0) bs \<longleftrightarrow> bs = replicate (length bs) 0"
  by (induction bs) auto

lemma read_step_record:
  assumes "\<not> jr_finished r" and "jr_mmap r = pre @ record_image (h, p) @ rest"
    and "jr_read_position r = length pre" and "length (jr_mmap r) < 2 ^ 63"
    and "record_wf (h, p)"
  shows "read_step d r =
    (let next = r\<lparr>jr_read_position := length pre + 24 + length p,
           jr_records_read := jr_records_read r + 1\<rparr>;
         off = (of_nat (length pre) :: u64) in
     if rc_verify_crc (jr_config r) \<and> \<not> crc_ok d (h, p)
     then if rc_skip_corrupt (jr_config r) then Ok (ReadSkip next)
          else Ok (ReadDone (Some (Inl (RdCorruptRecord off (rh_crc32 h) (crc32fast_hash d p))))
                 (r\<lparr>jr_finished := True\<rparr>))
     else Ok (ReadDone (Some (Inr \<lparr>jr_rec_header = h, jr_payload = p, jr_offset = off\<rparr>)) next))"
proof -
  let ?hb = "record_header_to_bytes h"
  have sizes: "unat (rh_payload_size h) = length p" "take 8 ?hb \<noteq> FOOTER_MAGIC"
    "\<not> list_all (\<lambda>b. b = 0) ?hb"
    using assms(5) by (simp_all add: record_wf_def readable_header_def list_all_zero)
  have len: "length (jr_mmap r) = length pre + 24 + length p + length rest"
    using assms(2) by simp
  have limit: "length pre + 24 + length p < usize_limit"
    using len assms(4) by (simp add: usize_limit_def)
  have at: "subslice (jr_mmap r) (length pre) (length pre + 8) = (Ok (take 8 ?hb) :: (bytes, unit) result)"
    "subslice (jr_mmap r) (length pre) (length pre + 24) = (Ok ?hb :: (bytes, unit) result)"
    "subslice (jr_mmap r) (length pre + 24) (length pre + 24 + length p) = (Ok p :: (bytes, unit) result)"
    using assms(2) by (simp_all add: subslice_def)
  have "read_step d r = read_record_at d r (length pre + 24) ?hb"
    using assms(1,3) sizes len limit at
    by (simp add: read_step_def RECORD_HEADER_SIZE_def)
  then show ?thesis
    using assms(3) sizes len limit at
    by (simp add: read_record_at_def Let_def crc_ok_def eq_commute)
qed

lemma read_step_end:
  assumes "\<not> jr_finished r" and "jr_mmap r = pre @ rest" and "jr_read_position r = length pre"
    and "length (jr_mmap r) < 2 ^ 63" and "journal_end rest"
  shows "read_step d r = Ok (ReadDone None (r\<lparr>jr_finished := True\<rparr>))"
proof (cases "length rest < 24")
  case True
  with assms show ?thesis
    by (simp add: read_step_def RECORD_HEADER_SIZE_def uadd_def usize_limit_def)
next
  case False
  have "take 8 rest = FOOTER_MAGIC \<or> list_all (\<lambda>b. b = 0) (take 24 rest)"
    using assms(5) False by (auto simp: journal_end_def list_all_zero)
  with False assms(1-4) show ?thesis
    by (auto simp: read_step_def RECORD_HEADER_SIZE_def uadd_def usize_limit_def subslice_def)
qed

lemma read_next_record:
  assumes "\<not> jr_finished r" and "jr_mmap r = pre @ record_image (h, p) @ rest"
    and "jr_read_position r = length pre" and "length (jr_mmap r) < 2 ^ 63"
    and "record_wf (h, p)" and "crc_ok d (h, p) \<or> \<not> rc_verify_crc (jr_config r)"
  shows "read_next d r =
    Ok (Some (Inr \<lparr>jr_rec_header = h, jr_payload = p, jr_offset = of_nat (length pre)\<rparr>),
        r\<lparr>jr_read_position := length pre + 24 + length p, jr_records_read := jr_records_read r + 1\<rparr>)"
  using assms(6) by (subst read_next.simps, subst read_step_record [OF assms(1-5)]) (auto simp: Let_def)

text \<open>The reader returns exactly the records of the image, up to its end or an error.\<close>

lemma read_all_image_then:
  assumes "\<not> jr_finished r" and "jr_mmap r = pre @ records_image rs @ rest"
    and "jr_read_position r = length pre" and "length (jr_mmap r) < 2 ^ 63"
    and "\<forall>x \<in> set rs. record_wf x \<and> (crc_ok d x \<or> \<not> rc_verify_crc (jr_config r))"
  shows "\<exists>n. read_all d r = map_ok (\<lambda>(xs, r'). (map Inr (jrecords_at (length pre) rs) @ xs, r'))
     (read_all d (r\<lparr>jr_read_position := length pre + length (records_image rs), jr_records_read := n\<rparr>))"
  using assms
proof (induction rs arbitrary: pre r)
  case Nil
  have "r\<lparr>jr_read_position := length pre, jr_records_read := jr_records_read r\<rparr> = r"
    using Nil.prems(3) by simp
  then show ?case by (intro exI [of _ "jr_records_read r"]) simp
next
  case (Cons x rs)
  obtain h p where x: "x = (h, p)" by (cases x)
  let ?pre = "pre @ record_image (h, p)"
  let ?r = "r\<lparr>jr_read_position := length pre + 24 + length p, jr_records_read := jr_records_read r + 1\<rparr>"
  have "read_next d r =
      Ok (Some (Inr \<lparr>jr_rec_header = h, jr_payload = p, jr_offset = of_nat (length pre)\<rparr>), ?r)"
    by (rule read_next_record [where rest = "records_image rs @ rest"])
      (use Cons.prems x in \<open>simp_all add: del: record_image.simps\<close>)
  then have step: "read_all d r = rbind (read_all d ?r) (\<lambda>(xs, r'').
      Ok (Inr \<lparr>jr_rec_header = h, jr_payload = p, jr_offset = of_nat (length pre)\<rparr> # xs, r''))"
    by (subst read_all.simps) simp
  have "\<exists>n. read_all d ?r = map_ok (\<lambda>(xs, r'). (map Inr (jrecords_at (length ?pre) rs) @ xs, r'))
     (read_all d (?r\<lparr>jr_read_position := length ?pre + length (records_image rs), jr_records_read := n\<rparr>))"
    by (rule Cons.IH) (use Cons.prems x in simp_all)
  then obtain n where n: "read_all d ?r =
      map_ok (\<lambda>(xs, r'). (map Inr (jrecords_at (length ?pre) rs) @ xs, r'))
     (read_all d (r\<lparr>jr_read_position := length pre + length (records_image (x # rs)),
        jr_records_read := n\<rparr>))"
    by (auto simp: x add.assoc)
  have join: "rbind (map_ok f m) (\<lambda>(xs, r''). Ok (y # xs, r'')) = map_ok (\<lambda>z. (y # fst (f z), snd (f z))) m"
    for f :: "'m \<Rightarrow> 'x list \<times> 'y" and m :: "('m, 'e) result" and y
    by (cases m) (auto split: prod.splits)
  show ?case
    unfolding step n join by (intro exI [of _ n]) (simp add: x case_prod_unfold add.assoc)
qed

lemma read_all_image:
  assumes "\<not> jr_finished r" and "jr_mmap r = pre @ records_image rs @ rest"
    and "jr_read_position r = length pre" and "length (jr_mmap r) < 2 ^ 63"
    and "\<forall>x \<in> set rs. record_wf x \<and> (crc_ok d x \<or> \<not> rc_verify_crc (jr_config r))"
    and "journal_end rest"
  shows "\<exists>r'. read_all d r = Ok (map Inr (jrecords_at (length pre) rs), r')
    \<and> jr_read_position r' = length pre + length (records_image rs) \<and> same_file r r' \<and> jr_finished r'"
proof -
  obtain n where n: "read_all d r = map_ok (\<lambda>(xs, r'). (map Inr (jrecords_at (length pre) rs) @ xs, r'))
     (read_all d (r\<lparr>jr_read_position := length pre + length (records_image rs), jr_records_read := n\<rparr>))"
    using read_all_image_then [OF assms(1-5)] by blast
  let ?r = "r\<lparr>jr_read_position := length pre + length (records_image rs), jr_records_read := n\<rparr>"
  have "read_step d ?r = Ok (ReadDone None (?r\<lparr>jr_finished := True\<rparr>))"
    by (rule read_step_end [where pre = "pre @ records_image rs" and rest = rest])
      (use assms in simp_all)
  then have "read_all d ?r = Ok ([], ?r\<lparr>jr_finished := True\<rparr>)"
    by (subst read_all.simps, subst read_next.simps) simp
  then show ?thesis by (simp add: n same_file_def)
qed

lemma read_next_cases:
  assumes "read_step d r = Ok s"
  shows "read_next d r = (case s of ReadDone x r' \<Rightarrow> Ok (x, r') | ReadSkip r' \<Rightarrow> read_next d r')"
  using assms by (subst read_next.simps) (simp split: read_outcome.splits)

lemma read_all_skip:
  assumes "read_step d r = Ok (ReadSkip r')"
  shows "read_all d r = read_all d r'"
  using read_next_cases [OF assms]
  by (subst (1 2) read_all.simps) simp

lemma crc_wrong_after_change:
  assumes "crc_agrees d" and "crc_ok d (h, p)" and "i < length p" and "p ! i \<noteq> b"
  shows "\<not> crc_ok d (h, p[i := b])"
  using assms crc32_hash_single_byte [of "take i p" b "drop (Suc i) p" "p ! i"]
  by (metis crc_agrees_def crc_ok_def fst_conv snd_conv id_take_nth_drop upd_conv_take_nth_drop)


section \<open>Opening what the writer lays out\<close>

lemma create_block_cases:
  assumes "create_block d compress = Ok b"
  obtains (Raw) "sb_data b = as_bytes (SCHEMA_XML d)"
      "sb_header b = schema_block_header_new (of_nat (length (SCHEMA_XML d)))
         (of_nat (length (sb_data b))) compression_NONE"
    | (Zstd) "zstd_encode_all d (as_bytes (SCHEMA_XML d)) 3 = Ok (sb_data b)"
      "sb_header b = schema_block_header_new (of_nat (length (SCHEMA_XML d)))
         (of_nat (length (sb_data b))) compression_ZSTD"
  using assms
  by (cases compress)
    (auto simp: create_block_def create_block_with_level_def Let_def rbind_Ok_iff map_ok_Ok_iff)

lemma extract_schema_block:
  assumes "deps_sane d" and "create_block d compress = Ok b" and "length (sb_data b) < 2 ^ 32"
    and "length (pre @ serialize_block b @ rest) < 2 ^ 63"
  shows "extract_schema d (pre @ serialize_block b @ rest) (length pre) (total_size b)
    = Ok (SCHEMA_XML d)"
proof -
  let ?m = "pre @ serialize_block b @ rest" and ?h = "sb_header b"
  have wf: "length (sbh_magic ?h) = 8" "length (sbh_reserved ?h) = 15"
    "sbh_magic ?h = SCHEMA_MAGIC" "unat (sbh_xml_compressed ?h) = length (sb_data b)"
    using assms(2,3)
    by (auto elim!: create_block_cases simp: schema_block_header_new_def unat_u32_small)
  note L = schema_block_header_length [OF wf(1,2)] and R = schema_block_header_roundtrip [OF wf(1,2)]
  have len: "length ?m = length pre + 32 + length (sb_data b) + length rest"
    by (simp add: serialize_block_def L)
  have sub: "subslice ?m (length pre) (length pre + 32)
      = (Ok (schema_block_header_to_bytes ?h) :: (bytes, reader_error) result)"
    "subslice ?m (length pre + 32) (length pre + 32 + length (sb_data b))
      = (Ok (sb_data b) :: (bytes, reader_error) result)"
    by (simp_all add: subslice_def serialize_block_def L)
  have add: "length pre + 32 + length (sb_data b) < usize_limit"
    using len assms(4) by (simp add: usize_limit_def)
  have str: "is_str (SCHEMA_XML d)" using assms(1) by (simp add: deps_sane_def)
  from assms(2) show ?thesis
  proof (cases rule: create_block_cases)
    case Raw
    then have "sbh_compression ?h = compression_NONE" by (simp add: schema_block_header_new_def)
    then show ?thesis
      using sub add len R wf str Raw(1)
      by (simp add: extract_schema_def total_size_def format_sizes schema_block_header_validate_def
          Let_def del: append_assoc)
  next
    case Zstd
    then have "sbh_compression ?h = compression_ZSTD" by (simp add: schema_block_header_new_def)
    moreover have "zstd_decoder_new d (sb_data b) = Ok ()"
      "zstd_read_to_end d (sb_data b) = Ok (as_bytes (SCHEMA_XML d))"
      using assms(1) Zstd(1) by (auto simp: deps_sane_def zstd_inverse_def)
    ultimately show ?thesis
      using sub add len R wf str
      by (simp add: extract_schema_def total_size_def format_sizes schema_block_header_validate_def
          Let_def compression_NONE_def compression_ZSTD_def del: append_assoc)
  qed
qed

text \<open>The header fields that \<open>open\<close> relies on, as \<open>create_journal_header\<close> sets them.\<close>

definition header_for :: "deps \<Rightarrow> schema_block \<Rightarrow> file_header \<Rightarrow> bool" where
  "header_for d b h \<longleftrightarrow> file_header_wf h \<and> file_header_validate h = Ok ()
     \<and> unat (fh_schema_offset h) = FILE_HEADER_SIZE
     \<and> unat (fh_schema_size h) = total_size b
     \<and> unat (fh_first_record h) = FILE_HEADER_SIZE + total_size b
     \<and> fh_schema_hash h = embedded_hash d"

lemma header_for_update:
  "header_for d b h \<Longrightarrow> header_for d b (h\<lparr>fh_session_start := t\<rparr>)"
  "header_for d b h \<Longrightarrow> header_for d b (h\<lparr>fh_record_count := n, fh_session_end := e\<rparr>)"
  by (simp_all add: header_for_def file_header_wf_def file_header_validate_Ok_iff)

lemma create_journal_header_for:
  assumes "create_journal_header d now compress = Ok (h, b)" and "length (sb_data b) < 2 ^ 32"
  shows "header_for d b h \<and> create_block d compress = Ok b"
proof -
  have h: "h = with_schema (file_header_new now) b (embedded_hash d)" "create_block d compress = Ok b"
    using assms(1) by (auto simp: create_journal_header_def rbind_Ok_iff)
  have "total_size b < 2 ^ 33" using assms(2) by (simp add: total_size_def format_sizes)
  then have "unat (of_nat (total_size b) :: u64) = total_size b"
    and "unat (128 + of_nat (total_size b) :: u64) = 128 + total_size b"
    by (simp_all add: unat_of_nat take_bit_nat_eq_self unat_word_ariths)
  then show ?thesis
    using h by (simp add: header_for_def with_schema_def Let_def file_header_new_def
        file_header_wf_def new_with_session_start_def file_header_validate_def FILE_HEADER_SIZE_def)
qed

lemma open_created:
  assumes "deps_sane d" and "create_block d compress = Ok b" and "length (sb_data b) < 2 ^ 32"
    and "header_for d b h" and "length (file_header_to_bytes h @ serialize_block b @ rest) < 2 ^ 63"
  shows "open_with_config d (Ok (file_header_to_bytes h @ serialize_block b @ rest)) config =
    Ok \<lparr>jr_mmap = file_header_to_bytes h @ serialize_block b @ rest, jr_header = h,
        jr_schema_xml = SCHEMA_XML d, jr_read_position = FILE_HEADER_SIZE + total_size b,
        jr_records_read = 0, jr_finished = False, jr_config = config\<rparr>"
proof -
  have h: "file_header_wf h" "file_header_validate h = Ok ()" "unat (fh_schema_offset h) = 128"
    "unat (fh_schema_size h) = total_size b" "unat (fh_first_record h) = 128 + total_size b"
    "fh_schema_hash h = embedded_hash d"
    using assms(4) by (simp_all add: header_for_def format_sizes)
  let ?m = "file_header_to_bytes h @ serialize_block b @ rest"
  have lh: "length (file_header_to_bytes h) = 128" using h(1) by (rule file_header_length)
  have lb: "length (serialize_block b) = total_size b"
    using assms(2)
    by (auto elim!: create_block_cases simp: serialize_block_def total_size_def format_sizes
        schema_block_header_new_def schema_block_header_length)
  have ex: "extract_schema d ?m 128 (total_size b) = Ok (SCHEMA_XML d)"
    using extract_schema_block [OF assms(1-3), of "file_header_to_bytes h" rest] assms(5) lh by simp
  have "128 + total_size b < usize_limit" and "128 + total_size b \<le> length ?m"
    using assms(5) lh lb by (simp_all add: usize_limit_def)
  moreover have "take 128 ?m = file_header_to_bytes h" using lh by simp
  moreover have "crc32fast_hash d (as_bytes (SCHEMA_XML d)) = fh_schema_hash h"
    using assms(1) h(6) by (simp add: deps_sane_def crc_agrees_def embedded_hash_def SCHEMA_HASH_def)
  ultimately show ?thesis
    using h ex lh file_header_roundtrip [OF h(1)]
    by (simp add: open_with_config_def format_sizes Let_def del: append_assoc)
qed

section \<open>Witnesses\<close>

text \<open>A header and schema block that \<open>open\<close> accepts, and one record after it.\<close>

definition example_header :: file_header where
  "example_header = (new_with_timestamp 0)\<lparr>fh_schema_size := 38, fh_first_record := 166,
     fh_schema_hash := crc32_hash (as_bytes ''<sbe/>'')\<rparr>"

definition example_schema :: schema_block where
  "example_schema = \<lparr>sb_header = schema_block_header_new 6 6 compression_NONE,
     sb_data = as_bytes ''<sbe/>''\<rparr>"

definition example_record :: "record_header \<times> bytes" where
  "example_record = ((record_header_new 5 RtTrade 1 3 0)\<lparr>rh_crc32 := crc32_hash [1, 2, 3]\<rparr>, [1, 2, 3])"

lemma example_create: "create_block example_deps False = Ok example_schema"
  by (simp add: create_block_def create_block_with_level_def example_deps_def example_schema_def)

lemma example_header_for: "header_for example_deps example_schema example_header"
  by (simp add: header_for_def example_header_def example_schema_def new_with_timestamp_def
      new_with_session_start_def file_header_wf_def file_header_validate_def total_size_def
      format_sizes embedded_hash_def SCHEMA_HASH_def example_deps_def)

definition example_file :: bytes where
  "example_file = file_header_to_bytes example_header @ serialize_block example_schema"

lemma length_example_file: "length example_file = 166"
  using file_header_length [of example_header] example_header_for
  by (simp add: example_file_def header_for_def serialize_block_def example_schema_def
      schema_block_header_new_def schema_block_header_length)

lemma open_example:
  assumes "length rest < 2 ^ 62"
  shows "open_with_config example_deps (Ok (example_file @ rest)) config =
    Ok \<lparr>jr_mmap = example_file @ rest, jr_header = example_header, jr_schema_xml = ''<sbe/>'',
        jr_read_position = 166, jr_records_read = 0, jr_finished = False, jr_config = config\<rparr>"
proof -
  have "length (example_file @ rest) < 2 ^ 63" using assms by (simp add: length_example_file)
  then show ?thesis
    using open_created [OF example_deps_sane example_create _ example_header_for, of rest config]
    by (simp add: example_file_def example_schema_def total_size_def format_sizes example_deps_def)
qed


lemma example_record_wf: "record_wf example_record" "crc_ok example_deps example_record"
proof -
  have "to_le (5 :: i64) \<noteq> FOOTER_MAGIC" by (simp add: to_le_def FOOTER_MAGIC_def as_bytes_def)
  then show "record_wf example_record"
    by (simp add: record_wf_def example_record_def record_header_new_def readable_by_timestamp)
  show "crc_ok example_deps example_record"
    by (simp add: crc_ok_def example_record_def example_deps_def record_header_new_def)
qed


end
