(* ===== verification/Replay_Engine.thy ===== *)
theory Replay_Engine
  imports Replay_Scheduler Replay_Data_Source Journal_Reader
begin

text \<open>
  \<open>replay/engine.rs\<close>: the replay engine, generic over its data source. The first argument
  \<open>ops\<close> of an operation is the implementation of the source, the engine state holds the
  source's state. Counters are checked on overflow (\<open>Panic\<close>), a loop that may run forever
  (\<open>run_to_completion\<close>) is a \<open>partial_function\<close>.
\<close>

section \<open>State\<close>

datatype replay_mode = RM_Step | RM_RealTime | RM_FastForward u32 | RM_WarpSpeed

definition mode_is_warp_enabled :: "replay_mode \<Rightarrow> bool" where
  "mode_is_warp_enabled m \<longleftrightarrow> m = RM_WarpSpeed"

datatype replay_state = RS_Idle | RS_Playing | RS_Paused | RS_Completed

record step_result =
  st_processed :: bool
  st_frame :: "data_frame option"
  st_schedule :: "schedule_result option"
  st_completed :: bool

definition step_result_completed :: step_result where
  "step_result_completed =
     \<lparr>st_processed = False, st_frame = None, st_schedule = None, st_completed = True\<rparr>"

definition step_result_noop :: step_result where
  "step_result_noop =
     \<lparr>st_processed = False, st_frame = None, st_schedule = None, st_completed = False\<rparr>"

definition step_result_processed :: "data_frame \<Rightarrow> schedule_result \<Rightarrow> step_result" where
  "step_result_processed f r =
     \<lparr>st_processed = True, st_frame = Some f, st_schedule = Some r, st_completed = False\<rparr>"

record replay_stats =
  rs_events_processed :: u64
  rs_session_events :: u64
  rs_warp_count :: u64
  rs_total_warped_us :: i64

definition replay_stats_new :: replay_stats where
  "replay_stats_new =
     \<lparr>rs_events_processed = 0, rs_session_events = 0, rs_warp_count = 0, rs_total_warped_us = 0\<rparr>"

definition replay_stats_time_saved :: "replay_stats \<Rightarrow> nat" where
  "replay_stats_time_saved s = nat (max (sint (rs_total_warped_us s)) 0)"

record 's replay_engine =
  en_clock :: simulated_clock
  en_mode :: replay_mode
  en_state :: replay_state
  en_source :: 's
  en_scheduler :: scheduler
  en_stats :: replay_stats
  en_reader :: "journal_reader option"

section \<open>Construction and control\<close>

definition engine_with_start_time :: "'s \<Rightarrow> warp_config \<Rightarrow> timestamp \<Rightarrow> 's replay_engine" where
  "engine_with_start_time source config start =
     \<lparr>en_clock = clock_new start, en_mode = RM_Step, en_state = RS_Idle, en_source = source,
      en_scheduler = scheduler_new config, en_stats = replay_stats_new, en_reader = None\<rparr>"

definition engine_with_data_source :: "'s \<Rightarrow> warp_config \<Rightarrow> 's replay_engine" where
  "engine_with_data_source source config =
     \<lparr>en_clock = clock_at_epoch, en_mode = RM_Step, en_state = RS_Idle, en_source = source,
      en_scheduler = scheduler_new config, en_stats = replay_stats_new, en_reader = None\<rparr>"

definition engine_new :: "unit replay_engine" where
  "engine_new =
     \<lparr>en_clock = clock_at_epoch, en_mode = RM_Step, en_state = RS_Idle, en_source = (),
      en_scheduler = scheduler_new warp_config_default, en_stats = replay_stats_new,
      en_reader = None\<rparr>"

definition engine_stats :: "'s replay_engine \<Rightarrow> replay_stats" where
  "engine_stats e =
     (let ws = scheduler_stats (en_scheduler e) in
      \<lparr>rs_events_processed = rs_events_processed (en_stats e),
       rs_session_events = rs_session_events (en_stats e),
       rs_warp_count = ws_warp_count ws, rs_total_warped_us = ws_total_warped_us ws\<rparr>)"

text \<open>\<open>load\<close>; the error is rendered by the caller, here it is kept as a value.\<close>

definition engine_load ::
    "deps \<Rightarrow> (bytes, io_error) result \<Rightarrow> 's replay_engine \<Rightarrow> ('s replay_engine, reader_error) result" where
  "engine_load d mapped e =
     (case reader_open d mapped of
        Ok reader \<Rightarrow> Ok (e\<lparr>en_state := RS_Idle, en_reader := Some reader\<rparr>)
      | Err x \<Rightarrow> Err x
      | Panic \<Rightarrow> Panic)"

definition set_mode :: "replay_mode \<Rightarrow> 's replay_engine \<Rightarrow> 's replay_engine" where
  "set_mode mode e =
     (case mode of
        RM_WarpSpeed \<Rightarrow>
          e\<lparr>en_clock := clock_enable_warp (en_clock e), en_mode := mode,
            en_scheduler := set_max_warp_factor None (en_scheduler e)\<rparr>
      | RM_FastForward multiplier \<Rightarrow>
          e\<lparr>en_clock := clock_enable_warp (en_clock e), en_mode := mode,
            en_scheduler := set_max_warp_factor (Some (f64_of_int (uint multiplier))) (en_scheduler e)\<rparr>
      | _ \<Rightarrow>
          e\<lparr>en_clock := clock_disable_warp (en_clock e), en_mode := mode,
            en_scheduler := set_max_warp_factor None (en_scheduler e)\<rparr>)"

definition is_playing :: "'s replay_engine \<Rightarrow> bool" where
  "is_playing e \<longleftrightarrow> en_state e = RS_Playing"

definition is_completed :: "'s replay_engine \<Rightarrow> bool" where
  "is_completed e \<longleftrightarrow> en_state e = RS_Completed"

text \<open>The three tests of \<open>play\<close> are evaluated lazily; \<open>has_next\<close> may change the source.\<close>

definition play :: "'s source_ops \<Rightarrow> 's replay_engine \<Rightarrow> 's replay_engine" where
  "play ops e =
     (if en_reader e \<noteq> None \<or> ds_is_active ops (en_source e)
      then e\<lparr>en_clock := clock_resume (en_clock e), en_state := RS_Playing\<rparr>
      else
        let (more, source') = ds_has_next ops (en_source e); e1 = e\<lparr>en_source := source'\<rparr> in
        if more then e1\<lparr>en_clock := clock_resume (en_clock e1), en_state := RS_Playing\<rparr> else e1)"

definition pause :: "'s replay_engine \<Rightarrow> 's replay_engine" where
  "pause e =
     (if en_state e = RS_Playing
      then e\<lparr>en_clock := clock_pause (en_clock e), en_state := RS_Paused\<rparr> else e)"

definition toggle :: "'s source_ops \<Rightarrow> 's replay_engine \<Rightarrow> 's replay_engine" where
  "toggle ops e =
     (case en_state e of
        RS_Playing \<Rightarrow> pause e
      | RS_Paused \<Rightarrow> play ops e
      | RS_Idle \<Rightarrow> play ops e
      | RS_Completed \<Rightarrow> e)"

section \<open>Stepping\<close>

text \<open>Both counters of a processed event.\<close>

definition count_event :: "replay_stats \<Rightarrow> (replay_stats, 'e) result" where
  "count_event s =
     rbind (u64_incr (rs_events_processed s)) (\<lambda>n.
     rbind (u64_incr (rs_session_events s)) (\<lambda>m.
     Ok (s\<lparr>rs_events_processed := n, rs_session_events := m\<rparr>)))"

definition take_event ::
    "'s source_ops \<Rightarrow> schedule_result \<Rightarrow> 's replay_engine \<Rightarrow> (step_result \<times> 's replay_engine, 'e) result" where
  "take_event ops r e =
     (case ds_next ops (en_source e) of
        (Some frame, source') \<Rightarrow>
          map_ok (\<lambda>stats'. (step_result_processed frame r, e\<lparr>en_source := source', en_stats := stats'\<rparr>))
            (count_event (en_stats e))
      | (None, source') \<Rightarrow>
          Ok (step_result_completed, e\<lparr>en_state := RS_Completed, en_source := source'\<rparr>))"

definition step ::
    "'s source_ops \<Rightarrow> 's replay_engine \<Rightarrow> (step_result \<times> 's replay_engine, 'e) result" where
  "step ops e =
     (if en_state e \<noteq> RS_Playing \<and> en_state e \<noteq> RS_Paused then Ok (step_result_noop, e)
      else
        (case ds_peek_timestamp ops (en_source e) of
           (None, source') \<Rightarrow>
             Ok (step_result_completed, e\<lparr>en_state := RS_Completed, en_source := source'\<rparr>)
         | (Some next_ts, source') \<Rightarrow>
             rbind (schedule (en_clock e) next_ts (en_scheduler e)) (\<lambda>(r, clock', sched').
             take_event ops r
               (e\<lparr>en_clock := clock', en_source := source', en_scheduler := sched'\<rparr>))))"

text \<open>The loop of \<open>step_until_event\<close>, with the iterations left.\<close>

fun step_until_loop ::
    "'s source_ops \<Rightarrow> nat \<Rightarrow> 's replay_engine \<Rightarrow> (step_result \<times> 's replay_engine, 'e) result" where
  "step_until_loop ops 0 e = Ok (step_result_noop, e)"
| "step_until_loop ops (Suc k) e =
     (case ds_peek_timestamp ops (en_source e) of
        (None, source') \<Rightarrow>
          Ok (step_result_completed, e\<lparr>en_state := RS_Completed, en_source := source'\<rparr>)
      | (Some next_ts, source') \<Rightarrow>
          rbind (schedule (en_clock e) next_ts (en_scheduler e)) (\<lambda>(r, clock', sched').
          let e' = e\<lparr>en_clock := clock', en_source := source', en_scheduler := sched'\<rparr> in
          if sr_remaining_us r = 0 then take_event ops r e' else step_until_loop ops k e'))"

definition MAX_STEPS :: nat where
  "MAX_STEPS = 1000"

definition step_until_event ::
    "'s source_ops \<Rightarrow> 's replay_engine \<Rightarrow> (step_result \<times> 's replay_engine, 'e) result" where
  "step_until_event ops e = step_until_loop ops MAX_STEPS e"

text \<open>The loop of \<open>tick\<close>: the calls of \<open>step\<close> left, and the events processed.\<close>

fun tick_loop ::
    "'s source_ops \<Rightarrow> nat \<Rightarrow> usize \<Rightarrow> 's replay_engine \<Rightarrow> (usize \<times> 's replay_engine, 'e) result" where
  "tick_loop ops 0 processed e = Ok (processed, e)"
| "tick_loop ops (Suc k) processed e =
     rbind (step ops e) (\<lambda>(r, e').
     if st_completed r \<or> \<not> st_processed r then Ok (processed, e')
     else tick_loop ops k (processed + 1) e')"

definition tick ::
    "'s source_ops \<Rightarrow> usize \<Rightarrow> 's replay_engine \<Rightarrow> (usize \<times> 's replay_engine, 'e) result" where
  "tick ops max_events e =
     (if en_state e \<noteq> RS_Playing then Ok (0, e) else tick_loop ops max_events 0 e)"

partial_function (option) run_loop ::
    "'s source_ops \<Rightarrow> usize \<Rightarrow> 's replay_engine \<Rightarrow> (usize \<times> 's replay_engine, 'e) result option" where
  "run_loop ops tot e =
     (case tick ops 10000 e of
        Err x \<Rightarrow> Some (Err x)
      | Panic \<Rightarrow> Some Panic
      | Ok (count, e') \<Rightarrow>
          if count = 0 then Some (Ok (tot, e'))
          else if tot + count < usize_limit then run_loop ops (tot + count) e'
          else Some Panic)"

definition run_to_completion ::
    "'s source_ops \<Rightarrow> 's replay_engine \<Rightarrow> (usize \<times> 's replay_engine, 'e) result option" where
  "run_to_completion ops e = run_loop ops 0 e"

definition engine_reset :: "'s source_ops \<Rightarrow> 's replay_engine \<Rightarrow> 's replay_engine" where
  "engine_reset ops e =
     e\<lparr>en_clock := clock_resume (clock_set ts_epoch (en_clock e)),
       en_state := RS_Idle,
       en_source := ds_reset ops (en_source e),
       en_scheduler := scheduler_reset (en_scheduler e),
       en_stats := (en_stats e)\<lparr>rs_session_events := 0\<rparr>\<rparr>"

definition engine_position :: "'s source_ops \<Rightarrow> 's replay_engine \<Rightarrow> usize option" where
  "engine_position ops e = ds_position ops (en_source e)"

definition engine_frame_count :: "'s source_ops \<Rightarrow> 's replay_engine \<Rightarrow> usize option" where
  "engine_frame_count ops e = ds_frame_count ops (en_source e)"

text \<open>The division is by a positive double only.\<close>

definition f64_ratio :: "usize \<Rightarrow> usize \<Rightarrow> f64" where
  "f64_ratio a b =
     (case f64_of_int (int b) of FFin d \<Rightarrow> f64_div_pos (f64_of_int (int a)) d | x \<Rightarrow> FNaN)"

definition progress :: "'s source_ops \<Rightarrow> 's replay_engine \<Rightarrow> f64 option" where
  "progress ops e =
     (case ds_frame_count ops (en_source e) of
        None \<Rightarrow> None
      | Some tot \<Rightarrow>
          (case ds_position ops (en_source e) of
             None \<Rightarrow> None
           | Some pos \<Rightarrow> if tot = 0 then Some (FFin 1) else Some (f64_ratio pos tot)))"

section \<open>The control state\<close>

text \<open>What the operations of the public interface may do to an engine.\<close>

inductive engine_call :: "'s source_ops \<Rightarrow> 's replay_engine \<Rightarrow> 's replay_engine \<Rightarrow> bool" for ops where
  call_load: "engine_load d mapped e = Ok e' \<Longrightarrow> engine_call ops e e'"
| call_set_mode: "engine_call ops e (set_mode m e)"
| call_play: "engine_call ops e (play ops e)"
| call_pause: "engine_call ops e (pause e)"
| call_toggle: "engine_call ops e (toggle ops e)"
| call_step: "step ops e = (Ok (r, e') :: (_, unit) result) \<Longrightarrow> engine_call ops e e'"
| call_step_until: "step_until_event ops e = (Ok (r, e') :: (_, unit) result) \<Longrightarrow> engine_call ops e e'"
| call_tick: "tick ops n e = (Ok (k, e') :: (_, unit) result) \<Longrightarrow> engine_call ops e e'"
| call_reset: "engine_call ops e (engine_reset ops e)"

definition engine_ok :: "'s replay_engine \<Rightarrow> bool" where
  "engine_ok e \<longleftrightarrow>
     (en_state e = RS_Playing \<longrightarrow> \<not> clk_paused (en_clock e)) \<and>
     (en_state e = RS_Paused \<longrightarrow> clk_paused (en_clock e)) \<and>
     unat (rs_session_events (en_stats e)) \<le> unat (rs_events_processed (en_stats e))"

text \<open>Counting an event: the two counters, and nothing else of the engine.\<close>

definition can_count :: "nat \<Rightarrow> 's replay_engine \<Rightarrow> bool" where
  "can_count n e \<longleftrightarrow> unat (rs_events_processed (en_stats e)) + n < 2 ^ 64
     \<and> unat (rs_session_events (en_stats e)) + n < 2 ^ 64"

definition counted :: "nat \<Rightarrow> 's replay_engine \<Rightarrow> 's replay_engine \<Rightarrow> bool" where
  "counted n e e' \<longleftrightarrow> unat (rs_events_processed (en_stats e')) = unat (rs_events_processed (en_stats e)) + n
     \<and> unat (rs_session_events (en_stats e')) = unat (rs_session_events (en_stats e)) + n"

lemma count_event_Ok:
  "count_event s = Ok s' \<Longrightarrow>
     unat (rs_events_processed s') = unat (rs_events_processed s) + 1 \<and>
     unat (rs_session_events s') = unat (rs_session_events s) + 1"
  by (auto simp: count_event_def u64_incr_eq rbind_Ok_iff unat_u64_incr split: if_splits)

lemma count_event_total:
  "can_count (Suc n) e \<Longrightarrow> \<exists>s'. count_event (en_stats e) = Ok s'"
  by (auto simp: can_count_def count_event_def u64_incr_eq)

section \<open>Steps over a lawful source\<close>

definition running :: "'s replay_engine \<Rightarrow> bool" where
  "running e \<longleftrightarrow> en_state e = RS_Playing \<or> en_state e = RS_Paused"

text \<open>An instant far enough from the ends of \<open>i64\<close> for all differences to fit.\<close>

definition ts_safe :: "timestamp \<Rightarrow> bool" where
  "ts_safe t \<longleftrightarrow> \<bar>sint t\<bar> < 2 ^ 62"

definition later :: "timestamp \<Rightarrow> timestamp \<Rightarrow> timestamp" where
  "later a b = (if sint a < sint b then b else a)"

lemma sint_later: "sint (later a b) = max (sint a) (sint b)"
  by (simp add: later_def)

lemma ts_safe_gap: "ts_safe a \<Longrightarrow> ts_safe b \<Longrightarrow> in_i64 (sint a - sint b)"
  by (simp add: ts_safe_def in_i64_def abs_less_iff)

lemma ts_safe_later: "ts_safe a \<Longrightarrow> ts_safe b \<Longrightarrow> ts_safe (later a b)"
  by (simp add: later_def)

text \<open>An engine that jumps straight to the next event, with frames in range to come.\<close>

definition ready :: "('s \<Rightarrow> data_frame list) \<Rightarrow> nat \<Rightarrow> 's replay_engine \<Rightarrow> bool" where
  "ready pending n e \<longleftrightarrow>
     0 \<le> sint (wp_idle_threshold_us (sc_config (en_scheduler e))) \<and>
     sc_max_factor_scaled (en_scheduler e) = 0 \<and>
     ts_safe (clk_current (en_clock e)) \<and> (\<forall>f \<in> set (pending (en_source e)). ts_safe (df_timestamp f)) \<and>
     can_count n e"

context data_source
begin

lemma peek_ts: "fst (ds_peek_timestamp ops s) = map_option df_timestamp (opt_hd (pending s))"
  "pending (snd (ds_peek_timestamp ops s)) = pending s"
  by (simp_all add: peek_timestamp peek_frame peek_pending)

lemma step_empty:
  assumes "running e" and "pending (en_source e) = []"
  obtains src' where "step ops e
      = (Ok (step_result_completed, e\<lparr>en_state := RS_Completed, en_source := src'\<rparr>) :: (_, 'e) result)"
    and "pending src' = []"
  using assms peek_ts [of "en_source e"] that
  by (cases "ds_peek_timestamp ops (en_source e)") (auto simp: step_def running_def)

lemma take_event_frame:
  assumes "pending (en_source e) = f # fs" and "can_count (Suc n) e"
  obtains stats' src' where "take_event ops r e
      = (Ok (step_result_processed f r, e\<lparr>en_source := src', en_stats := stats'\<rparr>) :: (_, 'e) result)"
    and "pending src' = fs" and "count_event (en_stats e) = (Ok stats' :: (_, 'e) result)"
proof -
  obtain stats' where "count_event (en_stats e) = (Ok stats' :: (_, 'e) result)"
    using count_event_total [OF assms(2)] by blast
  with that assms(1) next_frame [of "en_source e"] next_pending [of "en_source e"] show ?thesis
    by (cases "ds_next ops (en_source e)") (auto simp: take_event_def)
qed

lemma step_frame:
  assumes "running e" and "ready pending (Suc n) e" and "pending (en_source e) = f # fs"
  obtains r e' where "step ops e = (Ok (step_result_processed f r, e') :: (_, 'e) result)"
    and "pending (en_source e') = fs" and "en_state e' = en_state e"
    and "clk_current (en_clock e') = later (clk_current (en_clock e)) (df_timestamp f)"
    and "counted 1 e e'" and "ready pending n e'"
proof -
  let ?s = "en_scheduler e" and ?c = "en_clock e"
  have rdy: "0 \<le> sint (wp_idle_threshold_us (sc_config ?s))" "sc_max_factor_scaled ?s = 0"
    "ts_safe (clk_current ?c)" "ts_safe (df_timestamp f)" "can_count (Suc n) e"
    "\<forall>x \<in> set fs. ts_safe (df_timestamp x)"
    using assms(2,3) by (simp_all add: ready_def)
  obtain r c' s' where sched: "schedule ?c (df_timestamp f) ?s = (Ok (r, c', s') :: (_, 'e) result)"
    "sint (clk_current c') + sint (sr_remaining_us r) = max (sint (clk_current ?c)) (sint (df_timestamp f))"
    "sr_remaining_us r = 0" "sc_config s' = sc_config ?s" "sc_max_factor_scaled s' = 0"
    using schedule_sound [OF rdy(1), of "df_timestamp f" ?c, where 'e = 'e] ts_safe_gap [OF rdy(4,3)] rdy(2)
    by auto
  obtain src where src: "ds_peek_timestamp ops (en_source e) = (Some (df_timestamp f), src)"
    "pending src = f # fs"
    using peek_ts [of "en_source e"] assms(3) by (cases "ds_peek_timestamp ops (en_source e)") auto
  let ?e1 = "e\<lparr>en_clock := c', en_source := src, en_scheduler := s'\<rparr>"
  obtain stats' src' where t: "take_event ops r ?e1
      = (Ok (step_result_processed f r, ?e1\<lparr>en_source := src', en_stats := stats'\<rparr>) :: (_, 'e) result)"
    "pending src' = fs" "count_event (en_stats e) = (Ok stats' :: (_, 'e) result)"
    using take_event_frame [of ?e1 f fs n r] src(2) rdy(5) by (auto simp: can_count_def)
  have clk: "clk_current c' = later (clk_current ?c) (df_timestamp f)"
    using sched(2,3) by (intro sint_eqI) (simp add: sint_later)
  show ?thesis
  proof (rule that)
    show "step ops e = (Ok (step_result_processed f r, ?e1\<lparr>en_source := src', en_stats := stats'\<rparr>) :: (_, 'e) result)"
      using assms(1) src(1) sched(1) t(1) by (auto simp: step_def running_def)
  qed (use count_event_Ok [OF t(3)] t(2) clk rdy sched ts_safe_later [OF rdy(3,4)] in
      \<open>simp_all add: counted_def ready_def can_count_def\<close>)
qed

lemma tick_loop_frames:
  assumes "en_state e = RS_Playing" and "ready pending (length (pending (en_source e)) + n) e"
  shows "\<exists>e'. tick_loop ops k p e = (Ok (p + min k (length (pending (en_source e))), e') :: (_, 'e) result)
    \<and> pending (en_source e') = drop k (pending (en_source e))
    \<and> clk_current (en_clock e')
        = foldl later (clk_current (en_clock e)) (map df_timestamp (take k (pending (en_source e))))
    \<and> counted (min k (length (pending (en_source e)))) e e'
    \<and> en_state e' = (if length (pending (en_source e)) < k then RS_Completed else RS_Playing)
    \<and> ready pending (length (pending (en_source e')) + n) e'"
  using assms
proof (induction k arbitrary: e p)
  case 0
  then show ?case by (simp add: counted_def)
next
  case (Suc k)
  have run: "running e" using Suc.prems(1) by (simp add: running_def)
  show ?case
  proof (cases "pending (en_source e)")
    case Nil
    obtain src' where "step ops e = (Ok (step_result_completed,
        e\<lparr>en_state := RS_Completed, en_source := src'\<rparr>) :: (_, 'e) result)" "pending src' = []"
      using step_empty [OF run Nil] .
    with Nil Suc.prems show ?thesis
      by (simp add: step_result_completed_def counted_def ready_def can_count_def)
  next
    case (Cons f fs)
    obtain r e1 where 1: "step ops e = (Ok (step_result_processed f r, e1) :: (_, 'e) result)"
      "pending (en_source e1) = fs" "en_state e1 = en_state e"
      "clk_current (en_clock e1) = later (clk_current (en_clock e)) (df_timestamp f)"
      "counted 1 e e1" "ready pending (length fs + n) e1"
      by (rule step_frame [OF run _ Cons, of "length fs + n", where 'e = 'e]) (use Suc.prems(2) Cons in simp_all)
    from Suc.IH [of e1 "p + 1"] 1(2,3,6) Suc.prems(1) obtain e' where
      "tick_loop ops k (p + 1) e1 = (Ok (p + 1 + min k (length fs), e') :: (_, 'e) result)"
      "pending (en_source e') = drop k fs"
      "clk_current (en_clock e') = foldl later (clk_current (en_clock e1)) (map df_timestamp (take k fs))"
      "counted (min k (length fs)) e1 e'"
      "en_state e' = (if length fs < k then RS_Completed else RS_Playing)"
      "ready pending (length (pending (en_source e')) + n) e'" by auto
    with 1 Cons show ?thesis
      by (auto simp: step_result_processed_def counted_def)
  qed
qed

lemma run_loop_frames:
  assumes "en_state e = RS_Playing" and "ready pending (length (pending (en_source e)) + n) e"
    and "tot + length (pending (en_source e)) < usize_limit"
  shows "\<exists>e'. run_loop ops tot e
      = Some (Ok (tot + length (pending (en_source e)), e') :: (_, 'e) result)
    \<and> pending (en_source e') = [] \<and> en_state e' = RS_Completed
    \<and> clk_current (en_clock e')
        = foldl later (clk_current (en_clock e)) (map df_timestamp (pending (en_source e)))
    \<and> counted (length (pending (en_source e))) e e'"
  using assms
proof (induction "length (pending (en_source e))" arbitrary: e tot rule: less_induct)
  case less
  let ?fs = "pending (en_source e)"
  obtain e1 where 1: "tick ops 10000 e = (Ok (min 10000 (length ?fs), e1) :: (_, 'e) result)"
    "pending (en_source e1) = drop 10000 ?fs"
    "clk_current (en_clock e1) = foldl later (clk_current (en_clock e)) (map df_timestamp (take 10000 ?fs))"
    "counted (min 10000 (length ?fs)) e e1"
    "en_state e1 = (if length ?fs < 10000 then RS_Completed else RS_Playing)"
    "ready pending (length (pending (en_source e1)) + n) e1"
    using tick_loop_frames [OF less.prems(1,2), of 10000 0, where 'e = 'e] less.prems(1)
    by (auto simp: tick_def)
  consider (none) "?fs = []" | (last) "?fs \<noteq> []" "length ?fs < 10000" | (more) "10000 \<le> length ?fs"
    by linarith
  then show ?case
  proof cases
    case none
    with 1 show ?thesis by (simp add: run_loop.simps [of ops tot e] counted_def)
  next
    case last
    then have "run_loop ops (tot + length ?fs) e1
        = Some (Ok (tot + length ?fs, e1) :: (_, 'e) result)"
      using 1(5) by (simp add: run_loop.simps [of ops _ e1] tick_def)
    with last 1 less.prems(3) show ?thesis
      by (simp add: run_loop.simps [of ops tot e])
  next
    case more
    then have "\<exists>e'. run_loop ops (tot + 10000) e1
        = Some (Ok (tot + 10000 + length (pending (en_source e1)), e') :: (_, 'e) result)
      \<and> pending (en_source e') = [] \<and> en_state e' = RS_Completed
      \<and> clk_current (en_clock e')
          = foldl later (clk_current (en_clock e1)) (map df_timestamp (pending (en_source e1)))
      \<and> counted (length (pending (en_source e1))) e1 e'"
      using 1(2,5,6) less.prems(3) by (intro less.hyps) auto
    moreover have "map df_timestamp ?fs = map df_timestamp (take 10000 ?fs) @ map df_timestamp (drop 10000 ?fs)"
      by (simp flip: map_append)
    ultimately show ?thesis using more 1 less.prems(3)
      by (auto simp: run_loop.simps [of ops tot e] counted_def simp del: take_map drop_map)
  qed
qed

end

text \<open>
  C9: \<open>run_to_completion\<close> on a playing engine without a warp factor returns, for every lawful
  source: it processes exactly the pending frames, ends \<open>Completed\<close> with the source drained,
  the clock at the latest of its start and all timestamps, and both counters advanced by the
  number of frames. Bounds: timestamps within \<open>2^62\<close> of 0, counters that do not overflow.
\<close>

theorem run_to_completion_processes_all:
  assumes "data_source ops pending" and "en_state e = RS_Playing"
    and "ready pending (length (pending (en_source e))) e"
  shows "\<exists>e'. run_to_completion ops e = Some (Ok (length (pending (en_source e)), e') :: (_, 'e) result)
    \<and> pending (en_source e') = [] \<and> en_state e' = RS_Completed
    \<and> clk_current (en_clock e')
        = foldl later (clk_current (en_clock e)) (map df_timestamp (pending (en_source e)))
    \<and> counted (length (pending (en_source e))) e e'"
proof -
  have "length (pending (en_source e)) < usize_limit"
    using assms(3) by (simp add: ready_def can_count_def usize_limit_def)
  with data_source.run_loop_frames [OF assms(1,2), of 0 0, where 'e = 'e] assms(3)
  show ?thesis by (simp add: run_to_completion_def)
qed

lemmas engine_start_defs = play_def engine_with_data_source_def buffered_ops_def buffered_new_def
  clock_resume_def clock_at_epoch_def clock_new_def ts_epoch_def scheduler_new_def scale_factor_def
  warp_config_default_def replay_stats_new_def

text \<open>A playing engine over a list of frames.\<close>

definition playing_frames :: "data_frame list \<Rightarrow> buffered_source replay_engine" where
  "playing_frames frames = play buffered_ops (engine_with_data_source (buffered_new frames) warp_config_default)"

lemma playing_frames:
  "buffered_pending (en_source (playing_frames fs)) = fs" "en_state (playing_frames fs) = RS_Playing"
  "clk_current (en_clock (playing_frames fs)) = 0"
  "ready buffered_pending n (playing_frames fs) \<longleftrightarrow> (\<forall>f \<in> set fs. ts_safe (df_timestamp f)) \<and> n < 2 ^ 64"
  by (simp_all add: playing_frames_def engine_start_defs ready_def buffered_pending_def ts_safe_def
      can_count_def)

theorem run_to_completion_processes_all_witness:
  "\<exists>e'. run_to_completion buffered_ops
      (playing_frames [data_frame_empty 70 ExBinance FT_Trade, data_frame_empty 50 ExBinance FT_Trade])
      = Some (Ok (2, e') :: (_, unit) result)
    \<and> en_state e' = RS_Completed \<and> clk_current (en_clock e') = 70"
proof -
  let ?fs = "[data_frame_empty 70 ExBinance FT_Trade, data_frame_empty 50 ExBinance FT_Trade]"
  have "ready buffered_pending (length (buffered_pending (en_source (playing_frames ?fs)))) (playing_frames ?fs)"
    by (simp add: playing_frames data_frame_empty_def ts_safe_def)
  from run_to_completion_processes_all [OF buffered_src.data_source_axioms playing_frames(2) this, where 'e = unit]
  show ?thesis by (auto simp: playing_frames later_def data_frame_empty_def)
qed

section \<open>Order of replay\<close>

text \<open>The frames that \<open>n\<close> calls of \<open>step\<close> return, each with the clock after its call.\<close>

fun step_trace ::
    "'s source_ops \<Rightarrow> nat \<Rightarrow> 's replay_engine \<Rightarrow> ((data_frame \<times> timestamp) list \<times> 's replay_engine, 'e) result" where
  "step_trace ops 0 e = Ok ([], e)"
| "step_trace ops (Suc n) e =
     rbind (step ops e) (\<lambda>(r, e').
     map_ok (\<lambda>(xs, e''). ((case st_frame r of None \<Rightarrow> [] | Some f \<Rightarrow> [(f, clock_now (en_clock e'))]) @ xs, e''))
       (step_trace ops n e'))"

text \<open>What it should be: every frame in order, at its own time or at the latest time before it.\<close>

fun replay_spec :: "timestamp \<Rightarrow> data_frame list \<Rightarrow> (data_frame \<times> timestamp) list" where
  "replay_spec c [] = []"
| "replay_spec c (f # fs) =
     (f, later c (df_timestamp f)) # replay_spec (later c (df_timestamp f)) fs"

lemma step_trace_done:
  "\<not> running e \<Longrightarrow> step_trace ops n e = Ok ([], e)"
  by (induction n) (auto simp: step_def running_def step_result_noop_def)

lemma replay_spec_sorted:
  "sorted_wrt (\<lambda>a b. sint a \<le> sint b) (c # map df_timestamp fs) \<Longrightarrow>
     replay_spec c fs = map (\<lambda>f. (f, df_timestamp f)) fs"
  by (induction fs arbitrary: c) (auto simp: later_def intro: sint_eqI)

context data_source
begin

lemma step_trace_frames:
  assumes "running e" and "ready pending (length (pending (en_source e))) e"
  shows "\<exists>e'. step_trace ops n e
      = (Ok (take n (replay_spec (clk_current (en_clock e)) (pending (en_source e))), e') :: (_, 'e) result)
    \<and> pending (en_source e') = drop n (pending (en_source e))
    \<and> (en_state e' = RS_Completed \<longleftrightarrow> length (pending (en_source e)) < n)"
  using assms
proof (induction n arbitrary: e)
  case 0
  then show ?case by (auto simp: running_def)
next
  case (Suc n)
  show ?case
  proof (cases "pending (en_source e)")
    case Nil
    obtain src' where "step ops e = (Ok (step_result_completed,
        e\<lparr>en_state := RS_Completed, en_source := src'\<rparr>) :: (_, 'e) result)" "pending src' = []"
      using step_empty [OF Suc.prems(1) Nil] .
    with Nil show ?thesis
      by (simp add: step_result_completed_def step_trace_done running_def)
  next
    case (Cons f fs)
    obtain r e1 where 1: "step ops e = (Ok (step_result_processed f r, e1) :: (_, 'e) result)"
      "pending (en_source e1) = fs" "en_state e1 = en_state e"
      "clk_current (en_clock e1) = later (clk_current (en_clock e)) (df_timestamp f)"
      "ready pending (length fs) e1"
      by (rule step_frame [OF Suc.prems(1) _ Cons, of "length fs", where 'e = 'e]) (use Suc.prems(2) Cons in simp_all)
    moreover have "running e1" using Suc.prems(1) 1(3) by (simp add: running_def)
    ultimately show ?thesis using Suc.IH [of e1] Cons
      by (auto simp: step_result_processed_def clock_now_def)
  qed
qed

end

text \<open>
  C37: Without a warp factor \<open>step\<close> returns the pending frames of any lawful source in order,
  none lost or repeated; the clock stands at the frame's timestamp, or at the latest earlier
  time where timestamps go back, and the engine completes on the first call after the last
  frame.
\<close>

theorem engine_replays_in_order:
  assumes "data_source ops pending" and "running e"
    and "ready pending (length (pending (en_source e))) e"
  shows "\<exists>e'. step_trace ops n e
      = (Ok (take n (replay_spec (clk_current (en_clock e)) (pending (en_source e))), e') :: (_, 'e) result)
    \<and> pending (en_source e') = drop n (pending (en_source e))
    \<and> (en_state e' = RS_Completed \<longleftrightarrow> length (pending (en_source e)) < n)"
  by (rule data_source.step_trace_frames [OF assms])

theorem engine_replays_in_order_witness:
  "\<exists>e'. step_trace buffered_ops 3
      (playing_frames [data_frame_empty 70 ExBinance FT_Trade, data_frame_empty 50 ExBinance FT_Trade])
      = (Ok ([(data_frame_empty 70 ExBinance FT_Trade, 70), (data_frame_empty 50 ExBinance FT_Trade, 70)], e')
         :: (_, unit) result) \<and> en_state e' = RS_Completed"
proof -
  let ?fs = "[data_frame_empty 70 ExBinance FT_Trade, data_frame_empty 50 ExBinance FT_Trade]"
  have "ready buffered_pending (length (buffered_pending (en_source (playing_frames ?fs)))) (playing_frames ?fs)"
    "running (playing_frames ?fs)"
    by (simp_all add: playing_frames data_frame_empty_def ts_safe_def running_def)
  from engine_replays_in_order [OF buffered_src.data_source_axioms this(2,1), of 3, where 'e = unit]
  show ?thesis by (auto simp: playing_frames later_def data_frame_empty_def)
qed

text \<open>
  C38: A journal source and a live source that deliver the same frames make the engine return
  the same frames at the same clock times, step for step.
\<close>

theorem sources_equivalent:
  assumes "running e" and "running e'" and "clk_current (en_clock e) = clk_current (en_clock e')"
    and "journal_pending (en_source e) = live_pending (en_source e')"
    and "ready journal_pending (length (journal_pending (en_source e))) e"
    and "ready live_pending (length (live_pending (en_source e'))) e'"
  shows "map_ok fst (step_trace journal_ops n e) = (map_ok fst (step_trace live_ops n e') :: (_, 'e) result)"
proof -
  obtain e1 where "step_trace journal_ops n e
      = (Ok (take n (replay_spec (clk_current (en_clock e)) (journal_pending (en_source e))), e1) :: (_, 'e) result)"
    using journal_src.step_trace_frames [OF assms(1,5), of n, where 'e = 'e] by blast
  moreover obtain e2 where "step_trace live_ops n e'
      = (Ok (take n (replay_spec (clk_current (en_clock e')) (live_pending (en_source e'))), e2) :: (_, 'e) result)"
    using live_src.step_trace_frames [OF assms(2,6), of n, where 'e = 'e] by blast
  ultimately show ?thesis by (simp add: assms(3,4))
qed

theorem sources_equivalent_witness:
  "map_ok fst (step_trace journal_ops 2 (play journal_ops (engine_with_data_source
       (journal_source_single (data_frame_empty 70 ExBinance FT_Trade)) warp_config_default)))
   = (map_ok fst (step_trace live_ops 2 (play live_ops (engine_with_data_source
       (live_new [data_frame_empty 70 ExBinance FT_Trade] True) warp_config_default))) :: (_, unit) result)"
  by (rule sources_equivalent) (simp_all add: running_def ready_def can_count_def ts_safe_def
      engine_start_defs journal_ops_def live_ops_def journal_source_single_def
      journal_source_from_frames_def live_new_def journal_pending_def live_pending_def data_frame_empty_def)

section \<open>Bounded fast forward\<close>

text \<open>An engine whose jumps are bounded by a multiplier of the threshold.\<close>

definition jumps :: "u32 \<Rightarrow> int \<Rightarrow> 's replay_engine \<Rightarrow> bool" where
  "jumps m t e \<longleftrightarrow> 0 < m \<and> 0 < t \<and> t * uint m \<le> 2 ^ 53 \<and> clk_warp_enabled (en_clock e) \<and>
     sint (wp_idle_threshold_us (sc_config (en_scheduler e))) = t \<and>
     uint (sc_max_factor_scaled (en_scheduler e)) = uint m * 1000"

lemma jumps_schedule:
  assumes "jumps m t e" and "in_i64 (sint ts - sint (clk_current (en_clock e)))"
    and "gap = max 0 (sint ts - sint (clk_current (en_clock e)))"
  obtains r c' s' where "schedule (en_clock e) ts (en_scheduler e) = (Ok (r, c', s') :: (_, 'e) result)"
    and "sint (clk_current c') = sint (clk_current (en_clock e)) + min gap (t * uint m)"
    and "sr_remaining_us r = 0 \<longleftrightarrow> gap \<le> t * uint m"
    and "\<And>src. jumps m t (e\<lparr>en_clock := c', en_source := src, en_scheduler := s'\<rparr>)"
proof -
  have m: "uint (sc_max_factor_scaled (en_scheduler e)) = uint m * 1000" "0 < m"
    "t = sint (wp_idle_threshold_us (sc_config (en_scheduler e)))" "0 \<le> t" "t * uint m \<le> 2 ^ 53"
    "clk_warp_enabled (en_clock e)" using assms(1) by (simp_all add: jumps_def)
  obtain r c' s' where 1: "schedule (en_clock e) ts (en_scheduler e) = (Ok (r, c', s') :: (_, 'e) result)"
    "sint (clk_current c') = sint (clk_current (en_clock e)) + min gap (t * uint m)"
    "sint (sr_remaining_us r) = gap - min gap (t * uint m)"
    using schedule_multiplier [OF m(1-5) assms(2) m(6) assms(3), where 'e = 'e] by blast
  have "c' = (en_clock e)\<lparr>clk_current := clk_current c'\<rparr> \<and> sc_config s' = sc_config (en_scheduler e) \<and>
      sc_max_factor_scaled s' = sc_max_factor_scaled (en_scheduler e)"
    using schedule_sound [of "en_scheduler e" ts "en_clock e", where 'e = 'e] m(3,4) assms(2) 1(1) by simp
  then have "clk_warp_enabled c' = clk_warp_enabled (en_clock e)" "sc_config s' = sc_config (en_scheduler e)"
    "sc_max_factor_scaled s' = sc_max_factor_scaled (en_scheduler e)" by (metis simulated_clock.ext_inject
      simulated_clock.surjective simulated_clock.update_convs(1))+
  then have "jumps m t (e\<lparr>en_clock := c', en_source := src, en_scheduler := s'\<rparr>)" for src
    using assms(1) by (simp add: jumps_def)
  moreover have "sr_remaining_us r = 0 \<longleftrightarrow> gap \<le> t * uint m"
    using 1(3) sint_eqI [of "sr_remaining_us r" 0] by auto
  ultimately show ?thesis using that 1(1,2) by blast
qed

context data_source
begin

lemma step_until_jumps:
  assumes "jumps m t e" and "pending (en_source e) = f # fs" and "can_count 1 e"
    and "ts_safe (df_timestamp f)" and "ts_safe (clk_current (en_clock e))"
    and "gap = max 0 (sint (df_timestamp f) - sint (clk_current (en_clock e)))"
  shows "\<exists>x e'. step_until_loop ops k e = (Ok (x, e') :: (_, 'e) result) \<and>
    (if 0 < k \<and> gap \<le> int k * (t * uint m)
     then st_frame x = Some f \<and> pending (en_source e') = fs \<and>
       clk_current (en_clock e') = later (clk_current (en_clock e)) (df_timestamp f)
     else x = step_result_noop \<and> pending (en_source e') = f # fs \<and>
       sint (clk_current (en_clock e')) = sint (clk_current (en_clock e)) + int k * (t * uint m))"
  using assms
proof (induction k arbitrary: e gap)
  case 0
  then show ?case by simp
next
  case (Suc k)
  let ?J = "t * uint m"
  have J: "0 < ?J" using Suc.prems(1) uint_u32_pos by (simp add: jumps_def)
  have g: "in_i64 (sint (df_timestamp f) - sint (clk_current (en_clock e)))"
    by (rule ts_safe_gap [OF Suc.prems(4,5)])
  obtain r c' s' where sched: "schedule (en_clock e) (df_timestamp f) (en_scheduler e)
      = (Ok (r, c', s') :: (_, 'e) result)"
    "sint (clk_current c') = sint (clk_current (en_clock e)) + min gap ?J"
    "sr_remaining_us r = 0 \<longleftrightarrow> gap \<le> ?J"
    "\<And>src. jumps m t (e\<lparr>en_clock := c', en_source := src, en_scheduler := s'\<rparr>)"
    using jumps_schedule [OF Suc.prems(1) g Suc.prems(6), where 'e = 'e] by blast
  obtain src where src: "ds_peek_timestamp ops (en_source e) = (Some (df_timestamp f), src)"
    "pending src = f # fs"
    using peek_ts [of "en_source e"] Suc.prems(2) by (cases "ds_peek_timestamp ops (en_source e)") auto
  let ?e1 = "e\<lparr>en_clock := c', en_source := src, en_scheduler := s'\<rparr>"
  show ?case
  proof (cases "gap \<le> ?J")
    case True
    obtain stats' src' where t: "take_event ops r ?e1
        = (Ok (step_result_processed f r, ?e1\<lparr>en_source := src', en_stats := stats'\<rparr>) :: (_, 'e) result)"
      "pending src' = fs"
      by (rule take_event_frame [of ?e1 f fs 0 r, where 'e = 'e])
        (use src(2) Suc.prems(3) in \<open>simp_all add: can_count_def\<close>)
    have "clk_current c' = later (clk_current (en_clock e)) (df_timestamp f)"
      using sched(2) True Suc.prems(6) by (intro sint_eqI) (auto simp: sint_later max_def)
    moreover have "gap \<le> int (Suc k) * ?J"
    proof -
      have "1 * ?J \<le> int (Suc k) * ?J" using J by (intro mult_right_mono) simp_all
      with True show ?thesis by simp
    qed
    ultimately show ?thesis using True src(1) sched(1,3) t
      by (simp add: step_result_processed_def)
  next
    case False
    let ?gap' = "max 0 (sint (df_timestamp f) - sint (clk_current c'))"
    have gap': "?gap' = gap - ?J" "sint (clk_current c') = sint (clk_current (en_clock e)) + ?J"
      using sched(2) False Suc.prems(6) J by auto
    have "ts_safe (clk_current c')"
      using gap'(2) False Suc.prems(4,5,6) J by (auto simp: ts_safe_def max_def split: if_splits)
    then obtain x e' where x: "step_until_loop ops k ?e1 = (Ok (x, e') :: (_, 'e) result)"
      "if 0 < k \<and> ?gap' \<le> int k * ?J
       then st_frame x = Some f \<and> pending (en_source e') = fs \<and>
         clk_current (en_clock e') = later (clk_current c') (df_timestamp f)
       else x = step_result_noop \<and> pending (en_source e') = f # fs \<and>
         sint (clk_current (en_clock e')) = sint (clk_current c') + int k * ?J"
      using Suc.IH [OF sched(4), of src ?gap'] src(2) Suc.prems(3,4) by (auto simp: can_count_def)
    have "0 < k \<and> ?gap' \<le> int k * ?J \<longleftrightarrow> gap \<le> int (Suc k) * ?J"
      using gap'(1) False J by (cases "k = 0") (auto simp: distrib_right)
    moreover have "later (clk_current c') (df_timestamp f) = later (clk_current (en_clock e)) (df_timestamp f)"
      using gap'(2) False Suc.prems(6) J by (intro sint_eqI) (auto simp: sint_later max_def split: if_splits)
    ultimately show ?thesis using x src(1) sched(1,3) False gap'(2)
      by (auto simp: distrib_right split: if_splits)
  qed
qed

end

text \<open>
  With jumps bounded to \<open>J = t * m\<close> microseconds \<open>step_until_event\<close> returns the next frame
  exactly when it is at most \<open>1000 * J\<close> away, with the clock at the frame; otherwise it returns
  a no-op, the frame still pending and the clock advanced by \<open>1000 * J\<close>.
\<close>

theorem step_until_event_exact:
  assumes "data_source ops pending" and "jumps m t e" and "pending (en_source e) = f # fs"
    and "can_count 1 e" and "ts_safe (df_timestamp f)" and "ts_safe (clk_current (en_clock e))"
  shows "\<exists>x e'. step_until_event ops e = (Ok (x, e') :: (_, 'e) result) \<and>
    (if sint (df_timestamp f) - sint (clk_current (en_clock e)) \<le> 1000 * (t * uint m)
     then st_frame x = Some f \<and> pending (en_source e') = fs \<and>
       clk_current (en_clock e') = later (clk_current (en_clock e)) (df_timestamp f)
     else x = step_result_noop \<and> pending (en_source e') = f # fs \<and>
       sint (clk_current (en_clock e')) = sint (clk_current (en_clock e)) + 1000 * (t * uint m))"
proof -
  have "0 < t * uint m" using assms(2) uint_u32_pos by (simp add: jumps_def)
  then have "max 0 (sint (df_timestamp f) - sint (clk_current (en_clock e))) \<le> 1000 * (t * uint m)
      \<longleftrightarrow> sint (df_timestamp f) - sint (clk_current (en_clock e)) \<le> 1000 * (t * uint m)" by auto
  moreover obtain x e' where "step_until_loop ops 1000 e = (Ok (x, e') :: (_, 'e) result)"
    "if 0 < (1000 :: nat) \<and> max 0 (sint (df_timestamp f) - sint (clk_current (en_clock e))) \<le> int 1000 * (t * uint m)
     then st_frame x = Some f \<and> pending (en_source e') = fs \<and>
       clk_current (en_clock e') = later (clk_current (en_clock e)) (df_timestamp f)
     else x = step_result_noop \<and> pending (en_source e') = f # fs \<and>
       sint (clk_current (en_clock e')) = sint (clk_current (en_clock e)) + int 1000 * (t * uint m)"
    using data_source.step_until_jumps [OF assms(1-6) refl, of 1000, where 'e = 'e] by blast
  ultimately show ?thesis unfolding step_until_event_def MAX_STEPS_def
    by (intro exI [of _ x] exI [of _ e']) (auto split: if_splits)
qed

definition fast_forward_engine :: "data_frame list \<Rightarrow> u32 \<Rightarrow> buffered_source replay_engine" where
  "fast_forward_engine frames m = set_mode (RM_FastForward m) (playing_frames frames)"

lemma fast_forward_engine:
  assumes "0 < m"
  shows "jumps m 10000 (fast_forward_engine fs m)" "running (fast_forward_engine fs m)"
    "buffered_pending (en_source (fast_forward_engine fs m)) = fs"
    "clk_current (en_clock (fast_forward_engine fs m)) = 0" "can_count 1 (fast_forward_engine fs m)"
  using scale_multiplier [OF assms] uint_u32_pos [OF assms] assms
  by (simp_all add: playing_frames fast_forward_engine_def set_mode_def jumps_def running_def clock_enable_warp_def
      set_max_warp_factor_def can_count_def)
    (simp_all add: playing_frames_def engine_start_defs)

theorem step_until_event_exact_witness:
  "\<exists>x e'. step_until_event buffered_ops
      (fast_forward_engine [data_frame_empty 1000000 ExBinance FT_Trade] 10)
      = (Ok (x, e') :: (_, unit) result) \<and> st_frame x = Some (data_frame_empty 1000000 ExBinance FT_Trade)
      \<and> clk_current (en_clock e') = 1000000"
proof -
  let ?f = "data_frame_empty 1000000 ExBinance FT_Trade"
  let ?e = "fast_forward_engine [?f] 10"
  have f: "df_timestamp ?f = 1000000" by (simp add: data_frame_empty_def)
  have e: "jumps 10 10000 ?e" "buffered_pending (en_source ?e) = [?f]"
    "clk_current (en_clock ?e) = 0" "can_count 1 ?e"
    by (rule fast_forward_engine; simp)+
  have "ts_safe (df_timestamp ?f)" "ts_safe (clk_current (en_clock ?e))"
    by (simp_all add: f e(3) ts_safe_def)
  from step_until_event_exact [OF buffered_src.data_source_axioms e(1,2,4) this, where 'e = unit]
  show ?thesis by (simp add: f e(3) later_def) blast
qed

text \<open>
  In fast forward one \<open>step\<close> may return a frame whose time the clock has not reached: the
  engine takes the frame although the scheduler reports a remaining gap.
\<close>

theorem step_leaves_clock_behind:
  "\<exists>x e'. step buffered_ops (fast_forward_engine [data_frame_empty 1000000 ExBinance FT_Trade] 10)
      = (Ok (x, e') :: (_, 'e) result) \<and> st_frame x = Some (data_frame_empty 1000000 ExBinance FT_Trade)
      \<and> sint (clk_current (en_clock e')) = 100000"
proof -
  let ?f = "data_frame_empty 1000000 ExBinance FT_Trade"
  let ?e = "fast_forward_engine [?f] 10"
  have f: "df_timestamp ?f = 1000000" by (simp add: data_frame_empty_def)
  have e: "jumps 10 10000 ?e" "buffered_pending (en_source ?e) = [?f]"
    "clk_current (en_clock ?e) = 0" "can_count 1 ?e" "running ?e"
    by (rule fast_forward_engine; simp)+
  have "in_i64 (sint (1000000 :: i64) - sint (clk_current (en_clock ?e)))"
    "(1000000 :: int) = max 0 (sint (1000000 :: i64) - sint (clk_current (en_clock ?e)))"
    by (simp_all add: e(3) in_i64_def)
  from jumps_schedule [OF e(1) this, where 'e = 'e] obtain r c' s' where
    sched: "schedule (en_clock ?e) 1000000 (en_scheduler ?e) = (Ok (r, c', s') :: (_, 'e) result)"
    "sint (clk_current c') = sint (clk_current (en_clock ?e)) + min 1000000 (10000 * uint (10 :: u32))"
    by metis
  obtain src where src: "ds_peek_timestamp buffered_ops (en_source ?e) = (Some 1000000, src)"
    "buffered_pending src = [?f]"
    using buffered_src.peek_ts [of "en_source ?e"] e(2) f
    by (cases "ds_peek_timestamp buffered_ops (en_source ?e)") auto
  let ?e1 = "?e\<lparr>en_clock := c', en_source := src, en_scheduler := s'\<rparr>"
  obtain stats' src' where t: "take_event buffered_ops r ?e1
        = (Ok (step_result_processed ?f r, ?e1\<lparr>en_source := src', en_stats := stats'\<rparr>) :: (_, 'e) result)"
    by (rule buffered_src.take_event_frame [of ?e1 ?f "[]" 0 r, where 'e = 'e])
      (use src(2) e(4) in \<open>simp_all add: can_count_def\<close>)
  have "min 1000000 (10000 * uint (10 :: u32)) = (100000 :: int)" by simp
  then show ?thesis using sched src(1) t e(3,5)
    by (auto simp: step_def running_def step_result_processed_def)
qed

lemma step_until_event_unfold: "step_until_event ops e = step_until_loop ops (Suc 999) e"
  by (simp add: step_until_event_def MAX_STEPS_def)

text \<open>
  \<open>step_until_event\<close> does not look at the control state: on an engine that was never started
  it processes the frame that \<open>step\<close> refuses to touch.
\<close>

theorem step_until_event_ignores_idle:
  "step buffered_ops (engine_with_data_source (buffered_new [data_frame_empty 0 ExBinance FT_Trade]) warp_config_default)
    = (Ok (step_result_noop, engine_with_data_source (buffered_new [data_frame_empty 0 ExBinance FT_Trade]) warp_config_default)
       :: (_, 'e) result)"
  "\<exists>x e'. step_until_event buffered_ops
      (engine_with_data_source (buffered_new [data_frame_empty 0 ExBinance FT_Trade]) warp_config_default)
      = (Ok (x, e') :: (_, 'e) result) \<and> st_frame x = Some (data_frame_empty 0 ExBinance FT_Trade)
      \<and> en_state e' = RS_Idle"
proof -
  show "\<exists>x e'. step_until_event buffered_ops
      (engine_with_data_source (buffered_new [data_frame_empty 0 ExBinance FT_Trade]) warp_config_default)
      = (Ok (x, e') :: (_, 'e) result) \<and> st_frame x = Some (data_frame_empty 0 ExBinance FT_Trade)
      \<and> en_state e' = RS_Idle"
    unfolding step_until_event_unfold step_until_loop.simps
    by (simp add: engine_start_defs default_peek_timestamp_def buffered_peek_def
        data_frame_empty_def schedule_def i64_sub_eq in_i64_def clock_now_def take_event_def
        buffered_next_def count_event_def u64_incr_def step_result_processed_def Let_def)
qed (simp add: step_def engine_with_data_source_def)

section \<open>The control invariant\<close>

lemma count_event_sessions:
  "count_event s = Ok s' \<Longrightarrow> unat (rs_session_events s) \<le> unat (rs_events_processed s) \<Longrightarrow>
     unat (rs_session_events s') \<le> unat (rs_events_processed s')"
  by (drule count_event_Ok) simp

lemma schedule_keeps_flags:
  "schedule c ts s = Ok (r, c', s') \<Longrightarrow> clk_paused c' = clk_paused c"
  by (auto simp: schedule_def clock_set_def rbind_Ok_iff Let_def split: if_splits)

lemma take_event_ok:
  "take_event ops r e = Ok (x, e') \<Longrightarrow> engine_ok e \<Longrightarrow> engine_ok e' \<and> (st_processed x \<or> en_state e' = RS_Completed)"
  by (auto simp: take_event_def engine_ok_def map_ok_Ok_iff step_result_processed_def
      dest: count_event_sessions split: prod.splits option.splits)

lemma step_ok_engine: "step ops e = Ok (r, e') \<Longrightarrow> engine_ok e \<Longrightarrow> engine_ok e'"
proof (unfold step_def, goal_cases)
  case 1
  have upd: "engine_ok (e\<lparr>en_clock := c', en_source := src, en_scheduler := s'\<rparr>)"
    if "clk_paused c' = clk_paused (en_clock e)" for c' src s'
    using 1(2) that by (simp add: engine_ok_def)
  have "engine_ok (e\<lparr>en_state := RS_Completed, en_source := src\<rparr>)" for src
    using 1(2) by (simp add: engine_ok_def)
  with 1 upd show ?case
    by (auto simp: rbind_Ok_iff split: if_splits prod.splits option.splits
        dest!: schedule_keeps_flags take_event_ok)
qed

lemma step_until_loop_ok:
  "step_until_loop ops k e = Ok (r, e') \<Longrightarrow> engine_ok e \<Longrightarrow> engine_ok e'"
proof (induction k arbitrary: e)
  case (Suc k)
  have upd: "engine_ok (e\<lparr>en_clock := c', en_source := src, en_scheduler := s'\<rparr>)"
    if "clk_paused c' = clk_paused (en_clock e)" for c' src s'
    using Suc.prems(2) that by (simp add: engine_ok_def)
  have "engine_ok (e\<lparr>en_state := RS_Completed, en_source := src\<rparr>)" for src
    using Suc.prems(2) by (simp add: engine_ok_def)
  with Suc upd show ?case
    by (auto simp: rbind_Ok_iff Let_def split: if_splits prod.splits option.splits
        dest!: schedule_keeps_flags take_event_ok)
qed simp

lemma tick_loop_ok:
  "tick_loop ops k p e = Ok (n, e') \<Longrightarrow> engine_ok e \<Longrightarrow> engine_ok e'"
  by (induction k arbitrary: p e) (auto simp: rbind_Ok_iff split: if_splits dest: step_ok_engine)

lemma play_ok: "engine_ok e \<Longrightarrow> engine_ok (play ops e)"
  by (auto simp: play_def engine_ok_def clock_resume_def Let_def split: prod.splits)

lemma pause_ok: "engine_ok e \<Longrightarrow> engine_ok (pause e)"
  by (auto simp: pause_def engine_ok_def clock_pause_def)

text \<open>
  In every state that calls of the public operations can reach, a playing engine's clock is
  not paused and a paused engine's clock is, and the session counter is at most the total.
\<close>

theorem engine_control_invariant:
  assumes "(engine_call ops)\<^sup>*\<^sup>* (engine_with_start_time source config start) e"
  shows "engine_ok e"
  using assms
proof (induction rule: rtranclp_induct)
  case base
  show ?case by (simp add: engine_ok_def engine_with_start_time_def replay_stats_new_def)
next
  case (step e e')
  from step.hyps(2) step.IH show ?case
  proof (cases rule: engine_call.cases)
    case (call_load d mapped)
    with step.IH show ?thesis
      by (auto simp: engine_load_def engine_ok_def split: result.splits)
  next
    case (call_set_mode m)
    with step.IH show ?thesis
      by (cases m) (auto simp: set_mode_def engine_ok_def clock_enable_warp_def clock_disable_warp_def)
  next
    case call_toggle
    with step.IH show ?thesis
      by (auto simp: toggle_def play_ok pause_ok split: replay_state.splits)
  next
    case call_reset
    with step.IH show ?thesis by (simp add: engine_reset_def engine_ok_def clock_resume_def)
  next
    case (call_tick n k)
    with step.IH show ?thesis by (auto simp: tick_def tick_loop_ok split: if_splits)
  qed (auto simp: play_ok pause_ok step_ok_engine step_until_event_def step_until_loop_ok)
qed

theorem engine_control_invariant_witness:
  "engine_ok (pause (play buffered_ops
     (engine_with_start_time (buffered_new []) warp_config_default 0)))"
proof (rule engine_control_invariant)
  let ?e = "engine_with_start_time (buffered_new []) warp_config_default 0"
  have "(engine_call buffered_ops)\<^sup>*\<^sup>* ?e (play buffered_ops ?e)"
    by (rule r_into_rtranclp) (rule call_play)
  then show "(engine_call buffered_ops)\<^sup>*\<^sup>* ?e (pause (play buffered_ops ?e))"
    by (rule rtranclp.rtrancl_into_rtrancl) (rule call_pause)
qed

section \<open>Resetting\<close>

text \<open>
  After \<open>reset\<close> and \<open>play\<close> an engine over a stored source replays all frames again from the
  epoch, whatever was done before; the total counter keeps counting.
\<close>

theorem reset_replays_all:
  assumes "bf_active (en_source e)"
    and "\<forall>f \<in> set (bf_frames (en_source e)). ts_safe (df_timestamp f)"
    and "0 \<le> sint (wp_idle_threshold_us (sc_config (en_scheduler e)))"
    and "sc_max_factor_scaled (en_scheduler e) = 0"
    and "unat (rs_events_processed (en_stats e)) + length (bf_frames (en_source e)) < 2 ^ 64"
  shows "\<exists>e'. run_to_completion buffered_ops (play buffered_ops (engine_reset buffered_ops e))
      = Some (Ok (length (bf_frames (en_source e)), e') :: (_, 'e) result)
    \<and> clk_current (en_clock e') = foldl later ts_epoch (map df_timestamp (bf_frames (en_source e)))
    \<and> unat (rs_session_events (en_stats e')) = length (bf_frames (en_source e))"
proof -
  let ?e = "play buffered_ops (engine_reset buffered_ops e)"
  have p: "buffered_pending (en_source ?e) = bf_frames (en_source e)" "en_state ?e = RS_Playing"
    "clk_current (en_clock ?e) = ts_epoch" "rs_session_events (en_stats ?e) = 0"
    "rs_events_processed (en_stats ?e) = rs_events_processed (en_stats e)"
    "sc_config (en_scheduler ?e) = sc_config (en_scheduler e)"
    "sc_max_factor_scaled (en_scheduler ?e) = sc_max_factor_scaled (en_scheduler e)"
    using assms(1)
    by (simp_all add: play_def engine_reset_def buffered_ops_def buffered_reset_def buffered_pending_def
        clock_resume_def clock_set_def scheduler_reset_def)
  have "ready buffered_pending (length (buffered_pending (en_source ?e))) ?e"
    using assms(2-5) by (simp add: ready_def p can_count_def ts_epoch_def) (simp add: ts_safe_def)
  then show ?thesis
    using buffered_src.run_loop_frames [OF p(2), of 0 0, where 'e = 'e] assms(5)
    by (auto simp: p run_to_completion_def counted_def usize_limit_def)
qed

theorem reset_replays_all_witness:
  "\<exists>e'. run_to_completion buffered_ops (play buffered_ops (engine_reset buffered_ops
      (playing_frames [data_frame_empty 70 ExBinance FT_Trade])))
      = Some (Ok (1, e') :: (_, unit) result) \<and> clk_current (en_clock e') = 70"
proof -
  let ?e = "playing_frames [data_frame_empty 70 ExBinance FT_Trade]"
  have e: "bf_frames (en_source ?e) = [data_frame_empty 70 ExBinance FT_Trade]" "bf_active (en_source ?e)"
    "sint (wp_idle_threshold_us (sc_config (en_scheduler ?e))) = 10000"
    "sc_max_factor_scaled (en_scheduler ?e) = 0" "rs_events_processed (en_stats ?e) = 0"
    by (simp_all add: playing_frames_def engine_start_defs)
  from reset_replays_all [OF e(2) _ _ e(4), where 'e = unit] e
  show ?thesis by (auto simp: data_frame_empty_def ts_safe_def later_def ts_epoch_def)
qed

end
