(* ===== verification/Verify_Engine.thy ===== *)
theory Verify_Engine
  imports Verify_Hash Replay_Engine
begin

text \<open>
  \<open>verify/comparator.rs\<close> and \<open>verify/verifying_engine.rs\<close>: replay with checkpoint
  verification. The callback that computes the state of the replayed system is a trait of
  the source, here a record of operations on a callback state.
\<close>

section \<open>Printing a double with a fixed number of digits\<close>

text \<open>\<open>{:.k}\<close> is exact, ties to even.\<close>

definition fixed_digits :: "nat \<Rightarrow> rat \<Rightarrow> string" where
  "fixed_digits k r =
     (let n = nat (round_even (r * 10 ^ k)) in
      show_nat (n div 10 ^ k) @ (if k = 0 then [] else ''.'' @ pad_left k (CHR ''0'') (show_nat (n mod 10 ^ k))))"

definition f64_fixed :: "nat \<Rightarrow> f64 \<Rightarrow> string" where
  "f64_fixed k x =
     (case x of
        FNaN \<Rightarrow> ''NaN''
      | FInf s \<Rightarrow> if s then ''-inf'' else ''inf''
      | FFin r \<Rightarrow> if r < 0 then ''-'' @ fixed_digits k (- r) else fixed_digits k r)"

text \<open>The percentage of \<open>match_rate\<close>; 100 when nothing was compared.\<close>

definition rate_of :: "u64 \<Rightarrow> u64 \<Rightarrow> f64" where
  "rate_of matched found =
     (if found = 0 then FFin 100
      else f64_mul (f64_ratio (unat matched) (unat found)) (FFin 100))"

section \<open>The comparator\<close>

datatype compare_result = CR_Match | CR_Mismatch sha256 sha256 u64

record mismatch_record =
  mm_sequence :: u64
  mm_timestamp :: i64
  mm_original_hash :: sha256
  mm_replayed_hash :: sha256

record replay_comparator =
  rc_mismatches :: "mismatch_record list"
  rc_checkpoints_compared :: u64
  rc_checkpoints_matched :: u64

definition comparator_new :: replay_comparator where
  "comparator_new = \<lparr>rc_mismatches = [], rc_checkpoints_compared = 0, rc_checkpoints_matched = 0\<rparr>"

definition compare ::
    "u64 \<Rightarrow> i64 \<Rightarrow> sha256 \<Rightarrow> sha256 \<Rightarrow> replay_comparator \<Rightarrow>
     (compare_result \<times> replay_comparator, 'e) result" where
  "compare seq ts original replayed c =
     rbind (u64_incr (rc_checkpoints_compared c)) (\<lambda>n.
     let c1 = c\<lparr>rc_checkpoints_compared := n\<rparr> in
     if original = replayed
     then map_ok (\<lambda>m. (CR_Match, c1\<lparr>rc_checkpoints_matched := m\<rparr>)) (u64_incr (rc_checkpoints_matched c1))
     else Ok (CR_Mismatch original replayed seq,
            c1\<lparr>rc_mismatches := rc_mismatches c1 @
              [\<lparr>mm_sequence = seq, mm_timestamp = ts, mm_original_hash = original,
                mm_replayed_hash = replayed\<rparr>]\<rparr>))"

definition comparator_is_successful :: "replay_comparator \<Rightarrow> bool" where
  "comparator_is_successful c \<longleftrightarrow> rc_mismatches c = []"

definition comparator_match_rate :: "replay_comparator \<Rightarrow> f64" where
  "comparator_match_rate c = rate_of (rc_checkpoints_matched c) (rc_checkpoints_compared c)"

definition comparator_summary :: "replay_comparator \<Rightarrow> string" where
  "comparator_summary c =
     ''Replay Verification Summary:'' @ [CHR 10] @
     ''- Checkpoints compared: '' @ show_nat (unat (rc_checkpoints_compared c)) @ [CHR 10] @
     ''- Checkpoints matched: '' @ show_nat (unat (rc_checkpoints_matched c)) @ [CHR 10] @
     ''- Mismatches: '' @ show_nat (length (rc_mismatches c)) @ [CHR 10] @
     ''- Match rate: '' @ f64_fixed 2 (comparator_match_rate c) @ ''%'' @ [CHR 10] @
     ''- Status: '' @ (if comparator_is_successful c then ''PASS'' else ''FAIL'')"

section \<open>The verifying engine\<close>

record 'c callback_ops =
  cb_compute_state_hash :: "'c \<Rightarrow> sha256"
  cb_on_frame :: "data_frame \<Rightarrow> 'c \<Rightarrow> 'c"
  cb_before_verify :: "checkpoint \<Rightarrow> 'c \<Rightarrow> 'c"

definition fixed_hash_ops :: "sha256 callback_ops" where
  "fixed_hash_ops =
     \<lparr>cb_compute_state_hash = (\<lambda>h. h), cb_on_frame = (\<lambda>f h. h), cb_before_verify = (\<lambda>c h. h)\<rparr>"

definition fixed_hash_zeros :: sha256 where
  "fixed_hash_zeros = replicate 32 0"

datatype verification_result =
    VR_Match u64 i64
  | VR_Mismatch u64 i64 sha256 sha256
  | VR_Error string

fun vr_is_match :: "verification_result \<Rightarrow> bool" where
  "vr_is_match (VR_Match s t) = True"
| "vr_is_match _ = False"

fun vr_is_mismatch :: "verification_result \<Rightarrow> bool" where
  "vr_is_mismatch (VR_Mismatch s t e a) = True"
| "vr_is_mismatch _ = False"

fun vr_is_error :: "verification_result \<Rightarrow> bool" where
  "vr_is_error (VR_Error m) = True"
| "vr_is_error _ = False"

record verification_stats =
  vs_events_processed :: u64
  vs_checkpoints_found :: u64
  vs_checkpoints_matched :: u64
  vs_checkpoints_mismatched :: u64
  vs_errors :: u64
  vs_first_mismatch_sequence :: "u64 option"

definition verification_stats_new :: verification_stats where
  "verification_stats_new =
     \<lparr>vs_events_processed = 0, vs_checkpoints_found = 0, vs_checkpoints_matched = 0,
      vs_checkpoints_mismatched = 0, vs_errors = 0, vs_first_mismatch_sequence = None\<rparr>"

definition vs_is_successful :: "verification_stats \<Rightarrow> bool" where
  "vs_is_successful s \<longleftrightarrow> vs_checkpoints_mismatched s = 0 \<and> vs_errors s = 0"

definition vs_match_rate :: "verification_stats \<Rightarrow> f64" where
  "vs_match_rate s = rate_of (vs_checkpoints_matched s) (vs_checkpoints_found s)"

definition vs_summary :: "verification_stats \<Rightarrow> string" where
  "vs_summary s =
     ''Verification Summary:'' @ [CHR 10] @
     ''- Events processed: '' @ show_nat (unat (vs_events_processed s)) @ [CHR 10] @
     ''- Checkpoints found: '' @ show_nat (unat (vs_checkpoints_found s)) @ [CHR 10] @
     ''- Checkpoints matched: '' @ show_nat (unat (vs_checkpoints_matched s)) @ [CHR 10] @
     ''- Checkpoints mismatched: '' @ show_nat (unat (vs_checkpoints_mismatched s)) @ [CHR 10] @
     ''- Errors: '' @ show_nat (unat (vs_errors s)) @ [CHR 10] @
     ''- Match rate: '' @ f64_fixed 2 (vs_match_rate s) @ ''%'' @ [CHR 10] @
     ''- Status: '' @ (if vs_is_successful s then ''PASS'' else ''FAIL'')"

record verify_config =
  vc_stop_on_mismatch :: bool
  vc_stop_on_error :: bool
  vc_warp_config :: warp_config

definition verify_config_default :: verify_config where
  "verify_config_default =
     \<lparr>vc_stop_on_mismatch = False, vc_stop_on_error = True, vc_warp_config = warp_config_default\<rparr>"

definition verify_config_stop_on_mismatch :: verify_config where
  "verify_config_stop_on_mismatch = verify_config_default\<lparr>vc_stop_on_mismatch := True\<rparr>"

definition verify_config_continue_on_error :: verify_config where
  "verify_config_continue_on_error = verify_config_default\<lparr>vc_stop_on_error := False\<rparr>"

record ('s, 'c) verifying_engine =
  ve_engine :: "'s replay_engine"
  ve_callback :: 'c
  ve_comparator :: replay_comparator
  ve_config :: verify_config
  ve_stats :: verification_stats
  ve_results :: "verification_result list"

definition verifying_with_config :: "'s \<Rightarrow> 'c \<Rightarrow> verify_config \<Rightarrow> ('s, 'c) verifying_engine" where
  "verifying_with_config source callback config =
     \<lparr>ve_engine = engine_with_data_source source (vc_warp_config config), ve_callback = callback,
      ve_comparator = comparator_new, ve_config = config, ve_stats = verification_stats_new,
      ve_results = []\<rparr>"

definition verifying_new :: "'s \<Rightarrow> 'c \<Rightarrow> ('s, 'c) verifying_engine" where
  "verifying_new source callback = verifying_with_config source callback verify_config_default"

definition verifying_play :: "'s source_ops \<Rightarrow> ('s, 'c) verifying_engine \<Rightarrow> ('s, 'c) verifying_engine" where
  "verifying_play ops v = v\<lparr>ve_engine := play ops (ve_engine v)\<rparr>"

definition verifying_pause :: "('s, 'c) verifying_engine \<Rightarrow> ('s, 'c) verifying_engine" where
  "verifying_pause v = v\<lparr>ve_engine := pause (ve_engine v)\<rparr>"

definition verifying_reset :: "'s source_ops \<Rightarrow> ('s, 'c) verifying_engine \<Rightarrow> ('s, 'c) verifying_engine" where
  "verifying_reset ops v =
     v\<lparr>ve_engine := engine_reset ops (ve_engine v), ve_comparator := comparator_new,
       ve_stats := verification_stats_new, ve_results := []\<rparr>"

definition parse_failure :: "checkpoint_error \<Rightarrow> verification_result" where
  "parse_failure e = VR_Error (''Failed to parse checkpoint: '' @ checkpoint_error_display e)"

definition verify_checkpoint ::
    "'c callback_ops \<Rightarrow> data_frame \<Rightarrow> ('s, 'c) verifying_engine \<Rightarrow>
     (verification_result \<times> ('s, 'c) verifying_engine, 'e) result" where
  "verify_checkpoint cb frame v =
     rbind (u64_incr (vs_checkpoints_found (ve_stats v))) (\<lambda>found.
     let v1 = v\<lparr>ve_stats := (ve_stats v)\<lparr>vs_checkpoints_found := found\<rparr>\<rparr> in
     case checkpoint_from_bytes (df_payload frame) of
       Panic \<Rightarrow> Panic
     | Err e \<Rightarrow>
         rbind (u64_incr (vs_errors (ve_stats v1))) (\<lambda>errors.
         let r = parse_failure e in
         Ok (r, v1\<lparr>ve_stats := (ve_stats v1)\<lparr>vs_errors := errors\<rparr>, ve_results := ve_results v1 @ [r]\<rparr>))
     | Ok cp \<Rightarrow>
         let c' = cb_before_verify cb cp (ve_callback v1); v2 = v1\<lparr>ve_callback := c'\<rparr>;
             actual = cb_compute_state_hash cb c'; expected = ckp_state_hash cp in
         rbind (compare (ckp_sequence cp) (ckp_timestamp cp) expected actual (ve_comparator v2)) (\<lambda>(cr, comparator').
         let v3 = v2\<lparr>ve_comparator := comparator'\<rparr>; s = ve_stats v3 in
         case cr of
           CR_Match \<Rightarrow>
             rbind (u64_incr (vs_checkpoints_matched s)) (\<lambda>n.
             let r = VR_Match (ckp_sequence cp) (ckp_timestamp cp) in
             Ok (r, v3\<lparr>ve_stats := s\<lparr>vs_checkpoints_matched := n\<rparr>, ve_results := ve_results v3 @ [r]\<rparr>))
         | CR_Mismatch original replayed seq \<Rightarrow>
             rbind (u64_incr (vs_checkpoints_mismatched s)) (\<lambda>n.
             let s1 = s\<lparr>vs_checkpoints_mismatched := n\<rparr>;
                 s2 = (if vs_first_mismatch_sequence s1 = None
                       then s1\<lparr>vs_first_mismatch_sequence := Some seq\<rparr> else s1);
                 r = VR_Mismatch seq (ckp_timestamp cp) original replayed in
             Ok (r, v3\<lparr>ve_stats := s2, ve_results := ve_results v3 @ [r]\<rparr>))))"

definition verifying_step ::
    "'s source_ops \<Rightarrow> 'c callback_ops \<Rightarrow> ('s, 'c) verifying_engine \<Rightarrow>
     (step_result \<times> verification_result option \<times> ('s, 'c) verifying_engine, 'e) result" where
  "verifying_step ops cb v =
     rbind (step ops (ve_engine v)) (\<lambda>(sr, engine').
     let v1 = v\<lparr>ve_engine := engine'\<rparr> in
     if st_completed sr then Ok (sr, None, v1)
     else if \<not> st_processed sr then Ok (sr, None, v1)
     else
       rbind (u64_incr (vs_events_processed (ve_stats v1))) (\<lambda>n.
       let v2 = v1\<lparr>ve_stats := (ve_stats v1)\<lparr>vs_events_processed := n\<rparr>\<rparr> in
       case st_frame sr of
         None \<Rightarrow> Ok (sr, None, v2)
       | Some frame \<Rightarrow>
           let v3 = v2\<lparr>ve_callback := cb_on_frame cb frame (ve_callback v2)\<rparr> in
           if df_frame_type frame = FT_Checkpoint
           then map_ok (\<lambda>(vr, v4). (sr, Some vr, v4)) (verify_checkpoint cb frame v3)
           else Ok (sr, None, v3)))"

definition stops_on :: "verify_config \<Rightarrow> verification_result option \<Rightarrow> bool" where
  "stops_on config vr =
     (case vr of
        None \<Rightarrow> False
      | Some r \<Rightarrow> (vc_stop_on_mismatch config \<and> vr_is_mismatch r) \<or> (vc_stop_on_error config \<and> vr_is_error r))"

partial_function (option) verify_loop ::
    "'s source_ops \<Rightarrow> 'c callback_ops \<Rightarrow> ('s, 'c) verifying_engine \<Rightarrow>
     (('s, 'c) verifying_engine, 'e) result option" where
  "verify_loop ops cb v =
     (case verifying_step ops cb v of
        Err x \<Rightarrow> Some (Err x)
      | Panic \<Rightarrow> Some Panic
      | Ok (sr, vr, v') \<Rightarrow>
          if st_completed sr then Some (Ok v')
          else if stops_on (ve_config v') vr then Some (Ok v')
          else verify_loop ops cb v')"

definition run_with_verification ::
    "'s source_ops \<Rightarrow> 'c callback_ops \<Rightarrow> ('s, 'c) verifying_engine \<Rightarrow>
     (verification_stats \<times> ('s, 'c) verifying_engine, 'e) result option" where
  "run_with_verification ops cb v =
     map_option (map_ok (\<lambda>v'. (ve_stats v', v'))) (verify_loop ops cb (verifying_play ops v))"

section \<open>The verdicts\<close>

text \<open>What a checkpoint frame should give, and how it should change the callback.\<close>

definition check_spec ::
    "'c callback_ops \<Rightarrow> 'c \<Rightarrow> bytes \<Rightarrow> verification_result \<times> 'c" where
  "check_spec cb c payload =
     (case checkpoint_from_bytes payload of
        Ok cp \<Rightarrow>
          let c' = cb_before_verify cb cp c in
          (if cb_compute_state_hash cb c' = ckp_state_hash cp then VR_Match (ckp_sequence cp) (ckp_timestamp cp)
           else VR_Mismatch (ckp_sequence cp) (ckp_timestamp cp) (ckp_state_hash cp) (cb_compute_state_hash cb c'), c')
      | Err e \<Rightarrow> (parse_failure e, c)
      | Panic \<Rightarrow> (VR_Error [], c))"

text \<open>The verdicts of a replay of the frames, with the number of frames processed.\<close>

fun verify_spec ::
    "verify_config \<Rightarrow> 'c callback_ops \<Rightarrow> 'c \<Rightarrow> data_frame list \<Rightarrow> verification_result list \<times> nat" where
  "verify_spec cfg cb c [] = ([], 0)"
| "verify_spec cfg cb c (f # fs) =
     (let c1 = cb_on_frame cb f c in
      if df_frame_type f = FT_Checkpoint
      then
        let (r, c2) = check_spec cb c1 (df_payload f);
            (rs, n) = (if stops_on cfg (Some r) then ([], 0) else verify_spec cfg cb c2 fs) in
        (r # rs, Suc n)
      else let (rs, n) = verify_spec cfg cb c1 fs in (rs, Suc n))"

fun mismatch_sequence :: "verification_result \<Rightarrow> u64 option" where
  "mismatch_sequence (VR_Mismatch s t e a) = Some s"
| "mismatch_sequence _ = None"

text \<open>Statistics and comparator summarise the list of verdicts.\<close>

definition accounts :: "('s, 'c) verifying_engine \<Rightarrow> bool" where
  "accounts v \<longleftrightarrow>
     (let rs = ve_results v; s = ve_stats v; c = ve_comparator v in
      unat (vs_checkpoints_found s) = length rs \<and>
      unat (vs_checkpoints_matched s) = length (filter vr_is_match rs) \<and>
      unat (vs_checkpoints_mismatched s) = length (filter vr_is_mismatch rs) \<and>
      unat (vs_errors s) = length (filter vr_is_error rs) \<and>
      vs_first_mismatch_sequence s = (case filter vr_is_mismatch rs of [] \<Rightarrow> None | r # _ \<Rightarrow> mismatch_sequence r) \<and>
      map (\<lambda>m. VR_Mismatch (mm_sequence m) (mm_timestamp m) (mm_original_hash m) (mm_replayed_hash m))
        (rc_mismatches c) = filter vr_is_mismatch rs \<and>
      unat (rc_checkpoints_matched c) = length (filter vr_is_match rs) \<and>
      unat (rc_checkpoints_compared c) + length (filter vr_is_error rs) = length rs)"

lemma filter_kinds: "length (filter vr_is_match rs) + length (filter vr_is_mismatch rs)
    + length (filter vr_is_error rs) = length rs"
proof (induction rs)
  case (Cons r rs)
  then show ?case by (cases r) simp_all
qed simp

lemma accounts_new: "accounts (verifying_with_config source callback config)"
  by (simp add: accounts_def verifying_with_config_def verification_stats_new_def comparator_new_def)

text \<open>Recording a verdict of each kind keeps the account.\<close>

definition recorded :: "verification_result \<Rightarrow> ('s, 'c) verifying_engine \<Rightarrow> ('s, 'c) verifying_engine \<Rightarrow> bool" where
  "recorded r v v' \<longleftrightarrow> accounts v' \<and> ve_results v' = ve_results v @ [r] \<and> ve_engine v' = ve_engine v \<and>
     ve_config v' = ve_config v \<and> vs_events_processed (ve_stats v') = vs_events_processed (ve_stats v)"

definition roomy :: "('s, 'c) verifying_engine \<Rightarrow> bool" where
  "roomy v \<longleftrightarrow> accounts v \<and> length (ve_results v) + 1 < 2 ^ 64"

lemma roomy_incr:
  assumes "roomy v"
  shows "w \<in> {vs_checkpoints_found (ve_stats v), vs_checkpoints_matched (ve_stats v),
      vs_checkpoints_mismatched (ve_stats v), vs_errors (ve_stats v),
      rc_checkpoints_matched (ve_comparator v), rc_checkpoints_compared (ve_comparator v)} \<Longrightarrow>
    u64_incr w = (Ok (w + 1) :: (_, 'e) result) \<and> unat (w + 1) = unat w + 1"
proof -
  assume w: "w \<in> {vs_checkpoints_found (ve_stats v), vs_checkpoints_matched (ve_stats v),
      vs_checkpoints_mismatched (ve_stats v), vs_errors (ve_stats v),
      rc_checkpoints_matched (ve_comparator v), rc_checkpoints_compared (ve_comparator v)}"
  have "unat w \<le> length (ve_results v)"
    using w assms filter_kinds [of "ve_results v"] by (auto simp: roomy_def accounts_def Let_def)
  then show ?thesis using assms by (simp add: roomy_def u64_incr_eq unat_u64_incr)
qed

lemma verify_checkpoint_error:
  assumes "roomy v" and "checkpoint_from_bytes (df_payload f) = Err e"
  shows "\<exists>v'. verify_checkpoint cb f v = (Ok (parse_failure e, v') :: (_, 'e) result) \<and>
    recorded (parse_failure e) v v' \<and> ve_callback v' = ve_callback v"
proof -
  note incr = roomy_incr [OF assms(1), where 'e = 'e, simplified]
  show ?thesis using assms incr
    by (simp add: verify_checkpoint_def recorded_def accounts_def roomy_def parse_failure_def Let_def)
qed

lemma verify_checkpoint_match:
  assumes "roomy v" and "checkpoint_from_bytes (df_payload f) = Ok cp"
    and "cb_compute_state_hash cb (cb_before_verify cb cp (ve_callback v)) = ckp_state_hash cp"
  shows "\<exists>v'. verify_checkpoint cb f v
      = (Ok (VR_Match (ckp_sequence cp) (ckp_timestamp cp), v') :: (_, 'e) result) \<and>
    recorded (VR_Match (ckp_sequence cp) (ckp_timestamp cp)) v v' \<and>
    ve_callback v' = cb_before_verify cb cp (ve_callback v)"
proof -
  note incr = roomy_incr [OF assms(1), where 'e = 'e, simplified]
  show ?thesis using assms incr
    by (simp add: verify_checkpoint_def compare_def recorded_def accounts_def roomy_def Let_def)
qed

lemma first_mismatch: "filter vr_is_mismatch rs = r # l \<Longrightarrow> \<exists>y. mismatch_sequence r = Some y"
  by (drule filter_eq_ConsD) (cases r, auto)

lemma verify_checkpoint_mismatch:
  assumes "roomy v" and "checkpoint_from_bytes (df_payload f) = Ok cp"
    and "cb_compute_state_hash cb (cb_before_verify cb cp (ve_callback v)) = h" and "h \<noteq> ckp_state_hash cp"
  shows "\<exists>v'. verify_checkpoint cb f v
      = (Ok (VR_Mismatch (ckp_sequence cp) (ckp_timestamp cp) (ckp_state_hash cp) h, v') :: (_, 'e) result) \<and>
    recorded (VR_Mismatch (ckp_sequence cp) (ckp_timestamp cp) (ckp_state_hash cp) h) v v' \<and>
    ve_callback v' = cb_before_verify cb cp (ve_callback v)"
proof -
  note incr = roomy_incr [OF assms(1), where 'e = 'e, simplified]
  show ?thesis using assms incr
    by (cases "filter vr_is_mismatch (ve_results v)")
      (simp_all add: first_mismatch verify_checkpoint_def compare_def recorded_def accounts_def roomy_def Let_def)
qed

lemma verify_checkpoint_correct:
  assumes "roomy v" and "check_spec cb (ve_callback v) (df_payload f) = (r, c')"
  obtains v' where "verify_checkpoint cb f v = (Ok (r, v') :: (_, 'e) result)"
    and "recorded r v v'" and "ve_callback v' = c'"
proof -
  have "checkpoint_from_bytes (df_payload f) \<noteq> Panic"
    by (auto simp: checkpoint_from_bytes_def checkpoint_data_from_bytes_def subslice_def CHECKPOINT_DATA_SIZE_def)
  then consider (err) e where "checkpoint_from_bytes (df_payload f) = Err e"
    | (cp) cp where "checkpoint_from_bytes (df_payload f) = Ok cp"
    by (cases "checkpoint_from_bytes (df_payload f)") auto
  then have "\<exists>v'. verify_checkpoint cb f v = (Ok (r, v') :: (_, 'e) result) \<and> recorded r v v' \<and> ve_callback v' = c'"
  proof cases
    case err
    with assms verify_checkpoint_error [OF assms(1) err, of cb, where 'e = 'e] show ?thesis
      by (auto simp: check_spec_def)
  next
    case (cp cp)
    with assms verify_checkpoint_match [OF assms(1) cp, of cb, where 'e = 'e]
      verify_checkpoint_mismatch [OF assms(1) cp refl, of cb, where 'e = 'e] show ?thesis
      by (auto simp: check_spec_def Let_def split: if_splits)
  qed
  with that show ?thesis by blast
qed

section \<open>Running a verification\<close>

lemma accounts_successful:
  assumes "accounts v"
  shows "vs_is_successful (ve_stats v) \<longleftrightarrow> (\<forall>r \<in> set (ve_results v). vr_is_match r)"
proof -
  have "vs_is_successful (ve_stats v) \<longleftrightarrow>
      filter vr_is_mismatch (ve_results v) = [] \<and> filter vr_is_error (ve_results v) = []"
    using assms by (simp add: vs_is_successful_def accounts_def Let_def unat_eq_0 [symmetric])
  moreover have "vr_is_match r \<longleftrightarrow> \<not> vr_is_mismatch r \<and> \<not> vr_is_error r" for r by (cases r) simp_all
  ultimately show ?thesis by (auto simp: filter_empty_conv)
qed

context data_source
begin

lemma verify_loop_correct:
  assumes "running (ve_engine v)" and "ready pending (length (pending (en_source (ve_engine v)))) (ve_engine v)"
    and "accounts v" and "length (ve_results v) + length (pending (en_source (ve_engine v))) < 2 ^ 64"
    and "unat (vs_events_processed (ve_stats v)) + length (pending (en_source (ve_engine v))) < 2 ^ 64"
    and "verify_spec (ve_config v) cb (ve_callback v) (pending (en_source (ve_engine v))) = (rs, n)"
  shows "\<exists>v'. verify_loop ops cb v = Some (Ok v' :: (_, 'e) result) \<and> accounts v' \<and>
    ve_results v' = ve_results v @ rs \<and>
    unat (vs_events_processed (ve_stats v')) = unat (vs_events_processed (ve_stats v)) + n"
  using assms
proof (induction "pending (en_source (ve_engine v))" arbitrary: v rs n)
  case Nil
  obtain src' where "step ops (ve_engine v) = (Ok (step_result_completed,
      (ve_engine v)\<lparr>en_state := RS_Completed, en_source := src'\<rparr>) :: (_, 'e) result)"
    using step_empty [OF Nil.prems(1) Nil.hyps [symmetric]] .
  then have "verifying_step ops cb v = (Ok (step_result_completed, None,
      v\<lparr>ve_engine := (ve_engine v)\<lparr>en_state := RS_Completed, en_source := src'\<rparr>\<rparr>) :: (_, 'e) result)"
    by (simp add: verifying_step_def step_result_completed_def Let_def)
  moreover have "rs = []" "n = 0" using Nil.prems(6) Nil.hyps [symmetric] by simp_all
  ultimately show ?case using Nil.prems(3)
    by (simp add: verify_loop.simps [of ops cb v] step_result_completed_def accounts_def)
next
  case (Cons f fs)
  note pend = Cons.hyps(2) [symmetric]
  obtain sr e1 where 1: "step ops (ve_engine v) = (Ok (step_result_processed f sr, e1) :: (_, 'e) result)"
    "pending (en_source e1) = fs" "en_state e1 = en_state (ve_engine v)" "ready pending (length fs) e1"
    by (rule step_frame [OF Cons.prems(1) _ pend, of "length fs", where 'e = 'e]) (use Cons.prems(2) pend in simp_all)
  have run: "running e1" using Cons.prems(1) 1(3) by (simp add: running_def)
  define v3 where "v3 = v\<lparr>ve_engine := e1,
    ve_stats := (ve_stats v)\<lparr>vs_events_processed := vs_events_processed (ve_stats v) + 1\<rparr>,
    ve_callback := cb_on_frame cb f (ve_callback v)\<rparr>"
  have ev: "unat (vs_events_processed (ve_stats v)) + 1 < 2 ^ 64" using Cons.prems(5) pend by simp
  have vs: "verifying_step ops cb v = (if df_frame_type f = FT_Checkpoint
      then map_ok (\<lambda>(vr, v4). (step_result_processed f sr, Some vr, v4)) (verify_checkpoint cb f v3)
      else (Ok (step_result_processed f sr, None, v3) :: (_, 'e) result))"
    using 1(1) ev by (simp add: verifying_step_def step_result_processed_def u64_incr_eq v3_def Let_def)
  have v3: "accounts v3" "ve_engine v3 = e1" "ve_results v3 = ve_results v" "ve_config v3 = ve_config v"
    "ve_callback v3 = cb_on_frame cb f (ve_callback v)"
    "unat (vs_events_processed (ve_stats v3)) = unat (vs_events_processed (ve_stats v)) + 1"
    using Cons.prems(3) ev by (simp_all add: v3_def accounts_def unat_u64_incr Let_def)
  show ?case
  proof (cases "df_frame_type f = FT_Checkpoint")
    case False
    then obtain m where "verify_spec (ve_config v3) cb (ve_callback v3) fs = (rs, m)" "n = Suc m"
      using Cons.prems(6) pend v3 by (auto split: prod.splits)
    with Cons.hyps(1) [of v3 rs m] 1 run v3 Cons.prems(4,5) pend False show ?thesis
      by (auto simp: verify_loop.simps [of ops cb v] vs step_result_processed_def stops_on_def)
  next
    case True
    obtain r c' where rc: "check_spec cb (ve_callback v3) (df_payload f) = (r, c')" by fastforce
    have "roomy v3" using v3 Cons.prems(4) pend by (simp add: roomy_def)
    from verify_checkpoint_correct [OF this rc] obtain v4 where
      v4: "verify_checkpoint cb f v3 = (Ok (r, v4) :: (_, 'e) result)" "recorded r v3 v4" "ve_callback v4 = c'" .
    show ?thesis
    proof (cases "stops_on (ve_config v) (Some r)")
      case stop: True
      then have "rs = [r]" "n = 1" using Cons.prems(6) pend True rc v3 by auto
      with stop True v4 v3 show ?thesis
        by (auto simp: verify_loop.simps [of ops cb v] vs step_result_processed_def recorded_def)
    next
      case go: False
      then obtain rs' m where "verify_spec (ve_config v4) cb (ve_callback v4) fs = (rs', m)"
        "n = Suc m" "rs = r # rs'"
        using Cons.prems(6) pend v3 v4 rc True by (auto simp: recorded_def split: prod.splits)
      with Cons.hyps(1) [of v4 rs' m] 1 run v3 v4 Cons.prems(4,5) pend True go show ?thesis
        by (auto simp: verify_loop.simps [of ops cb v] vs step_result_processed_def recorded_def)
    qed
  qed
qed

end

text \<open>
  C8: \<open>run_with_verification\<close> on a fresh engine over a lawful source with something to play
  returns; its results are the verdicts of the frames in order (up to the first that the
  configuration stops on), the statistics and the comparator agree with them, and the
  verification is successful exactly when every verdict is a match.
\<close>

theorem run_with_verification_correct:
  assumes "data_source ops pending" and "ds_is_active ops source"
    and "0 \<le> sint (wp_idle_threshold_us (vc_warp_config config))"
    and "wp_max_warp_factor (vc_warp_config config) = None"
    and "\<forall>f \<in> set (pending source). ts_safe (df_timestamp f)" and "length (pending source) < 2 ^ 64"
  shows "\<exists>v'. run_with_verification ops cb (verifying_with_config source c config)
      = Some (Ok (ve_stats v', v') :: (_, 'e) result) \<and>
    (ve_results v', unat (vs_events_processed (ve_stats v'))) = verify_spec config cb c (pending source) \<and>
    accounts v' \<and>
    (vs_is_successful (ve_stats v') \<longleftrightarrow> (\<forall>r \<in> set (ve_results v'). vr_is_match r))"
proof -
  obtain rs n where spec: "verify_spec config cb c (pending source) = (rs, n)" by fastforce
  let ?v = "verifying_play ops (verifying_with_config source c config)"
  have v: "ve_engine ?v = play ops (engine_with_data_source source (vc_warp_config config))"
    "ve_results ?v = []" "ve_stats ?v = verification_stats_new" "ve_config ?v = config" "ve_callback ?v = c"
    by (simp_all add: verifying_play_def verifying_with_config_def)
  have e: "running (ve_engine ?v)" "en_source (ve_engine ?v) = source"
    "ready pending (length (pending source)) (ve_engine ?v)"
    unfolding v using assms(2-6)
    by (simp_all add: play_def engine_with_data_source_def clock_resume_def running_def ready_def can_count_def
        scheduler_new_def scale_factor_def replay_stats_new_def ts_safe_def clock_at_epoch_def clock_new_def ts_epoch_def)
  have "accounts ?v" using accounts_new [of source c config] by (simp add: verifying_play_def accounts_def)
  then obtain v' where v': "verify_loop ops cb ?v = Some (Ok v' :: (_, 'e) result)" "accounts v'"
    "ve_results v' = rs" "unat (vs_events_processed (ve_stats v')) = n"
    using data_source.verify_loop_correct [OF assms(1) e(1), of cb rs n, where 'e = 'e] e assms(6) spec
    by (auto simp: v verification_stats_new_def)
  with accounts_successful [OF v'(2)] show ?thesis using spec by (simp add: run_with_verification_def)
qed

theorem run_with_verification_correct_witness:
  "\<exists>v'. run_with_verification buffered_ops fixed_hash_ops
      (verifying_new (buffered_new [data_frame_empty 5 ExBinance FT_Trade, data_frame_empty 7 ExBinance FT_Checkpoint])
        fixed_hash_zeros)
    = Some (Ok (ve_stats v', v') :: (_, unit) result) \<and> length (ve_results v') = 1 \<and>
      unat (vs_events_processed (ve_stats v')) = 2 \<and> \<not> vs_is_successful (ve_stats v')"
proof -
  let ?fs = "[data_frame_empty 5 ExBinance FT_Trade, data_frame_empty 7 ExBinance FT_Checkpoint]"
  have p: "buffered_pending (buffered_new ?fs) = ?fs" "ds_is_active buffered_ops (buffered_new ?fs)"
    by (simp_all add: buffered_pending_def buffered_new_def buffered_ops_def)
  have spec: "verify_spec verify_config_default fixed_hash_ops fixed_hash_zeros ?fs
      = ([parse_failure (CkInvalidSize 48 0)], 2)"
    by (simp add: data_frame_empty_def check_spec_def checkpoint_from_bytes_def CHECKPOINT_DATA_SIZE_def
        fixed_hash_ops_def Let_def)
  have safe: "\<forall>f \<in> set (buffered_pending (buffered_new ?fs)). ts_safe (df_timestamp f)"
    unfolding p(1) by (simp add: data_frame_empty_def ts_safe_def)
  have "length ?fs < 2 ^ 64" by simp
  moreover have "0 \<le> sint (wp_idle_threshold_us (vc_warp_config verify_config_default))"
    "wp_max_warp_factor (vc_warp_config verify_config_default) = None"
    by (simp_all add: verify_config_default_def warp_config_default_def)
  ultimately obtain v' where v': "run_with_verification buffered_ops fixed_hash_ops
      (verifying_with_config (buffered_new ?fs) fixed_hash_zeros verify_config_default)
    = Some (Ok (ve_stats v', v') :: (_, unit) result)"
    "(ve_results v', unat (vs_events_processed (ve_stats v'))) = ([parse_failure (CkInvalidSize 48 0)], 2)"
    "vs_is_successful (ve_stats v') \<longleftrightarrow> (\<forall>r \<in> set (ve_results v'). vr_is_match r)"
    using run_with_verification_correct [OF buffered_src.data_source_axioms p(2) _ _ safe, of verify_config_default
      fixed_hash_ops fixed_hash_zeros, where 'e = unit, unfolded p(1) spec]
    by blast
  then show ?thesis by (auto simp: verifying_new_def parse_failure_def)
qed

definition stuck ::
    "'s source_ops \<Rightarrow> 'c callback_ops \<Rightarrow> ('s, 'c) verifying_engine \<Rightarrow>
     (('s, 'c) verifying_engine, 'e) result \<Rightarrow> bool" where
  "stuck ops cb v y \<longleftrightarrow>
     verifying_step ops cb v = (Ok (step_result_noop, None, v) :: (_, 'e) result)"

lemma verify_loop_stuck: "verify_loop ops cb v = Some y \<Longrightarrow> \<not> stuck ops cb v y"
proof (rule verify_loop.raw_induct [where P = "\<lambda>ops cb v y. \<not> stuck ops cb v y"])
qed (auto simp: stuck_def stops_on_def step_result_noop_def)

text \<open>
  On a source that is neither active nor has a frame (an empty journal source, the null
  source) \<open>run_with_verification\<close> never returns: \<open>play\<close> leaves the engine idle, where every step
  is a no-op that does not end the loop.
\<close>

theorem run_with_verification_diverges:
  assumes "\<not> ds_is_active ops source" and "\<not> fst (ds_has_next ops source)"
  shows "run_with_verification ops cb (verifying_with_config source c config)
    = (None :: (_, 'e) result option)"
proof -
  let ?v = "verifying_play ops (verifying_with_config source c config)"
  have "en_state (ve_engine ?v) = RS_Idle"
    using assms by (auto simp: verifying_play_def verifying_with_config_def play_def
        engine_with_data_source_def Let_def split: prod.splits)
  then have "verifying_step ops cb ?v = (Ok (step_result_noop, None, ?v) :: (_, 'e) result)"
    by (simp add: verifying_step_def step_def step_result_noop_def Let_def)
  then have "verify_loop ops cb ?v \<noteq> Some y" for y :: "(_, 'e) result"
    using verify_loop_stuck [of ops cb ?v y] by (auto simp: stuck_def)
  then have "verify_loop ops cb ?v = (None :: (_, 'e) result option)"
    by (cases "verify_loop ops cb ?v :: (_, 'e) result option") auto
  then show ?thesis by (simp add: run_with_verification_def)
qed

theorem run_with_verification_diverges_witness:
  "run_with_verification journal_ops fixed_hash_ops
     (verifying_with_config (journal_source_from_frames []) fixed_hash_zeros verify_config_default)
    = (None :: (_, unit) result option)"
  by (rule run_with_verification_diverges)
    (simp_all add: journal_ops_def journal_source_from_frames_def default_has_next_def journal_source_peek_def)

end
