(* ===== verification/Verify_Report.thy ===== *)
theory Verify_Report
  imports Verify_Engine
begin

text \<open>
  \<open>verify/report.rs\<close>: the comparison report and its text, JSON and one-line forms.
  A slice of a hash string that is too short is \<open>Panic\<close>.
\<close>

datatype severity = SevInfo | SevWarning | SevError | SevCritical

fun severity_as_str :: "severity \<Rightarrow> string" where
  "severity_as_str SevInfo = ''INFO''"
| "severity_as_str SevWarning = ''WARN''"
| "severity_as_str SevError = ''ERROR''"
| "severity_as_str SevCritical = ''CRITICAL''"

record report_entry =
  re_severity :: severity
  re_sequence :: "u64 option"
  re_timestamp :: "i64 option"
  re_message :: string
  re_details :: "string option"

definition entry_info :: "string \<Rightarrow> report_entry" where
  "entry_info m = \<lparr>re_severity = SevInfo, re_sequence = None, re_timestamp = None, re_message = m,
     re_details = None\<rparr>"

definition entry_warning :: "string \<Rightarrow> report_entry" where
  "entry_warning m = \<lparr>re_severity = SevWarning, re_sequence = None, re_timestamp = None,
     re_message = m, re_details = None\<rparr>"

definition entry_error :: "string \<Rightarrow> report_entry" where
  "entry_error m = \<lparr>re_severity = SevError, re_sequence = None, re_timestamp = None, re_message = m,
     re_details = None\<rparr>"

definition entry_critical :: "string \<Rightarrow> report_entry" where
  "entry_critical m = \<lparr>re_severity = SevCritical, re_sequence = None, re_timestamp = None,
     re_message = m, re_details = None\<rparr>"

definition entry_with_sequence :: "u64 \<Rightarrow> report_entry \<Rightarrow> report_entry" where
  "entry_with_sequence s e = e\<lparr>re_sequence := Some s\<rparr>"

definition entry_with_timestamp :: "i64 \<Rightarrow> report_entry \<Rightarrow> report_entry" where
  "entry_with_timestamp t e = e\<lparr>re_timestamp := Some t\<rparr>"

definition entry_with_details :: "string \<Rightarrow> report_entry \<Rightarrow> report_entry" where
  "entry_with_details d e = e\<lparr>re_details := Some d\<rparr>"

fun join_with :: "string \<Rightarrow> string list \<Rightarrow> string" where
  "join_with sep [] = []"
| "join_with sep [s] = s"
| "join_with sep (s # ss) = s @ sep @ join_with sep ss"

definition nl :: string where
  "nl = [CHR 10]"

definition entry_to_text :: "report_entry \<Rightarrow> string" where
  "entry_to_text e =
     (let parts = [''['' @ severity_as_str (re_severity e) @ '']''] @
            (case re_sequence e of None \<Rightarrow> [] | Some s \<Rightarrow> [''seq='' @ show_nat (unat s)]) @
            (case re_timestamp e of None \<Rightarrow> [] | Some t \<Rightarrow> [''ts='' @ show_int (sint t)]) @
            [re_message e];
          line = join_with '' '' parts in
      case re_details e of None \<Rightarrow> line | Some d \<Rightarrow> line @ nl @ ''  '' @ d)"

datatype report_status = RepPass | RepFail | RepIncomplete

fun status_as_str :: "report_status \<Rightarrow> string" where
  "status_as_str RepPass = ''PASS''"
| "status_as_str RepFail = ''FAIL''"
| "status_as_str RepIncomplete = ''INCOMPLETE''"

record mismatch_detail =
  md_sequence :: u64
  md_timestamp :: i64
  md_expected_hash :: string
  md_actual_hash :: string

fun mismatch_from_result :: "verification_result \<Rightarrow> mismatch_detail option" where
  "mismatch_from_result (VR_Mismatch s t e a) =
     Some \<lparr>md_sequence = s, md_timestamp = t, md_expected_hash = to_hex e, md_actual_hash = to_hex a\<rparr>"
| "mismatch_from_result _ = None"

definition mismatch_to_text :: "mismatch_detail \<Rightarrow> string" where
  "mismatch_to_text m =
     ''Checkpoint '' @ show_nat (unat (md_sequence m)) @ '' (ts='' @ show_int (sint (md_timestamp m)) @
     '')'' @ nl @ ''  Expected: '' @ md_expected_hash m @ nl @ ''  Actual:   '' @ md_actual_hash m"

record comparison_report =
  rp_title :: string
  rp_status :: report_status
  rp_stats :: verification_stats
  rp_entries :: "report_entry list"
  rp_mismatches :: "mismatch_detail list"
  rp_recommendations :: "string list"

definition report_new :: comparison_report where
  "report_new =
     \<lparr>rp_title = ''Replay Verification Report'', rp_status = RepIncomplete,
      rp_stats = verification_stats_new, rp_entries = [], rp_mismatches = [], rp_recommendations = []\<rparr>"

text \<open>The entry of one mismatch, with the first 16 characters of both hashes.\<close>

definition mismatch_entry :: "mismatch_detail \<Rightarrow> (report_entry, 'e) result" where
  "mismatch_entry m =
     rbind (subslice (md_expected_hash m) 0 16) (\<lambda>ex.
     rbind (subslice (md_actual_hash m) 0 16) (\<lambda>ac.
     Ok (entry_with_details (''Expected: '' @ ex @ '', Actual: '' @ ac)
          (entry_with_timestamp (md_timestamp m)
            (entry_with_sequence (md_sequence m)
              (entry_error (''Mismatch at checkpoint '' @ show_nat (unat (md_sequence m)))))))))"

fun mismatch_entries :: "mismatch_detail list \<Rightarrow> (report_entry list, 'e) result" where
  "mismatch_entries [] = Ok []"
| "mismatch_entries (m # ms) =
     rbind (mismatch_entry m) (\<lambda>e. map_ok (\<lambda>es. e # es) (mismatch_entries ms))"

fun error_entries :: "verification_result list \<Rightarrow> report_entry list" where
  "error_entries [] = []"
| "error_entries (VR_Error m # rs) = entry_critical (''Error: '' @ m) # error_entries rs"
| "error_entries (_ # rs) = error_entries rs"

definition generate_recommendations :: "comparison_report \<Rightarrow> comparison_report" where
  "generate_recommendations r =
     (let s = rp_stats r in
      r\<lparr>rp_recommendations := rp_recommendations r @
        (if \<not> vs_is_successful s
         then
           (if vs_checkpoints_mismatched s > 0
            then [''Review state computation at the first mismatched checkpoint''] @
              (case vs_first_mismatch_sequence s of
                 None \<Rightarrow> []
               | Some q \<Rightarrow> [''Debug starting from checkpoint sequence '' @ show_nat (unat q)]) @
              (if vs_checkpoints_mismatched s > 5
               then [''Multiple mismatches suggest a systematic issue in state computation''] else [])
            else []) @
           (if vs_errors s > 0
            then [''Check journal file integrity'', ''Verify checkpoint record format''] else [])
         else if vs_checkpoints_found s = 0
         then [''No checkpoints found - consider adding checkpoint recording'']
         else [])\<rparr>)"

definition rate_severity :: "f64 \<Rightarrow> severity" where
  "rate_severity rate = (if f64_ge rate 100 then SevInfo else if f64_ge rate 95 then SevWarning else SevError)"

definition report_from_stats ::
    "verification_stats \<Rightarrow> verification_result list \<Rightarrow> (comparison_report, 'e) result" where
  "report_from_stats stats results =
     (let mismatches = concat (map (\<lambda>r. case mismatch_from_result r of None \<Rightarrow> [] | Some d \<Rightarrow> [d]) results) in
      rbind (mismatch_entries mismatches) (\<lambda>mes.
      let report = report_new
            \<lparr>rp_stats := stats,
             rp_status := (if vs_is_successful stats then RepPass else RepFail),
             rp_mismatches := mismatches,
             rp_entries :=
               [entry_info (''Processed '' @ show_nat (unat (vs_events_processed stats)) @ '' events with '' @
                  show_nat (unat (vs_checkpoints_found stats)) @ '' checkpoints''),
                \<lparr>re_severity = rate_severity (vs_match_rate stats), re_sequence = None, re_timestamp = None,
                 re_message = ''Match rate: '' @ f64_fixed 2 (vs_match_rate stats) @ ''%'', re_details = None\<rparr>] @
               mes @ error_entries results\<rparr> in
      Ok (generate_recommendations report)))"

definition report_pass :: "u64 \<Rightarrow> u64 \<Rightarrow> (comparison_report, 'e) result" where
  "report_pass events checkpoints =
     report_from_stats (verification_stats_new\<lparr>vs_events_processed := events,
       vs_checkpoints_found := checkpoints, vs_checkpoints_matched := checkpoints\<rparr>) []"

definition report_with_title :: "string \<Rightarrow> comparison_report \<Rightarrow> comparison_report" where
  "report_with_title t r = r\<lparr>rp_title := t\<rparr>"

definition add_entry :: "report_entry \<Rightarrow> comparison_report \<Rightarrow> comparison_report" where
  "add_entry e r = r\<lparr>rp_entries := rp_entries r @ [e]\<rparr>"

definition add_recommendation :: "string \<Rightarrow> comparison_report \<Rightarrow> comparison_report" where
  "add_recommendation s r = r\<lparr>rp_recommendations := rp_recommendations r @ [s]\<rparr>"

definition is_pass :: "comparison_report \<Rightarrow> bool" where
  "is_pass r \<longleftrightarrow> rp_status r = RepPass"

definition mismatch_count :: "comparison_report \<Rightarrow> usize" where
  "mismatch_count r = length (rp_mismatches r)"

text \<open>A numbered list, from \<open>i + 1\<close> on.\<close>

fun numbered :: "nat \<Rightarrow> string list \<Rightarrow> string list" where
  "numbered i [] = []"
| "numbered i (s # ss) = (show_nat (i + 1) @ ''. '' @ s) # numbered (i + 1) ss"

definition report_to_text :: "comparison_report \<Rightarrow> string" where
  "report_to_text r =
     (let rule = replicate 60 (CHR ''=''); s = rp_stats r in
      join_with nl
        ([rule, rp_title r, rule, [], ''Status: '' @ status_as_str (rp_status r), [],
          ''--- Statistics ---'',
          ''Events processed:      '' @ show_nat (unat (vs_events_processed s)),
          ''Checkpoints found:     '' @ show_nat (unat (vs_checkpoints_found s)),
          ''Checkpoints matched:   '' @ show_nat (unat (vs_checkpoints_matched s)),
          ''Checkpoints mismatched: '' @ show_nat (unat (vs_checkpoints_mismatched s)),
          ''Errors:                '' @ show_nat (unat (vs_errors s)),
          ''Match rate:            '' @ f64_fixed 2 (vs_match_rate s) @ ''%'', []] @
         (if rp_entries r = [] then []
          else ''--- Log ---'' # map entry_to_text (rp_entries r) @ [[]]) @
         (if rp_mismatches r = [] then []
          else ''--- Mismatch Details ---'' #
            concat (map (\<lambda>l. [l, []]) (numbered 0 (map mismatch_to_text (rp_mismatches r))))) @
         (if rp_recommendations r = [] then []
          else ''--- Recommendations ---'' # numbered 0 (rp_recommendations r) @ [[]]) @
         [rule]))"

definition quote_char :: string where
  "quote_char = [CHR 34]"

definition replace_quotes :: "string \<Rightarrow> string" where
  "replace_quotes s = concat (map (\<lambda>c. if c = CHR 34 then [CHR 92, CHR 34] else [c]) s)"

definition json_field :: "string \<Rightarrow> string \<Rightarrow> string" where
  "json_field name val = quote_char @ name @ quote_char @ '': '' @ val"

definition json_string :: "string \<Rightarrow> string" where
  "json_string s = quote_char @ s @ quote_char"

fun json_mismatches :: "mismatch_detail list \<Rightarrow> string" where
  "json_mismatches [] = []"
| "json_mismatches (m # ms) =
     ''    {'' @ nl @
     ''      '' @ json_field ''sequence'' (show_nat (unat (md_sequence m))) @ '','' @ nl @
     ''      '' @ json_field ''timestamp'' (show_int (sint (md_timestamp m))) @ '','' @ nl @
     ''      '' @ json_field ''expected_hash'' (json_string (md_expected_hash m)) @ '','' @ nl @
     ''      '' @ json_field ''actual_hash'' (json_string (md_actual_hash m)) @ nl @
     (if ms = [] then ''    }'' else ''    },'') @ nl @ json_mismatches ms"

fun json_recommendations :: "string list \<Rightarrow> string" where
  "json_recommendations [] = []"
| "json_recommendations (r # rs) =
     ''    '' @ json_string (replace_quotes r) @ (if rs = [] then [] else '','') @ nl @
     json_recommendations rs"

definition report_to_json :: "comparison_report \<Rightarrow> string" where
  "report_to_json r =
     (let s = rp_stats r in
      ''{'' @ nl @
      ''  '' @ json_field ''title'' (json_string (rp_title r)) @ '','' @ nl @
      ''  '' @ json_field ''status'' (json_string (status_as_str (rp_status r))) @ '','' @ nl @
      ''  '' @ json_field ''stats'' ''{'' @ nl @
      ''    '' @ json_field ''events_processed'' (show_nat (unat (vs_events_processed s))) @ '','' @ nl @
      ''    '' @ json_field ''checkpoints_found'' (show_nat (unat (vs_checkpoints_found s))) @ '','' @ nl @
      ''    '' @ json_field ''checkpoints_matched'' (show_nat (unat (vs_checkpoints_matched s))) @ '','' @ nl @
      ''    '' @ json_field ''checkpoints_mismatched'' (show_nat (unat (vs_checkpoints_mismatched s))) @ '','' @ nl @
      ''    '' @ json_field ''errors'' (show_nat (unat (vs_errors s))) @ '','' @ nl @
      ''    '' @ json_field ''match_rate'' (f64_fixed 2 (vs_match_rate s)) @ nl @
      ''  },'' @ nl @
      ''  '' @ json_field ''mismatches'' ''['' @ nl @ json_mismatches (rp_mismatches r) @ ''  ],'' @ nl @
      ''  '' @ json_field ''recommendations'' ''['' @ nl @ json_recommendations (rp_recommendations r) @
      ''  ]'' @ nl @ ''}'' @ nl)"

definition report_to_summary :: "comparison_report \<Rightarrow> string" where
  "report_to_summary r =
     (let s = rp_stats r in
      status_as_str (rp_status r) @ '': '' @ show_nat (unat (vs_events_processed s)) @ '' events, '' @
      show_nat (unat (vs_checkpoints_matched s)) @ ''/'' @ show_nat (unat (vs_checkpoints_found s)) @
      '' checkpoints matched ('' @ f64_fixed 1 (vs_match_rate s) @ ''%)'')"

section \<open>The report tells what happened\<close>

definition hashes_wf :: "verification_result \<Rightarrow> bool" where
  "hashes_wf r \<longleftrightarrow> (case r of VR_Mismatch s t e a \<Rightarrow> length e = 32 \<and> length a = 32 | _ \<Rightarrow> True)"

lemma mismatch_entries_total:
  "\<forall>m \<in> set ms. 16 \<le> length (md_expected_hash m) \<and> 16 \<le> length (md_actual_hash m) \<Longrightarrow>
     \<exists>es. mismatch_entries ms = (Ok es :: (_, 'e) result) \<and> length es = length ms
       \<and> (\<forall>e \<in> set es. re_severity e = SevError)"
  by (induction ms) (auto simp: mismatch_entry_def subslice_def entry_with_details_def
      entry_with_timestamp_def entry_with_sequence_def entry_error_def)

lemma collected_mismatches:
  "length (concat (map (\<lambda>r. case mismatch_from_result r of None \<Rightarrow> [] | Some d \<Rightarrow> [d]) rs))
     = length (filter vr_is_mismatch rs)"
  "\<forall>r \<in> set rs. hashes_wf r \<Longrightarrow>
     m \<in> set (concat (map (\<lambda>r. case mismatch_from_result r of None \<Rightarrow> [] | Some d \<Rightarrow> [d]) rs)) \<Longrightarrow>
     length (md_expected_hash m) = 64 \<and> length (md_actual_hash m) = 64"
proof (induction rs)
  case (Cons r rs)
  {
    case 1
    with Cons show ?case by (cases r) simp_all
  next
    case 2
    with Cons show ?case by (cases r) (auto simp: hashes_wf_def length_to_hex)
  }
qed simp_all

lemma length_error_entries: "length (error_entries rs) = length (filter vr_is_error rs)"
  by (induction rs rule: error_entries.induct) simp_all

text \<open>
  For the statistics and results of a verification, \<open>from_stats\<close> does not panic; the report
  passes exactly when every verdict is a match, lists every mismatch, has one log entry per
  mismatch and per error besides its two general ones, and gives a recommendation whenever it
  fails.
\<close>

theorem report_faithful:
  assumes "accounts v" and "\<forall>r \<in> set (ve_results v). hashes_wf r"
  shows "\<exists>rep. report_from_stats (ve_stats v) (ve_results v) = (Ok rep :: (_, 'e) result) \<and>
    (is_pass rep \<longleftrightarrow> (\<forall>r \<in> set (ve_results v). vr_is_match r)) \<and>
    mismatch_count rep = unat (vs_checkpoints_mismatched (ve_stats v)) \<and>
    length (rp_entries rep) = 2 + mismatch_count rep + unat (vs_errors (ve_stats v)) \<and>
    (\<not> is_pass rep \<longrightarrow> rp_recommendations rep \<noteq> [])"
proof -
  let ?ms = "concat (map (\<lambda>r. case mismatch_from_result r of None \<Rightarrow> [] | Some d \<Rightarrow> [d]) (ve_results v))"
  have "\<forall>m \<in> set ?ms. 16 \<le> length (md_expected_hash m) \<and> 16 \<le> length (md_actual_hash m)"
    using collected_mismatches(2) [OF assms(2)] by fastforce
  from mismatch_entries_total [OF this] obtain es where
    es: "mismatch_entries ?ms = (Ok es :: (_, 'e) result)" "length es = length ?ms" by blast
  have n: "length ?ms = unat (vs_checkpoints_mismatched (ve_stats v))"
    "length (error_entries (ve_results v)) = unat (vs_errors (ve_stats v))"
    using assms(1) by (simp_all only: collected_mismatches(1) length_error_entries) (simp_all add: accounts_def Let_def)
  have pass: "vs_is_successful (ve_stats v) \<longleftrightarrow> (\<forall>r \<in> set (ve_results v). vr_is_match r)"
    by (rule accounts_successful [OF assms(1)])
  have "vs_is_successful (ve_stats v) \<or> vs_checkpoints_mismatched (ve_stats v) > 0 \<or> vs_errors (ve_stats v) > 0"
    by (auto simp: vs_is_successful_def word_gt_0)
  with es n pass show ?thesis
    by (auto simp: report_from_stats_def generate_recommendations_def is_pass_def mismatch_count_def
        report_new_def Let_def)
qed

text \<open>An engine that has recorded one mismatch.\<close>

definition mismatched_engine :: "(unit, sha256) verifying_engine" where
  "mismatched_engine =
     \<lparr>ve_engine = engine_new, ve_callback = fixed_hash_zeros,
      ve_comparator = \<lparr>rc_mismatches = [\<lparr>mm_sequence = 1, mm_timestamp = 2,
          mm_original_hash = replicate 32 1, mm_replayed_hash = replicate 32 0\<rparr>],
        rc_checkpoints_compared = 1, rc_checkpoints_matched = 0\<rparr>,
      ve_config = verify_config_default,
      ve_stats = verification_stats_new\<lparr>vs_events_processed := 1, vs_checkpoints_found := 1,
        vs_checkpoints_mismatched := 1, vs_first_mismatch_sequence := Some 1\<rparr>,
      ve_results = [VR_Mismatch 1 2 (replicate 32 1) (replicate 32 0)]\<rparr>"

theorem report_faithful_witness:
  "\<exists>rep. report_from_stats (ve_stats mismatched_engine) (ve_results mismatched_engine)
      = (Ok rep :: (_, unit) result) \<and> \<not> is_pass rep \<and> mismatch_count rep = 1 \<and> length (rp_entries rep) = 3"
proof -
  have "accounts mismatched_engine" "\<forall>r \<in> set (ve_results mismatched_engine). hashes_wf r"
    by (simp_all add: mismatched_engine_def accounts_def verification_stats_new_def hashes_wf_def Let_def)
  from report_faithful [OF this, where 'e = unit] show ?thesis
    by (auto simp: mismatched_engine_def verification_stats_new_def)
qed

end
