(* ===== verification/Journal_Writer.thy ===== *)
theory Journal_Writer
  imports Journal_Schema Ring_Buffer
begin

text \<open>
  \<open>journal/writer.rs\<close>: the journal writer, whose calls push entries into the ring, and its
  background thread, which moves them into the memory-mapped file. The state shared by
  the two threads and the mapped file are fields of one record; a call and an iteration
  of the background loop are functions on it, composed by \<open>run_session\<close> in any order, so a
  theorem about all operation lists is about all interleavings of calls and iterations
  (the interleaving inside the ring operations is treated in \<open>Ring_Concurrent\<close>). Results
  of the operating system are arguments.
\<close>

definition MIN_FILE_SIZE :: u64 where
  "MIN_FILE_SIZE = 1024 * 1024"

definition MAX_FILE_SIZE :: u64 where
  "MAX_FILE_SIZE = 4 * 1024 * 1024 * 1024"

definition DEFAULT_FILE_SIZE :: u64 where
  "DEFAULT_FILE_SIZE = 64 * 1024 * 1024"

definition DEFAULT_RING_BUFFER_CAPACITY :: usize where
  "DEFAULT_RING_BUFFER_CAPACITY = 16384"

definition SPIN_ITERATIONS :: u32 where
  "SPIN_ITERATIONS = 100"

record writer_config =
  wc_ring_buffer_capacity :: usize
  wc_file_size :: u64
  wc_compress_schema :: bool
  wc_sync_on_close :: bool
  wc_prefault_pages :: bool

definition writer_config_default :: writer_config where
  "writer_config_default =
     \<lparr>wc_ring_buffer_capacity = DEFAULT_RING_BUFFER_CAPACITY, wc_file_size = DEFAULT_FILE_SIZE,
      wc_compress_schema = True, wc_sync_on_close = True, wc_prefault_pages = True\<rparr>"

definition writer_config_minimal :: writer_config where
  "writer_config_minimal =
     \<lparr>wc_ring_buffer_capacity = 256, wc_file_size = MIN_FILE_SIZE,
      wc_compress_schema = True, wc_sync_on_close = False, wc_prefault_pages = False\<rparr>"

datatype writer_error =
    WrIo io_error
  | WrDiskFull
  | WrDegraded
  | WrClosed
  | WrInvalidConfig string
  | WrSchema schema_error
  | WrFileExists string

definition writer_config_validate :: "writer_config \<Rightarrow> (unit, writer_error) result" where
  "writer_config_validate c =
     (if wc_ring_buffer_capacity c < 16
      then Err (WrInvalidConfig ''ring_buffer_capacity must be at least 16'')
      else if wc_file_size c < MIN_FILE_SIZE
      then Err (WrInvalidConfig
             (''file_size must be at least '' @ show_nat (unat MIN_FILE_SIZE) @ '' bytes''))
      else if wc_file_size c > MAX_FILE_SIZE
      then Err (WrInvalidConfig
             (''file_size must be at most '' @ show_nat (unat MAX_FILE_SIZE) @ '' bytes''))
      else Ok ())"

text \<open>\<open>impl From<std::io::Error> for WriterError\<close>: full disks are recognised by kind or code.\<close>

fun writer_error_from_io :: "io_error \<Rightarrow> writer_error" where
  "writer_error_from_io (IoError kind raw msg) =
     (if kind = IoWriteZero \<or> raw = Some 28 \<or> raw = Some 112 then WrDiskFull
      else WrIo (IoError kind raw msg))"

section \<open>State\<close>

record shared_state =
  sh_ring :: "buffer_entry ring"
  sh_shutdown :: bool
  sh_degraded :: bool
  sh_records_written :: u64
  sh_write_position :: u64
  sh_last_timestamp :: u64

definition shared_state_new :: "usize \<Rightarrow> (shared_state, 'e) result" where
  "shared_state_new capacity =
     map_ok (\<lambda>ring. \<lparr>sh_ring = ring, sh_shutdown = False, sh_degraded = False,
       sh_records_written = 0, sh_write_position = 0, sh_last_timestamp = 0\<rparr>) (ring_new capacity)"

text \<open>The local variables of \<open>background_writer\<close>.\<close>

record bg_locals =
  bg_spin_count :: u32
  bg_sequence :: u32

record journal_writer =
  jw_config :: writer_config
  jw_shared :: shared_state
  jw_file :: bytes
  jw_bg :: bg_locals
  jw_sequence :: u32
  jw_closed :: bool

text \<open>What the system calls of a constructor return, in their order.\<close>

record os_create =
  os_open :: "io_error option"
  os_set_len :: "io_error option"
  os_map :: "io_error option"
  os_flush :: "io_error option"
  os_map_bg :: "io_error option"

definition os_ok :: os_create where
  "os_ok = \<lparr>os_open = None, os_set_len = None, os_map = None, os_flush = None, os_map_bg = None\<rparr>"

definition os_check :: "io_error option \<Rightarrow> (unit, writer_error) result" where
  "os_check e = (case e of None \<Rightarrow> Ok () | Some err \<Rightarrow> Err (writer_error_from_io err))"

definition start_writer ::
    "writer_config \<Rightarrow> bytes \<Rightarrow> u64 \<Rightarrow> u32 \<Rightarrow> (journal_writer, writer_error) result" where
  "start_writer config mmap write_position sequence =
     rbind (shared_state_new (wc_ring_buffer_capacity config)) (\<lambda>state.
       Ok \<lparr>jw_config = config, jw_shared = state\<lparr>sh_write_position := write_position\<rparr>,
           jw_file = mmap, jw_bg = \<lparr>bg_spin_count = 0, bg_sequence = 0\<rparr>,
           jw_sequence = sequence, jw_closed = False\<rparr>)"

text \<open>
  The common body of \<open>new\<close> and \<open>with_clock\<close>: \<open>now\<close> is the system clock, \<open>session\<close> the
  injected clock's reading if there is one. Prefaulting only reads the map.
\<close>

definition writer_create ::
    "deps \<Rightarrow> os_create \<Rightarrow> nat option \<Rightarrow> timestamp option \<Rightarrow> writer_config \<Rightarrow>
     (journal_writer, writer_error) result" where
  "writer_create d os now session config =
     rbind (writer_config_validate config) (\<lambda>_.
     rbind (os_check (os_open os)) (\<lambda>_.
     rbind (os_check (os_set_len os)) (\<lambda>_.
     rbind (os_check (os_map os)) (\<lambda>_.
     let mmap0 = replicate (unat (wc_file_size config)) 0 in
     rbind (map_err WrSchema (create_journal_header d now (wc_compress_schema config)))
       (\<lambda>(header0, schema_block).
     let header = (case session of None \<Rightarrow> header0
                   | Some t \<Rightarrow> header0\<lparr>fh_session_start := t\<rparr>);
         schema_bytes = serialize_block schema_block in
     rbind (write_at mmap0 0 (file_header_to_bytes header)) (\<lambda>mmap1.
     rbind (write_at mmap1 FILE_HEADER_SIZE schema_bytes) (\<lambda>mmap2.
     rbind (os_check (os_flush os)) (\<lambda>_.
     rbind (os_check (os_map_bg os)) (\<lambda>_.
       start_writer config mmap2 (fh_first_record header) 0)))))))))"

definition writer_new ::
    "deps \<Rightarrow> os_create \<Rightarrow> nat option \<Rightarrow> writer_config \<Rightarrow> (journal_writer, writer_error) result" where
  "writer_new d os now config = writer_create d os now None config"

definition writer_with_clock ::
    "deps \<Rightarrow> os_create \<Rightarrow> nat option \<Rightarrow> writer_config \<Rightarrow> timestamp \<Rightarrow>
     (journal_writer, writer_error) result" where
  "writer_with_clock d os now config clock_now = writer_create d os now (Some clock_now) config"

text \<open>\<open>append\<close>: \<open>mapped\<close> is the result of opening and mapping the existing file.\<close>

definition writer_append ::
    "deps \<Rightarrow> (bytes, io_error) result \<Rightarrow> io_error option \<Rightarrow> writer_config \<Rightarrow>
     (journal_writer, writer_error) result" where
  "writer_append d mapped map_bg config =
     rbind (writer_config_validate config) (\<lambda>_.
     rbind (map_err writer_error_from_io mapped) (\<lambda>mmap.
     if length mmap < FILE_HEADER_SIZE
     then Err (WrIo (IoError IoInvalidData None ''File too small to contain header''))
     else
       let header = file_header_from_bytes (take FILE_HEADER_SIZE mmap) in
       rbind (map_err (\<lambda>e. WrIo (IoError IoInvalidData None (header_error_display e)))
                (file_header_validate header)) (\<lambda>_.
       if fh_record_count header = 0
       then rbind (os_check map_bg) (\<lambda>_.
              start_writer config mmap (fh_first_record header) (ucast (fh_record_count header)))
       else Err (WrIo (IoError IoUnsupported None
              ''Append to non-empty journal not yet implemented'')))))"

section \<open>Calls of the writer\<close>

text \<open>
  The part of \<open>write\<close> and \<open>write_with_timestamp\<close> after the timestamp is known. The first
  component is the \<open>Err\<close> returned, if any; a full ring drops the entry.
\<close>

definition enqueue ::
    "buffer_entry \<Rightarrow> journal_writer \<Rightarrow> (writer_error option \<times> journal_writer, unit) result" where
  "enqueue entry w =
     rbind (ring_try_push (sh_ring (jw_shared w)) entry) (\<lambda>(pushed, ring).
     if \<not> pushed
     then Ok (if sh_degraded (jw_shared w) then Some WrDegraded else None, w)
     else Ok (None, w\<lparr>jw_shared := (jw_shared w)\<lparr>sh_ring := ring\<rparr>,
                      jw_sequence := jw_sequence w + 1\<rparr>))"

definition write_with_timestamp ::
    "record_type \<Rightarrow> u8 \<Rightarrow> bytes \<Rightarrow> timestamp \<Rightarrow> journal_writer \<Rightarrow>
     (writer_error option \<times> journal_writer, unit) result" where
  "write_with_timestamp rt exchange_id payload t w =
     (if jw_closed w then Ok (Some WrClosed, w)
      else enqueue (buffer_entry_new (record_type_as_u16 rt) exchange_id t payload) w)"

text \<open>\<open>write\<close>: \<open>now\<close> is what the injected clock, or else the system clock, returns.\<close>

definition writer_write ::
    "record_type \<Rightarrow> u8 \<Rightarrow> bytes \<Rightarrow> i64 \<Rightarrow> journal_writer \<Rightarrow>
     (writer_error option \<times> journal_writer, unit) result" where
  "writer_write rt exchange_id payload now w =
     (if jw_closed w then Ok (Some WrClosed, w)
      else enqueue (buffer_entry_new (record_type_as_u16 rt) exchange_id now payload) w)"

definition is_degraded :: "journal_writer \<Rightarrow> bool" where
  "is_degraded w = sh_degraded (jw_shared w)"

definition records_written :: "journal_writer \<Rightarrow> u64" where
  "records_written w = sh_records_written (jw_shared w)"

definition pending_records :: "journal_writer \<Rightarrow> usize" where
  "pending_records w = ring_len (sh_ring (jw_shared w))"

section \<open>The background thread\<close>

text \<open>The body of the loop for a popped entry.\<close>

definition write_entry :: "deps \<Rightarrow> buffer_entry \<Rightarrow> journal_writer \<Rightarrow> (journal_writer, unit) result" where
  "write_entry d entry w =
     (let sh = jw_shared w; mmap = jw_file w in
      rbind (payload_len (be_payload entry)) (\<lambda>payload_len.
      let total_size = RECORD_HEADER_SIZE + payload_len;
          write_pos = unat (sh_write_position sh) in
      rbind (uadd write_pos total_size) (\<lambda>entry_end.
      rbind (uadd entry_end FILE_FOOTER_SIZE) (\<lambda>needed.
      if needed > length mmap then Ok (w\<lparr>jw_shared := sh\<lparr>sh_degraded := True\<rparr>\<rparr>)
      else
        rbind (payload_as_slice (be_payload entry)) (\<lambda>payload.
        let header = \<lparr>rh_timestamp = be_timestamp entry, rh_payload_size = of_nat payload_len,
              rh_record_type = be_record_type entry, rh_exchange_id = be_exchange_id entry,
              rh_flags = 0, rh_sequence_number = bg_sequence (jw_bg w),
              rh_crc32 = crc32fast_hash d payload\<rparr> in
        rbind (write_at mmap write_pos (record_header_to_bytes header)) (\<lambda>mmap1.
        rbind (write_at mmap1 (write_pos + RECORD_HEADER_SIZE) payload) (\<lambda>mmap2.
        Ok (w\<lparr>jw_file := mmap2,
              jw_shared := sh\<lparr>sh_write_position := of_nat entry_end,
                sh_records_written := sh_records_written sh + 1,
                sh_last_timestamp := be_timestamp entry\<rparr>,
              jw_bg := (jw_bg w)\<lparr>bg_sequence := bg_sequence (jw_bg w) + 1\<rparr>\<rparr>))))))))"

text \<open>One iteration of the loop; the result tells whether the loop goes on.\<close>

definition background_iteration ::
    "deps \<Rightarrow> journal_writer \<Rightarrow> (bool \<times> journal_writer, unit) result" where
  "background_iteration d w =
     (let sh = jw_shared w in
      rbind (ring_pop (sh_ring sh)) (\<lambda>(popped, ring).
      case popped of
        Some entry \<Rightarrow>
          map_ok (Pair True)
            (write_entry d entry (w\<lparr>jw_shared := sh\<lparr>sh_ring := ring\<rparr>,
               jw_bg := (jw_bg w)\<lparr>bg_spin_count := 0\<rparr>\<rparr>))
      | None \<Rightarrow>
          if sh_shutdown sh \<and> ring_is_empty (sh_ring sh) then Ok (False, w)
          else
            let spin = bg_spin_count (jw_bg w) + 1 in
            Ok (True, w\<lparr>jw_bg := (jw_bg w)\<lparr>bg_spin_count :=
              (if spin \<ge> SPIN_ITERATIONS then 0 else spin)\<rparr>\<rparr>)))"

text \<open>The whole loop, run without interruption.\<close>

partial_function (option) background_writer ::
    "deps \<Rightarrow> journal_writer \<Rightarrow> (journal_writer, unit) result option" where
  "background_writer d w =
     (case background_iteration d w of
        Ok (continue, w') \<Rightarrow> if continue then background_writer d w' else Some (Ok w')
      | Err e \<Rightarrow> Some (Err e)
      | Panic \<Rightarrow> Some Panic)"

section \<open>Flush and close\<close>

text \<open>
  \<open>flush\<close> waits for the background thread; here the thread completes one iteration
  between two tests of the loop.
\<close>

definition flush_done :: "journal_writer \<Rightarrow> bool" where
  "flush_done w \<longleftrightarrow>
     sh_records_written (jw_shared w) \<ge> ucast (jw_sequence w)
     \<or> (sh_degraded (jw_shared w) \<and> ring_is_empty (sh_ring (jw_shared w)))"

partial_function (option) flush_loop ::
    "deps \<Rightarrow> journal_writer \<Rightarrow> (journal_writer, unit) result option" where
  "flush_loop d w =
     (if flush_done w then Some (Ok w)
      else case background_iteration d w of
        Ok (_, w') \<Rightarrow> flush_loop d w'
      | Err e \<Rightarrow> Some (Err e)
      | Panic \<Rightarrow> Some Panic)"

definition writer_flush ::
    "deps \<Rightarrow> journal_writer \<Rightarrow> (writer_error option \<times> journal_writer, unit) result option" where
  "writer_flush d w =
     (if jw_closed w then Some (Ok (Some WrClosed, w))
      else map_option (map_ok (\<lambda>w'. (None, w'))) (flush_loop d w))"

definition write_footer ::
    "io_error option \<Rightarrow> io_error option \<Rightarrow> journal_writer \<Rightarrow> (journal_writer, writer_error) result" where
  "write_footer map_error sync_error w =
     rbind (os_check map_error) (\<lambda>_.
     let sh = jw_shared w;
         last_timestamp = sh_last_timestamp sh in
     rbind (subslice (jw_file w) 0 FILE_HEADER_SIZE) (\<lambda>header_bytes.
     let header = (file_header_from_bytes header_bytes)
           \<lparr>fh_record_count := sh_records_written sh, fh_session_end := last_timestamp\<rparr> in
     rbind (write_at (jw_file w) 0 (file_header_to_bytes header)) (\<lambda>mmap1.
     rbind (uadd (unat (sh_write_position sh)) FILE_FOOTER_SIZE) (\<lambda>footer_end.
     let footer = file_footer_new (sh_records_written sh) (of_nat footer_end) last_timestamp in
     rbind (if footer_end \<le> length mmap1
            then write_at mmap1 (unat (sh_write_position sh)) (file_footer_to_bytes footer)
            else Ok mmap1) (\<lambda>mmap2.
     rbind (if wc_sync_on_close (jw_config w) then os_check sync_error else Ok ()) (\<lambda>_.
     Ok (w\<lparr>jw_file := mmap2\<rparr>)))))))"

text \<open>
  \<open>close\<close> (and \<open>drop\<close>, which ignores the result). \<open>None\<close> would be a background thread that
  never ends.
\<close>

definition close_internal ::
    "deps \<Rightarrow> io_error option \<Rightarrow> io_error option \<Rightarrow> journal_writer \<Rightarrow>
     (journal_writer, writer_error) result option" where
  "close_internal d map_error sync_error w =
     (if jw_closed w then Some (Ok w)
      else
        let w1 = w\<lparr>jw_closed := True, jw_shared := (jw_shared w)\<lparr>sh_shutdown := True\<rparr>\<rparr> in
        case background_writer d w1 of
          None \<Rightarrow> None
        | Some (Ok w2) \<Rightarrow> Some (write_footer map_error sync_error w2)
        | Some _ \<Rightarrow> Some (Err (WrIo (IoError IoOther None ''Background thread panicked''))))"

section \<open>What the file holds\<close>

definition entry_payload :: "buffer_entry \<Rightarrow> bytes" where
  "entry_payload e = (case (payload_as_slice (be_payload e) :: (bytes, unit) result) of
     Ok p \<Rightarrow> p | _ \<Rightarrow> [])"

text \<open>An entry built from a slice, which is less than \<open>isize::MAX\<close> bytes long.\<close>

definition entry_wf :: "buffer_entry \<Rightarrow> bool" where
  "entry_wf e \<longleftrightarrow> be_payload e = payload_from_slice (entry_payload e)
     \<and> length (entry_payload e) < 2 ^ 63"

lemma entry_payload_new [simp]: "entry_payload (buffer_entry_new rt ex t p) = p"
  by (simp add: entry_payload_def buffer_entry_new_def)

lemma entry_wf_new [simp]: "length p < 2 ^ 63 \<Longrightarrow> entry_wf (buffer_entry_new rt ex t p)"
  by (simp add: entry_wf_def) (simp add: buffer_entry_new_def)

definition entry_size :: "buffer_entry \<Rightarrow> nat" where
  "entry_size e = 24 + length (entry_payload e)"

text \<open>The record that the \<open>i\<close>-th written entry becomes.\<close>

definition written_record :: "deps \<Rightarrow> nat \<Rightarrow> buffer_entry \<Rightarrow> record_header \<times> bytes" where
  "written_record d i e =
     (\<lparr>rh_timestamp = be_timestamp e, rh_payload_size = of_nat (length (entry_payload e)),
       rh_record_type = be_record_type e, rh_exchange_id = be_exchange_id e, rh_flags = 0,
       rh_sequence_number = of_nat i, rh_crc32 = crc32fast_hash d (entry_payload e)\<rparr>,
      entry_payload e)"

fun written_records :: "deps \<Rightarrow> nat \<Rightarrow> buffer_entry list \<Rightarrow> (record_header \<times> bytes) list" where
  "written_records d i [] = []"
| "written_records d i (e # es) = written_record d i e # written_records d (Suc i) es"

text \<open>
  The entries that find room, of a sequence of accepted ones: an entry is written if its
  record and a footer fit, and is dropped otherwise (a later, smaller one may still fit).
\<close>

fun placed :: "nat \<Rightarrow> buffer_entry list \<Rightarrow> buffer_entry list" where
  "placed room [] = []"
| "placed room (e # es) =
     (if entry_size e + FILE_FOOTER_SIZE \<le> room then e # placed (room - entry_size e) es
      else placed room es)"

definition placed_size :: "buffer_entry list \<Rightarrow> nat" where
  "placed_size es = sum_list (map entry_size es)"

lemma written_records_append:
  "written_records d i (es @ es') = written_records d i es @ written_records d (i + length es) es'"
  by (induction es arbitrary: i) simp_all

lemma placed_size_simps [simp]:
  "placed_size [] = 0"
  "placed_size (e # es) = entry_size e + placed_size es"
  "placed_size (es @ es') = placed_size es + placed_size es'"
  by (simp_all add: placed_size_def)

lemma placed_snoc:
  "placed room (es @ [e]) = placed room es @
     (if entry_size e + FILE_FOOTER_SIZE \<le> room - placed_size (placed room es) then [e] else [])"
  by (induction es arbitrary: room) simp_all

lemma placed_fits:
  "placed room es \<noteq> [] \<Longrightarrow> placed_size (placed room es) + FILE_FOOTER_SIZE \<le> room"
proof (induction es arbitrary: room)
  case (Cons e es)
  then show ?case
    by (cases "placed (room - entry_size e) es = []") (fastforce simp: placed_size_def)+
qed simp

lemma placed_all:
  "placed_size es + FILE_FOOTER_SIZE \<le> room \<Longrightarrow> placed room es = es"
  by (induction es arbitrary: room) auto

lemma placed_length: "length (placed room es) \<le> length es"
  by (induction es arbitrary: room) (auto intro: le_SucI)

lemma placed_eq_iff: "placed room (es @ [e]) = es @ [e] \<longleftrightarrow>
   placed room es = es \<and> entry_size e + FILE_FOOTER_SIZE \<le> room - placed_size (placed room es)"
  using placed_length [of room es] by (auto simp: placed_snoc split: if_splits)

end
