(* ===== verification/Journal_Roundtrip.thy ===== *)
theory Journal_Roundtrip
  imports Journal_Writer Journal_Reader
begin

text \<open>
  The writer and the reader together. \<open>writer_inv\<close> says what the file and the shared state
  are after any interleaving of calls and background iterations, in terms of the list of
  accepted entries; every operation preserves it, \<open>close\<close> ends, and the reader returns
  from the closed file exactly the entries that were placed, in order.
\<close>

section \<open>The writer's invariant\<close>

definition file_inv :: "deps \<Rightarrow> bytes \<Rightarrow> nat \<Rightarrow> buffer_entry list \<Rightarrow> journal_writer \<Rightarrow> bool" where
  "file_inv d pre room fin w \<longleftrightarrow>
     (let ws = placed room fin; sh = jw_shared w in
      jw_file w = pre @ records_image (written_records d 0 ws) @ replicate (room - placed_size ws) 0
      \<and> length pre + room \<le> 2 ^ 32 \<and> FILE_FOOTER_SIZE \<le> room
      \<and> unat (sh_write_position sh) = length pre + placed_size ws
      \<and> sh_records_written sh = of_nat (length ws)
      \<and> sh_last_timestamp sh = (if ws = [] then 0 else be_timestamp (last ws))
      \<and> bg_sequence (jw_bg w) = of_nat (length ws)
      \<and> bg_spin_count (jw_bg w) < SPIN_ITERATIONS
      \<and> (sh_degraded sh \<longleftrightarrow> ws \<noteq> fin))"

definition writer_inv :: "deps \<Rightarrow> bytes \<Rightarrow> nat \<Rightarrow> buffer_entry list \<Rightarrow> journal_writer \<Rightarrow> bool" where
  "writer_inv d pre room acc w \<longleftrightarrow>
     ring_inv (sh_ring (jw_shared w)) \<and> (\<forall>e \<in> set acc. entry_wf e)
     \<and> (\<exists>fin. acc = fin @ ring_contents (sh_ring (jw_shared w)) \<and> file_inv d pre room fin w)
     \<and> jw_sequence w = of_nat (length acc)"

lemma length_written_record [simp]: "length (record_image (written_record d i e)) = entry_size e"
  by (simp add: written_record_def entry_size_def del: record_image.simps)

lemma length_written_records [simp]:
  "length (records_image (written_records d i es)) = placed_size es"
  by (induction es arbitrary: i) (simp_all del: record_image.simps)

lemma placed_size_le: "placed_size (placed room es) \<le> room"
  by (cases "placed room es = []") (auto dest: placed_fits)

lemma write_at_blank:
  "length bs \<le> z \<Longrightarrow> n = length xs \<Longrightarrow>
     write_at (xs @ replicate z 0) n bs = Ok (xs @ bs @ replicate (z - length bs) 0)"
  by (simp add: write_at_def)

lemma entry_payload_eq:
  assumes "entry_wf e"
  shows "payload_as_slice (be_payload e) = Ok (entry_payload e)"
    and "payload_len (be_payload e) = Ok (length (entry_payload e))"
  using assms payload_roundtrip payload_len_from_slice unfolding entry_wf_def by metis+

text \<open>A popped entry is appended to the file, or marks the writer degraded.\<close>

lemma write_entry_keeps:
  assumes inv: "file_inv d pre room fin w" and wf: "entry_wf e"
  shows "\<exists>w'. write_entry d e w = Ok w' \<and> file_inv d pre room (fin @ [e]) w'
    \<and> sh_ring (jw_shared w') = sh_ring (jw_shared w)
    \<and> sh_shutdown (jw_shared w') = sh_shutdown (jw_shared w)
    \<and> jw_sequence w' = jw_sequence w \<and> jw_closed w' = jw_closed w \<and> jw_config w' = jw_config w"
proof -
  let ?ws = "placed room fin" and ?p = "entry_payload e" and ?sh = "jw_shared w"
  let ?pos = "length pre + placed_size ?ws" and ?z = "room - placed_size ?ws"
  let ?img = "pre @ records_image (written_records d 0 ?ws)"
  have I: "jw_file w = ?img @ replicate ?z 0" "length pre + room \<le> 2 ^ 32"
    "unat (sh_write_position ?sh) = ?pos" "sh_records_written ?sh = of_nat (length ?ws)"
    "bg_sequence (jw_bg w) = of_nat (length ?ws)" "sh_degraded ?sh \<longleftrightarrow> ?ws \<noteq> fin"
    "FILE_FOOTER_SIZE \<le> room" "bg_spin_count (jw_bg w) < SPIN_ITERATIONS"
    using inv by (simp_all add: file_inv_def Let_def)
  have sz: "placed_size ?ws \<le> room" by (rule placed_size_le)
  have len: "length (jw_file w) = length pre + room" using I(1) sz by simp
  have small: "?pos + (24 + length ?p) < usize_limit" "?pos + (24 + length ?p) + 32 < usize_limit"
    using I(2) sz wf by (simp_all add: usize_limit_def entry_wf_def)
  note pay = entry_payload_eq [OF wf]
  show ?thesis
  proof (cases "entry_size e + 32 \<le> ?z")
    case False
    then have "?pos + (24 + length ?p) + 32 > length (jw_file w)"
      using len sz by (simp add: entry_size_def)
    then have "write_entry d e w = Ok (w\<lparr>jw_shared := ?sh\<lparr>sh_degraded := True\<rparr>\<rparr>)"
      using I(3) small by (simp add: pay write_entry_def Let_def format_sizes)
    moreover have "placed room (fin @ [e]) = ?ws" using False by (simp add: placed_snoc format_sizes)
    moreover have "?ws \<noteq> fin @ [e]" using placed_length [of room fin] by auto
    ultimately show ?thesis using inv by (simp add: file_inv_def Let_def)
  next
    case True
    then have fits: "\<not> ?pos + (24 + length ?p) + 32 > length (jw_file w)"
      using len sz by (simp add: entry_size_def)
    have ws': "placed room (fin @ [e]) = ?ws @ [e]" using True by (simp add: placed_snoc format_sizes)
    let ?r = "written_record d (length ?ws) e"
    have hdr: "record_header_to_bytes (fst ?r) @ ?p = record_image ?r"
      by (simp add: written_record_def)
    let ?hb = "record_header_to_bytes (fst ?r)"
    have w1: "write_at (jw_file w) ?pos ?hb
        = (Ok (?img @ ?hb @ replicate (?z - length ?hb) 0) :: (bytes, unit) result)"
      unfolding I(1) by (rule write_at_blank) (use True in \<open>simp_all add: entry_size_def\<close>)
    have w2: "write_at ((?img @ ?hb) @ replicate (?z - length ?hb) 0) (?pos + 24) ?p
        = (Ok ((?img @ ?hb) @ ?p @ replicate (?z - length ?hb - length ?p) 0) :: (bytes, unit) result)"
      by (rule write_at_blank) (use True in \<open>simp_all add: entry_size_def\<close>)
    have w2': "(?img @ ?hb) @ ?p @ replicate (?z - length ?hb - length ?p) 0
        = ?img @ record_image ?r @ replicate (?z - entry_size e) 0"
      by (simp add: entry_size_def flip: hdr)
    let ?sh' = "?sh\<lparr>sh_write_position := of_nat (?pos + (24 + length ?p)),
        sh_records_written := sh_records_written ?sh + 1, sh_last_timestamp := be_timestamp e\<rparr>"
    let ?w' = "w\<lparr>jw_file := ?img @ record_image ?r @ replicate (?z - entry_size e) 0,
        jw_shared := ?sh', jw_bg := (jw_bg w)\<lparr>bg_sequence := bg_sequence (jw_bg w) + 1\<rparr>\<rparr>"
    have run: "write_entry d e w = Ok ?w'"
      using I(3,5) small fits w1 w2 [unfolded w2']
      by (simp add: pay write_entry_def Let_def format_sizes written_record_def del: record_image.simps)
    have "unat (of_nat (?pos + (24 + length ?p)) :: u64) = ?pos + (24 + length ?p)"
      by (rule unat_u64_small [OF small(1)])
    then have "file_inv d pre room (fin @ [e]) ?w'"
      using I ws' by (simp add: file_inv_def Let_def written_records_append entry_size_def diff_diff_left
          del: record_image.simps)
    with run show ?thesis by (intro exI [of _ ?w']) simp
  qed
qed

lemma enqueue_keeps:
  assumes inv: "writer_inv d pre room acc w" and wf: "entry_wf e"
  shows "\<exists>err w'. enqueue e w = Ok (err, w') \<and> jw_closed w' = jw_closed w
    \<and> sh_shutdown (jw_shared w') = sh_shutdown (jw_shared w)
    \<and> (if pending_records w < ring_max_size (sh_ring (jw_shared w))
       then err = None \<and> jw_sequence w' = jw_sequence w + 1 \<and> writer_inv d pre room (acc @ [e]) w'
       else w' = w \<and> err = (if is_degraded w then Some WrDegraded else None))"
proof -
  let ?ring = "sh_ring (jw_shared w)"
  have ring: "ring_inv ?ring" using inv by (simp add: writer_inv_def)
  have pending: "pending_records w = length (ring_contents ?ring)"
    using ring_len_spec [OF ring] by (simp add: pending_records_def)
  show ?thesis
  proof (cases "pending_records w < ring_max_size ?ring")
    case True
    then obtain r' where r': "ring_try_push ?ring e = (Ok (True, r') :: (bool \<times> buffer_entry ring, unit) result)"
      "ring_inv r'" "ring_contents r' = ring_contents ?ring @ [e]"
      using rq.push_free [OF ring, of e] pending by auto
    obtain fin where fin: "acc = fin @ ring_contents ?ring" "file_inv d pre room fin w"
      using inv by (auto simp: writer_inv_def)
    let ?w' = "w\<lparr>jw_shared := (jw_shared w)\<lparr>sh_ring := r'\<rparr>, jw_sequence := jw_sequence w + 1\<rparr>"
    have "file_inv d pre room fin ?w'" using fin(2) by (simp add: file_inv_def Let_def)
    then have "writer_inv d pre room (acc @ [e]) ?w'"
      using inv wf r' fin(1) by (auto simp: writer_inv_def)
    moreover have "enqueue e w = Ok (None, ?w')" by (simp add: enqueue_def r'(1))
    ultimately show ?thesis using True by auto
  next
    case False
    then have "length (ring_contents ?ring) = ring_max_size ?ring"
      using pending rq.within_bound [OF ring] by simp
    then have "ring_try_push ?ring e = (Ok (False, ?ring) :: (bool \<times> buffer_entry ring, unit) result)"
      by (rule rq.push_full [OF ring])
    then show ?thesis using False by (simp add: enqueue_def is_degraded_def)
  qed
qed

lemma background_keeps:
  assumes inv: "writer_inv d pre room acc w"
  shows "\<exists>continue w'. background_iteration d w = Ok (continue, w') \<and> writer_inv d pre room acc w'
    \<and> jw_closed w' = jw_closed w \<and> jw_config w' = jw_config w \<and> jw_sequence w' = jw_sequence w
    \<and> sh_shutdown (jw_shared w') = sh_shutdown (jw_shared w)
    \<and> (if ring_contents (sh_ring (jw_shared w)) = []
       then continue = (\<not> sh_shutdown (jw_shared w)) \<and> (\<not> continue \<longrightarrow> w' = w)
         \<and> sh_ring (jw_shared w') = sh_ring (jw_shared w)
       else continue \<and> ring_contents (sh_ring (jw_shared w')) = tl (ring_contents (sh_ring (jw_shared w))))"
proof -
  let ?ring = "sh_ring (jw_shared w)"
  have ring: "ring_inv ?ring" using inv by (simp add: writer_inv_def)
  obtain fin where fin: "acc = fin @ ring_contents ?ring" "file_inv d pre room fin w"
    using inv by (auto simp: writer_inv_def)
  show ?thesis
  proof (cases "ring_contents ?ring")
    case Nil
    let ?spin = "bg_spin_count (jw_bg w) + 1"
    let ?w' = "w\<lparr>jw_bg := (jw_bg w)\<lparr>bg_spin_count := (if ?spin \<ge> SPIN_ITERATIONS then 0 else ?spin)\<rparr>\<rparr>"
    have "file_inv d pre room fin ?w'"
      using fin(2) by (auto simp: file_inv_def Let_def SPIN_ITERATIONS_def not_le)
    then have "writer_inv d pre room acc ?w'" using inv fin(1) by (auto simp: writer_inv_def)
    moreover have "ring_pop ?ring = (Ok (None, ?ring) :: (buffer_entry option \<times> buffer_entry ring, unit) result)"
      by (rule ring_pop_empty [OF ring Nil])
    ultimately show ?thesis
      using inv Nil ring_is_empty_spec [OF ring]
      by (intro exI [of _ "\<not> sh_shutdown (jw_shared w)"]
          exI [of _ "if sh_shutdown (jw_shared w) then w else ?w'"])
        (simp add: background_iteration_def Let_def)
  next
    case (Cons e xs)
    obtain r' where r': "ring_pop ?ring = (Ok (Some e, r') :: (buffer_entry option \<times> buffer_entry ring, unit) result)"
      "ring_inv r'" "ring_contents r' = xs"
      using ring_pop_Cons [OF ring Cons] by blast
    let ?w1 = "w\<lparr>jw_shared := (jw_shared w)\<lparr>sh_ring := r'\<rparr>, jw_bg := (jw_bg w)\<lparr>bg_spin_count := 0\<rparr>\<rparr>"
    have wf: "entry_wf e" using inv fin(1) Cons by (auto simp: writer_inv_def)
    have "file_inv d pre room fin ?w1" using fin(2) by (simp add: file_inv_def Let_def SPIN_ITERATIONS_def)
    from write_entry_keeps [OF this wf] obtain w' where w': "write_entry d e ?w1 = Ok w'"
      "file_inv d pre room (fin @ [e]) w'" "sh_ring (jw_shared w') = r'"
      "sh_shutdown (jw_shared w') = sh_shutdown (jw_shared w)" "jw_sequence w' = jw_sequence w"
      "jw_closed w' = jw_closed w" "jw_config w' = jw_config w"
      by auto
    have "acc = (fin @ [e]) @ ring_contents (sh_ring (jw_shared w'))"
      using fin(1) Cons r'(3) w'(3) by simp
    then have "writer_inv d pre room acc w'"
      using inv r'(2) w' unfolding writer_inv_def by auto
    then show ?thesis
      using r' w' Cons
      by (intro exI [of _ True] exI [of _ w']) (simp add: background_iteration_def Let_def)
  qed
qed

text \<open>Once \<open>shutdown\<close> is set the background thread empties the ring and ends.\<close>

lemma background_writer_ends:
  "writer_inv d pre room acc w \<Longrightarrow> sh_shutdown (jw_shared w) \<Longrightarrow>
     \<exists>w'. background_writer d w = Some (Ok w') \<and> writer_inv d pre room acc w'
       \<and> ring_contents (sh_ring (jw_shared w')) = [] \<and> jw_config w' = jw_config w"
proof (induction "ring_contents (sh_ring (jw_shared w))" arbitrary: w)
  case Nil
  obtain w' where "background_iteration d w = Ok (False, w')" "w' = w"
    using background_keeps [OF Nil.prems(1)] Nil.hyps Nil.prems(2) by auto
  with Nil show ?case by (subst background_writer.simps) simp
next
  case (Cons e xs)
  obtain w1 where w1: "background_iteration d w = Ok (True, w1)" "writer_inv d pre room acc w1"
    "sh_shutdown (jw_shared w1)" "xs = ring_contents (sh_ring (jw_shared w1))"
    "jw_config w1 = jw_config w"
    using background_keeps [OF Cons.prems(1)] Cons.hyps(2) [symmetric] Cons.prems(2) by auto
  from Cons.hyps(1) [OF w1(4,2,3)] w1(1,5) show ?case by (subst background_writer.simps) simp
qed

section \<open>Sessions\<close>

datatype session_op =
    OpWrite record_type u8 bytes i64          \<comment> \<open>\<open>write\<close>, with the clock's reading\<close>
  | OpWriteAt record_type u8 bytes timestamp  \<comment> \<open>\<open>write_with_timestamp\<close>\<close>
  | OpBackground                              \<comment> \<open>an iteration of the background thread\<close>

fun op_entries :: "session_op \<Rightarrow> buffer_entry list" where
  "op_entries (OpWrite rt ex p t) = [buffer_entry_new (record_type_as_u16 rt) ex t p]"
| "op_entries (OpWriteAt rt ex p t) = [buffer_entry_new (record_type_as_u16 rt) ex t p]"
| "op_entries OpBackground = []"

fun run_op :: "deps \<Rightarrow> session_op \<Rightarrow> journal_writer \<Rightarrow> (journal_writer, unit) result" where
  "run_op d (OpWrite rt ex p now) w = map_ok snd (writer_write rt ex p now w)"
| "run_op d (OpWriteAt rt ex p t) w = map_ok snd (write_with_timestamp rt ex p t w)"
| "run_op d OpBackground w = map_ok snd (background_iteration d w)"

text \<open>
  Runs a sequence of operations; the first component lists the entries that the ring
  accepted, which the caller sees by the sequence number.
\<close>

fun run_session ::
    "deps \<Rightarrow> session_op list \<Rightarrow> journal_writer \<Rightarrow> (buffer_entry list \<times> journal_writer, unit) result" where
  "run_session d [] w = Ok ([], w)"
| "run_session d (opn # ops) w =
     rbind (run_op d opn w) (\<lambda>w1.
     rbind (run_session d ops w1) (\<lambda>(acc, w2).
       Ok ((if jw_sequence w1 = jw_sequence w then [] else op_entries opn) @ acc, w2)))"

definition op_ok :: "session_op \<Rightarrow> bool" where
  "op_ok opn \<longleftrightarrow> (\<forall>e \<in> set (op_entries opn). length (entry_payload e) < 2 ^ 63)"

lemma op_ok_simps [simp]:
  "op_ok (OpWrite rt ex p t) \<longleftrightarrow> length p < 2 ^ 63"
  "op_ok (OpWriteAt rt ex p t) \<longleftrightarrow> length p < 2 ^ 63"
  "op_ok OpBackground"
  by (simp_all add: op_ok_def)

lemma word_add_1_neq [simp]: "(x :: u32) + 1 \<noteq> x"
  by simp

lemma enqueue_session:
  assumes inv: "writer_inv d pre room acc w" and wf: "entry_wf e"
  shows "\<exists>err w'. enqueue e w = Ok (err, w') \<and> jw_closed w' = jw_closed w
    \<and> jw_config w' = jw_config w
    \<and> writer_inv d pre room (acc @ (if jw_sequence w' = jw_sequence w then [] else [e])) w'"
proof -
  obtain err w' where w': "enqueue e w = Ok (err, w')" "jw_closed w' = jw_closed w"
    "if pending_records w < ring_max_size (sh_ring (jw_shared w))
       then err = None \<and> jw_sequence w' = jw_sequence w + 1 \<and> writer_inv d pre room (acc @ [e]) w'
       else w' = w \<and> err = (if is_degraded w then Some WrDegraded else None)"
    using enqueue_keeps [OF assms] by blast
  moreover have "jw_config w' = jw_config w"
    using w'(1) by (auto simp: enqueue_def rbind_Ok_iff split: if_splits)
  ultimately show ?thesis using inv
    by (intro exI [of _ err] exI [of _ w'])
      (cases "pending_records w < ring_max_size (sh_ring (jw_shared w))"; simp)
qed

lemma run_op_keeps:
  assumes inv: "writer_inv d pre room acc w" and "\<not> jw_closed w" and "op_ok opn"
  shows "\<exists>w'. run_op d opn w = Ok w' \<and> \<not> jw_closed w' \<and> jw_config w' = jw_config w
    \<and> writer_inv d pre room (acc @ (if jw_sequence w' = jw_sequence w then [] else op_entries opn)) w'"
proof (cases opn)
  case (OpWrite rt ex p t)
  have "entry_wf (buffer_entry_new (record_type_as_u16 rt) ex t p)"
    using assms(3) OpWrite by simp
  from enqueue_session [OF inv this] show ?thesis using assms(2) OpWrite
    by (auto simp: writer_write_def)
next
  case (OpWriteAt rt ex p t)
  have "entry_wf (buffer_entry_new (record_type_as_u16 rt) ex t p)"
    using assms(3) OpWriteAt by simp
  from enqueue_session [OF inv this] show ?thesis using assms(2) OpWriteAt
    by (auto simp: write_with_timestamp_def)
next
  case OpBackground
  from background_keeps [OF inv, of] show ?thesis using assms(2) OpBackground by auto
qed

lemma run_session_keeps:
  "writer_inv d pre room acc w \<Longrightarrow> \<not> jw_closed w \<Longrightarrow> \<forall>opn \<in> set ops. op_ok opn \<Longrightarrow>
     \<exists>acc' w'. run_session d ops w = Ok (acc', w') \<and> writer_inv d pre room (acc @ acc') w'
       \<and> \<not> jw_closed w' \<and> jw_config w' = jw_config w"
proof (induction ops arbitrary: acc w)
  case Nil
  then show ?case by simp
next
  case (Cons opn ops)
  obtain w1 where w1: "run_op d opn w = Ok w1" "\<not> jw_closed w1" "jw_config w1 = jw_config w"
    "writer_inv d pre room (acc @ (if jw_sequence w1 = jw_sequence w then [] else op_entries opn)) w1"
    using run_op_keeps [OF Cons.prems(1,2), of opn] Cons.prems(3) by auto
  from Cons.IH [OF w1(4,2)] Cons.prems(3) show ?case using w1(1,3) by auto
qed

section \<open>Creation and close\<close>

lemma writer_create_inv:
  assumes create: "writer_create d os now session config = Ok w"
    and block: "create_block d (wc_compress_schema config) = Ok b"
    and fits: "FILE_HEADER_SIZE + total_size b + FILE_FOOTER_SIZE \<le> unat (wc_file_size config)"
  shows "\<exists>h. header_for d b h \<and> \<not> jw_closed w \<and> jw_config w = config
    \<and> writer_inv d (file_header_to_bytes h @ serialize_block b)
          (unat (wc_file_size config) - (FILE_HEADER_SIZE + total_size b)) [] w"
proof -
  have valid: "unat (wc_file_size config) \<le> 2 ^ 32"
    using create by (auto simp: writer_create_def rbind_Ok_iff writer_config_validate_def
        MAX_FILE_SIZE_def word_le_nat_alt not_less split: if_splits)
  then have small: "length (sb_data b) < 2 ^ 32"
    using fits by (simp add: total_size_def format_sizes)
  obtain h0 where h0: "create_journal_header d now (wc_compress_schema config) = Ok (h0, b)"
    using block by (simp add: create_journal_header_def)
  define h where "h = (case session of None \<Rightarrow> h0 | Some t \<Rightarrow> h0\<lparr>fh_session_start := t\<rparr>)"
  have "header_for d b h0" using create_journal_header_for [OF h0 small] by simp
  then have hf: "header_for d b h"
    by (auto simp: h_def header_for_update split: option.splits)
  then have lh: "length (file_header_to_bytes h) = 128"
    by (simp add: header_for_def file_header_length)
  have lb: "length (serialize_block b) = total_size b"
    using block by (auto elim!: create_block_cases simp: serialize_block_def total_size_def
        format_sizes schema_block_header_new_def schema_block_header_length)
  let ?n = "unat (wc_file_size config)" and ?pre = "file_header_to_bytes h @ serialize_block b"
  have m1: "write_at (replicate ?n 0) 0 (file_header_to_bytes h)
      = (Ok (file_header_to_bytes h @ replicate (?n - 128) 0) :: (bytes, writer_error) result)"
  proof -
    have "length (file_header_to_bytes h) \<le> ?n" using fits lh by (simp add: format_sizes)
    from write_at_blank [OF this, of 0 "[]"] show ?thesis unfolding lh by simp
  qed
  have m2: "write_at (file_header_to_bytes h @ replicate (?n - 128) 0) 128 (serialize_block b)
      = (Ok (file_header_to_bytes h @ serialize_block b @ replicate (?n - 128 - total_size b) 0)
          :: (bytes, writer_error) result)"
  proof -
    have "length (serialize_block b) \<le> ?n - 128" using fits lb by (simp add: format_sizes)
    from write_at_blank [OF this lh [symmetric]] show ?thesis unfolding lb .
  qed
  have hd: "(case session of None \<Rightarrow> h0 | Some t \<Rightarrow> h0\<lparr>fh_session_start := t\<rparr>) = h"
    by (simp add: h_def)
  have start: "start_writer config (?pre @ replicate (?n - 128 - total_size b) 0) (fh_first_record h) 0 = Ok w"
    using create unfolding writer_create_def Let_def h0 FILE_HEADER_SIZE_def
    by (simp only: rbind_Ok_iff map_err.simps result.inject prod.case hd m1 m2
        append_assoc ex_simps simp_thms)
  then obtain ring where ring: "ring_new (wc_ring_buffer_capacity config) = (Ok ring :: (buffer_entry ring, writer_error) result)"
    and w: "w = \<lparr>jw_config = config, jw_shared = \<lparr>sh_ring = ring, sh_shutdown = False,
        sh_degraded = False, sh_records_written = 0, sh_write_position = fh_first_record h,
        sh_last_timestamp = 0\<rparr>, jw_file = ?pre @ replicate (?n - 128 - total_size b) 0,
        jw_bg = \<lparr>bg_spin_count = 0, bg_sequence = 0\<rparr>, jw_sequence = 0, jw_closed = False\<rparr>"
    by (auto simp: start_writer_def shared_state_new_def rbind_Ok_iff map_ok_Ok_iff)
  have "ring_inv ring \<and> ring_contents ring = []" using ring_new_spec [OF ring] by simp
  moreover have "file_inv d ?pre (?n - (128 + total_size b)) [] w"
    using fits valid lh lb hf
    by (simp add: file_inv_def w format_sizes SPIN_ITERATIONS_def header_for_def)
  ultimately have "writer_inv d ?pre (?n - (128 + total_size b)) [] w"
    by (simp add: writer_inv_def w)
  with hf show ?thesis by (auto simp: w format_sizes)
qed

text \<open>The footer overwrites the zeros after the last record.\<close>

lemma write_footer_file:
  assumes inv: "file_inv d (file_header_to_bytes h @ ser) room fin w"
    and wf: "file_header_wf h"
  shows "\<exists>z. write_footer None None w = Ok (w\<lparr>jw_file :=
      file_header_to_bytes (h\<lparr>fh_record_count := sh_records_written (jw_shared w),
                              fh_session_end := sh_last_timestamp (jw_shared w)\<rparr>)
      @ ser @ records_image (written_records d 0 (placed room fin))
      @ file_footer_to_bytes (file_footer_new (sh_records_written (jw_shared w))
          (of_nat (128 + length ser + placed_size (placed room fin) + 32))
          (sh_last_timestamp (jw_shared w)))
      @ replicate z 0\<rparr>)
    \<and> z = room - placed_size (placed room fin) - 32"
proof -
  let ?sh = "jw_shared w" and ?ws = "placed room fin"
  let ?h' = "h\<lparr>fh_record_count := sh_records_written ?sh, fh_session_end := sh_last_timestamp ?sh\<rparr>"
  let ?img = "records_image (written_records d 0 ?ws)" and ?z = "room - placed_size ?ws"
  have lh: "length (file_header_to_bytes h) = 128" using wf by (rule file_header_length)
  have lh': "length (file_header_to_bytes ?h') = 128"
    by (rule file_header_length) (use wf in \<open>simp add: file_header_wf_def\<close>)
  have pos: "unat (sh_write_position ?sh) = 128 + length ser + placed_size ?ws"
    and content: "jw_file w = file_header_to_bytes h @ ser @ ?img @ replicate ?z 0"
    and bound: "128 + length ser + room \<le> 2 ^ 32" "32 \<le> room"
    using inv lh by (simp_all add: file_inv_def Let_def format_sizes)
  have z: "32 \<le> ?z" "placed_size ?ws \<le> room"
    using placed_fits [of room fin] bound(2) by (cases "?ws = []"; simp add: format_sizes)+
  let ?footer = "file_footer_to_bytes (file_footer_new (sh_records_written ?sh)
      (of_nat (128 + length ser + placed_size ?ws + 32)) (sh_last_timestamp ?sh))"
  have lf: "length ?footer = 32" by (rule file_footer_length) (simp add: file_footer_new_def)
  have s1: "subslice (jw_file w) 0 128 = (Ok (file_header_to_bytes h) :: (bytes, writer_error) result)"
    unfolding content subslice_def using lh by simp
  have s2: "write_at (jw_file w) 0 (file_header_to_bytes ?h')
      = (Ok (file_header_to_bytes ?h' @ ser @ ?img @ replicate ?z 0) :: (bytes, writer_error) result)"
    unfolding content write_at_def using lh lh' by simp
  have s3: "uadd (unat (sh_write_position ?sh)) 32
      = (Ok (128 + length ser + placed_size ?ws + 32) :: (usize, writer_error) result)"
    unfolding pos by (rule uadd_Ok) (use bound z in \<open>simp add: usize_limit_def\<close>)
  have le: "128 + length ser + placed_size ?ws + 32
      \<le> length (file_header_to_bytes ?h' @ ser @ ?img @ replicate ?z 0)"
    using z lh' by simp
  have s4: "write_at (file_header_to_bytes ?h' @ ser @ ?img @ replicate ?z 0)
        (128 + length ser + placed_size ?ws) ?footer
      = (Ok (file_header_to_bytes ?h' @ ser @ ?img @ ?footer @ replicate (?z - 32) 0)
          :: (bytes, writer_error) result)"
  proof -
    have "write_at ((file_header_to_bytes ?h' @ ser @ ?img) @ replicate ?z 0)
          (128 + length ser + placed_size ?ws) ?footer
        = (Ok ((file_header_to_bytes ?h' @ ser @ ?img) @ ?footer @ replicate (?z - length ?footer) 0)
            :: (bytes, writer_error) result)"
      by (rule write_at_blank) (use z lf lh' in simp_all)
    then show ?thesis by (simp only: append_assoc lf)
  qed
  have "write_footer None None w =
      Ok (w\<lparr>jw_file := file_header_to_bytes ?h' @ ser @ ?img @ ?footer @ replicate (?z - 32) 0\<rparr>)"
    unfolding write_footer_def Let_def os_check_def option.case rbind.simps format_sizes s1
      file_header_roundtrip [OF wf] s2 s3 [unfolded pos] pos if_P [OF le] s4
    by (simp only: rbind.simps if_cancel)
  then show ?thesis by blast
qed

lemma placed_subset: "set (placed room es) \<subseteq> set es"
  by (induction es arbitrary: room) auto

lemma placed_size_bound: "e \<in> set es \<Longrightarrow> entry_size e \<le> placed_size es"
  by (induction es) auto

lemma written_records_ok:
  assumes "\<forall>e \<in> set es. length (entry_payload e) < 2 ^ 32 \<and> be_timestamp e \<noteq> 0
    \<and> to_le (be_timestamp e) \<noteq> FOOTER_MAGIC"
  shows "\<forall>x \<in> set (written_records d i es). record_wf x \<and> crc_ok d x"
  using assms
  by (induction es arbitrary: i)
    (auto simp: written_record_def record_wf_def crc_ok_def unat_u32_small intro!: readable_by_timestamp)

text \<open>What a caller can see of a record and of an entry.\<close>

definition record_view :: "jrecord \<Rightarrow> u16 \<times> u8 \<times> i64 \<times> bytes" where
  "record_view r = (rh_record_type (jr_rec_header r), rh_exchange_id (jr_rec_header r),
     rh_timestamp (jr_rec_header r), jr_payload r)"

definition entry_view :: "buffer_entry \<Rightarrow> u16 \<times> u8 \<times> i64 \<times> bytes" where
  "entry_view e = (be_record_type e, be_exchange_id e, be_timestamp e, entry_payload e)"

lemma views_of_written:
  "map record_view (jrecords_at off (written_records d i es)) = map entry_view es"
  "map (\<lambda>r. rh_sequence_number (jr_rec_header r)) (jrecords_at off (written_records d i es))
     = map of_nat [i..<i + length es]"
proof (induction es arbitrary: off i)
  case (Cons e es)
  {
    case 1
    show ?case by (simp add: written_record_def Cons.IH(1)) (simp add: record_view_def entry_view_def)
  next
    case 2
    have "[i..<i + length (e # es)] = i # [Suc i..<Suc i + length es]"
      by (subst upt_conv_Cons) simp_all
    then show ?case by (simp add: written_record_def Cons.IH(2) del: upt_Suc)
  }
qed simp_all

text \<open>
  Timestamps that the reader can tell from the end of the journal: the record header
  starts with the timestamp, whose bytes must be neither zero nor the footer's magic.
\<close>

definition entry_readable :: "buffer_entry \<Rightarrow> bool" where
  "entry_readable e \<longleftrightarrow> be_timestamp e \<noteq> 0 \<and> to_le (be_timestamp e) \<noteq> FOOTER_MAGIC"

lemma file_end: "take 8 (file_footer_to_bytes (file_footer_new a b c) @ rest) = FOOTER_MAGIC"
  by (simp add: file_footer_to_bytes_def file_footer_new_def)

lemma footer_at_here:
  assumes "mmap = pre @ file_footer_to_bytes (file_footer_new a b c) @ rest" and "n = length pre"
  shows "footer_at mmap n = Ok (Some (file_footer_new a b c))"
proof -
  have len: "length (file_footer_to_bytes (file_footer_new a b c)) = 32"
    by (rule file_footer_length) (simp add: file_footer_new_def)
  have rt: "file_footer_from_bytes (file_footer_to_bytes (file_footer_new a b c)) = file_footer_new a b c"
    by (rule file_footer_roundtrip) (simp add: file_footer_new_def)
  have "take 8 (file_footer_to_bytes (file_footer_new a b c)) = FOOTER_MAGIC"
    using file_end [of a b c "[]"] by simp
  then show ?thesis using assms len rt
    by (simp add: footer_at_def subslice_def FILE_FOOTER_SIZE_def)
qed

lemma closed_file_reads_back:
  assumes sane: "deps_sane d" and block: "create_block d compress = Ok b"
    and inv: "file_inv d (file_header_to_bytes h @ serialize_block b) room es w"
    and hf: "header_for d b h" and readable: "\<forall>e \<in> set es. entry_readable e"
    and closed: "write_footer None None w = Ok w2"
  shows "\<exists>r recs r'. reader_open d (Ok (jw_file w2)) = Ok r
    \<and> read_all d r = Ok (map Inr recs, r')
    \<and> map record_view recs = map entry_view (placed room es)
    \<and> map (\<lambda>x. rh_sequence_number (jr_rec_header x)) recs = map of_nat [0..<length (placed room es)]
    \<and> fh_record_count (jr_header r) = of_nat (length (placed room es))
    \<and> (\<exists>f. read_footer r' = (Ok (Some f) :: (file_footer option, unit) result)
         \<and> ff_total_records f = of_nat (length (placed room es)))"
proof -
  let ?ws = "placed room es" and ?sh = "jw_shared w"
  let ?h' = "h\<lparr>fh_record_count := sh_records_written ?sh, fh_session_end := sh_last_timestamp ?sh\<rparr>"
  let ?F = "file_footer_new (sh_records_written ?sh)
      (of_nat (128 + length (serialize_block b) + placed_size ?ws + 32)) (sh_last_timestamp ?sh)"
  let ?img = "records_image (written_records d 0 ?ws)"
  have wf: "file_header_wf h" using hf by (simp add: header_for_def)
  obtain z where content: "jw_file w2 =
      file_header_to_bytes ?h' @ serialize_block b @ ?img @ file_footer_to_bytes ?F @ replicate z 0"
    and z: "z = room - placed_size ?ws - 32"
    using write_footer_file [OF inv wf] closed by auto
  have hf': "header_for d b ?h'" by (rule header_for_update(2) [OF hf])
  then have lh: "length (file_header_to_bytes ?h') = 128"
    by (simp add: header_for_def file_header_length)
  have lb: "length (serialize_block b) = total_size b"
    using block by (auto elim!: create_block_cases simp: serialize_block_def total_size_def
        format_sizes schema_block_header_new_def schema_block_header_length)
  have lf: "length (file_footer_to_bytes ?F) = 32"
    by (rule file_footer_length) (simp add: file_footer_new_def)
  have bound: "128 + total_size b + room \<le> 2 ^ 32" "32 \<le> room"
    using inv lb wf by (simp_all add: file_inv_def Let_def format_sizes file_header_length)
  have "placed_size ?ws + 32 \<le> room"
    using placed_fits [of room es] bound(2) by (cases "?ws = []") (simp_all add: format_sizes)
  then have len: "length (jw_file w2) = 128 + total_size b + room" using content z lh lb lf by simp
  have data: "length (sb_data b) < 2 ^ 32" using bound by (simp add: total_size_def format_sizes)
  let ?rest = "?img @ file_footer_to_bytes ?F @ replicate z 0"
  have op: "reader_open d (Ok (jw_file w2)) =
      Ok \<lparr>jr_mmap = jw_file w2, jr_header = ?h', jr_schema_xml = SCHEMA_XML d,
          jr_read_position = 128 + total_size b, jr_records_read = 0, jr_finished = False,
          jr_config = reader_config_default\<rparr>" (is "_ = Ok ?r")
    unfolding reader_open_def content
    using open_created [OF sane block data hf', of ?rest] len bound unfolding content
    by (simp add: format_sizes)
  have small: "\<forall>e \<in> set ?ws. length (entry_payload e) < 2 ^ 32"
    using placed_size_bound placed_size_le [of room es] bound
    by (fastforce simp: entry_size_def)
  have ok: "\<forall>x \<in> set (written_records d 0 ?ws). record_wf x \<and> crc_ok d x"
    by (rule written_records_ok) (use small readable placed_subset [of room es] in \<open>auto simp: entry_readable_def\<close>)
  have je: "journal_end (file_footer_to_bytes ?F @ replicate z 0)"
    by (simp only: journal_end_def file_end simp_thms)
  have "\<exists>r'. read_all d ?r = Ok (map Inr (jrecords_at (length (file_header_to_bytes ?h' @ serialize_block b))
        (written_records d 0 ?ws)), r')
      \<and> jr_read_position r' = length (file_header_to_bytes ?h' @ serialize_block b) + length ?img
      \<and> same_file ?r r' \<and> jr_finished r'"
    by (rule read_all_image [where rest = "file_footer_to_bytes ?F @ replicate z 0"])
      (use content lh lb len bound ok je in simp_all)
  then obtain r' where r': "read_all d ?r = Ok (map Inr (jrecords_at (128 + total_size b)
      (written_records d 0 ?ws)), r')"
    "jr_read_position r' = 128 + total_size b + placed_size ?ws" "jr_mmap r' = jw_file w2"
    by (auto simp: lh lb same_file_def)
  have "footer_at (jw_file w2) (128 + total_size b + placed_size ?ws)
      = (Ok (Some ?F) :: (file_footer option, unit) result)"
    by (rule footer_at_here [where pre = "file_header_to_bytes ?h' @ serialize_block b @ ?img"])
      (use content lh lb in simp_all)
  moreover have "128 + total_size b + placed_size ?ws + 32 \<le> length (jw_file w2)"
    using len \<open>placed_size ?ws + 32 \<le> room\<close> by simp
  ultimately have "read_footer r' = (Ok (Some ?F) :: (file_footer option, unit) result)"
    using r'(2,3) len bound by (simp add: read_footer_def Let_def format_sizes uadd_def usize_limit_def)
  moreover have "sh_records_written ?sh = of_nat (length ?ws)"
    using inv by (simp add: file_inv_def Let_def)
  ultimately show ?thesis
    using op r'(1) views_of_written [of "128 + total_size b" d 0 ?ws]
    by (intro exI [of _ ?r] exI [of _ "jrecords_at (128 + total_size b) (written_records d 0 ?ws)"]
        exI [of _ r'] conjI exI [of _ ?F]) (simp_all add: file_footer_new_def)
qed

text \<open>The room for records in a file, after the header and the schema block.\<close>

definition journal_room :: "writer_config \<Rightarrow> schema_block \<Rightarrow> nat" where
  "journal_room config b = unat (wc_file_size config) - (FILE_HEADER_SIZE + total_size b)"

definition schema_fits :: "writer_config \<Rightarrow> schema_block \<Rightarrow> bool" where
  "schema_fits config b \<longleftrightarrow>
     FILE_HEADER_SIZE + total_size b + FILE_FOOTER_SIZE \<le> unat (wc_file_size config)"

lemma session_inv:
  assumes "create_block d (wc_compress_schema config) = Ok b" and "schema_fits config b"
    and "writer_create d os now session config = Ok w0" and "\<forall>opn \<in> set ops. op_ok opn"
  shows "\<exists>h acc w1. header_for d b h \<and> run_session d ops w0 = Ok (acc, w1) \<and> \<not> jw_closed w1
    \<and> jw_config w1 = config
    \<and> writer_inv d (file_header_to_bytes h @ serialize_block b) (journal_room config b) acc w1"
proof -
  obtain h where h: "header_for d b h" "\<not> jw_closed w0" "jw_config w0 = config"
    "writer_inv d (file_header_to_bytes h @ serialize_block b) (journal_room config b) [] w0"
    using writer_create_inv [OF assms(3,1)] assms(2) by (auto simp: schema_fits_def journal_room_def)
  from run_session_keeps [OF h(4,2) assms(4)] h show ?thesis by auto
qed

lemma session_reads_back:
  assumes "deps_sane d" and "create_block d (wc_compress_schema config) = Ok b"
    and "schema_fits config b" and "writer_create d os now session config = Ok w0"
    and "\<forall>opn \<in> set ops. op_ok opn" and "run_session d ops w0 = Ok (acc, w1)"
    and "\<forall>e \<in> set acc. entry_readable e"
  shows "\<exists>w2 r recs r'. close_internal d None None w1 = Some (Ok w2)
    \<and> reader_open d (Ok (jw_file w2)) = Ok r \<and> read_all d r = Ok (map Inr recs, r')
    \<and> map record_view recs = map entry_view (placed (journal_room config b) acc)
    \<and> map (\<lambda>x. rh_sequence_number (jr_rec_header x)) recs
        = map of_nat [0..<length (placed (journal_room config b) acc)]
    \<and> fh_record_count (jr_header r) = of_nat (length recs)
    \<and> (\<exists>f. read_footer r' = (Ok (Some f) :: (file_footer option, unit) result)
         \<and> ff_total_records f = of_nat (length recs))"
proof -
  let ?room = "journal_room config b"
  obtain h where h: "header_for d b h" "\<not> jw_closed w1"
    "writer_inv d (file_header_to_bytes h @ serialize_block b) ?room acc w1"
    using session_inv [OF assms(2-5)] assms(6) by auto
  let ?w = "w1\<lparr>jw_closed := True, jw_shared := (jw_shared w1)\<lparr>sh_shutdown := True\<rparr>\<rparr>"
  have "writer_inv d (file_header_to_bytes h @ serialize_block b) ?room acc ?w"
    using h(3) by (simp add: writer_inv_def file_inv_def Let_def)
  then obtain w' where w': "background_writer d ?w = Some (Ok w')"
    "writer_inv d (file_header_to_bytes h @ serialize_block b) ?room acc w'"
    "ring_contents (sh_ring (jw_shared w')) = []"
    using background_writer_ends by fastforce
  then have inv: "file_inv d (file_header_to_bytes h @ serialize_block b) ?room acc w'"
    by (auto simp: writer_inv_def)
  have "file_header_wf h" using h(1) by (simp add: header_for_def)
  then obtain w2 where w2: "write_footer None None w' = Ok w2"
    using write_footer_file [OF inv] by blast
  then have "close_internal d None None w1 = Some (Ok w2)"
    using w'(1) h(2) by (simp add: close_internal_def Let_def)
  then show ?thesis
    using closed_file_reads_back [OF assms(1,2) inv h(1) assms(7) w2] by (metis length_map)
qed

text \<open>
  C1: The journal's contract. After any interleaving of \<open>write\<close> calls and background
  iterations, \<open>close\<close> succeeds and the file it leaves is opened by the reader and read to
  its end without an error. The records read are exactly the accepted entries for which
  there was room, in the order of the calls, with the type, exchange, timestamp and
  payload of the call and with consecutive sequence numbers from zero; header and
  footer carry their number.
\<close>

theorem journal_roundtrip:
  assumes "deps_sane d" and "create_block d (wc_compress_schema config) = Ok b"
    and "schema_fits config b" and "writer_create d os now session config = Ok w0"
    and "\<forall>opn \<in> set ops. op_ok opn" and "run_session d ops w0 = Ok (acc, w1)"
    and "\<forall>e \<in> set acc. entry_readable e"
  shows "\<exists>w2 r recs r'. close_internal d None None w1 = Some (Ok w2)
    \<and> reader_open d (Ok (jw_file w2)) = Ok r \<and> read_all d r = Ok (map Inr recs, r')
    \<and> map record_view recs = map entry_view (placed (journal_room config b) acc)
    \<and> map (\<lambda>x. rh_sequence_number (jr_rec_header x)) recs
        = map of_nat [0..<length (placed (journal_room config b) acc)]
    \<and> fh_record_count (jr_header r) = of_nat (length recs)
    \<and> (\<exists>f. read_footer r' = (Ok (Some f) :: (file_footer option, unit) result)
         \<and> ff_total_records f = of_nat (length recs))"
  by (rule session_reads_back [OF assms])

text \<open>
  C15: What is known at any moment of a session: no operation panics; the accepted entries
  are those written or dropped, followed by those pending; the counter of written
  records and the \<open>degraded\<close> flag tell exactly how many and whether any was dropped; and
  the footer always has its 32 bytes after the write position.
\<close>

theorem session_accounting:
  assumes "create_block d (wc_compress_schema config) = Ok b" and "schema_fits config b"
    and "writer_create d os now session config = Ok w0" and "\<forall>opn \<in> set ops. op_ok opn"
  shows "\<exists>acc w1 fin. run_session d ops w0 = Ok (acc, w1)
    \<and> acc = fin @ ring_contents (sh_ring (jw_shared w1))
    \<and> pending_records w1 = length acc - length fin
    \<and> records_written w1 = of_nat (length (placed (journal_room config b) fin))
    \<and> (is_degraded w1 \<longleftrightarrow> placed (journal_room config b) fin \<noteq> fin)
    \<and> unat (sh_write_position (jw_shared w1)) + FILE_FOOTER_SIZE \<le> length (jw_file w1)
    \<and> length (jw_file w1) = unat (wc_file_size config)"
proof -
  let ?room = "journal_room config b"
  obtain h acc w1 where h: "header_for d b h" "run_session d ops w0 = Ok (acc, w1)"
    "writer_inv d (file_header_to_bytes h @ serialize_block b) ?room acc w1"
    using session_inv [OF assms] by auto
  let ?pre = "file_header_to_bytes h @ serialize_block b"
  obtain fin where fin: "acc = fin @ ring_contents (sh_ring (jw_shared w1))"
    "file_inv d ?pre ?room fin w1"
    using h(3) by (auto simp: writer_inv_def)
  have lp: "length ?pre = 128 + total_size b"
    using assms(1) h(1) by (auto elim!: create_block_cases simp: serialize_block_def total_size_def
        format_sizes schema_block_header_new_def schema_block_header_length header_for_def
        file_header_length)
  have room: "128 + total_size b + ?room = unat (wc_file_size config)" "32 \<le> ?room"
    using assms(2) by (simp_all add: journal_room_def schema_fits_def format_sizes)
  have size: "placed_size (placed ?room fin) + 32 \<le> ?room"
    using placed_fits [of ?room fin] room(2) by (cases "placed ?room fin = []") (simp_all add: format_sizes)
  have "pending_records w1 = length acc - length fin"
    using ring_len_spec [of "sh_ring (jw_shared w1)"] h(3) fin(1) by (simp add: pending_records_def writer_inv_def)
  moreover have "length (jw_file w1) = unat (wc_file_size config)"
    using fin(2) size room lp by (simp add: file_inv_def Let_def)
  moreover have "unat (sh_write_position (jw_shared w1)) = 128 + total_size b + placed_size (placed ?room fin)"
    using fin(2) lp by (simp add: file_inv_def Let_def)
  ultimately show ?thesis
    using h(2) fin size room by (intro exI [of _ acc] exI [of _ w1] exI [of _ fin])
      (simp add: file_inv_def Let_def records_written_def is_degraded_def FILE_FOOTER_SIZE_def)
qed

lemma flush_loop_drains:
  assumes "writer_inv d pre room acc w" and "length acc < 2 ^ 32"
  shows "\<exists>w'. flush_loop d w = Some (Ok w') \<and> writer_inv d pre room acc w'
    \<and> ring_contents (sh_ring (jw_shared w')) = []"
  using assms(1)
proof (induction "ring_contents (sh_ring (jw_shared w))" arbitrary: w)
  case Nil
  obtain fin where fin: "acc = fin" "file_inv d pre room fin w"
    using Nil by (auto simp: writer_inv_def)
  have ring: "ring_is_empty (sh_ring (jw_shared w))"
    using Nil ring_is_empty_spec [of "sh_ring (jw_shared w)"] by (auto simp: writer_inv_def)
  have "sh_records_written (jw_shared w) = of_nat (length acc)" if "\<not> sh_degraded (jw_shared w)"
    using that fin by (simp add: file_inv_def Let_def)
  moreover have "unat (ucast (jw_sequence w) :: u64) = length acc"
    using Nil.prems assms(2) by (simp add: writer_inv_def unat_u32_small)
  moreover have "unat (of_nat (length acc) :: u64) = length acc"
    using assms(2) by (simp add: unat_u64_small usize_limit_def)
  ultimately have "flush_done w" using ring by (auto simp: flush_done_def word_le_nat_alt)
  with Nil show ?case by (subst flush_loop.simps) simp
next
  case (Cons e xs)
  obtain fin where fin: "acc = fin @ e # xs" "file_inv d pre room fin w"
    using Cons by (auto simp: writer_inv_def)
  have "ring_inv (sh_ring (jw_shared w))" using Cons.prems by (simp add: writer_inv_def)
  then have ne: "\<not> ring_is_empty (sh_ring (jw_shared w))"
    using Cons.hyps(2) ring_is_empty_spec by (metis list.distinct(1))
  have "unat (sh_records_written (jw_shared w)) \<le> length fin"
    using fin placed_length [of room fin] assms(2)
    by (simp add: file_inv_def Let_def unat_u64_small usize_limit_def)
  moreover have "unat (ucast (jw_sequence w) :: u64) = length acc"
    using Cons.prems assms(2)
    by (simp add: writer_inv_def unat_u32_small)
  ultimately have nd: "\<not> flush_done w"
    using ne fin(1) by (simp add: flush_done_def word_le_nat_alt)
  obtain continue w1 where w1: "background_iteration d w = Ok (continue, w1)"
    "writer_inv d pre room acc w1" "xs = ring_contents (sh_ring (jw_shared w1))"
    using background_keeps [OF Cons.prems] Cons.hyps(2) [symmetric] by auto
  from Cons.hyps(1) [OF w1(3,2)] w1(1) nd show ?case by (subst flush_loop.simps) simp
qed

text \<open>
  C40: \<open>flush\<close> returns once the background thread is scheduled, and then nothing accepted
  before it is still pending: every such entry is in the file or was dropped. The bound
  is that of the 32-bit call counter that \<open>flush\<close> compares with the 64-bit record count.
\<close>

theorem flush_drains:
  assumes "create_block d (wc_compress_schema config) = Ok b" and "schema_fits config b"
    and "writer_create d os now session config = Ok w0" and "\<forall>opn \<in> set ops. op_ok opn"
    and "run_session d ops w0 = Ok (acc, w1)" and "length acc < 2 ^ 32"
  shows "\<exists>w2. writer_flush d w1 = Some (Ok (None, w2)) \<and> pending_records w2 = 0
    \<and> (\<not> is_degraded w2 \<longrightarrow> records_written w2 = of_nat (length acc))"
proof -
  obtain h where h: "\<not> jw_closed w1"
    "writer_inv d (file_header_to_bytes h @ serialize_block b) (journal_room config b) acc w1"
    using session_inv [OF assms(1-4)] assms(5) by auto
  obtain w2 where w2: "flush_loop d w1 = Some (Ok w2)"
    "writer_inv d (file_header_to_bytes h @ serialize_block b) (journal_room config b) acc w2"
    "ring_contents (sh_ring (jw_shared w2)) = []"
    using flush_loop_drains [OF h(2) assms(6)] by blast
  have "pending_records w2 = 0"
    using ring_len_spec [of "sh_ring (jw_shared w2)"] w2(2,3)
    by (simp add: pending_records_def writer_inv_def ring_contents_def)
  moreover have "\<not> is_degraded w2 \<longrightarrow> records_written w2 = of_nat (length acc)"
    using w2(2,3) by (auto simp: writer_inv_def file_inv_def Let_def is_degraded_def records_written_def)
  ultimately show ?thesis using h(1) w2(1) by (simp add: writer_flush_def)
qed

section \<open>Witnesses\<close>

definition example_config :: writer_config where
  "example_config = writer_config_minimal\<lparr>wc_ring_buffer_capacity := 16, wc_compress_schema := False\<rparr>"

lemma example_fits: "schema_fits example_config example_schema"
  by (simp add: schema_fits_def example_config_def writer_config_minimal_def MIN_FILE_SIZE_def
      example_schema_def total_size_def format_sizes)

lemma writer_create_ok:
  assumes "writer_config_validate config = Ok ()" and "create_block d (wc_compress_schema config) = Ok b"
    and "schema_fits config b"
    and "shared_state_new (wc_ring_buffer_capacity config)
      = (Ok sh :: (shared_state, writer_error) result)"
  shows "\<exists>w. writer_create d os_ok now None config = Ok w"
proof -
  obtain h where h: "create_journal_header d now (wc_compress_schema config) = Ok (h, b)"
    using assms(2) by (simp add: create_journal_header_def)
  have lb: "length (serialize_block b) = total_size b"
    using assms(2) by (auto elim!: create_block_cases simp: serialize_block_def total_size_def
        format_sizes schema_block_header_new_def schema_block_header_length)
  have "file_header_wf h" using h
    by (auto simp: create_journal_header_def rbind_Ok_iff with_schema_def Let_def file_header_new_def
        file_header_wf_def new_with_session_start_def)
  then have lh: "length (file_header_to_bytes h) = 128" by (rule file_header_length)
  have fits: "128 + total_size b + 32 \<le> unat (wc_file_size config)"
    using assms(3) by (simp add: schema_fits_def format_sizes)
  have "\<exists>m. write_at (replicate (unat (wc_file_size config)) 0) 0 (file_header_to_bytes h)
      = (Ok m :: (bytes, writer_error) result) \<and> length m = unat (wc_file_size config)"
    using fits lh by (simp add: write_at_def)
  then obtain m where m: "write_at (replicate (unat (wc_file_size config)) 0) 0 (file_header_to_bytes h)
      = (Ok m :: (bytes, writer_error) result)" "length m = unat (wc_file_size config)" by blast
  obtain m' where m': "write_at m 128 (serialize_block b) = (Ok m' :: (bytes, writer_error) result)"
    using m(2) fits lb by (simp add: write_at_def)
  show ?thesis
    unfolding writer_create_def Let_def assms(1) h rbind.simps map_err.simps prod.case option.case
      os_ok_def os_check_def os_create.simps m(1) FILE_HEADER_SIZE_def m' start_writer_def assms(4)
    by blast
qed

lemma example_writer: "\<exists>w. writer_create example_deps os_ok None None example_config = Ok w"
proof -
  have "\<exists>sh. shared_state_new 16 = (Ok sh :: (shared_state, writer_error) result)"
    by (simp add: shared_state_new_def ring_new_def next_power_of_two.simps usize_limit_def)
  then obtain sh where sh: "shared_state_new (wc_ring_buffer_capacity example_config)
      = (Ok sh :: (shared_state, writer_error) result)"
    by (auto simp: example_config_def)
  have valid: "writer_config_validate example_config = Ok ()"
    by (simp add: writer_config_validate_def example_config_def writer_config_minimal_def
        MIN_FILE_SIZE_def MAX_FILE_SIZE_def)
  have "create_block example_deps (wc_compress_schema example_config) = Ok example_schema"
    using example_create by (simp add: example_config_def)
  from writer_create_ok [OF valid this example_fits sh] show ?thesis .
qed

lemma example_block: "create_block example_deps (wc_compress_schema example_config) = Ok example_schema"
  using example_create by (simp add: example_config_def)

definition example_ops :: "session_op list" where
  "example_ops = [OpWrite RtTrade 1 [1, 2, 3] 5, OpBackground, OpWriteAt RtSignal 0 [] 6]"

lemma example_ops_ok: "\<forall>opn \<in> set example_ops. op_ok opn"
  by (simp add: example_ops_def)

lemma example_session:
  assumes "writer_create example_deps os_ok None None example_config = Ok w0"
  shows "\<exists>acc w1. run_session example_deps example_ops w0 = Ok (acc, w1)"
  using session_inv [OF example_block example_fits assms example_ops_ok] by blast

lemma accepted_subset: "run_session d ops w = Ok (acc, w') \<Longrightarrow> set acc \<subseteq> (\<Union>opn \<in> set ops. set (op_entries opn))"
proof (induction ops arbitrary: w acc)
  case (Cons opn ops)
  then show ?case by (fastforce simp: rbind_Ok_iff split: if_splits)
qed simp

lemma example_readable:
  assumes "run_session example_deps example_ops w0 = Ok (acc, w1)"
  shows "\<forall>e \<in> set acc. entry_readable e"
proof -
  have "to_le (5 :: i64) \<noteq> FOOTER_MAGIC" "to_le (6 :: i64) \<noteq> FOOTER_MAGIC"
    by (simp_all add: to_le_def FOOTER_MAGIC_def as_bytes_def)
  then show ?thesis
    using accepted_subset [OF assms]
    by (auto simp: example_ops_def entry_readable_def buffer_entry_new_def)
qed

lemma journal_roundtrip_witness:
  "\<exists>w0 acc w1 w2 r recs r'. writer_create example_deps os_ok None None example_config = Ok w0
     \<and> run_session example_deps example_ops w0 = Ok (acc, w1)
     \<and> close_internal example_deps None None w1 = Some (Ok w2)
     \<and> reader_open example_deps (Ok (jw_file w2)) = Ok r
     \<and> read_all example_deps r = Ok (map Inr recs, r')
     \<and> map record_view recs = map entry_view (placed (journal_room example_config example_schema) acc)"
proof -
  obtain w0 where w0: "writer_create example_deps os_ok None None example_config = Ok w0"
    using example_writer by blast
  obtain acc w1 where run: "run_session example_deps example_ops w0 = Ok (acc, w1)"
    using example_session [OF w0] by blast
  from journal_roundtrip [OF example_deps_sane example_block example_fits w0 example_ops_ok run
      example_readable [OF run]] w0 run
  show ?thesis by blast
qed

lemma session_accounting_witness:
  "\<exists>w0 acc w1. writer_create example_deps os_ok None None example_config = Ok w0
     \<and> run_session example_deps example_ops w0 = Ok (acc, w1)
     \<and> length (jw_file w1) = unat (wc_file_size example_config)"
proof -
  obtain w0 where w0: "writer_create example_deps os_ok None None example_config = Ok w0"
    using example_writer by blast
  from session_accounting [OF example_block example_fits w0 example_ops_ok] w0
  show ?thesis by blast
qed

lemma flush_drains_witness:
  "\<exists>w0 acc w1 w2. writer_create example_deps os_ok None None example_config = Ok w0
     \<and> run_session example_deps example_ops w0 = Ok (acc, w1)
     \<and> writer_flush example_deps w1 = Some (Ok (None, w2)) \<and> pending_records w2 = 0"
proof -
  obtain w0 where w0: "writer_create example_deps os_ok None None example_config = Ok w0"
    using example_writer by blast
  obtain acc w1 where run: "run_session example_deps example_ops w0 = Ok (acc, w1)"
    using example_session [OF w0] by blast
  have len: "length acc \<le> length ops'" if "run_session d ops' w = Ok (acc, w')" for d ops' w w' acc
    using that
  proof (induction ops' arbitrary: w acc)
    case (Cons opn ops')
    have "length (op_entries opn) \<le> 1" by (cases opn) simp_all
    with Cons show ?case by (fastforce simp: rbind_Ok_iff split: if_splits)
  qed simp
  have "length acc < 2 ^ 32" using len [OF run] by (simp add: example_ops_def)
  from flush_drains [OF example_block example_fits w0 example_ops_ok run this] w0 run
  show ?thesis by blast
qed

end
