(* ===== verification/Tap.thy ===== *)
theory Tap
  imports Verify_Hash Journal_Roundtrip Codec_Decoder "HOL-Library.Sublist"
begin

text \<open>
  \<open>tap/traits.rs\<close>, \<open>tap/null_tap.rs\<close> and \<open>tap/journal_tap.rs\<close>: the recording interface of the
  hot path. \<open>now\<close> is what the writer's clock returns during a call. The mutex of the journal
  tap makes its calls atomic; it is never poisoned here, since a panic ends the model's run.
\<close>

section \<open>The trait and the null tap\<close>

record 's tap_ops =
  tp_record_ingress :: "exchange \<Rightarrow> bytes \<Rightarrow> timestamp \<Rightarrow> i64 \<Rightarrow> 's \<Rightarrow> ('s, unit) result"
  tp_record_internal :: "u16 \<Rightarrow> bytes \<Rightarrow> timestamp \<Rightarrow> i64 \<Rightarrow> 's \<Rightarrow> ('s, unit) result"
  tp_record_egress :: "exchange \<Rightarrow> bytes \<Rightarrow> timestamp \<Rightarrow> i64 \<Rightarrow> 's \<Rightarrow> ('s, unit) result"
  tp_record_checkpoint :: "sha256 \<Rightarrow> timestamp \<Rightarrow> 's \<Rightarrow> ('s, unit) result"
  tp_is_active :: "'s \<Rightarrow> bool"

definition null_tap_ops :: "unit tap_ops" where
  "null_tap_ops =
     \<lparr>tp_record_ingress = (\<lambda>_ _ _ _ s. Ok s), tp_record_internal = (\<lambda>_ _ _ _ s. Ok s),
      tp_record_egress = (\<lambda>_ _ _ _ s. Ok s), tp_record_checkpoint = (\<lambda>_ _ s. Ok s),
      tp_is_active = (\<lambda>_. False)\<rparr>"

section \<open>The journal tap\<close>

record journal_tap =
  jt_writer :: "journal_writer option"
  jt_active :: bool
  jt_checkpoint_seq :: u64

definition journal_tap_new :: "journal_writer \<Rightarrow> journal_tap" where
  "journal_tap_new w = \<lparr>jt_writer = Some w, jt_active = True, jt_checkpoint_seq = 0\<rparr>"

definition journal_tap_inactive :: journal_tap where
  "journal_tap_inactive = \<lparr>jt_writer = None, jt_active = False, jt_checkpoint_seq = 0\<rparr>"

text \<open>A call on the writer, if there is one; its error is dropped.\<close>

definition with_writer ::
    "(journal_writer \<Rightarrow> (writer_error option \<times> journal_writer, unit) result) \<Rightarrow> journal_tap \<Rightarrow>
     (journal_tap, unit) result" where
  "with_writer f t =
     (case jt_writer t of
        None \<Rightarrow> Ok t
      | Some w \<Rightarrow> map_ok (\<lambda>(_, w'). t\<lparr>jt_writer := Some w'\<rparr>) (f w))"

definition tap_record_ingress ::
    "exchange \<Rightarrow> bytes \<Rightarrow> timestamp \<Rightarrow> i64 \<Rightarrow> journal_tap \<Rightarrow> (journal_tap, unit) result" where
  "tap_record_ingress ex payload ts now =
     with_writer (writer_write RtRawFrame (exchange_as_u8 ex) payload now)"

definition tap_record_internal ::
    "u16 \<Rightarrow> bytes \<Rightarrow> timestamp \<Rightarrow> i64 \<Rightarrow> journal_tap \<Rightarrow> (journal_tap, unit) result" where
  "tap_record_internal event_type payload ts now =
     with_writer (writer_write RtStateChange (ucast event_type) payload now)"

definition tap_record_egress ::
    "exchange \<Rightarrow> bytes \<Rightarrow> timestamp \<Rightarrow> i64 \<Rightarrow> journal_tap \<Rightarrow> (journal_tap, unit) result" where
  "tap_record_egress ex payload ts now =
     with_writer (writer_write RtOrderSubmit (exchange_as_u8 ex) payload now)"

definition tap_record_checkpoint ::
    "sha256 \<Rightarrow> timestamp \<Rightarrow> journal_tap \<Rightarrow> (journal_tap, unit) result" where
  "tap_record_checkpoint state_hash ts t =
     (case jt_writer t of
        None \<Rightarrow> Ok t
      | Some w \<Rightarrow>
          let seq = jt_checkpoint_seq t; t1 = t\<lparr>jt_checkpoint_seq := seq + 1\<rparr> in
          rbind (checkpoint_data_to_bytes (checkpoint_data_new seq ts state_hash)) (\<lambda>data.
          with_writer (write_with_timestamp RtCheckpoint 0 data ts) t1))"

definition journal_tap_ops :: "journal_tap tap_ops" where
  "journal_tap_ops =
     \<lparr>tp_record_ingress = tap_record_ingress, tp_record_internal = tap_record_internal,
      tp_record_egress = tap_record_egress, tp_record_checkpoint = tap_record_checkpoint,
      tp_is_active = jt_active\<rparr>"

section \<open>Events of a recording session\<close>

datatype tap_event =
    TapIngress exchange bytes timestamp i64
  | TapInternal u16 bytes timestamp i64
  | TapEgress exchange bytes timestamp i64
  | TapCheckpoint sha256 timestamp
  | TapBackground  \<comment> \<open>an iteration of the writer's background thread\<close>

fun tap_step :: "deps \<Rightarrow> tap_event \<Rightarrow> journal_tap \<Rightarrow> (journal_tap, unit) result" where
  "tap_step d (TapIngress ex p ts now) t = tp_record_ingress journal_tap_ops ex p ts now t"
| "tap_step d (TapInternal et p ts now) t = tp_record_internal journal_tap_ops et p ts now t"
| "tap_step d (TapEgress ex p ts now) t = tp_record_egress journal_tap_ops ex p ts now t"
| "tap_step d (TapCheckpoint h ts) t = tp_record_checkpoint journal_tap_ops h ts t"
| "tap_step d TapBackground t =
     (case jt_writer t of
        None \<Rightarrow> Ok t
      | Some w \<Rightarrow> map_ok (\<lambda>(_, w'). t\<lparr>jt_writer := Some w'\<rparr>) (background_iteration d w))"

fun tap_run :: "deps \<Rightarrow> tap_event list \<Rightarrow> journal_tap \<Rightarrow> (journal_tap, unit) result" where
  "tap_run d [] t = Ok t"
| "tap_run d (e # es) t = rbind (tap_step d e t) (tap_run d es)"

text \<open>The writer calls that a recording amounts to; \<open>n\<close> is the next checkpoint number.\<close>

definition checkpoint_payload :: "u64 \<Rightarrow> timestamp \<Rightarrow> sha256 \<Rightarrow> bytes" where
  "checkpoint_payload n ts h = to_le n @ to_le ts @ h"

fun tap_writer_ops :: "u64 \<Rightarrow> tap_event list \<Rightarrow> session_op list" where
  "tap_writer_ops n [] = []"
| "tap_writer_ops n (TapIngress ex p ts now # es) =
     OpWrite RtRawFrame (exchange_as_u8 ex) p now # tap_writer_ops n es"
| "tap_writer_ops n (TapInternal et p ts now # es) =
     OpWrite RtStateChange (ucast et) p now # tap_writer_ops n es"
| "tap_writer_ops n (TapEgress ex p ts now # es) =
     OpWrite RtOrderSubmit (exchange_as_u8 ex) p now # tap_writer_ops n es"
| "tap_writer_ops n (TapCheckpoint h ts # es) =
     OpWriteAt RtCheckpoint 0 (checkpoint_payload n ts h) ts # tap_writer_ops (n + 1) es"
| "tap_writer_ops n (TapBackground # es) = OpBackground # tap_writer_ops n es"

fun event_ok :: "tap_event \<Rightarrow> bool" where
  "event_ok (TapIngress ex p ts now) \<longleftrightarrow> length p < 2 ^ 63"
| "event_ok (TapInternal et p ts now) \<longleftrightarrow> length p < 2 ^ 63"
| "event_ok (TapEgress ex p ts now) \<longleftrightarrow> length p < 2 ^ 63"
| "event_ok (TapCheckpoint h ts) \<longleftrightarrow> length h = 32"
| "event_ok TapBackground \<longleftrightarrow> True"

lemma checkpoint_data_bytes:
  "length h = 32 \<Longrightarrow> checkpoint_data_to_bytes (checkpoint_data_new n ts h) = Ok (checkpoint_payload n ts h)"
  by (simp add: checkpoint_data_to_bytes_def checkpoint_data_new_def checkpoint_payload_def
      write_at_def CHECKPOINT_DATA_SIZE_def)

lemma tap_writer_ops_ok: "\<forall>e \<in> set es. event_ok e \<Longrightarrow> \<forall>opn \<in> set (tap_writer_ops n es). op_ok opn"
  by (induction n es rule: tap_writer_ops.induct) (auto simp: checkpoint_payload_def)

lemma tap_run_session:
  assumes "\<forall>e \<in> set es. event_ok e" and "jt_writer t = Some w"
    and "run_session d (tap_writer_ops (jt_checkpoint_seq t) es) w = Ok (acc, w')"
  shows "\<exists>t'. tap_run d es t = Ok t' \<and> jt_writer t' = Some w'"
  using assms
proof (induction es arbitrary: t w acc)
  case (Cons e es)
  show ?case
  proof (cases e)
    case (TapCheckpoint h ts)
    with Cons.prems Cons.IH show ?thesis
      by (auto simp: journal_tap_ops_def tap_record_checkpoint_def with_writer_def checkpoint_data_bytes
          rbind_Ok_iff map_ok_Ok_iff Let_def split: prod.splits)
  qed (use Cons.prems Cons.IH in
      \<open>auto simp: journal_tap_ops_def tap_record_ingress_def tap_record_internal_def tap_record_egress_def
        with_writer_def rbind_Ok_iff map_ok_Ok_iff split: prod.splits\<close>)
qed simp

section \<open>A recording read back\<close>

lemma run_session_subseq:
  "run_session d ops w = Ok (acc, w') \<Longrightarrow> subseq acc (concat (map op_entries ops))"
proof (induction ops arbitrary: w acc)
  case (Cons opn ops)
  then obtain w1 acc' where "run_session d ops w1 = Ok (acc', w')"
    "acc = (if jw_sequence w1 = jw_sequence w then [] else op_entries opn) @ acc'"
    by (auto simp: rbind_Ok_iff)
  with Cons.IH show ?case by (auto intro: list_emb_append_mono list_emb_append2)
qed simp

lemma placed_subseq: "subseq (placed room es) es"
  by (induction es arbitrary: room) auto

definition recorded_entries :: "tap_event list \<Rightarrow> buffer_entry list" where
  "recorded_entries es = concat (map op_entries (tap_writer_ops 0 es))"

lemma checkpoint_entries:
  assumes "e \<in> set (concat (map op_entries (tap_writer_ops n es)))" and "be_record_type e = 3"
  shows "\<exists>m h ts. TapCheckpoint h ts \<in> set es \<and> be_timestamp e = ts \<and>
    entry_payload e = checkpoint_payload m ts h"
  using assms
proof (induction n es rule: tap_writer_ops.induct)
  case (5 n h ts es)
  then show ?case
  proof (cases "e = buffer_entry_new 3 0 ts (checkpoint_payload n ts h)")
    case True
    then have "be_timestamp e = ts" "entry_payload e = checkpoint_payload n ts h"
      by (simp, simp add: buffer_entry_new_def) (simp add: True)
    then show ?thesis by auto
  next
    case False
    with 5 show ?thesis by auto
  qed
qed (auto simp: buffer_entry_new_def)

lemma checkpoint_payload_parses:
  "length h = 32 \<Longrightarrow> checkpoint_from_bytes (checkpoint_payload n ts h) = Ok (checkpoint_new n ts h)"
  using checkpoint_payload_def by (simp add: checkpoint_from_bytes_def checkpoint_data_from_bytes_def
      subslice_def checkpoint_from_data_def checkpoint_new_def CHECKPOINT_DATA_SIZE_def)

lemma tap_session:
  assumes "deps_sane d" and "create_block d (wc_compress_schema config) = Ok b"
    and "schema_fits config b" and "writer_create d os now session config = Ok w0"
    and "\<forall>e \<in> set es. event_ok e" and "\<forall>e \<in> set (recorded_entries es). entry_readable e"
  obtains t' w1 w2 r recs r' written where "tap_run d es (journal_tap_new w0) = Ok t'" "jt_writer t' = Some w1"
    "close_internal d None None w1 = Some (Ok w2)" "reader_open d (Ok (jw_file w2)) = Ok r"
    "read_all d r = Ok (map Inr recs, r')" "map record_view recs = map entry_view written"
    "subseq written (recorded_entries es)"
proof -
  let ?ops = "tap_writer_ops 0 es"
  note ok = tap_writer_ops_ok [OF assms(5), of 0]
  obtain acc w1 where run: "run_session d ?ops w0 = Ok (acc, w1)"
    using session_inv [OF assms(2-4) ok] by blast
  then obtain t' where t': "tap_run d es (journal_tap_new w0) = Ok t'" "jt_writer t' = Some w1"
    using tap_run_session [OF assms(5), of "journal_tap_new w0" w0 d acc w1] by (auto simp: journal_tap_new_def)
  have sub: "subseq acc (recorded_entries es)"
    using run_session_subseq [OF run] by (simp add: recorded_entries_def)
  then have "\<forall>e \<in> set acc. entry_readable e" using assms(6) by (auto elim: list_emb_set)
  from session_reads_back [OF assms(1-4) ok run this]
  obtain w2 r recs r' where reads: "close_internal d None None w1 = Some (Ok w2)"
    "reader_open d (Ok (jw_file w2)) = Ok r" "read_all d r = Ok (map Inr recs, r')"
    "map record_view recs = map entry_view (placed (journal_room config b) acc)" by blast
  have "subseq (placed (journal_room config b) acc) (recorded_entries es)"
    using placed_subseq sub by (rule subseq_order.order_trans)
  with t' reads that show ?thesis by blast
qed

text \<open>
  C7: A recording through the journal tap, interleaved with the background thread in any way,
  closes and reads back without an error; the records read are a subsequence of the recorded
  events, and every checkpoint record read is one that was recorded and parses as a verifier's
  checkpoint with the recorded hash and timestamp.
\<close>

theorem tap_recording_reads_back:
  assumes "deps_sane d" and "create_block d (wc_compress_schema config) = Ok b"
    and "schema_fits config b" and "writer_create d os now session config = Ok w0"
    and "\<forall>e \<in> set es. event_ok e" and "\<forall>e \<in> set (recorded_entries es). entry_readable e"
  shows "\<exists>t' w1 w2 r recs r'. tap_run d es (journal_tap_new w0) = Ok t' \<and> jt_writer t' = Some w1 \<and>
    close_internal d None None w1 = Some (Ok w2) \<and> reader_open d (Ok (jw_file w2)) = Ok r \<and>
    read_all d r = Ok (map Inr recs, r') \<and>
    subseq (map record_view recs) (map entry_view (recorded_entries es)) \<and>
    (\<forall>x \<in> set recs. rh_record_type (jr_rec_header x) = 3 \<longrightarrow>
      (\<exists>n h. TapCheckpoint h (rh_timestamp (jr_rec_header x)) \<in> set es \<and>
        checkpoint_from_bytes (jr_payload x) = Ok (checkpoint_new n (rh_timestamp (jr_rec_header x)) h)))"
proof -
  obtain t' w1 w2 r recs r' written where session: "tap_run d es (journal_tap_new w0) = Ok t'" "jt_writer t' = Some w1"
    "close_internal d None None w1 = Some (Ok w2)" "reader_open d (Ok (jw_file w2)) = Ok r"
    "read_all d r = Ok (map Inr recs, r')" and views: "map record_view recs = map entry_view written"
    and placed: "subseq written (recorded_entries es)"
    using tap_session [OF assms] by blast
  have "subseq (map record_view recs) (map entry_view (recorded_entries es))"
    unfolding views using placed by (rule subseq_map)
  moreover have "\<exists>n h. TapCheckpoint h (rh_timestamp (jr_rec_header x)) \<in> set es \<and>
      checkpoint_from_bytes (jr_payload x) = Ok (checkpoint_new n (rh_timestamp (jr_rec_header x)) h)"
    if x: "x \<in> set recs" "rh_record_type (jr_rec_header x) = 3" for x
  proof -
    have "record_view x \<in> set (map entry_view written)"
      using x(1) views by (metis image_eqI list.set_map)
    then obtain e where e: "e \<in> set written" "record_view x = entry_view e" by auto
    then have "e \<in> set (recorded_entries es)" using placed by (auto elim: list_emb_set)
    with e(2) x(2) checkpoint_entries [of e 0 es] obtain m h where
      h: "TapCheckpoint h (rh_timestamp (jr_rec_header x)) \<in> set es"
      "jr_payload x = checkpoint_payload m (rh_timestamp (jr_rec_header x)) h"
      by (auto simp: recorded_entries_def record_view_def entry_view_def)
    have "length h = 32" using assms(5) h(1) by fastforce
    with h show ?thesis by (auto simp: checkpoint_payload_parses)
  qed
  ultimately show ?thesis using session by blast
qed

theorem tap_recording_reads_back_witness:
  "\<exists>w0 t' w1 w2 r recs r'. writer_create example_deps os_ok None None example_config = Ok w0 \<and>
    tap_run example_deps [TapIngress ExBinance [1, 2] 4 5, TapBackground, TapCheckpoint (replicate 32 7) 6]
      (journal_tap_new w0) = Ok t' \<and> jt_writer t' = Some w1 \<and>
    close_internal example_deps None None w1 = Some (Ok w2) \<and>
    reader_open example_deps (Ok (jw_file w2)) = Ok r \<and> read_all example_deps r = Ok (map Inr recs, r')"
proof -
  let ?es = "[TapIngress ExBinance [1, 2] 4 5, TapBackground, TapCheckpoint (replicate 32 7) 6]"
  obtain w0 where w0: "writer_create example_deps os_ok None None example_config = Ok w0"
    using example_writer by blast
  have ev: "\<forall>e \<in> set ?es. event_ok e" by simp
  have "to_le (5 :: i64) \<noteq> FOOTER_MAGIC" "to_le (6 :: i64) \<noteq> FOOTER_MAGIC"
    by (simp_all add: to_le_def FOOTER_MAGIC_def as_bytes_def)
  then have "\<forall>e \<in> set (recorded_entries ?es). entry_readable e"
    by (simp add: recorded_entries_def entry_readable_def buffer_entry_new_def)
  from tap_recording_reads_back [OF example_deps_sane example_block example_fits w0 ev this] w0
  show ?thesis by blast
qed

text \<open>
  The codec cannot decode the checkpoints that the tap records: under the same type id 3
  it expects 112 bytes and reports a short buffer for the tap's 48.
\<close>

theorem codec_rejects_tap_checkpoint:
  assumes "length h = 32"
  shows "\<exists>bs. checkpoint_data_to_bytes (checkpoint_data_new n ts h) = (Ok bs :: (_, unit) result) \<and>
    decode_by_id (record_type_as_u16 RtCheckpoint) bs = Err (DecBufferTooSmall 112 48)"
  using assms by (simp add: checkpoint_data_bytes decode_by_id_def decode_checkpoint_def dec_check_size_def
      checkpoint_payload_def)

theorem codec_rejects_tap_checkpoint_witness:
  "\<exists>bs. checkpoint_data_to_bytes (checkpoint_data_new 0 5 (replicate 32 7)) = (Ok bs :: (_, unit) result) \<and>
    decode_by_id (record_type_as_u16 RtCheckpoint) bs = Err (DecBufferTooSmall 112 48)"
  by (rule codec_rejects_tap_checkpoint) simp

end
