(* ===== verification/Flash_Types.thy ===== *)
theory Flash_Types
  imports F64 Text
begin

text \<open>
  \<open>flash/src/core/types.rs\<close>: the market-data types of the flash adapter. Quantities are
  \<open>rust_decimal\<close> numbers, code outside the repository: the type parameter \<open>'q\<close> stands for
  them, used through their order and exact addition only (\<open>linordered_ab_group_add\<close>). Prices
  are doubles; as keys they are compared by the total order of the crate \<open>ordered-float\<close>.
\<close>

section \<open>Ordered doubles\<close>

text \<open>The order of \<open>OrderedFloat<f64>\<close>: numeric, and NaN equal to itself and greatest.\<close>

datatype ordered_float = OrderedFloat f64

fun f64_rank :: "f64 \<Rightarrow> int" where
  "f64_rank (FInf True) = 0"
| "f64_rank (FFin r) = 1"
| "f64_rank (FInf False) = 2"
| "f64_rank FNaN = 3"

fun f64_total_less :: "f64 \<Rightarrow> f64 \<Rightarrow> bool" where
  "f64_total_less (FFin a) (FFin b) \<longleftrightarrow> a < b"
| "f64_total_less x y \<longleftrightarrow> f64_rank x < f64_rank y"

instantiation ordered_float :: linorder
begin

fun less_ordered_float :: "ordered_float \<Rightarrow> ordered_float \<Rightarrow> bool" where
  "less_ordered_float (OrderedFloat x) (OrderedFloat y) \<longleftrightarrow> f64_total_less x y"

definition less_eq_ordered_float :: "ordered_float \<Rightarrow> ordered_float \<Rightarrow> bool" where
  "less_eq_ordered_float x y \<longleftrightarrow> x < y \<or> x = y"

lemma f64_rank_cases: "f64_total_less x y \<longleftrightarrow>
    (case (x, y) of (FFin a, FFin b) \<Rightarrow> a < b | _ \<Rightarrow> f64_rank x < f64_rank y)"
  by (cases x; cases y) auto

lemma f64_rank_inject: "f64_rank x = f64_rank y \<Longrightarrow> x = y \<or> (\<exists>a b. x = FFin a \<and> y = FFin b)"
  by (cases x rule: f64_rank.cases; cases y rule: f64_rank.cases) auto

lemma f64_total_less_irrefl: "\<not> f64_total_less x x"
  by (cases x) auto

lemma f64_total_less_trans: "f64_total_less x y \<Longrightarrow> f64_total_less y z \<Longrightarrow> f64_total_less x z"
  by (cases x rule: f64_rank.cases; cases y rule: f64_rank.cases; cases z rule: f64_rank.cases) auto

lemma f64_total_less_total: "f64_total_less x y \<or> x = y \<or> f64_total_less y x"
  by (cases x rule: f64_rank.cases; cases y rule: f64_rank.cases) auto

instance
proof
  fix x y z :: ordered_float
  obtain a b c where eq: "x = OrderedFloat a" "y = OrderedFloat b" "z = OrderedFloat c"
    by (metis ordered_float.exhaust)
  note laws = f64_total_less_irrefl f64_total_less_trans f64_total_less_total
  show "x < y \<longleftrightarrow> x \<le> y \<and> \<not> y \<le> x"
    using laws(1) [of a] laws(2) [of a b a] by (auto simp: eq less_eq_ordered_float_def)
  show "x \<le> x" by (simp add: less_eq_ordered_float_def)
  show "x \<le> y \<Longrightarrow> y \<le> z \<Longrightarrow> x \<le> z"
    using laws(2) [of a b c] by (auto simp: eq less_eq_ordered_float_def)
  show "x \<le> y \<Longrightarrow> y \<le> x \<Longrightarrow> x = y"
    using laws(1) [of a] laws(2) [of a b a] by (auto simp: eq less_eq_ordered_float_def)
  show "x \<le> y \<or> y \<le> x"
    using laws(3) [of a b] by (auto simp: eq less_eq_ordered_float_def)
qed

end

section \<open>Market-data types\<close>

datatype flash_exchange = FxDeribit | FxBinance | FxOanda

fun flash_exchange_as_str :: "flash_exchange \<Rightarrow> string" where
  "flash_exchange_as_str FxDeribit = ''deribit''"
| "flash_exchange_as_str FxBinance = ''binance''"
| "flash_exchange_as_str FxOanda = ''oanda''"

datatype book_side = Bid | Ask

lemma all_book_side: "(\<forall>s. P s) \<longleftrightarrow> P Bid \<and> P Ask"
  by (metis book_side.exhaust)

fun book_side_opposite :: "book_side \<Rightarrow> book_side" where
  "book_side_opposite Bid = Ask"
| "book_side_opposite Ask = Bid"

fun book_side_as_str :: "book_side \<Rightarrow> string" where
  "book_side_as_str Bid = ''bid''"
| "book_side_as_str Ask = ''ask''"

datatype market_event_type = MeSnapshot | MeDelta | MeTrade | MeHeartbeat

fun market_event_type_as_str :: "market_event_type \<Rightarrow> string" where
  "market_event_type_as_str MeSnapshot = ''snapshot''"
| "market_event_type_as_str MeDelta = ''delta''"
| "market_event_type_as_str MeTrade = ''trade''"
| "market_event_type_as_str MeHeartbeat = ''heartbeat''"

record flash_instrument =
  fi_base :: string
  fi_quote :: string
  fi_exchange :: flash_exchange
  fi_raw_symbol :: string

definition flash_instrument_new :: "string \<Rightarrow> string \<Rightarrow> flash_exchange \<Rightarrow> string \<Rightarrow> flash_instrument" where
  "flash_instrument_new base quote ex raw =
     \<lparr>fi_base = base, fi_quote = quote, fi_exchange = ex, fi_raw_symbol = raw\<rparr>"

definition flash_instrument_symbol :: "flash_instrument \<Rightarrow> string" where
  "flash_instrument_symbol i = fi_base i @ ''/'' @ fi_quote i"

definition flash_instrument_display :: "flash_instrument \<Rightarrow> string" where
  "flash_instrument_display i = flash_exchange_as_str (fi_exchange i) @ '':'' @ fi_raw_symbol i"

record 'q price_level =
  pl_price :: f64
  pl_quantity :: 'q
  pl_order_count :: "u32 option"
  pl_timestamp :: i64

definition price_level_new :: "f64 \<Rightarrow> 'q \<Rightarrow> i64 \<Rightarrow> 'q price_level" where
  "price_level_new p q t = \<lparr>pl_price = p, pl_quantity = q, pl_order_count = None, pl_timestamp = t\<rparr>"

definition price_level_with_order_count :: "f64 \<Rightarrow> 'q \<Rightarrow> u32 \<Rightarrow> i64 \<Rightarrow> 'q price_level" where
  "price_level_with_order_count p q n t =
     \<lparr>pl_price = p, pl_quantity = q, pl_order_count = Some n, pl_timestamp = t\<rparr>"

definition price_level_is_empty :: "'q::zero price_level \<Rightarrow> bool" where
  "price_level_is_empty l \<longleftrightarrow> pl_quantity l = 0"

text \<open>Comparisons of doubles. The derived equality compares the price as a double: NaN differs from itself.\<close>

definition f64_eq :: "f64 \<Rightarrow> f64 \<Rightarrow> bool" where
  "f64_eq x y \<longleftrightarrow> x \<noteq> FNaN \<and> x = y"

definition f64_less :: "f64 \<Rightarrow> f64 \<Rightarrow> bool" where
  "f64_less x y \<longleftrightarrow> x \<noteq> FNaN \<and> y \<noteq> FNaN \<and> f64_total_less x y"

definition price_level_eq :: "'q price_level \<Rightarrow> 'q price_level \<Rightarrow> bool" where
  "price_level_eq a b \<longleftrightarrow> f64_eq (pl_price a) (pl_price b) \<and> pl_quantity a = pl_quantity b \<and>
     pl_order_count a = pl_order_count b \<and> pl_timestamp a = pl_timestamp b"

fun option_level_eq :: "'q price_level option \<Rightarrow> 'q price_level option \<Rightarrow> bool" where
  "option_level_eq None None = True"
| "option_level_eq (Some a) (Some b) = price_level_eq a b"
| "option_level_eq _ _ = False"

datatype 'q market_data =
    MdBook "'q price_level list" "'q price_level list"
  | MdTrade f64 'q book_side "string option"
  | MdHeartbeat i64

fun md_is_book :: "'q market_data \<Rightarrow> bool" where
  "md_is_book (MdBook b a) = True"
| "md_is_book _ = False"

fun md_is_trade :: "'q market_data \<Rightarrow> bool" where
  "md_is_trade (MdTrade p q s i) = True"
| "md_is_trade _ = False"

fun md_is_heartbeat :: "'q market_data \<Rightarrow> bool" where
  "md_is_heartbeat (MdHeartbeat t) = True"
| "md_is_heartbeat _ = False"

record 'q market_event =
  mev_event_type :: market_event_type
  mev_instrument :: flash_instrument
  mev_timestamp :: i64
  mev_local_timestamp :: i64
  mev_sequence :: "u64 option"
  mev_data :: "'q market_data"

definition latency_micros :: "'q market_event \<Rightarrow> (i64, 'e) result" where
  "latency_micros e = i64_sub (mev_local_timestamp e) (mev_timestamp e)"

end
