(* ===== verification/Btree_Map.thy ===== *)
theory Btree_Map
  imports Main
begin

text \<open>
  The standard library's \<open>BTreeMap\<close> as the code uses it: an association list with strictly
  increasing keys. Insertion replaces a value of an equal key (and keeps the stored key).
  \<open>map_of\<close> is the abstraction to a finite map; the first and last entries are the extrema.
\<close>

type_synonym ('k, 'v) btree_map = "('k \<times> 'v) list"

definition btm_wf :: "('k::linorder, 'v) btree_map \<Rightarrow> bool" where
  "btm_wf m \<longleftrightarrow> sorted_wrt (<) (map fst m)"

definition btm_get :: "('k, 'v) btree_map \<Rightarrow> 'k \<Rightarrow> 'v option" where
  "btm_get m k = map_of m k"

fun btm_insert :: "'k::linorder \<Rightarrow> 'v \<Rightarrow> ('k, 'v) btree_map \<Rightarrow> ('k, 'v) btree_map" where
  "btm_insert k v [] = [(k, v)]"
| "btm_insert k v ((k', v') # m) =
     (if k < k' then (k, v) # (k', v') # m
      else if k = k' then (k', v) # m
      else (k', v') # btm_insert k v m)"

definition btm_remove :: "'k \<Rightarrow> ('k, 'v) btree_map \<Rightarrow> 'v option \<times> ('k, 'v) btree_map" where
  "btm_remove k m = (map_of m k, filter (\<lambda>e. fst e \<noteq> k) m)"

definition btm_pop_first :: "('k, 'v) btree_map \<Rightarrow> ('k \<times> 'v) option \<times> ('k, 'v) btree_map" where
  "btm_pop_first m = (case m of [] \<Rightarrow> (None, []) | e # m' \<Rightarrow> (Some e, m'))"

definition btm_pop_last :: "('k, 'v) btree_map \<Rightarrow> ('k \<times> 'v) option \<times> ('k, 'v) btree_map" where
  "btm_pop_last m = (if m = [] then (None, []) else (Some (last m), butlast m))"

text \<open>\<open>values()\<close>, and its first and last element.\<close>

definition btm_values :: "('k, 'v) btree_map \<Rightarrow> 'v list" where
  "btm_values m = map snd m"

definition btm_first :: "('k, 'v) btree_map \<Rightarrow> 'v option" where
  "btm_first m = (case m of [] \<Rightarrow> None | e # _ \<Rightarrow> Some (snd e))"

definition btm_last :: "('k, 'v) btree_map \<Rightarrow> 'v option" where
  "btm_last m = (if m = [] then None else Some (snd (last m)))"

section \<open>Laws\<close>

lemma btm_wf_Nil [simp]: "btm_wf []"
  by (simp add: btm_wf_def)

lemma btm_wf_Cons: "btm_wf (e # m) \<longleftrightarrow> (\<forall>x \<in> set m. fst e < fst x) \<and> btm_wf m"
  by (auto simp: btm_wf_def)

lemma btm_wf_distinct: "btm_wf m \<Longrightarrow> distinct (map fst m)"
  by (auto simp: btm_wf_def strict_sorted_iff)

lemma btm_wf_append: "btm_wf (a @ b) \<longleftrightarrow> btm_wf a \<and> btm_wf b \<and> (\<forall>x \<in> set a. \<forall>y \<in> set b. fst x < fst y)"
  by (auto simp: btm_wf_def sorted_wrt_append)

lemma set_btm_insert: "set (btm_insert k v m) \<subseteq> insert (k, v) (set m)"
  by (induction k v m rule: btm_insert.induct) (auto split: if_splits)

lemma btm_insert_keys: "fst ` set (btm_insert k v m) = insert k (fst ` set m)"
  by (induction k v m rule: btm_insert.induct) (simp_all add: insert_commute)

lemma btm_insert_wf: "btm_wf m \<Longrightarrow> btm_wf (btm_insert k v m)"
proof (induction m)
  case (Cons e m)
  have "\<forall>x \<in> set (btm_insert k v m). fst e < fst x" if "fst e < k"
  proof -
    have "fst ` set (btm_insert k v m) = insert k (fst ` set m)" by (rule btm_insert_keys)
    then show ?thesis using that Cons.prems by (force simp: btm_wf_Cons)
  qed
  with Cons show ?case by (cases e) (auto simp: btm_wf_Cons)
qed (simp add: btm_wf_Cons)

lemma btm_get_insert: "btm_wf m \<Longrightarrow> btm_get (btm_insert k v m) = (btm_get m)(k \<mapsto> v)"
proof (induction m)
  case (Cons e m)
  then show ?case by (cases e) (auto simp: btm_get_def btm_wf_Cons fun_eq_iff)
qed (auto simp: btm_get_def)

lemma btm_remove_wf: "btm_wf m \<Longrightarrow> btm_wf (snd (btm_remove k m))"
  by (induction m) (auto simp: btm_remove_def btm_wf_Cons)

lemma btm_get_remove: "btm_get (snd (btm_remove k m)) = (btm_get m)(k := None)"
  by (induction m) (auto simp: btm_remove_def btm_get_def fun_eq_iff)

lemma btm_get_Some: "btm_wf m \<Longrightarrow> btm_get m k = Some v \<longleftrightarrow> (k, v) \<in> set m"
  unfolding btm_get_def by (rule map_of_eq_Some_iff [OF btm_wf_distinct])

lemma btm_get_None: "btm_get m k = None \<longleftrightarrow> k \<notin> fst ` set m"
  by (simp add: btm_get_def map_of_eq_None_iff)

text \<open>The sum of a function of the values, kept up to date by the operations.\<close>

definition btm_sum :: "('v \<Rightarrow> 'q::ab_group_add) \<Rightarrow> ('k, 'v) btree_map \<Rightarrow> 'q" where
  "btm_sum f m = sum_list (map (\<lambda>e. f (snd e)) m)"

lemma btm_sum_simps [simp]:
  "btm_sum f [] = 0" "btm_sum f (e # m) = f (snd e) + btm_sum f m"
  "btm_sum f (a @ b) = btm_sum f a + btm_sum f b"
  by (simp_all add: btm_sum_def)

lemma btm_sum_insert:
  "btm_wf m \<Longrightarrow> btm_sum f (btm_insert k v m) =
     btm_sum f m - (case btm_get m k of None \<Rightarrow> 0 | Some u \<Rightarrow> f u) + f v"
proof (induction m)
  case (Cons e m)
  have "btm_get m k = None" if "k < fst e"
    using that Cons.prems by (force simp: btm_get_None btm_wf_Cons)
  moreover have "btm_get m k = None" if "k = fst e"
    using that Cons.prems by (force simp: btm_get_None btm_wf_Cons)
  ultimately show ?case using Cons
    by (cases e) (auto simp: btm_get_def btm_wf_Cons algebra_simps split: option.splits)
qed (simp add: btm_get_def)

lemma btm_sum_remove:
  "btm_wf m \<Longrightarrow> btm_sum f (snd (btm_remove k m)) =
     btm_sum f m - (case btm_get m k of None \<Rightarrow> 0 | Some u \<Rightarrow> f u)"
proof (induction m)
  case (Cons e m)
  have "filter (\<lambda>x. fst x \<noteq> k) m = m" if "k = fst e"
    using that Cons.prems by (force simp: filter_id_conv btm_wf_Cons)
  with Cons show ?case
    by (cases e) (auto simp: btm_get_def btm_remove_def btm_wf_Cons algebra_simps split: option.splits)
qed (simp add: btm_get_def btm_remove_def)

lemma length_btm_insert_le: "length (btm_insert k v m) \<le> Suc (length m)"
  by (induction m) auto

lemma btm_last_max: "btm_wf m \<Longrightarrow> x \<in> set m \<Longrightarrow> fst x \<le> fst (last m)"
  by (induction m) (auto simp: btm_wf_Cons less_le)

lemma btm_wf_take: "btm_wf m \<Longrightarrow> btm_wf (take n m)"
  by (simp add: btm_wf_def sorted_wrt_take flip: take_map)

lemma btm_wf_drop: "btm_wf m \<Longrightarrow> btm_wf (drop n m)"
  by (simp add: btm_wf_def sorted_wrt_drop flip: drop_map)

lemma btm_sum_take_drop: "btm_sum f (take n m) + btm_sum f (drop n m) = btm_sum f m"
  unfolding btm_sum_simps(3) [symmetric] append_take_drop_id ..

lemma btm_get_restrict:
  assumes "btm_wf m" "set m' \<subseteq> set m" "btm_wf m'"
    and "\<And>e. e \<in> set m \<Longrightarrow> e \<in> set m' \<longleftrightarrow> fst e \<in> A"
  shows "btm_get m' = btm_get m |` A"
proof
  fix k
  have "btm_get m' k = Some v \<longleftrightarrow> (btm_get m |` A) k = Some v" for v
    using assms by (auto simp: btm_get_Some restrict_map_def)
  then show "btm_get m' k = (btm_get m |` A) k" by (metis option.exhaust)
qed

lemma btm_dom: "dom (btm_get m) = fst ` set m"
  by (simp add: btm_get_def [abs_def] dom_map_of_conv_image_fst)

text \<open>The elements of a prefix are those with few smaller keys, those of a suffix those with few greater.\<close>

lemma btm_take_iff:
  assumes wf: "btm_wf m" and e: "e \<in> set m"
  shows "e \<in> set (take n m) \<longleftrightarrow> card {k \<in> fst ` set m. k < fst e} < n"
proof -
  obtain a b where m: "m = a @ e # b" using e by (auto simp: in_set_conv_decomp)
  have "{k \<in> fst ` set m. k < fst e} = fst ` set a"
    using wf unfolding m by (force simp: btm_wf_append btm_wf_Cons)
  moreover have "distinct (map fst a)" "e \<notin> set a" "e \<notin> set b"
    using wf unfolding m by (auto simp: btm_wf_append btm_wf_Cons intro: btm_wf_distinct)
  ultimately have "card {k \<in> fst ` set m. k < fst e} = length a"
    by (metis distinct_card list.set_map length_map)
  then show ?thesis using \<open>e \<notin> set a\<close> \<open>e \<notin> set b\<close>
    unfolding m by (auto simp: take_Cons' dest: in_set_takeD)
qed

lemma btm_drop_iff:
  assumes wf: "btm_wf m" and e: "e \<in> set m" and n: "n \<le> length m"
  shows "e \<in> set (drop (length m - n) m) \<longleftrightarrow> card {k \<in> fst ` set m. fst e < k} < n"
proof -
  obtain a b where m: "m = a @ e # b" using e by (auto simp: in_set_conv_decomp)
  have "{k \<in> fst ` set m. fst e < k} = fst ` set b"
    using wf unfolding m by (force simp: btm_wf_append btm_wf_Cons)
  moreover have "distinct (map fst b)" "e \<notin> set a" "e \<notin> set b"
    using wf unfolding m by (auto simp: btm_wf_append btm_wf_Cons intro: btm_wf_distinct)
  ultimately have card: "card {k \<in> fst ` set m. fst e < k} = length b"
    by (metis distinct_card list.set_map length_map)
  show ?thesis
  proof (cases "length b < n")
    case True
    then have "set (e # b) \<subseteq> set (drop (length m - n) m)" unfolding m by auto
    with True card show ?thesis by auto
  next
    case False
    then have "set (drop (length m - n) m) \<subseteq> set b" using n unfolding m
      by (auto simp: drop_Cons' dest: in_set_dropD)
    with False card \<open>e \<notin> set b\<close> show ?thesis by auto
  qed
qed

lemma btm_insert_fresh: "k \<notin> fst ` set m \<Longrightarrow> set (btm_insert k v m) = insert (k, v) (set m)"
  by (induction k v m rule: btm_insert.induct) auto

lemma btm_map_keys: "btm_wf m \<Longrightarrow> m = map (\<lambda>k. (k, the (btm_get m k))) (map fst m)"
  by (auto intro!: map_idI [symmetric] simp: btm_get_def btm_wf_distinct comp_def map_of_is_SomeI)

lemma btm_eqI:
  assumes wf: "btm_wf a" "btm_wf b" and set: "set a = set b"
  shows "a = b"
proof -
  have keys: "map fst a = map fst b"
    using wf set unfolding btm_wf_def by (intro strict_sorted_equal) auto
  have "btm_get a k = Some v \<longleftrightarrow> btm_get b k = Some v" for k v
    using wf set by (simp add: btm_get_Some)
  then have "btm_get a = btm_get b" by (metis ext option.exhaust)
  with keys show ?thesis using wf by (metis btm_map_keys)
qed

end
