(* ===== verification/Order_Book.thy ===== *)
theory Order_Book
  imports Flash_Types Btree_Map
begin

text \<open>
  \<open>flash/src/book/orderbook.rs\<close>: the order book, two ordered maps from prices to levels with
  cached best levels and running totals. This is the build without the \<open>blackbox\<close> feature,
  which is off by default; the metrics counter is left out.
\<close>

section \<open>State\<close>

datatype gap_handling = GapSnapshot | GapSkip

record book_config =
  bc_max_depth :: usize
  bc_max_levels :: usize
  bc_track_orders :: bool
  bc_auto_prune :: bool
  bc_gap_handling :: gap_handling

definition book_config_default :: book_config where
  "book_config_default =
     \<lparr>bc_max_depth = 50, bc_max_levels = 100, bc_track_orders = False, bc_auto_prune = True,
      bc_gap_handling = GapSnapshot\<rparr>"

record book_stats =
  bs_update_count :: u64
  bs_snapshot_count :: u64
  bs_last_update_timestamp :: i64
  bs_bid_levels :: usize
  bs_ask_levels :: usize

definition book_stats_default :: book_stats where
  "book_stats_default =
     \<lparr>bs_update_count = 0, bs_snapshot_count = 0, bs_last_update_timestamp = 0, bs_bid_levels = 0,
      bs_ask_levels = 0\<rparr>"

type_synonym 'q level_map = "(ordered_float, 'q price_level) btree_map"

record 'q book_snapshot =
  bsn_instrument :: flash_instrument
  bsn_timestamp :: i64
  bsn_bids :: "'q price_level list"
  bsn_asks :: "'q price_level list"

record 'q order_book =
  ob_instrument :: flash_instrument
  ob_config :: book_config
  ob_bids :: "'q level_map"
  ob_asks :: "'q level_map"
  ob_best_bid :: "'q price_level option"
  ob_best_ask :: "'q price_level option"
  ob_stats :: book_stats
  ob_last_sequence :: "u64 option"
  ob_total_bid_qty :: 'q
  ob_total_ask_qty :: 'q

definition book_new :: "flash_instrument \<Rightarrow> book_config \<Rightarrow> 'q::linordered_ab_group_add order_book" where
  "book_new instrument config =
     \<lparr>ob_instrument = instrument, ob_config = config, ob_bids = [], ob_asks = [],
      ob_best_bid = None, ob_best_ask = None, ob_stats = book_stats_default,
      ob_last_sequence = None, ob_total_bid_qty = 0, ob_total_ask_qty = 0\<rparr>"

definition book_with_instrument :: "flash_instrument \<Rightarrow> 'q::linordered_ab_group_add order_book" where
  "book_with_instrument instrument = book_new instrument book_config_default"

section \<open>Updates\<close>

definition update_best_bid_cache :: "'q order_book \<Rightarrow> 'q order_book" where
  "update_best_bid_cache b = b\<lparr>ob_best_bid := btm_last (ob_bids b)\<rparr>"

definition update_best_ask_cache :: "'q order_book \<Rightarrow> 'q order_book" where
  "update_best_ask_cache b = b\<lparr>ob_best_ask := btm_first (ob_asks b)\<rparr>"

text \<open>The loop over the levels of one side of a snapshot.\<close>

fun snapshot_levels ::
    "bool \<Rightarrow> 'q::linordered_ab_group_add price_level list \<Rightarrow> 'q level_map \<times> 'q \<Rightarrow> 'q level_map \<times> 'q" where
  "snapshot_levels prune [] (m, tot) = (m, tot)"
| "snapshot_levels prune (l # ls) (m, tot) =
     snapshot_levels prune ls
       (if pl_quantity l > 0 \<or> \<not> prune
        then (btm_insert (OrderedFloat (pl_price l)) l m, tot + pl_quantity l)
        else (m, tot))"

definition record_level_counts :: "'q order_book \<Rightarrow> 'q order_book" where
  "record_level_counts b =
     b\<lparr>ob_stats := (ob_stats b)\<lparr>bs_bid_levels := length (ob_bids b), bs_ask_levels := length (ob_asks b)\<rparr>\<rparr>"

definition apply_snapshot ::
    "'q::linordered_ab_group_add price_level list \<Rightarrow> 'q price_level list \<Rightarrow> i64 \<Rightarrow> 'q order_book \<Rightarrow>
     ('q order_book, 'e) result" where
  "apply_snapshot bids asks timestamp b =
     (let c = ob_config b;
          (bm, bq) = snapshot_levels (bc_auto_prune c) (take (bc_max_levels c) bids) ([], 0);
          (am, aq) = snapshot_levels (bc_auto_prune c) (take (bc_max_levels c) asks) ([], 0);
          b1 = update_best_ask_cache (update_best_bid_cache
                 (b\<lparr>ob_bids := bm, ob_asks := am, ob_total_bid_qty := bq, ob_total_ask_qty := aq\<rparr>)) in
      map_ok (\<lambda>n. record_level_counts
          (b1\<lparr>ob_stats := (ob_stats b1)\<lparr>bs_snapshot_count := n, bs_last_update_timestamp := timestamp\<rparr>\<rparr>))
        (u64_incr (bs_snapshot_count (ob_stats b1))))"

definition book_from_snapshot ::
    "flash_instrument \<Rightarrow> book_config \<Rightarrow> 'q::linordered_ab_group_add price_level list \<Rightarrow>
     'q price_level list \<Rightarrow> i64 \<Rightarrow> ('q order_book, 'e) result" where
  "book_from_snapshot instrument config bids asks timestamp =
     apply_snapshot bids asks timestamp (book_new instrument config)"

text \<open>One level of a delta, on a side and its total.\<close>

definition delta_level ::
    "bool \<Rightarrow> 'q::linordered_ab_group_add price_level \<Rightarrow> 'q level_map \<times> 'q \<Rightarrow> 'q level_map \<times> 'q" where
  "delta_level prune level = (\<lambda>(m, tot).
     let key = OrderedFloat (pl_price level);
         less_existing = (case btm_get m key of None \<Rightarrow> tot | Some ex \<Rightarrow> tot - pl_quantity ex) in
     if pl_quantity level > 0
     then (btm_insert key level m, less_existing + pl_quantity level)
     else if prune
     then (snd (btm_remove key m), less_existing)
     else (btm_insert key level m, less_existing))"

definition delta_levels ::
    "bool \<Rightarrow> 'q::linordered_ab_group_add price_level list \<Rightarrow> 'q level_map \<times> 'q \<Rightarrow> 'q level_map \<times> 'q" where
  "delta_levels prune levels s = fold (delta_level prune) levels s"

text \<open>The loop that enforces the hard limit: the worst bid is the lowest, the worst ask the highest.\<close>

function trim_side ::
    "book_side \<Rightarrow> usize \<Rightarrow> 'q::linordered_ab_group_add level_map \<times> 'q \<Rightarrow> 'q level_map \<times> 'q" where
  "trim_side side limit (m, tot) =
     (if length m > limit
      then
        let (popped, m') = (case side of Bid \<Rightarrow> btm_pop_first m | Ask \<Rightarrow> btm_pop_last m) in
        trim_side side limit
          (m', case popped of None \<Rightarrow> tot | Some (_, removed) \<Rightarrow> tot - pl_quantity removed)
      else (m, tot))"
  by pat_completeness auto

termination
  by (relation "measure (\<lambda>(side, limit, m, tot). length m)")
    (auto simp: btm_pop_first_def btm_pop_last_def split: book_side.splits list.splits if_splits)

declare trim_side.simps [simp del]

definition apply_delta ::
    "book_side \<Rightarrow> 'q::linordered_ab_group_add price_level list \<Rightarrow> i64 \<Rightarrow> 'q order_book \<Rightarrow>
     ('q order_book, 'e) result" where
  "apply_delta side levels timestamp b =
     (let c = ob_config b;
          s = (case side of Bid \<Rightarrow> (ob_bids b, ob_total_bid_qty b) | Ask \<Rightarrow> (ob_asks b, ob_total_ask_qty b));
          (m, tot) = trim_side side (bc_max_levels c) (delta_levels (bc_auto_prune c) levels s);
          b1 = (case side of
                  Bid \<Rightarrow> update_best_bid_cache (b\<lparr>ob_bids := m, ob_total_bid_qty := tot\<rparr>)
                | Ask \<Rightarrow> update_best_ask_cache (b\<lparr>ob_asks := m, ob_total_ask_qty := tot\<rparr>)) in
      map_ok (\<lambda>n. record_level_counts
          (b1\<lparr>ob_stats := (ob_stats b1)\<lparr>bs_update_count := n, bs_last_update_timestamp := timestamp\<rparr>\<rparr>))
        (u64_incr (bs_update_count (ob_stats b1))))"

definition update_level ::
    "book_side \<Rightarrow> 'q::linordered_ab_group_add price_level \<Rightarrow> 'q order_book \<Rightarrow> ('q order_book, 'e) result" where
  "update_level side level b = apply_delta side [level] (pl_timestamp level) b"

definition remove_level ::
    "book_side \<Rightarrow> f64 \<Rightarrow> 'q::linordered_ab_group_add order_book \<Rightarrow> 'q price_level option \<times> 'q order_book" where
  "remove_level side price b =
     (let key = OrderedFloat price;
          (removed, m) = btm_remove key (case side of Bid \<Rightarrow> ob_bids b | Ask \<Rightarrow> ob_asks b);
          tot = (case side of Bid \<Rightarrow> ob_total_bid_qty b | Ask \<Rightarrow> ob_total_ask_qty b);
          tot' = (case removed of None \<Rightarrow> tot | Some l \<Rightarrow> tot - pl_quantity l);
          b1 = (case side of
                  Bid \<Rightarrow> update_best_bid_cache (b\<lparr>ob_bids := m, ob_total_bid_qty := tot'\<rparr>)
                | Ask \<Rightarrow> update_best_ask_cache (b\<lparr>ob_asks := m, ob_total_ask_qty := tot'\<rparr>)) in
      (removed, record_level_counts b1))"

definition book_clear :: "'q::linordered_ab_group_add order_book \<Rightarrow> 'q order_book" where
  "book_clear b =
     b\<lparr>ob_bids := [], ob_asks := [], ob_best_bid := None, ob_best_ask := None,
       ob_stats := (ob_stats b)\<lparr>bs_bid_levels := 0, bs_ask_levels := 0\<rparr>,
       ob_total_bid_qty := 0, ob_total_ask_qty := 0\<rparr>"

section \<open>Queries\<close>

definition mid_price :: "'q order_book \<Rightarrow> f64 option" where
  "mid_price b =
     (case (ob_best_bid b, ob_best_ask b) of
        (Some bid, Some ask) \<Rightarrow> Some (f64_div_pos (f64_add (pl_price bid) (pl_price ask)) 2)
      | _ \<Rightarrow> None)"

definition spread :: "'q order_book \<Rightarrow> f64 option" where
  "spread b =
     (case (ob_best_bid b, ob_best_ask b) of
        (Some bid, Some ask) \<Rightarrow> Some (f64_sub (pl_price ask) (pl_price bid))
      | _ \<Rightarrow> None)"

definition spread_bps :: "'q order_book \<Rightarrow> f64 option" where
  "spread_bps b =
     (case (spread b, mid_price b) of
        (Some s, Some mid) \<Rightarrow>
          if f64_gt mid 0 then Some (f64_mul (f64_div s mid) (FFin 10000)) else None
      | _ \<Rightarrow> None)"

definition top_bids :: "usize \<Rightarrow> 'q order_book \<Rightarrow> 'q price_level list" where
  "top_bids n b = take n (rev (btm_values (ob_bids b)))"

definition top_asks :: "usize \<Rightarrow> 'q order_book \<Rightarrow> 'q price_level list" where
  "top_asks n b = take n (btm_values (ob_asks b))"

definition get_level :: "book_side \<Rightarrow> f64 \<Rightarrow> 'q order_book \<Rightarrow> 'q price_level option" where
  "get_level side price b =
     btm_get (case side of Bid \<Rightarrow> ob_bids b | Ask \<Rightarrow> ob_asks b) (OrderedFloat price)"

definition book_is_empty :: "'q order_book \<Rightarrow> bool" where
  "book_is_empty b \<longleftrightarrow> ob_bids b = [] \<and> ob_asks b = []"

text \<open>\<open>imbalance\<close>; \<open>to_f64\<close> stands for printing a decimal and parsing it as a double.\<close>

definition imbalance :: "('q \<Rightarrow> f64) \<Rightarrow> 'q::linordered_ab_group_add order_book \<Rightarrow> f64 option" where
  "imbalance to_f64 b =
     (let tot = ob_total_bid_qty b + ob_total_ask_qty b in
      if tot = 0 then None
      else Some (f64_div (to_f64 (ob_total_bid_qty b - ob_total_ask_qty b)) (to_f64 tot)))"

definition set_last_sequence :: "u64 \<Rightarrow> 'q order_book \<Rightarrow> 'q order_book" where
  "set_last_sequence s b = b\<lparr>ob_last_sequence := Some s\<rparr>"

definition to_snapshot :: "usize \<Rightarrow> 'q order_book \<Rightarrow> 'q book_snapshot" where
  "to_snapshot depth b =
     \<lparr>bsn_instrument = ob_instrument b, bsn_timestamp = bs_last_update_timestamp (ob_stats b),
      bsn_bids = top_bids depth b, bsn_asks = top_asks depth b\<rparr>"

definition all_bids :: "'q order_book \<Rightarrow> 'q price_level list" where
  "all_bids b = rev (btm_values (ob_bids b))"

definition all_asks :: "'q order_book \<Rightarrow> 'q price_level list" where
  "all_asks b = btm_values (ob_asks b)"

section \<open>One side of the book\<close>

text \<open>
  A side is consistent: its keys are the ordered prices of its levels, its total is the sum of the
  quantities, none of which is negative (or zero, when the book prunes).
\<close>

definition side_ok :: "bool \<Rightarrow> 'q::linordered_ab_group_add level_map \<times> 'q \<Rightarrow> bool" where
  "side_ok prune s \<longleftrightarrow> btm_wf (fst s) \<and> snd s = btm_sum pl_quantity (fst s) \<and>
     (\<forall>e \<in> set (fst s). fst e = OrderedFloat (pl_price (snd e)) \<and> 0 \<le> pl_quantity (snd e) \<and>
        (prune \<longrightarrow> 0 < pl_quantity (snd e)))"

lemma side_ok_empty [simp]: "side_ok prune ([], 0)"
  by (simp add: side_ok_def)

lemma side_okD:
  "side_ok prune (m, q) \<Longrightarrow> btm_wf m"
  "side_ok prune (m, q) \<Longrightarrow> q = btm_sum pl_quantity m"
  by (simp_all add: side_ok_def)

lemma side_ok_subset:
  assumes "side_ok prune (m, q)" "set m' \<subseteq> set m" "btm_wf m'"
  shows "side_ok prune (m', btm_sum pl_quantity m')"
  using assms by (auto simp: side_ok_def)

lemma side_ok_remove:
  assumes "side_ok prune (m, q)"
  shows "side_ok prune (snd (btm_remove k m), case btm_get m k of None \<Rightarrow> q | Some l \<Rightarrow> q - pl_quantity l)"
proof -
  have "side_ok prune (snd (btm_remove k m), btm_sum pl_quantity (snd (btm_remove k m)))"
    by (rule side_ok_subset [OF assms]) (use assms in \<open>auto simp: btm_remove_def side_ok_def
        intro: btm_remove_wf [unfolded btm_remove_def snd_conv]\<close>)
  moreover have "btm_sum pl_quantity (snd (btm_remove k m)) =
      (case btm_get m k of None \<Rightarrow> q | Some l \<Rightarrow> q - pl_quantity l)"
    using side_okD [OF assms] by (simp add: btm_sum_remove split: option.splits)
  ultimately show ?thesis by simp
qed

lemma side_ok_insert:
  assumes "side_ok prune (m, q)" "0 \<le> pl_quantity l" "prune \<longrightarrow> 0 < pl_quantity l"
  shows "side_ok prune (btm_insert (OrderedFloat (pl_price l)) l m,
    (case btm_get m (OrderedFloat (pl_price l)) of None \<Rightarrow> q | Some u \<Rightarrow> q - pl_quantity u) + pl_quantity l)"
proof -
  have "e = (OrderedFloat (pl_price l), l) \<or> e \<in> set m"
    if "e \<in> set (btm_insert (OrderedFloat (pl_price l)) l m)" for e
    using set_btm_insert [of "OrderedFloat (pl_price l)" l m] that by auto
  then show ?thesis using assms
    by (fastforce simp: side_ok_def btm_sum_insert btm_insert_wf split: option.splits)
qed

definition delta_effect ::
    "bool \<Rightarrow> 'q::linordered_ab_group_add price_level \<Rightarrow> (ordered_float \<Rightarrow> 'q price_level option) \<Rightarrow>
     ordered_float \<Rightarrow> 'q price_level option" where
  "delta_effect prune l v =
     (if prune \<and> pl_quantity l \<le> 0 then v(OrderedFloat (pl_price l) := None)
      else v(OrderedFloat (pl_price l) \<mapsto> l))"

lemma delta_level_ok:
  assumes ok: "side_ok prune s" and q: "0 \<le> pl_quantity l"
  shows "side_ok prune (delta_level prune l s)"
    and "btm_get (fst (delta_level prune l s)) = delta_effect prune l (btm_get (fst s))"
proof -
  obtain m t where s: "s = (m, t)" by fastforce
  note ok = ok [unfolded s]
  show "side_ok prune (delta_level prune l s)"
    using side_ok_insert [OF ok q] side_ok_remove [OF ok, of "OrderedFloat (pl_price l)"] q
    by (cases "pl_quantity l = 0") (auto simp: s delta_level_def Let_def)
  show "btm_get (fst (delta_level prune l s)) = delta_effect prune l (btm_get (fst s))"
    using side_okD(1) [OF ok]
    by (cases "0 < pl_quantity l")
      (auto simp: s delta_level_def Let_def delta_effect_def btm_get_insert btm_get_remove)
qed

lemma delta_levels_ok:
  assumes "side_ok prune s" "\<forall>l \<in> set ls. 0 \<le> pl_quantity l"
  shows "side_ok prune (delta_levels prune ls s)"
    and "btm_get (fst (delta_levels prune ls s)) = fold (delta_effect prune) ls (btm_get (fst s))"
  using assms
  by (induction ls arbitrary: s) (simp_all add: delta_levels_def delta_level_ok)

text \<open>The limit cuts off the worst levels: it leaves a suffix of the bids, a prefix of the asks.\<close>

definition best_part :: "book_side \<Rightarrow> nat \<Rightarrow> 'a list \<Rightarrow> 'a list" where
  "best_part side n m = (case side of Bid \<Rightarrow> drop (length m - n) m | Ask \<Rightarrow> take n m)"

lemma best_part_simps [simp]:
  "length m \<le> n \<Longrightarrow> best_part side n m = m"
  "length (best_part side n m) = min n (length m)"
  "set (best_part side n m) \<subseteq> set m"
  by (auto simp: best_part_def split: book_side.splits dest: in_set_takeD in_set_dropD)

lemma best_part_wf: "btm_wf m \<Longrightarrow> btm_wf (best_part side n m)"
  by (simp add: best_part_def btm_wf_take btm_wf_drop split: book_side.splits)

lemma trim_side_eq:
  "q = btm_sum pl_quantity m \<Longrightarrow>
   trim_side side n (m, q) = (best_part side n m, btm_sum pl_quantity (best_part side n m))"
proof (induction "length m" arbitrary: m q)
  case 0
  then show ?case by (simp add: trim_side.simps)
next
  case (Suc j)
  show ?case
  proof (cases "length m > n")
    case False
    then show ?thesis using Suc.prems by (simp add: trim_side.simps [of _ _ m])
  next
    case long: True
    show ?thesis
    proof (cases side)
      case Bid
      obtain e m' where m: "m = e # m'" using Suc(2) by (cases m) auto
      have part: "best_part Bid n m = best_part Bid n m'"
        using long by (simp add: m best_part_def Suc_diff_le)
      have "trim_side side n (m, q) = trim_side side n (m', btm_sum pl_quantity m')"
        using long Suc.prems unfolding m Bid
        by (subst trim_side.simps) (cases e, simp add: btm_pop_first_def)
      with Suc(1) [of m'] Suc(2) part show ?thesis by (simp add: Bid m)
    next
      case Ask
      obtain m' e where m: "m = m' @ [e]" using Suc(2) by (cases m rule: rev_cases) auto
      have part: "best_part Ask n m = best_part Ask n m'"
        using long by (simp add: m best_part_def)
      have "trim_side side n (m, q) = trim_side side n (m', btm_sum pl_quantity m')"
        using long Suc.prems unfolding m Ask
        by (subst trim_side.simps) (cases e, simp add: btm_pop_last_def)
      with Suc(1) [of m'] Suc(2) part show ?thesis by (simp add: Ask m)
    qed
  qed
qed

text \<open>The abstract meaning of the limit: a price stays when fewer than \<open>n\<close> prices are better.\<close>

fun better :: "book_side \<Rightarrow> ordered_float \<Rightarrow> ordered_float \<Rightarrow> bool" where
  "better Bid p r \<longleftrightarrow> r < p"
| "better Ask p r \<longleftrightarrow> p < r"

definition keep_best ::
    "book_side \<Rightarrow> nat \<Rightarrow> (ordered_float \<Rightarrow> 'v option) \<Rightarrow> ordered_float \<Rightarrow> 'v option" where
  "keep_best side n v = v |` {p. card {r \<in> dom v. better side r p} < n}"

lemma btm_get_best_part:
  assumes "btm_wf m"
  shows "btm_get (best_part side n m) = keep_best side n (btm_get m)"
proof -
  have "e \<in> set (best_part side n m) \<longleftrightarrow> card {r \<in> fst ` set m. better side r (fst e)} < n"
    if e: "e \<in> set m" for e
  proof (cases side)
    case Ask
    then show ?thesis using btm_take_iff [OF assms e] by (simp add: best_part_def)
  next
    case Bid
    show ?thesis
    proof (cases "n \<le> length m")
      case True
      then show ?thesis using btm_drop_iff [OF assms e] by (simp add: best_part_def Bid)
    next
      case False
      have "card {r \<in> fst ` set m. fst e < r} \<le> card (fst ` set m)" by (rule card_mono) auto
      also have "\<dots> \<le> length m" by (metis card_length list.set_map length_map)
      finally show ?thesis using False e by (simp add: Bid)
    qed
  qed
  then show ?thesis unfolding keep_best_def btm_dom
    by (intro btm_get_restrict [OF assms best_part_simps(3) best_part_wf [OF assms]]) simp
qed

section \<open>Snapshots\<close>

definition level_entry :: "'q price_level \<Rightarrow> ordered_float \<times> 'q price_level" where
  "level_entry l = (OrderedFloat (pl_price l), l)"

definition distinct_prices :: "'q price_level list \<Rightarrow> bool" where
  "distinct_prices ls \<longleftrightarrow> distinct (map (\<lambda>l. OrderedFloat (pl_price l)) ls)"

lemma snapshot_levels_ok:
  assumes "side_ok prune s" "\<forall>l \<in> set ls. 0 \<le> pl_quantity l" "distinct_prices ls"
    and "\<forall>l \<in> set ls. OrderedFloat (pl_price l) \<notin> fst ` set (fst s)"
  shows "side_ok prune (snapshot_levels prune ls s)"
    and "set (fst (snapshot_levels prune ls s)) =
      set (fst s) \<union> level_entry ` {l \<in> set ls. prune \<longrightarrow> 0 < pl_quantity l}"
proof -
  have "side_ok prune (snapshot_levels prune ls s) \<and> set (fst (snapshot_levels prune ls s)) =
      set (fst s) \<union> level_entry ` {l \<in> set ls. prune \<longrightarrow> 0 < pl_quantity l}"
    using assms
  proof (induction ls arbitrary: s)
    case Nil
    then show ?case by (cases s) simp
  next
    case (Cons l ls)
    obtain m q where s: "s = (m, q)" by fastforce
    let ?k = "OrderedFloat (pl_price l)" and ?live = "\<lambda>l. prune \<longrightarrow> 0 < pl_quantity l"
    have tl: "\<forall>l \<in> set ls. 0 \<le> pl_quantity l" "distinct_prices ls"
      using Cons.prems by (simp_all add: distinct_prices_def)
    have "?k \<notin> (\<lambda>l. OrderedFloat (pl_price l)) ` set ls"
      using Cons.prems(3) unfolding distinct_prices_def by simp
    then have k: "\<forall>l \<in> set ls. OrderedFloat (pl_price l) \<noteq> ?k" by (metis image_eqI)
    have old: "\<forall>l \<in> set ls. OrderedFloat (pl_price l) \<notin> fst ` set m" "?k \<notin> fst ` set m"
      using Cons.prems(4) unfolding s fst_conv by simp_all
    show ?case
    proof (cases "?live l")
      case True
      let ?m = "btm_insert ?k l m"
      have ok: "side_ok prune (?m, q + pl_quantity l)"
        using side_ok_insert [of prune m q l] Cons.prems(1,2) True old(2)
        unfolding btm_get_None [symmetric] by (simp add: s)
      have fresh: "\<forall>l \<in> set ls. OrderedFloat (pl_price l) \<notin> fst ` set ?m"
        using k old unfolding btm_insert_keys by blast
      have "snapshot_levels prune (l # ls) s = snapshot_levels prune ls (?m, q + pl_quantity l)"
        using True by (auto simp: s)
      moreover have "set ?m = insert (level_entry l) (set m)"
        using old(2) by (simp add: btm_insert_fresh level_entry_def)
      moreover have "level_entry ` {x \<in> set (l # ls). ?live x} =
          insert (level_entry l) (level_entry ` {x \<in> set ls. ?live x})" using True by auto
      ultimately show ?thesis using Cons.IH [OF ok tl] fresh by (simp add: s)
    next
      case False
      have "{x \<in> set (l # ls). ?live x} = {x \<in> set ls. ?live x}" using False by auto
      then show ?thesis using Cons.IH [of s, OF _ tl] Cons.prems(1) old False
        by (simp add: s)
    qed
  qed
  then show "side_ok prune (snapshot_levels prune ls s)"
    and "set (fst (snapshot_levels prune ls s)) =
      set (fst s) \<union> level_entry ` {l \<in> set ls. prune \<longrightarrow> 0 < pl_quantity l}" by auto
qed

lemma length_snapshot_levels: "length (fst (snapshot_levels prune ls s)) \<le> length (fst s) + length ls"
proof (induction prune ls s rule: snapshot_levels.induct)
  case (2 prune l ls m q)
  then show ?case using length_btm_insert_le [of "OrderedFloat (pl_price l)" l m]
    by (auto split: if_splits)
qed simp

lemma snapshot_side_ok:
  assumes "\<forall>l \<in> set ls. 0 \<le> pl_quantity l" "distinct_prices ls"
  shows "side_ok prune (snapshot_levels prune (take n ls) ([], 0))"
    and "length (fst (snapshot_levels prune (take n ls) ([], 0))) \<le> n"
proof -
  have "distinct_prices (take n ls)" "\<forall>l \<in> set (take n ls). 0 \<le> pl_quantity l"
    using assms by (auto simp: distinct_prices_def take_map [symmetric] dest: in_set_takeD)
  then show "side_ok prune (snapshot_levels prune (take n ls) ([], 0))"
    by (intro snapshot_levels_ok) auto
  show "length (fst (snapshot_levels prune (take n ls) ([], 0))) \<le> n"
    using length_snapshot_levels [of prune "take n ls" "([], 0)"] by simp
qed

section \<open>The invariant of the book\<close>

definition book_inv :: "'q::linordered_ab_group_add order_book \<Rightarrow> bool" where
  "book_inv b \<longleftrightarrow>
     side_ok (bc_auto_prune (ob_config b)) (ob_bids b, ob_total_bid_qty b) \<and>
     side_ok (bc_auto_prune (ob_config b)) (ob_asks b, ob_total_ask_qty b) \<and>
     length (ob_bids b) \<le> bc_max_levels (ob_config b) \<and>
     length (ob_asks b) \<le> bc_max_levels (ob_config b) \<and>
     ob_best_bid b = btm_last (ob_bids b) \<and> ob_best_ask b = btm_first (ob_asks b) \<and>
     bs_bid_levels (ob_stats b) = length (ob_bids b) \<and>
     bs_ask_levels (ob_stats b) = length (ob_asks b)"

definition quantities_ok :: "'q::linordered_ab_group_add price_level list \<Rightarrow> bool" where
  "quantities_ok ls \<longleftrightarrow> (\<forall>l \<in> set ls. 0 \<le> pl_quantity l)"

lemma book_inv_new: "book_inv (book_new i c)"
  by (simp add: book_inv_def book_new_def btm_last_def btm_first_def book_stats_default_def)

lemma book_inv_clear: "book_inv (book_clear b)"
  by (simp add: book_inv_def book_clear_def btm_last_def btm_first_def)

lemma book_inv_set_last_sequence: "book_inv b \<Longrightarrow> book_inv (set_last_sequence s b)"
  by (simp add: book_inv_def set_last_sequence_def)

lemmas book_cache_defs = update_best_bid_cache_def update_best_ask_cache_def record_level_counts_def

text \<open>Both sides at once: the state of a side, and its replacement together with its cache.\<close>

fun side_state :: "book_side \<Rightarrow> 'q order_book \<Rightarrow> 'q level_map \<times> 'q" where
  "side_state Bid b = (ob_bids b, ob_total_bid_qty b)"
| "side_state Ask b = (ob_asks b, ob_total_ask_qty b)"

fun set_side :: "book_side \<Rightarrow> 'q level_map \<times> 'q \<Rightarrow> 'q order_book \<Rightarrow> 'q order_book" where
  "set_side Bid (m, q) b = update_best_bid_cache (b\<lparr>ob_bids := m, ob_total_bid_qty := q\<rparr>)"
| "set_side Ask (m, q) b = update_best_ask_cache (b\<lparr>ob_asks := m, ob_total_ask_qty := q\<rparr>)"

lemma side_state_set_side [simp]:
  "side_state side (set_side side s b) = s"
  "side_state (book_side_opposite side) (set_side side s b) = side_state (book_side_opposite side) b"
  by (cases side; cases s; simp add: book_cache_defs)+

lemma side_state_record [simp]:
  "side_state side (record_level_counts (b\<lparr>ob_stats := st\<rparr>)) = side_state side b"
  by (cases side) (simp_all add: record_level_counts_def)

lemma apply_delta_Ok:
  assumes "apply_delta side levels ts b = (Ok b' :: (_, 'e) result)"
  obtains n where "u64_incr (bs_update_count (ob_stats b)) = (Ok n :: (_, 'e) result)"
    and "b' = record_level_counts
          (set_side side (trim_side side (bc_max_levels (ob_config b))
             (delta_levels (bc_auto_prune (ob_config b)) levels (side_state side b))) b
           \<lparr>ob_stats := (ob_stats b)\<lparr>bs_update_count := n, bs_last_update_timestamp := ts\<rparr>\<rparr>)"
proof -
  obtain m t where d: "trim_side side (bc_max_levels (ob_config b))
      (delta_levels (bc_auto_prune (ob_config b)) levels (side_state side b)) = (m, t)" by fastforce
  show thesis
    using assms d that
    by (cases side) (auto simp: apply_delta_def Let_def book_cache_defs map_ok_Ok_iff)
qed

lemma apply_delta_total:
  "bs_update_count (ob_stats b) \<noteq> - 1 \<Longrightarrow> \<exists>b'. apply_delta side levels ts b = (Ok b' :: (_, 'e) result)"
  by (cases side) (simp_all add: apply_delta_def u64_incr_def Let_def book_cache_defs split: prod.splits)

lemma apply_snapshot_Ok:
  assumes "apply_snapshot bids asks ts b = (Ok b' :: (_, 'e) result)"
  obtains n where "u64_incr (bs_snapshot_count (ob_stats b)) = (Ok n :: (_, 'e) result)"
    and "b' = record_level_counts
          (set_side Ask (snapshot_levels (bc_auto_prune (ob_config b)) (take (bc_max_levels (ob_config b)) asks) ([], 0))
            (set_side Bid (snapshot_levels (bc_auto_prune (ob_config b)) (take (bc_max_levels (ob_config b)) bids) ([], 0)) b)
           \<lparr>ob_stats := (ob_stats b)\<lparr>bs_snapshot_count := n, bs_last_update_timestamp := ts\<rparr>\<rparr>)"
  using assms that
  by (auto simp: apply_snapshot_def Let_def book_cache_defs map_ok_Ok_iff split: prod.splits)

lemma remove_level_eq:
  "remove_level side price b =
    (let k = OrderedFloat price; (m, q) = side_state side b in
     (btm_get m k, record_level_counts (set_side side
        (snd (btm_remove k m), case btm_get m k of None \<Rightarrow> q | Some l \<Rightarrow> q - pl_quantity l) b)))"
  by (cases side) (simp_all add: remove_level_def Let_def btm_remove_def btm_get_def)

lemma book_inv_sides:
  "book_inv b \<longleftrightarrow> (\<forall>side. side_ok (bc_auto_prune (ob_config b)) (side_state side b) \<and>
       length (fst (side_state side b)) \<le> bc_max_levels (ob_config b)) \<and>
     ob_best_bid b = btm_last (ob_bids b) \<and> ob_best_ask b = btm_first (ob_asks b) \<and>
     bs_bid_levels (ob_stats b) = length (ob_bids b) \<and>
     bs_ask_levels (ob_stats b) = length (ob_asks b)"
  unfolding book_inv_def by (auto simp: all_book_side)

text \<open>Replacing a consistent side within the limit keeps the invariant.\<close>

lemma book_inv_set_side:
  assumes "book_inv b" "side_ok (bc_auto_prune (ob_config b)) s" "length (fst s) \<le> bc_max_levels (ob_config b)"
  shows "book_inv (record_level_counts (set_side side s b\<lparr>ob_stats := st\<rparr>))"
    and "book_inv (record_level_counts (set_side side s b))"
  using assms by (cases side; cases s; simp add: book_inv_def book_cache_defs)+

lemma apply_snapshot_inv:
  assumes ok: "apply_snapshot bids asks ts b = Ok b'"
    and q: "quantities_ok bids" "quantities_ok asks" "distinct_prices bids" "distinct_prices asks"
  shows "book_inv b'"
proof -
  let ?p = "bc_auto_prune (ob_config b)" and ?n = "bc_max_levels (ob_config b)"
  let ?B = "snapshot_levels ?p (take ?n bids) ([], 0)" and ?A = "snapshot_levels ?p (take ?n asks) ([], 0)"
  have "side_ok ?p ?B" "length (fst ?B) \<le> ?n" "side_ok ?p ?A" "length (fst ?A) \<le> ?n"
    using q by (auto simp: quantities_ok_def intro: snapshot_side_ok)
  moreover obtain n where "b' = record_level_counts (set_side Ask ?A (set_side Bid ?B b)
      \<lparr>ob_stats := (ob_stats b)\<lparr>bs_snapshot_count := n, bs_last_update_timestamp := ts\<rparr>\<rparr>)"
    using ok by (rule apply_snapshot_Ok)
  ultimately show ?thesis
    by (cases ?A; cases ?B) (simp add: book_inv_def book_cache_defs)
qed

lemma delta_side_ok:
  fixes side :: book_side
  assumes inv: "book_inv b" and q: "quantities_ok levels"
  defines "s \<equiv> delta_levels (bc_auto_prune (ob_config b)) levels (side_state side b)"
  defines "t \<equiv> trim_side side (bc_max_levels (ob_config b)) s"
  shows "side_ok (bc_auto_prune (ob_config b)) t" "length (fst t) \<le> bc_max_levels (ob_config b)"
    and "btm_get (fst t) = keep_best side (bc_max_levels (ob_config b))
      (fold (delta_effect (bc_auto_prune (ob_config b))) levels (btm_get (fst (side_state side b))))"
proof -
  let ?p = "bc_auto_prune (ob_config b)" and ?n = "bc_max_levels (ob_config b)"
  have "side_ok ?p (side_state side b)" using inv by (simp add: book_inv_sides)
  note d = delta_levels_ok [OF this q [unfolded quantities_ok_def]]
  obtain m u where s: "s = (m, u)" by fastforce
  have mu: "side_ok ?p (m, u)" using d(1) s by (simp add: s_def)
  have t: "t = (best_part side ?n m, btm_sum pl_quantity (best_part side ?n m))"
    unfolding t_def s using side_okD(2) [OF mu] by (rule trim_side_eq)
  show "side_ok ?p t" unfolding t
    using side_okD(1) [OF mu] by (intro side_ok_subset [OF mu] best_part_wf) simp
  show "length (fst t) \<le> ?n" by (simp add: t)
  show "btm_get (fst t) = keep_best side ?n (fold (delta_effect ?p) levels (btm_get (fst (side_state side b))))"
    using d(2) s side_okD(1) [OF mu] by (simp add: t btm_get_best_part s_def)
qed

lemma apply_delta_inv:
  assumes ok: "apply_delta side levels ts b = Ok b'" and inv: "book_inv b" and q: "quantities_ok levels"
  shows "book_inv b'"
  by (rule apply_delta_Ok [OF ok])
    (use book_inv_set_side(1) [OF inv delta_side_ok(1,2) [OF inv q]] in simp)

lemma remove_level_inv: "book_inv b \<Longrightarrow> book_inv (snd (remove_level side price b))"
proof -
  assume inv: "book_inv b"
  obtain m q where s: "side_state side b = (m, q)" by fastforce
  have "side_ok (bc_auto_prune (ob_config b)) (m, q)" "length m \<le> bc_max_levels (ob_config b)"
    using inv s unfolding book_inv_sides by (metis fst_conv)+
  moreover have "length (snd (btm_remove (OrderedFloat price) m)) \<le> length m" by (simp add: btm_remove_def)
  ultimately show ?thesis unfolding remove_level_eq Let_def s prod.case snd_conv
    by (intro book_inv_set_side(2) [OF inv side_ok_remove]) auto
qed

section \<open>Reachable books\<close>

text \<open>
  Books as the feed drives them: snapshots list each price once, quantities are not negative.
\<close>

inductive book_reachable :: "'q::linordered_ab_group_add order_book \<Rightarrow> bool" where
  reach_new: "book_reachable (book_new instrument config)"
| reach_snapshot:
    "book_reachable b \<Longrightarrow> quantities_ok bids \<Longrightarrow> quantities_ok asks \<Longrightarrow> distinct_prices bids \<Longrightarrow>
     distinct_prices asks \<Longrightarrow> apply_snapshot bids asks ts b = (Ok b' :: (_, unit) result) \<Longrightarrow> book_reachable b'"
| reach_delta:
    "book_reachable b \<Longrightarrow> quantities_ok levels \<Longrightarrow>
     apply_delta side levels ts b = (Ok b' :: (_, unit) result) \<Longrightarrow> book_reachable b'"
| reach_level:
    "book_reachable b \<Longrightarrow> 0 \<le> pl_quantity l \<Longrightarrow>
     update_level side l b = (Ok b' :: (_, unit) result) \<Longrightarrow> book_reachable b'"
| reach_remove: "book_reachable b \<Longrightarrow> book_reachable (snd (remove_level side price b))"
| reach_clear: "book_reachable b \<Longrightarrow> book_reachable (book_clear b)"
| reach_sequence: "book_reachable b \<Longrightarrow> book_reachable (set_last_sequence n b)"

lemma book_reachable_inv: "book_reachable b \<Longrightarrow> book_inv b"
proof (induction rule: book_reachable.induct)
  case (reach_level b l side b')
  then show ?case by (auto simp: update_level_def quantities_ok_def intro: apply_delta_inv)
qed (simp_all add: book_inv_new book_inv_clear book_inv_set_last_sequence remove_level_inv
    apply_snapshot_inv apply_delta_inv)

lemma btm_last_hd: "btm_last m = (case rev (btm_values m) of [] \<Rightarrow> None | l # _ \<Rightarrow> Some l)"
  by (cases m rule: rev_cases) (simp_all add: btm_last_def btm_values_def)

lemma btm_first_hd: "btm_first m = (case btm_values m of [] \<Rightarrow> None | l # _ \<Rightarrow> Some l)"
  by (cases m) (simp_all add: btm_first_def btm_values_def)

lemma side_ok_facts:
  assumes "side_ok prune (m, q)"
  shows "q = sum_list (map pl_quantity (btm_values m))"
    and "sorted_wrt (\<lambda>l l'. OrderedFloat (pl_price l) < OrderedFloat (pl_price l')) (btm_values m)"
    and "l \<in> set (btm_values m) \<Longrightarrow> btm_get m (OrderedFloat (pl_price l)) = Some l \<and>
      0 \<le> pl_quantity l \<and> (prune \<longrightarrow> 0 < pl_quantity l)"
proof -
  show "q = sum_list (map pl_quantity (btm_values m))"
    using side_okD(2) [OF assms] by (simp add: btm_sum_def btm_values_def comp_def)
  have keys: "map fst m = map (\<lambda>l. OrderedFloat (pl_price l)) (btm_values m)"
    using assms by (simp add: btm_values_def side_ok_def)
  show "sorted_wrt (\<lambda>l l'. OrderedFloat (pl_price l) < OrderedFloat (pl_price l')) (btm_values m)"
    using side_okD(1) [OF assms] unfolding btm_wf_def keys sorted_wrt_map .
  show "btm_get m (OrderedFloat (pl_price l)) = Some l \<and> 0 \<le> pl_quantity l \<and> (prune \<longrightarrow> 0 < pl_quantity l)"
    if "l \<in> set (btm_values m)"
    using that assms by (fastforce simp: btm_values_def side_ok_def btm_get_Some)
qed


text \<open>What a side shows, as a finite map from prices to levels.\<close>

definition book_view :: "book_side \<Rightarrow> 'q order_book \<Rightarrow> ordered_float \<Rightarrow> 'q price_level option" where
  "book_view side b = btm_get (fst (side_state side b))"

lemma get_level_view: "get_level side price b = book_view side b (OrderedFloat price)"
  by (cases side) (simp_all add: get_level_def book_view_def)

text \<open>
  C4: A delta refines its specification on finite maps: every level overwrites its price, or deletes
  it when it is empty and the book prunes; then the best \<open>max_levels\<close> prices are kept. The other
  side does not change; the call fails only on overflow of the update counter.
\<close>

theorem apply_delta_refines:
  assumes "book_reachable b" "quantities_ok levels" "bs_update_count (ob_stats b) \<noteq> - 1"
  shows "\<exists>b'. apply_delta side levels ts b = (Ok b' :: (_, 'e) result) \<and>
    book_view side b' = keep_best side (bc_max_levels (ob_config b))
      (fold (delta_effect (bc_auto_prune (ob_config b))) levels (book_view side b)) \<and>
    book_view (book_side_opposite side) b' = book_view (book_side_opposite side) b \<and>
    bs_update_count (ob_stats b') = bs_update_count (ob_stats b) + 1 \<and>
    bs_last_update_timestamp (ob_stats b') = ts"
proof -
  obtain b' where b': "apply_delta side levels ts b = (Ok b' :: (_, 'e) result)"
    using apply_delta_total [OF assms(3)] by blast
  obtain n where n: "u64_incr (bs_update_count (ob_stats b)) = (Ok n :: (_, 'e) result)" and
    eq: "b' = record_level_counts
          (set_side side (trim_side side (bc_max_levels (ob_config b))
             (delta_levels (bc_auto_prune (ob_config b)) levels (side_state side b))) b
           \<lparr>ob_stats := (ob_stats b)\<lparr>bs_update_count := n, bs_last_update_timestamp := ts\<rparr>\<rparr>)"
    using b' by (rule apply_delta_Ok)
  have "n = bs_update_count (ob_stats b) + 1" using n by (simp add: u64_incr_def split: if_splits)
  moreover have "bs_update_count (ob_stats b') = n" "bs_last_update_timestamp (ob_stats b') = ts"
    by (simp_all add: eq record_level_counts_def)
  ultimately show ?thesis
    using b' delta_side_ok(3) [OF book_reachable_inv [OF assms(1)] assms(2), of side]
    by (intro exI [of _ b']) (simp add: book_view_def eq)
qed

lemma snapshot_levels_best_part:
  assumes ok: "side_ok prune (m, q)" and len: "length m \<le> n"
    and ls: "set ls = snd ` set (best_part side d m)" "distinct_prices ls" "length ls \<le> length m"
  shows "snapshot_levels prune (take n ls) ([], 0) =
    (best_part side d m, btm_sum pl_quantity (best_part side d m))"
proof -
  let ?p = "best_part side d m"
  have key: "fst e = OrderedFloat (pl_price (snd e))" "0 \<le> pl_quantity (snd e)"
      "prune \<longrightarrow> 0 < pl_quantity (snd e)" if "e \<in> set ?p" for e
    using subsetD [OF best_part_simps(3) that] ok by (simp_all add: side_ok_def)
  have q: "\<forall>l \<in> set ls. 0 \<le> pl_quantity l" using ls(1) key by auto
  have all: "take n ls = ls" using ls(3) len by simp
  let ?s = "snapshot_levels prune ls ([], 0)"
  have "{l \<in> set ls. prune \<longrightarrow> 0 < pl_quantity l} = set ls" using ls(1) key by auto
  then have "set (fst ?s) = level_entry ` snd ` set ?p"
    using snapshot_levels_ok(2) [of prune "([], 0)" ls] q ls(1,2) by simp
  also have "\<dots> = set ?p" using key(1) by (force simp: level_entry_def image_image)
  finally have set: "set (fst ?s) = set ?p" .
  have ok': "side_ok prune ?s" using snapshot_levels_ok(1) [of prune "([], 0)" ls] q ls(2) by simp
  have "fst ?s = ?p"
    using side_okD(1) [of prune "fst ?s" "snd ?s"] ok' best_part_wf [OF side_okD(1) [OF ok]] set
    by (intro btm_eqI) simp_all
  then show ?thesis using ok' unfolding all by (simp add: side_ok_def prod_eq_iff)
qed

lemma snapshot_side:
  assumes ok: "side_ok prune (m, q)" and len: "length m \<le> n"
  shows "snapshot_levels prune (take n (btm_values (best_part side d m))) ([], 0) =
      (best_part side d m, btm_sum pl_quantity (best_part side d m))"
    and "snapshot_levels prune (take n (rev (btm_values (best_part side d m)))) ([], 0) =
      (best_part side d m, btm_sum pl_quantity (best_part side d m))"
proof -
  let ?p = "best_part side d m"
  have "side_ok prune (?p, btm_sum pl_quantity ?p)"
    using side_okD(1) [OF ok] by (intro side_ok_subset [OF ok] best_part_wf) simp
  then have "map (\<lambda>l. OrderedFloat (pl_price l)) (btm_values ?p) = map fst ?p"
    by (simp add: btm_values_def side_ok_def)
  then have "distinct_prices (btm_values ?p)"
    unfolding distinct_prices_def using btm_wf_distinct [OF best_part_wf [OF side_okD(1) [OF ok]]] by simp
  then show "snapshot_levels prune (take n (btm_values ?p)) ([], 0) = (?p, btm_sum pl_quantity ?p)"
    and "snapshot_levels prune (take n (rev (btm_values ?p))) ([], 0) = (?p, btm_sum pl_quantity ?p)"
    by (intro snapshot_levels_best_part [OF ok len];
        simp add: btm_values_def distinct_prices_def rev_map [symmetric])+
qed

lemma top_levels_best_part:
  "top_bids d b = rev (btm_values (best_part Bid d (ob_bids b)))"
  "top_asks d b = btm_values (best_part Ask d (ob_asks b))"
  by (simp_all add: top_bids_def top_asks_def btm_values_def best_part_def take_map drop_map take_rev)

text \<open>
  A snapshot rebuilds the book: reading the snapshot of depth \<open>d\<close> into a new book of the same
  configuration gives the best \<open>d\<close> levels of each side, and with \<open>d\<close> above the limit the same
  levels, cached bests and totals.
\<close>

theorem snapshot_rebuilds_book:
  fixes b :: "'q::linordered_ab_group_add order_book"
  assumes "book_reachable b"
  shows "\<exists>b'. book_from_snapshot (ob_instrument b) (ob_config b) (bsn_bids (to_snapshot d b))
      (bsn_asks (to_snapshot d b)) (bsn_timestamp (to_snapshot d b)) = (Ok b' :: (_, 'e) result) \<and>
    all_bids b' = take d (all_bids b) \<and> all_asks b' = take d (all_asks b) \<and>
    to_snapshot d b' = to_snapshot d b \<and>
    (bc_max_levels (ob_config b) \<le> d \<longrightarrow>
       side_state Bid b' = side_state Bid b \<and> side_state Ask b' = side_state Ask b \<and>
       ob_best_bid b' = ob_best_bid b \<and> ob_best_ask b' = ob_best_ask b)"
proof -
  let ?c = "ob_config b"
  let ?new = "book_new (ob_instrument b) ?c :: 'q order_book"
  let ?B = "best_part Bid d (ob_bids b)" and ?A = "best_part Ask d (ob_asks b)"
  note inv = book_reachable_inv [OF assms, unfolded book_inv_def]
  have ok: "side_ok (bc_auto_prune ?c) (ob_bids b, ob_total_bid_qty b)"
      "side_ok (bc_auto_prune ?c) (ob_asks b, ob_total_ask_qty b)"
    and len: "length (ob_bids b) \<le> bc_max_levels ?c" "length (ob_asks b) \<le> bc_max_levels ?c"
    using inv by simp_all
  let ?b' = "record_level_counts (set_side Ask (?A, btm_sum pl_quantity ?A)
      (set_side Bid (?B, btm_sum pl_quantity ?B) ?new)
      \<lparr>ob_stats := (ob_stats ?new)\<lparr>bs_snapshot_count := 1,
         bs_last_update_timestamp := bs_last_update_timestamp (ob_stats b)\<rparr>\<rparr>)"
  have "book_from_snapshot (ob_instrument b) ?c (bsn_bids (to_snapshot d b))
      (bsn_asks (to_snapshot d b)) (bsn_timestamp (to_snapshot d b)) = (Ok ?b' :: (_, 'e) result)"
    using snapshot_side(2) [OF ok(1) len(1), of Bid d] snapshot_side(1) [OF ok(2) len(2), of Ask d]
    by (simp add: book_from_snapshot_def apply_snapshot_def to_snapshot_def top_levels_best_part
        book_new_def book_stats_default_def book_cache_defs u64_incr_def)
  moreover have "all_bids ?b' = take d (all_bids b)" "all_asks ?b' = take d (all_asks b)"
    using top_levels_best_part [of d b]
    by (simp_all add: all_bids_def all_asks_def book_cache_defs top_bids_def top_asks_def)
  moreover have "to_snapshot d ?b' = to_snapshot d b"
    using calculation(2,3)
    by (simp add: to_snapshot_def top_bids_def top_asks_def all_bids_def all_asks_def book_cache_defs book_new_def)
  moreover have "side_state Bid ?b' = side_state Bid b \<and> side_state Ask ?b' = side_state Ask b \<and>
      ob_best_bid ?b' = ob_best_bid b \<and> ob_best_ask ?b' = ob_best_ask b" if "bc_max_levels ?c \<le> d"
    using inv that ok [THEN side_okD(2)] by (simp add: book_cache_defs)
  ultimately show ?thesis by blast
qed

section \<open>Concrete books\<close>

definition btc :: flash_instrument where
  "btc = flash_instrument_new ''BTC'' ''USD'' FxDeribit ''BTC-PERPETUAL''"

definition small_config :: book_config where
  "small_config = book_config_default\<lparr>bc_max_levels := 2\<rparr>"

definition whole_level :: "int \<Rightarrow> int \<Rightarrow> int price_level" where
  "whole_level p q = price_level_new (FFin (of_int p)) q 7"

definition small_bids :: "int price_level list" where
  "small_bids = [whole_level 101 5, whole_level 100 3]"

definition small_asks :: "int price_level list" where
  "small_asks = [whole_level 102 4]"

definition small_book :: "int order_book" where
  "small_book = \<lparr>ob_instrument = btc, ob_config = small_config,
     ob_bids = map level_entry (rev small_bids), ob_asks = map level_entry small_asks,
     ob_best_bid = Some (whole_level 101 5), ob_best_ask = Some (whole_level 102 4),
     ob_stats = \<lparr>bs_update_count = 0, bs_snapshot_count = 1, bs_last_update_timestamp = 7,
       bs_bid_levels = 2, bs_ask_levels = 1\<rparr>,
     ob_last_sequence = None, ob_total_bid_qty = 8, ob_total_ask_qty = 4\<rparr>"

lemmas small_defs = small_book_def small_bids_def small_asks_def small_config_def whole_level_def
  price_level_new_def book_config_default_def level_entry_def

lemma small_book_built:
  "apply_snapshot small_bids small_asks 7 (book_new btc small_config) = Ok small_book"
  by (simp add: apply_snapshot_def small_defs book_new_def book_cache_defs Let_def u64_incr_def
      btm_last_def btm_first_def book_stats_default_def numeral_2_eq_2)

lemma small_book_reachable: "book_reachable small_book"
  by (rule reach_snapshot [OF reach_new _ _ _ _ small_book_built])
    (simp_all add: quantities_ok_def distinct_prices_def small_defs)


theorem apply_delta_refines_witness:
  "\<exists>b'. apply_delta Bid [whole_level 103 1, whole_level 101 0] 8 small_book = (Ok b' :: (_, unit) result) \<and>
     book_view Bid b' = keep_best Bid 2 (fold (delta_effect True)
       [whole_level 103 1, whole_level 101 0] (book_view Bid small_book))"
  using apply_delta_refines [OF small_book_reachable, of "[whole_level 103 1, whole_level 101 0]" Bid 8]
  by (fastforce simp: quantities_ok_def small_defs)

theorem snapshot_rebuilds_book_witness:
  "\<exists>b'. book_from_snapshot btc small_config (bsn_bids (to_snapshot 1 small_book))
      (bsn_asks (to_snapshot 1 small_book)) 7 = (Ok b' :: (_, unit) result) \<and>
    all_bids b' = [whole_level 101 5]"
proof -
  have "ob_instrument small_book = btc" "ob_config small_book = small_config"
    "bsn_timestamp (to_snapshot 1 small_book) = 7" "take 1 (all_bids small_book) = [whole_level 101 5]"
    by (simp_all add: to_snapshot_def small_book_def all_bids_def btm_values_def small_bids_def level_entry_def)
  then show ?thesis using snapshot_rebuilds_book [OF small_book_reachable, of 1] by auto
qed

text \<open>
  A snapshot that lists a price twice keeps the last level but counts both quantities: the running
  total is then not the sum of the book.
\<close>

theorem snapshot_counts_duplicates:
  "\<exists>b'. apply_snapshot [whole_level 100 5, whole_level 100 3] [] 7 (book_new btc small_config) =
       (Ok b' :: (_, unit) result) \<and>
     all_bids b' = [whole_level 100 3] \<and> ob_total_bid_qty b' = 8"
  by (simp add: apply_snapshot_def small_defs book_new_def book_cache_defs Let_def u64_incr_def
      book_stats_default_def all_bids_def btm_values_def)

end
