(* ===== verification/Book_Delta.thy ===== *)
theory Book_Delta
  imports Order_Book
begin

text \<open>
  \<open>flash/src/book/delta.rs\<close>: the sequence tracker, the validator and the processor that guard the
  order book against gaps and bad levels. Methods that return an error after changing their state
  give the state beside the inner result; the outer result is for panics. The clock reading
  \<open>now\<close> and the elapsed times are arguments.
\<close>

section \<open>Deltas\<close>

record sequence_gap =
  sg_expected :: u64
  sg_received :: u64

text \<open>\<open>saturating_sub\<close>.\<close>

definition gap_size :: "sequence_gap \<Rightarrow> u64" where
  "gap_size g = (if sg_expected g \<le> sg_received g then sg_received g - sg_expected g else 0)"

datatype delta_error =
    DeSequenceGap u64 u64
  | DeInvalidPrice f64 string
  | DeInvalidQuantity string
  | DeInvalidTimestamp i64 string
  | DeTooManyLevels usize usize
  | DeProcessorNotReady string

record 'q delta_update =
  du_sequence :: "u64 option"
  du_side :: book_side
  du_levels :: "'q price_level list"
  du_timestamp :: i64

definition delta_new :: "book_side \<Rightarrow> 'q price_level list \<Rightarrow> i64 \<Rightarrow> 'q delta_update" where
  "delta_new side levels ts =
     \<lparr>du_sequence = None, du_side = side, du_levels = levels, du_timestamp = ts\<rparr>"

definition delta_with_sequence ::
    "u64 \<Rightarrow> book_side \<Rightarrow> 'q price_level list \<Rightarrow> i64 \<Rightarrow> 'q delta_update" where
  "delta_with_sequence seq side levels ts =
     \<lparr>du_sequence = Some seq, du_side = side, du_levels = levels, du_timestamp = ts\<rparr>"

definition delta_level_count :: "'q delta_update \<Rightarrow> usize" where
  "delta_level_count d = length (du_levels d)"

definition delta_is_bid :: "'q delta_update \<Rightarrow> bool" where
  "delta_is_bid d \<longleftrightarrow> du_side d = Bid"

definition delta_is_ask :: "'q delta_update \<Rightarrow> bool" where
  "delta_is_ask d \<longleftrightarrow> du_side d = Ask"

record 'q delta_batch =
  db_sequence :: "u64 option"
  db_updates :: "'q delta_update list"
  db_timestamp :: i64

definition batch_new :: "'q delta_update list \<Rightarrow> i64 \<Rightarrow> 'q delta_batch" where
  "batch_new updates ts = \<lparr>db_sequence = None, db_updates = updates, db_timestamp = ts\<rparr>"

definition batch_with_sequence :: "u64 \<Rightarrow> 'q delta_update list \<Rightarrow> i64 \<Rightarrow> 'q delta_batch" where
  "batch_with_sequence seq updates ts =
     \<lparr>db_sequence = Some seq, db_updates = updates, db_timestamp = ts\<rparr>"

definition batch_total_levels :: "'q delta_batch \<Rightarrow> usize" where
  "batch_total_levels b = sum_list (map delta_level_count (db_updates b))"

definition batch_update_count :: "'q delta_batch \<Rightarrow> usize" where
  "batch_update_count b = length (db_updates b)"

definition batch_is_empty :: "'q delta_batch \<Rightarrow> bool" where
  "batch_is_empty b \<longleftrightarrow> db_updates b = []"

section \<open>The sequence tracker\<close>

datatype sequence_state = SqUninitialized | SqNormal | SqGapDetected | SqRecovering

datatype sequence_check = ScOk | ScGap sequence_gap | ScOutOfOrder

record sequence_config =
  sq_reorder_window :: usize
  sq_max_gaps :: usize
  sq_recovery_timeout_us :: u64

definition sequence_config_default :: sequence_config where
  "sequence_config_default =
     \<lparr>sq_reorder_window = 10, sq_max_gaps = 5, sq_recovery_timeout_us = 30000000\<rparr>"

record sequence_tracker =
  st_config :: sequence_config
  st_last_sequence :: "u64 option"
  st_expected_next :: "u64 option"
  st_gaps :: "sequence_gap list"
  st_state :: sequence_state
  st_last_update :: i64

definition tracker_new :: "sequence_config \<Rightarrow> sequence_tracker" where
  "tracker_new c =
     \<lparr>st_config = c, st_last_sequence = None, st_expected_next = None, st_gaps = [],
      st_state = SqUninitialized, st_last_update = 0\<rparr>"

text \<open>The loop that drops the oldest gaps.\<close>

fun drop_oldest :: "nat \<Rightarrow> 'a list \<Rightarrow> 'a list" where
  "drop_oldest n [] = []"
| "drop_oldest n (g # gs) = (if length (g # gs) > n then drop_oldest n gs else g # gs)"

definition tracker_at :: "u64 \<Rightarrow> u64 \<Rightarrow> sequence_tracker \<Rightarrow> sequence_tracker" where
  "tracker_at seq next t = t\<lparr>st_last_sequence := Some seq, st_expected_next := Some next\<rparr>"

definition tracker_record ::
    "i64 \<Rightarrow> u64 \<Rightarrow> sequence_tracker \<Rightarrow> (sequence_check \<times> sequence_tracker, 'e) result" where
  "tracker_record now seq t =
     (let t0 = t\<lparr>st_last_update := now\<rparr> in
      if st_state t = SqUninitialized
      then map_ok (\<lambda>next. (ScOk, (tracker_at seq next t0)\<lparr>st_state := SqNormal\<rparr>)) (u64_incr seq)
      else
        let expected = (case st_expected_next t of Some e \<Rightarrow> e | None \<Rightarrow> seq) in
        if seq = expected
        then map_ok (\<lambda>next. (ScOk, tracker_at seq next t0)) (u64_incr seq)
        else if seq > expected
        then
          let gap = \<lparr>sg_expected = expected, sg_received = seq\<rparr> in
          map_ok (\<lambda>next. (ScGap gap,
              (tracker_at seq next t0)
                \<lparr>st_state := SqGapDetected,
                 st_gaps := drop_oldest (sq_max_gaps (st_config t)) (st_gaps t @ [gap])\<rparr>))
            (u64_incr seq)
        else Ok (ScOutOfOrder, t0))"

definition tracker_reset :: "sequence_tracker \<Rightarrow> sequence_tracker" where
  "tracker_reset t =
     t\<lparr>st_last_sequence := None, st_expected_next := None, st_gaps := [],
       st_state := SqUninitialized, st_last_update := 0\<rparr>"

definition tracker_reset_with_sequence :: "i64 \<Rightarrow> u64 \<Rightarrow> sequence_tracker \<Rightarrow> (sequence_tracker, 'e) result" where
  "tracker_reset_with_sequence now seq t =
     map_ok (\<lambda>next. (tracker_at seq next t)\<lparr>st_gaps := [], st_state := SqNormal, st_last_update := now\<rparr>)
       (u64_incr seq)"

definition tracker_needs_recovery :: "sequence_tracker \<Rightarrow> bool" where
  "tracker_needs_recovery t \<longleftrightarrow> st_state t = SqGapDetected"

definition tracker_start_recovery :: "sequence_tracker \<Rightarrow> sequence_tracker" where
  "tracker_start_recovery t =
     (if st_state t = SqGapDetected then t\<lparr>st_state := SqRecovering\<rparr> else t)"

definition tracker_complete_recovery :: "i64 \<Rightarrow> u64 \<Rightarrow> sequence_tracker \<Rightarrow> (sequence_tracker, 'e) result" where
  "tracker_complete_recovery now seq t =
     map_ok (\<lambda>next. (tracker_at seq next t)\<lparr>st_gaps := [], st_state := SqNormal, st_last_update := now\<rparr>)
       (u64_incr seq)"

section \<open>The validator\<close>

record delta_validation_config =
  vc_validate_prices :: bool
  vc_validate_quantities :: bool
  vc_validate_timestamps :: bool
  vc_max_price :: f64
  vc_min_price :: f64
  vc_max_levels_per_update :: usize

definition delta_validation_config_default :: delta_validation_config where
  "delta_validation_config_default =
     \<lparr>vc_validate_prices = True, vc_validate_quantities = True, vc_validate_timestamps = False,
      vc_max_price = FFin 1000000000000, vc_min_price = FFin 0, vc_max_levels_per_update = 1000\<rparr>"

text \<open>\<open>show_f64\<close> is the standard library's \<open>Display\<close> of a double, used in error texts only.\<close>

definition validate_price ::
    "(f64 \<Rightarrow> string) \<Rightarrow> delta_validation_config \<Rightarrow> f64 \<Rightarrow> (unit, delta_error) result" where
  "validate_price show_f64 c price =
     (if price = FNaN \<or> price = FInf True \<or> price = FInf False
      then Err (DeInvalidPrice price ''Price is NaN or Infinite'')
      else if f64_less price (vc_min_price c)
      then Err (DeInvalidPrice price (''Price below minimum '' @ show_f64 (vc_min_price c)))
      else if f64_less (vc_max_price c) price
      then Err (DeInvalidPrice price (''Price above maximum '' @ show_f64 (vc_max_price c)))
      else Ok ())"

definition validate_quantity :: "'q::linordered_ab_group_add \<Rightarrow> (unit, delta_error) result" where
  "validate_quantity quantity =
     (if quantity < 0 then Err (DeInvalidQuantity ''Negative quantity'') else Ok ())"

fun validate_levels ::
    "(f64 \<Rightarrow> string) \<Rightarrow> delta_validation_config \<Rightarrow> 'q::linordered_ab_group_add price_level list \<Rightarrow>
     (unit, delta_error) result" where
  "validate_levels show_f64 c [] = Ok ()"
| "validate_levels show_f64 c (l # ls) =
     rbind (if vc_validate_prices c then validate_price show_f64 c (pl_price l) else Ok ()) (\<lambda>_.
     rbind (if vc_validate_quantities c then validate_quantity (pl_quantity l) else Ok ()) (\<lambda>_.
     validate_levels show_f64 c ls))"

definition validate_delta ::
    "(f64 \<Rightarrow> string) \<Rightarrow> delta_validation_config \<Rightarrow> 'q::linordered_ab_group_add delta_update \<Rightarrow>
     (unit, delta_error) result" where
  "validate_delta show_f64 c d =
     (if length (du_levels d) > vc_max_levels_per_update c
      then Err (DeTooManyLevels (length (du_levels d)) (vc_max_levels_per_update c))
      else if vc_validate_prices c \<or> vc_validate_quantities c
      then validate_levels show_f64 c (du_levels d)
      else Ok ())"

fun validate_batch ::
    "(f64 \<Rightarrow> string) \<Rightarrow> delta_validation_config \<Rightarrow> 'q::linordered_ab_group_add delta_update list \<Rightarrow>
     (unit, delta_error) result" where
  "validate_batch show_f64 c [] = Ok ()"
| "validate_batch show_f64 c (u # us) =
     rbind (validate_delta show_f64 c u) (\<lambda>_. validate_batch show_f64 c us)"

section \<open>The processor\<close>

record delta_apply_result =
  da_levels_added :: usize
  da_levels_modified :: usize
  da_levels_removed :: usize
  da_best_bid_changed :: bool
  da_best_ask_changed :: bool
  da_processing_time_ns :: u64

record batch_apply_result =
  ba_updates_applied :: usize
  ba_total_levels :: usize
  ba_best_bid_changed :: bool
  ba_best_ask_changed :: bool
  ba_processing_time_ns :: u64

datatype snapshot_request_reason =
  RrSequenceGap | RrBookCorruption | RrInitialSubscription | RrManualRequest

record snapshot_request =
  rq_reason :: snapshot_request_reason
  rq_gap :: "sequence_gap option"
  rq_requested_at :: i64

definition request_for_sequence_gap :: "i64 \<Rightarrow> sequence_gap \<Rightarrow> snapshot_request" where
  "request_for_sequence_gap now gap =
     \<lparr>rq_reason = RrSequenceGap, rq_gap = Some gap, rq_requested_at = now\<rparr>"

definition request_for_initial_subscription :: "i64 \<Rightarrow> snapshot_request" where
  "request_for_initial_subscription now =
     \<lparr>rq_reason = RrInitialSubscription, rq_gap = None, rq_requested_at = now\<rparr>"

definition request_manual :: "i64 \<Rightarrow> snapshot_request" where
  "request_manual now = \<lparr>rq_reason = RrManualRequest, rq_gap = None, rq_requested_at = now\<rparr>"

record delta_stats =
  ds_processed :: u64
  ds_applied :: u64
  ds_rejected :: u64
  ds_gaps_detected :: u64
  ds_snapshots_requested :: u64
  ds_last_processing_time_us :: u64

definition delta_stats_default :: delta_stats where
  "delta_stats_default =
     \<lparr>ds_processed = 0, ds_applied = 0, ds_rejected = 0, ds_gaps_detected = 0,
      ds_snapshots_requested = 0, ds_last_processing_time_us = 0\<rparr>"

record delta_processor_config =
  pc_validate_before_apply :: bool
  pc_track_sequences :: bool
  pc_auto_request_snapshot :: bool
  pc_max_pending_gaps :: usize
  pc_validation :: delta_validation_config
  pc_sequence :: sequence_config

definition delta_processor_config_default :: delta_processor_config where
  "delta_processor_config_default =
     \<lparr>pc_validate_before_apply = True, pc_track_sequences = True, pc_auto_request_snapshot = True,
      pc_max_pending_gaps = 5, pc_validation = delta_validation_config_default,
      pc_sequence = sequence_config_default\<rparr>"

record delta_processor =
  dp_config :: delta_processor_config
  dp_tracker :: sequence_tracker
  dp_validator :: delta_validation_config
  dp_stats :: delta_stats

definition processor_new :: "delta_processor_config \<Rightarrow> delta_processor" where
  "processor_new c =
     \<lparr>dp_config = c, dp_tracker = tracker_new (pc_sequence c), dp_validator = pc_validation c,
      dp_stats = delta_stats_default\<rparr>"

text \<open>Counting, with the overflow check of \<open>+= 1\<close>.\<close>

definition count_processed :: "delta_processor \<Rightarrow> (delta_processor, 'e) result" where
  "count_processed p =
     map_ok (\<lambda>n. p\<lparr>dp_stats := (dp_stats p)\<lparr>ds_processed := n\<rparr>\<rparr>) (u64_incr (ds_processed (dp_stats p)))"

definition count_applied :: "delta_processor \<Rightarrow> (delta_processor, 'e) result" where
  "count_applied p =
     map_ok (\<lambda>n. p\<lparr>dp_stats := (dp_stats p)\<lparr>ds_applied := n\<rparr>\<rparr>) (u64_incr (ds_applied (dp_stats p)))"

definition count_rejected :: "delta_processor \<Rightarrow> (delta_processor, 'e) result" where
  "count_rejected p =
     map_ok (\<lambda>n. p\<lparr>dp_stats := (dp_stats p)\<lparr>ds_rejected := n\<rparr>\<rparr>) (u64_incr (ds_rejected (dp_stats p)))"

definition count_gap :: "delta_processor \<Rightarrow> (delta_processor, 'e) result" where
  "count_gap p =
     map_ok (\<lambda>n. p\<lparr>dp_stats := (dp_stats p)\<lparr>ds_gaps_detected := n\<rparr>\<rparr>) (u64_incr (ds_gaps_detected (dp_stats p)))"

definition set_processing_time :: "u64 \<Rightarrow> delta_processor \<Rightarrow> delta_processor" where
  "set_processing_time us p = p\<lparr>dp_stats := (dp_stats p)\<lparr>ds_last_processing_time_us := us\<rparr>\<rparr>"

text \<open>The sequence check shared by both entry points: \<open>Some gap\<close> when one was found.\<close>

definition check_sequence ::
    "i64 \<Rightarrow> u64 option \<Rightarrow> delta_processor \<Rightarrow> (sequence_gap option \<times> delta_processor, 'e) result" where
  "check_sequence now sequence p =
     (case sequence of
        Some seq \<Rightarrow>
          if pc_track_sequences (dp_config p)
          then map_ok (\<lambda>(r, t). (case r of ScGap gap \<Rightarrow> Some gap | _ \<Rightarrow> None, p\<lparr>dp_tracker := t\<rparr>))
                 (tracker_record now seq (dp_tracker p))
          else Ok (None, p)
      | None \<Rightarrow> Ok (None, p))"

definition process_delta ::
    "(f64 \<Rightarrow> string) \<Rightarrow> i64 \<Rightarrow> u64 \<Rightarrow> u64 \<Rightarrow> 'q::linordered_ab_group_add delta_update \<Rightarrow>
     delta_processor \<Rightarrow> 'q order_book \<Rightarrow>
     ((delta_apply_result, delta_error) result \<times> delta_processor \<times> 'q order_book, 'e) result" where
  "process_delta show_f64 now us ns d p book =
     rbind (count_processed p) (\<lambda>p1.
     rbind (check_sequence now (du_sequence d) p1) (\<lambda>(gap, p2).
     case gap of
       Some g \<Rightarrow>
         rbind (count_gap p2) (\<lambda>p3.
         rbind (count_rejected p3) (\<lambda>p4.
         Ok (Err (DeSequenceGap (sg_expected g) (sg_received g)), p4, book)))
     | None \<Rightarrow>
         (case (if pc_validate_before_apply (dp_config p2)
                then validate_delta show_f64 (dp_validator p2) d else Ok ()) of
            Err e \<Rightarrow> map_ok (\<lambda>p3. (Err e, p3, book)) (count_rejected p2)
          | Panic \<Rightarrow> Panic
          | Ok _ \<Rightarrow>
              rbind (apply_delta (du_side d) (du_levels d) (du_timestamp d) book) (\<lambda>book'.
              rbind (count_applied p2) (\<lambda>p3.
              Ok (Ok \<lparr>da_levels_added = 0, da_levels_modified = 0, da_levels_removed = 0,
                    da_best_bid_changed = (\<not> option_level_eq (ob_best_bid book) (ob_best_bid book')),
                    da_best_ask_changed = (\<not> option_level_eq (ob_best_ask book) (ob_best_ask book')),
                    da_processing_time_ns = ns\<rparr>,
                  set_processing_time us p3, book'))))))"

fun apply_batch_updates ::
    "'q::linordered_ab_group_add delta_update list \<Rightarrow> delta_processor \<Rightarrow> 'q order_book \<Rightarrow>
     (delta_processor \<times> 'q order_book, 'e) result" where
  "apply_batch_updates [] p book = Ok (p, book)"
| "apply_batch_updates (u # us) p book =
     rbind (apply_delta (du_side u) (du_levels u) (du_timestamp u) book) (\<lambda>book'.
     rbind (count_processed p) (\<lambda>p1.
     rbind (count_applied p1) (\<lambda>p2. apply_batch_updates us p2 book')))"

definition process_batch ::
    "(f64 \<Rightarrow> string) \<Rightarrow> i64 \<Rightarrow> u64 \<Rightarrow> u64 \<Rightarrow> 'q::linordered_ab_group_add delta_batch \<Rightarrow>
     delta_processor \<Rightarrow> 'q order_book \<Rightarrow>
     ((batch_apply_result, delta_error) result \<times> delta_processor \<times> 'q order_book, 'e) result" where
  "process_batch show_f64 now us ns b p book =
     rbind (check_sequence now (db_sequence b) p) (\<lambda>(gap, p1).
     case gap of
       Some g \<Rightarrow> map_ok (\<lambda>p2. (Err (DeSequenceGap (sg_expected g) (sg_received g)), p2, book)) (count_gap p1)
     | None \<Rightarrow>
         (case (if pc_validate_before_apply (dp_config p1)
                then validate_batch show_f64 (dp_validator p1) (db_updates b) else Ok ()) of
            Err e \<Rightarrow> Ok (Err e, p1, book)
          | Panic \<Rightarrow> Panic
          | Ok _ \<Rightarrow>
              rbind (apply_batch_updates (db_updates b) p1 book) (\<lambda>(p2, book').
              Ok (Ok \<lparr>ba_updates_applied = batch_total_levels b, ba_total_levels = batch_total_levels b,
                    ba_best_bid_changed = (\<not> option_level_eq (ob_best_bid book) (ob_best_bid book')),
                    ba_best_ask_changed = (\<not> option_level_eq (ob_best_ask book) (ob_best_ask book')),
                    ba_processing_time_ns = ns\<rparr>,
                  set_processing_time us p2, book'))))"

definition processor_reset :: "delta_processor \<Rightarrow> delta_processor" where
  "processor_reset p = p\<lparr>dp_tracker := tracker_reset (dp_tracker p)\<rparr>"

definition processor_reset_with_sequence :: "i64 \<Rightarrow> u64 \<Rightarrow> delta_processor \<Rightarrow> (delta_processor, 'e) result" where
  "processor_reset_with_sequence now seq p =
     map_ok (\<lambda>t. p\<lparr>dp_tracker := t\<rparr>) (tracker_reset_with_sequence now seq (dp_tracker p))"

definition needs_snapshot :: "delta_processor \<Rightarrow> bool" where
  "needs_snapshot p = tracker_needs_recovery (dp_tracker p)"

definition create_snapshot_request :: "i64 \<Rightarrow> delta_processor \<Rightarrow> snapshot_request option" where
  "create_snapshot_request now p =
     (if \<not> needs_snapshot p then None
      else Some \<lparr>rq_reason = RrSequenceGap,
                 rq_gap = (case st_gaps (dp_tracker p) of [] \<Rightarrow> None | gs \<Rightarrow> Some (last gs)),
                 rq_requested_at = now\<rparr>)"

section \<open>The tracker finds every gap\<close>

lemma drop_oldest_eq: "drop_oldest n gs = drop (length gs - n) gs"
  by (induction gs) (auto simp: Suc_diff_le)

text \<open>A sequence of numbers recorded one after the other, each with its clock reading.\<close>

fun tracker_run ::
    "(i64 \<times> u64) list \<Rightarrow> sequence_tracker \<Rightarrow> (sequence_check list \<times> sequence_tracker, 'e) result" where
  "tracker_run [] t = Ok ([], t)"
| "tracker_run ((now, seq) # xs) t =
     rbind (tracker_record now seq t) (\<lambda>(r, t').
     map_ok (\<lambda>(rs, t''). (r # rs, t'')) (tracker_run xs t'))"

text \<open>The verdict on a number, given the highest number seen so far.\<close>

definition verdict :: "u64 \<Rightarrow> u64 \<Rightarrow> sequence_check" where
  "verdict highest seq =
     (if seq = highest + 1 then ScOk
      else if seq > highest + 1 then ScGap \<lparr>sg_expected = highest + 1, sg_received = seq\<rparr>
      else ScOutOfOrder)"

fun verdicts :: "u64 \<Rightarrow> u64 list \<Rightarrow> sequence_check list" where
  "verdicts highest [] = []"
| "verdicts highest (seq # seqs) = verdict highest seq # verdicts (max highest seq) seqs"

fun gaps_of :: "sequence_check list \<Rightarrow> sequence_gap list" where
  "gaps_of [] = []"
| "gaps_of (ScGap g # rs) = g # gaps_of rs"
| "gaps_of (_ # rs) = gaps_of rs"

text \<open>A running tracker: the next number expected follows the highest one recorded.\<close>

definition tracker_inv :: "u64 \<Rightarrow> sequence_tracker \<Rightarrow> bool" where
  "tracker_inv h t \<longleftrightarrow> st_state t \<noteq> SqUninitialized \<and> st_last_sequence t = Some h \<and>
     st_expected_next t = Some (h + 1) \<and> h \<noteq> - 1 \<and> length (st_gaps t) \<le> sq_max_gaps (st_config t)"

lemma drop_oldest_append:
  "drop_oldest n (drop_oldest n xs @ ys) = drop_oldest n (xs @ ys)"
  by (cases "length xs \<le> n") (simp_all add: drop_oldest_eq add.commute)

lemma drop_oldest_short [simp]: "length xs \<le> n \<Longrightarrow> drop_oldest n xs = xs"
  by (simp add: drop_oldest_eq)

lemma length_drop_oldest: "length (drop_oldest n xs) \<le> n"
  by (simp add: drop_oldest_eq)

lemma unat_succ: "h \<noteq> - 1 \<Longrightarrow> unat (h + 1 :: u64) = Suc (unat h)"
  by (metis add.commute eq_neg_iff_add_eq_0 unatSuc)

lemma word_less_plus_one: "h \<noteq> - 1 \<Longrightarrow> seq < h + 1 \<longleftrightarrow> seq \<le> (h :: u64)"
  by (simp add: word_less_nat_alt word_le_nat_alt unat_succ less_Suc_eq_le)

text \<open>The state after a number, by its verdict.\<close>

fun after_verdict :: "i64 \<Rightarrow> u64 \<Rightarrow> sequence_check \<Rightarrow> sequence_tracker \<Rightarrow> sequence_tracker" where
  "after_verdict now seq ScOk t = tracker_at seq (seq + 1) (t\<lparr>st_last_update := now\<rparr>)"
| "after_verdict now seq (ScGap g) t =
     (tracker_at seq (seq + 1) (t\<lparr>st_last_update := now\<rparr>))
       \<lparr>st_state := SqGapDetected, st_gaps := drop_oldest (sq_max_gaps (st_config t)) (st_gaps t @ [g])\<rparr>"
| "after_verdict now seq ScOutOfOrder t = t\<lparr>st_last_update := now\<rparr>"

lemma tracker_record_eq:
  assumes "tracker_inv h t" "seq \<noteq> - 1"
  shows "tracker_record now seq t = (Ok (verdict h seq, after_verdict now seq (verdict h seq) t) :: (_, 'a) result)"
proof -
  have incr: "u64_incr seq = (Ok (seq + 1) :: (_, 'a) result)" using assms(2) by (simp add: u64_incr_def)
  show ?thesis
  proof (cases "seq = h + 1")
    case True
    then have "st_expected_next t = Some seq" "st_state t \<noteq> SqUninitialized" "verdict h seq = ScOk"
      using assms(1) by (simp_all add: tracker_inv_def verdict_def)
    then show ?thesis by (simp add: tracker_record_def incr)
  next
    case False
    then show ?thesis using assms(1) incr
      by (simp add: tracker_record_def verdict_def tracker_inv_def tracker_at_def Let_def)
  qed
qed

lemma verdict_max:
  "h \<noteq> - 1 \<Longrightarrow> max h seq = (case verdict h seq of ScOutOfOrder \<Rightarrow> h | _ \<Rightarrow> seq)"
  using word_less_plus_one [of h seq] word_less_plus_one [of h h]
  by (auto simp: verdict_def max_def)

lemma after_verdict_inv:
  assumes inv: "tracker_inv h t" and seq: "seq \<noteq> - 1" and v: "v = verdict h seq"
  shows "tracker_inv (max h seq) (after_verdict now seq v t)"
    and "st_config (after_verdict now seq v t) = st_config t"
    and "st_gaps (after_verdict now seq v t) = drop_oldest (sq_max_gaps (st_config t)) (st_gaps t @ gaps_of [v])"
    and "st_state (after_verdict now seq v t) = (if gaps_of [v] = [] then st_state t else SqGapDetected)"
proof -
  have "h \<noteq> - 1" using inv by (simp add: tracker_inv_def)
  note max = verdict_max [OF this, of seq, folded v]
  show "tracker_inv (max h seq) (after_verdict now seq v t)"
    using inv seq unfolding max
    by (cases v) (simp_all add: tracker_inv_def tracker_at_def length_drop_oldest)
  show "st_config (after_verdict now seq v t) = st_config t"
    by (cases v) (simp_all add: tracker_at_def)
  show "st_gaps (after_verdict now seq v t) = drop_oldest (sq_max_gaps (st_config t)) (st_gaps t @ gaps_of [v])"
    using inv by (cases v) (simp_all add: tracker_inv_def tracker_at_def)
  show "st_state (after_verdict now seq v t) = (if gaps_of [v] = [] then st_state t else SqGapDetected)"
    by (cases v) (simp_all add: tracker_at_def)
qed

lemma gaps_of_append: "gaps_of (a @ b) = gaps_of a @ gaps_of b"
  by (induction a rule: gaps_of.induct) simp_all

lemma tracker_run_running:
  assumes "tracker_inv h t" "\<forall>x \<in> set xs. snd x \<noteq> - 1"
  shows "\<exists>t'. tracker_run xs t = (Ok (verdicts h (map snd xs), t') :: (_, 'e) result) \<and>
    tracker_inv (fold max (map snd xs) h) t' \<and> st_config t' = st_config t \<and>
    st_gaps t' = drop_oldest (sq_max_gaps (st_config t)) (st_gaps t @ gaps_of (verdicts h (map snd xs))) \<and>
    st_state t' = (if gaps_of (verdicts h (map snd xs)) = [] then st_state t else SqGapDetected)"
  using assms
proof (induction xs arbitrary: h t)
  case Nil
  then show ?case by (simp add: tracker_inv_def)
next
  case (Cons x xs)
  obtain now seq where x: "x = (now, seq)" by fastforce
  let ?v = "verdict h seq" and ?rest = "verdicts (max h seq) (map snd xs)"
  have seq: "seq \<noteq> - 1" and tl: "\<forall>x \<in> set xs. snd x \<noteq> - 1" using Cons.prems(2) x by simp_all
  note t1 = after_verdict_inv [OF Cons.prems(1) seq refl, of now]
  define u where "u = after_verdict now seq ?v t"
  note t1 = t1 [folded u_def]
  obtain t' where t': "tracker_run xs u = (Ok (?rest, t') :: (_, 'e) result)"
      "tracker_inv (fold max (map snd xs) (max h seq)) t'" "st_config t' = st_config u"
      "st_gaps t' = drop_oldest (sq_max_gaps (st_config u)) (st_gaps u @ gaps_of ?rest)"
      "st_state t' = (if gaps_of ?rest = [] then st_state u else SqGapDetected)"
    using Cons.IH [OF t1(1) tl] by (elim exE conjE) (rule that)
  have g: "gaps_of (?v # ?rest) = gaps_of [?v] @ gaps_of ?rest"
    using gaps_of_append [of "[?v]" ?rest] unfolding append_Cons append_Nil .
  have v: "verdicts h (map snd (x # xs)) = ?v # ?rest" "fold max (map snd (x # xs)) h = fold max (map snd xs) (max h seq)"
    by (simp_all add: x max.commute)
  have run: "tracker_run (x # xs) t = (Ok (?v # ?rest, t') :: (_, 'e) result)"
    using t'(1) by (simp add: x tracker_record_eq [OF Cons.prems(1) seq] u_def)
  have gaps: "st_gaps t' = drop_oldest (sq_max_gaps (st_config t)) (st_gaps t @ gaps_of (?v # ?rest))"
    unfolding t'(4) t1(2,3) g drop_oldest_append append_assoc ..
  have state: "st_state t' = (if gaps_of (?v # ?rest) = [] then st_state t else SqGapDetected)"
    unfolding t'(5) t1(4) g by simp
  show ?case unfolding v using run t'(2,3) t1(2) gaps state by (intro exI [of _ t']) simp
qed

text \<open>Every number up to the highest one has been received or lies in a reported gap.\<close>

lemma verdicts_cover:
  assumes "h < n" "n \<le> fold max seqs h" "h \<noteq> - 1" "\<forall>s \<in> set seqs. s \<noteq> - 1"
  shows "n \<in> set seqs \<or> (\<exists>g \<in> set (gaps_of (verdicts h seqs)). sg_expected g \<le> n \<and> n < sg_received g)"
  using assms
proof (induction seqs arbitrary: h)
  case (Cons s seqs)
  show ?case
  proof (cases "max h s < n")
    case True
    then have "n \<in> set seqs \<or> (\<exists>g \<in> set (gaps_of (verdicts (max h s) seqs)). sg_expected g \<le> n \<and> n < sg_received g)"
      using Cons.prems by (intro Cons.IH) (simp_all add: max.commute [of s h], simp add: max_def)
    then show ?thesis using gaps_of_append [of "[verdict h s]" "verdicts (max h s) seqs"] by auto
  next
    case False
    then have "n \<le> s" using Cons.prems(1) by (simp add: max_def split: if_splits)
    show ?thesis
    proof (cases "n = s")
      case False
      then have ns: "n < s" using \<open>n \<le> s\<close> by simp
      have n: "h + 1 \<le> n" using Cons.prems(1) by (rule inc_le)
      with ns have "h + 1 < s" by simp
      then have "verdict h s = ScGap \<lparr>sg_expected = h + 1, sg_received = s\<rparr>"
        by (auto simp: verdict_def)
      then show ?thesis using n ns by auto
    qed simp
  qed
qed simp

text \<open>
  The tracker finds every gap: after any numbers below the maximum, each verdict compares the
  number with the successor of the highest one so far; every number between the first and the
  highest one was recorded or lies in a reported gap; recovery is needed exactly when a gap was
  reported, and the newest \<open>max_gaps\<close> gaps are kept.
\<close>

theorem tracker_finds_every_gap:
  assumes "first \<noteq> - 1" "\<forall>x \<in> set xs. snd x \<noteq> - 1"
  shows "\<exists>t. tracker_run ((now, first) # xs) (tracker_new c) =
      (Ok (ScOk # verdicts first (map snd xs), t) :: (_, 'e) result) \<and>
    st_expected_next t = Some (fold max (map snd xs) first + 1) \<and>
    st_gaps t = drop_oldest (sq_max_gaps c) (gaps_of (verdicts first (map snd xs))) \<and>
    (tracker_needs_recovery t \<longleftrightarrow> gaps_of (verdicts first (map snd xs)) \<noteq> []) \<and>
    (\<forall>n. first \<le> n \<and> n \<le> fold max (map snd xs) first \<longrightarrow> n \<in> set (first # map snd xs) \<or>
       (\<exists>g \<in> set (gaps_of (verdicts first (map snd xs))). sg_expected g \<le> n \<and> n < sg_received g))"
proof -
  define t1 where "t1 = (tracker_at first (first + 1) ((tracker_new c)\<lparr>st_last_update := now\<rparr>))\<lparr>st_state := SqNormal\<rparr>"
  have start: "tracker_record now first (tracker_new c) = (Ok (ScOk, t1) :: (_, 'e) result)"
    using assms(1) by (simp add: tracker_record_def tracker_new_def t1_def u64_incr_def)
  have t1: "tracker_inv first t1" "st_config t1 = c" "st_gaps t1 = []" "st_state t1 = SqNormal"
    using assms(1) by (simp_all add: tracker_inv_def t1_def tracker_at_def tracker_new_def)
  obtain t where t: "tracker_run xs t1 = (Ok (verdicts first (map snd xs), t) :: (_, 'e) result)"
      "tracker_inv (fold max (map snd xs) first) t"
      "st_gaps t = drop_oldest (sq_max_gaps c) (gaps_of (verdicts first (map snd xs)))"
      "st_state t = (if gaps_of (verdicts first (map snd xs)) = [] then SqNormal else SqGapDetected)"
    using tracker_run_running [OF t1(1) assms(2)] unfolding t1 append_Nil by blast
  have cover: "n \<in> set (first # map snd xs) \<or>
      (\<exists>g \<in> set (gaps_of (verdicts first (map snd xs))). sg_expected g \<le> n \<and> n < sg_received g)"
    if "first \<le> n" "n \<le> fold max (map snd xs) first" for n
    using verdicts_cover [of first n "map snd xs"] that assms by (cases "n = first") auto
  show ?thesis
    by (intro exI [of _ t]) (use t start cover in \<open>simp add: tracker_inv_def tracker_needs_recovery_def\<close>)
qed

theorem tracker_finds_every_gap_witness:
  "\<exists>t. tracker_run [(0, 5), (0, 6), (0, 9), (0, 7)] (tracker_new sequence_config_default) =
      (Ok ([ScOk, ScOk, ScGap \<lparr>sg_expected = 7, sg_received = 9\<rparr>, ScOutOfOrder], t) :: (_, unit) result) \<and>
    tracker_needs_recovery t"
  using tracker_finds_every_gap [of 5 "[(0, 6), (0, 9), (0, 7)]" 0 sequence_config_default]
  by (auto simp: verdict_def)

section \<open>The processor and the book\<close>

lemma validate_levels_quantities:
  "validate_levels show_f64 c ls = Ok () \<Longrightarrow> vc_validate_quantities c \<Longrightarrow> quantities_ok ls"
  by (induction ls)
    (auto simp: quantities_ok_def validate_quantity_def not_less rbind_Ok_iff split: if_splits)

lemma validate_delta_quantities:
  "validate_delta show_f64 c d = Ok () \<Longrightarrow> vc_validate_quantities c \<Longrightarrow> quantities_ok (du_levels d)"
  by (auto simp: validate_delta_def intro: validate_levels_quantities split: if_splits)

lemma validate_batch_quantities:
  "validate_batch show_f64 c us = Ok () \<Longrightarrow> vc_validate_quantities c \<Longrightarrow>
   \<forall>u \<in> set us. quantities_ok (du_levels u)"
  by (induction us) (auto simp: rbind_Ok_iff intro: validate_delta_quantities)

text \<open>Counters move by given amounts, never wrapping; configuration and validator stay.\<close>

definition counted :: "delta_processor \<Rightarrow> delta_processor \<Rightarrow> nat \<Rightarrow> nat \<Rightarrow> nat \<Rightarrow> bool" where
  "counted p p' processed applied rejected \<longleftrightarrow>
     unat (ds_processed (dp_stats p')) = unat (ds_processed (dp_stats p)) + processed \<and>
     unat (ds_applied (dp_stats p')) = unat (ds_applied (dp_stats p)) + applied \<and>
     unat (ds_rejected (dp_stats p')) = unat (ds_rejected (dp_stats p)) + rejected \<and>
     dp_config p' = dp_config p \<and> dp_validator p' = dp_validator p"

lemma counted_trans:
  "counted p q a b c \<Longrightarrow> counted q r a' b' c' \<Longrightarrow> counted p r (a + a') (b + b') (c + c')"
  by (simp add: counted_def)

lemma counted_refl: "counted p p 0 0 0"
  by (simp add: counted_def)

lemma u64_incr_Ok: "u64_incr w = Ok n \<Longrightarrow> unat n = unat w + 1"
  by (auto simp: u64_incr_eq unat_u64_incr split: if_splits)

lemma count_Ok:
  "count_processed p = Ok p' \<Longrightarrow> counted p p' 1 0 0"
  "count_applied p = Ok p' \<Longrightarrow> counted p p' 0 1 0"
  "count_rejected p = Ok p' \<Longrightarrow> counted p p' 0 0 1"
  "count_gap p = Ok p' \<Longrightarrow> counted p p' 0 0 0"
  "counted p (set_processing_time us p) 0 0 0"
  by (auto simp: counted_def count_processed_def count_applied_def count_rejected_def count_gap_def
      set_processing_time_def map_ok_Ok_iff dest!: u64_incr_Ok)

lemma check_sequence_Ok: "check_sequence now sq p = Ok (g, p') \<Longrightarrow> counted p p' 0 0 0"
  by (auto simp: check_sequence_def counted_def map_ok_Ok_iff split: option.splits if_splits prod.splits)

lemma apply_delta_any_error:
  "apply_delta side ls ts b = (Ok b' :: (_, 'e) result) \<Longrightarrow> apply_delta side ls ts b = (Ok b' :: (_, 'f) result)"
  by (auto simp: apply_delta_def Let_def map_ok_Ok_iff u64_incr_def split: prod.splits if_splits)

lemma apply_delta_counts:
  assumes "apply_delta side ls ts b = (Ok b' :: (_, 'e) result)"
  shows "unat (bs_update_count (ob_stats b')) = unat (bs_update_count (ob_stats b)) + 1"
proof -
  obtain n where n: "u64_incr (bs_update_count (ob_stats b)) = (Ok n :: (_, 'e) result)" and
    b': "b' = record_level_counts
          (set_side side (trim_side side (bc_max_levels (ob_config b))
             (delta_levels (bc_auto_prune (ob_config b)) ls (side_state side b))) b
           \<lparr>ob_stats := (ob_stats b)\<lparr>bs_update_count := n, bs_last_update_timestamp := ts\<rparr>\<rparr>)"
    using assms by (rule apply_delta_Ok)
  then show ?thesis using u64_incr_Ok [OF n] by (simp add: record_level_counts_def)
qed

lemma apply_batch_updates_Ok:
  assumes "apply_batch_updates us p b = (Ok (p', b') :: (_, 'e) result)"
    and "book_reachable b" "\<forall>u \<in> set us. quantities_ok (du_levels u)"
  shows "counted p p' (length us) (length us) 0 \<and> book_reachable b' \<and>
    unat (bs_update_count (ob_stats b')) = unat (bs_update_count (ob_stats b)) + length us"
  using assms
proof (induction us arbitrary: p b)
  case Nil
  then show ?case by (simp add: counted_refl)
next
  case (Cons u us)
  obtain b1 p1 p2 where s: "apply_delta (du_side u) (du_levels u) (du_timestamp u) b = (Ok b1 :: (_, 'e) result)"
      "count_processed p = (Ok p1 :: (_, 'e) result)" "count_applied p1 = (Ok p2 :: (_, 'e) result)"
      "apply_batch_updates us p2 b1 = (Ok (p', b') :: (_, 'e) result)"
    using Cons.prems(1) by (auto simp: rbind_Ok_iff)
  have "book_reachable b1"
    using Cons.prems(2,3) apply_delta_any_error [OF s(1)] by (auto intro: reach_delta)
  then have ih: "counted p2 p' (length us) (length us) 0" "book_reachable b'"
      "unat (bs_update_count (ob_stats b')) = unat (bs_update_count (ob_stats b1)) + length us"
    using Cons.IH [OF s(4)] Cons.prems(3) by auto
  have "counted p p2 1 1 0" using counted_trans [OF count_Ok(1) [OF s(2)] count_Ok(2) [OF s(3)]] by simp
  then show ?case using counted_trans [OF _ ih(1)] ih(2,3) apply_delta_counts [OF s(1)] by fastforce
qed

lemma process_delta_Ok:
  assumes run: "process_delta show_f64 now us ns d p b = (Ok (r, p', b') :: (_, 'e) result)"
  shows "(\<exists>e. r = Err e \<and> b' = b \<and> counted p p' 1 0 1) \<or>
    (\<exists>a. r = Ok a \<and> apply_delta (du_side d) (du_levels d) (du_timestamp d) b = (Ok b' :: (_, 'e) result) \<and>
       (pc_validate_before_apply (dp_config p) \<longrightarrow> validate_delta show_f64 (dp_validator p) d = Ok ()) \<and>
       counted p p' 1 1 0)"
proof -
  obtain p1 g p2 where s: "count_processed p = (Ok p1 :: (_, 'e) result)"
      "check_sequence now (du_sequence d) p1 = (Ok (g, p2) :: (_, 'e) result)"
    using run unfolding process_delta_def by (auto simp: rbind_Ok_iff)
  have p2: "counted p p2 1 0 0" using counted_trans [OF count_Ok(1) [OF s(1)] check_sequence_Ok [OF s(2)]] by simp
  then have same: "dp_config p2 = dp_config p" "dp_validator p2 = dp_validator p" by (simp_all add: counted_def)
  show ?thesis
  proof (cases g)
    case (Some gap)
    then obtain p3 where p3: "count_gap p2 = (Ok p3 :: (_, 'e) result)"
        "count_rejected p3 = (Ok p' :: (_, 'e) result)" "b' = b" "\<exists>e. r = Err e"
      using run s unfolding process_delta_def by (auto simp: rbind_Ok_iff)
    then show ?thesis
      using counted_trans [OF p2 counted_trans [OF count_Ok(4) [OF p3(1)] count_Ok(3) [OF p3(2)]]] by auto
  next
    case None
    let ?v = "if pc_validate_before_apply (dp_config p2)
      then validate_delta show_f64 (dp_validator p2) d else Ok ()"
    note run = run [unfolded process_delta_def s rbind.simps prod.case None option.case]
    show ?thesis
    proof (cases ?v)
      case (Err e)
      then have p3: "count_rejected p2 = (Ok p' :: (_, 'e) result)" "b' = b" "r = Err e"
        using run by (auto simp: map_ok_Ok_iff)
      show ?thesis using counted_trans [OF p2 count_Ok(3) [OF p3(1)]] p3 by auto
    next
      case Panic
      then show ?thesis using run by simp
    next
      case (Ok v)
      then obtain p3 where p3: "apply_delta (du_side d) (du_levels d) (du_timestamp d) b = (Ok b' :: (_, 'e) result)"
          "count_applied p2 = (Ok p3 :: (_, 'e) result)" "p' = set_processing_time us p3" "\<exists>a. r = Ok a"
        using run by (auto simp: rbind_Ok_iff)
      have "counted p p' 1 1 0"
        using counted_trans [OF p2 counted_trans [OF count_Ok(2) [OF p3(2)] count_Ok(5)]] p3(3) by simp
      moreover have "pc_validate_before_apply (dp_config p) \<longrightarrow> validate_delta show_f64 (dp_validator p) d = Ok ()"
        using Ok same by (auto split: if_splits)
      ultimately show ?thesis using p3 by blast
    qed
  qed
qed

lemma process_batch_Ok:
  assumes run: "process_batch show_f64 now us ns bt p b = (Ok (r, p', b') :: (_, 'e) result)"
  shows "(\<exists>e. r = Err e \<and> b' = b \<and> counted p p' 0 0 0) \<or>
    (\<exists>a p1 p2. r = Ok a \<and> apply_batch_updates (db_updates bt) p1 b = (Ok (p2, b') :: (_, 'e) result) \<and>
       (pc_validate_before_apply (dp_config p) \<longrightarrow>
          validate_batch show_f64 (dp_validator p) (db_updates bt) = Ok ()) \<and>
       counted p p1 0 0 0 \<and> counted p2 p' 0 0 0)"
proof -
  obtain g p1 where s: "check_sequence now (db_sequence bt) p = (Ok (g, p1) :: (_, 'e) result)"
    using run unfolding process_batch_def by (auto simp: rbind_Ok_iff)
  note p1 = check_sequence_Ok [OF s]
  then have same: "dp_config p1 = dp_config p" "dp_validator p1 = dp_validator p" by (simp_all add: counted_def)
  note run = run [unfolded process_batch_def s rbind.simps prod.case]
  show ?thesis
  proof (cases g)
    case (Some gap)
    then have "count_gap p1 = (Ok p' :: (_, 'e) result)" "b' = b" "\<exists>e. r = Err e"
      using run by (auto simp: map_ok_Ok_iff)
    then show ?thesis using counted_trans [OF p1 count_Ok(4)] by auto
  next
    case None
    let ?v = "if pc_validate_before_apply (dp_config p1)
      then validate_batch show_f64 (dp_validator p1) (db_updates bt) else Ok ()"
    note run = run [unfolded None option.case]
    show ?thesis
    proof (cases ?v)
      case (Err e)
      then have "p' = p1" "b' = b" "r = Err e" using run by auto
      then show ?thesis using p1 by auto
    next
      case Panic
      then show ?thesis using run by simp
    next
      case (Ok v)
      then obtain p2 where p2: "apply_batch_updates (db_updates bt) p1 b = (Ok (p2, b') :: (_, 'e) result)"
          "p' = set_processing_time us p2" "\<exists>a. r = Ok a"
        using run by (auto simp: rbind_Ok_iff)
      moreover have "pc_validate_before_apply (dp_config p) \<longrightarrow>
          validate_batch show_f64 (dp_validator p) (db_updates bt) = Ok ()"
        using Ok same by (auto split: if_splits)
      ultimately show ?thesis using p1 count_Ok(5) [of p2 us] by blast
    qed
  qed
qed

text \<open>
  A feed handled by one processor: deltas and batches of any content, resets, and snapshots (each
  price listed once) after which the tracker restarts.
\<close>

inductive feed :: "(f64 \<Rightarrow> string) \<Rightarrow> delta_processor \<Rightarrow> 'q::linordered_ab_group_add order_book \<Rightarrow> bool"
  for show_f64 where
  feed_start:
    "pc_validate_before_apply c \<Longrightarrow> vc_validate_quantities (pc_validation c) \<Longrightarrow>
     feed show_f64 (processor_new c) (book_new instrument bc)"
| feed_delta:
    "feed show_f64 p b \<Longrightarrow>
     process_delta show_f64 now us ns d p b = (Ok (r, p', b') :: (_, unit) result) \<Longrightarrow> feed show_f64 p' b'"
| feed_batch:
    "feed show_f64 p b \<Longrightarrow>
     process_batch show_f64 now us ns bt p b = (Ok (r, p', b') :: (_, unit) result) \<Longrightarrow> feed show_f64 p' b'"
| feed_reset: "feed show_f64 p b \<Longrightarrow> feed show_f64 (processor_reset p) b"
| feed_resync:
    "feed show_f64 p b \<Longrightarrow> quantities_ok bids \<Longrightarrow> quantities_ok asks \<Longrightarrow> distinct_prices bids \<Longrightarrow>
     distinct_prices asks \<Longrightarrow> apply_snapshot bids asks ts b = (Ok b' :: (_, unit) result) \<Longrightarrow>
     processor_reset_with_sequence now seq p = (Ok p' :: (_, unit) result) \<Longrightarrow> feed show_f64 p' b'"

definition feed_inv :: "delta_processor \<Rightarrow> 'q::linordered_ab_group_add order_book \<Rightarrow> bool" where
  "feed_inv p b \<longleftrightarrow> book_reachable b \<and>
     pc_validate_before_apply (dp_config p) \<and> vc_validate_quantities (dp_validator p) \<and>
     unat (ds_processed (dp_stats p)) = unat (ds_applied (dp_stats p)) + unat (ds_rejected (dp_stats p)) \<and>
     unat (ds_applied (dp_stats p)) = unat (bs_update_count (ob_stats b))"

lemma feed_inv_counted:
  "feed_inv p b \<Longrightarrow> counted p p' (n + k) n k \<Longrightarrow> book_reachable b' \<Longrightarrow>
   unat (bs_update_count (ob_stats b')) = unat (bs_update_count (ob_stats b)) + n \<Longrightarrow> feed_inv p' b'"
  by (simp add: feed_inv_def counted_def)

lemma process_delta_inv:
  assumes inv: "feed_inv p b"
    and run: "process_delta show_f64 now us ns d p b = (Ok (r, p', b') :: (_, unit) result)"
  shows "feed_inv p' b'"
  using process_delta_Ok [OF run]
proof (elim disjE exE conjE)
  fix e assume "b' = b" "counted p p' 1 0 1"
  then show ?thesis using feed_inv_counted [OF inv, of p' 0 1 b] inv by (simp add: feed_inv_def)
next
  assume ok: "apply_delta (du_side d) (du_levels d) (du_timestamp d) b = (Ok b' :: (_, unit) result)"
    and valid: "pc_validate_before_apply (dp_config p) \<longrightarrow> validate_delta show_f64 (dp_validator p) d = Ok ()"
    and c: "counted p p' 1 1 0"
  have "quantities_ok (du_levels d)"
    using validate_delta_quantities valid inv by (auto simp: feed_inv_def)
  then have "book_reachable b'" using inv ok by (auto simp: feed_inv_def intro: reach_delta)
  then show ?thesis using feed_inv_counted [OF inv, of p' 1 0 b'] c apply_delta_counts [OF ok] by simp
qed

lemma process_batch_inv:
  assumes inv: "feed_inv p b"
    and run: "process_batch show_f64 now us ns bt p b = (Ok (r, p', b') :: (_, unit) result)"
  shows "feed_inv p' b'"
  using process_batch_Ok [OF run]
proof (elim disjE exE conjE)
  assume "b' = b" "counted p p' 0 0 0"
  then show ?thesis using feed_inv_counted [OF inv, of p' 0 0 b] inv by (simp add: feed_inv_def)
next
  fix p1 p2
  assume ok: "apply_batch_updates (db_updates bt) p1 b = (Ok (p2, b') :: (_, unit) result)"
    and valid: "pc_validate_before_apply (dp_config p) \<longrightarrow>
      validate_batch show_f64 (dp_validator p) (db_updates bt) = Ok ()"
    and c: "counted p p1 0 0 0" "counted p2 p' 0 0 0"
  have "\<forall>u \<in> set (db_updates bt). quantities_ok (du_levels u)"
    using validate_batch_quantities valid inv by (auto simp: feed_inv_def)
  then have u: "counted p1 p2 (length (db_updates bt)) (length (db_updates bt)) 0" "book_reachable b'"
      "unat (bs_update_count (ob_stats b')) = unat (bs_update_count (ob_stats b)) + length (db_updates bt)"
    using apply_batch_updates_Ok [OF ok] inv by (auto simp: feed_inv_def)
  then show ?thesis
    using feed_inv_counted [OF inv, of p' "length (db_updates bt)" 0 b']
      counted_trans [OF c(1) counted_trans [OF u(1) c(2)]] by simp
qed

lemma feed_feed_inv: "feed show_f64 p b \<Longrightarrow> feed_inv p b"
proof (induction rule: feed.induct)
  case (feed_start c instrument bc)
  then show ?case
    by (simp add: feed_inv_def processor_new_def delta_stats_default_def book_new_def
        book_stats_default_def reach_new [unfolded book_new_def book_stats_default_def])
next
  case (feed_reset p b)
  then show ?case by (simp add: feed_inv_def processor_reset_def)
next
  case (feed_resync p b bids asks ts b' now seq p')
  obtain n where "b' = record_level_counts
          (set_side Ask (snapshot_levels (bc_auto_prune (ob_config b)) (take (bc_max_levels (ob_config b)) asks) ([], 0))
            (set_side Bid (snapshot_levels (bc_auto_prune (ob_config b)) (take (bc_max_levels (ob_config b)) bids) ([], 0)) b)
           \<lparr>ob_stats := (ob_stats b)\<lparr>bs_snapshot_count := n, bs_last_update_timestamp := ts\<rparr>\<rparr>)"
    using feed_resync.hyps(6) by (rule apply_snapshot_Ok)
  then have "bs_update_count (ob_stats b') = bs_update_count (ob_stats b)"
    by (simp add: record_level_counts_def)
  moreover have "dp_stats p' = dp_stats p" "dp_config p' = dp_config p" "dp_validator p' = dp_validator p"
    using feed_resync.hyps(7) by (auto simp: processor_reset_with_sequence_def map_ok_Ok_iff)
  moreover have "book_reachable b'"
    using feed_resync by (auto simp: feed_inv_def intro: reach_snapshot)
  ultimately show ?case using feed_resync.IH by (simp add: feed_inv_def)
qed (auto intro: process_delta_inv process_batch_inv)

lemma check_sequence_total:
  assumes "sq \<noteq> Some (- 1)"
  shows "\<exists>g p'. check_sequence now sq p = (Ok (g, p') :: (_, 'e) result) \<and> dp_stats p' = dp_stats p"
proof (cases sq)
  case None
  then show ?thesis by (simp add: check_sequence_def)
next
  case (Some seq)
  then have incr: "u64_incr seq = (Ok (seq + 1) :: (_, 'e) result)"
    using assms by (simp add: u64_incr_def)
  have "\<exists>rt. tracker_record now seq (dp_tracker p) = (Ok rt :: (_, 'e) result)"
    by (simp add: tracker_record_def incr Let_def)
  then obtain rt where rt: "tracker_record now seq (dp_tracker p) = (Ok rt :: (_, 'e) result)" ..
  show ?thesis
    by (cases "pc_track_sequences (dp_config p)") (simp_all add: check_sequence_def Some rt split: prod.splits)
qed

lemma u64_incr_total: "unat w + 1 < 2 ^ 64 \<Longrightarrow> u64_incr w = Ok (w + 1)"
  by (simp add: u64_incr_eq)

lemma u64_not_max: "unat (w :: u64) + 1 < 2 ^ 64 \<Longrightarrow> w \<noteq> - 1"
  using u64_incr_total [of w, where 'a = unit] by (auto simp: u64_incr_def)

lemma validate_levels_no_panic: "validate_levels show_f64 c ls \<noteq> Panic"
  by (induction ls) (auto simp: validate_price_def validate_quantity_def rbind_Panic_iff)

lemma validate_delta_no_panic [simp]: "validate_delta show_f64 c d \<noteq> Panic"
  by (simp add: validate_delta_def validate_levels_no_panic)

lemma process_delta_total:
  assumes inv: "feed_inv p b" and room: "unat (ds_processed (dp_stats p)) + 1 < 2 ^ 64"
      "unat (ds_gaps_detected (dp_stats p)) + 1 < 2 ^ 64" and sq: "du_sequence d \<noteq> Some (- 1)"
  shows "\<exists>r p' b'. process_delta show_f64 now us ns d p b = (Ok (r, p', b') :: (_, 'e) result)"
proof -
  let ?s = "dp_stats p"
  have rooms: "unat (ds_applied ?s) + 1 < 2 ^ 64" "unat (ds_rejected ?s) + 1 < 2 ^ 64"
      "unat (bs_update_count (ob_stats b)) + 1 < 2 ^ 64"
    using inv room(1) unfolding feed_inv_def by linarith+
  obtain p1 where p1: "count_processed p = (Ok p1 :: (_, 'e) result)"
      "dp_stats p1 = ?s\<lparr>ds_processed := ds_processed ?s + 1\<rparr>"
    using room(1) by (simp add: count_processed_def u64_incr_total)
  obtain g p2 where p2: "check_sequence now (du_sequence d) p1 = (Ok (g, p2) :: (_, 'e) result)"
      "dp_stats p2 = dp_stats p1"
    using check_sequence_total [OF sq, of now p1] by blast
  obtain b' where b': "apply_delta (du_side d) (du_levels d) (du_timestamp d) b = (Ok b' :: (_, 'e) result)"
    using apply_delta_total [of b] rooms(3) u64_not_max by blast
  have counts: "\<exists>p3. count_gap p2 = (Ok p3 :: (_, 'e) result) \<and> (\<exists>p4. count_rejected p3 = (Ok p4 :: (_, 'e) result))"
      "\<exists>p3. count_rejected p2 = (Ok p3 :: (_, 'e) result)" "\<exists>p3. count_applied p2 = (Ok p3 :: (_, 'e) result)"
    using rooms room(2) p1(2) p2(2)
    by (simp_all add: count_gap_def count_rejected_def count_applied_def u64_incr_total)
  show ?thesis
  proof (cases g)
    case (Some gap)
    then show ?thesis using counts(1) by (auto simp: process_delta_def p1(1) p2(1))
  next
    case None
    then show ?thesis using counts(2,3)
      by (cases "if pc_validate_before_apply (dp_config p2) then validate_delta show_f64 (dp_validator p2) d else Ok ()")
        (auto simp: process_delta_def p1(1) p2(1) b' split: if_splits)
  qed
qed


definition level_delta :: "u64 \<Rightarrow> int \<Rightarrow> int \<Rightarrow> int delta_update" where
  "level_delta seq p q = delta_with_sequence seq Bid [whole_level p q] 8"

lemma small_feed:
  "\<exists>p b. feed (\<lambda>_. []) p (b :: int order_book) \<and> ds_processed (dp_stats p) = 1 \<and>
     ds_gaps_detected (dp_stats p) = 0 \<and> all_bids b = [whole_level 100 3]"
proof -
  let ?p = "processor_new delta_processor_config_default"
  have start: "feed (\<lambda>_. []) ?p (book_new btc small_config)"
    by (rule feed_start) (simp_all add: delta_processor_config_default_def delta_validation_config_default_def)
  have "\<exists>r p' b'. process_delta (\<lambda>_. []) 0 1 1 (level_delta 1 100 3) ?p (book_new btc small_config) =
      (Ok (r, p', b') :: (_, unit) result) \<and> ds_processed (dp_stats p') = 1 \<and>
      ds_gaps_detected (dp_stats p') = 0 \<and> all_bids b' = [whole_level 100 3]"
    by (simp add: process_delta_def level_delta_def delta_with_sequence_def processor_new_def
        delta_processor_config_default_def delta_validation_config_default_def delta_stats_default_def
        count_processed_def count_applied_def u64_incr_def check_sequence_def tracker_record_def
        tracker_new_def tracker_at_def validate_delta_def validate_price_def validate_quantity_def
        f64_less_def apply_delta_def delta_levels_def delta_level_def trim_side.simps Let_def
        btm_get_def book_new_def small_config_def book_config_default_def book_cache_defs
        book_stats_default_def all_bids_def btm_values_def whole_level_def price_level_new_def
        set_processing_time_def)
  then show ?thesis using feed_delta [OF start] by blast
qed


text \<open>
  The reorder window of the configuration is never read: a number from any distance in the past is
  tolerated, and the delta that carries it is applied over newer levels.
\<close>

theorem reorder_window_ignored:
  assumes "tracker_inv h (dp_tracker p)" "pc_track_sequences (dp_config p)" "seq < h"
  shows "check_sequence now (Some seq) p =
    (Ok (None, p\<lparr>dp_tracker := (dp_tracker p)\<lparr>st_last_update := now\<rparr>\<rparr>) :: (_, 'e) result)"
proof -
  have h: "h \<noteq> - 1" using assms(1) by (simp add: tracker_inv_def)
  have seq: "seq \<noteq> - 1" using assms(3) by (metis word_n1_ge not_le)
  have "verdict h seq = ScOutOfOrder"
    using assms(3) word_less_plus_one [OF h, of seq] by (auto simp: verdict_def)
  then show ?thesis using tracker_record_eq [OF assms(1) seq, of now, where 'a = 'e] assms(2)
    by (simp add: check_sequence_def)
qed

end
