(* ===== verification/Order_Manager.thy ===== *)
theory Order_Manager
  imports Flash_Types Btree_Map
begin

text \<open>
  \<open>flash/src/order/types.rs\<close> and \<open>manager.rs\<close> without the \<open>blackbox\<close> feature: order types and the
  manager of pending orders. Every method runs under its mutexes, so it is one atomic step, except
  \<open>submit_order\<close>, which draws the identifier from an atomic counter before it locks. The hash map
  of pending orders is kept sorted here; the code never relies on its order. Quantities are the
  type parameter \<open>'q\<close>.
\<close>

section \<open>Order types\<close>

type_synonym order_id = u64

datatype order_side = OsBuy | OsSell

fun order_side_opposite :: "order_side \<Rightarrow> order_side" where
  "order_side_opposite OsBuy = OsSell"
| "order_side_opposite OsSell = OsBuy"

fun order_side_as_str :: "order_side \<Rightarrow> string" where
  "order_side_as_str OsBuy = ''buy''"
| "order_side_as_str OsSell = ''sell''"

datatype order_type = OtMarket | OtLimit | OtStopLimit | OtStopMarket

fun order_type_as_str :: "order_type \<Rightarrow> string" where
  "order_type_as_str OtMarket = ''market''"
| "order_type_as_str OtLimit = ''limit''"
| "order_type_as_str OtStopLimit = ''stop_limit''"
| "order_type_as_str OtStopMarket = ''stop_market''"

fun requires_price :: "order_type \<Rightarrow> bool" where
  "requires_price OtMarket = False"
| "requires_price OtStopMarket = False"
| "requires_price OtLimit = True"
| "requires_price OtStopLimit = True"

definition requires_stop_price :: "order_type \<Rightarrow> bool" where
  "requires_stop_price t \<longleftrightarrow> t = OtStopLimit \<or> t = OtStopMarket"

datatype time_in_force = TifGTC | TifIOC | TifFOK | TifGTD | TifPostOnly

fun time_in_force_as_str :: "time_in_force \<Rightarrow> string" where
  "time_in_force_as_str TifGTC = ''GTC''"
| "time_in_force_as_str TifIOC = ''IOC''"
| "time_in_force_as_str TifFOK = ''FOK''"
| "time_in_force_as_str TifGTD = ''GTD''"
| "time_in_force_as_str TifPostOnly = ''POST_ONLY''"

datatype order_status =
    OrPending | OrSubmitted | OrOpen | OrPartiallyFilled
  | OrFilled | OrCancelled | OrRejected | OrExpired

fun order_status_as_str :: "order_status \<Rightarrow> string" where
  "order_status_as_str OrPending = ''pending''"
| "order_status_as_str OrSubmitted = ''submitted''"
| "order_status_as_str OrOpen = ''open''"
| "order_status_as_str OrPartiallyFilled = ''partially_filled''"
| "order_status_as_str OrFilled = ''filled''"
| "order_status_as_str OrCancelled = ''cancelled''"
| "order_status_as_str OrRejected = ''rejected''"
| "order_status_as_str OrExpired = ''expired''"

definition is_terminal :: "order_status \<Rightarrow> bool" where
  "is_terminal s \<longleftrightarrow> s = OrFilled \<or> s = OrCancelled \<or> s = OrRejected \<or> s = OrExpired"

definition is_cancellable :: "order_status \<Rightarrow> bool" where
  "is_cancellable s \<longleftrightarrow> s = OrOpen \<or> s = OrPartiallyFilled \<or> s = OrSubmitted"

record 'q order_request =
  or_instrument :: flash_instrument
  or_side :: order_side
  or_order_type :: order_type
  or_quantity :: 'q
  or_price :: "f64 option"
  or_stop_price :: "f64 option"
  or_time_in_force :: time_in_force
  or_client_order_id :: "string option"
  or_reduce_only :: bool
  or_post_only :: bool
  or_created_at :: i64

definition request_market :: "flash_instrument \<Rightarrow> order_side \<Rightarrow> 'q \<Rightarrow> i64 \<Rightarrow> 'q order_request" where
  "request_market i side q ts =
     \<lparr>or_instrument = i, or_side = side, or_order_type = OtMarket, or_quantity = q, or_price = None,
      or_stop_price = None, or_time_in_force = TifIOC, or_client_order_id = None,
      or_reduce_only = False, or_post_only = False, or_created_at = ts\<rparr>"

definition request_limit ::
    "flash_instrument \<Rightarrow> order_side \<Rightarrow> f64 \<Rightarrow> 'q \<Rightarrow> time_in_force \<Rightarrow> i64 \<Rightarrow> 'q order_request" where
  "request_limit i side p q tif ts =
     \<lparr>or_instrument = i, or_side = side, or_order_type = OtLimit, or_quantity = q, or_price = Some p,
      or_stop_price = None, or_time_in_force = tif, or_client_order_id = None,
      or_reduce_only = False, or_post_only = False, or_created_at = ts\<rparr>"

definition request_stop_limit ::
    "flash_instrument \<Rightarrow> order_side \<Rightarrow> f64 \<Rightarrow> f64 \<Rightarrow> 'q \<Rightarrow> i64 \<Rightarrow> 'q order_request" where
  "request_stop_limit i side stop limit q ts =
     \<lparr>or_instrument = i, or_side = side, or_order_type = OtStopLimit, or_quantity = q,
      or_price = Some limit, or_stop_price = Some stop, or_time_in_force = TifGTC,
      or_client_order_id = None, or_reduce_only = False, or_post_only = False, or_created_at = ts\<rparr>"

definition request_with_client_id :: "string \<Rightarrow> 'q order_request \<Rightarrow> 'q order_request" where
  "request_with_client_id c r = r\<lparr>or_client_order_id := Some c\<rparr>"

definition request_reduce_only :: "'q order_request \<Rightarrow> 'q order_request" where
  "request_reduce_only r = r\<lparr>or_reduce_only := True\<rparr>"

definition request_post_only :: "'q order_request \<Rightarrow> 'q order_request" where
  "request_post_only r = r\<lparr>or_post_only := True\<rparr>"

datatype cancel_reason =
    CrUserRequested | CrExpired | CrInsufficientFunds | CrPostOnlyWouldTake
  | CrReduceOnlyWouldIncrease | CrSelfTradePrevention | CrDisconnect | CrSystemShutdown
  | CrRiskLimit | CrOther string

fun cancel_reason_as_str :: "cancel_reason \<Rightarrow> string" where
  "cancel_reason_as_str CrUserRequested = ''user_requested''"
| "cancel_reason_as_str CrExpired = ''expired''"
| "cancel_reason_as_str CrInsufficientFunds = ''insufficient_funds''"
| "cancel_reason_as_str CrPostOnlyWouldTake = ''post_only_would_take''"
| "cancel_reason_as_str CrReduceOnlyWouldIncrease = ''reduce_only_would_increase''"
| "cancel_reason_as_str CrSelfTradePrevention = ''self_trade_prevention''"
| "cancel_reason_as_str CrDisconnect = ''disconnect''"
| "cancel_reason_as_str CrSystemShutdown = ''system_shutdown''"
| "cancel_reason_as_str CrRiskLimit = ''risk_limit''"
| "cancel_reason_as_str (CrOther msg) = msg"

record 'q modify_request =
  mr_new_price :: "f64 option"
  mr_new_quantity :: "'q option"
  mr_timestamp :: i64

definition modify_price :: "f64 \<Rightarrow> i64 \<Rightarrow> 'q modify_request" where
  "modify_price p ts = \<lparr>mr_new_price = Some p, mr_new_quantity = None, mr_timestamp = ts\<rparr>"

definition modify_quantity :: "'q \<Rightarrow> i64 \<Rightarrow> 'q modify_request" where
  "modify_quantity q ts = \<lparr>mr_new_price = None, mr_new_quantity = Some q, mr_timestamp = ts\<rparr>"

definition modify_price_and_quantity :: "f64 \<Rightarrow> 'q \<Rightarrow> i64 \<Rightarrow> 'q modify_request" where
  "modify_price_and_quantity p q ts =
     \<lparr>mr_new_price = Some p, mr_new_quantity = Some q, mr_timestamp = ts\<rparr>"

section \<open>The manager\<close>

record order_manager_config =
  mc_max_pending_orders :: usize
  mc_track_history :: bool

definition order_manager_config_default :: order_manager_config where
  "order_manager_config_default = \<lparr>mc_max_pending_orders = 1000, mc_track_history = False\<rparr>"

definition with_max_pending :: "usize \<Rightarrow> order_manager_config" where
  "with_max_pending n = order_manager_config_default\<lparr>mc_max_pending_orders := n\<rparr>"

record order_manager_stats =
  ms_orders_submitted :: u64
  ms_orders_cancelled :: u64
  ms_orders_modified :: u64
  ms_orders_filled :: u64
  ms_orders_rejected :: u64
  ms_pending_count :: usize

definition order_manager_stats_default :: order_manager_stats where
  "order_manager_stats_default =
     \<lparr>ms_orders_submitted = 0, ms_orders_cancelled = 0, ms_orders_modified = 0,
      ms_orders_filled = 0, ms_orders_rejected = 0, ms_pending_count = 0\<rparr>"

record 'q order_state =
  os_request :: "'q order_request"
  os_status :: order_status
  os_filled_quantity :: 'q
  os_last_update :: i64

record 'q order_manager =
  om_config :: order_manager_config
  om_pending :: "(order_id, 'q order_state) btree_map"
  om_next_id :: u64
  om_stats :: order_manager_stats

definition manager_new :: "order_manager_config \<Rightarrow> 'q order_manager" where
  "manager_new c =
     \<lparr>om_config = c, om_pending = [], om_next_id = 1, om_stats = order_manager_stats_default\<rparr>"

text \<open>The two atomic steps of \<open>submit_order\<close>: \<open>fetch_add\<close> wraps; the rest runs under both mutexes.\<close>

definition fetch_id :: "'q order_manager \<Rightarrow> order_id \<times> 'q order_manager" where
  "fetch_id m = (om_next_id m, m\<lparr>om_next_id := om_next_id m + 1\<rparr>)"

definition enter_order ::
    "order_id \<Rightarrow> 'q::zero order_request \<Rightarrow> 'q order_manager \<Rightarrow> ('q order_manager, 'e) result" where
  "enter_order i r m =
     (let state = \<lparr>os_request = r, os_status = OrPending, os_filled_quantity = 0,
                   os_last_update = or_created_at r\<rparr>;
          pending = btm_insert i state (om_pending m) in
      map_ok (\<lambda>n. m\<lparr>om_pending := pending,
                      om_stats := (om_stats m)\<lparr>ms_orders_submitted := n, ms_pending_count := length pending\<rparr>\<rparr>)
        (u64_incr (ms_orders_submitted (om_stats m))))"

definition submit_order ::
    "'q::zero order_request \<Rightarrow> 'q order_manager \<Rightarrow> (order_id \<times> 'q order_manager, 'e) result" where
  "submit_order r m = (let (i, m1) = fetch_id m in map_ok (\<lambda>m2. (i, m2)) (enter_order i r m1))"

definition cancel_order ::
    "order_id \<Rightarrow> cancel_reason \<Rightarrow> i64 \<Rightarrow> 'q order_manager \<Rightarrow> (bool \<times> 'q order_manager, 'e) result" where
  "cancel_order i reason ts m =
     (case btm_get (om_pending m) i of
        None \<Rightarrow> Ok (False, m)
      | Some s \<Rightarrow>
          if \<not> is_cancellable (os_status s) \<and> os_status s \<noteq> OrPending then Ok (False, m)
          else
            let pending = snd (btm_remove i (om_pending m)) in
            map_ok (\<lambda>n. (True, m\<lparr>om_pending := pending,
                om_stats := (om_stats m)\<lparr>ms_orders_cancelled := n, ms_pending_count := length pending\<rparr>\<rparr>))
              (u64_incr (ms_orders_cancelled (om_stats m))))"

definition apply_modification :: "'q modify_request \<Rightarrow> 'q order_state \<Rightarrow> 'q order_state" where
  "apply_modification q s =
     (let r = os_request s;
          r1 = (case mr_new_price q of None \<Rightarrow> r | Some p \<Rightarrow> r\<lparr>or_price := Some p\<rparr>);
          r2 = (case mr_new_quantity q of None \<Rightarrow> r1 | Some n \<Rightarrow> r1\<lparr>or_quantity := n\<rparr>) in
      s\<lparr>os_request := r2, os_last_update := mr_timestamp q\<rparr>)"

definition modify_order ::
    "order_id \<Rightarrow> 'q modify_request \<Rightarrow> 'q order_manager \<Rightarrow> (bool \<times> 'q order_manager, 'e) result" where
  "modify_order i q m =
     (case btm_get (om_pending m) i of
        None \<Rightarrow> Ok (False, m)
      | Some s \<Rightarrow>
          if is_terminal (os_status s) then Ok (False, m)
          else
            map_ok (\<lambda>n. (True, m\<lparr>om_pending := btm_insert i (apply_modification q s) (om_pending m),
                om_stats := (om_stats m)\<lparr>ms_orders_modified := n\<rparr>\<rparr>))
              (u64_incr (ms_orders_modified (om_stats m))))"

definition drop_order :: "order_id \<Rightarrow> 'q order_manager \<Rightarrow> 'q order_manager" where
  "drop_order i m =
     (let pending = snd (btm_remove i (om_pending m)) in
      m\<lparr>om_pending := pending, om_stats := (om_stats m)\<lparr>ms_pending_count := length pending\<rparr>\<rparr>)"

definition update_status ::
    "order_id \<Rightarrow> order_status \<Rightarrow> i64 \<Rightarrow> 'q order_manager \<Rightarrow> ('q order_manager, 'e) result" where
  "update_status i status ts m =
     (case btm_get (om_pending m) i of
        None \<Rightarrow> Ok m
      | Some s \<Rightarrow>
          let m1 = m\<lparr>om_pending := btm_insert i (s\<lparr>os_status := status, os_last_update := ts\<rparr>) (om_pending m)\<rparr> in
          (case status of
             OrFilled \<Rightarrow>
               map_ok (\<lambda>n. drop_order i (m1\<lparr>om_stats := (om_stats m1)\<lparr>ms_orders_filled := n\<rparr>\<rparr>))
                 (u64_incr (ms_orders_filled (om_stats m1)))
           | OrRejected \<Rightarrow>
               map_ok (\<lambda>n. drop_order i (m1\<lparr>om_stats := (om_stats m1)\<lparr>ms_orders_rejected := n\<rparr>\<rparr>))
                 (u64_incr (ms_orders_rejected (om_stats m1)))
           | OrCancelled \<Rightarrow> Ok (drop_order i m1)
           | OrExpired \<Rightarrow> Ok (drop_order i m1)
           | _ \<Rightarrow> Ok m1))"

definition pending_count :: "'q order_manager \<Rightarrow> usize" where
  "pending_count m = length (om_pending m)"

definition is_pending :: "order_id \<Rightarrow> 'q order_manager \<Rightarrow> bool" where
  "is_pending i m \<longleftrightarrow> btm_get (om_pending m) i \<noteq> None"

definition get_status :: "order_id \<Rightarrow> 'q order_manager \<Rightarrow> order_status option" where
  "get_status i m = map_option os_status (btm_get (om_pending m) i)"

text \<open>\<open>pending_order_ids\<close>: the vector lists the keys in the hash map's order, here as a set.\<close>

definition pending_order_ids :: "'q order_manager \<Rightarrow> order_id set" where
  "pending_order_ids m = fst ` set (om_pending m)"

definition manager_clear :: "'q order_manager \<Rightarrow> 'q order_manager" where
  "manager_clear m = m\<lparr>om_pending := [], om_stats := (om_stats m)\<lparr>ms_pending_count := 0\<rparr>\<rparr>"

section \<open>Runs\<close>

text \<open>
  A run of many threads: \<open>flight\<close> holds the submissions between \<open>fetch_add\<close> and the lock, \<open>issued\<close>
  every identifier drawn, \<open>dropped\<close> counts the orders that left without a counter (a status update
  to cancelled or expired, or \<open>clear\<close>).
\<close>

definition uncounted :: "order_id \<Rightarrow> order_status \<Rightarrow> 'q order_manager \<Rightarrow> nat" where
  "uncounted i s m = (if is_pending i m \<and> (s = OrCancelled \<or> s = OrExpired) then 1 else 0)"

inductive om_run ::
    "'q::zero order_manager \<Rightarrow> (order_id \<times> 'q order_request) list \<Rightarrow> order_id list \<Rightarrow> nat \<Rightarrow> bool" where
  run_new: "om_run (manager_new c) [] [] 0"
| run_fetch: "om_run m flight issued dropped \<Longrightarrow> fetch_id m = (i, m') \<Longrightarrow>
     om_run m' ((i, r) # flight) (i # issued) dropped"
| run_enter: "om_run m (before @ (i, r) # after) issued dropped \<Longrightarrow>
     enter_order i r m = (Ok m' :: (_, unit) result) \<Longrightarrow> om_run m' (before @ after) issued dropped"
| run_cancel: "om_run m flight issued dropped \<Longrightarrow>
     cancel_order i reason ts m = (Ok (done, m') :: (_, unit) result) \<Longrightarrow> om_run m' flight issued dropped"
| run_modify: "om_run m flight issued dropped \<Longrightarrow>
     modify_order i q m = (Ok (done, m') :: (_, unit) result) \<Longrightarrow> om_run m' flight issued dropped"
| run_status: "om_run m flight issued dropped \<Longrightarrow>
     update_status i s ts m = (Ok m' :: (_, unit) result) \<Longrightarrow>
     om_run m' flight issued (dropped + uncounted i s m)"
| run_clear: "om_run m flight issued dropped \<Longrightarrow>
     om_run (manager_clear m) flight issued (dropped + pending_count m)"

text \<open>The books balance: what was submitted is pending or left by a counted or uncounted way.\<close>

definition om_ok :: "'q order_manager \<Rightarrow> nat \<Rightarrow> bool" where
  "om_ok m dropped \<longleftrightarrow> btm_wf (om_pending m) \<and>
     (\<forall>e \<in> set (om_pending m). \<not> is_terminal (os_status (snd e))) \<and>
     ms_pending_count (om_stats m) = length (om_pending m) \<and>
     unat (ms_orders_submitted (om_stats m)) =
       length (om_pending m) + unat (ms_orders_cancelled (om_stats m)) +
       unat (ms_orders_filled (om_stats m)) + unat (ms_orders_rejected (om_stats m)) + dropped"

definition ids_ok :: "'q order_manager \<Rightarrow> (order_id \<times> 'q order_request) list \<Rightarrow> order_id list \<Rightarrow> bool" where
  "ids_ok m flight issued \<longleftrightarrow> distinct issued \<and> unat (om_next_id m) = length issued + 1 \<and>
     (\<forall>i \<in> set issued. unat i < unat (om_next_id m)) \<and>
     distinct (map fst flight) \<and> fst ` set flight \<subseteq> set issued \<and> fst ` set (om_pending m) \<subseteq> set issued \<and>
     fst ` set flight \<inter> fst ` set (om_pending m) = {}"

lemma length_btm_insert:
  "btm_wf m \<Longrightarrow> length (btm_insert k v m) = (case btm_get m k of None \<Rightarrow> Suc (length m) | Some _ \<Rightarrow> length m)"
proof (induction m)
  case (Cons e m)
  have "btm_get m k = None" if "k \<le> fst e"
    using that Cons.prems by (force simp: btm_get_None btm_wf_Cons)
  then show ?case using Cons
    by (cases e) (auto simp: btm_get_def btm_wf_Cons split: option.splits)
qed (simp add: btm_get_def)

lemma length_btm_remove:
  "btm_wf m \<Longrightarrow> btm_get m k = Some v \<Longrightarrow> length m = Suc (length (snd (btm_remove k m)))"
proof (induction m)
  case (Cons e m)
  have "filter (\<lambda>x. fst x \<noteq> k) m = m" if "k = fst e"
    using that Cons.prems(1) by (force simp: filter_id_conv btm_wf_Cons)
  then show ?case using Cons
    by (cases e) (auto simp: btm_get_def btm_remove_def btm_wf_Cons split: if_splits)
qed (simp add: btm_get_def)

lemma set_btm_remove: "set (snd (btm_remove k m)) = {e \<in> set m. fst e \<noteq> k}"
  by (auto simp: btm_remove_def)

lemma u64_incr_unat: "u64_incr w = Ok n \<Longrightarrow> unat n = unat w + 1"
  by (auto simp: u64_incr_eq unat_u64_incr split: if_splits)

lemma enter_order_ok:
  assumes "enter_order i r m = Ok m'" "om_ok m dropped" "i \<notin> fst ` set (om_pending m)"
  shows "om_ok m' dropped" "fst ` set (om_pending m') = insert i (fst ` set (om_pending m))"
    "om_next_id m' = om_next_id m"
proof -
  have "set (btm_insert i s (om_pending m)) = insert (i, s) (set (om_pending m))" for s
    using assms(3) by (rule btm_insert_fresh)
  moreover have "btm_get (om_pending m) i = None" using assms(3) by (simp add: btm_get_None)
  ultimately show "om_ok m' dropped" "fst ` set (om_pending m') = insert i (fst ` set (om_pending m))"
    "om_next_id m' = om_next_id m"
    using assms(1,2)
    by (auto simp: enter_order_def om_ok_def map_ok_Ok_iff btm_insert_wf length_btm_insert is_terminal_def
        Let_def dest!: u64_incr_unat)
qed

lemma drop_order_ok:
  assumes "btm_wf (om_pending m)" "\<forall>e \<in> set (om_pending m). fst e \<noteq> i \<longrightarrow> \<not> is_terminal (os_status (snd e))"
    and "btm_get (om_pending m) i = Some s"
    and "unat (ms_orders_submitted (om_stats m)) + 1 =
       length (om_pending m) + unat (ms_orders_cancelled (om_stats m)) +
       unat (ms_orders_filled (om_stats m)) + unat (ms_orders_rejected (om_stats m)) + dropped"
  shows "om_ok (drop_order i m) dropped" "fst ` set (om_pending (drop_order i m)) \<subseteq> fst ` set (om_pending m)"
    "om_next_id (drop_order i m) = om_next_id m"
  using assms length_btm_remove [OF assms(1,3)]
  by (auto simp: drop_order_def om_ok_def Let_def btm_remove_wf set_btm_remove)

text \<open>Storing a new live state of a pending order.\<close>

lemma restate_ok:
  assumes "om_ok m dropped" "btm_get (om_pending m) i = Some s" "\<not> is_terminal (os_status s')"
  shows "om_ok (m\<lparr>om_pending := btm_insert i s' (om_pending m)\<rparr>) dropped"
    "fst ` set (btm_insert i s' (om_pending m)) = fst ` set (om_pending m)"
proof -
  have "set (btm_insert i s' (om_pending m)) \<subseteq> insert (i, s') (set (om_pending m))" by (rule set_btm_insert)
  then have "\<forall>e \<in> set (btm_insert i s' (om_pending m)). \<not> is_terminal (os_status (snd e))"
    using assms(1,3) by (auto simp: om_ok_def)
  then show "om_ok (m\<lparr>om_pending := btm_insert i s' (om_pending m)\<rparr>) dropped"
    using assms by (simp add: om_ok_def btm_insert_wf length_btm_insert)
  have "i \<in> fst ` set (om_pending m)" using assms(2) btm_get_None [of "om_pending m" i] by auto
  then show "fst ` set (btm_insert i s' (om_pending m)) = fst ` set (om_pending m)"
    by (simp add: btm_insert_keys insert_absorb)
qed

lemma om_pending_live: "om_ok m dropped \<Longrightarrow> btm_get (om_pending m) i = Some s \<Longrightarrow> \<not> is_terminal (os_status s)"
  by (auto simp: om_ok_def btm_get_Some)

lemma not_terminal_iff: "\<not> is_terminal s \<longleftrightarrow> is_cancellable s \<or> s = OrPending"
  by (cases s) (simp_all add: is_terminal_def is_cancellable_def)

lemma cancel_order_ok:
  assumes "cancel_order i reason ts m = Ok (done, m')" "om_ok m dropped"
  shows "om_ok m' dropped" "fst ` set (om_pending m') \<subseteq> fst ` set (om_pending m)" "om_next_id m' = om_next_id m"
    "done = is_pending i m"
proof -
  have "om_ok m' dropped \<and> fst ` set (om_pending m') \<subseteq> fst ` set (om_pending m) \<and>
      om_next_id m' = om_next_id m \<and> done = is_pending i m"
  proof (cases "btm_get (om_pending m) i")
    case None
    then show ?thesis using assms by (simp add: cancel_order_def is_pending_def)
  next
    case (Some s)
    have live: "is_cancellable (os_status s) \<or> os_status s = OrPending"
      using om_pending_live [OF assms(2) Some] by (simp add: not_terminal_iff)
    obtain n where n: "u64_incr (ms_orders_cancelled (om_stats m)) = (Ok n :: (_, 'b) result)" "done = True"
        "m' = drop_order i (m\<lparr>om_stats := (om_stats m)\<lparr>ms_orders_cancelled := n\<rparr>\<rparr>)"
      using assms(1) Some live by (auto simp: cancel_order_def map_ok_Ok_iff drop_order_def Let_def)
    have "om_ok m' dropped" "fst ` set (om_pending m') \<subseteq> fst ` set (om_pending m)" "om_next_id m' = om_next_id m"
      using drop_order_ok [of "m\<lparr>om_stats := (om_stats m)\<lparr>ms_orders_cancelled := n\<rparr>\<rparr>" i s dropped]
        assms(2) Some u64_incr_unat [OF n(1)] unfolding n(3) by (simp_all add: om_ok_def)
    then show ?thesis using n(2) Some by (simp add: is_pending_def)
  qed
  then show "om_ok m' dropped" "fst ` set (om_pending m') \<subseteq> fst ` set (om_pending m)" "om_next_id m' = om_next_id m"
    "done = is_pending i m" by simp_all
qed

lemma modify_order_ok:
  assumes "modify_order i q m = Ok (done, m')" "om_ok m dropped"
  shows "om_ok m' dropped \<and> fst ` set (om_pending m') \<subseteq> fst ` set (om_pending m) \<and>
    om_next_id m' = om_next_id m \<and> done = is_pending i m"
proof (cases "btm_get (om_pending m) i")
  case None
  then show ?thesis using assms by (simp add: modify_order_def is_pending_def)
next
  case (Some s)
  have live: "\<not> is_terminal (os_status s)" using om_pending_live [OF assms(2) Some] .
  moreover have "os_status (apply_modification q s) = os_status s" by (simp add: apply_modification_def Let_def)
  ultimately have new: "om_ok (m\<lparr>om_pending := btm_insert i (apply_modification q s) (om_pending m)\<rparr>) dropped"
      "fst ` set (btm_insert i (apply_modification q s) (om_pending m)) = fst ` set (om_pending m)"
    using restate_ok [OF assms(2) Some, of "apply_modification q s"] by simp_all
  obtain n where m': "m' = m\<lparr>om_pending := btm_insert i (apply_modification q s) (om_pending m),
      om_stats := (om_stats m)\<lparr>ms_orders_modified := n\<rparr>\<rparr>" "done = True"
    using assms(1) Some live by (auto simp: modify_order_def map_ok_Ok_iff)
  show ?thesis using new(1) Some unfolding m' by (simp add: om_ok_def is_pending_def new(2))
qed

lemma update_status_ok:
  assumes "update_status i st ts m = Ok m'" "om_ok m dropped"
  shows "om_ok m' (dropped + uncounted i st m) \<and> fst ` set (om_pending m') \<subseteq> fst ` set (om_pending m) \<and>
    om_next_id m' = om_next_id m"
proof (cases "btm_get (om_pending m) i")
  case None
  then show ?thesis using assms by (simp add: update_status_def uncounted_def is_pending_def)
next
  case (Some s)
  let ?s = "s\<lparr>os_status := st, os_last_update := ts\<rparr>"
  let ?p = "btm_insert i ?s (om_pending m)"
  have wf: "btm_wf (om_pending m)" using assms(2) by (simp add: om_ok_def)
  have p: "btm_wf ?p" "btm_get ?p i = Some ?s" "length ?p = length (om_pending m)"
    using wf Some by (simp_all add: btm_insert_wf btm_get_insert length_btm_insert)
  have keys: "fst ` set ?p = fst ` set (om_pending m)"
    using Some btm_get_None [of "om_pending m" i] by (auto simp: btm_insert_keys)
  have others: "\<forall>e \<in> set ?p. fst e \<noteq> i \<longrightarrow> \<not> is_terminal (os_status (snd e))"
    using set_btm_insert [of i ?s "om_pending m"] assms(2) by (auto simp: om_ok_def)
  have gone: "om_ok (drop_order i (m\<lparr>om_pending := ?p, om_stats := stats\<rparr>)) d \<and>
      fst ` set (om_pending (drop_order i (m\<lparr>om_pending := ?p, om_stats := stats\<rparr>))) \<subseteq> fst ` set (om_pending m) \<and>
      om_next_id (drop_order i (m\<lparr>om_pending := ?p, om_stats := stats\<rparr>)) = om_next_id m"
    if "unat (ms_orders_submitted stats) + 1 = length (om_pending m) + unat (ms_orders_cancelled stats) +
       unat (ms_orders_filled stats) + unat (ms_orders_rejected stats) + d" for stats d
    using drop_order_ok [of "m\<lparr>om_pending := ?p, om_stats := stats\<rparr>" i ?s d] p others keys that by simp
  have pend: "is_pending i m" using Some by (simp add: is_pending_def)
  have stats: "om_pending m \<noteq> []" "ms_pending_count (om_stats m) = length (om_pending m)"
    "unat (ms_orders_submitted (om_stats m)) =
       length (om_pending m) + unat (ms_orders_cancelled (om_stats m)) +
       unat (ms_orders_filled (om_stats m)) + unat (ms_orders_rejected (om_stats m)) + dropped"
    using assms(2) Some by (auto simp: om_ok_def btm_get_def)
  show ?thesis
  proof (cases "is_terminal st")
    case False
    have m': "m' = m\<lparr>om_pending := ?p\<rparr>"
      using False assms(1) Some by (cases st) (simp_all add: update_status_def is_terminal_def)
    have "uncounted i st m = 0" using False by (auto simp: uncounted_def is_terminal_def)
    then show ?thesis using restate_ok(1) [OF assms(2) Some, of ?s] False unfolding m' by (simp add: keys)
  next
    case True
    then consider (f) n where "st = OrFilled" "u64_incr (ms_orders_filled (om_stats m)) = (Ok n :: (_, 'b) result)"
        "m' = drop_order i (m\<lparr>om_pending := ?p, om_stats := (om_stats m)\<lparr>ms_orders_filled := n\<rparr>\<rparr>)"
      | (r) n where "st = OrRejected" "u64_incr (ms_orders_rejected (om_stats m)) = (Ok n :: (_, 'b) result)"
        "m' = drop_order i (m\<lparr>om_pending := ?p, om_stats := (om_stats m)\<lparr>ms_orders_rejected := n\<rparr>\<rparr>)"
      | (u) "st = OrCancelled \<or> st = OrExpired" "m' = drop_order i (m\<lparr>om_pending := ?p, om_stats := om_stats m\<rparr>)"
      using assms(1) Some by (cases st) (auto simp: update_status_def map_ok_Ok_iff is_terminal_def)
    then show ?thesis
    proof cases
      case f
      show ?thesis unfolding f(3) using u64_incr_unat [OF f(2)] stats f(1)
        by (intro gone) (simp add: uncounted_def)
    next
      case r
      show ?thesis unfolding r(3) using u64_incr_unat [OF r(2)] stats r(1)
        by (intro gone) (simp add: uncounted_def)
    next
      case u
      show ?thesis unfolding u(2) using stats u(1) pend
        by (intro gone) (auto simp: uncounted_def)
    qed
  qed
qed

lemma ids_ok_shrink:
  "ids_ok m flight issued \<Longrightarrow> fst ` set (om_pending m') \<subseteq> fst ` set (om_pending m) \<Longrightarrow>
   om_next_id m' = om_next_id m \<Longrightarrow> ids_ok m' flight issued"
  unfolding ids_ok_def by (elim conjE, intro conjI) (simp_all, blast+)

lemma om_run_ok:
  "om_run m flight issued dropped \<Longrightarrow> length issued + 1 < 2 ^ 64 \<Longrightarrow> om_ok m dropped \<and> ids_ok m flight issued"
proof (induction rule: om_run.induct)
  case (run_new c)
  then show ?case
    by (simp add: om_ok_def ids_ok_def manager_new_def order_manager_stats_default_def)
next
  case (run_fetch m flight issued dropped i m' r)
  then have ok: "om_ok m dropped" "ids_ok m flight issued" by simp_all
  have m': "i = om_next_id m" "m' = m\<lparr>om_next_id := om_next_id m + 1\<rparr>"
    using run_fetch.hyps(2) by (auto simp: fetch_id_def)
  have id: "unat (om_next_id m) = length issued + 1" using ok(2) by (simp add: ids_ok_def)
  then have succ: "unat (om_next_id m + 1) = unat (om_next_id m) + 1"
    using run_fetch.prems by (intro unat_u64_incr) simp
  have new: "i \<notin> set issued" using ok(2) unfolding m'(1) ids_ok_def by auto
  have "ids_ok m' ((i, r) # flight) (i # issued)"
    using ok(2) new id succ unfolding ids_ok_def m' by (auto simp: less_Suc_eq)
  then show ?case using ok(1) by (simp add: m' om_ok_def)
next
  case (run_enter m before i r after issued dropped m')
  then have ok: "om_ok m dropped" "ids_ok m (before @ (i, r) # after) issued" by simp_all
  have "i \<notin> fst ` set (om_pending m)" using ok(2) by (auto simp: ids_ok_def)
  note m' = enter_order_ok [OF run_enter.hyps(2) ok(1) this]
  have "ids_ok m' (before @ after) issued"
    using ok(2) unfolding ids_ok_def m'(2,3) by (elim conjE, intro conjI) (auto dest: subsetD)
  then show ?case using m'(1) by simp
next
  case (run_cancel m flight issued dropped i reason ts don m')
  then show ?case
    using cancel_order_ok(1-3) [OF run_cancel.hyps(2), of dropped] ids_ok_shrink [of m flight issued m'] by simp
next
  case (run_modify m flight issued dropped i q don m')
  then show ?case using modify_order_ok [OF run_modify.hyps(2), of dropped] ids_ok_shrink [of m flight issued m'] by simp
next
  case (run_status m flight issued dropped i s ts m')
  then show ?case using update_status_ok [OF run_status.hyps(2), of dropped] ids_ok_shrink [of m flight issued m'] by simp
next
  case (run_clear m flight issued dropped)
  then show ?case by (auto simp: om_ok_def ids_ok_def manager_clear_def pending_count_def)
qed

text \<open>
  C22: The order manager under any interleaving of threads, for fewer than 2^64 - 1 identifiers: no
  identifier is issued twice, no pending order is terminal, the pending counter is the number of
  pending orders, and every submitted order is pending, cancelled, filled, rejected or dropped
  without a counter. Cancelling succeeds exactly for pending orders, which then are not pending.
\<close>

theorem order_manager_accounts:
  assumes "om_run m flight issued dropped" "length issued + 1 < 2 ^ 64"
    and "unat (ms_orders_cancelled (om_stats m)) + 1 < 2 ^ 64"
  shows "distinct issued \<and> pending_order_ids m \<subseteq> set issued \<and>
    (\<forall>i st. get_status i m = Some st \<longrightarrow> \<not> is_terminal st) \<and>
    ms_pending_count (om_stats m) = pending_count m \<and>
    unat (ms_orders_submitted (om_stats m)) =
      pending_count m + unat (ms_orders_cancelled (om_stats m)) + unat (ms_orders_filled (om_stats m)) +
      unat (ms_orders_rejected (om_stats m)) + dropped \<and>
    (\<exists>m'. cancel_order i reason ts m = (Ok (is_pending i m, m') :: (_, 'e) result) \<and> \<not> is_pending i m' \<and>
       (\<forall>j. j \<noteq> i \<longrightarrow> btm_get (om_pending m') j = btm_get (om_pending m) j))"
proof -
  have ok: "om_ok m dropped" "ids_ok m flight issued" using om_run_ok [OF assms(1,2)] by simp_all
  have incr: "u64_incr (ms_orders_cancelled (om_stats m)) =
      (Ok (ms_orders_cancelled (om_stats m) + 1) :: (_, 'e) result)"
    using assms(3) by (simp add: u64_incr_eq)
  have cancel: "\<exists>m'. cancel_order i reason ts m = (Ok (is_pending i m, m') :: (_, 'e) result) \<and>
      \<not> is_pending i m' \<and> (\<forall>j. j \<noteq> i \<longrightarrow> btm_get (om_pending m') j = btm_get (om_pending m) j)"
  proof (cases "btm_get (om_pending m) i")
    case None
    then show ?thesis by (simp add: cancel_order_def is_pending_def)
  next
    case (Some s)
    have "is_cancellable (os_status s) \<or> os_status s = OrPending"
      using om_pending_live [OF ok(1) Some] by (simp add: not_terminal_iff)
    then show ?thesis using Some by (auto simp: cancel_order_def incr is_pending_def Let_def btm_get_remove)
  qed
  have "\<forall>i st. get_status i m = Some st \<longrightarrow> \<not> is_terminal st"
    using om_pending_live [OF ok(1)] by (auto simp: get_status_def)
  then show ?thesis using ok cancel
    by (simp add: om_ok_def ids_ok_def pending_count_def pending_order_ids_def)
qed

definition sample_request :: "int order_request" where
  "sample_request = request_market (flash_instrument_new ''BTC'' ''USD'' FxDeribit ''BTC-PERPETUAL'') OsBuy 1 7"

lemma sample_manager_run:
  "\<exists>m :: int order_manager. om_run m [] [2, 1] 0 \<and> ms_orders_cancelled (om_stats m) = 0 \<and> pending_count m = 2"
proof -
  let ?m0 = "manager_new order_manager_config_default :: int order_manager"
  have r0: "om_run ?m0 [] [] 0" by (rule run_new)
  have r1: "om_run (?m0\<lparr>om_next_id := 2\<rparr>) [(1, sample_request)] [1] 0"
    by (rule run_fetch [OF r0]) (simp add: fetch_id_def manager_new_def)
  have r2: "om_run (?m0\<lparr>om_next_id := 3\<rparr>) [(2, sample_request), (1, sample_request)] [2, 1] 0"
    by (rule run_fetch [OF r1]) (simp add: fetch_id_def)
  obtain m3 where m3: "enter_order 1 sample_request (?m0\<lparr>om_next_id := 3\<rparr>) = (Ok m3 :: (_, unit) result)"
      "ms_orders_submitted (om_stats m3) = 1" "ms_orders_cancelled (om_stats m3) = 0"
      "fst ` set (om_pending m3) = {1}" "length (om_pending m3) = 1"
    by (simp add: enter_order_def manager_new_def u64_incr_def order_manager_stats_default_def Let_def)
  have r3: "om_run m3 [(2, sample_request)] [2, 1] 0"
    using run_enter [of _ "[(2, sample_request)]" 1 sample_request "[]", OF _ m3(1)] r2 by simp
  obtain e where e: "om_pending m3 = [e]" "fst e = 1" using m3(4,5) by (cases "om_pending m3") auto
  obtain m4 where m4: "enter_order 2 sample_request m3 = (Ok m4 :: (_, unit) result)"
      "ms_orders_cancelled (om_stats m4) = 0" "length (om_pending m4) = 2"
    using m3 e by (cases e) (simp add: enter_order_def u64_incr_def Let_def)
  have "om_run m4 [] [2, 1] 0"
    using run_enter [of _ "[]" 2 sample_request "[]", OF _ m4(1)] r3 by simp
  then show ?thesis using m4 by (auto simp: pending_count_def)
qed

theorem order_manager_accounts_witness:
  "\<exists>m m'. om_run (m :: int order_manager) [] [2, 1] 0 \<and> ms_pending_count (om_stats m) = 2 \<and>
     cancel_order 3 CrUserRequested 9 m = (Ok (is_pending 3 m, m') :: (_, unit) result)"
proof -
  obtain m :: "int order_manager" where m: "om_run m [] [2, 1] 0" "ms_orders_cancelled (om_stats m) = 0" "pending_count m = 2"
    using sample_manager_run by blast
  show ?thesis
    using order_manager_accounts [OF m(1), of 3 CrUserRequested 9] m by auto
qed

end
