(* ===== verification/Topic_Pattern.thy ===== *)
theory Topic_Pattern
  imports Flash_Types
begin

text \<open>
  \<open>flash/src/publisher/topics.rs\<close>, first half, with \<open>TopicBuilder\<close> of \<open>stream.rs\<close>: topic patterns
  with wildcards, and topic templates. \<open>lower\<close> is \<open>str::to_lowercase\<close>, whose Unicode tables are
  not part of the model.
\<close>

section \<open>Topics\<close>

datatype topic_type = TtBook | TtTrade | TtTicker | TtEvent

fun topic_type_as_str :: "topic_type \<Rightarrow> string" where
  "topic_type_as_str TtBook = ''book''"
| "topic_type_as_str TtTrade = ''trade''"
| "topic_type_as_str TtTicker = ''ticker''"
| "topic_type_as_str TtEvent = ''event''"

record topic_builder =
  tb_prefix :: string

definition topic_builder_new :: "(string \<Rightarrow> string) \<Rightarrow> string \<Rightarrow> topic_builder" where
  "topic_builder_new lower prefix = \<lparr>tb_prefix = lower prefix\<rparr>"

definition market_data_topic ::
    "(string \<Rightarrow> string) \<Rightarrow> topic_builder \<Rightarrow> flash_exchange \<Rightarrow> string \<Rightarrow> string \<Rightarrow> topic_type \<Rightarrow> string" where
  "market_data_topic lower b ex base quote t =
     tb_prefix b @ ''.'' @ flash_exchange_as_str ex @ ''.'' @ lower base @ ''_'' @ lower quote @ ''.'' @
     topic_type_as_str t"

definition topic_for_instrument ::
    "(string \<Rightarrow> string) \<Rightarrow> topic_builder \<Rightarrow> flash_instrument \<Rightarrow> topic_type \<Rightarrow> string" where
  "topic_for_instrument lower b i t =
     market_data_topic lower b (fi_exchange i) (fi_base i) (fi_quote i) t"

definition system_topic :: "(string \<Rightarrow> string) \<Rightarrow> string \<Rightarrow> string" where
  "system_topic lower name = ''system.flash.'' @ lower name"

section \<open>Errors\<close>

datatype routing_error =
    ReInvalidPattern string string
  | ReInvalidTemplate string string
  | ReRuleNotFound u64
  | ReDuplicateRule u64
  | ReTooManyTopics usize usize
  | ReNoMatchingRules string
  | ReConfigError string

section \<open>Patterns\<close>

datatype pattern_segment = PExact string | PSingleWildcard | PMultiWildcard

record topic_pattern =
  tp_segments :: "pattern_segment list"
  tp_raw :: string

text \<open>\<open>split('.')\<close>: one piece more than there are dots.\<close>

fun split_dots :: "string \<Rightarrow> string list" where
  "split_dots [] = [[]]"
| "split_dots (c # cs) =
     (if c = CHR ''.'' then [] # split_dots cs
      else case split_dots cs of [] \<Rightarrow> [[c]] | s # ss \<Rightarrow> (c # s) # ss)"

definition pattern_segment_of :: "(string \<Rightarrow> string) \<Rightarrow> string \<Rightarrow> pattern_segment" where
  "pattern_segment_of lower s =
     (if s = ''*'' then PSingleWildcard else if s = ''#'' then PMultiWildcard else PExact (lower s))"

definition pattern_parse :: "(string \<Rightarrow> string) \<Rightarrow> string \<Rightarrow> (topic_pattern, routing_error) result" where
  "pattern_parse lower p =
     (if p = [] then Err (ReInvalidPattern p ''Pattern cannot be empty'')
      else Ok \<lparr>tp_segments = map (pattern_segment_of lower) (split_dots p), tp_raw = p\<rparr>)"

text \<open>\<open>eq_ignore_ascii_case\<close>.\<close>

definition ascii_lower :: "char \<Rightarrow> char" where
  "ascii_lower c =
     (let n = (of_char c :: nat) in if 65 \<le> n \<and> n \<le> 90 then char_of (n + 32) else c)"

definition eq_ignore_ascii_case :: "string \<Rightarrow> string \<Rightarrow> bool" where
  "eq_ignore_ascii_case s t \<longleftrightarrow> map ascii_lower s = map ascii_lower t"

function match_segments :: "pattern_segment list \<Rightarrow> string list \<Rightarrow> bool" where
  "match_segments [] [] = True"
| "match_segments [] (t # ts) = False"
| "match_segments (PMultiWildcard # ps) [] = match_segments ps []"
| "match_segments (PSingleWildcard # ps) [] = False"
| "match_segments (PExact p # ps) [] = False"
| "match_segments (PMultiWildcard # ps) (t # ts) =
     (match_segments ps (t # ts) \<or> match_segments (PMultiWildcard # ps) ts)"
| "match_segments (PSingleWildcard # ps) (t # ts) = match_segments ps ts"
| "match_segments (PExact p # ps) (t # ts) = (eq_ignore_ascii_case p t \<and> match_segments ps ts)"
  by pat_completeness auto

termination
  by (relation "measure (\<lambda>(ps, ts). length ps + length ts)") auto

definition pattern_matches :: "topic_pattern \<Rightarrow> string \<Rightarrow> bool" where
  "pattern_matches p topic = match_segments (tp_segments p) (split_dots topic)"

section \<open>Templates\<close>

datatype template_segment = TLiteral string | TExchange | TBase | TQuote | TType | TPrefix

record topic_template =
  tt_segments :: "template_segment list"
  tt_raw :: string

definition placeholder :: "string \<Rightarrow> template_segment option" where
  "placeholder s =
     (if s = ''exchange'' then Some TExchange
      else if s = ''base'' then Some TBase
      else if s = ''quote'' then Some TQuote
      else if s = ''type'' then Some TType
      else if s = ''prefix'' then Some TPrefix
      else None)"

definition flush_literal :: "template_segment list \<Rightarrow> string \<Rightarrow> template_segment list" where
  "flush_literal segments current =
     (if current = [] then segments else segments @ [TLiteral current])"

text \<open>The loop over the characters; the result is the state at the end of the template.\<close>

fun template_loop ::
    "(string \<Rightarrow> string) \<Rightarrow> string \<Rightarrow> string \<Rightarrow> template_segment list \<Rightarrow> string \<Rightarrow> bool \<Rightarrow>
     (template_segment list \<times> string \<times> bool, routing_error) result" where
  "template_loop lower raw [] segments current inside = Ok (segments, current, inside)"
| "template_loop lower raw (c # cs) segments current inside =
     (if c = CHR ''{'' then
        if inside then Err (ReInvalidTemplate raw ''Nested placeholders not allowed'')
        else template_loop lower raw cs (flush_literal segments current) [] True
      else if c = CHR ''}'' then
        if \<not> inside then Err (ReInvalidTemplate raw ''Unexpected closing brace'')
        else
          (case placeholder (lower current) of
             None \<Rightarrow> Err (ReInvalidTemplate raw (''Unknown placeholder: {'' @ lower current @ ''}''))
           | Some seg \<Rightarrow> template_loop lower raw cs (segments @ [seg]) [] False)
      else template_loop lower raw cs segments (current @ [c]) inside)"

definition template_parse :: "(string \<Rightarrow> string) \<Rightarrow> string \<Rightarrow> (topic_template, routing_error) result" where
  "template_parse lower template =
     rbind (template_loop lower template template [] [] False) (\<lambda>(segments, current, inside).
     if inside then Err (ReInvalidTemplate template ''Unclosed placeholder'')
     else Ok \<lparr>tt_segments = flush_literal segments current, tt_raw = template\<rparr>)"

fun detect_topic_type :: "'q market_data \<Rightarrow> topic_type" where
  "detect_topic_type (MdBook bids asks) = TtBook"
| "detect_topic_type (MdTrade p q s i) = TtTrade"
| "detect_topic_type (MdHeartbeat t) = TtEvent"

fun expand_segment ::
    "(string \<Rightarrow> string) \<Rightarrow> 'q market_event \<Rightarrow> string \<Rightarrow> topic_type \<Rightarrow> template_segment \<Rightarrow> string" where
  "expand_segment lower e prefix t (TLiteral s) = s"
| "expand_segment lower e prefix t TExchange = flash_exchange_as_str (fi_exchange (mev_instrument e))"
| "expand_segment lower e prefix t TBase = lower (fi_base (mev_instrument e))"
| "expand_segment lower e prefix t TQuote = lower (fi_quote (mev_instrument e))"
| "expand_segment lower e prefix t TType = topic_type_as_str t"
| "expand_segment lower e prefix t TPrefix = prefix"

definition expand_with_prefix ::
    "(string \<Rightarrow> string) \<Rightarrow> topic_template \<Rightarrow> 'q market_event \<Rightarrow> string \<Rightarrow> topic_type \<Rightarrow> string" where
  "expand_with_prefix lower tpl e prefix t =
     concat (map (expand_segment lower e prefix t) (tt_segments tpl))"

definition template_expand :: "(string \<Rightarrow> string) \<Rightarrow> topic_template \<Rightarrow> 'q market_event \<Rightarrow> string" where
  "template_expand lower tpl e =
     expand_with_prefix lower tpl e ''market_data'' (detect_topic_type (mev_data e))"

section \<open>The language of a pattern\<close>

text \<open>An exact segment stands for itself, a star for one segment, a hash for any number.\<close>

inductive pattern_language :: "pattern_segment list \<Rightarrow> string list \<Rightarrow> bool" where
  lang_end: "pattern_language [] []"
| lang_exact: "eq_ignore_ascii_case p t \<Longrightarrow> pattern_language ps ts \<Longrightarrow> pattern_language (PExact p # ps) (t # ts)"
| lang_single: "pattern_language ps ts \<Longrightarrow> pattern_language (PSingleWildcard # ps) (t # ts)"
| lang_multi: "pattern_language ps ts \<Longrightarrow> pattern_language (PMultiWildcard # ps) (us @ ts)"

inductive_cases language_end: "pattern_language [] ts"
inductive_cases language_exact: "pattern_language (PExact p # ps) ts"
inductive_cases language_single: "pattern_language (PSingleWildcard # ps) ts"
inductive_cases language_multi: "pattern_language (PMultiWildcard # ps) ts"

lemma match_multi: "match_segments ps ts \<Longrightarrow> match_segments (PMultiWildcard # ps) (us @ ts)"
proof (induction us)
  case Nil
  then show ?case by (cases ts) simp_all
qed simp

lemma match_segments_language: "match_segments ps ts \<longleftrightarrow> pattern_language ps ts"
proof
  show "match_segments ps ts \<Longrightarrow> pattern_language ps ts"
  proof (induction ps ts rule: match_segments.induct)
    case (3 ps)
    then show ?case using lang_multi [of ps "[]" "[]"] by simp
  next
    case (6 ps t ts)
    then consider "pattern_language ps (t # ts)" | "pattern_language (PMultiWildcard # ps) ts" by auto
    then show ?case
    proof cases
      case 1
      then show ?thesis using lang_multi [of ps "t # ts" "[]"] by simp
    next
      case 2
      then obtain us vs where "ts = us @ vs" "pattern_language ps vs" by (rule language_multi)
      then show ?thesis using lang_multi [of ps vs "t # us"] by simp
    qed
  qed (simp_all add: pattern_language.intros)
  show "pattern_language ps ts \<Longrightarrow> match_segments ps ts"
    by (induction rule: pattern_language.induct) (simp_all add: match_multi)
qed

lemma split_dots_not_Nil [simp]: "split_dots s \<noteq> []"
  by (cases s) (simp_all split: list.splits)

text \<open>Joining the pieces with dots gives the topic back; no piece has a dot.\<close>

fun join_dots :: "string list \<Rightarrow> string" where
  "join_dots [] = []"
| "join_dots [s] = s"
| "join_dots (s # ss) = s @ CHR ''.'' # join_dots ss"

lemma join_dots_Cons: "ss \<noteq> [] \<Longrightarrow> join_dots (s # ss) = s @ CHR ''.'' # join_dots ss"
  by (cases ss) simp_all

lemma join_split_dots: "join_dots (split_dots s) = s"
proof (induction s)
  case (Cons c cs)
  obtain p ps where p: "split_dots cs = p # ps" by (cases "split_dots cs") simp_all
  show ?case using Cons p
    by (cases ps) (auto simp: join_dots_Cons)
qed simp

lemma split_dots_dotless: "p \<in> set (split_dots s) \<Longrightarrow> CHR ''.'' \<notin> set p"
  by (induction s arbitrary: p) (auto split: if_splits list.splits)

lemma split_dotless: "CHR ''.'' \<notin> set s \<Longrightarrow> split_dots s = [s]"
  by (induction s) auto

lemma split_dots_append: "CHR ''.'' \<notin> set s \<Longrightarrow> split_dots (s @ CHR ''.'' # cs) = s # split_dots cs"
  by (induction s) auto

lemma split_join_dots: "ss \<noteq> [] \<Longrightarrow> \<forall>s \<in> set ss. CHR ''.'' \<notin> set s \<Longrightarrow> split_dots (join_dots ss) = ss"
  by (induction ss rule: join_dots.induct) (simp_all add: split_dotless split_dots_append)

text \<open>
  A parsed pattern matches exactly the topics of its language: those that cut at their dots into
  segments which the pattern's segments generate. Matching terminates for all inputs.
\<close>

theorem pattern_matches_language:
  "pattern_parse lower p = Ok pat \<Longrightarrow>
   pattern_matches pat topic \<longleftrightarrow>
     (\<exists>ts. ts \<noteq> [] \<and> (\<forall>t \<in> set ts. CHR ''.'' \<notin> set t) \<and> topic = join_dots ts \<and>
        pattern_language (map (pattern_segment_of lower) (split_dots p)) ts)"
proof -
  assume "pattern_parse lower p = Ok pat"
  then have seg: "tp_segments pat = map (pattern_segment_of lower) (split_dots p)"
    by (auto simp: pattern_parse_def split: if_splits)
  show ?thesis
  proof
    assume "pattern_matches pat topic"
    then have "pattern_language (map (pattern_segment_of lower) (split_dots p)) (split_dots topic)"
      by (simp add: pattern_matches_def seg match_segments_language)
    then show "\<exists>ts. ts \<noteq> [] \<and> (\<forall>t \<in> set ts. CHR ''.'' \<notin> set t) \<and> topic = join_dots ts \<and>
        pattern_language (map (pattern_segment_of lower) (split_dots p)) ts"
      by (intro exI [of _ "split_dots topic"]) (auto simp: join_split_dots dest: split_dots_dotless)
  next
    assume "\<exists>ts. ts \<noteq> [] \<and> (\<forall>t \<in> set ts. CHR ''.'' \<notin> set t) \<and> topic = join_dots ts \<and>
        pattern_language (map (pattern_segment_of lower) (split_dots p)) ts"
    then show "pattern_matches pat topic"
      by (auto simp: pattern_matches_def seg match_segments_language split_join_dots)
  qed
qed

theorem pattern_matches_language_witness:
  "\<exists>pat. pattern_parse id ''market.*.#'' = Ok pat \<and>
     (pattern_matches pat ''Market.a'' \<longleftrightarrow>
      (\<exists>ts. ts \<noteq> [] \<and> (\<forall>t \<in> set ts. CHR ''.'' \<notin> set t) \<and> ''Market.a'' = join_dots ts \<and>
        pattern_language (map (pattern_segment_of id) (split_dots ''market.*.#'')) ts))"
proof -
  obtain pat where pat: "pattern_parse id ''market.*.#'' = Ok pat" by (simp add: pattern_parse_def)
  show ?thesis using pattern_matches_language [OF pat, of "''Market.a''"] pat by blast
qed

section \<open>Templates read back\<close>

fun segment_text :: "template_segment \<Rightarrow> string" where
  "segment_text (TLiteral s) = s"
| "segment_text TExchange = ''{exchange}''"
| "segment_text TBase = ''{base}''"
| "segment_text TQuote = ''{quote}''"
| "segment_text TType = ''{type}''"
| "segment_text TPrefix = ''{prefix}''"

definition braceless :: "string \<Rightarrow> bool" where
  "braceless s \<longleftrightarrow> CHR ''{'' \<notin> set s \<and> CHR ''}'' \<notin> set s"

text \<open>Segments as parsing makes them: literals are not empty, have no braces and are not adjacent.\<close>

fun segments_ok :: "template_segment list \<Rightarrow> bool" where
  "segments_ok [] = True"
| "segments_ok (TLiteral s # TLiteral t # segs) = False"
| "segments_ok (TLiteral s # segs) = (s \<noteq> [] \<and> braceless s \<and> segments_ok segs)"
| "segments_ok (seg # segs) = segments_ok segs"

text \<open>What the parser needs of \<open>to_lowercase\<close>: the names of the placeholders are in lower case.\<close>

definition lower_names :: "(string \<Rightarrow> string) \<Rightarrow> bool" where
  "lower_names lower \<longleftrightarrow>
     (\<forall>s \<in> {''exchange'', ''base'', ''quote'', ''type'', ''prefix''}. lower s = s)"

lemma template_loop_literal:
  "braceless s \<Longrightarrow> template_loop lower raw (s @ cs) segs cur inside = template_loop lower raw cs segs (cur @ s) inside"
  by (induction s arbitrary: cur) (auto simp: braceless_def)

lemma template_loop_placeholder:
  assumes "braceless name" "placeholder (lower name) = Some seg"
  shows "template_loop lower raw (''{'' @ name @ ''}'' @ cs) segs cur False =
    template_loop lower raw cs (flush_literal segs cur @ [seg]) [] False"
proof -
  have "template_loop lower raw (''{'' @ name @ ''}'' @ cs) segs cur False =
      template_loop lower raw (name @ ''}'' @ cs) (flush_literal segs cur) [] True" by simp
  also have "\<dots> = template_loop lower raw (''}'' @ cs) (flush_literal segs cur) name True"
    using template_loop_literal [OF assms(1)] by simp
  finally show ?thesis using assms(2) by simp
qed

lemma template_loop_named:
  assumes "lower_names lower" "\<nexists>s. seg = TLiteral s"
  shows "template_loop lower raw (segment_text seg @ cs) segs cur False =
    template_loop lower raw cs (flush_literal segs cur @ [seg]) [] False"
proof -
  obtain name where "segment_text seg = ''{'' @ name @ ''}''" "braceless name" "placeholder (lower name) = Some seg"
  proof (cases seg)
    case TExchange
    then show ?thesis using that [of "''exchange''"] assms(1) by (simp add: lower_names_def placeholder_def braceless_def)
  next
    case TBase
    then show ?thesis using that [of "''base''"] assms(1) by (simp add: lower_names_def placeholder_def braceless_def)
  next
    case TQuote
    then show ?thesis using that [of "''quote''"] assms(1) by (simp add: lower_names_def placeholder_def braceless_def)
  next
    case TType
    then show ?thesis using that [of "''type''"] assms(1) by (simp add: lower_names_def placeholder_def braceless_def)
  next
    case TPrefix
    then show ?thesis using that [of "''prefix''"] assms(1) by (simp add: lower_names_def placeholder_def braceless_def)
  qed (use assms(2) in blast)
  then show ?thesis using template_loop_placeholder [of name lower seg raw cs segs cur] by simp
qed

lemma template_loop_segments:
  assumes "lower_names lower" "segments_ok segs" "cur \<noteq> [] \<Longrightarrow> \<nexists>s ss. segs = TLiteral s # ss"
  shows "\<exists>acc' cur'. template_loop lower raw (concat (map segment_text segs)) acc cur False = Ok (acc', cur', False) \<and>
    flush_literal acc' cur' = flush_literal acc cur @ segs"
  using assms
proof (induction segs arbitrary: acc cur)
  case Nil
  then show ?case by simp
next
  case (Cons seg segs)
  show ?case
  proof (cases "\<exists>s. seg = TLiteral s")
    case True
    then obtain s where seg: "seg = TLiteral s" by blast
    have cur: "cur = []" using Cons.prems(3) seg by blast
    have ok: "s \<noteq> []" "braceless s" "segments_ok segs" "\<nexists>t ss. segs = TLiteral t # ss"
      using Cons.prems(2) seg by (cases segs rule: segments_ok.cases; simp)+
    have "template_loop lower raw (concat (map segment_text (seg # segs))) acc cur False =
        template_loop lower raw (concat (map segment_text segs)) acc s False"
      using template_loop_literal [OF ok(2)] by (simp add: seg cur)
    moreover have "flush_literal acc s = flush_literal acc cur @ [seg]" using ok(1) by (simp add: flush_literal_def cur seg)
    ultimately show ?thesis using Cons.IH [OF Cons.prems(1) ok(3), of s acc] ok(4) by simp
  next
    case False
    have ok: "segments_ok segs" using Cons.prems(2) False by (cases seg) auto
    have "template_loop lower raw (concat (map segment_text (seg # segs))) acc cur False =
        template_loop lower raw (concat (map segment_text segs)) (flush_literal acc cur @ [seg]) [] False"
      using template_loop_named [OF Cons.prems(1), of seg] False by simp
    then show ?thesis using Cons.IH [OF Cons.prems(1) ok, of "[]" "flush_literal acc cur @ [seg]"]
      by (simp add: flush_literal_def [of _ "[]"])
  qed
qed

text \<open>
  A template prints and parses back: for any well-formed segments, parsing their text gives
  exactly these segments, provided lower case leaves the placeholder names alone.
\<close>

theorem template_roundtrip:
  assumes "lower_names lower" "segments_ok segs"
  shows "template_parse lower (concat (map segment_text segs)) =
    Ok \<lparr>tt_segments = segs, tt_raw = concat (map segment_text segs)\<rparr>"
  using template_loop_segments [OF assms, of "[]" "concat (map segment_text segs)" "[]"]
  by (auto simp: template_parse_def flush_literal_def [of "[]" "[]"])

theorem template_roundtrip_witness:
  "template_parse id ''{prefix}.{base}'' =
    Ok \<lparr>tt_segments = [TPrefix, TLiteral ''.'', TBase], tt_raw = ''{prefix}.{base}''\<rparr>"
  using template_roundtrip [of id "[TPrefix, TLiteral ''.'', TBase]"]
  by (simp add: lower_names_def braceless_def)

end
