(* ===== verification/Topic_Router.thy ===== *)
theory Topic_Router
  imports Topic_Pattern "HOL-Library.Multiset"
begin

text \<open>
  \<open>flash/src/publisher/topics.rs\<close>, second half: filters, rules and the router. The statistics sit
  behind a lock and change only inside \<open>route\<close> and \<open>reset_stats\<close>. Rule identifiers come from a
  global atomic counter; a constructor takes the one it draws.
\<close>

section \<open>Filters\<close>

record routing_filter =
  rf_exchanges :: "flash_exchange list"
  rf_topic_types :: "topic_type list"
  rf_base_assets :: "string list"
  rf_quote_assets :: "string list"
  rf_case_insensitive :: bool

definition routing_filter_default :: routing_filter where
  "routing_filter_default =
     \<lparr>rf_exchanges = [], rf_topic_types = [], rf_base_assets = [], rf_quote_assets = [],
      rf_case_insensitive = False\<rparr>"

definition asset_matches :: "(string \<Rightarrow> string) \<Rightarrow> bool \<Rightarrow> string list \<Rightarrow> string \<Rightarrow> bool" where
  "asset_matches lower ci assets a =
     (let a' = (if ci then lower a else a) in
      list_ex (\<lambda>b. if ci then lower b = a' else b = a') assets)"

definition filter_matches :: "(string \<Rightarrow> string) \<Rightarrow> routing_filter \<Rightarrow> 'q market_event \<Rightarrow> bool" where
  "filter_matches lower f e =
     (if rf_exchanges f \<noteq> [] \<and> fi_exchange (mev_instrument e) \<notin> set (rf_exchanges f) then False
      else if rf_topic_types f \<noteq> [] \<and> detect_topic_type (mev_data e) \<notin> set (rf_topic_types f) then False
      else if rf_base_assets f \<noteq> [] \<and>
        \<not> asset_matches lower (rf_case_insensitive f) (rf_base_assets f) (fi_base (mev_instrument e)) then False
      else if rf_quote_assets f \<noteq> [] \<and>
        \<not> asset_matches lower (rf_case_insensitive f) (rf_quote_assets f) (fi_quote (mev_instrument e)) then False
      else True)"

definition filter_exchange :: "flash_exchange \<Rightarrow> routing_filter \<Rightarrow> routing_filter" where
  "filter_exchange x f = f\<lparr>rf_exchanges := rf_exchanges f @ [x]\<rparr>"

definition filter_add_exchanges :: "flash_exchange list \<Rightarrow> routing_filter \<Rightarrow> routing_filter" where
  "filter_add_exchanges xs f = f\<lparr>rf_exchanges := rf_exchanges f @ xs\<rparr>"

definition filter_topic_type :: "topic_type \<Rightarrow> routing_filter \<Rightarrow> routing_filter" where
  "filter_topic_type t f = f\<lparr>rf_topic_types := rf_topic_types f @ [t]\<rparr>"

definition filter_base_asset :: "string \<Rightarrow> routing_filter \<Rightarrow> routing_filter" where
  "filter_base_asset a f = f\<lparr>rf_base_assets := rf_base_assets f @ [a]\<rparr>"

definition filter_quote_asset :: "string \<Rightarrow> routing_filter \<Rightarrow> routing_filter" where
  "filter_quote_asset a f = f\<lparr>rf_quote_assets := rf_quote_assets f @ [a]\<rparr>"

definition filter_case_insensitive :: "bool \<Rightarrow> routing_filter \<Rightarrow> routing_filter" where
  "filter_case_insensitive b f = f\<lparr>rf_case_insensitive := b\<rparr>"

section \<open>Rules\<close>

datatype routing_action = RaRoute | RaRouteAndStop | RaDrop

record routing_rule =
  rr_id :: u64
  rr_name :: string
  rr_pattern :: "topic_pattern option"
  rr_filter :: routing_filter
  rr_targets :: "topic_template list"
  rr_priority :: u32
  rr_enabled :: bool
  rr_action :: routing_action

definition rule_id_display :: "u64 \<Rightarrow> string" where
  "rule_id_display i = ''rule-'' @ show_nat (unat i)"

definition rule_default :: "u64 \<Rightarrow> routing_rule" where
  "rule_default fresh =
     \<lparr>rr_id = fresh, rr_name = [], rr_pattern = None, rr_filter = routing_filter_default,
      rr_targets = [], rr_priority = 100, rr_enabled = True, rr_action = RaRoute\<rparr>"

definition rule_builder_new :: "u64 \<Rightarrow> string \<Rightarrow> routing_rule" where
  "rule_builder_new fresh name = (rule_default fresh)\<lparr>rr_name := name\<rparr>"

definition rule_with_priority :: "u32 \<Rightarrow> routing_rule \<Rightarrow> routing_rule" where
  "rule_with_priority p r = r\<lparr>rr_priority := p\<rparr>"

definition rule_with_enabled :: "bool \<Rightarrow> routing_rule \<Rightarrow> routing_rule" where
  "rule_with_enabled b r = r\<lparr>rr_enabled := b\<rparr>"

definition rule_with_filter :: "routing_filter \<Rightarrow> routing_rule \<Rightarrow> routing_rule" where
  "rule_with_filter f r = r\<lparr>rr_filter := f\<rparr>"

definition rule_with_pattern :: "(string \<Rightarrow> string) \<Rightarrow> string \<Rightarrow> routing_rule \<Rightarrow> routing_rule" where
  "rule_with_pattern lower p r =
     (case pattern_parse lower p of Ok q \<Rightarrow> r\<lparr>rr_pattern := Some q\<rparr> | _ \<Rightarrow> r)"

definition rule_target_template :: "(string \<Rightarrow> string) \<Rightarrow> string \<Rightarrow> routing_rule \<Rightarrow> routing_rule" where
  "rule_target_template lower t r =
     (case template_parse lower t of Ok q \<Rightarrow> r\<lparr>rr_targets := rr_targets r @ [q]\<rparr> | _ \<Rightarrow> r)"

definition rule_with_action :: "routing_action \<Rightarrow> routing_rule \<Rightarrow> routing_rule" where
  "rule_with_action a r = r\<lparr>rr_action := a\<rparr>"

definition default_template_text :: string where
  "default_template_text = ''{prefix}.{exchange}.{base}_{quote}.{type}''"

definition rule_build :: "(string \<Rightarrow> string) \<Rightarrow> routing_rule \<Rightarrow> (routing_rule, routing_error) result" where
  "rule_build lower r =
     (if rr_targets r = []
      then map_ok (\<lambda>t. r\<lparr>rr_targets := [t]\<rparr>) (template_parse lower default_template_text)
      else Ok r)"

section \<open>The router\<close>

record routing_result =
  rs_topics :: "string list"
  rs_matched_rules :: "u64 list"
  rs_dropped :: bool
  rs_latency_us :: u64

record routing_stats =
  rt_events_routed :: u64
  rt_events_matched :: u64
  rt_events_dropped :: u64
  rt_events_unmatched :: u64
  rt_avg_latency_us :: f64
  rt_topics_generated :: u64
  rt_rule_matches :: "u64 \<Rightarrow> u64 option"

definition routing_stats_default :: routing_stats where
  "routing_stats_default =
     \<lparr>rt_events_routed = 0, rt_events_matched = 0, rt_events_dropped = 0, rt_events_unmatched = 0,
      rt_avg_latency_us = FFin 0, rt_topics_generated = 0, rt_rule_matches = Map.empty\<rparr>"

text \<open>The literals \<open>0.2\<close> and \<open>1.0 - 0.2\<close> are the nearest doubles.\<close>

definition latency_alpha :: f64 where
  "latency_alpha = f64_of_rat (2 / 10)"

definition update_latency :: "f64 \<Rightarrow> routing_stats \<Rightarrow> routing_stats" where
  "update_latency l s =
     s\<lparr>rt_avg_latency_us :=
         f64_mul_add latency_alpha l (f64_mul (f64_sub (FFin 1) latency_alpha) (rt_avg_latency_us s))\<rparr>"

record router_config =
  rcf_case_insensitive :: bool
  rcf_default_prefix :: string
  rcf_strict_mode :: bool
  rcf_max_topics_per_event :: usize
  rcf_track_stats :: bool

definition router_config_default :: router_config where
  "router_config_default =
     \<lparr>rcf_case_insensitive = False, rcf_default_prefix = ''market_data'', rcf_strict_mode = False,
      rcf_max_topics_per_event = 10, rcf_track_stats = True\<rparr>"

definition router_config_validate :: "router_config \<Rightarrow> (unit, routing_error) result" where
  "router_config_validate c =
     (if rcf_default_prefix c = [] then Err (ReConfigError ''default_prefix cannot be empty'')
      else if rcf_max_topics_per_event c = 0 then Err (ReConfigError ''max_topics_per_event must be > 0'')
      else Ok ())"

record topic_router =
  ro_rules :: "routing_rule list"
  ro_topic_builder :: topic_builder
  ro_config :: router_config
  ro_stats :: routing_stats

definition router_new :: "(string \<Rightarrow> string) \<Rightarrow> router_config \<Rightarrow> topic_router" where
  "router_new lower c =
     \<lparr>ro_rules = [], ro_topic_builder = topic_builder_new lower (rcf_default_prefix c), ro_config = c,
      ro_stats = routing_stats_default\<rparr>"

text \<open>\<open>sort_by_key\<close> is a stable sort.\<close>

definition add_rule :: "routing_rule \<Rightarrow> topic_router \<Rightarrow> topic_router" where
  "add_rule r ro = ro\<lparr>ro_rules := sort_key (\<lambda>r. unat (rr_priority r)) (ro_rules ro @ [r])\<rparr>"

fun remove_first :: "('a \<Rightarrow> bool) \<Rightarrow> 'a list \<Rightarrow> 'a list" where
  "remove_first P [] = []"
| "remove_first P (x # xs) = (if P x then xs else x # remove_first P xs)"

definition remove_rule :: "u64 \<Rightarrow> topic_router \<Rightarrow> bool \<times> topic_router" where
  "remove_rule i ro =
     (if list_ex (\<lambda>r. rr_id r = i) (ro_rules ro)
      then (True, ro\<lparr>ro_rules := remove_first (\<lambda>r. rr_id r = i) (ro_rules ro)\<rparr>)
      else (False, ro))"

definition get_rule :: "u64 \<Rightarrow> topic_router \<Rightarrow> routing_rule option" where
  "get_rule i ro = find (\<lambda>r. rr_id r = i) (ro_rules ro)"

definition router_build :: "(string \<Rightarrow> string) \<Rightarrow> router_config \<Rightarrow> routing_rule list \<Rightarrow> topic_router" where
  "router_build lower c rules = fold add_rule rules (router_new lower c)"

definition default_topic :: "(string \<Rightarrow> string) \<Rightarrow> topic_router \<Rightarrow> 'q market_event \<Rightarrow> string" where
  "default_topic lower ro e =
     topic_for_instrument lower (ro_topic_builder ro) (mev_instrument e) (detect_topic_type (mev_data e))"

text \<open>The loop over the targets of a rule: an expanded topic is added once.\<close>

fun add_targets ::
    "(string \<Rightarrow> string) \<Rightarrow> router_config \<Rightarrow> 'q market_event \<Rightarrow> topic_template list \<Rightarrow> string list \<Rightarrow> string list" where
  "add_targets lower c e [] topics = topics"
| "add_targets lower c e (t # ts) topics =
     (let topic = expand_with_prefix lower t e (rcf_default_prefix c) (detect_topic_type (mev_data e)) in
      add_targets lower c e ts (if topic \<in> set topics then topics else topics @ [topic]))"

text \<open>The loop over the rules; the result is the topics, the matched rules and the dropped flag.\<close>

fun route_loop ::
    "(string \<Rightarrow> string) \<Rightarrow> router_config \<Rightarrow> 'q market_event \<Rightarrow> routing_rule list \<Rightarrow> string list \<Rightarrow> u64 list \<Rightarrow>
     string list \<times> u64 list \<times> bool" where
  "route_loop lower c e [] topics ids = (topics, ids, False)"
| "route_loop lower c e (r # rs) topics ids =
     (if \<not> rr_enabled r then route_loop lower c e rs topics ids
      else if \<not> filter_matches lower (rr_filter r) e then route_loop lower c e rs topics ids
      else
        (case rr_action r of
           RaRoute \<Rightarrow>
             let topics' = add_targets lower c e (rr_targets r) topics in
             if length topics' \<ge> rcf_max_topics_per_event c
             then (take (rcf_max_topics_per_event c) topics', ids @ [rr_id r], False)
             else route_loop lower c e rs topics' (ids @ [rr_id r])
         | RaRouteAndStop \<Rightarrow> (add_targets lower c e (rr_targets r) topics, ids @ [rr_id r], False)
         | RaDrop \<Rightarrow> ([], ids @ [rr_id r], True)))"

definition u64_add :: "u64 \<Rightarrow> u64 \<Rightarrow> (u64, 'e) result" where
  "u64_add a b = (if unat a + unat b < 2 ^ 64 then Ok (a + b) else Panic)"

fun count_rule_matches :: "u64 list \<Rightarrow> (u64 \<Rightarrow> u64 option) \<Rightarrow> (u64 \<Rightarrow> u64 option, 'e) result" where
  "count_rule_matches [] m = Ok m"
| "count_rule_matches (i # is) m =
     rbind (u64_incr (case m i of None \<Rightarrow> 0 | Some n \<Rightarrow> n)) (\<lambda>n. count_rule_matches is (m(i \<mapsto> n)))"

definition count_route :: "bool \<Rightarrow> routing_result \<Rightarrow> routing_stats \<Rightarrow> (routing_stats, 'e) result" where
  "count_route matched r s =
     rbind (u64_incr (rt_events_routed s)) (\<lambda>routed.
     rbind (if matched then u64_incr (rt_events_matched s) else Ok (rt_events_matched s)) (\<lambda>m.
     rbind (if matched then Ok (rt_events_unmatched s) else u64_incr (rt_events_unmatched s)) (\<lambda>u.
     rbind (if rs_dropped r then u64_incr (rt_events_dropped s) else Ok (rt_events_dropped s)) (\<lambda>d.
     rbind (u64_add (rt_topics_generated s) (of_nat (length (rs_topics r)))) (\<lambda>g.
     rbind (count_rule_matches (rs_matched_rules r) (rt_rule_matches s)) (\<lambda>rm.
     Ok ((update_latency (f64_of_int (uint (rs_latency_us r))) s)
          \<lparr>rt_events_routed := routed, rt_events_matched := m, rt_events_unmatched := u,
           rt_events_dropped := d, rt_topics_generated := g, rt_rule_matches := rm\<rparr>)))))))"

definition route ::
    "(string \<Rightarrow> string) \<Rightarrow> u64 \<Rightarrow> 'q market_event \<Rightarrow> topic_router \<Rightarrow> (routing_result \<times> topic_router, 'e) result" where
  "route lower us e ro =
     (let c = ro_config ro;
          (topics, ids, dropped) = route_loop lower c e (ro_rules ro) [] [];
          matched = (ids \<noteq> []);
          topics' = (if \<not> matched \<and> \<not> rcf_strict_mode c then topics @ [default_topic lower ro e] else topics);
          r = \<lparr>rs_topics = topics', rs_matched_rules = ids, rs_dropped = dropped, rs_latency_us = us\<rparr> in
      if rcf_track_stats c
      then map_ok (\<lambda>s. (r, ro\<lparr>ro_stats := s\<rparr>)) (count_route matched r (ro_stats ro))
      else Ok (r, ro))"

definition router_reset_stats :: "topic_router \<Rightarrow> topic_router" where
  "router_reset_stats ro = ro\<lparr>ro_stats := routing_stats_default\<rparr>"

section \<open>The rules stay sorted\<close>

abbreviation rule_key :: "routing_rule \<Rightarrow> nat" where
  "rule_key r \<equiv> unat (rr_priority r)"

lemma sort_key_snoc: "sort_key f (sort_key f xs @ [x]) = sort_key f (xs @ [x])"
proof -
  have stable: "filter (\<lambda>y. f k = f y) (sort_key f zs) = filter (\<lambda>y. f k = f y) zs" for k zs
    using sort_key_stable [of f "f k" zs] by (metis (mono_tags, lifting) filter_cong)
  show ?thesis by (rule properties_for_sort_key) (simp_all only: stable filter_append mset_append mset_sort sorted_sort_key)
qed

lemma router_build_rules: "ro_rules (router_build lower c rules) = sort_key rule_key rules"
proof (induction rules rule: rev_induct)
  case Nil
  then show ?case by (simp add: router_build_def router_new_def)
next
  case (snoc r rules)
  then show ?case by (simp add: router_build_def add_rule_def sort_key_snoc)
qed

lemma router_build_config [simp]: "ro_config (router_build lower c rules) = c"
  by (induction rules rule: rev_induct) (simp_all add: router_build_def router_new_def add_rule_def)

section \<open>What a route is\<close>

text \<open>The rules that apply to an event, and the topics they ask for.\<close>

definition live_rules :: "(string \<Rightarrow> string) \<Rightarrow> 'q market_event \<Rightarrow> routing_rule list \<Rightarrow> routing_rule list" where
  "live_rules lower e rs = filter (\<lambda>r. rr_enabled r \<and> filter_matches lower (rr_filter r) e) rs"

definition wanted :: "(string \<Rightarrow> string) \<Rightarrow> router_config \<Rightarrow> 'q market_event \<Rightarrow> routing_rule list \<Rightarrow> string set" where
  "wanted lower c e rs =
     {expand_with_prefix lower t e (rcf_default_prefix c) (detect_topic_type (mev_data e)) |
        t r. r \<in> set rs \<and> t \<in> set (rr_targets r)}"

lemma wanted_Cons: "wanted lower c e (r # rs) = wanted lower c e [r] \<union> wanted lower c e rs"
  by (auto simp: wanted_def)

lemma wanted_Nil [simp]: "wanted lower c e [] = {}"
  by (simp add: wanted_def)

lemma add_targets_set:
  "set (add_targets lower c e ts topics) = set topics \<union>
     (\<lambda>t. expand_with_prefix lower t e (rcf_default_prefix c) (detect_topic_type (mev_data e))) ` set ts"
  by (induction ts arbitrary: topics) (auto simp: Let_def)

lemma add_targets_distinct: "distinct topics \<Longrightarrow> distinct (add_targets lower c e ts topics)"
  by (induction ts arbitrary: topics) (simp_all add: Let_def)

lemma add_rule_targets: "set (add_targets lower c e (rr_targets r) topics) = set topics \<union> wanted lower c e [r]"
  by (auto simp: add_targets_set wanted_def)

text \<open>The outcome of the loop: \<open>k\<close> rules were taken before it stopped.\<close>

definition route_outcome ::
    "(string \<Rightarrow> string) \<Rightarrow> router_config \<Rightarrow> 'q market_event \<Rightarrow> routing_rule list \<Rightarrow> string set \<Rightarrow> nat \<Rightarrow>
     string list \<Rightarrow> bool \<Rightarrow> bool" where
  "route_outcome lower c e live before k topics dropped \<longleftrightarrow>
     k \<le> length live \<and> (\<forall>i. Suc i < k \<longrightarrow> rr_action (live ! i) = RaRoute) \<and>
     (k < length live \<longrightarrow> 0 < k \<and>
        (rr_action (live ! (k - 1)) \<noteq> RaRoute \<or> length topics = rcf_max_topics_per_event c)) \<and>
     (dropped \<longleftrightarrow> 0 < k \<and> rr_action (live ! (k - 1)) = RaDrop) \<and>
     (dropped \<longrightarrow> topics = []) \<and> distinct topics \<and>
     (\<not> dropped \<longrightarrow> set topics \<subseteq> before \<union> wanted lower c e (take k live) \<and>
        (length topics < rcf_max_topics_per_event c \<longrightarrow> set topics = before \<union> wanted lower c e (take k live)))"

lemma route_outcome_Cons:
  assumes "route_outcome lower c e live (before \<union> wanted lower c e [r]) k topics dropped"
    and "rr_action r = RaRoute"
  shows "route_outcome lower c e (r # live) before (Suc k) topics dropped"
proof -
  have "(Suc i < Suc k \<longrightarrow> rr_action ((r # live) ! i) = RaRoute)" for i
    using assms by (cases i) (auto simp: route_outcome_def)
  moreover have "(dropped \<longleftrightarrow> rr_action ((r # live) ! k) = RaDrop)"
    "k < length live \<longrightarrow> rr_action ((r # live) ! k) \<noteq> RaRoute \<or> length topics = rcf_max_topics_per_event c"
    using assms by (cases k; auto simp: route_outcome_def)+
  ultimately show ?thesis using assms(1)
    by (auto simp: route_outcome_def wanted_Cons [of lower c e r "take k live"])
qed

lemma route_loop_outcome:
  assumes "distinct topics"
  shows "\<exists>k topics' dropped. route_loop lower c e rs topics ids =
      (topics', ids @ map rr_id (take k (live_rules lower e rs)), dropped) \<and>
    route_outcome lower c e (live_rules lower e rs) (set topics) k topics' dropped"
  using assms
proof (induction rs arbitrary: topics ids)
  case Nil
  then show ?case by (auto simp: route_outcome_def live_rules_def)
next
  case (Cons r rs)
  let ?live = "live_rules lower e rs"
  show ?case
  proof (cases "rr_enabled r \<and> filter_matches lower (rr_filter r) e")
    case False
    then have "route_loop lower c e (r # rs) topics ids = route_loop lower c e rs topics ids"
      "live_rules lower e (r # rs) = ?live" by (auto simp: live_rules_def)
    then show ?thesis using Cons.IH [OF Cons.prems, of ids] by simp
  next
    case True
    then have live: "live_rules lower e (r # rs) = r # ?live" by (simp add: live_rules_def)
    define added where "added = add_targets lower c e (rr_targets r) topics"
    have added: "set added = set topics \<union> wanted lower c e [r]" "distinct added"
      using Cons.prems by (simp_all add: added_def add_rule_targets add_targets_distinct)
    have loop: "route_loop lower c e (r # rs) topics ids =
        (case rr_action r of
           RaRoute \<Rightarrow>
             if length added \<ge> rcf_max_topics_per_event c
             then (take (rcf_max_topics_per_event c) added, ids @ [rr_id r], False)
             else route_loop lower c e rs added (ids @ [rr_id r])
         | RaRouteAndStop \<Rightarrow> (added, ids @ [rr_id r], False)
         | RaDrop \<Rightarrow> ([], ids @ [rr_id r], True))"
      using True by (cases "rr_action r") (simp_all add: added_def Let_def)
    note route_loop.simps [simp del]
    have stop: "\<exists>k topics' dropped. route_loop lower c e (r # rs) topics ids =
          (topics', ids @ map rr_id (take k (r # ?live)), dropped) \<and>
        route_outcome lower c e (r # ?live) (set topics) k topics' dropped"
      if "route_loop lower c e (r # rs) topics ids = (ts, ids @ [rr_id r], d)"
        "route_outcome lower c e (r # ?live) (set topics) 1 ts d" for ts d
      using that by (intro exI [of _ 1] exI [of _ ts] exI [of _ d]) simp
    show ?thesis unfolding live
    proof (cases "rr_action r")
      case RaRoute
      show "\<exists>k topics' dropped. route_loop lower c e (r # rs) topics ids =
          (topics', ids @ map rr_id (take k (r # ?live)), dropped) \<and>
        route_outcome lower c e (r # ?live) (set topics) k topics' dropped"
      proof (cases "length added \<ge> rcf_max_topics_per_event c")
        case True
        have "set (take (rcf_max_topics_per_event c) added) \<subseteq> set added" by (rule set_take_subset)
        then have "route_outcome lower c e (r # ?live) (set topics) 1 (take (rcf_max_topics_per_event c) added) False"
          using True added RaRoute by (auto simp: route_outcome_def distinct_take)
        then show ?thesis by (rule stop [rotated]) (use True in \<open>simp add: loop RaRoute\<close>)
      next
        case False
        obtain k topics' dropped where ih: "route_loop lower c e rs added (ids @ [rr_id r]) =
            (topics', (ids @ [rr_id r]) @ map rr_id (take k ?live), dropped)"
            "route_outcome lower c e ?live (set added) k topics' dropped"
          using Cons.IH [OF added(2), of "ids @ [rr_id r]"] by blast
        have "route_outcome lower c e (r # ?live) (set topics) (Suc k) topics' dropped"
          using route_outcome_Cons [OF ih(2) [unfolded added(1)] RaRoute] .
        then show ?thesis using False ih(1)
          by (intro exI [of _ "Suc k"] exI [of _ topics'] exI [of _ dropped]) (simp add: loop RaRoute)
      qed
    next
      case RaRouteAndStop
      have "route_outcome lower c e (r # ?live) (set topics) 1 added False"
        using added RaRouteAndStop by (simp add: route_outcome_def)
      then show "\<exists>k topics' dropped. route_loop lower c e (r # rs) topics ids =
          (topics', ids @ map rr_id (take k (r # ?live)), dropped) \<and>
        route_outcome lower c e (r # ?live) (set topics) k topics' dropped"
        by (rule stop [rotated]) (simp add: loop RaRouteAndStop)
    next
      case RaDrop
      have "route_outcome lower c e (r # ?live) (set topics) 1 [] True"
        using RaDrop by (simp add: route_outcome_def)
      then show "\<exists>k topics' dropped. route_loop lower c e (r # rs) topics ids =
          (topics', ids @ map rr_id (take k (r # ?live)), dropped) \<and>
        route_outcome lower c e (r # ?live) (set topics) k topics' dropped"
        by (rule stop [rotated]) (simp add: loop RaDrop)
    qed
  qed
qed

lemma route_Ok:
  assumes "route lower us e ro = Ok (r, ro')"
    and "route_loop lower (ro_config ro) e (ro_rules ro) [] [] = (topics, ids, dropped)"
  shows "rs_matched_rules r = ids" "rs_dropped r = dropped"
    "rs_topics r = (if ids = [] \<and> \<not> rcf_strict_mode (ro_config ro)
       then topics @ [default_topic lower ro e] else topics)"
  using assms by (auto simp: route_def Let_def map_ok_Ok_iff split: if_splits)

text \<open>
  C10: Routing through a built router: the matched rules are the first \<open>k\<close> applicable ones in the order
  of priority (and of insertion within a priority); all but the last are of kind \<open>Route\<close>, and the
  search stops early only at a rule of another kind or when the topics are full; an event is dropped
  exactly by a final \<open>Drop\<close> rule, and then has no topic; topics are distinct, come from targets of
  matched rules, and all of them are there unless the limit cut the list; an event without an
  applicable rule goes to the default topic, or nowhere in strict mode.
\<close>

theorem route_correct:
  assumes "route lower us e (router_build lower c rules) = Ok (r, ro')"
    and "live = live_rules lower e (sort_key rule_key rules)"
  shows "\<exists>k \<le> length live. rs_matched_rules r = map rr_id (take k live) \<and>
    (\<forall>i. Suc i < k \<longrightarrow> rr_action (live ! i) = RaRoute) \<and>
    (k < length live \<longrightarrow> 0 < k \<and>
       (rr_action (live ! (k - 1)) \<noteq> RaRoute \<or> length (rs_topics r) = rcf_max_topics_per_event c)) \<and>
    (rs_dropped r \<longleftrightarrow> 0 < k \<and> rr_action (live ! (k - 1)) = RaDrop) \<and>
    (rs_dropped r \<longrightarrow> rs_topics r = []) \<and> distinct (rs_topics r) \<and>
    (if live = []
     then rs_topics r = (if rcf_strict_mode c then [] else [default_topic lower (router_build lower c rules) e])
     else rs_dropped r \<or>
       set (rs_topics r) \<subseteq> wanted lower c e (take k live) \<and>
       (length (rs_topics r) < rcf_max_topics_per_event c \<longrightarrow>
          set (rs_topics r) = wanted lower c e (take k live)))"
proof -
  let ?ro = "router_build lower c rules"
  obtain k topics dropped where loop: "route_loop lower c e (ro_rules ?ro) [] [] =
      (topics, [] @ map rr_id (take k live), dropped)"
    and out: "route_outcome lower c e live (set []) k topics dropped"
    using route_loop_outcome [of "[]" lower c e "ro_rules ?ro" "[]"]
    unfolding router_build_rules assms(2) [symmetric] by auto
  have r: "rs_matched_rules r = map rr_id (take k live)" "rs_dropped r = dropped"
    "rs_topics r = (if take k live = [] \<and> \<not> rcf_strict_mode c then topics @ [default_topic lower ?ro e] else topics)"
    using route_Ok [OF assms(1), of topics "map rr_id (take k live)" dropped] loop by simp_all
  have "take k live = [] \<longleftrightarrow> live = []" using out by (cases k) (auto simp: route_outcome_def)
  then show ?thesis using out r
    by (intro exI [of _ k]) (auto simp: route_outcome_def)
qed

definition sample_event :: "int market_event" where
  "sample_event = \<lparr>mev_event_type = MeTrade,
     mev_instrument = flash_instrument_new ''BTC'' ''USD'' FxDeribit ''BTC-PERPETUAL'',
     mev_timestamp = 1, mev_local_timestamp = 2, mev_sequence = None,
     mev_data = MdTrade (FFin 100) 1 Bid None\<rparr>"

definition plain_template :: "string \<Rightarrow> topic_template" where
  "plain_template s = \<lparr>tt_segments = [TLiteral s], tt_raw = s\<rparr>"

definition sample_rule :: "u64 \<Rightarrow> u32 \<Rightarrow> routing_action \<Rightarrow> string list \<Rightarrow> routing_rule" where
  "sample_rule i p a ts =
     (rule_default i)\<lparr>rr_priority := p, rr_action := a, rr_targets := map plain_template ts\<rparr>"

definition small_router_config :: router_config where
  "small_router_config =
     router_config_default\<lparr>rcf_max_topics_per_event := 2, rcf_track_stats := False\<rparr>"

lemmas sample_rule_defs = sample_rule_def rule_default_def routing_filter_default_def plain_template_def
  small_router_config_def router_config_default_def

lemma sample_route:
  "route id 3 sample_event (router_build id small_router_config
      [sample_rule 2 20 RaRouteAndStop [''c''], sample_rule 1 10 RaRoute [''a'', ''b'']]) =
    (Ok (\<lparr>rs_topics = [''a'', ''b''], rs_matched_rules = [1], rs_dropped = False, rs_latency_us = 3\<rparr>,
      router_build id small_router_config
        [sample_rule 2 20 RaRouteAndStop [''c''], sample_rule 1 10 RaRoute [''a'', ''b'']]) :: (_, unit) result)"
  by (simp add: route_def router_build_rules sample_rule_defs filter_matches_def expand_with_prefix_def Let_def)

theorem route_correct_witness:
  "\<exists>r ro'. route id 3 sample_event (router_build id small_router_config
      [sample_rule 2 20 RaRouteAndStop [''c''], sample_rule 1 10 RaRoute [''a'', ''b'']]) =
        (Ok (r, ro') :: (_, unit) result) \<and> distinct (rs_topics r) \<and> rs_topics r = [''a'', ''b'']"
  using route_correct [OF sample_route refl] sample_route by fastforce

text \<open>
  Two gaps of the router. A stopping rule leaves the loop before the limit is enforced, so an event
  can have more topics than \<open>max_topics_per_event\<close>; and the pattern of a rule is never consulted.
\<close>

theorem stop_rule_exceeds_limit:
  "\<exists>r ro'. route id 3 sample_event (router_build id small_router_config
      [sample_rule 1 10 RaRouteAndStop [''a'', ''b'', ''c'']]) = (Ok (r, ro') :: (_, unit) result) \<and>
     length (rs_topics r) > rcf_max_topics_per_event small_router_config"
  by (simp add: route_def router_build_rules sample_rule_defs filter_matches_def expand_with_prefix_def Let_def)

lemma route_loop_ignores_patterns:
  "route_loop lower c e (map (\<lambda>r. r\<lparr>rr_pattern := f r\<rparr>) rs) topics ids = route_loop lower c e rs topics ids"
  by (induction rs arbitrary: topics ids) (simp_all add: Let_def split: routing_action.splits)

theorem patterns_ignored:
  "route_loop lower c e (map (\<lambda>r. r\<lparr>rr_pattern := f r\<rparr>) (ro_rules ro)) [] [] =
   route_loop lower c e (ro_rules ro) [] []"
  by (rule route_loop_ignores_patterns)

end
