(* ===== verification/Book_Snapshot.thy ===== *)
theory Book_Snapshot
  imports Order_Book
begin

text \<open>
  \<open>flash/src/book/snapshot.rs\<close>: validation, application and comparison of snapshots. The JSON and
  bincode forms belong to crates outside the repository and are left out. \<open>show_f64\<close> is the
  \<open>Display\<close> of a double, used in error texts only.
\<close>

section \<open>Errors and configuration\<close>

datatype snapshot_error =
    SnInvalidPrice f64 usize string
  | SnInvalidQuantity f64 string
  | SnCrossedBook f64 f64
  | SnSequenceGap u64 u64
  | SnDuplicateLevel f64 string
  | SnEmptySnapshot string
  | SnSerializationError string
  | SnDeserializationError string

record snapshot_validation =
  sv_allow_crossed :: bool
  sv_max_price :: f64
  sv_min_price :: f64
  sv_allow_duplicates :: bool
  sv_min_levels_per_side :: usize
  sv_allow_empty_side :: bool

definition snapshot_validation_default :: snapshot_validation where
  "snapshot_validation_default =
     \<lparr>sv_allow_crossed = False, sv_max_price = FFin 1000000000000, sv_min_price = FFin 0,
      sv_allow_duplicates = False, sv_min_levels_per_side = 0, sv_allow_empty_side = True\<rparr>"

section \<open>The validator\<close>

text \<open>The loop over the levels of a side; \<open>i\<close> is the index of the first one.\<close>

fun validate_side ::
    "(f64 \<Rightarrow> string) \<Rightarrow> snapshot_validation \<Rightarrow> string \<Rightarrow> nat \<Rightarrow> 'q::linordered_ab_group_add price_level list \<Rightarrow>
     (unit, snapshot_error) result" where
  "validate_side show_f64 c side i [] = Ok ()"
| "validate_side show_f64 c side i (l # ls) =
     (let p = pl_price l in
      if p = FNaN \<or> p = FInf True \<or> p = FInf False
      then Err (SnInvalidPrice p i ''Price is NaN or Infinite'')
      else if f64_less p (sv_min_price c)
      then Err (SnInvalidPrice p i
             (''Price below minimum '' @ show_f64 (sv_min_price c) @ '' on '' @ side @ '' side''))
      else if f64_less (sv_max_price c) p
      then Err (SnInvalidPrice p i
             (''Price above maximum '' @ show_f64 (sv_max_price c) @ '' on '' @ side @ '' side''))
      else if pl_quantity l < 0
      then Err (SnInvalidQuantity p ''Negative quantity'')
      else validate_side show_f64 c side (i + 1) ls)"

text \<open>The set of prices seen so far is a list here.\<close>

fun check_duplicates :: "string \<Rightarrow> ordered_float list \<Rightarrow> 'q price_level list \<Rightarrow> (unit, snapshot_error) result" where
  "check_duplicates side seen [] = Ok ()"
| "check_duplicates side seen (l # ls) =
     (if OrderedFloat (pl_price l) \<in> set seen
      then Err (SnDuplicateLevel (pl_price l) side)
      else check_duplicates side (OrderedFloat (pl_price l) # seen) ls)"

text \<open>\<open>max_by\<close> keeps the last of equal elements, \<open>min_by\<close> the first; NaN compares as equal.\<close>

fun max_price_level :: "'q price_level \<Rightarrow> 'q price_level list \<Rightarrow> 'q price_level" where
  "max_price_level b [] = b"
| "max_price_level b (l # ls) = max_price_level (if f64_less (pl_price l) (pl_price b) then b else l) ls"

fun min_price_level :: "'q price_level \<Rightarrow> 'q price_level list \<Rightarrow> 'q price_level" where
  "min_price_level b [] = b"
| "min_price_level b (l # ls) = min_price_level (if f64_less (pl_price l) (pl_price b) then l else b) ls"

text \<open>\<open>a >= b\<close> on doubles.\<close>

definition f64_at_least :: "f64 \<Rightarrow> f64 \<Rightarrow> bool" where
  "f64_at_least a b \<longleftrightarrow> a \<noteq> FNaN \<and> b \<noteq> FNaN \<and> \<not> f64_total_less a b"

definition check_crossed :: "'q price_level list \<Rightarrow> 'q price_level list \<Rightarrow> (unit, snapshot_error) result" where
  "check_crossed bids asks =
     (case (bids, asks) of
        (b # bs, a # as) \<Rightarrow>
          let bid = max_price_level b bs; ask = min_price_level a as in
          if f64_at_least (pl_price bid) (pl_price ask)
          then Err (SnCrossedBook (pl_price bid) (pl_price ask)) else Ok ()
      | _ \<Rightarrow> Ok ())"

definition validate_snapshot ::
    "(f64 \<Rightarrow> string) \<Rightarrow> snapshot_validation \<Rightarrow> 'q::linordered_ab_group_add price_level list \<Rightarrow>
     'q price_level list \<Rightarrow> (unit, snapshot_error) result" where
  "validate_snapshot show_f64 c bids asks =
     rbind (validate_side show_f64 c ''bid'' 0 bids) (\<lambda>_.
     rbind (validate_side show_f64 c ''ask'' 0 asks) (\<lambda>_.
     if bids = [] \<and> asks = [] \<and> (\<not> sv_allow_empty_side c \<or> sv_min_levels_per_side c > 0)
     then Err (SnEmptySnapshot ''Both sides empty'')
     else if \<not> sv_allow_empty_side c \<and> bids = [] \<and> asks \<noteq> []
     then Err (SnEmptySnapshot ''Bid side empty'')
     else if \<not> sv_allow_empty_side c \<and> asks = [] \<and> bids \<noteq> []
     then Err (SnEmptySnapshot ''Ask side empty'')
     else if length bids < sv_min_levels_per_side c \<and> bids \<noteq> []
     then Err (SnEmptySnapshot (''Only '' @ show_nat (length bids) @ '' bids, need '' @
            show_nat (sv_min_levels_per_side c)))
     else if length asks < sv_min_levels_per_side c \<and> asks \<noteq> []
     then Err (SnEmptySnapshot (''Only '' @ show_nat (length asks) @ '' asks, need '' @
            show_nat (sv_min_levels_per_side c)))
     else
       rbind (if \<not> sv_allow_crossed c then check_crossed bids asks else Ok ()) (\<lambda>_.
       if \<not> sv_allow_duplicates c
       then rbind (check_duplicates ''bid'' [] bids) (\<lambda>_. check_duplicates ''ask'' [] asks)
       else Ok ())))"

section \<open>Differences\<close>

record 'q level_change =
  lc_price :: f64
  lc_old_quantity :: 'q
  lc_new_quantity :: 'q

definition quantity_delta :: "'q::linordered_ab_group_add level_change \<Rightarrow> 'q" where
  "quantity_delta c = lc_new_quantity c - lc_old_quantity c"

record 'q snapshot_diff =
  sd_added_bids :: "'q price_level list"
  sd_removed_bids :: "f64 list"
  sd_modified_bids :: "'q level_change list"
  sd_added_asks :: "'q price_level list"
  sd_removed_asks :: "f64 list"
  sd_modified_asks :: "'q level_change list"
  sd_best_bid_changed :: bool
  sd_best_ask_changed :: bool
  sd_spread_changed :: bool

definition diff_is_empty :: "'q snapshot_diff \<Rightarrow> bool" where
  "diff_is_empty d \<longleftrightarrow> sd_added_bids d = [] \<and> sd_removed_bids d = [] \<and> sd_modified_bids d = [] \<and>
     sd_added_asks d = [] \<and> sd_removed_asks d = [] \<and> sd_modified_asks d = []"

definition total_bid_changes :: "'q snapshot_diff \<Rightarrow> usize" where
  "total_bid_changes d =
     length (sd_added_bids d) + length (sd_removed_bids d) + length (sd_modified_bids d)"

definition total_ask_changes :: "'q snapshot_diff \<Rightarrow> usize" where
  "total_ask_changes d =
     length (sd_added_asks d) + length (sd_removed_asks d) + length (sd_modified_asks d)"

definition total_changes :: "'q snapshot_diff \<Rightarrow> usize" where
  "total_changes d = total_bid_changes d + total_ask_changes d"

text \<open>A side collected into a hash map: the last level of a price stays.\<close>

definition level_table :: "'q price_level list \<Rightarrow> ordered_float \<Rightarrow> 'q price_level option" where
  "level_table ls = map_of (rev (map level_entry ls))"

text \<open>The loop over the new levels, and the one over the old levels.\<close>

fun diff_new ::
    "(ordered_float \<Rightarrow> 'q price_level option) \<Rightarrow> 'q price_level list \<Rightarrow> 'q price_level list \<times> 'q level_change list" where
  "diff_new old [] = ([], [])"
| "diff_new old (l # ls) =
     (let (added, modified) = diff_new old ls in
      case old (OrderedFloat (pl_price l)) of
        None \<Rightarrow> (l # added, modified)
      | Some o' \<Rightarrow>
          if pl_quantity o' \<noteq> pl_quantity l
          then (added, \<lparr>lc_price = pl_price l, lc_old_quantity = pl_quantity o',
                        lc_new_quantity = pl_quantity l\<rparr> # modified)
          else (added, modified))"

definition diff_removed ::
    "(ordered_float \<Rightarrow> 'q price_level option) \<Rightarrow> 'q price_level list \<Rightarrow> f64 list" where
  "diff_removed new ls =
     map pl_price (filter (\<lambda>l. new (OrderedFloat (pl_price l)) = None) ls)"

definition first_price :: "'q price_level list \<Rightarrow> f64 option" where
  "first_price ls = (case ls of [] \<Rightarrow> None | l # _ \<Rightarrow> Some (pl_price l))"

definition spread_of :: "f64 option \<Rightarrow> f64 option \<Rightarrow> f64 option" where
  "spread_of bid ask = (case (bid, ask) of (Some b, Some a) \<Rightarrow> Some (f64_sub a b) | _ \<Rightarrow> None)"

fun option_f64_eq :: "f64 option \<Rightarrow> f64 option \<Rightarrow> bool" where
  "option_f64_eq None None = True"
| "option_f64_eq (Some a) (Some b) = f64_eq a b"
| "option_f64_eq _ _ = False"

definition snapshot_diff_of :: "'q book_snapshot \<Rightarrow> 'q book_snapshot \<Rightarrow> 'q snapshot_diff" where
  "snapshot_diff_of old new =
     (let (ab, mb) = diff_new (level_table (bsn_bids old)) (bsn_bids new);
          (aa, ma) = diff_new (level_table (bsn_asks old)) (bsn_asks new);
          ob = first_price (bsn_bids old); nb = first_price (bsn_bids new);
          oa = first_price (bsn_asks old); na = first_price (bsn_asks new) in
      \<lparr>sd_added_bids = ab, sd_removed_bids = diff_removed (level_table (bsn_bids new)) (bsn_bids old),
       sd_modified_bids = mb,
       sd_added_asks = aa, sd_removed_asks = diff_removed (level_table (bsn_asks new)) (bsn_asks old),
       sd_modified_asks = ma,
       sd_best_bid_changed = (\<not> option_f64_eq ob nb), sd_best_ask_changed = (\<not> option_f64_eq oa na),
       sd_spread_changed = (\<not> option_f64_eq (spread_of ob oa) (spread_of nb na))\<rparr>)"

section \<open>Metadata\<close>

record snapshot_metadata =
  smd_sequence :: "u64 option"
  smd_exchange_timestamp :: i64
  smd_local_timestamp :: i64
  smd_bid_count :: usize
  smd_ask_count :: usize
  smd_best_bid :: "f64 option"
  smd_best_ask :: "f64 option"
  smd_spread :: "f64 option"
  smd_checksum :: "u64 option"
  smd_byte_size :: "usize option"

definition metadata_from_snapshot :: "i64 \<Rightarrow> 'q book_snapshot \<Rightarrow> u64 option \<Rightarrow> snapshot_metadata" where
  "metadata_from_snapshot now s sequence =
     (let bid = first_price (bsn_bids s); ask = first_price (bsn_asks s) in
      \<lparr>smd_sequence = sequence, smd_exchange_timestamp = bsn_timestamp s, smd_local_timestamp = now,
       smd_bid_count = length (bsn_bids s), smd_ask_count = length (bsn_asks s),
       smd_best_bid = bid, smd_best_ask = ask, smd_spread = spread_of bid ask,
       smd_checksum = None, smd_byte_size = None\<rparr>)"

definition price_int :: "'q price_level \<Rightarrow> u64" where
  "price_int l = f64_as_u64 (f64_mul (pl_price l) (FFin 100000000))"

definition compute_checksum :: "'q book_snapshot \<Rightarrow> u64" where
  "compute_checksum s =
     fold (\<lambda>l c. c XOR price_int l) (bsn_asks s) (fold (\<lambda>l c. c XOR price_int l) (bsn_bids s) 0)"

section \<open>The processor\<close>

record snapshot_processor_config =
  spc_validate_before_apply :: bool
  spc_compute_diff :: bool
  spc_compute_checksum :: bool
  spc_validation :: snapshot_validation

definition snapshot_processor_config_default :: snapshot_processor_config where
  "snapshot_processor_config_default =
     \<lparr>spc_validate_before_apply = True, spc_compute_diff = False, spc_compute_checksum = False,
      spc_validation = snapshot_validation_default\<rparr>"

record snapshot_processor_stats =
  sps_snapshots_processed :: u64
  sps_snapshots_validated :: u64
  sps_validation_failures :: u64
  sps_sequence_gaps_detected :: u64
  sps_diffs_computed :: u64
  sps_last_processing_time_us :: u64

definition snapshot_processor_stats_default :: snapshot_processor_stats where
  "snapshot_processor_stats_default =
     \<lparr>sps_snapshots_processed = 0, sps_snapshots_validated = 0, sps_validation_failures = 0,
      sps_sequence_gaps_detected = 0, sps_diffs_computed = 0, sps_last_processing_time_us = 0\<rparr>"

record snapshot_processor =
  sp_validator :: snapshot_validation
  sp_last_sequence :: "u64 option"
  sp_config :: snapshot_processor_config
  sp_stats :: snapshot_processor_stats

definition snapshot_processor_new :: "snapshot_processor_config \<Rightarrow> snapshot_processor" where
  "snapshot_processor_new c =
     \<lparr>sp_validator = spc_validation c, sp_last_sequence = None, sp_config = c,
      sp_stats = snapshot_processor_stats_default\<rparr>"

definition apply_with_validation ::
    "(f64 \<Rightarrow> string) \<Rightarrow> snapshot_processor \<Rightarrow> 'q::linordered_ab_group_add price_level list \<Rightarrow>
     'q price_level list \<Rightarrow> i64 \<Rightarrow> 'q order_book \<Rightarrow> ('q order_book, snapshot_error) result" where
  "apply_with_validation show_f64 p bids asks ts book =
     rbind (if spc_validate_before_apply (sp_config p)
            then validate_snapshot show_f64 (sp_validator p) bids asks else Ok ()) (\<lambda>_.
     apply_snapshot bids asks ts book)"

definition snapshot_record_sequence :: "u64 \<Rightarrow> snapshot_processor \<Rightarrow> snapshot_processor" where
  "snapshot_record_sequence s p = p\<lparr>sp_last_sequence := Some s\<rparr>"

definition check_sequence_gap :: "u64 \<Rightarrow> snapshot_processor \<Rightarrow> ((u64 \<times> u64) option, 'e) result" where
  "check_sequence_gap new p =
     (case sp_last_sequence p of
        None \<Rightarrow> Ok None
      | Some last' \<Rightarrow> map_ok (\<lambda>expected. if new \<noteq> expected then Some (expected, new) else None) (u64_incr last'))"

section \<open>What the validator accepts\<close>

lemma validate_side_Ok_iff:
  "validate_side show_f64 c side i ls = Ok () \<longleftrightarrow>
     (\<forall>l \<in> set ls. (\<exists>r. pl_price l = FFin r) \<and> \<not> f64_less (pl_price l) (sv_min_price c) \<and>
        \<not> f64_less (sv_max_price c) (pl_price l) \<and> 0 \<le> pl_quantity l)"
proof (induction ls arbitrary: i)
  case (Cons l ls)
  then show ?case by (cases "pl_price l") (auto simp: Let_def not_less)
qed simp

lemma distinct_prices_Cons:
  "distinct_prices (l # ls) \<longleftrightarrow>
     (\<forall>x \<in> set ls. OrderedFloat (pl_price x) \<noteq> OrderedFloat (pl_price l)) \<and> distinct_prices ls"
  unfolding distinct_prices_def list.map distinct.simps(2) set_map image_iff by metis

lemma distinct_prices_Nil [simp]: "distinct_prices []"
  by (simp add: distinct_prices_def)

lemma quantities_ok_Nil [simp]: "quantities_ok []"
  by (simp add: quantities_ok_def)

lemma check_duplicates_Ok_iff:
  "check_duplicates side seen ls = Ok () \<longleftrightarrow>
     distinct_prices ls \<and> (\<forall>l \<in> set ls. OrderedFloat (pl_price l) \<notin> set seen)"
  by (induction ls arbitrary: seen) (auto simp: distinct_prices_Cons)

text \<open>Finite prices compare as numbers.\<close>

definition finite_prices :: "'q price_level list \<Rightarrow> bool" where
  "finite_prices ls \<longleftrightarrow> (\<forall>l \<in> set ls. \<exists>r. pl_price l = FFin r)"

lemma finite_prices_Nil [simp]: "finite_prices []"
  by (simp add: finite_prices_def)

lemma max_price_level_max:
  assumes "finite_prices (b # ls)" "l \<in> set (b # ls)"
  shows "\<not> f64_less (pl_price (max_price_level b ls)) (pl_price l) \<and> max_price_level b ls \<in> set (b # ls)"
  using assms
proof (induction ls arbitrary: b l)
  case (Cons x ls)
  obtain rx rb where r: "pl_price x = FFin rx" "pl_price b = FFin rb"
    using Cons.prems(1) by (auto simp: finite_prices_def)
  let ?b = "if f64_less (pl_price x) (pl_price b) then b else x"
  have fin: "finite_prices (?b # ls)" using Cons.prems(1) by (simp add: finite_prices_def)
  have in_b: "max_price_level ?b ls \<in> set (?b # ls)" using Cons.IH [OF fin, of ?b] by simp
  then obtain rm where m: "pl_price (max_price_level ?b ls) = FFin rm"
    using fin unfolding finite_prices_def by blast
  have top: "\<not> f64_less (FFin rm) (pl_price y)" if "y \<in> set (?b # ls)" for y
    using Cons.IH [OF fin that] m by simp
  have "\<not> f64_less (FFin rm) (pl_price l)"
    using Cons.prems(2) top [of l] top [of ?b] r by (auto simp: f64_less_def split: if_splits)
  then show ?case using in_b m by (auto split: if_splits)
qed (simp add: finite_prices_def f64_less_def f64_total_less_irrefl)

lemma min_price_level_min:
  assumes "finite_prices (b # ls)" "l \<in> set (b # ls)"
  shows "\<not> f64_less (pl_price l) (pl_price (min_price_level b ls)) \<and> min_price_level b ls \<in> set (b # ls)"
  using assms
proof (induction ls arbitrary: b l)
  case (Cons x ls)
  obtain rx rb where r: "pl_price x = FFin rx" "pl_price b = FFin rb"
    using Cons.prems(1) by (auto simp: finite_prices_def)
  let ?b = "if f64_less (pl_price x) (pl_price b) then x else b"
  have fin: "finite_prices (?b # ls)" using Cons.prems(1) by (simp add: finite_prices_def)
  have in_b: "min_price_level ?b ls \<in> set (?b # ls)" using Cons.IH [OF fin, of ?b] by simp
  then obtain rm where m: "pl_price (min_price_level ?b ls) = FFin rm"
    using fin unfolding finite_prices_def by blast
  have low: "\<not> f64_less (pl_price y) (FFin rm)" if "y \<in> set (?b # ls)" for y
    using Cons.IH [OF fin that] m by simp
  have "\<not> f64_less (pl_price l) (FFin rm)"
    using Cons.prems(2) low [of l] low [of ?b] r by (auto simp: f64_less_def split: if_splits)
  then show ?case using in_b m by (auto split: if_splits)
qed (simp add: finite_prices_def f64_less_def f64_total_less_irrefl)

definition uncrossed :: "'q price_level list \<Rightarrow> 'q price_level list \<Rightarrow> bool" where
  "uncrossed bids asks \<longleftrightarrow> (\<forall>b \<in> set bids. \<forall>a \<in> set asks. OrderedFloat (pl_price b) < OrderedFloat (pl_price a))"

lemma uncrossed_Nil [simp]: "uncrossed [] asks" "uncrossed bids []"
  by (simp_all add: uncrossed_def)

lemma check_crossed_Ok_iff:
  assumes fin: "finite_prices bids" "finite_prices asks"
  shows "check_crossed bids asks = Ok () \<longleftrightarrow> uncrossed bids asks"
proof (cases "bids = [] \<or> asks = []")
  case True
  then show ?thesis by (auto simp: check_crossed_def uncrossed_def split: list.splits)
next
  case False
  then obtain b bs a as where ba: "bids = b # bs" "asks = a # as" by (auto simp: neq_Nil_conv)
  note fin = fin [unfolded ba]
  let ?B = "max_price_level b bs" and ?A = "min_price_level a as"
  have mem: "?B \<in> set (b # bs)" "?A \<in> set (a # as)"
    using max_price_level_max [OF fin(1), of b] min_price_level_min [OF fin(2), of a] by simp_all
  then obtain x y where xy: "pl_price ?B = FFin x" "pl_price ?A = FFin y"
    using fin unfolding finite_prices_def by blast
  have "check_crossed bids asks = Ok () \<longleftrightarrow> x < y"
    by (simp add: ba check_crossed_def Let_def xy f64_at_least_def)
  also have "\<dots> \<longleftrightarrow> uncrossed bids asks"
  proof
    assume lt: "x < y"
    show "uncrossed bids asks" unfolding uncrossed_def ba
    proof (intro ballI)
      fix p q assume p: "p \<in> set (b # bs)" and q: "q \<in> set (a # as)"
      obtain u v where uv: "pl_price p = FFin u" "pl_price q = FFin v"
        using fin p q unfolding finite_prices_def by blast
      have "u \<le> x" "y \<le> v"
        using max_price_level_max [OF fin(1) p] min_price_level_min [OF fin(2) q]
        by (simp_all add: xy uv f64_less_def)
      then show "OrderedFloat (pl_price p) < OrderedFloat (pl_price q)" using lt by (simp add: uv)
    qed
  next
    assume "uncrossed bids asks"
    then have "OrderedFloat (pl_price ?B) < OrderedFloat (pl_price ?A)"
      using mem unfolding uncrossed_def ba by blast
    then show "x < y" by (simp add: xy)
  qed
  finally show ?thesis .
qed

text \<open>The declarative reading of the configuration.\<close>

definition side_valid :: "snapshot_validation \<Rightarrow> 'q::linordered_ab_group_add price_level list \<Rightarrow> bool" where
  "side_valid c ls \<longleftrightarrow> finite_prices ls \<and> quantities_ok ls \<and>
     (\<forall>l \<in> set ls. \<not> f64_less (pl_price l) (sv_min_price c) \<and> \<not> f64_less (sv_max_price c) (pl_price l)) \<and>
     (ls \<noteq> [] \<longrightarrow> sv_min_levels_per_side c \<le> length ls) \<and>
     (\<not> sv_allow_duplicates c \<longrightarrow> distinct_prices ls)"

definition snapshot_valid ::
    "snapshot_validation \<Rightarrow> 'q::linordered_ab_group_add price_level list \<Rightarrow> 'q price_level list \<Rightarrow> bool" where
  "snapshot_valid c bids asks \<longleftrightarrow> side_valid c bids \<and> side_valid c asks \<and>
     (\<not> sv_allow_crossed c \<longrightarrow> uncrossed bids asks) \<and>
     (if bids = [] \<and> asks = [] then sv_allow_empty_side c \<and> sv_min_levels_per_side c = 0
      else sv_allow_empty_side c \<or> bids \<noteq> [] \<and> asks \<noteq> [])"

lemma validate_side_finite:
  "validate_side show_f64 c side i ls = Ok () \<longleftrightarrow> finite_prices ls \<and> quantities_ok ls \<and>
     (\<forall>l \<in> set ls. \<not> f64_less (pl_price l) (sv_min_price c) \<and> \<not> f64_less (sv_max_price c) (pl_price l))"
  by (auto simp: validate_side_Ok_iff finite_prices_def quantities_ok_def)

definition levels_valid :: "snapshot_validation \<Rightarrow> 'q::linordered_ab_group_add price_level list \<Rightarrow> bool" where
  "levels_valid c ls \<longleftrightarrow> finite_prices ls \<and> quantities_ok ls \<and>
     (\<forall>l \<in> set ls. \<not> f64_less (pl_price l) (sv_min_price c) \<and> \<not> f64_less (sv_max_price c) (pl_price l))"

lemma if_Err_Ok_iff: "(if P then Err e else m) = Ok y \<longleftrightarrow> \<not> P \<and> m = Ok y"
  by simp

lemma side_valid_levels:
  "side_valid c ls \<longleftrightarrow> levels_valid c ls \<and> (ls \<noteq> [] \<longrightarrow> sv_min_levels_per_side c \<le> length ls) \<and>
     (\<not> sv_allow_duplicates c \<longrightarrow> distinct_prices ls)"
  by (auto simp: side_valid_def levels_valid_def)

text \<open>The tests for empty and short sides, as propositions.\<close>

lemma empty_side_cases:
  "(Lb \<and> La \<and>
      \<not> (bids = [] \<and> asks = [] \<and> (\<not> E \<or> (m::nat) > 0)) \<and>
      \<not> (\<not> E \<and> bids = [] \<and> asks \<noteq> []) \<and>
      \<not> (\<not> E \<and> asks = [] \<and> bids \<noteq> []) \<and>
      \<not> (length bids < m \<and> bids \<noteq> []) \<and>
      \<not> (length asks < m \<and> asks \<noteq> []) \<and>
      (\<not> C \<longrightarrow> U) \<and> (\<not> D \<longrightarrow> Db \<and> Da)) \<longleftrightarrow>
   (Lb \<and> (bids \<noteq> [] \<longrightarrow> m \<le> length bids) \<and> (\<not> D \<longrightarrow> Db)) \<and>
   (La \<and> (asks \<noteq> [] \<longrightarrow> m \<le> length asks) \<and> (\<not> D \<longrightarrow> Da)) \<and> (\<not> C \<longrightarrow> U) \<and>
   (if bids = [] \<and> asks = [] then E \<and> m = 0 else E \<or> bids \<noteq> [] \<and> asks \<noteq> [])"
  unfolding not_less [symmetric] de_Morgan_conj not_not neq0_conv
  by (cases "bids = []"; cases "asks = []"; cases E; cases C; cases D; simp; blast?)

lemma levels_valid_Nil [simp]: "levels_valid c []"
  by (simp add: levels_valid_def finite_prices_def)

lemma validate_snapshot_Ok_iff:
  "validate_snapshot show_f64 c bids asks = Ok () \<longleftrightarrow> snapshot_valid c bids asks"
proof (cases "finite_prices bids \<and> finite_prices asks")
  case True
  then have fin: "finite_prices bids" "finite_prices asks" by simp_all
  have cross: "(if \<not> sv_allow_crossed c then check_crossed bids asks else Ok ()) = Ok () \<longleftrightarrow>
      (\<not> sv_allow_crossed c \<longrightarrow> uncrossed bids asks)"
    using check_crossed_Ok_iff [OF fin] by simp
  have dup: "(if \<not> sv_allow_duplicates c
       then rbind (check_duplicates ''bid'' [] bids) (\<lambda>_. check_duplicates ''ask'' [] asks)
       else Ok ()) = Ok () \<longleftrightarrow> (\<not> sv_allow_duplicates c \<longrightarrow> distinct_prices bids \<and> distinct_prices asks)"
    by (simp add: rbind_Ok_iff check_duplicates_Ok_iff)
  have "validate_snapshot show_f64 c bids asks = Ok () \<longleftrightarrow> levels_valid c bids \<and> levels_valid c asks \<and>
      \<not> (bids = [] \<and> asks = [] \<and> (\<not> sv_allow_empty_side c \<or> sv_min_levels_per_side c > 0)) \<and>
      \<not> (\<not> sv_allow_empty_side c \<and> bids = [] \<and> asks \<noteq> []) \<and>
      \<not> (\<not> sv_allow_empty_side c \<and> asks = [] \<and> bids \<noteq> []) \<and>
      \<not> (length bids < sv_min_levels_per_side c \<and> bids \<noteq> []) \<and>
      \<not> (length asks < sv_min_levels_per_side c \<and> asks \<noteq> []) \<and>
      (\<not> sv_allow_crossed c \<longrightarrow> uncrossed bids asks) \<and>
      (\<not> sv_allow_duplicates c \<longrightarrow> distinct_prices bids \<and> distinct_prices asks)"
    unfolding validate_snapshot_def rbind_Ok_iff if_Err_Ok_iff
    by (simp add: cross dup validate_side_finite levels_valid_def)
  also have "\<dots> \<longleftrightarrow> snapshot_valid c bids asks"
    unfolding snapshot_valid_def side_valid_levels
    by (rule empty_side_cases)
  finally show ?thesis .
next
  case False
  then have "validate_side show_f64 c ''bid'' 0 bids \<noteq> Ok () \<or> validate_side show_f64 c ''ask'' 0 asks \<noteq> Ok ()"
    by (auto simp: validate_side_finite)
  then have "validate_snapshot show_f64 c bids asks \<noteq> Ok ()"
    unfolding validate_snapshot_def
    by (cases "validate_side show_f64 c ''bid'' 0 bids"; cases "validate_side show_f64 c ''ask'' 0 asks") simp_all
  moreover have "\<not> snapshot_valid c bids asks" using False unfolding snapshot_valid_def side_valid_def by blast
  ultimately show ?thesis by blast
qed

section \<open>A validated snapshot\<close>

lemma apply_snapshot_levels:
  assumes ok: "apply_snapshot bids asks ts b = (Ok b' :: (_, 'e) result)"
    and q: "quantities_ok bids" "quantities_ok asks" "distinct_prices bids" "distinct_prices asks"
  shows "set (all_bids b') = {l \<in> set (take (bc_max_levels (ob_config b)) bids). bc_auto_prune (ob_config b) \<longrightarrow> 0 < pl_quantity l}"
    and "set (all_asks b') = {l \<in> set (take (bc_max_levels (ob_config b)) asks). bc_auto_prune (ob_config b) \<longrightarrow> 0 < pl_quantity l}"
proof -
  let ?p = "bc_auto_prune (ob_config b)" and ?n = "bc_max_levels (ob_config b)"
  have side: "set (btm_values (fst (snapshot_levels ?p (take ?n ls) ([], 0)))) =
      {l \<in> set (take ?n ls). ?p \<longrightarrow> 0 < pl_quantity l}"
    if "quantities_ok ls" "distinct_prices ls" for ls :: "'a price_level list"
  proof -
    have "distinct_prices (take ?n ls)" "\<forall>l \<in> set (take ?n ls). 0 \<le> pl_quantity l"
      using that by (auto simp: distinct_prices_def quantities_ok_def take_map [symmetric] dest: in_set_takeD)
    then have "set (fst (snapshot_levels ?p (take ?n ls) ([], 0))) =
        level_entry ` {l \<in> set (take ?n ls). ?p \<longrightarrow> 0 < pl_quantity l}"
      using snapshot_levels_ok(2) [of ?p "([], 0)" "take ?n ls"] by simp
    then show ?thesis by (simp add: btm_values_def image_image level_entry_def)
  qed
  obtain n where b': "b' = record_level_counts
          (set_side Ask (snapshot_levels ?p (take ?n asks) ([], 0))
            (set_side Bid (snapshot_levels ?p (take ?n bids) ([], 0)) b)
           \<lparr>ob_stats := (ob_stats b)\<lparr>bs_snapshot_count := n, bs_last_update_timestamp := ts\<rparr>\<rparr>)"
    using ok by (rule apply_snapshot_Ok)
  show "set (all_bids b') = {l \<in> set (take ?n bids). ?p \<longrightarrow> 0 < pl_quantity l}"
    "set (all_asks b') = {l \<in> set (take ?n asks). ?p \<longrightarrow> 0 < pl_quantity l}"
    using side [OF q(1,3)] side [OF q(2,4)] unfolding b'
    by (cases "snapshot_levels ?p (take ?n asks) ([], 0)"; cases "snapshot_levels ?p (take ?n bids) ([], 0)";
        simp add: all_bids_def all_asks_def book_cache_defs)+
qed

lemma apply_snapshot_any_error:
  "apply_snapshot bids asks ts b = (Ok b' :: (_, 'e) result) \<Longrightarrow>
   apply_snapshot bids asks ts b = (Ok b' :: (_, 'f) result)"
  by (auto simp: apply_snapshot_def Let_def map_ok_Ok_iff u64_incr_def split: prod.splits if_splits)

text \<open>
  C12: Under the default checks (no duplicates, no crossed book) a snapshot passes exactly when it is
  valid in the declarative sense, and a snapshot that passes leaves a consistent book with its own
  levels (the first \<open>max_levels\<close> of each side, without empty ones when the book prunes), in which
  every bid is below every ask.
\<close>

theorem validated_snapshot_safe:
  assumes "book_reachable b" "spc_validate_before_apply (sp_config p)"
    and "\<not> sv_allow_duplicates (sp_validator p)" "\<not> sv_allow_crossed (sp_validator p)"
    and "bs_snapshot_count (ob_stats b) \<noteq> - 1"
  shows "((\<exists>b'. apply_with_validation show_f64 p bids asks ts b = Ok b') \<longleftrightarrow>
      snapshot_valid (sp_validator p) bids asks) \<and>
    (\<forall>b'. apply_with_validation show_f64 p bids asks ts b = Ok b' \<longrightarrow>
      book_reachable b' \<and> uncrossed (all_bids b') (all_asks b') \<and>
      set (all_bids b') = {l \<in> set (take (bc_max_levels (ob_config b)) bids).
        bc_auto_prune (ob_config b) \<longrightarrow> 0 < pl_quantity l} \<and>
      set (all_asks b') = {l \<in> set (take (bc_max_levels (ob_config b)) asks).
        bc_auto_prune (ob_config b) \<longrightarrow> 0 < pl_quantity l})"
proof (intro conjI allI impI)
  have "\<exists>b'. apply_snapshot bids asks ts b = (Ok b' :: (_, snapshot_error) result)"
    using assms(5) by (simp add: apply_snapshot_def u64_incr_def Let_def book_cache_defs split: prod.splits)
  then show "(\<exists>b'. apply_with_validation show_f64 p bids asks ts b = Ok b') \<longleftrightarrow>
      snapshot_valid (sp_validator p) bids asks"
    using validate_snapshot_Ok_iff [of show_f64 "sp_validator p" bids asks] assms(2)
    by (auto simp: apply_with_validation_def rbind_Ok_iff)
next
  fix b' assume run: "apply_with_validation show_f64 p bids asks ts b = Ok b'"
  then have valid: "snapshot_valid (sp_validator p) bids asks"
      and ok: "apply_snapshot bids asks ts b = (Ok b' :: (_, snapshot_error) result)"
    using validate_snapshot_Ok_iff [of show_f64 "sp_validator p" bids asks] assms(2)
    by (auto simp: apply_with_validation_def rbind_Ok_iff)
  have q: "quantities_ok bids" "quantities_ok asks" "distinct_prices bids" "distinct_prices asks"
      "uncrossed bids asks"
    using valid assms(3,4) by (simp_all add: snapshot_valid_def side_valid_def)
  note levels = apply_snapshot_levels [OF ok q(1-4)]
  show "set (all_bids b') = {l \<in> set (take (bc_max_levels (ob_config b)) bids).
        bc_auto_prune (ob_config b) \<longrightarrow> 0 < pl_quantity l}"
    and "set (all_asks b') = {l \<in> set (take (bc_max_levels (ob_config b)) asks).
        bc_auto_prune (ob_config b) \<longrightarrow> 0 < pl_quantity l}" by (rule levels)+
  show "book_reachable b'"
    using reach_snapshot [OF assms(1) q(1-4) apply_snapshot_any_error [OF ok]] .
  have "set (all_bids b') \<subseteq> set bids" "set (all_asks b') \<subseteq> set asks"
    unfolding levels by (auto dest: in_set_takeD)
  then show "uncrossed (all_bids b') (all_asks b')" using q(5) unfolding uncrossed_def by blast
qed

theorem validated_snapshot_safe_witness:
  "\<exists>b'. apply_with_validation (\<lambda>_. []) (snapshot_processor_new snapshot_processor_config_default)
       small_bids small_asks 9 small_book = Ok b' \<and> uncrossed (all_bids b') (all_asks b')"
proof -
  let ?p = "snapshot_processor_new snapshot_processor_config_default"
  have "spc_validate_before_apply (sp_config ?p)" "\<not> sv_allow_duplicates (sp_validator ?p)"
    "\<not> sv_allow_crossed (sp_validator ?p)" "bs_snapshot_count (ob_stats small_book) \<noteq> - 1"
    by (simp_all add: snapshot_processor_new_def snapshot_processor_config_default_def
        snapshot_validation_default_def small_book_def)
  note safe = validated_snapshot_safe [OF small_book_reachable this, of "\<lambda>_. []" small_bids small_asks 9]
  have "snapshot_valid (sp_validator ?p) small_bids small_asks"
    by (simp add: snapshot_valid_def side_valid_def finite_prices_def quantities_ok_def distinct_prices_def
        uncrossed_def f64_less_def snapshot_processor_new_def snapshot_processor_config_default_def
        snapshot_validation_default_def small_defs)
  then show ?thesis using safe by blast
qed

section \<open>Differences patch the old snapshot\<close>

definition level_key :: "'q price_level \<Rightarrow> ordered_float" where
  "level_key l = OrderedFloat (pl_price l)"

definition quantities :: "'q price_level list \<Rightarrow> ordered_float \<Rightarrow> 'q option" where
  "quantities ls k = map_option pl_quantity (level_table ls k)"

text \<open>Removing, changing and adding levels, as a consumer of the difference would.\<close>

definition patch_side ::
    "f64 list \<Rightarrow> 'q level_change list \<Rightarrow> 'q price_level list \<Rightarrow> (ordered_float \<Rightarrow> 'q option) \<Rightarrow>
     ordered_float \<Rightarrow> 'q option" where
  "patch_side removed modified added q =
     fold (\<lambda>l q. q(level_key l \<mapsto> pl_quantity l)) added
       (fold (\<lambda>c q. q(OrderedFloat (lc_price c) \<mapsto> lc_new_quantity c)) modified
         (fold (\<lambda>p q. q(OrderedFloat p := None)) removed q))"

definition change_of :: "(ordered_float \<Rightarrow> 'q price_level option) \<Rightarrow> 'q price_level \<Rightarrow> 'q level_change" where
  "change_of old l = \<lparr>lc_price = pl_price l, lc_old_quantity = pl_quantity (the (old (level_key l))),
     lc_new_quantity = pl_quantity l\<rparr>"

lemma diff_new_eq:
  "diff_new old ls =
     (filter (\<lambda>l. old (level_key l) = None) ls,
      map (change_of old) (filter (\<lambda>l. \<exists>u. old (level_key l) = Some u \<and> pl_quantity u \<noteq> pl_quantity l) ls))"
  by (induction ls) (auto simp: level_key_def change_of_def split: option.splits)

lemma level_table_None: "level_table ls k = None \<longleftrightarrow> k \<notin> level_key ` set ls"
  by (auto simp: level_table_def map_of_eq_None_iff level_entry_def level_key_def image_image)

lemma level_table_Some: "level_table ls k = Some l \<Longrightarrow> l \<in> set ls \<and> level_key l = k"
  by (auto simp: level_table_def level_entry_def level_key_def dest!: map_of_SomeD)

lemma fold_remove: "fold (\<lambda>p q. q(f p := None)) ps q k = (if k \<in> f ` set ps then None else q k)"
  by (induction ps arbitrary: q) auto

lemma fold_update: "fold (\<lambda>l q. q(f l \<mapsto> g l)) ls q = q ++ map_of (rev (map (\<lambda>l. (f l, g l)) ls))"
  by (induction ls arbitrary: q) (simp_all add: map_add_def fun_eq_iff split: option.splits)

lemma fold_update_at:
  assumes "distinct (map f ls)"
  shows "fold (\<lambda>l q. q(f l \<mapsto> g l)) ls q k =
    (if k \<in> f ` set ls then Some (g (THE l. l \<in> set ls \<and> f l = k)) else q k)"
proof (cases "k \<in> f ` set ls")
  case True
  then obtain l where l: "l \<in> set ls" "f l = k" by auto
  have the_l: "(THE l. l \<in> set ls \<and> f l = k) = l"
    using l assms by (auto simp: distinct_map inj_on_def)
  have "map fst (rev (map (\<lambda>l. (f l, g l)) ls)) = rev (map f ls)" by (simp add: rev_map comp_def)
  then have "distinct (map fst (rev (map (\<lambda>l. (f l, g l)) ls)))" using assms by simp
  moreover have "(k, g l) \<in> set (rev (map (\<lambda>l. (f l, g l)) ls))" using l by auto
  ultimately have "map_of (rev (map (\<lambda>l. (f l, g l)) ls)) k = Some (g l)" by (rule map_of_is_SomeI)
  then show ?thesis using True by (simp add: fold_update the_l map_add_def)
next
  case False
  then have "map_of (rev (map (\<lambda>l. (f l, g l)) ls)) k = None" by (auto simp: map_of_eq_None_iff)
  then show ?thesis using False by (simp add: fold_update map_add_def)
qed

lemma distinct_prices_key: "distinct_prices ls \<longleftrightarrow> distinct (map level_key ls)"
  by (simp add: distinct_prices_def level_key_def [abs_def])

lemma quantities_at:
  assumes "distinct_prices ls" "l \<in> set ls"
  shows "quantities ls (level_key l) = Some (pl_quantity l)"
proof -
  have "level_table ls (level_key l) \<noteq> None" using assms(2) by (simp add: level_table_None)
  then obtain u where u: "level_table ls (level_key l) = Some u" by blast
  then have "u \<in> set ls" "level_key u = level_key l" using level_table_Some by blast+
  then have "u = l" using assms unfolding distinct_prices_key distinct_map inj_on_def by blast
  then show ?thesis using u by (simp add: quantities_def)
qed

lemma quantities_None: "quantities ls k = None \<longleftrightarrow> k \<notin> level_key ` set ls"
  by (simp add: quantities_def level_table_None)

lemma patch_side_diff:
  assumes new: "distinct_prices new"
  shows "patch_side (diff_removed (level_table new) old) (snd (diff_new (level_table old) new))
    (fst (diff_new (level_table old) new)) (quantities old) = quantities new"
proof
  fix k
  define added where "added = filter (\<lambda>l. level_table old (level_key l) = None) new"
  define changed where "changed = filter (\<lambda>l. \<exists>u. level_table old (level_key l) = Some u \<and> pl_quantity u \<noteq> pl_quantity l) new"
  define removed where "removed = diff_removed (level_table new) old"
  have dist: "distinct (map level_key added)" "distinct (map level_key changed)"
    using new by (simp_all add: distinct_prices_key added_def changed_def distinct_map_filter)
  have the_l: "(THE x. x \<in> set ls \<and> level_key x = level_key l) = l"
    if "distinct (map level_key ls)" "l \<in> set ls" for l ls
    using that by (auto simp: distinct_map inj_on_def)
  have change: "fold (\<lambda>c q. q(OrderedFloat (lc_price c) \<mapsto> lc_new_quantity c)) (map (change_of (level_table old)) changed) q =
      fold (\<lambda>l q. q(level_key l \<mapsto> pl_quantity l)) changed q" for q
    by (simp add: fold_map comp_def change_of_def level_key_def)
  have gone: "k \<in> OrderedFloat ` set removed \<longleftrightarrow> k \<in> level_key ` set old \<and> k \<notin> level_key ` set new"
    by (auto simp: removed_def diff_removed_def level_table_None level_key_def image_iff)
  have patch: "patch_side removed (map (change_of (level_table old)) changed) added (quantities old) k =
      (if k \<in> level_key ` set added then Some (pl_quantity (THE l. l \<in> set added \<and> level_key l = k))
       else if k \<in> level_key ` set changed then Some (pl_quantity (THE l. l \<in> set changed \<and> level_key l = k))
       else if k \<in> OrderedFloat ` set removed then None else quantities old k)"
    unfolding patch_side_def change fold_update_at [OF dist(1)] fold_update_at [OF dist(2)] fold_remove ..
  have "patch_side removed (map (change_of (level_table old)) changed) added (quantities old) k = quantities new k"
  proof (cases "k \<in> level_key ` set new")
    case False
    then have "k \<notin> level_key ` set added" "k \<notin> level_key ` set changed" by (auto simp: added_def changed_def)
    moreover have "quantities new k = None" using False by (simp add: quantities_None)
    ultimately show ?thesis unfolding patch using gone False quantities_None [of old k] by auto
  next
    case True
    then obtain l where l: "l \<in> set new" "k = level_key l" by blast
    have q: "quantities new k = Some (pl_quantity l)" using quantities_at [OF new l(1)] l(2) by simp
    have uniq: "x = l" if "x \<in> set new" "level_key x = level_key l" for x
      using that l(1) new by (auto simp: distinct_prices_key distinct_map inj_on_def)
    show ?thesis
    proof (cases "l \<in> set added \<or> l \<in> set changed")
      case True
      moreover have "k \<notin> level_key ` set added" if "l \<in> set changed"
        using that uniq unfolding l(2) by (auto simp: added_def changed_def dest!: uniq)
      ultimately consider "l \<in> set added" | "l \<in> set changed" "k \<notin> level_key ` set added" by blast
      then show ?thesis
      proof cases
        case 1
        then have "k \<in> level_key ` set added" "(THE x. x \<in> set added \<and> level_key x = k) = l"
          using the_l [OF dist(1) 1] l(2) by simp_all
        then show ?thesis unfolding patch q by simp
      next
        case 2
        then have "k \<in> level_key ` set changed" "(THE x. x \<in> set changed \<and> level_key x = k) = l"
          using the_l [OF dist(2) 2(1)] l(2) by simp_all
        then show ?thesis unfolding patch q using 2(2) by simp
      qed
    next
      case False
      then have not_in: "k \<notin> level_key ` set added" "k \<notin> level_key ` set changed"
        using uniq l(2) by (auto simp: added_def changed_def)
      from False l(1) obtain u where "level_table old (level_key l) = Some u" "pl_quantity u = pl_quantity l"
        by (auto simp: added_def changed_def)
      then have "quantities old k = Some (pl_quantity l)" using l(2) by (simp add: quantities_def)
      then show ?thesis unfolding patch using not_in gone True q by auto
    qed
  qed
  then show "patch_side (diff_removed (level_table new) old) (snd (diff_new (level_table old) new))
      (fst (diff_new (level_table old) new)) (quantities old) k = quantities new k"
    by (simp add: diff_new_eq added_def changed_def removed_def)
qed

lemma diff_empty_side:
  assumes "distinct_prices new" "quantities old = quantities new"
  shows "diff_removed (level_table new) old = []" "diff_new (level_table old) new = ([], [])"
proof -
  have "level_table new (level_key l) \<noteq> None" if "l \<in> set old" for l
    using that assms(2) quantities_None [of old "level_key l"] by (auto simp: quantities_def)
  then show "diff_removed (level_table new) old = []"
    by (auto simp: diff_removed_def filter_empty_conv level_key_def)
  have "level_table old (level_key l) \<noteq> None \<and>
      \<not> (\<exists>u. level_table old (level_key l) = Some u \<and> pl_quantity u \<noteq> pl_quantity l)"
    if "l \<in> set new" for l
    using quantities_at [OF assms(1) that] unfolding assms(2) [symmetric] by (auto simp: quantities_def)
  then show "diff_new (level_table old) new = ([], [])"
    by (auto simp: diff_new_eq filter_empty_conv)
qed

text \<open>
  The difference of two snapshots says everything about the quantities: removing, changing and
  adding its levels turns the old quantities of each side into the new ones, and it is empty
  exactly when the quantities agree (for a new snapshot that lists each price once).
\<close>

theorem snapshot_diff_patches:
  assumes "distinct_prices (bsn_bids new)" "distinct_prices (bsn_asks new)"
    and "d = snapshot_diff_of old new"
  shows "patch_side (sd_removed_bids d) (sd_modified_bids d) (sd_added_bids d) (quantities (bsn_bids old)) =
      quantities (bsn_bids new) \<and>
    patch_side (sd_removed_asks d) (sd_modified_asks d) (sd_added_asks d) (quantities (bsn_asks old)) =
      quantities (bsn_asks new) \<and>
    (diff_is_empty d \<longleftrightarrow> quantities (bsn_bids old) = quantities (bsn_bids new) \<and>
       quantities (bsn_asks old) = quantities (bsn_asks new))"
proof -
  have d: "sd_added_bids d = fst (diff_new (level_table (bsn_bids old)) (bsn_bids new))"
      "sd_modified_bids d = snd (diff_new (level_table (bsn_bids old)) (bsn_bids new))"
      "sd_removed_bids d = diff_removed (level_table (bsn_bids new)) (bsn_bids old)"
      "sd_added_asks d = fst (diff_new (level_table (bsn_asks old)) (bsn_asks new))"
      "sd_modified_asks d = snd (diff_new (level_table (bsn_asks old)) (bsn_asks new))"
      "sd_removed_asks d = diff_removed (level_table (bsn_asks new)) (bsn_asks old)"
    by (simp_all add: assms(3) snapshot_diff_of_def Let_def split: prod.splits)
  have patch: "patch_side (sd_removed_bids d) (sd_modified_bids d) (sd_added_bids d) (quantities (bsn_bids old)) =
      quantities (bsn_bids new)"
    "patch_side (sd_removed_asks d) (sd_modified_asks d) (sd_added_asks d) (quantities (bsn_asks old)) =
      quantities (bsn_asks new)"
    unfolding d by (rule patch_side_diff [OF assms(1)], rule patch_side_diff [OF assms(2)])
  moreover have "quantities (bsn_bids old) = quantities (bsn_bids new) \<and>
      quantities (bsn_asks old) = quantities (bsn_asks new)" if "diff_is_empty d"
    using that patch by (simp add: diff_is_empty_def patch_side_def)
  moreover have "diff_is_empty d" if "quantities (bsn_bids old) = quantities (bsn_bids new)"
      "quantities (bsn_asks old) = quantities (bsn_asks new)"
    using diff_empty_side [OF assms(1) that(1)] diff_empty_side [OF assms(2) that(2)]
    by (simp add: diff_is_empty_def d)
  ultimately show ?thesis by blast
qed

theorem snapshot_diff_patches_witness:
  "\<exists>d. d = snapshot_diff_of (to_snapshot 5 small_book)
       (to_snapshot 5 small_book\<lparr>bsn_bids := [whole_level 101 6]\<rparr>) \<and> \<not> diff_is_empty d"
proof -
  let ?new = "to_snapshot 5 small_book\<lparr>bsn_bids := [whole_level 101 6]\<rparr>"
  have "distinct_prices (bsn_bids ?new)" "distinct_prices (bsn_asks ?new)"
    by (simp_all add: to_snapshot_def top_asks_def btm_values_def distinct_prices_def small_defs)
  note patches = snapshot_diff_patches [OF this refl, of "to_snapshot 5 small_book"]
  have "quantities (bsn_bids (to_snapshot 5 small_book)) (level_key (whole_level 101 6)) = Some 5"
    "quantities (bsn_bids ?new) (level_key (whole_level 101 6)) = Some 6"
    by (simp_all add: to_snapshot_def top_bids_def btm_values_def quantities_def level_table_def
        level_key_def small_defs)
  then have "quantities (bsn_bids (to_snapshot 5 small_book)) \<noteq> quantities (bsn_bids ?new)"
    by (metis numeral_eq_iff num.distinct option.inject semiring_norm)
  then show ?thesis using patches by blast
qed

end
