(* ===== verification/F64_Order.thy ===== *)
theory F64_Order
  imports Flash_Types
begin

text \<open>
  Rounding is monotone, and exact on the dyadic numbers of at most 53 bits. The bounds on the
  delays that the network code computes in floating point rest on these two facts. Also here:
  \<open>f64::min\<close>, \<open>f64::max\<close> and the millisecond delay with jitter that two configurations share.
\<close>

section \<open>The exponent of a rational\<close>

lemma pow2_pos [simp]: "0 < pow2 e"
  by (simp add: pow2_def)

lemma pow2_add: "pow2 (a + b) = pow2 a * pow2 b"
proof -
  have "pow2 e = 2 powi e" for e
    by (cases "0 \<le> e") (simp_all only: pow2_def power_int_def if_True if_False inverse_eq_divide power_one_over)
  note eq = this
  show ?thesis unfolding eq by (rule power_int_add) simp
qed

lemma pow2_Suc: "pow2 (e + 1) = 2 * pow2 e"
  by (simp add: pow2_add) (simp add: pow2_def)

lemma pow2_of_nat: "pow2 (int k) = 2 ^ k"
  by (simp add: pow2_def)

lemma pow2_mono: "a \<le> b \<Longrightarrow> pow2 a \<le> pow2 b"
proof -
  assume "a \<le> b"
  then have "pow2 b = pow2 a * 2 ^ nat (b - a)"
    using pow2_add [of a "b - a"] pow2_of_nat [of "nat (b - a)"] by simp
  then show ?thesis by simp
qed

text \<open>The exponent is the one in which a positive number has 53 binary digits, or the least.\<close>

lemma ulp_exp_scale:
  assumes "0 < x"
  shows "x / pow2 (ulp_exp x) < 2 ^ 53"
    and "- 1074 \<le> ulp_exp x"
    and "- 1074 < ulp_exp x \<Longrightarrow> 2 ^ 52 \<le> x / pow2 (ulp_exp x)"
proof -
  obtain p q where pq: "quotient_of x = (p, q)" by fastforce
  have q: "0 < q" and x: "x = of_int p / of_int q"
    using quotient_of_denom_pos [OF pq] quotient_of_div [OF pq] by simp_all
  have p: "0 < p" using assms q by (simp add: x zero_less_divide_iff)
  define bp bq where "bp = bitlen (nat p)" and "bq = bitlen (nat q)"
  have bp: "2 ^ (bp - 1) \<le> nat p" "nat p < 2 ^ bp" "0 < bp"
    and bq: "2 ^ (bq - 1) \<le> nat q" "nat q < 2 ^ bq" "0 < bq"
    using bitlen_bounds [of "nat p"] bitlen_bounds [of "nat q"] p q
    by (simp_all add: bp_def bq_def)
  have P: "pow2 (int bp - 1) \<le> of_int p" "of_int p < pow2 (int bp)"
    and Q: "pow2 (int bq - 1) \<le> of_int q" "of_int q < pow2 (int bq)"
  proof -
    have lift: "(2::nat) ^ k \<le> nat z \<Longrightarrow> 0 < z \<Longrightarrow> (2::rat) ^ k \<le> of_int z"
      "nat z < 2 ^ k \<Longrightarrow> 0 < z \<Longrightarrow> of_int z < (2::rat) ^ k" for k z
      using of_nat_mono [of "2 ^ k" "nat z", where 'a = rat] of_nat_less_iff [of "nat z" "2 ^ k", where 'a = rat]
      by simp_all
    show "pow2 (int bp - 1) \<le> of_int p" "of_int p < pow2 (int bp)"
      "pow2 (int bq - 1) \<le> of_int q" "of_int q < pow2 (int bq)"
      using lift(1) [OF bp(1) p] lift(2) [OF bp(2) p] lift(1) [OF bq(1) q] lift(2) [OF bq(2) q]
        bp(3) bq(3) pow2_of_nat [of "bp - 1"] pow2_of_nat [of "bq - 1"] pow2_of_nat [of bp] pow2_of_nat [of bq]
      by (simp_all add: of_nat_diff)
  qed
  define e where "e = int bp - int bq - 53"
  have lo: "2 ^ 52 < x / pow2 e" and hi: "x / pow2 e < 2 ^ 54"
  proof -
    have "pow2 (int bp - 1) = 2 ^ 52 * pow2 e * pow2 (int bq)"
      using pow2_add [of 52 e] pow2_add [of "52 + e" "int bq"] pow2_of_nat [of 52]
      by (simp add: e_def algebra_simps)
    moreover have "pow2 (int bp) = 2 ^ 54 * pow2 e * pow2 (int bq - 1)"
      using pow2_add [of 54 e] pow2_add [of "54 + e" "int bq - 1"] pow2_of_nat [of 54]
      by (simp add: e_def algebra_simps)
    moreover have "2 ^ 52 * pow2 e * of_int q < 2 ^ 52 * pow2 e * pow2 (int bq)"
      "2 ^ 54 * pow2 e * pow2 (int bq - 1) \<le> 2 ^ 54 * pow2 e * of_int q"
      using Q by simp_all
    ultimately have "2 ^ 52 * pow2 e * of_int q < of_int p" "of_int p < 2 ^ 54 * pow2 e * of_int q"
      using P by linarith+
    then show "2 ^ 52 < x / pow2 e" "x / pow2 e < 2 ^ 54"
      using q by (simp_all add: x field_simps)
  qed
  define e' where "e' = (if x / pow2 e < 2 ^ 53 then e else e + 1)"
  have e': "2 ^ 52 \<le> x / pow2 e'" "x / pow2 e' < 2 ^ 53"
    using lo hi pow2_pos [of e] by (auto simp: e'_def pow2_Suc divide_less_eq le_divide_eq less_divide_eq not_less)
  have u: "ulp_exp x = max e' (- 1074)"
    by (simp add: ulp_exp_def pq Let_def e'_def e_def bp_def bq_def)
  show "- 1074 \<le> ulp_exp x" by (simp add: u)
  show "- 1074 < ulp_exp x \<Longrightarrow> 2 ^ 52 \<le> x / pow2 (ulp_exp x)" using e'(1) by (auto simp: u max_def)
  have "x / pow2 (ulp_exp x) \<le> x / pow2 e'"
    using pow2_mono [of e' "ulp_exp x"] assms by (intro divide_left_mono) (simp_all add: u)
  with e'(2) show "x / pow2 (ulp_exp x) < 2 ^ 53" by linarith
qed


section \<open>Monotone rounding\<close>

lemma round_even_mono: "r \<le> s \<Longrightarrow> round_even r \<le> round_even s"
proof -
  assume le: "r \<le> s"
  have near: "\<bar>of_int (round_even q) - q\<bar> \<le> 1 / 2" for q :: rat
    using floor_correct [of q] by (simp add: round_even_def Let_def abs_le_iff)
  show ?thesis
  proof (rule ccontr)
    assume "\<not> ?thesis"
    then have "round_even s + 1 \<le> round_even r" by simp
    then have "of_int (round_even s + 1) \<le> (of_int (round_even r) :: rat)" by (simp only: of_int_le_iff)
    then have gap: "of_int (round_even s) + 1 \<le> (of_int (round_even r) :: rat)" by simp
    then have eq: "r = s" using near [of r] near [of s] le by linarith
    with gap show False by simp
  qed
qed

text \<open>Numbers of at most 53 binary digits above the least exponent.\<close>

definition dyadic :: "rat \<Rightarrow> bool" where
  "dyadic y \<longleftrightarrow> (\<exists>k e. y = of_int k * pow2 e \<and> \<bar>k\<bar> \<le> 2 ^ 53 \<and> - 1074 \<le> e)"

definition rounded :: "rat \<Rightarrow> rat" where
  "rounded x = of_int (round_even (x / pow2 (ulp_exp x))) * pow2 (ulp_exp x)"

lemma round_pos_rounded: "round_pos x = (if rounded x < 2 ^ 1024 then FFin (rounded x) else FInf False)"
  by (simp add: round_pos_def rounded_def Let_def)

lemma pow2_multiple: "e \<ge> u \<Longrightarrow> \<exists>m::int. pow2 e = of_int m * pow2 u"
proof -
  assume "e \<ge> u"
  then have "pow2 e = 2 ^ nat (e - u) * pow2 u"
    using pow2_add [of u "e - u"] pow2_of_nat [of "nat (e - u)"] by simp
  then show ?thesis by (intro exI [of _ "2 ^ nat (e - u)"]) simp
qed

lemma rounded_multiple: "rounded (of_int m * pow2 u) = of_int m * pow2 u"
  if "ulp_exp (of_int m * pow2 u) = u"
  using that pow2_pos [of u] by (simp add: rounded_def)

lemma rounded_le:
  assumes x: "0 < x" "x \<le> y" and y: "dyadic y"
  shows "rounded x \<le> y"
proof -
  let ?u = "ulp_exp x"
  from y obtain k e where ke: "y = of_int k * pow2 e" "\<bar>k\<bar> \<le> 2 ^ 53" "- 1074 \<le> e"
    by (auto simp: dyadic_def)
  have "\<exists>m::int. y = of_int m * pow2 ?u"
  proof (cases "?u \<le> e")
    case True
    from pow2_multiple [OF True] obtain m where "pow2 e = of_int m * pow2 ?u" by blast
    then show ?thesis by (intro exI [of _ "k * m"]) (simp add: ke(1))
  next
    case False
    then have lo: "2 ^ 52 * pow2 ?u \<le> x"
      using ulp_exp_scale(3) [OF x(1)] ke(3) by (simp add: le_divide_eq)
    have "2 * pow2 e \<le> pow2 ?u" using pow2_mono [of "e + 1" ?u] False by (simp add: pow2_Suc)
    moreover have "(of_int k :: rat) \<le> of_int (2 ^ 53)" using ke(2) by (simp only: of_int_le_iff)
    then have "y \<le> 2 ^ 53 * pow2 e" by (simp add: ke(1))
    moreover have "2 ^ 53 * pow2 e = 2 ^ 52 * (2 * pow2 e)" by simp
    ultimately have "y \<le> 2 ^ 52 * pow2 ?u"
      using mult_left_mono [of "2 * pow2 e" "pow2 ?u" "2 ^ 52"] by (metis order_trans zero_le_numeral zero_le_power)
    then have "y = 2 ^ 52 * pow2 ?u" using lo x(2) by (metis order_antisym order_trans)
    then show ?thesis by (intro exI [of _ "2 ^ 52"]) simp
  qed
  then obtain m where m: "y = of_int m * pow2 ?u" by blast
  have "x / pow2 ?u \<le> of_int m" using x(2) by (simp add: m divide_le_eq)
  then have "round_even (x / pow2 ?u) \<le> m" using round_even_mono [of _ "of_int m"] by fastforce
  then show ?thesis by (simp add: rounded_def m)
qed

lemma rounded_ge:
  assumes x: "0 < x" "y \<le> x" and y: "dyadic y"
  shows "y \<le> rounded x"
proof -
  let ?u = "ulp_exp x"
  from y obtain k e where ke: "y = of_int k * pow2 e" "\<bar>k\<bar> \<le> 2 ^ 53" "- 1074 \<le> e"
    by (auto simp: dyadic_def)
  have mono: "z \<le> x \<Longrightarrow> z = of_int m * pow2 ?u \<Longrightarrow> z \<le> rounded x" for z m
  proof -
    assume z: "z \<le> x" "z = of_int m * pow2 ?u"
    then have "of_int m \<le> x / pow2 ?u" by (simp add: le_divide_eq)
    then have "m \<le> round_even (x / pow2 ?u)" using round_even_mono [of "of_int m"] by fastforce
    then show "z \<le> rounded x" by (simp add: rounded_def z(2))
  qed
  show ?thesis
  proof (cases "?u \<le> e")
    case True
    from pow2_multiple [OF True] obtain m where "pow2 e = of_int m * pow2 ?u" by blast
    then show ?thesis by (intro mono [OF x(2), of "k * m"]) (simp add: ke(1))
  next
    case False
    then have lo: "2 ^ 52 * pow2 ?u \<le> x"
      using ulp_exp_scale(3) [OF x(1)] ke(3) by (simp add: le_divide_eq)
    have "2 ^ 52 * pow2 ?u \<le> rounded x" by (rule mono [OF lo, of "2 ^ 52"]) simp
    moreover have "2 * pow2 e \<le> pow2 ?u" using pow2_mono [of "e + 1" ?u] False by (simp add: pow2_Suc)
    moreover have "(of_int k :: rat) \<le> of_int (2 ^ 53)" using ke(2) by (simp only: of_int_le_iff abs_le_iff)
    then have "y \<le> 2 ^ 53 * pow2 e" by (simp add: ke(1))
    moreover have "2 ^ 53 * pow2 e = 2 ^ 52 * (2 * pow2 e)" by simp
    ultimately show ?thesis
      using mult_left_mono [of "2 * pow2 e" "pow2 ?u" "2 ^ 52"] by (metis order_trans zero_le_numeral zero_le_power)
  qed
qed

lemma dyadic_uminus [simp]: "dyadic (- y) \<longleftrightarrow> dyadic y"
proof -
  have "dyadic y \<Longrightarrow> dyadic (- y)" for y
    unfolding dyadic_def by (metis abs_minus_cancel mult_minus_left of_int_minus)
  from this [of y] this [of "- y"] show ?thesis by auto
qed

lemma dyadic_0 [simp]: "dyadic 0"
  unfolding dyadic_def by (intro exI [of _ 0]) simp

text \<open>A rational between two exact numbers is rounded to a finite number between them.\<close>

lemma f64_of_rat_between:
  assumes "a \<le> x" "x \<le> b" "dyadic a" "dyadic b" "- (2 ^ 1024) < a" "b < 2 ^ 1024"
  shows "\<exists>r. f64_of_rat x = FFin r \<and> a \<le> r \<and> r \<le> b"
proof (cases x "0 :: rat" rule: linorder_cases)
  case less
  have "rounded (- x) \<le> - a" by (rule rounded_le) (use less assms in simp_all)
  moreover have "- b \<le> rounded (- x)" by (rule rounded_ge) (use less assms in simp_all)
  ultimately show ?thesis using less assms by (auto simp: f64_of_rat_def round_pos_rounded)
next
  case equal
  then show ?thesis using assms by (simp add: f64_of_rat_def)
next
  case greater
  have "rounded x \<le> b" by (rule rounded_le) (use greater assms in simp_all)
  moreover have "a \<le> rounded x" by (rule rounded_ge) (use greater assms in simp_all)
  ultimately show ?thesis using greater assms by (auto simp: f64_of_rat_def round_pos_rounded)
qed

lemma f64_of_rat_exact:
  "dyadic x \<Longrightarrow> - (2 ^ 1024) < x \<Longrightarrow> x < 2 ^ 1024 \<Longrightarrow> f64_of_rat x = FFin x"
  using f64_of_rat_between [of x x x] by force

lemma rounded_mono:
  assumes "0 < x" "x \<le> y"
  shows "rounded x \<le> rounded y"
proof -
  let ?u = "ulp_exp x" and ?v = "ulp_exp y"
  note sx = ulp_exp_scale [OF assms(1)]
  have y: "0 < y" using assms by simp
  note sy = ulp_exp_scale [OF y]
  have top: "round_even (x / pow2 ?u) \<le> 2 ^ 53"
    using round_even_mono [of "x / pow2 ?u" "of_int (2 ^ 53)"] sx(1) by (simp only: round_even_int) simp
  consider "?u = ?v" | "?u < ?v" | "?v < ?u" by linarith
  then show ?thesis
  proof cases
    case 1
    have "x / pow2 ?v \<le> y / pow2 ?v" using assms(2) by (intro divide_right_mono) (simp_all add: less_imp_le)
    from round_even_mono [OF this] show ?thesis by (simp add: rounded_def 1)
  next
    case 2
    have "(of_int (round_even (x / pow2 ?u)) :: rat) \<le> of_int (2 ^ 53)" using top by (simp only: of_int_le_iff)
    then have "rounded x \<le> 2 ^ 53 * pow2 ?u" unfolding rounded_def by (intro mult_right_mono) (simp_all add: less_imp_le)
    also have "\<dots> = 2 ^ 52 * pow2 (?u + 1)" by (simp add: pow2_Suc)
    also have "\<dots> \<le> 2 ^ 52 * pow2 ?v" using pow2_mono [of "?u + 1" ?v] 2 by simp
    also have "\<dots> \<le> rounded y"
    proof (rule rounded_ge [OF y])
      show "2 ^ 52 * pow2 ?v \<le> y" using sy(3) 2 sx(2) by (simp add: le_divide_eq)
      show "dyadic (2 ^ 52 * pow2 ?v)" unfolding dyadic_def
        by (intro exI [of _ "2 ^ 52"] exI [of _ ?v]) (use sy(2) in simp)
    qed
    finally show ?thesis .
  next
    case 3
    then have "2 ^ 52 * pow2 ?u \<le> x" using sx(3) sy(2) by (simp add: le_divide_eq)
    moreover have "y < 2 ^ 53 * pow2 ?v" using sy(1) by (simp add: divide_less_eq)
    moreover have "2 ^ 53 * pow2 ?v = 2 ^ 52 * pow2 (?v + 1)" by (simp add: pow2_Suc)
    moreover have "2 ^ 52 * pow2 (?v + 1) \<le> 2 ^ 52 * pow2 ?u" using pow2_mono [of "?v + 1" ?u] 3 by simp
    ultimately have False using assms(2) by (metis leD le_less_trans order_trans)
    then show ?thesis ..
  qed
qed

lemma dyadic_power: "dyadic (2 ^ n)"
  unfolding dyadic_def by (intro exI [of _ 1] exI [of _ "int n"]) (simp add: pow2_of_nat)

lemma f64_of_rat_mono:
  assumes "0 \<le> x" "x \<le> y" "y \<le> 2 ^ 1023"
  obtains a b where "f64_of_rat x = FFin a" "f64_of_rat y = FFin b" "0 \<le> a" "a \<le> b" "b \<le> 2 ^ 1023"
proof -
  have p: "(0 :: rat) < 2 ^ 1024" "(2 :: rat) ^ 1023 < 2 ^ 1024" "- ((2 :: rat) ^ 1024) < 0" by simp_all
  have fin: "\<exists>r. f64_of_rat z = FFin r \<and> 0 \<le> r \<and> r \<le> 2 ^ 1023" if "0 \<le> z" "z \<le> 2 ^ 1023" for z
    using f64_of_rat_between [OF that dyadic_0 dyadic_power p(3,2)] .
  obtain a b where ab: "f64_of_rat x = FFin a" "f64_of_rat y = FFin b" "0 \<le> a" "0 \<le> b" "b \<le> 2 ^ 1023"
    using fin [of x] fin [of y] assms by force
  have "a \<le> b"
  proof (cases "x = 0")
    case True
    then show ?thesis using ab by (simp add: f64_of_rat_def)
  next
    case False
    then have "0 < x" "0 < y" using assms by simp_all
    then show ?thesis using ab rounded_mono [of x y] assms(2)
      by (auto simp: f64_of_rat_def round_pos_rounded split: if_splits)
  qed
  then show ?thesis using that ab by blast
qed

text \<open>The ratio of two 64-bit counts, as the statistics compute it.\<close>

lemma count_ratio:
  assumes "a \<le> b" "b \<le> c" "0 < c" "c < 2 ^ 64"
  obtains p q where "f64_div (f64_of_int (int a)) (f64_of_int (int c)) = FFin p"
    "f64_div (f64_of_int (int b)) (f64_of_int (int c)) = FFin q" "0 \<le> p" "p \<le> q" "q \<le> 1"
proof -
  have c: "(of_nat c :: rat) \<le> 2 ^ 64" using assms(4) of_nat_mono [of c "2 ^ 64", where 'a = rat] by simp
  have huge: "(2 :: rat) ^ 64 \<le> 2 ^ 1023" by simp
  have le: "(0 :: rat) \<le> of_nat a" "(of_nat a :: rat) \<le> of_nat b" "(of_nat b :: rat) \<le> of_nat c"
    using assms by simp_all
  obtain fa fb where ab: "f64_of_rat (of_nat a) = FFin fa" "f64_of_rat (of_nat b) = FFin fb" "0 \<le> fa" "fa \<le> fb"
    by (rule f64_of_rat_mono [OF le(1,2)]) (use le(3) c huge in linarith)+
  obtain fb' fc where bc: "f64_of_rat (of_nat b) = FFin fb'" "f64_of_rat (of_nat c) = FFin fc" "fb' \<le> fc"
    by (rule f64_of_rat_mono [OF order_trans [OF le(1,2)] le(3)]) (use c huge in linarith)+
  have "1 \<le> fc"
    using f64_of_rat_mono [of 1 "of_nat c"] bc(2) assms(3) c huge f64_of_rat_int [of 1] by force
  moreover have "fb' = fb" using ab bc by simp
  ultimately have pos: "0 < fc" and div: "0 \<le> fa / fc" "fa / fc \<le> fb / fc" "fb / fc \<le> 1"
    using ab bc by (auto simp: divide_right_mono)
  have one: "f64_of_rat 1 = FFin 1" using f64_of_rat_int [of 1] by simp
  obtain p q where pq: "f64_of_rat (fa / fc) = FFin p" "f64_of_rat (fb / fc) = FFin q" "0 \<le> p" "p \<le> q"
    by (rule f64_of_rat_mono [OF div(1,2)]) (rule order_trans [OF div(3)], simp, blast)
  obtain q' r where "f64_of_rat (fb / fc) = FFin q'" "f64_of_rat 1 = FFin r" "q' \<le> r"
    by (rule f64_of_rat_mono [OF order_trans [OF div(1,2)] div(3)]) simp_all
  then have "q \<le> 1" using pq one by simp
  then show ?thesis using that [of p q] pq ab bc by (simp add: f64_of_int_def)
qed

lemma dyadic_halves:
  assumes "\<bar>k\<bar> \<le> 2 ^ 53"
  shows "dyadic (of_int k)" "dyadic (of_int k / 2)" "dyadic (of_int k / 4)"
proof -
  show "dyadic (of_int k)" unfolding dyadic_def
    by (intro exI [of _ k] exI [of _ 0]) (use assms in \<open>simp add: pow2_def\<close>)
  show "dyadic (of_int k / 2)" unfolding dyadic_def
    by (intro exI [of _ k] exI [of _ "- 1"]) (use assms in \<open>simp add: pow2_def\<close>)
  show "dyadic (of_int k / 4)" unfolding dyadic_def
    by (intro exI [of _ k] exI [of _ "- 2"]) (use assms in \<open>simp add: pow2_def\<close>)
qed


lemma f64_of_u64:
  fixes w :: u64
  assumes "unat w = n" "n \<le> 2 ^ 53"
  shows "f64_of_int (uint w) = FFin (of_nat n)"
proof -
  have "uint w = int n" unfolding assms(1) [symmetric] by (rule uint_nat)
  moreover have "f64_of_int (int n) = FFin (of_nat n)" using f64_of_int_exact [of "int n"] assms(2) by simp
  ultimately show ?thesis by simp
qed

section \<open>Minimum, maximum and ranges\<close>

text \<open>\<open>f64::min\<close> and \<open>f64::max\<close> return the other operand of a NaN.\<close>

definition f64_min :: "f64 \<Rightarrow> f64 \<Rightarrow> f64" where
  "f64_min x y = (if x = FNaN then y else if y = FNaN then x else if f64_total_less y x then y else x)"

definition f64_max :: "f64 \<Rightarrow> f64 \<Rightarrow> f64" where
  "f64_max x y = (if x = FNaN then y else if y = FNaN then x else if f64_total_less x y then y else x)"

text \<open>\<open>(a..=b).contains(&x)\<close> for finite bounds; false for NaN.\<close>

definition f64_in_range :: "rat \<Rightarrow> rat \<Rightarrow> f64 \<Rightarrow> bool" where
  "f64_in_range a b x \<longleftrightarrow> (case x of FFin r \<Rightarrow> a \<le> r \<and> r \<le> b | _ \<Rightarrow> False)"

lemma f64_in_range_iff: "f64_in_range a b x \<longleftrightarrow> (\<exists>r. x = FFin r \<and> a \<le> r \<and> r \<le> b)"
  by (cases x) (simp_all add: f64_in_range_def)

section \<open>Delays with jitter\<close>

text \<open>
  The common part of \<open>HeartbeatConfig::calculate_next_interval\<close> and
  \<open>ReconnectionConfig::calculate_delay\<close>: a base delay in milliseconds moved by at most the
  fraction \<open>jitter\<close> of itself; \<open>random\<close> is the number drawn from the unit interval.
\<close>

definition with_jitter :: "f64 \<Rightarrow> f64 \<Rightarrow> f64 \<Rightarrow> u64" where
  "with_jitter random jitter base =
     (let range = f64_mul base jitter;
          moved = f64_mul (f64_mul_add random (FFin 2) (FFin (- 1))) range in
      f64_as_u64 (f64_max (f64_add base moved) (FFin 1)))"

definition in_unit :: "f64 \<Rightarrow> bool" where
  "in_unit x \<longleftrightarrow> f64_in_range 0 1 x"

lemma f64_as_u64_floor: "0 \<le> z \<Longrightarrow> z < 2 ^ 64 \<Longrightarrow> unat (f64_as_u64 (FFin z)) = nat \<lfloor>z\<rfloor>"
proof -
  assume z: "0 \<le> z" "z < 2 ^ 64"
  then have b: "0 \<le> \<lfloor>z\<rfloor>" "\<lfloor>z\<rfloor> < 2 ^ 64" by (simp_all add: floor_less_iff)
  have "f64_as_u64 (FFin z) = word_of_int \<lfloor>z\<rfloor>" using z(1) b(2) by (simp add: rat_trunc_def)
  then show ?thesis using b by (simp only: unat_eq_nat_uint uint_word_of_int) simp
qed

lemma f64_of_rat_abs:
  assumes "\<bar>x\<bar> \<le> b" "dyadic b" "b < 2 ^ 1024"
  shows "\<exists>r. f64_of_rat x = FFin r \<and> \<bar>r\<bar> \<le> b"
proof -
  have "- b \<le> x" "x \<le> b" using assms(1) by linarith+
  from f64_of_rat_between [OF this] assms show ?thesis by (force simp: abs_le_iff)
qed

lemma dyadic_nat: "n \<le> 2 ^ 53 \<Longrightarrow> dyadic (of_nat n)" "n \<le> 2 ^ 53 \<Longrightarrow> dyadic (of_nat n / 2)"
proof -
  have "n \<le> 2 ^ 53 \<Longrightarrow> \<bar>int n\<bar> \<le> 2 ^ 53" by simp
  from dyadic_halves [OF this]
  show "n \<le> 2 ^ 53 \<Longrightarrow> dyadic (of_nat n)" "n \<le> 2 ^ 53 \<Longrightarrow> dyadic (of_nat n / 2)" by simp_all
qed

lemma with_jitter_bounds:
  assumes m: "m \<le> 2 ^ 51" and base: "0 \<le> base" "base \<le> of_nat m"
    and random: "in_unit random" and jitter: "f64_in_range 0 (1 / 2) jitter"
  shows "1 \<le> unat (with_jitter random jitter (FFin base))"
    and "unat (with_jitter random jitter (FFin base)) \<le> max 1 (3 * m div 2)"
    and "base = of_nat m \<Longrightarrow> m div 2 \<le> unat (with_jitter random jitter (FFin base))"
proof -
  obtain r where r: "random = FFin r" "0 \<le> r" "r \<le> 1"
    using random by (auto simp: in_unit_def f64_in_range_iff)
  obtain j where j: "jitter = FFin j" "0 \<le> j" "j \<le> 1 / 2"
    using jitter by (auto simp: f64_in_range_iff)
  have small: "(of_nat (3 * m) :: rat) \<le> of_nat (3 * 2 ^ 51)" using m by (simp only: of_nat_le_iff mult_le_mono2)
  have half: "dyadic (of_nat m / 2)" "dyadic (of_nat (3 * m) / 2)"
    using m dyadic_nat(2) [of m] dyadic_nat(2) [of "3 * m"] by simp_all
  have "base * j \<le> of_nat m * (1 / 2)" by (rule mult_mono) (use base j in simp_all)
  then obtain g where g: "f64_mul (FFin base) jitter = FFin g" "0 \<le> g" "g \<le> of_nat m / 2"
    using f64_of_rat_between [of 0 "base * j" "of_nat m / 2"] half base j small by auto
  obtain s where s: "f64_mul_add random (FFin 2) (FFin (- 1)) = FFin s" "\<bar>s\<bar> \<le> 1"
    using f64_of_rat_between [of "- 1" "r * 2 - 1" 1] dyadic_nat(1) [of 1] r by auto
  have "\<bar>s * g\<bar> \<le> 1 * (of_nat m / 2)"
    unfolding abs_mult using s(2) g(2,3) by (intro mult_mono) simp_all
  then obtain t where t: "f64_mul (FFin s) (FFin g) = FFin t" "\<bar>t\<bar> \<le> of_nat m / 2"
    using f64_of_rat_abs [of "s * g" "of_nat m / 2"] half(1) small by auto
  define lo where "lo = (if base = of_nat m then of_nat m / 2 else - (of_nat m / 2) :: rat)"
  have lo: "dyadic lo" "- (2 ^ 1024) < lo" using half(1) small by (simp_all add: lo_def)
  have "lo \<le> base + t" "base + t \<le> of_nat (3 * m) / 2" using t(2) base by (auto simp: lo_def abs_le_iff)
  then obtain z where z: "f64_add (FFin base) (FFin t) = FFin z" "lo \<le> z" "z \<le> of_nat (3 * m) / 2"
    using f64_of_rat_between [of lo "base + t" "of_nat (3 * m) / 2"] lo half(2) small by auto
  have eq: "with_jitter random jitter (FFin base) = f64_as_u64 (FFin (max z 1))"
    by (simp add: with_jitter_def Let_def g(1) s(1) t(1) z(1) f64_max_def max_def del: f64_as_u64.simps
        f64_mul.simps f64_mul_add.simps f64_add.simps)
  have "max z 1 < 2 ^ 64" using z(3) small by simp
  then have val: "unat (with_jitter random jitter (FFin base)) = nat \<lfloor>max z 1\<rfloor>"
    unfolding eq by (intro f64_as_u64_floor) simp_all
  show "1 \<le> unat (with_jitter random jitter (FFin base))" by (simp add: val le_nat_iff le_floor_iff)
  show "unat (with_jitter random jitter (FFin base)) \<le> max 1 (3 * m div 2)"
  proof -
    have "\<lfloor>z\<rfloor> \<le> \<lfloor>(of_nat (3 * m) :: rat) / 2\<rfloor>" using z(3) by (rule floor_mono)
    also have "\<dots> = int (3 * m div 2)"
      using floor_divide_of_nat_eq [of "3 * m" 2, where 'a = rat] by simp
    finally have "nat \<lfloor>z\<rfloor> \<le> 3 * m div 2" by (simp only: nat_le_iff)
    then show ?thesis by (simp add: val max_def)
  qed
  show "m div 2 \<le> unat (with_jitter random jitter (FFin base))" if "base = of_nat m"
  proof -
    have "int (m div 2) = \<lfloor>(of_nat m :: rat) / 2\<rfloor>"
      using floor_divide_of_nat_eq [of m 2, where 'a = rat] by simp
    also have "\<dots> \<le> \<lfloor>max z 1\<rfloor>" using z(2) that by (intro floor_mono) (simp add: lo_def)
    finally show ?thesis by (simp add: val le_nat_iff)
  qed
qed

end
