(* ===== verification/Bounded_Channel.thy ===== *)
theory Bounded_Channel
  imports Fifo_Queue
begin

text \<open>
  The bounded multi-producer channel of tokio as the adapter uses it: \<open>try_send\<close> never waits and
  hands a refused value back, the one receiver takes the oldest value. The channel is library
  code; this is its documented behaviour. A channel of capacity zero cannot be made (the
  library panics). While the receiver exists the channel is a lawful \<open>bounded_queue\<close>.
\<close>

record 'a channel =
  ch_capacity :: usize
  ch_queue :: "'a list"
  ch_open :: bool

datatype 'a try_send_error = TsFull 'a | TsClosed 'a

definition channel_new :: "usize \<Rightarrow> ('a channel, 'e) result" where
  "channel_new n = (if n = 0 then Panic else Ok \<lparr>ch_capacity = n, ch_queue = [], ch_open = True\<rparr>)"

definition channel_try_send :: "'a \<Rightarrow> 'a channel \<Rightarrow> (unit, 'a try_send_error) result \<times> 'a channel" where
  "channel_try_send x c =
     (if \<not> ch_open c then (Err (TsClosed x), c)
      else if length (ch_queue c) < ch_capacity c then (Ok (), c\<lparr>ch_queue := ch_queue c @ [x]\<rparr>)
      else (Err (TsFull x), c))"

definition channel_try_recv :: "'a channel \<Rightarrow> 'a option \<times> 'a channel" where
  "channel_try_recv c =
     (case ch_queue c of [] \<Rightarrow> (None, c) | x # xs \<Rightarrow> (Some x, c\<lparr>ch_queue := xs\<rparr>))"

text \<open>\<open>Sender::capacity\<close>: the free slots.\<close>

definition channel_free :: "'a channel \<Rightarrow> usize" where
  "channel_free c = ch_capacity c - length (ch_queue c)"

definition channel_drop_receiver :: "'a channel \<Rightarrow> 'a channel" where
  "channel_drop_receiver c = c\<lparr>ch_queue := [], ch_open := False\<rparr>"

definition channel_ok :: "'a channel \<Rightarrow> bool" where
  "channel_ok c \<longleftrightarrow> length (ch_queue c) \<le> ch_capacity c"

lemma channel_ok_step [simp]:
  "channel_ok c \<Longrightarrow> channel_ok (snd (channel_try_send x c))"
  "channel_ok c \<Longrightarrow> channel_ok (snd (channel_try_recv c))"
  "channel_ok (channel_drop_receiver c)"
  "channel_new n = Ok c \<Longrightarrow> channel_ok c"
  by (auto simp: channel_ok_def channel_try_send_def channel_try_recv_def channel_drop_receiver_def channel_new_def
      split: list.split if_splits)

lemma channel_capacity_step [simp]:
  "ch_capacity (snd (channel_try_send x c)) = ch_capacity c"
  "ch_capacity (snd (channel_try_recv c)) = ch_capacity c"
  by (auto simp: channel_try_send_def channel_try_recv_def split: list.split)

section \<open>The channel as a bounded queue\<close>

definition channel_push :: "'a channel \<Rightarrow> 'a \<Rightarrow> (bool \<times> 'a channel, 'e) result" where
  "channel_push c x = (case channel_try_send x c of (r, c') \<Rightarrow> Ok (r = Ok (), c'))"

definition channel_pop :: "'a channel \<Rightarrow> ('a option \<times> 'a channel, 'e) result" where
  "channel_pop c = Ok (channel_try_recv c)"

definition channel_inv :: "'a channel \<Rightarrow> bool" where
  "channel_inv c \<longleftrightarrow> channel_ok c \<and> ch_open c"

interpretation cq: bounded_queue channel_inv ch_queue ch_capacity channel_push channel_pop
  by unfold_locales
    (auto simp: channel_inv_def channel_ok_def channel_push_def channel_pop_def channel_try_send_def channel_try_recv_def)

end
