(* ===== verification/Backpressure.thy ===== *)
theory Backpressure
  imports F64_Order Bounded_Channel
begin

text \<open>
  \<open>flash/src/publisher/backpressure.rs\<close>: the counting sender over a bounded channel. A call is the
  send on the channel and then one atomic increment, so calls of several
  threads are interleaved at that point. Log output is left out.
\<close>

datatype backpressure_policy = BpDropNewest | BpWarnAndContinue

fun backpressure_policy_display :: "backpressure_policy \<Rightarrow> string" where
  "backpressure_policy_display BpDropNewest = ''DropNewest''"
| "backpressure_policy_display BpWarnAndContinue = ''WarnAndContinue''"

record bp_config =
  bpc_channel_capacity :: usize
  bpc_policy :: backpressure_policy
  bpc_warn_on_drop :: bool
  bpc_drop_rate_alert_threshold :: f64

definition bp_config_default :: bp_config where
  "bp_config_default =
     \<lparr>bpc_channel_capacity = 1000, bpc_policy = BpDropNewest, bpc_warn_on_drop = True,
      bpc_drop_rate_alert_threshold = f64_of_rat (1 / 100)\<rparr>"

record bp_config_builder =
  bpb_channel_capacity :: "usize option"
  bpb_policy :: "backpressure_policy option"
  bpb_warn_on_drop :: "bool option"
  bpb_drop_rate_alert_threshold :: "f64 option"

definition bp_builder :: bp_config_builder where
  "bp_builder = \<lparr>bpb_channel_capacity = None, bpb_policy = None, bpb_warn_on_drop = None,
     bpb_drop_rate_alert_threshold = None\<rparr>"

definition bpb_with_capacity :: "usize \<Rightarrow> bp_config_builder \<Rightarrow> bp_config_builder" where
  "bpb_with_capacity n b = b\<lparr>bpb_channel_capacity := Some n\<rparr>"

definition bpb_with_policy :: "backpressure_policy \<Rightarrow> bp_config_builder \<Rightarrow> bp_config_builder" where
  "bpb_with_policy p b = b\<lparr>bpb_policy := Some p\<rparr>"

definition bpb_with_warn_on_drop :: "bool \<Rightarrow> bp_config_builder \<Rightarrow> bp_config_builder" where
  "bpb_with_warn_on_drop w b = b\<lparr>bpb_warn_on_drop := Some w\<rparr>"

definition bpb_with_threshold :: "f64 \<Rightarrow> bp_config_builder \<Rightarrow> bp_config_builder" where
  "bpb_with_threshold t b = b\<lparr>bpb_drop_rate_alert_threshold := Some t\<rparr>"

definition unwrap_or :: "'a option \<Rightarrow> 'a \<Rightarrow> 'a" where
  "unwrap_or x d = (case x of None \<Rightarrow> d | Some v \<Rightarrow> v)"

definition bpb_build :: "bp_config_builder \<Rightarrow> bp_config" where
  "bpb_build b =
     \<lparr>bpc_channel_capacity = unwrap_or (bpb_channel_capacity b) (bpc_channel_capacity bp_config_default),
      bpc_policy = unwrap_or (bpb_policy b) (bpc_policy bp_config_default),
      bpc_warn_on_drop = unwrap_or (bpb_warn_on_drop b) (bpc_warn_on_drop bp_config_default),
      bpc_drop_rate_alert_threshold =
        unwrap_or (bpb_drop_rate_alert_threshold b) (bpc_drop_rate_alert_threshold bp_config_default)\<rparr>"

section \<open>Counters\<close>

record bp_metrics =
  bm_dropped :: u64
  bm_sent :: u64

definition bp_metrics_new :: bp_metrics where
  "bp_metrics_new = \<lparr>bm_dropped = 0, bm_sent = 0\<rparr>"

definition increment_dropped :: "bp_metrics \<Rightarrow> bp_metrics" where
  "increment_dropped m = m\<lparr>bm_dropped := bm_dropped m + 1\<rparr>"

definition increment_sent :: "bp_metrics \<Rightarrow> bp_metrics" where
  "increment_sent m = m\<lparr>bm_sent := bm_sent m + 1\<rparr>"

text \<open>The sum of the two counters is a checked addition.\<close>

definition total_frames :: "bp_metrics \<Rightarrow> (u64, 'e) result" where
  "total_frames m =
     (if unat (bm_sent m) + unat (bm_dropped m) < 2 ^ 64 then Ok (bm_sent m + bm_dropped m) else Panic)"

definition drop_rate :: "bp_metrics \<Rightarrow> (f64, 'e) result" where
  "drop_rate m =
     map_ok (\<lambda>total. if total = 0 then FFin 0
                     else f64_div (f64_of_int (uint (bm_dropped m))) (f64_of_int (uint total))) (total_frames m)"

definition f64_greater :: "f64 \<Rightarrow> f64 \<Rightarrow> bool" where
  "f64_greater x y \<longleftrightarrow> f64_less y x"

definition exceeds_alert_threshold :: "f64 \<Rightarrow> bp_metrics \<Rightarrow> (bool, 'e) result" where
  "exceeds_alert_threshold t m = map_ok (\<lambda>r. f64_greater r t) (drop_rate m)"

definition bp_metrics_reset :: "bp_metrics \<Rightarrow> bp_metrics" where
  "bp_metrics_reset m = m\<lparr>bm_dropped := 0, bm_sent := 0\<rparr>"

section \<open>The sender\<close>

datatype 'a bp_send_error = BseChannelFull 'a | BseChannelClosed 'a

record 'a bp_sender =
  bse_tx :: "'a channel"
  bse_metrics :: bp_metrics
  bse_config :: bp_config

definition bp_sender_new :: "bp_config \<Rightarrow> ('a bp_sender, 'e) result" where
  "bp_sender_new c =
     map_ok (\<lambda>tx. \<lparr>bse_tx = tx, bse_metrics = bp_metrics_new, bse_config = c\<rparr>) (channel_new (bpc_channel_capacity c))"

definition bp_with_capacity :: "usize \<Rightarrow> ('a bp_sender, 'e) result" where
  "bp_with_capacity n = bp_sender_new (bpb_build (bpb_with_capacity n bp_builder))"

text \<open>The second half of a call: the counter for the result of the first.\<close>

fun count_send :: "(unit, 'a try_send_error) result \<Rightarrow> bp_metrics \<Rightarrow> bp_metrics" where
  "count_send (Ok u) m = increment_sent m"
| "count_send (Err e) m = increment_dropped m"
| "count_send Panic m = m"

fun send_result :: "(unit, 'a try_send_error) result \<Rightarrow> (unit, 'a bp_send_error) result" where
  "send_result (Ok u) = Ok ()"
| "send_result (Err (TsFull x)) = Err (BseChannelFull x)"
| "send_result (Err (TsClosed x)) = Err (BseChannelClosed x)"
| "send_result Panic = Panic"

definition bp_try_send :: "'a \<Rightarrow> 'a bp_sender \<Rightarrow> (unit, 'a bp_send_error) result \<times> 'a bp_sender" where
  "bp_try_send x s =
     (let (r, tx) = channel_try_send x (bse_tx s) in
      (send_result r, s\<lparr>bse_tx := tx, bse_metrics := count_send r (bse_metrics s)\<rparr>))"

definition bp_capacity_of :: "'a bp_sender \<Rightarrow> usize" where
  "bp_capacity_of s = bpc_channel_capacity (bse_config s)"

definition available_capacity :: "'a bp_sender \<Rightarrow> usize" where
  "available_capacity s = channel_free (bse_tx s)"

definition bp_is_full :: "'a bp_sender \<Rightarrow> bool" where
  "bp_is_full s \<longleftrightarrow> channel_free (bse_tx s) = 0"

definition bp_is_empty :: "'a bp_sender \<Rightarrow> bool" where
  "bp_is_empty s \<longleftrightarrow> channel_free (bse_tx s) = bpc_channel_capacity (bse_config s)"

definition send_with_backpressure :: "'a channel \<Rightarrow> 'a \<Rightarrow> bp_metrics \<Rightarrow> 'a channel \<times> bp_metrics" where
  "send_with_backpressure tx x m = (let (r, tx') = channel_try_send x tx in (tx', count_send r m))"

section \<open>Many senders and one receiver\<close>

text \<open>
  \<open>bp_reach n ops outs s P\<close>: the sender state \<open>s\<close> is reached over a channel of capacity \<open>n\<close>
  by the channel operations \<open>ops\<close> with outcomes \<open>outs\<close>, with the calls \<open>P\<close> between
  the channel operation and its counting.
\<close>

inductive bp_reach ::
  "bp_config \<Rightarrow> 'a queue_op list \<Rightarrow> 'a queue_out list \<Rightarrow> 'a bp_sender \<Rightarrow> (unit, 'a try_send_error) result list \<Rightarrow> bool"
  for c where
  start: "bp_sender_new c = (Ok s :: (_, unit) result) \<Longrightarrow> bp_reach c [] [] s []"
| send: "bp_reach c ops outs s P \<Longrightarrow> channel_try_send x (bse_tx s) = (r, tx) \<Longrightarrow>
     bp_reach c (ops @ [QPush x]) (outs @ [Pushed (r = Ok ())]) (s\<lparr>bse_tx := tx\<rparr>) (r # P)"
| count: "bp_reach c ops outs s (P @ r # Q) \<Longrightarrow>
     bp_reach c ops outs (s\<lparr>bse_metrics := count_send r (bse_metrics s)\<rparr>) (P @ Q)"
| receive: "bp_reach c ops outs s P \<Longrightarrow> channel_try_recv (bse_tx s) = (v, tx) \<Longrightarrow>
     bp_reach c (ops @ [QPop]) (outs @ [Popped v]) (s\<lparr>bse_tx := tx\<rparr>) P"

text \<open>Refused pushes of a run.\<close>

fun refusals :: "'a queue_out list \<Rightarrow> nat" where
  "refusals [] = 0"
| "refusals (Pushed False # outs) = Suc (refusals outs)"
| "refusals (_ # outs) = refusals outs"

lemma refusals_append [simp]: "refusals (xs @ ys) = refusals xs + refusals ys"
  by (induction xs rule: refusals.induct) simp_all

fun outcome_ok :: "'a queue_op \<Rightarrow> 'a queue_out \<Rightarrow> bool" where
  "outcome_ok (QPush x) (Pushed b) = True"
| "outcome_ok QPop (Popped v) = True"
| "outcome_ok _ _ = False"

lemma accepted_snoc:
  "list_all2 outcome_ok ops outs \<Longrightarrow>
     length (accepted (ops @ [p]) (outs @ [v])) = length (accepted ops outs) + length (accepted [p] [v])"
proof (induction rule: list_all2_induct)
  case (Cons q ops w outs)
  then show ?case by (cases q; cases w) simp_all
qed simp

lemma accepted_refusals: "list_all2 outcome_ok ops outs \<Longrightarrow> length (accepted ops outs) + refusals outs \<le> length ops"
proof (induction rule: list_all2_induct)
  case (Cons q ops w outs)
  then show ?case by (cases q; cases w) (auto split: if_splits bool.splits)
qed simp

lemma run_queue_snoc:
  "run_queue push pop q ops = Ok (outs, q1) \<Longrightarrow> run_queue push pop q1 [p] = Ok ([v], q2) \<Longrightarrow>
     run_queue push pop q (ops @ [p]) = Ok (outs @ [v], q2)"
  by (induction push pop q ops arbitrary: outs rule: run_queue.induct) (auto simp: rbind_Ok_iff)

definition is_sent :: "(unit, 'a try_send_error) result \<Rightarrow> bool" where
  "is_sent r \<longleftrightarrow> r = Ok ()"

definition start_channel :: "bp_config \<Rightarrow> 'a channel" where
  "start_channel c = \<lparr>ch_capacity = bpc_channel_capacity c, ch_queue = [], ch_open = True\<rparr>"

lemma send_not_panic: "channel_try_send x tx = (r, tx') \<Longrightarrow> r \<noteq> Panic"
  by (auto simp: channel_try_send_def split: if_splits)

lemma bp_reach_invariant:
  "bp_reach c ops outs s P \<Longrightarrow>
     channel_inv (start_channel c :: 'a channel) \<and> 0 < bpc_channel_capacity c \<and> list_all2 outcome_ok ops outs \<and>
     run_queue channel_push channel_pop (start_channel c) ops = (Ok (outs, bse_tx s) :: (_, unit) result) \<and>
     (\<forall>r\<in>set P. r \<noteq> Panic) \<and>
     bm_sent (bse_metrics s) + of_nat (length (filter is_sent P)) = of_nat (length (accepted ops outs)) \<and>
     bm_dropped (bse_metrics s) + of_nat (length (filter (\<lambda>r. \<not> is_sent r) P)) = of_nat (refusals outs)"
proof (induction rule: bp_reach.induct)
  case (start s)
  then show ?case
    by (auto simp: bp_sender_new_def channel_new_def map_ok_Ok_iff bp_metrics_new_def start_channel_def channel_inv_def
        channel_ok_def split: if_splits)
next
  case (send ops outs s P x r tx)
  note ih = send.IH
  have "run_queue channel_push channel_pop (bse_tx s) [QPush x] = (Ok ([Pushed (r = Ok ())], tx) :: (_, unit) result)"
    by (simp add: channel_push_def send.hyps(2))
  from run_queue_snoc [OF _ this, of "start_channel c" ops outs] ih
  have run: "run_queue channel_push channel_pop (start_channel c) (ops @ [QPush x])
      = (Ok (outs @ [Pushed (r = Ok ())], tx) :: (_, unit) result)" by blast
  have p: "r \<noteq> Panic" using send_not_panic [OF send.hyps(2)] .
  have len: "length (accepted (ops @ [QPush x]) (outs @ [Pushed (r = Ok ())])) =
      length (accepted ops outs) + (if is_sent r then 1 else 0)"
    using accepted_snoc [of ops outs "QPush x" "Pushed (r = Ok ())"] ih by (simp add: is_sent_def)
  have ref: "refusals (outs @ [Pushed (r = Ok ())]) = refusals outs + (if is_sent r then 0 else 1)"
    by (cases "r = Ok ()") (simp_all add: is_sent_def)
  have ok: "list_all2 outcome_ok (ops @ [QPush x]) (outs @ [Pushed (r = Ok ())])"
    using ih by (intro list_all2_appendI) simp_all
  show ?case
    unfolding len ref using ih run p ok by (cases "is_sent r") (simp_all add: algebra_simps)
next
  case (count ops outs s P r Q)
  then show ?case by (cases r) (auto simp: is_sent_def increment_sent_def increment_dropped_def algebra_simps)
next
  case (receive ops outs s P v tx)
  note ih = receive.IH
  have "run_queue channel_push channel_pop (bse_tx s) [QPop] = (Ok ([Popped v], tx) :: (_, unit) result)"
    by (simp add: channel_pop_def receive.hyps(2))
  from run_queue_snoc [OF _ this, of "start_channel c" ops outs] ih
  have run: "run_queue channel_push channel_pop (start_channel c) (ops @ [QPop])
      = (Ok (outs @ [Popped v], tx) :: (_, unit) result)" by blast
  have "length (accepted (ops @ [QPop]) (outs @ [Popped v])) = length (accepted ops outs)"
    using accepted_snoc [of ops outs QPop "Popped v"] ih by simp
  moreover have "list_all2 outcome_ok (ops @ [QPop]) (outs @ [Popped v])"
    using ih by (intro list_all2_appendI) simp_all
  ultimately show ?case using ih run by simp
qed

text \<open>
  C23: However sends, receives and countings of any threads interleave: what was received
  followed by what waits in the channel is what was accepted, in order, and never more
  waits than the capacity; when no call is under way the counters are the numbers of accepted
  and refused values, and the drop rate lies between zero and one.
\<close>

theorem backpressure_accounts:
  assumes "bp_reach c ops outs s P"
  shows "accepted ops outs = delivered outs @ ch_queue (bse_tx s) \<and>
    length (ch_queue (bse_tx s)) \<le> bpc_channel_capacity c \<and>
    (P = [] \<and> length ops < 2 ^ 64 \<longrightarrow>
       unat (bm_sent (bse_metrics s)) = length (accepted ops outs) \<and>
       unat (bm_dropped (bse_metrics s)) = refusals outs \<and>
       (\<exists>r. drop_rate (bse_metrics s) = Ok (FFin r) \<and> 0 \<le> r \<and> r \<le> 1))"
proof -
  note inv = bp_reach_invariant [OF assms]
  have chan: "channel_inv (start_channel c :: 'a channel)"
    "run_queue channel_push channel_pop (start_channel c) ops = (Ok (outs, bse_tx s) :: (_, unit) result)"
    using inv by blast+
  have cons: "accepted ops outs = delivered outs @ ch_queue (bse_tx s)"
    "length (ch_queue (bse_tx s)) \<le> bpc_channel_capacity c"
    using cq.run_conserves [OF chan] by (simp_all add: start_channel_def)
  have "length (accepted ops outs) + refusals outs \<le> length ops"
    using inv by (intro accepted_refusals) blast
  moreover have "unat (bm_sent (bse_metrics s)) = length (accepted ops outs)"
    "unat (bm_dropped (bse_metrics s)) = refusals outs"
    if P: "P = []" and lt: "length (accepted ops outs) + refusals outs < 2 ^ 64"
  proof -
    have none: "of_nat (length (filter Q P)) = (0 :: u64)" for Q by (simp add: P)
    have sent: "bm_sent (bse_metrics s) + of_nat (length (filter is_sent P)) = of_nat (length (accepted ops outs))"
      and dropped: "bm_dropped (bse_metrics s) + of_nat (length (filter (\<lambda>r. \<not> is_sent r) P)) = of_nat (refusals outs)"
      using inv by blast+
    note eq = sent [unfolded none add_0_right] dropped [unfolded none add_0_right]
    show "unat (bm_sent (bse_metrics s)) = length (accepted ops outs)"
      "unat (bm_dropped (bse_metrics s)) = refusals outs"
      unfolding eq using lt by (intro unat_u64_small; simp add: usize_limit_def)+
  qed
  moreover have "\<exists>r. drop_rate m = Ok (FFin r) \<and> 0 \<le> r \<and> r \<le> 1"
    if lt: "unat (bm_sent m) + unat (bm_dropped m) < 2 ^ 64" for m
  proof (cases "bm_sent m + bm_dropped m = 0")
    case True
    then show ?thesis using lt by (simp add: drop_rate_def total_frames_def)
  next
    case False
    have u: "unat (bm_sent m + bm_dropped m) = unat (bm_sent m) + unat (bm_dropped m)"
      using lt by (simp add: unat_word_ariths)
    have "bm_dropped m = of_nat (unat (bm_dropped m))" by simp
    have pos: "0 < unat (bm_sent m + bm_dropped m)" using False by (simp add: unat_gt_0)
    obtain p q where "f64_div (f64_of_int (int (unat (bm_dropped m)))) (f64_of_int (int (unat (bm_sent m + bm_dropped m)))) = FFin q"
      "0 \<le> p" "p \<le> q" "q \<le> 1"
      by (rule count_ratio [OF order_refl, of "unat (bm_dropped m)" "unat (bm_sent m + bm_dropped m)"])
        (use lt u pos in auto)
    then show ?thesis using False lt by (auto simp: drop_rate_def total_frames_def)
  qed
  ultimately show ?thesis using cons by fastforce
qed


definition two_slot_config :: bp_config where
  "two_slot_config = bpb_build (bpb_with_capacity 2 bp_builder)"

definition two_slot_sender :: "nat list \<Rightarrow> bp_metrics \<Rightarrow> nat bp_sender" where
  "two_slot_sender xs m = \<lparr>bse_tx = \<lparr>ch_capacity = 2, ch_queue = xs, ch_open = True\<rparr>, bse_metrics = m, bse_config = two_slot_config\<rparr>"

text \<open>Three sends into two slots, then one receive.\<close>

lemma two_slot_reached:
  "bp_reach two_slot_config ([] @ [QPush 7] @ [QPush 8] @ [QPush 9] @ [QPop])
     ([] @ [Pushed True] @ [Pushed True] @ [Pushed False] @ [Popped (Some 7)])
     (two_slot_sender [8] \<lparr>bm_dropped = 1, bm_sent = 2\<rparr>) []"
proof -
  let ?s = two_slot_sender and ?m = "\<lambda>d s. \<lparr>bm_dropped = d, bm_sent = s\<rparr>"
  have "bp_reach two_slot_config [] [] (?s [] (?m 0 0)) []"
    by (rule bp_reach.start) (simp add: bp_sender_new_def channel_new_def two_slot_config_def bpb_build_def
        bpb_with_capacity_def bp_builder_def unwrap_or_def two_slot_sender_def bp_metrics_new_def)
  from bp_reach.send [OF this, of 7] have 1: "bp_reach two_slot_config ([] @ [QPush 7]) ([] @ [Pushed True]) (?s [7] (?m 0 0)) [Ok ()]"
    by (simp add: channel_try_send_def two_slot_sender_def)
  from bp_reach.send [OF 1, of 8] have 2: "bp_reach two_slot_config (([] @ [QPush 7]) @ [QPush 8])
      (([] @ [Pushed True]) @ [Pushed True]) (?s [7, 8] (?m 0 0)) [Ok (), Ok ()]"
    by (simp add: channel_try_send_def two_slot_sender_def)
  from bp_reach.send [OF 2, of 9] have 3: "bp_reach two_slot_config ((([] @ [QPush 7]) @ [QPush 8]) @ [QPush 9])
      ((([] @ [Pushed True]) @ [Pushed True]) @ [Pushed False]) (?s [7, 8] (?m 0 0)) [Err (TsFull 9), Ok (), Ok ()]"
    by (simp add: channel_try_send_def two_slot_sender_def)
  from bp_reach.receive [OF 3] have 4: "bp_reach two_slot_config (((([] @ [QPush 7]) @ [QPush 8]) @ [QPush 9]) @ [QPop])
      (((([] @ [Pushed True]) @ [Pushed True]) @ [Pushed False]) @ [Popped (Some 7)]) (?s [8] (?m 0 0))
      ([] @ Err (TsFull 9) # [Ok (), Ok ()])"
    by (simp add: channel_try_recv_def two_slot_sender_def)
  from bp_reach.count [OF 4] have 5: "bp_reach two_slot_config (((([] @ [QPush 7]) @ [QPush 8]) @ [QPush 9]) @ [QPop])
      (((([] @ [Pushed True]) @ [Pushed True]) @ [Pushed False]) @ [Popped (Some 7)]) (?s [8] (?m 1 0))
      ([] @ Ok () # [Ok ()])"
    by (simp add: increment_dropped_def two_slot_sender_def)
  from bp_reach.count [OF 5] have 6: "bp_reach two_slot_config (((([] @ [QPush 7]) @ [QPush 8]) @ [QPush 9]) @ [QPop])
      (((([] @ [Pushed True]) @ [Pushed True]) @ [Pushed False]) @ [Popped (Some 7)]) (?s [8] (?m 1 1))
      ([] @ Ok () # [])"
    by (simp add: increment_sent_def two_slot_sender_def)
  from bp_reach.count [OF 6] show ?thesis
    by (simp add: increment_sent_def two_slot_sender_def)
qed

theorem backpressure_accounts_witness:
  "accepted [QPush 7, QPush 8, QPush 9, QPop] [Pushed True, Pushed True, Pushed False, Popped (Some 7)]
     = [7 :: nat] @ [8] \<and>
   (\<exists>r. drop_rate \<lparr>bm_dropped = 1, bm_sent = 2\<rparr> = (Ok (FFin r) :: (f64, unit) result) \<and> r \<le> 1)"
  using backpressure_accounts [OF two_slot_reached, where 'b = unit] by (auto simp: two_slot_sender_def)

end
