(* ===== verification/Batch.thy ===== *)
theory Batch
  imports Backpressure
begin

text \<open>
  \<open>flash/src/publisher/batch.rs\<close>: batch configuration, the accumulator of messages, the queue
  monitor and the statistics. Clock readings are arguments; byte and message counts are sizes of
  lists in memory, natural numbers.
\<close>

section \<open>Enumerations and configuration\<close>

datatype overflow_action = OaBlock | OaDropOldest | OaDropNewest | OaWarnAndContinue

fun overflow_action_display :: "overflow_action \<Rightarrow> string" where
  "overflow_action_display OaBlock = ''Block''"
| "overflow_action_display OaDropOldest = ''DropOldest''"
| "overflow_action_display OaDropNewest = ''DropNewest''"
| "overflow_action_display OaWarnAndContinue = ''WarnAndContinue''"

datatype backpressure_status = BsNormal | BsWarning | BsCritical

fun backpressure_status_display :: "backpressure_status \<Rightarrow> string" where
  "backpressure_status_display BsNormal = ''Normal''"
| "backpressure_status_display BsWarning = ''Warning''"
| "backpressure_status_display BsCritical = ''Critical''"

datatype flush_trigger = FtBatchFull | FtTimeout | FtManual | FtShutdown

fun flush_trigger_display :: "flush_trigger \<Rightarrow> string" where
  "flush_trigger_display FtBatchFull = ''BatchFull''"
| "flush_trigger_display FtTimeout = ''Timeout''"
| "flush_trigger_display FtManual = ''Manual''"
| "flush_trigger_display FtShutdown = ''Shutdown''"

datatype drop_reason = DrQueueFull | DrEvicted | DrMessageTooLarge | DrInvalidFormat

fun drop_reason_display :: "drop_reason \<Rightarrow> string" where
  "drop_reason_display DrQueueFull = ''QueueFull''"
| "drop_reason_display DrEvicted = ''Evicted''"
| "drop_reason_display DrMessageTooLarge = ''MessageTooLarge''"
| "drop_reason_display DrInvalidFormat = ''InvalidFormat''"

datatype batcher_error =
    BeInvalidConfig string
  | BeChannelFull
  | BeMessageDropped drop_reason
  | BePublishFailed string
  | BeNotRunning
  | BeAlreadyRunning
  | BeShutdownTimeout u64
  | BeStreamError string

record batch_config =
  btc_max_batch_size :: usize
  btc_max_batch_delay :: nat
  btc_channel_capacity :: usize
  btc_warn_threshold :: f64
  btc_critical_threshold :: f64
  btc_overflow_action :: overflow_action
  btc_auto_flush :: bool
  btc_min_batch_size :: usize

definition batch_config_default :: batch_config where
  "batch_config_default =
     \<lparr>btc_max_batch_size = 100, btc_max_batch_delay = 10 * 10 ^ 6, btc_channel_capacity = 10000,
      btc_warn_threshold = f64_of_rat (80 / 100), btc_critical_threshold = f64_of_rat (95 / 100),
      btc_overflow_action = OaBlock, btc_auto_flush = True, btc_min_batch_size = 1\<rparr>"

definition outside_unit :: "f64 \<Rightarrow> bool" where
  "outside_unit x \<longleftrightarrow> f64_less x (FFin 0) \<or> f64_less (FFin 1) x"

definition f64_not_below :: "f64 \<Rightarrow> f64 \<Rightarrow> bool" where
  "f64_not_below x y \<longleftrightarrow> x \<noteq> FNaN \<and> y \<noteq> FNaN \<and> \<not> f64_total_less x y"

definition batch_config_validate :: "batch_config \<Rightarrow> (unit, batcher_error) result" where
  "batch_config_validate c =
     (if btc_max_batch_size c = 0 then Err (BeInvalidConfig ''max_batch_size cannot be zero'')
      else if btc_channel_capacity c = 0 then Err (BeInvalidConfig ''channel_capacity cannot be zero'')
      else if outside_unit (btc_warn_threshold c)
      then Err (BeInvalidConfig ''warn_threshold must be between 0.0 and 1.0'')
      else if outside_unit (btc_critical_threshold c)
      then Err (BeInvalidConfig ''critical_threshold must be between 0.0 and 1.0'')
      else if f64_not_below (btc_warn_threshold c) (btc_critical_threshold c)
      then Err (BeInvalidConfig ''warn_threshold must be less than critical_threshold'')
      else Ok ())"

record batch_config_builder =
  bcb_max_batch_size :: "usize option"
  bcb_max_batch_delay :: "nat option"
  bcb_channel_capacity :: "usize option"
  bcb_warn_threshold :: "f64 option"
  bcb_critical_threshold :: "f64 option"
  bcb_overflow_action :: "overflow_action option"
  bcb_auto_flush :: "bool option"
  bcb_min_batch_size :: "usize option"

definition batch_builder_new :: batch_config_builder where
  "batch_builder_new =
     \<lparr>bcb_max_batch_size = None, bcb_max_batch_delay = None, bcb_channel_capacity = None,
      bcb_warn_threshold = None, bcb_critical_threshold = None, bcb_overflow_action = None,
      bcb_auto_flush = None, bcb_min_batch_size = None\<rparr>"

definition bcb_with_max_batch_size :: "usize \<Rightarrow> batch_config_builder \<Rightarrow> batch_config_builder" where
  "bcb_with_max_batch_size n b = b\<lparr>bcb_max_batch_size := Some n\<rparr>"

definition bcb_with_max_batch_delay :: "nat \<Rightarrow> batch_config_builder \<Rightarrow> batch_config_builder" where
  "bcb_with_max_batch_delay d b = b\<lparr>bcb_max_batch_delay := Some d\<rparr>"

definition bcb_with_channel_capacity :: "usize \<Rightarrow> batch_config_builder \<Rightarrow> batch_config_builder" where
  "bcb_with_channel_capacity n b = b\<lparr>bcb_channel_capacity := Some n\<rparr>"

definition bcb_with_warn_threshold :: "f64 \<Rightarrow> batch_config_builder \<Rightarrow> batch_config_builder" where
  "bcb_with_warn_threshold t b = b\<lparr>bcb_warn_threshold := Some t\<rparr>"

definition bcb_with_critical_threshold :: "f64 \<Rightarrow> batch_config_builder \<Rightarrow> batch_config_builder" where
  "bcb_with_critical_threshold t b = b\<lparr>bcb_critical_threshold := Some t\<rparr>"

definition bcb_with_overflow_action :: "overflow_action \<Rightarrow> batch_config_builder \<Rightarrow> batch_config_builder" where
  "bcb_with_overflow_action a b = b\<lparr>bcb_overflow_action := Some a\<rparr>"

definition bcb_with_auto_flush :: "bool \<Rightarrow> batch_config_builder \<Rightarrow> batch_config_builder" where
  "bcb_with_auto_flush f b = b\<lparr>bcb_auto_flush := Some f\<rparr>"

definition bcb_with_min_batch_size :: "usize \<Rightarrow> batch_config_builder \<Rightarrow> batch_config_builder" where
  "bcb_with_min_batch_size n b = b\<lparr>bcb_min_batch_size := Some n\<rparr>"

definition batch_builder_build :: "batch_config_builder \<Rightarrow> (batch_config, batcher_error) result" where
  "batch_builder_build b =
     (let d = batch_config_default;
          c = \<lparr>btc_max_batch_size = unwrap_or (bcb_max_batch_size b) (btc_max_batch_size d),
               btc_max_batch_delay = unwrap_or (bcb_max_batch_delay b) (btc_max_batch_delay d),
               btc_channel_capacity = unwrap_or (bcb_channel_capacity b) (btc_channel_capacity d),
               btc_warn_threshold = unwrap_or (bcb_warn_threshold b) (btc_warn_threshold d),
               btc_critical_threshold = unwrap_or (bcb_critical_threshold b) (btc_critical_threshold d),
               btc_overflow_action = unwrap_or (bcb_overflow_action b) (btc_overflow_action d),
               btc_auto_flush = unwrap_or (bcb_auto_flush b) (btc_auto_flush d),
               btc_min_batch_size = unwrap_or (bcb_min_batch_size b) (btc_min_batch_size d)\<rparr> in
      rbind (batch_config_validate c) (\<lambda>_. Ok c))"

section \<open>Batches\<close>

text \<open>\<open>'f\<close> is the serialization format of the message.\<close>

record 'f batch_message =
  bmg_topic :: string
  bmg_data :: bytes
  bmg_format :: 'f
  bmg_enqueued_at :: i64
  bmg_priority :: u8

definition batch_message_size :: "'f batch_message \<Rightarrow> usize" where
  "batch_message_size m = length (bmg_data m)"

record 'f message_batch =
  mb_messages :: "'f batch_message list"
  mb_created_at :: i64
  mb_total_bytes :: usize
  mb_message_count :: usize

definition message_batch_new :: "i64 \<Rightarrow> 'f message_batch" where
  "message_batch_new now = \<lparr>mb_messages = [], mb_created_at = now, mb_total_bytes = 0, mb_message_count = 0\<rparr>"

definition message_batch_add :: "'f batch_message \<Rightarrow> 'f message_batch \<Rightarrow> 'f message_batch" where
  "message_batch_add m b =
     b\<lparr>mb_messages := mb_messages b @ [m], mb_total_bytes := mb_total_bytes b + length (bmg_data m),
       mb_message_count := mb_message_count b + 1\<rparr>"

definition message_batch_clear :: "i64 \<Rightarrow> 'f message_batch \<Rightarrow> 'f message_batch" where
  "message_batch_clear now b =
     b\<lparr>mb_messages := [], mb_total_bytes := 0, mb_message_count := 0, mb_created_at := now\<rparr>"

definition message_batch_len :: "'f message_batch \<Rightarrow> usize" where
  "message_batch_len b = length (mb_messages b)"

record 'f batch_accumulator =
  acc_batch :: "'f message_batch"
  acc_max_size :: usize
  acc_min_size :: usize
  acc_first_message_at :: "i64 option"

definition accumulator_new :: "i64 \<Rightarrow> usize \<Rightarrow> 'f batch_accumulator" where
  "accumulator_new now n =
     \<lparr>acc_batch = message_batch_new now, acc_max_size = n, acc_min_size = 1, acc_first_message_at = None\<rparr>"

definition accumulator_from_config :: "i64 \<Rightarrow> batch_config \<Rightarrow> 'f batch_accumulator" where
  "accumulator_from_config now c =
     \<lparr>acc_batch = message_batch_new now, acc_max_size = btc_max_batch_size c,
      acc_min_size = btc_min_batch_size c, acc_first_message_at = None\<rparr>"

definition accumulator_add :: "'f batch_message \<Rightarrow> 'f batch_accumulator \<Rightarrow> 'f batch_accumulator" where
  "accumulator_add m a =
     (let first = (case acc_first_message_at a of None \<Rightarrow> Some (bmg_enqueued_at m) | Some t \<Rightarrow> Some t) in
      a\<lparr>acc_first_message_at := first, acc_batch := message_batch_add m (acc_batch a)\<rparr>)"

definition accumulator_is_ready :: "'f batch_accumulator \<Rightarrow> bool" where
  "accumulator_is_ready a \<longleftrightarrow> message_batch_len (acc_batch a) \<ge> acc_max_size a"

definition accumulator_meets_minimum :: "'f batch_accumulator \<Rightarrow> bool" where
  "accumulator_meets_minimum a \<longleftrightarrow> message_batch_len (acc_batch a) \<ge> acc_min_size a"

definition accumulator_take :: "i64 \<Rightarrow> 'f batch_accumulator \<Rightarrow> 'f message_batch \<times> 'f batch_accumulator" where
  "accumulator_take now a = (acc_batch a, a\<lparr>acc_batch := message_batch_new now, acc_first_message_at := None\<rparr>)"

text \<open>\<open>now - first\<close> is a checked subtraction.\<close>

definition accumulator_latency :: "i64 \<Rightarrow> 'f batch_accumulator \<Rightarrow> (u64 option, 'e) result" where
  "accumulator_latency now a =
     (case acc_first_message_at a of
        None \<Rightarrow> Ok None
      | Some first \<Rightarrow>
          if sint now > sint first then map_ok (\<lambda>d. Some (word_of_int (sint d))) (i64_sub now first) else Ok (Some 0))"

section \<open>Queue monitor and statistics\<close>

record backpressure_monitor =
  bmo_warn_threshold :: f64
  bmo_critical_threshold :: f64
  bmo_capacity :: usize
  bmo_current_status :: backpressure_status

definition monitor_new :: "f64 \<Rightarrow> f64 \<Rightarrow> usize \<Rightarrow> backpressure_monitor" where
  "monitor_new w c n =
     \<lparr>bmo_warn_threshold = w, bmo_critical_threshold = c, bmo_capacity = n, bmo_current_status = BsNormal\<rparr>"

definition monitor_from_config :: "batch_config \<Rightarrow> backpressure_monitor" where
  "monitor_from_config c = monitor_new (btc_warn_threshold c) (btc_critical_threshold c) (btc_channel_capacity c)"

text \<open>Division by a capacity of zero is infinite, or NaN for an empty queue.\<close>

definition monitor_utilization :: "usize \<Rightarrow> backpressure_monitor \<Rightarrow> f64" where
  "monitor_utilization depth m =
     (if bmo_capacity m = 0 then (if depth = 0 then FNaN else FInf False)
      else f64_div (f64_of_int (int depth)) (f64_of_int (int (bmo_capacity m))))"

definition monitor_check :: "usize \<Rightarrow> backpressure_monitor \<Rightarrow> backpressure_status" where
  "monitor_check depth m =
     (let u = monitor_utilization depth m in
      if f64_not_below u (bmo_critical_threshold m) then BsCritical
      else if f64_not_below u (bmo_warn_threshold m) then BsWarning
      else BsNormal)"

definition monitor_update :: "usize \<Rightarrow> backpressure_monitor \<Rightarrow> (backpressure_status \<times> bool) \<times> backpressure_monitor" where
  "monitor_update depth m =
     (let s = monitor_check depth m in ((s, s \<noteq> bmo_current_status m), m\<lparr>bmo_current_status := s\<rparr>))"

record batcher_stats =
  bst_messages_enqueued :: u64
  bst_batches_published :: u64
  bst_messages_published :: u64
  bst_messages_dropped :: u64
  bst_current_queue_depth :: usize
  bst_peak_queue_depth :: usize
  bst_bytes_processed :: u64
  bst_avg_batch_size :: f64
  bst_avg_batch_latency_us :: f64
  bst_timeout_flushes :: u64
  bst_size_flushes :: u64
  bst_backpressure_status :: backpressure_status
  bst_backpressure_time_us :: u64

definition batcher_stats_default :: batcher_stats where
  "batcher_stats_default =
     \<lparr>bst_messages_enqueued = 0, bst_batches_published = 0, bst_messages_published = 0, bst_messages_dropped = 0,
      bst_current_queue_depth = 0, bst_peak_queue_depth = 0, bst_bytes_processed = 0,
      bst_avg_batch_size = FFin 0, bst_avg_batch_latency_us = FFin 0, bst_timeout_flushes = 0,
      bst_size_flushes = 0, bst_backpressure_status = BsNormal, bst_backpressure_time_us = 0\<rparr>"

definition stats_update_peak :: "usize \<Rightarrow> batcher_stats \<Rightarrow> batcher_stats" where
  "stats_update_peak d s = (if d > bst_peak_queue_depth s then s\<lparr>bst_peak_queue_depth := d\<rparr> else s)"

definition batch_alpha :: f64 where
  "batch_alpha = f64_of_rat (2 / 10)"

definition moving_average :: "bool \<Rightarrow> f64 \<Rightarrow> f64 \<Rightarrow> f64" where
  "moving_average first v avg =
     (if first then v else f64_mul_add batch_alpha v (f64_mul (f64_sub (FFin 1) batch_alpha) avg))"

definition stats_update_avg_batch_size :: "usize \<Rightarrow> batcher_stats \<Rightarrow> batcher_stats" where
  "stats_update_avg_batch_size n s =
     s\<lparr>bst_avg_batch_size := moving_average (bst_batches_published s = 0) (f64_of_int (int n)) (bst_avg_batch_size s)\<rparr>"

definition stats_update_avg_latency :: "u64 \<Rightarrow> batcher_stats \<Rightarrow> batcher_stats" where
  "stats_update_avg_latency us s =
     s\<lparr>bst_avg_batch_latency_us :=
         moving_average (bst_batches_published s = 0) (f64_of_int (uint us)) (bst_avg_batch_latency_us s)\<rparr>"

section \<open>Messages are conserved\<close>

datatype 'f batch_op = BoAdd "'f batch_message" | BoTake i64

text \<open>Running operations, with the batches taken.\<close>

fun run_batch :: "'f batch_op list \<Rightarrow> 'f batch_accumulator \<Rightarrow> 'f message_batch list \<times> 'f batch_accumulator" where
  "run_batch [] a = ([], a)"
| "run_batch (BoAdd m # ops) a = run_batch ops (accumulator_add m a)"
| "run_batch (BoTake now # ops) a =
     (let (b, a1) = accumulator_take now a; (bs, a2) = run_batch ops a1 in (b # bs, a2))"

fun added :: "'f batch_op list \<Rightarrow> 'f batch_message list" where
  "added [] = []"
| "added (BoAdd m # ops) = m # added ops"
| "added (BoTake now # ops) = added ops"

definition batch_ok :: "'f message_batch \<Rightarrow> bool" where
  "batch_ok b \<longleftrightarrow> mb_message_count b = length (mb_messages b) \<and>
     mb_total_bytes b = sum_list (map batch_message_size (mb_messages b))"

definition accumulator_ok :: "'f batch_accumulator \<Rightarrow> bool" where
  "accumulator_ok a \<longleftrightarrow> batch_ok (acc_batch a) \<and>
     acc_first_message_at a = (case mb_messages (acc_batch a) of [] \<Rightarrow> None | m # ms \<Rightarrow> Some (bmg_enqueued_at m))"

lemma accumulator_add_ok:
  "accumulator_ok a \<Longrightarrow> accumulator_ok (accumulator_add m a)"
  "mb_messages (acc_batch (accumulator_add m a)) = mb_messages (acc_batch a) @ [m]"
  by (auto simp: accumulator_ok_def accumulator_add_def batch_ok_def message_batch_add_def batch_message_size_def Let_def
      split: option.splits list.splits)

lemma run_batch_conserves:
  "accumulator_ok a \<Longrightarrow> run_batch ops a = (bs, a') \<Longrightarrow>
     concat (map mb_messages bs) @ mb_messages (acc_batch a') = mb_messages (acc_batch a) @ added ops \<and>
     (\<forall>b\<in>set bs. batch_ok b) \<and> accumulator_ok a'"
proof (induction ops arbitrary: a bs)
  case Nil
  then show ?case by simp
next
  case (Cons h ops)
  show ?case
  proof (cases h)
    case (BoAdd m)
    then show ?thesis
      using Cons.IH [OF accumulator_add_ok(1) [OF Cons.prems(1), of m]] Cons.prems(2)
      by (simp add: accumulator_add_ok(2))
  next
    case (BoTake now)
    define a1 where "a1 = snd (accumulator_take now a)"
    obtain bs' where bs: "bs = acc_batch a # bs'" "run_batch ops a1 = (bs', a')"
      using Cons.prems(2) by (auto simp: BoTake a1_def accumulator_take_def split: prod.splits)
    have a1: "accumulator_ok a1" "mb_messages (acc_batch a1) = []"
      by (simp_all add: a1_def accumulator_take_def accumulator_ok_def batch_ok_def message_batch_new_def)
    have "batch_ok (acc_batch a)" using Cons.prems(1) by (simp add: accumulator_ok_def)
    with Cons.IH [OF a1(1) bs(2)] a1(2) show ?thesis by (simp add: bs(1) BoTake)
  qed
qed

text \<open>
  Whatever the order of additions and flushes, the batches taken followed by what is
  still held are exactly the messages added, in order; every batch carries its own number of
  messages and bytes, and the accumulator remembers the time of its first message only.
\<close>

theorem accumulator_conserves:
  assumes "run_batch ops (accumulator_from_config now c) = (bs, a)"
  shows "concat (map mb_messages bs) @ mb_messages (acc_batch a) = added ops \<and>
    (\<forall>b\<in>set bs. mb_message_count b = length (mb_messages b) \<and>
       mb_total_bytes b = sum_list (map batch_message_size (mb_messages b))) \<and>
    acc_first_message_at a = (case mb_messages (acc_batch a) of [] \<Rightarrow> None | m # ms \<Rightarrow> Some (bmg_enqueued_at m))"
proof -
  have "accumulator_ok (accumulator_from_config now c :: 'a batch_accumulator)"
    by (simp add: accumulator_ok_def batch_ok_def accumulator_from_config_def message_batch_new_def)
  from run_batch_conserves [OF this assms] show ?thesis
    by (simp add: accumulator_ok_def batch_ok_def accumulator_from_config_def message_batch_new_def)
qed

definition sample_message :: "nat \<Rightarrow> unit batch_message" where
  "sample_message n = \<lparr>bmg_topic = ''t'', bmg_data = replicate n 0, bmg_format = (), bmg_enqueued_at = of_nat n, bmg_priority = 0\<rparr>"

theorem accumulator_conserves_witness:
  "\<exists>b a. run_batch [BoAdd (sample_message 3), BoAdd (sample_message 2), BoTake 9, BoAdd (sample_message 1)]
       (accumulator_from_config 0 batch_config_default) = ([b], a) \<and> mb_total_bytes b = 5 \<and>
     acc_first_message_at a = Some 1"
proof -
  obtain b a where run: "run_batch [BoAdd (sample_message 3), BoAdd (sample_message 2), BoTake 9, BoAdd (sample_message 1)]
       (accumulator_from_config 0 batch_config_default) = ([b], a)"
    by (simp add: accumulator_take_def)
  have "mb_messages b = [sample_message 3, sample_message 2]" "mb_messages (acc_batch a) = [sample_message 1]"
    using run by (auto simp: accumulator_take_def accumulator_add_def accumulator_from_config_def message_batch_new_def
        message_batch_add_def)
  then show ?thesis using accumulator_conserves [OF run] run by (simp add: batch_message_size_def sample_message_def)
qed

section \<open>The monitor\<close>

fun status_level :: "backpressure_status \<Rightarrow> nat" where
  "status_level BsNormal = 0"
| "status_level BsWarning = 1"
| "status_level BsCritical = 2"

text \<open>
  For a validated configuration whose thresholds are numbers, a longer queue is
  never reported as less critical, and a full queue is always reported as critical, although the
  utilization is a rounded quotient of rounded counts.
\<close>

theorem monitor_monotone:
  assumes "batch_config_validate c = Ok ()"
    and "btc_warn_threshold c \<noteq> FNaN" "btc_critical_threshold c \<noteq> FNaN"
    and "btc_channel_capacity c < 2 ^ 64" "d \<le> d'" "d' \<le> btc_channel_capacity c"
  shows "status_level (monitor_check d (monitor_from_config c)) \<le> status_level (monitor_check d' (monitor_from_config c)) \<and>
    monitor_check (btc_channel_capacity c) (monitor_from_config c) = BsCritical"
proof -
  let ?n = "btc_channel_capacity c"
  let ?m = "monitor_from_config c"
  have n: "0 < ?n" and out: "\<not> outside_unit (btc_warn_threshold c)" "\<not> outside_unit (btc_critical_threshold c)"
    using assms(1) by (auto simp: batch_config_validate_def split: if_splits)
  have fin: "x \<noteq> FNaN \<Longrightarrow> \<not> outside_unit x \<Longrightarrow> \<exists>r. x = FFin r \<and> r \<le> 1" for x
    by (cases x rule: f64_rank.cases) (auto simp: outside_unit_def f64_less_def)
  obtain w k where wk: "btc_warn_threshold c = FFin w" "btc_critical_threshold c = FFin k" "k \<le> 1"
    using fin [OF assms(2) out(1)] fin [OF assms(3) out(2)] by blast
  have util: "monitor_utilization e ?m = f64_div (f64_of_int (int e)) (f64_of_int (int ?n))" for e
    using n by (simp add: monitor_utilization_def monitor_from_config_def monitor_new_def)
  have check: "monitor_check e ?m = (if k \<le> u then BsCritical else if w \<le> u then BsWarning else BsNormal)"
    if "monitor_utilization e ?m = FFin u" for e u
    using that by (simp add: monitor_check_def monitor_from_config_def monitor_new_def wk f64_not_below_def Let_def not_less)
  obtain p q where pq: "monitor_utilization d ?m = FFin p" "monitor_utilization d' ?m = FFin q" "p \<le> q"
    unfolding util by (rule count_ratio [OF assms(5,6) n assms(4)])
  have "monitor_utilization ?n ?m = FFin 1"
  proof -
    obtain x y where fc: "f64_of_int (int ?n) = FFin y" "1 \<le> y"
    proof (rule f64_of_rat_mono [of 1 "of_nat ?n"])
      have "(of_nat ?n :: rat) \<le> of_nat (2 ^ 64)" using assms(4) by (simp only: of_nat_le_iff less_imp_le)
      also have "\<dots> \<le> 2 ^ 1023" by simp
      finally show "(of_nat ?n :: rat) \<le> 2 ^ 1023" .
    qed (use n f64_of_rat_int [of 1] in \<open>auto simp: f64_of_int_def\<close>)
    then show ?thesis using f64_of_rat_int [of 1] by (simp add: util fc(1))
  qed
  from check [OF this] wk(3) have "monitor_check ?n ?m = BsCritical" by simp
  then show ?thesis using check [OF pq(1)] check [OF pq(2)] pq(3) by auto
qed

definition half_config :: batch_config where
  "half_config = batch_config_default\<lparr>btc_warn_threshold := FFin (1 / 2), btc_critical_threshold := FFin (3 / 4),
     btc_channel_capacity := 4\<rparr>"

theorem monitor_monotone_witness:
  "status_level (monitor_check 1 (monitor_from_config half_config)) \<le> status_level (monitor_check 3 (monitor_from_config half_config)) \<and>
   monitor_check 4 (monitor_from_config half_config) = BsCritical"
proof -
  have "batch_config_validate half_config = Ok ()"
    by (simp add: batch_config_validate_def half_config_def batch_config_default_def outside_unit_def f64_less_def f64_not_below_def)
  from monitor_monotone [OF this, of 1 3] show ?thesis by (simp add: half_config_def)
qed

text \<open>A NaN threshold passes the validation and switches the monitor off.\<close>

theorem nan_thresholds_accepted:
  "batch_config_validate (batch_config_default\<lparr>btc_warn_threshold := FNaN, btc_critical_threshold := FNaN\<rparr>) = Ok () \<and>
   monitor_check d (monitor_from_config (batch_config_default\<lparr>btc_warn_threshold := FNaN, btc_critical_threshold := FNaN\<rparr>)) = BsNormal"
  by (simp add: batch_config_validate_def batch_config_default_def outside_unit_def f64_less_def f64_not_below_def
      monitor_check_def monitor_from_config_def monitor_new_def Let_def)

end
