(* ===== verification/Thread_Safe_Book.thy ===== *)
theory Thread_Safe_Book
  imports Order_Book
begin

text \<open>
  \<open>flash/src/book/thread_safe.rs\<close>: the order book behind a reader-writer lock, with access
  counters behind a second lock. The lock of the crate \<open>parking_lot\<close> is modelled by
  what it promises, exclusion of a writer from everybody else. Each thread is at a point of
  its call; acquiring a guard and counting the access are separate steps.
\<close>

section \<open>State\<close>

record thread_safe_stats =
  tss_reads :: u64
  tss_writes :: u64
  tss_read_contention_count :: u64
  tss_write_contention_count :: u64
  tss_last_read :: "i64 option"
  tss_last_write :: "i64 option"

definition thread_safe_stats_default :: thread_safe_stats where
  "thread_safe_stats_default =
     \<lparr>tss_reads = 0, tss_writes = 0, tss_read_contention_count = 0, tss_write_contention_count = 0,
      tss_last_read = None, tss_last_write = None\<rparr>"

record 'q thread_safe_book =
  tsb_inner :: "'q order_book"
  tsb_instrument :: flash_instrument
  tsb_stats :: thread_safe_stats

definition thread_safe_new :: "flash_instrument \<Rightarrow> book_config \<Rightarrow> 'q::linordered_ab_group_add thread_safe_book" where
  "thread_safe_new i c =
     \<lparr>tsb_inner = book_new i c, tsb_instrument = i, tsb_stats = thread_safe_stats_default\<rparr>"

definition thread_safe_from_orderbook :: "'q order_book \<Rightarrow> 'q thread_safe_book" where
  "thread_safe_from_orderbook b =
     \<lparr>tsb_inner = b, tsb_instrument = ob_instrument b, tsb_stats = thread_safe_stats_default\<rparr>"

text \<open>The counting done by \<open>read\<close>, \<open>try_read\<close>, \<open>write\<close> and \<open>try_write\<close>; \<open>+= 1\<close> is checked.\<close>

definition count_read :: "i64 \<Rightarrow> thread_safe_stats \<Rightarrow> (thread_safe_stats, 'e) result" where
  "count_read now s = map_ok (\<lambda>n. s\<lparr>tss_reads := n, tss_last_read := Some now\<rparr>) (u64_incr (tss_reads s))"

definition count_write :: "i64 \<Rightarrow> thread_safe_stats \<Rightarrow> (thread_safe_stats, 'e) result" where
  "count_write now s = map_ok (\<lambda>n. s\<lparr>tss_writes := n, tss_last_write := Some now\<rparr>) (u64_incr (tss_writes s))"

definition count_read_contention :: "thread_safe_stats \<Rightarrow> (thread_safe_stats, 'e) result" where
  "count_read_contention s =
     map_ok (\<lambda>n. s\<lparr>tss_read_contention_count := n\<rparr>) (u64_incr (tss_read_contention_count s))"

definition count_write_contention :: "thread_safe_stats \<Rightarrow> (thread_safe_stats, 'e) result" where
  "count_write_contention s =
     map_ok (\<lambda>n. s\<lparr>tss_write_contention_count := n\<rparr>) (u64_incr (tss_write_contention_count s))"

section \<open>Writes\<close>

text \<open>What a writer does under its guard, or in one call that locks by itself.\<close>

datatype 'q book_write =
    BwSnapshot "'q price_level list" "'q price_level list" i64
  | BwDelta book_side "'q price_level list" i64
  | BwClear

fun apply_write :: "'q::linordered_ab_group_add book_write \<Rightarrow> 'q order_book \<Rightarrow> ('q order_book, 'e) result" where
  "apply_write (BwSnapshot bids asks ts) b = apply_snapshot bids asks ts b"
| "apply_write (BwDelta side levels ts) b = apply_delta side levels ts b"
| "apply_write BwClear b = Ok (book_clear b)"

fun apply_writes :: "'q::linordered_ab_group_add book_write list \<Rightarrow> 'q order_book \<Rightarrow> ('q order_book, 'e) result" where
  "apply_writes [] b = Ok b"
| "apply_writes (w # ws) b = rbind (apply_write w b) (apply_writes ws)"

section \<open>Threads\<close>

datatype phase = PhIdle | PhReadCounting | PhReading | PhWriteCounting | PhWriting

definition is_reading :: "phase \<Rightarrow> bool" where
  "is_reading p \<longleftrightarrow> p = PhReadCounting \<or> p = PhReading"

definition is_writing :: "phase \<Rightarrow> bool" where
  "is_writing p \<longleftrightarrow> p = PhWriteCounting \<or> p = PhWriting"

text \<open>
  The system: the shared book, the phases of the threads, and as history the batches of
  writes made under the guards released so far, those of the guard now held,
  and what the readers saw.
\<close>

record 'q ts_system =
  sy_shared :: "'q thread_safe_book"
  sy_phase :: "nat \<Rightarrow> phase"
  sy_batches :: "'q book_write list list"
  sy_current :: "'q book_write list"
  sy_seen :: "(nat \<times> 'q order_book) list"

definition set_phase :: "nat \<Rightarrow> phase \<Rightarrow> 'q ts_system \<Rightarrow> 'q ts_system" where
  "set_phase t p s = s\<lparr>sy_phase := (sy_phase s)(t := p)\<rparr>"

definition set_stats :: "thread_safe_stats \<Rightarrow> 'q ts_system \<Rightarrow> 'q ts_system" where
  "set_stats st s = s\<lparr>sy_shared := (sy_shared s)\<lparr>tsb_stats := st\<rparr>\<rparr>"

definition set_inner :: "'q order_book \<Rightarrow> 'q ts_system \<Rightarrow> 'q ts_system" where
  "set_inner b s = s\<lparr>sy_shared := (sy_shared s)\<lparr>tsb_inner := b\<rparr>\<rparr>"

definition see :: "nat \<Rightarrow> 'q ts_system \<Rightarrow> 'q ts_system" where
  "see t s = s\<lparr>sy_seen := sy_seen s @ [(t, tsb_inner (sy_shared s))]\<rparr>"

definition ts_init :: "'q order_book \<Rightarrow> 'q ts_system" where
  "ts_init b = \<lparr>sy_shared = thread_safe_from_orderbook b, sy_phase = (\<lambda>_. PhIdle), sy_batches = [],
     sy_current = [], sy_seen = []\<rparr>"

text \<open>
  The lock of the library may refuse a \<open>try_read\<close> or \<open>try_write\<close> also while other
  threads only wait for it, so a refusal is allowed at any time; it changes a counter only.
\<close>

inductive ts_step :: "'q::linordered_ab_group_add ts_system \<Rightarrow> 'q ts_system \<Rightarrow> bool" where
  read_lock: "sy_phase s t = PhIdle \<Longrightarrow> (\<And>u. \<not> is_writing (sy_phase s u)) \<Longrightarrow> ts_step s (set_phase t PhReadCounting s)"
| read_count: "sy_phase s t = PhReadCounting \<Longrightarrow> count_read now (tsb_stats (sy_shared s)) = (Ok st :: (_, unit) result) \<Longrightarrow>
     ts_step s (set_phase t PhReading (set_stats st s))"
| read_see: "sy_phase s t = PhReading \<Longrightarrow> ts_step s (see t s)"
| read_unlock: "sy_phase s t = PhReading \<Longrightarrow> ts_step s (set_phase t PhIdle s)"
| read_refused: "sy_phase s t = PhIdle \<Longrightarrow>
     count_read_contention (tsb_stats (sy_shared s)) = (Ok st :: (_, unit) result) \<Longrightarrow> ts_step s (set_stats st s)"
| write_lock: "(\<And>u. sy_phase s u = PhIdle) \<Longrightarrow> ts_step s (set_phase t PhWriteCounting s)"
| write_count: "sy_phase s t = PhWriteCounting \<Longrightarrow> count_write now (tsb_stats (sy_shared s)) = (Ok st :: (_, unit) result) \<Longrightarrow>
     ts_step s (set_phase t PhWriting (set_stats st s))"
| write_apply: "sy_phase s t = PhWriting \<Longrightarrow> apply_write w (tsb_inner (sy_shared s)) = (Ok b :: (_, unit) result) \<Longrightarrow>
     ts_step s (set_inner b s\<lparr>sy_current := sy_current s @ [w]\<rparr>)"
| write_unlock: "sy_phase s t = PhWriting \<Longrightarrow>
     ts_step s (set_phase t PhIdle s\<lparr>sy_batches := sy_batches s @ [sy_current s], sy_current := []\<rparr>)"
| write_refused: "sy_phase s t = PhIdle \<Longrightarrow>
     count_write_contention (tsb_stats (sy_shared s)) = (Ok st :: (_, unit) result) \<Longrightarrow> ts_step s (set_stats st s)"
| quick_see: "sy_phase s t = PhIdle \<Longrightarrow> (\<And>u. \<not> is_writing (sy_phase s u)) \<Longrightarrow> ts_step s (see t s)"
| quick_write: "(\<And>u. sy_phase s u = PhIdle) \<Longrightarrow>
     apply_write w (tsb_inner (sy_shared s)) = (Ok b :: (_, unit) result) \<Longrightarrow>
     ts_step s (set_inner b s\<lparr>sy_batches := sy_batches s @ [[w]]\<rparr>)"

inductive ts_reach :: "'q::linordered_ab_group_add order_book \<Rightarrow> 'q ts_system \<Rightarrow> bool" for b0 where
  ts_start: "ts_reach b0 (ts_init b0)"
| ts_next: "ts_reach b0 s \<Longrightarrow> ts_step s s' \<Longrightarrow> ts_reach b0 s'"

section \<open>What readers see\<close>

lemmas sy_defs = set_phase_def set_stats_def set_inner_def see_def

lemma sy_simps [simp]:
  "sy_phase (set_phase t p s) = (sy_phase s)(t := p)" "sy_shared (set_phase t p s) = sy_shared s"
  "sy_phase (set_stats st s) = sy_phase s" "tsb_inner (sy_shared (set_stats st s)) = tsb_inner (sy_shared s)"
  "sy_phase (set_inner b s) = sy_phase s" "tsb_inner (sy_shared (set_inner b s)) = b"
  "sy_phase (see t s) = sy_phase s" "sy_shared (see t s) = sy_shared s"
  "sy_seen (set_phase t p s) = sy_seen s" "sy_seen (set_stats st s) = sy_seen s" "sy_seen (set_inner b s) = sy_seen s"
  "sy_seen (see t s) = sy_seen s @ [(t, tsb_inner (sy_shared s))]"
  "sy_batches (set_phase t p s) = sy_batches s" "sy_batches (set_stats st s) = sy_batches s"
  "sy_batches (set_inner b s) = sy_batches s" "sy_batches (see t s) = sy_batches s"
  "sy_current (set_phase t p s) = sy_current s" "sy_current (set_stats st s) = sy_current s"
  "sy_current (set_inner b s) = sy_current s" "sy_current (see t s) = sy_current s"
  by (simp_all add: sy_defs)

lemma apply_writes_append:
  "apply_writes (xs @ ys) b = rbind (apply_writes xs b) (apply_writes ys :: _ \<Rightarrow> (_, 'e) result)"
proof (induction xs arbitrary: b)
  case (Cons x xs)
  then show ?case by (cases "apply_write x b :: (_, 'e) result") simp_all
qed simp

text \<open>A writer excludes everybody else; without one the current batch is empty.\<close>

definition exclusive :: "(nat \<Rightarrow> phase) \<Rightarrow> 'w list \<Rightarrow> bool" where
  "exclusive ph cur \<longleftrightarrow> (\<forall>t. is_writing (ph t) \<longrightarrow> (\<forall>u. u \<noteq> t \<longrightarrow> ph u = PhIdle)) \<and>
     ((\<forall>t. \<not> is_writing (ph t)) \<longrightarrow> cur = [])"

lemma is_writing_simps [simp]:
  "is_writing PhWriteCounting" "is_writing PhWriting" "\<not> is_writing PhIdle" "\<not> is_writing PhReadCounting" "\<not> is_writing PhReading"
  "is_reading PhReadCounting" "is_reading PhReading"
  by (simp_all add: is_writing_def is_reading_def)

lemma not_both: "is_reading p \<Longrightarrow> \<not> is_writing p" "is_reading p \<Longrightarrow> p \<noteq> PhIdle"
  by (auto simp: is_reading_def)

lemma readers_no_writer:
  assumes "exclusive ph cur" "is_reading (ph t)"
  shows "\<not> is_writing (ph u)"
proof
  assume "is_writing (ph u)"
  moreover have "u \<noteq> t" using calculation assms(2) not_both by metis
  ultimately have "ph t = PhIdle" using assms(1) by (metis exclusive_def)
  with assms(2) show False by (simp add: is_reading_def)
qed

lemma no_writer_exclusive: "\<forall>u. \<not> is_writing (ph u) \<Longrightarrow> exclusive ph []"
  by (simp add: exclusive_def)

lemma no_writer_empty: "exclusive ph cur \<Longrightarrow> \<forall>u. \<not> is_writing (ph u) \<Longrightarrow> cur = []"
  by (simp add: exclusive_def)

lemma reader_moves:
  assumes "exclusive ph cur" "is_reading (ph t) \<or> (\<forall>u. \<not> is_writing (ph u))" "\<not> is_writing p"
  shows "exclusive (ph(t := p)) cur"
proof -
  have no: "\<forall>u. \<not> is_writing (ph u)" using assms readers_no_writer by metis
  then have "cur = []" using assms(1) no_writer_empty by blast
  with no assms(3) show ?thesis by (simp add: exclusive_def)
qed

lemma writer_moves:
  assumes "exclusive ph cur" "is_writing (ph t) \<or> (\<forall>u. ph u = PhIdle)" "is_writing p"
  shows "exclusive (ph(t := p)) cur'"
proof -
  have "\<forall>u. u \<noteq> t \<longrightarrow> ph u = PhIdle" using assms by (metis exclusive_def)
  with assms(3) show ?thesis by (auto simp: exclusive_def)
qed

lemma writer_leaves:
  assumes "exclusive ph cur" "is_writing (ph t)"
  shows "exclusive (ph(t := PhIdle)) []"
proof -
  have "\<forall>u. u \<noteq> t \<longrightarrow> ph u = PhIdle" using assms by (metis exclusive_def)
  then show ?thesis by (auto simp: exclusive_def)
qed

lemma writer_writes: "exclusive ph cur \<Longrightarrow> is_writing (ph t) \<Longrightarrow> exclusive ph cur'"
  by (auto simp: exclusive_def)

definition prefix_book :: "'q::linordered_ab_group_add order_book \<Rightarrow> 'q book_write list list \<Rightarrow> 'q order_book \<Rightarrow> bool" where
  "prefix_book b0 batches b \<longleftrightarrow>
     (\<exists>k \<le> length batches. apply_writes (concat (take k batches)) b0 = (Ok b :: (_, unit) result))"

lemma prefix_book_more: "prefix_book b0 bs b \<Longrightarrow> prefix_book b0 (bs @ [x]) b"
proof -
  assume "prefix_book b0 bs b"
  then obtain k where k: "k \<le> length bs" "apply_writes (concat (take k bs)) b0 = (Ok b :: (_, unit) result)"
    by (auto simp: prefix_book_def)
  have "take k (bs @ [x]) = take k bs" using k(1) by simp
  then show ?thesis unfolding prefix_book_def using k by (intro exI [of _ k]) simp
qed

lemma seen_more:
  "list_all (\<lambda>e. prefix_book b0 bs (snd e)) xs \<Longrightarrow> list_all (\<lambda>e. prefix_book b0 (bs @ [x]) (snd e)) xs"
  by (induction xs) (auto simp: prefix_book_more)

definition ts_inv :: "'q::linordered_ab_group_add order_book \<Rightarrow> 'q ts_system \<Rightarrow> bool" where
  "ts_inv b0 s \<longleftrightarrow> exclusive (sy_phase s) (sy_current s) \<and>
     apply_writes (concat (sy_batches s) @ sy_current s) b0 = (Ok (tsb_inner (sy_shared s)) :: (_, unit) result) \<and>
     list_all (\<lambda>e. prefix_book b0 (sy_batches s) (snd e)) (sy_seen s)"

lemma ts_inv_seen:
  assumes inv: "ts_inv b0 s" and idle: "\<And>u. \<not> is_writing (sy_phase s u)"
  shows "ts_inv b0 (see t s)"
proof -
  have none: "sy_current s = []" using inv idle no_writer_empty by (auto simp: ts_inv_def)
  then have "prefix_book b0 (sy_batches s) (tsb_inner (sy_shared s))"
    unfolding prefix_book_def using inv by (intro exI [of _ "length (sy_batches s)"]) (simp add: ts_inv_def)
  with inv show ?thesis by (simp add: ts_inv_def)
qed

lemma ts_step_inv: "ts_step s s' \<Longrightarrow> ts_inv b0 s \<Longrightarrow> ts_inv b0 s'"
proof (induction rule: ts_step.induct)
  case (read_lock s t)
  then show ?case by (simp add: ts_inv_def reader_moves)
next
  case (read_count s t now st)
  then show ?case by (simp add: ts_inv_def reader_moves)
next
  case (read_see s t)
  then have "\<not> is_writing (sy_phase s u)" for u
    by (intro readers_no_writer [of "sy_phase s" "sy_current s" t]) (simp_all add: ts_inv_def)
  with read_see show ?case by (intro ts_inv_seen)
next
  case (read_unlock s t)
  then show ?case by (simp add: ts_inv_def reader_moves)
next
  case (read_refused s t st)
  then show ?case by (simp add: ts_inv_def)
next
  case (write_lock s t)
  then have "exclusive ((sy_phase s)(t := PhWriteCounting)) (sy_current s)"
    by (intro writer_moves [of "sy_phase s" "sy_current s"]) (simp_all add: ts_inv_def)
  with write_lock show ?case by (simp add: ts_inv_def)
next
  case (write_count s t now st)
  then have "exclusive ((sy_phase s)(t := PhWriting)) (sy_current s)"
    by (intro writer_moves [of "sy_phase s" "sy_current s"]) (simp_all add: ts_inv_def)
  with write_count show ?case by (simp add: ts_inv_def)
next
  case (write_apply s t w b)
  have "apply_writes ((concat (sy_batches s) @ sy_current s) @ [w]) b0 = (Ok b :: (_, unit) result)"
    using write_apply by (simp only: apply_writes_append [of _ "[w]"]) (simp add: ts_inv_def)
  moreover have "exclusive (sy_phase s) (sy_current s)" "is_writing (sy_phase s t)"
    using write_apply by (simp_all add: ts_inv_def)
  then have "exclusive (sy_phase s) (sy_current s @ [w])" by (rule writer_writes)
  ultimately show ?case using write_apply by (simp add: ts_inv_def)
next
  case (write_unlock s t)
  then have "exclusive ((sy_phase s)(t := PhIdle)) ([] :: 'a book_write list)"
    by (intro writer_leaves [of "sy_phase s" "sy_current s"]) (simp_all add: ts_inv_def)
  with write_unlock show ?case by (simp add: ts_inv_def seen_more)
next
  case (write_refused s t st)
  then show ?case by (simp add: ts_inv_def)
next
  case (quick_see s t)
  then show ?case by (intro ts_inv_seen)
next
  case (quick_write s w b)
  have "exclusive (sy_phase s) (sy_current s)" "\<forall>u. \<not> is_writing (sy_phase s u)"
    using quick_write by (simp_all add: ts_inv_def)
  then have none: "sy_current s = []" by (rule no_writer_empty)
  have "apply_writes (concat (sy_batches s) @ [w]) b0 = (Ok b :: (_, unit) result)"
    using quick_write none by (simp only: apply_writes_append [of _ "[w]"]) (simp add: ts_inv_def)
  with quick_write none show ?case by (simp add: ts_inv_def seen_more)
qed

lemma ts_reach_inv: "ts_reach b0 s \<Longrightarrow> ts_inv b0 s"
proof (induction rule: ts_reach.induct)
  case ts_start
  show ?case by (simp add: ts_inv_def no_writer_exclusive ts_init_def thread_safe_from_orderbook_def)
next
  case (ts_next s s')
  then show ?case using ts_step_inv by blast
qed


text \<open>A batch of two writes under one guard, and a reader before and after.\<close>

definition two_writes :: "int book_write list" where
  "two_writes = [BwClear, BwClear]"

lemma two_writes_reached:
  "\<exists>s. ts_reach (small_book :: int order_book) s \<and> sy_batches s = [two_writes] \<and>
     sy_seen s = [(0, small_book), (0, book_clear (book_clear small_book))]"
proof -
  let ?s0 = "ts_init small_book :: int ts_system"
  have 1: "ts_reach small_book (see 0 ?s0)"
    by (rule ts_next [OF ts_start quick_see]) (simp_all add: ts_init_def is_writing_def)
  let ?s1 = "see 0 ?s0"
  have 2: "ts_reach small_book (set_phase 1 PhWriteCounting ?s1)"
    by (rule ts_next [OF 1 write_lock]) (simp add: ts_init_def see_def)
  let ?s2 = "set_phase 1 PhWriteCounting ?s1"
  obtain st where st: "count_write 5 (tsb_stats (sy_shared ?s2)) = (Ok st :: (_, unit) result)"
    by (simp add: ts_init_def thread_safe_from_orderbook_def thread_safe_stats_default_def count_write_def u64_incr_def)
  let ?s3 = "set_phase 1 PhWriting (set_stats st ?s2)"
  have 3: "ts_reach small_book ?s3" by (rule ts_next [OF 2 write_count [OF _ st]]) simp
  let ?s4 = "set_inner (book_clear (tsb_inner (sy_shared ?s3))) ?s3\<lparr>sy_current := sy_current ?s3 @ [BwClear]\<rparr>"
  have 4: "ts_reach small_book ?s4" by (rule ts_next [OF 3 write_apply [of _ 1]]) simp_all
  let ?s5 = "set_inner (book_clear (tsb_inner (sy_shared ?s4))) ?s4\<lparr>sy_current := sy_current ?s4 @ [BwClear]\<rparr>"
  have 5: "ts_reach small_book ?s5" by (rule ts_next [OF 4 write_apply [of _ 1]]) simp_all
  let ?s6 = "set_phase 1 PhIdle ?s5\<lparr>sy_batches := sy_batches ?s5 @ [sy_current ?s5], sy_current := []\<rparr>"
  have 6: "ts_reach small_book ?s6" by (rule ts_next [OF 5 write_unlock]) simp
  have "ts_reach small_book (see 0 ?s6)"
    by (rule ts_next [OF 6 quick_see]) (simp_all add: ts_init_def is_writing_def)
  moreover have "sy_batches (see 0 ?s6) = [two_writes]"
    "sy_seen (see 0 ?s6) = [(0, small_book), (0, book_clear (book_clear small_book))]"
    by (simp_all add: ts_init_def thread_safe_from_orderbook_def two_writes_def)
  ultimately show ?thesis by blast
qed


end
