(* ===== verification/Heartbeat.thy ===== *)
theory Heartbeat
  imports F64_Order Bounded_Channel
begin

text \<open>
  \<open>flash/src/network/heartbeat.rs\<close>: health of the exchange connections from ping/pong
  bookkeeping. Instants and durations are natural numbers of nanoseconds and clock readings
  are arguments. The event channel is a bounded queue that drops what does not fit. A method
  that releases the entry of an exchange and takes it again is two steps, so that calls of
  other threads can run in between. Calls of the metrics facade are left out.
\<close>

type_synonym instant = nat
type_synonym duration = nat

definition from_millis :: "u64 \<Rightarrow> duration" where
  "from_millis ms = unat ms * 10 ^ 6"

section \<open>Event channel\<close>

text \<open>The result of \<open>try_send\<close> is ignored: an event that does not fit is lost.\<close>

definition EVENT_CHANNEL_SIZE :: usize where
  "EVENT_CHANNEL_SIZE = 1000"

definition event_channel_new :: "'e channel" where
  "event_channel_new = \<lparr>ch_capacity = EVENT_CHANNEL_SIZE, ch_queue = [], ch_open = True\<rparr>"

definition try_send_event :: "'e \<Rightarrow> 'e channel \<Rightarrow> 'e channel" where
  "try_send_event e c = snd (channel_try_send e c)"

section \<open>Status and configuration\<close>

datatype health_status = HsHealthy | HsDegraded | HsUnhealthy | HsUnknown

definition hs_is_healthy :: "health_status \<Rightarrow> bool" where
  "hs_is_healthy s \<longleftrightarrow> s = HsHealthy"

definition hs_is_degraded :: "health_status \<Rightarrow> bool" where
  "hs_is_degraded s \<longleftrightarrow> s = HsDegraded"

definition hs_is_unhealthy :: "health_status \<Rightarrow> bool" where
  "hs_is_unhealthy s \<longleftrightarrow> s = HsUnhealthy"

fun hs_as_u8 :: "health_status \<Rightarrow> u8" where
  "hs_as_u8 HsUnknown = 0"
| "hs_as_u8 HsHealthy = 1"
| "hs_as_u8 HsDegraded = 2"
| "hs_as_u8 HsUnhealthy = 3"

fun hs_display :: "health_status \<Rightarrow> string" where
  "hs_display HsHealthy = ''healthy''"
| "hs_display HsDegraded = ''degraded''"
| "hs_display HsUnhealthy = ''unhealthy''"
| "hs_display HsUnknown = ''unknown''"

record heartbeat_config =
  hc_ping_interval_ms :: u64
  hc_pong_timeout_ms :: u64
  hc_jitter_percent :: f64
  hc_degraded_threshold :: u32
  hc_unhealthy_threshold :: u32
  hc_auto_disconnect_unhealthy :: bool
  hc_stale_connection_ms :: u64

definition heartbeat_config_default :: heartbeat_config where
  "heartbeat_config_default =
     \<lparr>hc_ping_interval_ms = 30000, hc_pong_timeout_ms = 10000, hc_jitter_percent = f64_of_rat (20 / 100),
      hc_degraded_threshold = 1, hc_unhealthy_threshold = 3, hc_auto_disconnect_unhealthy = False,
      hc_stale_connection_ms = 60000\<rparr>"

text \<open>\<open>FlashError::ConfigError\<close> is the only error of this module: its text stands for it.\<close>

definition heartbeat_config_validate :: "heartbeat_config \<Rightarrow> (unit, string) result" where
  "heartbeat_config_validate c =
     (if hc_pong_timeout_ms c \<ge> hc_ping_interval_ms c
      then Err ''pong_timeout_ms must be less than ping_interval_ms''
      else if hc_unhealthy_threshold c < hc_degraded_threshold c
      then Err ''unhealthy_threshold must be >= degraded_threshold''
      else if \<not> f64_in_range 0 (1 / 2) (hc_jitter_percent c)
      then Err ''jitter_percent must be between 0.0 and 0.5''
      else Ok ())"

definition calculate_next_interval :: "f64 \<Rightarrow> heartbeat_config \<Rightarrow> duration" where
  "calculate_next_interval random c =
     from_millis (with_jitter random (hc_jitter_percent c) (f64_of_int (uint (hc_ping_interval_ms c))))"

definition hc_ping_interval :: "heartbeat_config \<Rightarrow> duration" where
  "hc_ping_interval c = from_millis (hc_ping_interval_ms c)"

definition hc_pong_timeout :: "heartbeat_config \<Rightarrow> duration" where
  "hc_pong_timeout c = from_millis (hc_pong_timeout_ms c)"

definition hc_stale_threshold :: "heartbeat_config \<Rightarrow> duration" where
  "hc_stale_threshold c = from_millis (hc_stale_connection_ms c)"

section \<open>Events and state\<close>

datatype heartbeat_event =
    HePingSent flash_exchange i64
  | HePongReceived flash_exchange u64 i64
  | HePongTimeout flash_exchange u32
  | HeHealthChanged flash_exchange health_status health_status u32
  | HeStaleConnection flash_exchange u64
  | HeMonitoringStarted flash_exchange
  | HeMonitoringStopped flash_exchange string

record health_summary =
  hsum_status :: health_status
  hsum_missed_pongs :: u32
  hsum_since_last_pong :: "duration option"
  hsum_last_latency_us :: "u64 option"
  hsum_avg_latency_us :: "u64 option"
  hsum_total_pings :: u64
  hsum_total_pongs :: u64
  hsum_success_rate :: f64

text \<open>The task handle is never set; the shutdown sender of the task is present or not.\<close>

record health_state =
  hs_status :: health_status
  hs_missed_pongs :: u64
  hs_last_pong :: instant
  hs_last_ping :: "instant option"
  hs_last_latency_us :: u64
  hs_avg_latency_us :: u64
  hs_total_pongs :: u64
  hs_total_pings :: u64
  hs_monitoring :: bool
  hs_shutdown_tx :: "unit option"

definition health_state_new :: "instant \<Rightarrow> health_state" where
  "health_state_new now =
     \<lparr>hs_status = HsUnknown, hs_missed_pongs = 0, hs_last_pong = now, hs_last_ping = None,
      hs_last_latency_us = 0, hs_avg_latency_us = 0, hs_total_pongs = 0, hs_total_pings = 0,
      hs_monitoring = False, hs_shutdown_tx = None\<rparr>"

record heartbeat_manager =
  hm_config :: heartbeat_config
  hm_states :: "flash_exchange \<rightharpoonup> health_state"
  hm_events :: "heartbeat_event channel"

definition heartbeat_manager_new :: "heartbeat_config \<Rightarrow> heartbeat_manager" where
  "heartbeat_manager_new c = \<lparr>hm_config = c, hm_states = Map.empty, hm_events = event_channel_new\<rparr>"

text \<open>\<open>entry(exchange).or_insert_with(HealthState::new)\<close>.\<close>

definition hm_entry :: "instant \<Rightarrow> flash_exchange \<Rightarrow> heartbeat_manager \<Rightarrow> health_state" where
  "hm_entry now x m = (case hm_states m x of Some s \<Rightarrow> s | None \<Rightarrow> health_state_new now)"

definition hm_put :: "flash_exchange \<Rightarrow> health_state \<Rightarrow> heartbeat_manager \<Rightarrow> heartbeat_manager" where
  "hm_put x s m = m\<lparr>hm_states := (hm_states m)(x \<mapsto> s)\<rparr>"

definition hm_send :: "heartbeat_event \<Rightarrow> heartbeat_manager \<Rightarrow> heartbeat_manager" where
  "hm_send e m = m\<lparr>hm_events := try_send_event e (hm_events m)\<rparr>"

section \<open>Operations\<close>

definition start_monitoring :: "instant \<Rightarrow> flash_exchange \<Rightarrow> heartbeat_manager \<Rightarrow> heartbeat_manager" where
  "start_monitoring now x m =
     (let s = hm_entry now x m in
      if hs_monitoring s then hm_put x s m
      else hm_put x (s\<lparr>hs_monitoring := True, hs_shutdown_tx := Some ()\<rparr>) (hm_send (HeMonitoringStarted x) m))"

definition stop_monitoring :: "flash_exchange \<Rightarrow> heartbeat_manager \<Rightarrow> heartbeat_manager" where
  "stop_monitoring x m =
     (case hm_states m x of
        None \<Rightarrow> m
      | Some s \<Rightarrow>
          if \<not> hs_monitoring s then m
          else hm_send (HeMonitoringStopped x ''user requested'')
                 (hm_put x (s\<lparr>hs_monitoring := False, hs_shutdown_tx := None\<rparr>) m))"

definition pong_alpha :: f64 where
  "pong_alpha = f64_of_rat (2 / 10)"

definition pong_average :: "u64 \<Rightarrow> u64 \<Rightarrow> u64" where
  "pong_average old latency =
     (if old = 0 then latency
      else f64_as_u64 (f64_mul_add (f64_sub (FFin 1) pong_alpha) (f64_of_int (uint old))
                         (f64_mul pong_alpha (f64_of_int (uint latency)))))"

text \<open>\<open>as_micros() as u64\<close> of a duration.\<close>

definition as_micros_u64 :: "duration \<Rightarrow> u64" where
  "as_micros_u64 d = of_nat (d div 1000)"

text \<open>
  \<open>record_pong_internal\<close>, first the section under the entry of the exchange (it returns the
  old status and the latency), then the section that takes the entry again.
\<close>

definition record_pong_begin ::
  "instant \<Rightarrow> flash_exchange \<Rightarrow> duration option \<Rightarrow> heartbeat_manager \<Rightarrow>
     (health_status \<times> u64) \<times> heartbeat_manager" where
  "record_pong_begin now x latency m =
     (let s = hm_entry now x m;
          s1 = s\<lparr>hs_missed_pongs := 0, hs_last_pong := now, hs_total_pongs := hs_total_pongs s + 1\<rparr>;
          d = (case latency of Some l \<Rightarrow> Some l | None \<Rightarrow> map_option (\<lambda>t. now - t) (hs_last_ping s));
          us = (case d of None \<Rightarrow> 0 | Some l \<Rightarrow> as_micros_u64 l);
          s2 = (if 0 < us
                then s1\<lparr>hs_last_latency_us := us, hs_avg_latency_us := pong_average (hs_avg_latency_us s) us\<rparr>
                else s1) in
      ((hs_status s, us), hm_put x s2 m))"

definition record_pong_end ::
  "i64 \<Rightarrow> flash_exchange \<Rightarrow> health_status \<times> u64 \<Rightarrow> heartbeat_manager \<Rightarrow> heartbeat_manager" where
  "record_pong_end stamp x r m =
     (case hm_states m x of
        None \<Rightarrow> m
      | Some s \<Rightarrow>
          let m1 = hm_put x (s\<lparr>hs_status := HsHealthy\<rparr>) m;
              m2 = (if fst r \<noteq> HsHealthy then hm_send (HeHealthChanged x (fst r) HsHealthy 0) m1 else m1) in
          hm_send (HePongReceived x (snd r) stamp) m2)"

definition record_pong_internal ::
  "instant \<Rightarrow> i64 \<Rightarrow> flash_exchange \<Rightarrow> duration option \<Rightarrow> heartbeat_manager \<Rightarrow> heartbeat_manager" where
  "record_pong_internal now stamp x latency m =
     (let (r, m1) = record_pong_begin now x latency m in record_pong_end stamp x r m1)"

definition record_pong :: "instant \<Rightarrow> i64 \<Rightarrow> flash_exchange \<Rightarrow> heartbeat_manager \<Rightarrow> heartbeat_manager" where
  "record_pong now stamp x m = record_pong_internal now stamp x None m"

definition record_pong_with_latency ::
  "instant \<Rightarrow> i64 \<Rightarrow> flash_exchange \<Rightarrow> duration \<Rightarrow> heartbeat_manager \<Rightarrow> heartbeat_manager" where
  "record_pong_with_latency now stamp x d m = record_pong_internal now stamp x (Some d) m"

definition record_missed_begin ::
  "instant \<Rightarrow> flash_exchange \<Rightarrow> heartbeat_manager \<Rightarrow> (health_status \<times> u64) \<times> heartbeat_manager" where
  "record_missed_begin now x m =
     (let s = hm_entry now x m; missed = hs_missed_pongs s + 1 in
      ((hs_status s, missed), hm_put x (s\<lparr>hs_missed_pongs := missed\<rparr>) m))"

definition missed_status :: "heartbeat_config \<Rightarrow> u64 \<Rightarrow> health_status \<Rightarrow> health_status" where
  "missed_status c missed old =
     (if missed \<ge> ucast (hc_unhealthy_threshold c) then HsUnhealthy
      else if missed \<ge> ucast (hc_degraded_threshold c) then HsDegraded
      else if old = HsHealthy then HsHealthy
      else old)"

definition record_missed_end ::
  "flash_exchange \<Rightarrow> health_status \<times> u64 \<Rightarrow> heartbeat_manager \<Rightarrow> heartbeat_manager" where
  "record_missed_end x r m =
     (let status = missed_status (hm_config m) (snd r) (fst r) in
      case hm_states m x of
        None \<Rightarrow> m
      | Some s \<Rightarrow>
          let m1 = hm_send (HePongTimeout x (ucast (snd r))) (hm_put x (s\<lparr>hs_status := status\<rparr>) m) in
          if fst r \<noteq> status then hm_send (HeHealthChanged x (fst r) status (ucast (snd r))) m1 else m1)"

definition record_missed_pong :: "instant \<Rightarrow> flash_exchange \<Rightarrow> heartbeat_manager \<Rightarrow> heartbeat_manager" where
  "record_missed_pong now x m =
     (let (r, m1) = record_missed_begin now x m in record_missed_end x r m1)"

definition hm_health_status :: "flash_exchange \<Rightarrow> heartbeat_manager \<Rightarrow> health_status" where
  "hm_health_status x m = (case hm_states m x of None \<Rightarrow> HsUnknown | Some s \<Rightarrow> hs_status s)"

definition positive :: "u64 \<Rightarrow> u64 option" where
  "positive w = (if 0 < w then Some w else None)"

definition hm_health_summary :: "instant \<Rightarrow> flash_exchange \<Rightarrow> heartbeat_manager \<Rightarrow> health_summary option" where
  "hm_health_summary now x m =
     map_option (\<lambda>s.
       \<lparr>hsum_status = hs_status s, hsum_missed_pongs = ucast (hs_missed_pongs s),
        hsum_since_last_pong = Some (now - hs_last_pong s),
        hsum_last_latency_us = positive (hs_last_latency_us s),
        hsum_avg_latency_us = positive (hs_avg_latency_us s),
        hsum_total_pings = hs_total_pings s, hsum_total_pongs = hs_total_pongs s,
        hsum_success_rate =
          (if 0 < hs_total_pings s
           then f64_div (f64_of_int (uint (hs_total_pongs s))) (f64_of_int (uint (hs_total_pings s)))
           else if 0 < hs_total_pongs s then FFin 1 else FFin 0)\<rparr>)
       (hm_states m x)"

definition hm_is_healthy :: "flash_exchange \<Rightarrow> heartbeat_manager \<Rightarrow> bool" where
  "hm_is_healthy x m = hs_is_healthy (hm_health_status x m)"

definition hm_is_stale :: "instant \<Rightarrow> flash_exchange \<Rightarrow> heartbeat_manager \<Rightarrow> bool" where
  "hm_is_stale now x m =
     (case hm_states m x of
        None \<Rightarrow> True
      | Some s \<Rightarrow> now - hs_last_pong s > hc_stale_threshold (hm_config m))"

text \<open>\<open>keys\<close> is the order, not fixed by the code, in which the map is iterated.\<close>

definition all_health_statuses :: "flash_exchange list \<Rightarrow> heartbeat_manager \<Rightarrow> (flash_exchange \<times> health_status) list" where
  "all_health_statuses keys m =
     List.map_filter (\<lambda>x. case hm_states m x of
         None \<Rightarrow> None
       | Some s \<Rightarrow> if hs_monitoring s then Some (x, hs_status s) else None) keys"

definition force_ping :: "instant \<Rightarrow> i64 \<Rightarrow> flash_exchange \<Rightarrow> heartbeat_manager \<Rightarrow> heartbeat_manager" where
  "force_ping now stamp x m =
     hm_send (HePingSent x stamp)
       (case hm_states m x of
          None \<Rightarrow> m
        | Some s \<Rightarrow> hm_put x (s\<lparr>hs_last_ping := Some now, hs_total_pings := hs_total_pings s + 1\<rparr>) m)"

text \<open>\<open>shutdown\<close> stops the exchanges in the order \<open>keys\<close> in which the map lists them.\<close>

definition heartbeat_shutdown :: "flash_exchange list \<Rightarrow> heartbeat_manager \<Rightarrow> heartbeat_manager" where
  "heartbeat_shutdown keys m = fold stop_monitoring keys m"


section \<open>Complete calls\<close>

text \<open>Operations as values; a clock reading in nanoseconds and one in microseconds where they occur.\<close>

datatype heartbeat_op =
    OpStart instant flash_exchange
  | OpStop flash_exchange
  | OpPong instant i64 flash_exchange "duration option"
  | OpMissed instant flash_exchange
  | OpPing instant i64 flash_exchange
  | OpReceive
  | OpShutdown "flash_exchange list"

fun hb_apply :: "heartbeat_op \<Rightarrow> heartbeat_manager \<Rightarrow> heartbeat_manager" where
  "hb_apply (OpStart now x) m = start_monitoring now x m"
| "hb_apply (OpStop x) m = stop_monitoring x m"
| "hb_apply (OpPong now stamp x latency) m = record_pong_internal now stamp x latency m"
| "hb_apply (OpMissed now x) m = record_missed_pong now x m"
| "hb_apply (OpPing now stamp x) m = force_ping now stamp x m"
| "hb_apply OpReceive m = m\<lparr>hm_events := snd (channel_try_recv (hm_events m))\<rparr>"
| "hb_apply (OpShutdown keys) m = heartbeat_shutdown keys m"

text \<open>
  What the status should be: unknown before the first answer, then decided by the number of
  pings missed since the last answer.
\<close>

fun missed_in_row :: "flash_exchange \<Rightarrow> heartbeat_op list \<Rightarrow> nat \<Rightarrow> nat" where
  "missed_in_row x [] n = n"
| "missed_in_row x (OpPong now stamp y l # ops) n = missed_in_row x ops (if y = x then 0 else n)"
| "missed_in_row x (OpMissed now y # ops) n = missed_in_row x ops (if y = x then Suc n else n)"
| "missed_in_row x (_ # ops) n = missed_in_row x ops n"

fun pong_of :: "flash_exchange \<Rightarrow> heartbeat_op \<Rightarrow> bool" where
  "pong_of x (OpPong now stamp y l) \<longleftrightarrow> y = x"
| "pong_of x _ \<longleftrightarrow> False"

definition expected_status :: "heartbeat_config \<Rightarrow> bool \<Rightarrow> nat \<Rightarrow> health_status" where
  "expected_status c answered n =
     (if n = 0 then if answered then HsHealthy else HsUnknown
      else if unat (hc_unhealthy_threshold c) \<le> n then HsUnhealthy
      else if unat (hc_degraded_threshold c) \<le> n then HsDegraded
      else if answered then HsHealthy else HsUnknown)"

lemma hm_simps [simp]:
  "hm_states (hm_put x s m) = (hm_states m)(x \<mapsto> s)" "hm_config (hm_put x s m) = hm_config m"
  "hm_states (hm_send e m) = hm_states m" "hm_config (hm_send e m) = hm_config m"
  by (simp_all add: hm_put_def hm_send_def)

text \<open>What an exchange shows: its status, its consecutive misses and its answers.\<close>

definition hb_view :: "flash_exchange \<Rightarrow> heartbeat_manager \<Rightarrow> health_status \<times> u64 \<times> u64" where
  "hb_view x m = (case hm_states m x of
       None \<Rightarrow> (HsUnknown, 0, 0)
     | Some s \<Rightarrow> (hs_status s, hs_missed_pongs s, hs_total_pongs s))"

lemma hb_view_pong:
  "hb_view x (record_pong_internal now stamp y l m) =
     (if x = y then (HsHealthy, 0, snd (snd (hb_view x m)) + 1) else hb_view x m)"
  by (auto simp: hb_view_def record_pong_internal_def record_pong_begin_def record_pong_end_def Let_def
      hm_entry_def health_state_new_def split: option.splits)

lemma hb_view_missed:
  "hb_view x (record_missed_pong now y m) =
     (if x = y then (missed_status (hm_config m) (fst (snd (hb_view x m)) + 1) (fst (hb_view x m)),
                     fst (snd (hb_view x m)) + 1, snd (snd (hb_view x m))) else hb_view x m)"
  by (auto simp: hb_view_def record_missed_pong_def record_missed_begin_def record_missed_end_def Let_def
      hm_entry_def health_state_new_def split: option.splits)

lemma hb_view_other [simp]:
  "hb_view x (start_monitoring now y m) = hb_view x m"
  "hb_view x (stop_monitoring y m) = hb_view x m"
  "hb_view x (force_ping now stamp y m) = hb_view x m"
  "hb_view x (m\<lparr>hm_events := c\<rparr>) = hb_view x m"
  by (auto simp: hb_view_def start_monitoring_def stop_monitoring_def force_ping_def Let_def
      hm_entry_def health_state_new_def split: option.splits)

lemma hb_view_shutdown [simp]: "hb_view x (heartbeat_shutdown keys m) = hb_view x m"
  unfolding heartbeat_shutdown_def by (induction keys arbitrary: m) simp_all

lemma hm_config_apply [simp]: "hm_config (hb_apply h m) = hm_config m"
proof -
  have stop: "hm_config (stop_monitoring y m) = hm_config m" for y m
    by (simp add: stop_monitoring_def split: option.split)
  have "hm_config (fold stop_monitoring keys m) = hm_config m" for keys m
    by (induction keys arbitrary: m) (simp_all add: stop)
  then show ?thesis
    by (cases h) (simp_all add: stop heartbeat_shutdown_def start_monitoring_def force_ping_def
        record_pong_internal_def record_pong_begin_def record_pong_end_def record_missed_pong_def
        record_missed_begin_def record_missed_end_def Let_def split: option.split)
qed

lemma missed_status_expected:
  assumes "unat w = Suc n" "s = expected_status c a n"
  shows "missed_status c w s = expected_status c a (Suc n)"
proof -
  have "w \<ge> ucast (t :: u32) \<longleftrightarrow> unat t \<le> Suc n" for t
    by (simp add: word_le_nat_alt assms(1))
  then show ?thesis
    by (auto simp: missed_status_def expected_status_def assms(2))
qed

lemma hb_history:
  assumes "n + length ops < 2 ^ 64" "k + length ops < 2 ^ 64" "0 < k \<longleftrightarrow> a"
    and "hb_view x m = (expected_status (hm_config m) a n, of_nat n, of_nat k)"
  shows "hb_view x (fold hb_apply ops m) =
     (expected_status (hm_config m) (a \<or> (\<exists>h\<in>set ops. pong_of x h)) (missed_in_row x ops n),
      of_nat (missed_in_row x ops n), of_nat (k + length (filter (pong_of x) ops)))"
  using assms
proof (induction ops arbitrary: m n k a)
  case Nil
  then show ?case by simp
next
  case (Cons h ops)
  note IH = Cons.IH [of _ _ _ "hb_apply h m", simplified]
  have un: "unat (of_nat n + 1 :: u64) = Suc n"
    using Cons.prems(1) unat_u64_small [of "Suc n"] by (simp add: usize_limit_def add.commute)
  show ?case
  proof (cases "(\<exists>now stamp l. h = OpPong now stamp x l) \<or> (\<exists>now. h = OpMissed now x)")
    case False
    then have same: "hb_view x (hb_apply h m) = hb_view x m" "\<not> pong_of x h"
      "missed_in_row x (h # ops) n = missed_in_row x ops n"
      by (cases h; auto simp: hb_view_pong hb_view_missed)+
    from IH [of n k a] Cons.prems show ?thesis by (simp add: same del: missed_in_row.simps)
  next
    case True
    then show ?thesis
    proof (elim disjE exE)
      fix now stamp l
      assume h: "h = OpPong now stamp x l"
      have "hb_view x (hb_apply h m) = (expected_status (hm_config m) True 0, of_nat 0, of_nat (Suc k))"
        using Cons.prems(4) by (simp add: h hb_view_pong expected_status_def add.commute)
      from IH [of 0 "Suc k" True] this Cons.prems show ?thesis by (simp add: h add.commute)
    next
      fix now
      assume h: "h = OpMissed now x"
      have "hb_view x (hb_apply h m) = (expected_status (hm_config m) a (Suc n), of_nat (Suc n), of_nat k)"
        using Cons.prems(4) missed_status_expected [OF un, of _ "hm_config m" a]
        by (simp add: h hb_view_missed add.commute)
      from IH [of "Suc n" k a] this Cons.prems show ?thesis by (simp add: h add.commute)
    qed
  qed
qed


lemma hb_view_new: "hb_view x (heartbeat_manager_new c) = (expected_status c False 0, of_nat 0, of_nat 0)"
  by (simp add: hb_view_def heartbeat_manager_new_def expected_status_def)

lemma hm_config_new [simp]: "hm_config (heartbeat_manager_new c) = c"
  by (simp add: heartbeat_manager_new_def)

lemma hm_config_fold [simp]: "hm_config (fold hb_apply ops m) = hm_config m"
  by (induction ops arbitrary: m) simp_all

section \<open>Overlapping calls\<close>

text \<open>
  A call between its two sections, with the values it carries over. The state of the system is
  the manager with the calls under way; \<open>hb_reach c h (m, P)\<close> says that the state is
  reached with the operations \<open>h\<close> begun in this order.
\<close>

datatype hb_call =
    PongCall flash_exchange "health_status \<times> u64"
  | MissedCall flash_exchange "health_status \<times> u64"

inductive hb_reach ::
  "heartbeat_config \<Rightarrow> heartbeat_op list \<Rightarrow> heartbeat_manager \<times> hb_call list \<Rightarrow> bool" for c where
  init: "hb_reach c [] (heartbeat_manager_new c, [])"
| atomic: "hb_reach c h (m, P) \<Longrightarrow> (\<nexists>now stamp x l. p = OpPong now stamp x l) \<Longrightarrow>
     (\<nexists>now x. p = OpMissed now x) \<Longrightarrow> hb_reach c (h @ [p]) (hb_apply p m, P)"
| pong_begin: "hb_reach c h (m, P) \<Longrightarrow> record_pong_begin now x l m = (r, m') \<Longrightarrow>
     hb_reach c (h @ [OpPong now stamp x l]) (m', PongCall x r # P)"
| pong_end: "hb_reach c h (m, P @ PongCall x r # Q) \<Longrightarrow> hb_reach c h (record_pong_end stamp x r m, P @ Q)"
| missed_begin: "hb_reach c h (m, P) \<Longrightarrow> record_missed_begin now x m = (r, m') \<Longrightarrow>
     hb_reach c (h @ [OpMissed now x]) (m', MissedCall x r # P)"
| missed_end: "hb_reach c h (m, P @ MissedCall x r # Q) \<Longrightarrow> hb_reach c h (record_missed_end x r m, P @ Q)"

text \<open>Everything of the state of an exchange but its status.\<close>

definition hb_counts :: "flash_exchange \<Rightarrow> heartbeat_manager \<Rightarrow> u64 \<times> u64" where
  "hb_counts x m = snd (hb_view x m)"

definition sender_matches :: "heartbeat_manager \<Rightarrow> bool" where
  "sender_matches m \<longleftrightarrow> (\<forall>x s. hm_states m x = Some s \<longrightarrow> (hs_monitoring s \<longleftrightarrow> hs_shutdown_tx s = Some ()))"

definition events_bounded :: "heartbeat_manager \<Rightarrow> bool" where
  "events_bounded m \<longleftrightarrow> channel_ok (hm_events m) \<and> ch_capacity (hm_events m) = EVENT_CHANNEL_SIZE"

lemma missed_in_row_append:
  "missed_in_row x (ops @ [p]) n = missed_in_row x [p] (missed_in_row x ops n)"
  by (induction x ops n rule: missed_in_row.induct) simp_all

lemma missed_in_row_pong [simp]:
  "missed_in_row x (ops @ [OpPong now stamp y l]) n = (if y = x then 0 else missed_in_row x ops n)"
  by (subst missed_in_row_append) simp

lemma missed_in_row_missed [simp]:
  "missed_in_row x (ops @ [OpMissed now y]) n = (if y = x then Suc (missed_in_row x ops n) else missed_in_row x ops n)"
  by (subst missed_in_row_append) simp

lemma hb_counts_begin:
  "record_pong_begin now y l m = (r, m') \<Longrightarrow>
     hb_counts x m' = (if x = y then (0, snd (hb_counts x m) + 1) else hb_counts x m)"
  "record_missed_begin now y m = (v, m') \<Longrightarrow>
     hb_counts x m' = (if x = y then (fst (hb_counts x m) + 1, snd (hb_counts x m)) else hb_counts x m)"
  by (auto simp: hb_counts_def hb_view_def record_pong_begin_def record_missed_begin_def Let_def hm_entry_def
      health_state_new_def split: option.splits if_splits)

lemma hb_counts_end [simp]:
  "hb_counts x (record_pong_end stamp y r m) = hb_counts x m"
  "hb_counts x (record_missed_end y r m) = hb_counts x m"
  by (auto simp: hb_counts_def hb_view_def record_pong_end_def record_missed_end_def Let_def split: option.splits)

lemma hb_counts_atomic:
  assumes "\<nexists>now stamp x l. p = OpPong now stamp x l" "\<nexists>now x. p = OpMissed now x"
  shows "hb_counts x (hb_apply p m) = hb_counts x m" "missed_in_row x (h @ [p]) n = missed_in_row x h n"
    "\<not> pong_of x p"
proof -
  show "hb_counts x (hb_apply p m) = hb_counts x m" "\<not> pong_of x p"
    using assms by (cases p; simp add: hb_counts_def)+
  show "missed_in_row x (h @ [p]) n = missed_in_row x h n"
    unfolding missed_in_row_append [of x h] using assms by (cases p) simp_all
qed

lemma sender_matches_put:
  "sender_matches m \<Longrightarrow> (hs_monitoring s \<longleftrightarrow> hs_shutdown_tx s = Some ()) \<Longrightarrow> sender_matches (hm_put x s m)"
  "sender_matches (hm_send e m) \<longleftrightarrow> sender_matches m"
  "sender_matches (m\<lparr>hm_events := c\<rparr>) \<longleftrightarrow> sender_matches m"
  by (auto simp: sender_matches_def)

lemma sender_matchesD:
  "sender_matches m \<Longrightarrow> hm_states m x = Some s \<Longrightarrow> hs_monitoring s \<longleftrightarrow> hs_shutdown_tx s = Some ()"
  by (simp add: sender_matches_def)

lemma sender_matches_entry:
  "sender_matches m \<Longrightarrow> hs_monitoring (hm_entry now x m) \<longleftrightarrow> hs_shutdown_tx (hm_entry now x m) = Some ()"
  by (auto simp: hm_entry_def health_state_new_def sender_matches_def split: option.split)

lemma events_bounded_hm [simp]:
  "events_bounded (hm_put x s m) \<longleftrightarrow> events_bounded m"
  "events_bounded m \<Longrightarrow> events_bounded (hm_send e m)"
  by (auto simp: events_bounded_def hm_put_def hm_send_def try_send_event_def)

lemmas hb_sections = record_pong_begin_def record_pong_end_def record_missed_begin_def record_missed_end_def
lemmas hb_atomic = start_monitoring_def stop_monitoring_def force_ping_def

lemma stop_keeps:
  "sender_matches m \<and> events_bounded m \<Longrightarrow> sender_matches (stop_monitoring x m) \<and> events_bounded (stop_monitoring x m)"
  by (simp add: stop_monitoring_def sender_matches_put split: option.split)

lemma shutdown_keeps:
  "sender_matches m \<and> events_bounded m \<Longrightarrow>
     sender_matches (heartbeat_shutdown keys m) \<and> events_bounded (heartbeat_shutdown keys m)"
  unfolding heartbeat_shutdown_def by (induction keys arbitrary: m) (simp_all add: stop_keeps)

lemma hb_keeps:
  assumes "sender_matches m \<and> events_bounded m"
  shows "sender_matches (snd (record_pong_begin now x l m)) \<and> events_bounded (snd (record_pong_begin now x l m))"
    "sender_matches (record_pong_end stamp x r m) \<and> events_bounded (record_pong_end stamp x r m)"
    "sender_matches (snd (record_missed_begin now x m)) \<and> events_bounded (snd (record_missed_begin now x m))"
    "sender_matches (record_missed_end x v m) \<and> events_bounded (record_missed_end x v m)"
    "sender_matches (start_monitoring now x m) \<and> events_bounded (start_monitoring now x m)"
    "sender_matches (force_ping now stamp x m) \<and> events_bounded (force_ping now stamp x m)"
    "sender_matches (m\<lparr>hm_events := snd (channel_try_recv (hm_events m))\<rparr>) \<and>
       events_bounded (m\<lparr>hm_events := snd (channel_try_recv (hm_events m))\<rparr>)"
proof -
  note [simp] = sender_matches_put Let_def sender_matches_entry sender_matchesD
  show "sender_matches (snd (record_pong_begin now x l m)) \<and> events_bounded (snd (record_pong_begin now x l m))"
    using assms by (simp add: record_pong_begin_def)
  show "sender_matches (record_pong_end stamp x r m) \<and> events_bounded (record_pong_end stamp x r m)"
    using assms by (auto simp: record_pong_end_def dest: sender_matchesD split: option.split)
  show "sender_matches (snd (record_missed_begin now x m)) \<and> events_bounded (snd (record_missed_begin now x m))"
    using assms by (simp add: record_missed_begin_def)
  show "sender_matches (record_missed_end x v m) \<and> events_bounded (record_missed_end x v m)"
    using assms by (auto simp: record_missed_end_def dest: sender_matchesD split: option.split)
  show "sender_matches (start_monitoring now x m) \<and> events_bounded (start_monitoring now x m)"
    using assms by (simp add: start_monitoring_def)
  show "sender_matches (force_ping now stamp x m) \<and> events_bounded (force_ping now stamp x m)"
    using assms by (auto simp: force_ping_def dest: sender_matchesD split: option.split)
  show "sender_matches (m\<lparr>hm_events := snd (channel_try_recv (hm_events m))\<rparr>) \<and>
       events_bounded (m\<lparr>hm_events := snd (channel_try_recv (hm_events m))\<rparr>)"
    using assms by (simp add: events_bounded_def)
qed

lemma hb_reach_invariant:
  "hb_reach c h (m, P) \<Longrightarrow>
     (sender_matches m \<and> events_bounded m) \<and>
     (\<forall>x. hb_counts x m = (of_nat (missed_in_row x h 0), of_nat (length (filter (pong_of x) h))))"
proof (induction h "(m, P)" arbitrary: m P rule: hb_reach.induct)
  case init
  show ?case
    by (simp add: sender_matches_def events_bounded_def channel_ok_def heartbeat_manager_new_def event_channel_new_def
        hb_counts_def hb_view_def)
next
  case (atomic h m P p)
  have "sender_matches (hb_apply p m) \<and> events_bounded (hb_apply p m)"
    using atomic.hyps(2-4) by (cases p) (simp_all only: hb_apply.simps hb_keeps stop_keeps shutdown_keeps, auto)
  with atomic.hyps(2-4) show ?case by (simp add: hb_counts_atomic)
next
  case (pong_begin h m P now x l r m' stamp)
  from hb_keeps(1) [of m now x l] pong_begin.hyps(2,3) show ?case
    by (simp add: hb_counts_begin(1) [OF pong_begin.hyps(3)])
next
  case (pong_end h m P x r Q stamp)
  then show ?case using hb_keeps(2) [of m stamp x r] by simp
next
  case (missed_begin h m P now x r m')
  from hb_keeps(3) [of m now x] missed_begin.hyps(2,3) show ?case
    by (simp add: hb_counts_begin(2) [OF missed_begin.hyps(3)])
next
  case (missed_end h m P x r Q)
  then show ?case using hb_keeps(4) [of m x r] by simp
qed


section \<open>Properties\<close>

text \<open>
  C17: Calls one after the other: after any operations the status of an exchange is the
  one its own answers and misses call for: unhealthy or degraded from the thresholds on, counting
  misses since the last answer, and otherwise healthy exactly when it has answered before.
\<close>

theorem health_follows_history:
  assumes "length ops < 2 ^ 64"
  shows "hm_health_status x (fold hb_apply ops (heartbeat_manager_new c)) =
    expected_status c (\<exists>h\<in>set ops. pong_of x h) (missed_in_row x ops 0)"
proof -
  have "hb_view x (fold hb_apply ops (heartbeat_manager_new c)) =
      (expected_status c (\<exists>h\<in>set ops. pong_of x h) (missed_in_row x ops 0),
       of_nat (missed_in_row x ops 0), of_nat (length (filter (pong_of x) ops)))"
    using hb_history [of 0 ops 0 False x "heartbeat_manager_new c"] assms hb_view_new [of x c] by simp
  then show ?thesis by (auto simp: hm_health_status_def hb_view_def split: option.splits)
qed

theorem health_follows_history_witness:
  "hm_health_status FxOanda
     (fold hb_apply [OpStart 0 FxOanda, OpPong 5 0 FxOanda (Some 3000), OpMissed 9 FxBinance, OpMissed 9 FxOanda]
        (heartbeat_manager_new heartbeat_config_default)) = HsDegraded"
  by (subst health_follows_history) (simp_all add: expected_status_def heartbeat_config_default_def)

text \<open>
  Calls of any threads, also overlapping ones: the counters are exact (the
  misses begun since the last answer, the answers begun), a task sender exists exactly while
  an exchange is monitored, and the event queue never exceeds its capacity.
\<close>

theorem heartbeat_counters_exact:
  assumes "hb_reach c h (m, P)"
  shows "length (ch_queue (hm_events m)) \<le> EVENT_CHANNEL_SIZE \<and>
    (\<forall>x s. hm_states m x = Some s \<longrightarrow>
      hs_missed_pongs s = of_nat (missed_in_row x h 0) \<and>
      hs_total_pongs s = of_nat (length (filter (pong_of x) h)) \<and>
      (hs_monitoring s \<longleftrightarrow> hs_shutdown_tx s = Some ()))"
proof (intro conjI allI impI)
  note inv = hb_reach_invariant [OF assms]
  show "length (ch_queue (hm_events m)) \<le> EVENT_CHANNEL_SIZE" using inv by (simp add: events_bounded_def channel_ok_def)
  fix x s
  assume "hm_states m x = Some s"
  moreover have "hb_counts x m = (of_nat (missed_in_row x h 0), of_nat (length (filter (pong_of x) h)))"
    using inv by blast
  ultimately show "hs_missed_pongs s = of_nat (missed_in_row x h 0)"
    "hs_total_pongs s = of_nat (length (filter (pong_of x) h))"
    "hs_monitoring s \<longleftrightarrow> hs_shutdown_tx s = Some ()"
    using inv by (simp_all add: hb_counts_def hb_view_def sender_matches_def)
qed

text \<open>One call of \<open>record_missed_pong\<close> overtaken by one of \<open>record_pong\<close>, with a threshold of one.\<close>

definition strict_config :: heartbeat_config where
  "strict_config = heartbeat_config_default\<lparr>hc_unhealthy_threshold := 1\<rparr>"

definition overtaken :: heartbeat_manager where
  "overtaken =
     (let m0 = heartbeat_manager_new strict_config;
          (v, m1) = record_missed_begin 0 FxOanda m0;
          (r, m2) = record_pong_begin 2 FxOanda (Some 5000) m1;
          m3 = record_pong_end 1 FxOanda r m2 in
      record_missed_end FxOanda v m3)"

lemma overtaken_reached:
  "hb_reach strict_config [OpMissed 0 FxOanda, OpPong 2 1 FxOanda (Some 5000)] (overtaken, [])"
proof -
  obtain v m1 where 1: "record_missed_begin 0 FxOanda (heartbeat_manager_new strict_config) = (v, m1)"
    by fastforce
  obtain r m2 where 2: "record_pong_begin 2 FxOanda (Some 5000) m1 = (r, m2)" by fastforce
  have "hb_reach strict_config [OpMissed 0 FxOanda] (m1, [MissedCall FxOanda v])"
    using missed_begin [OF init 1] by simp
  from pong_begin [OF this 2, of 1]
  have "hb_reach strict_config [OpMissed 0 FxOanda, OpPong 2 1 FxOanda (Some 5000)]
      (m2, [] @ PongCall FxOanda r # [MissedCall FxOanda v])" by simp
  from pong_end [OF this, of 1]
  have "hb_reach strict_config [OpMissed 0 FxOanda, OpPong 2 1 FxOanda (Some 5000)]
      (record_pong_end 1 FxOanda r m2, [] @ MissedCall FxOanda v # [])" by simp
  from missed_end [OF this] show ?thesis by (simp add: overtaken_def 1 2)
qed

theorem heartbeat_counters_exact_witness:
  "\<exists>s. hm_states overtaken FxOanda = Some s \<and> hs_missed_pongs s = 0 \<and> hs_total_pongs s = 1 \<and>
       length (ch_queue (hm_events overtaken)) \<le> 1000"
proof -
  have "hm_states overtaken FxOanda \<noteq> None"
    by (simp add: overtaken_def record_missed_begin_def record_pong_begin_def record_pong_end_def
        record_missed_end_def Let_def)
  then obtain s where s: "hm_states overtaken FxOanda = Some s" by blast
  show ?thesis
    using heartbeat_counters_exact [OF overtaken_reached] s by (simp add: EVENT_CHANNEL_SIZE_def)
qed

text \<open>
  The status itself is not protected: here no call is under way, the last answer was
  counted after the miss, and yet the exchange is shown as unhealthy with no missed answer.
\<close>

theorem overtaken_miss_leaves_unhealthy:
  "hb_reach strict_config [OpMissed 0 FxOanda, OpPong 2 1 FxOanda (Some 5000)] (overtaken, []) \<and>
   hm_health_status FxOanda overtaken = HsUnhealthy \<and>
   hb_counts FxOanda overtaken = (0, 1)"
proof -
  obtain v m1 where 1: "record_missed_begin 0 FxOanda (heartbeat_manager_new strict_config) = (v, m1)"
    by fastforce
  obtain r m2 where 2: "record_pong_begin 2 FxOanda (Some 5000) m1 = (r, m2)" by fastforce
  have v: "v = (HsUnknown, 1)" and m1: "hm_config m1 = strict_config"
    using 1 by (auto simp: record_missed_begin_def Let_def hm_entry_def heartbeat_manager_new_def health_state_new_def)
  have m2: "hm_config m2 = strict_config" "hm_states m2 FxOanda \<noteq> None"
    using 2 m1 by (auto simp: record_pong_begin_def Let_def)
  have miss: "missed_status strict_config 1 HsUnknown = HsUnhealthy"
    by (simp add: missed_status_def strict_config_def)
  have "hm_health_status FxOanda overtaken = HsUnhealthy"
    using m2 by (auto simp: overtaken_def 1 2 v miss record_missed_end_def record_pong_end_def Let_def
        hm_health_status_def)
  moreover have "hb_counts FxOanda overtaken = (0, 1)"
    using hb_reach_invariant [OF overtaken_reached] by simp
  ultimately have "hm_health_status FxOanda overtaken = HsUnhealthy \<and> hb_counts FxOanda overtaken = (0, 1)"
    by blast
  with overtaken_reached show ?thesis by blast
qed

text \<open>
  The interval between pings stays within half of the configured one, for any random number.
\<close>

theorem ping_interval_bounded:
  assumes "heartbeat_config_validate c = Ok ()" and "in_unit random"
    and "unat (hc_ping_interval_ms c) \<le> 2 ^ 51"
  shows "from_millis 1 \<le> calculate_next_interval random c \<and>
    (unat (hc_ping_interval_ms c) div 2) * 10 ^ 6 \<le> calculate_next_interval random c \<and>
    calculate_next_interval random c \<le> max 1 (3 * unat (hc_ping_interval_ms c) div 2) * 10 ^ 6"
proof -
  let ?n = "unat (hc_ping_interval_ms c)"
  have j: "f64_in_range 0 (1 / 2) (hc_jitter_percent c)"
    using assms(1) by (auto simp: heartbeat_config_validate_def split: if_splits)
  have "f64_of_int (uint (hc_ping_interval_ms c)) = FFin (of_nat ?n)"
    by (rule f64_of_u64) (use assms(3) in simp_all)
  then have eq: "calculate_next_interval random c =
      unat (with_jitter random (hc_jitter_percent c) (FFin (of_nat ?n))) * 10 ^ 6"
    by (simp add: calculate_next_interval_def from_millis_def)
  note b = with_jitter_bounds [OF assms(3) of_nat_0_le_iff order_refl assms(2) j]
  show ?thesis
  proof (intro conjI)
    show "from_millis 1 \<le> calculate_next_interval random c"
      unfolding eq using mult_le_mono1 [OF b(1), of "10 ^ 6"] by (simp add: from_millis_def)
    show "(?n div 2) * 10 ^ 6 \<le> calculate_next_interval random c"
      unfolding eq by (rule mult_le_mono1, rule b(3), rule refl)
    show "calculate_next_interval random c \<le> max 1 (3 * ?n div 2) * 10 ^ 6"
      unfolding eq by (rule mult_le_mono1, rule b(2))
  qed
qed

lemma default_jitters: "f64_in_range 0 (1 / 2) (f64_of_rat (20 / 100))" "f64_in_range 0 (1 / 2) (f64_of_rat (25 / 100))"
  using f64_of_rat_between [of 0 "20 / 100" "1 / 2"] f64_of_rat_between [of 0 "25 / 100" "1 / 2"]
    dyadic_halves(2) [of 1] by (auto simp: f64_in_range_iff)

theorem ping_interval_bounded_witness:
  "15 * 10 ^ 9 \<le> calculate_next_interval (FFin (1 / 4)) heartbeat_config_default"
proof -
  have "heartbeat_config_validate heartbeat_config_default = Ok ()"
    using default_jitters(1) by (simp add: heartbeat_config_validate_def heartbeat_config_default_def)
  from ping_interval_bounded [OF this, of "FFin (1 / 4)"] show ?thesis
    by (simp add: in_unit_def f64_in_range_def heartbeat_config_default_def)
qed

end
