(* ===== verification/Flash_Config.thy ===== *)
theory Flash_Config
  imports F64_Order Order_Book
begin

text \<open>
  \<open>flash/src/core/error.rs\<close> and \<open>flash/src/core/config.rs\<close>: the error type of the adapter, and the
  configuration with its validation, environment overrides, credential clean-up and overlay
  merging. The YAML and URL parsers, the file system, the environment, the
  Unicode functions \<open>to_lowercase\<close> and \<open>trim\<close> and the printing of doubles are arguments.
\<close>

section \<open>Errors\<close>

text \<open>The errors of JSON, Redis and the operating system are values of other crates, of type \<open>'x\<close>.\<close>

datatype error_severity = SevWarning | SevError | SevCritical | SevFatal

fun severity_display :: "error_severity \<Rightarrow> string" where
  "severity_display SevWarning = ''WARNING''"
| "severity_display SevError = ''ERROR''"
| "severity_display SevCritical = ''CRITICAL''"
| "severity_display SevFatal = ''FATAL''"

datatype 'x flash_error =
    FeConnectionFailed string
  | FeDisconnected string bool
  | FeConnectionTimeout u64
  | FeAuthenticationFailed string string
  | FeRateLimited string u64
  | FeReadTimeout u64
  | FeParseError 'x
  | FeUnknownMessageFormat string
  | FeSerializationError string
  | FeSequenceGap u64 u64
  | FeInvalidBookState string
  | FeRedisError 'x
  | FePublishFailed u32 string
  | FeConfigError string
  | FeConfigFileNotFound string
  | FeInvalidPrice f64 string
  | FeInvalidQuantity string string
  | FeExchangeError string "32 word" string
  | FeIoError 'x
  | FeChannelClosed string
  | FeInternalError string

fun is_recoverable :: "'x flash_error \<Rightarrow> bool" where
  "is_recoverable (FeConnectionFailed _) = True"
| "is_recoverable (FeDisconnected _ _) = True"
| "is_recoverable (FeConnectionTimeout _) = True"
| "is_recoverable (FeRateLimited _ _) = True"
| "is_recoverable (FeReadTimeout _) = True"
| "is_recoverable (FeSequenceGap _ _) = True"
| "is_recoverable (FeRedisError _) = True"
| "is_recoverable (FePublishFailed _ _) = True"
| "is_recoverable (FeParseError _) = True"
| "is_recoverable (FeUnknownMessageFormat _) = True"
| "is_recoverable _ = False"

definition is_retryable :: "'x flash_error \<Rightarrow> bool" where
  "is_retryable e = is_recoverable e"

fun requires_snapshot :: "'x flash_error \<Rightarrow> bool" where
  "requires_snapshot (FeSequenceGap _ _) = True"
| "requires_snapshot (FeInvalidBookState _) = True"
| "requires_snapshot _ = False"

fun error_code :: "'x flash_error \<Rightarrow> u32" where
  "error_code (FeConnectionFailed _) = 101"
| "error_code (FeDisconnected _ _) = 102"
| "error_code (FeConnectionTimeout _) = 103"
| "error_code (FeAuthenticationFailed _ _) = 104"
| "error_code (FeRateLimited _ _) = 105"
| "error_code (FeReadTimeout _) = 106"
| "error_code (FeParseError _) = 201"
| "error_code (FeUnknownMessageFormat _) = 202"
| "error_code (FeSerializationError _) = 203"
| "error_code (FeSequenceGap _ _) = 301"
| "error_code (FeInvalidBookState _) = 302"
| "error_code (FeRedisError _) = 401"
| "error_code (FePublishFailed _ _) = 402"
| "error_code (FeConfigError _) = 501"
| "error_code (FeConfigFileNotFound _) = 502"
| "error_code (FeInvalidPrice _ _) = 601"
| "error_code (FeInvalidQuantity _ _) = 602"
| "error_code (FeExchangeError _ _ _) = 603"
| "error_code (FeIoError _) = 901"
| "error_code (FeChannelClosed _) = 902"
| "error_code (FeInternalError _) = 999"

fun flash_severity :: "'x flash_error \<Rightarrow> error_severity" where
  "flash_severity (FeRateLimited _ _) = SevWarning"
| "flash_severity (FeConnectionFailed _) = SevError"
| "flash_severity (FeDisconnected _ _) = SevError"
| "flash_severity (FeConnectionTimeout _) = SevError"
| "flash_severity (FeReadTimeout _) = SevError"
| "flash_severity (FeSequenceGap _ _) = SevError"
| "flash_severity (FeParseError _) = SevError"
| "flash_severity (FeUnknownMessageFormat _) = SevError"
| "flash_severity (FeSerializationError _) = SevError"
| "flash_severity (FeRedisError _) = SevError"
| "flash_severity (FePublishFailed _ _) = SevError"
| "flash_severity (FeExchangeError _ _ _) = SevError"
| "flash_severity (FeAuthenticationFailed _ _) = SevCritical"
| "flash_severity (FeInvalidBookState _) = SevCritical"
| "flash_severity (FeConfigError _) = SevCritical"
| "flash_severity (FeConfigFileNotFound _) = SevCritical"
| "flash_severity (FeInvalidPrice _ _) = SevCritical"
| "flash_severity (FeInvalidQuantity _ _) = SevCritical"
| "flash_severity (FeIoError _) = SevFatal"
| "flash_severity (FeChannelClosed _) = SevFatal"
| "flash_severity (FeInternalError _) = SevFatal"

lemma recoverable_not_critical: "is_recoverable e \<Longrightarrow> flash_severity e = SevWarning \<or> flash_severity e = SevError"
  by (cases e) simp_all

section \<open>Sections of the configuration\<close>

datatype config_validation_error =
    CvOutOfRange string string string string
  | CvEmpty string
  | CvInvalid string string
  | CvOrdering string string
  | CvInvalidUrl string string

fun cv_display :: "config_validation_error \<Rightarrow> string" where
  "cv_display (CvOutOfRange field low high value) =
     field @ '' must be between '' @ low @ '' and '' @ high @ '', got '' @ value"
| "cv_display (CvEmpty field) = field @ '' must not be empty''"
| "cv_display (CvInvalid field reason) = field @ '' has invalid value: '' @ reason"
| "cv_display (CvOrdering field1 field2) = field1 @ '' must be greater than or equal to '' @ field2"
| "cv_display (CvInvalidUrl field url) = ''Invalid URL for '' @ field @ '': '' @ url"

datatype serialization_format = SfJson | SfBincode | SfRkyv
datatype backpressure_action = BaDropOldest | BaDropNewest | BaBlock
datatype log_level = LlTrace | LlDebug | LlInfo | LlWarn | LlError
datatype log_format = LfPretty | LfJson

record websocket_config =
  ws_connect_timeout_ms :: u64
  ws_read_timeout_ms :: u64
  ws_ping_interval_ms :: u64
  ws_pong_timeout_ms :: u64
  ws_max_reconnect_attempts :: u32
  ws_reconnect_delay_ms :: u64
  ws_max_reconnect_delay_ms :: u64
  ws_reconnect_jitter :: f64

definition websocket_config_default :: websocket_config where
  "websocket_config_default =
     \<lparr>ws_connect_timeout_ms = 5000, ws_read_timeout_ms = 5000, ws_ping_interval_ms = 30000,
      ws_pong_timeout_ms = 10000, ws_max_reconnect_attempts = 10, ws_reconnect_delay_ms = 1000,
      ws_max_reconnect_delay_ms = 30000, ws_reconnect_jitter = f64_of_rat (1 / 10)\<rparr>"

record redis_config =
  rd_url :: string
  rd_database :: u8
  rd_pool_size :: u32
  rd_connect_timeout_ms :: u64
  rd_command_timeout_ms :: u64
  rd_batch_size :: usize
  rd_batch_timeout_ms :: u64
  rd_health_check_interval_ms :: u64

definition redis_config_default :: redis_config where
  "redis_config_default =
     \<lparr>rd_url = ''redis://127.0.0.1:6379'', rd_database = 0, rd_pool_size = 10, rd_connect_timeout_ms = 5000,
      rd_command_timeout_ms = 1000, rd_batch_size = 100, rd_batch_timeout_ms = 10,
      rd_health_check_interval_ms = 5000\<rparr>"

record backpressure_section =
  bp_capacity :: usize
  bp_warn_threshold :: f64
  bp_critical_threshold :: f64
  bp_action :: backpressure_action

definition backpressure_section_default :: backpressure_section where
  "backpressure_section_default =
     \<lparr>bp_capacity = 10000, bp_warn_threshold = f64_of_rat (75 / 100),
      bp_critical_threshold = f64_of_rat (95 / 100), bp_action = BaDropOldest\<rparr>"

record publisher_config =
  pc_format :: serialization_format
  pc_debug_json_fallback :: bool
  pc_topic_prefix :: string
  pc_backpressure :: backpressure_section

definition publisher_config_default :: publisher_config where
  "publisher_config_default =
     \<lparr>pc_format = SfBincode, pc_debug_json_fallback = False, pc_topic_prefix = ''astra:signals:flash'',
      pc_backpressure = backpressure_section_default\<rparr>"

record exchange_config =
  xc_enabled :: bool
  xc_ws_url :: string
  xc_api_key :: "string option"
  xc_account_id :: "string option"
  xc_rate_limit_per_second :: u32
  xc_instruments :: "string list"

definition exchange_config_default :: exchange_config where
  "exchange_config_default =
     \<lparr>xc_enabled = False, xc_ws_url = [], xc_api_key = None, xc_account_id = None,
      xc_rate_limit_per_second = 20, xc_instruments = []\<rparr>"

record exchanges_config =
  xs_deribit :: exchange_config
  xs_binance :: exchange_config
  xs_oanda :: exchange_config

definition exchanges_config_default :: exchanges_config where
  "exchanges_config_default =
     \<lparr>xs_deribit = exchange_config_default\<lparr>xc_ws_url := ''wss://www.deribit.com/ws/api/v2''\<rparr>,
      xs_binance = exchange_config_default\<lparr>xc_ws_url := ''wss://stream.binance.com:9443/ws''\<rparr>,
      xs_oanda = exchange_config_default\<lparr>xc_ws_url := ''wss://stream-fxpractice.oanda.com/v3/accounts'',
                   xc_rate_limit_per_second := 100\<rparr>\<rparr>"

record logging_config =
  lg_level :: log_level
  lg_format :: log_format
  lg_file_path :: "string option"
  lg_max_file_size_mb :: u32
  lg_max_files :: u32

definition logging_config_default :: logging_config where
  "logging_config_default =
     \<lparr>lg_level = LlInfo, lg_format = LfJson, lg_file_path = None, lg_max_file_size_mb = 100, lg_max_files = 5\<rparr>"

record metrics_config =
  mt_enabled :: bool
  mt_port :: u16
  mt_bind_address :: string
  mt_path :: string

definition metrics_config_default :: metrics_config where
  "metrics_config_default =
     \<lparr>mt_enabled = True, mt_port = 9090, mt_bind_address = ''0.0.0.0'', mt_path = ''/metrics''\<rparr>"

record shadow_mode_config =
  sm_enabled :: bool
  sm_namespace :: string

definition shadow_mode_config_default :: shadow_mode_config where
  "shadow_mode_config_default = \<lparr>sm_enabled = False, sm_namespace = ''rust''\<rparr>"

record flash_config =
  fc_websocket :: websocket_config
  fc_orderbook :: book_config
  fc_redis :: redis_config
  fc_publisher :: publisher_config
  fc_exchanges :: exchanges_config
  fc_logging :: logging_config
  fc_metrics :: metrics_config
  fc_shadow_mode :: shadow_mode_config

definition flash_config_default :: flash_config where
  "flash_config_default =
     \<lparr>fc_websocket = websocket_config_default, fc_orderbook = book_config_default,
      fc_redis = redis_config_default, fc_publisher = publisher_config_default,
      fc_exchanges = exchanges_config_default, fc_logging = logging_config_default,
      fc_metrics = metrics_config_default, fc_shadow_mode = shadow_mode_config_default\<rparr>"

section \<open>Validation\<close>

text \<open>\<open>if !(low..=high).contains(&value) { errors.push(OutOfRange ..) }\<close>, for integers and doubles.\<close>

definition check_range :: "string \<Rightarrow> nat \<Rightarrow> nat \<Rightarrow> nat \<Rightarrow> config_validation_error list" where
  "check_range field low high value =
     (if low \<le> value \<and> value \<le> high then []
      else [CvOutOfRange field (show_nat low) (show_nat high) (show_nat value)])"

definition f64_le :: "f64 \<Rightarrow> f64 \<Rightarrow> bool" where
  "f64_le x y \<longleftrightarrow> x \<noteq> FNaN \<and> y \<noteq> FNaN \<and> \<not> f64_total_less y x"

definition check_f64_range ::
  "(f64 \<Rightarrow> string) \<Rightarrow> string \<Rightarrow> f64 \<Rightarrow> string \<Rightarrow> f64 \<Rightarrow> string \<Rightarrow> f64 \<Rightarrow> config_validation_error list" where
  "check_f64_range show_f64 field low low_text high high_text value =
     (if f64_le low value \<and> f64_le value high then []
      else [CvOutOfRange field low_text high_text (show_f64 value)])"

definition websocket_validate :: "(f64 \<Rightarrow> string) \<Rightarrow> websocket_config \<Rightarrow> config_validation_error list" where
  "websocket_validate show_f64 c =
     check_range ''websocket.connect_timeout_ms'' 1000 60000 (unat (ws_connect_timeout_ms c)) @
     check_range ''websocket.read_timeout_ms'' 1000 30000 (unat (ws_read_timeout_ms c)) @
     check_range ''websocket.ping_interval_ms'' 5000 120000 (unat (ws_ping_interval_ms c)) @
     check_range ''websocket.pong_timeout_ms'' 1000 60000 (unat (ws_pong_timeout_ms c)) @
     check_range ''websocket.max_reconnect_attempts'' 1 100 (unat (ws_max_reconnect_attempts c)) @
     check_range ''websocket.reconnect_delay_ms'' 100 30000 (unat (ws_reconnect_delay_ms c)) @
     (if ws_max_reconnect_delay_ms c < ws_reconnect_delay_ms c \<or> ws_max_reconnect_delay_ms c > 300000
      then [CvOutOfRange ''websocket.max_reconnect_delay_ms''
              (show_nat (unat (ws_reconnect_delay_ms c)) @ '' (reconnect_delay_ms)'') ''300000''
              (show_nat (unat (ws_max_reconnect_delay_ms c)))]
      else []) @
     check_f64_range show_f64 ''websocket.reconnect_jitter'' (FFin 0) ''0.0'' (FFin (1 / 2)) ''0.5''
       (ws_reconnect_jitter c)"

definition orderbook_validate :: "book_config \<Rightarrow> config_validation_error list" where
  "orderbook_validate c =
     check_range ''orderbook.max_depth'' 1 1000 (bc_max_depth c) @
     (if bc_max_levels c < bc_max_depth c then [CvOrdering ''orderbook.max_levels'' ''orderbook.max_depth''] else []) @
     (if bc_max_levels c > 10000
      then [CvOutOfRange ''orderbook.max_levels'' (show_nat (bc_max_depth c) @ '' (max_depth)'') ''10000''
              (show_nat (bc_max_levels c))]
      else [])"

text \<open>\<open>url_ok\<close> tells whether \<open>url::Url::parse\<close> accepts a text.\<close>

definition redis_validate :: "(string \<Rightarrow> bool) \<Rightarrow> redis_config \<Rightarrow> config_validation_error list" where
  "redis_validate url_ok c =
     (if \<not> url_ok (rd_url c) then [CvInvalidUrl ''redis.url'' (rd_url c)] else []) @
     (if rd_database c > 15
      then [CvOutOfRange ''redis.database'' ''0'' ''15'' (show_nat (unat (rd_database c)))] else []) @
     check_range ''redis.pool_size'' 1 100 (unat (rd_pool_size c)) @
     check_range ''redis.connect_timeout_ms'' 100 30000 (unat (rd_connect_timeout_ms c))"

definition backpressure_validate :: "(f64 \<Rightarrow> string) \<Rightarrow> backpressure_section \<Rightarrow> config_validation_error list" where
  "backpressure_validate show_f64 c =
     check_range ''publisher.backpressure.capacity'' 100 1000000 (bp_capacity c) @
     check_f64_range show_f64 ''publisher.backpressure.warn_threshold'' (f64_of_rat (1 / 10)) ''0.1''
       (f64_of_rat (95 / 100)) ''0.95'' (bp_warn_threshold c) @
     (if f64_le (bp_critical_threshold c) (bp_warn_threshold c)
      then [CvOrdering ''publisher.backpressure.critical_threshold'' ''publisher.backpressure.warn_threshold'']
      else []) @
     check_f64_range show_f64 ''publisher.backpressure.critical_threshold'' (bp_warn_threshold c)
       (show_f64 (bp_warn_threshold c) @ '' (warn_threshold)'') (FFin 1) ''1.0'' (bp_critical_threshold c)"

definition publisher_validate :: "(f64 \<Rightarrow> string) \<Rightarrow> publisher_config \<Rightarrow> config_validation_error list" where
  "publisher_validate show_f64 c =
     (if pc_topic_prefix c = [] then [CvEmpty ''publisher.topic_prefix''] else []) @
     backpressure_validate show_f64 (pc_backpressure c)"

definition logging_validate :: "logging_config \<Rightarrow> config_validation_error list" where
  "logging_validate c =
     check_range ''logging.max_file_size_mb'' 1 10000 (unat (lg_max_file_size_mb c)) @
     check_range ''logging.max_files'' 1 100 (unat (lg_max_files c))"

definition metrics_validate :: "metrics_config \<Rightarrow> config_validation_error list" where
  "metrics_validate c =
     check_range ''metrics.port'' 1024 65535 (unat (mt_port c)) @
     (if mt_path c \<noteq> [] \<and> hd (mt_path c) = CHR ''/'' then []
      else [CvInvalid ''metrics.path'' ''path must start with /''])"

definition shadow_mode_validate :: "shadow_mode_config \<Rightarrow> config_validation_error list" where
  "shadow_mode_validate c =
     (if sm_enabled c \<and> sm_namespace c = [] then [CvEmpty ''shadow_mode.namespace''] else []) @
     (if sm_enabled c \<and> CHR '':'' \<in> set (sm_namespace c)
      then [CvInvalid ''shadow_mode.namespace'' ''namespace must not contain colons''] else [])"

definition validate_all :: "(f64 \<Rightarrow> string) \<Rightarrow> (string \<Rightarrow> bool) \<Rightarrow> flash_config \<Rightarrow> config_validation_error list" where
  "validate_all show_f64 url_ok c =
     websocket_validate show_f64 (fc_websocket c) @ orderbook_validate (fc_orderbook c) @
     redis_validate url_ok (fc_redis c) @ publisher_validate show_f64 (fc_publisher c) @
     logging_validate (fc_logging c) @ metrics_validate (fc_metrics c) @
     shadow_mode_validate (fc_shadow_mode c)"

definition config_validate ::
  "(f64 \<Rightarrow> string) \<Rightarrow> (string \<Rightarrow> bool) \<Rightarrow> flash_config \<Rightarrow> (unit, config_validation_error list) result" where
  "config_validate show_f64 url_ok c =
     (let errors = validate_all show_f64 url_ok c in if errors = [] then Ok () else Err errors)"


section \<open>Credentials and environment overrides\<close>

text \<open>\<open>blank s\<close> stands for \<open>s.trim().is_empty()\<close>.\<close>

definition clean_credential :: "(string \<Rightarrow> bool) \<Rightarrow> string option \<Rightarrow> string option" where
  "clean_credential blank v = (case v of Some s \<Rightarrow> if blank s then None else Some s | None \<Rightarrow> None)"

definition clean_exchange :: "(string \<Rightarrow> bool) \<Rightarrow> exchange_config \<Rightarrow> exchange_config" where
  "clean_exchange blank x =
     x\<lparr>xc_api_key := clean_credential blank (xc_api_key x), xc_account_id := clean_credential blank (xc_account_id x)\<rparr>"

definition normalize_credentials :: "(string \<Rightarrow> bool) \<Rightarrow> flash_config \<Rightarrow> flash_config" where
  "normalize_credentials blank c =
     (let xs = fc_exchanges c in
      c\<lparr>fc_exchanges := xs\<lparr>xs_oanda := clean_exchange blank (xs_oanda xs),
                            xs_deribit := clean_exchange blank (xs_deribit xs),
                            xs_binance := clean_exchange blank (xs_binance xs)\<rparr>\<rparr>)"

text \<open>\<open>str::parse\<close> of an unsigned integer type with largest value \<open>limit\<close>: an optional plus sign and digits.\<close>

definition digit_value :: "char \<Rightarrow> nat option" where
  "digit_value ch = (let k = of_char ch in if 48 \<le> k \<and> k \<le> 57 then Some (k - 48) else None)"

fun parse_digits :: "nat \<Rightarrow> nat \<Rightarrow> string \<Rightarrow> nat option" where
  "parse_digits limit acc [] = Some acc"
| "parse_digits limit acc (ch # cs) =
     (case digit_value ch of
        None \<Rightarrow> None
      | Some d \<Rightarrow> if acc * 10 + d \<le> limit then parse_digits limit (acc * 10 + d) cs else None)"

definition parse_unsigned :: "nat \<Rightarrow> string \<Rightarrow> nat option" where
  "parse_unsigned limit s =
     (let digits = (case s of [] \<Rightarrow> [] | ch # cs \<Rightarrow> if ch = CHR ''+'' then cs else s) in
      if digits = [] then None else parse_digits limit 0 digits)"

definition parse_bool :: "string \<Rightarrow> bool option" where
  "parse_bool s = (if s = ''true'' then Some True else if s = ''false'' then Some False else None)"

definition parse_format :: "(string \<Rightarrow> string) \<Rightarrow> string \<Rightarrow> serialization_format option" where
  "parse_format lower s =
     (let l = lower s in
      if l = ''json'' then Some SfJson else if l = ''bincode'' then Some SfBincode
      else if l = ''rkyv'' then Some SfRkyv else None)"

definition parse_level :: "(string \<Rightarrow> string) \<Rightarrow> string \<Rightarrow> log_level option" where
  "parse_level lower s =
     (let l = lower s in
      if l = ''trace'' then Some LlTrace else if l = ''debug'' then Some LlDebug
      else if l = ''info'' then Some LlInfo else if l = ''warn'' then Some LlWarn
      else if l = ''error'' then Some LlError else None)"

text \<open>One override: an unset variable changes nothing, a malformed value is an error.\<close>

definition override ::
  "(string \<Rightarrow> string option) \<Rightarrow> string \<Rightarrow> (string \<Rightarrow> 'v option) \<Rightarrow> ('v \<Rightarrow> flash_config \<Rightarrow> flash_config) \<Rightarrow>
     flash_config \<Rightarrow> (flash_config, 'x flash_error) result" where
  "override env name parse put c =
     (case env name of
        None \<Rightarrow> Ok c
      | Some val \<Rightarrow>
          (case parse val of
             None \<Rightarrow> Err (FeConfigError (''Invalid value for '' @ name @ '': '' @ val))
           | Some v \<Rightarrow> Ok (put v c)))"

definition apply_credential_env_overrides ::
  "(string \<Rightarrow> bool) \<Rightarrow> (string \<Rightarrow> string option) \<Rightarrow> flash_config \<Rightarrow> flash_config" where
  "apply_credential_env_overrides blank env c =
     (let xs = fc_exchanges c; o0 = xs_oanda xs;
          o1 = (case env ''ASTRA_FLASH_OANDA_API_KEY'' of None \<Rightarrow> o0 | Some v \<Rightarrow> o0\<lparr>xc_api_key := Some v\<rparr>);
          o2 = (case env ''ASTRA_FLASH_OANDA_ACCOUNT_ID'' of None \<Rightarrow> o1 | Some v \<Rightarrow> o1\<lparr>xc_account_id := Some v\<rparr>) in
      normalize_credentials blank (c\<lparr>fc_exchanges := xs\<lparr>xs_oanda := o2\<rparr>\<rparr>))"

definition put_websocket :: "(websocket_config \<Rightarrow> websocket_config) \<Rightarrow> flash_config \<Rightarrow> flash_config" where
  "put_websocket f c = c\<lparr>fc_websocket := f (fc_websocket c)\<rparr>"

definition put_redis :: "(redis_config \<Rightarrow> redis_config) \<Rightarrow> flash_config \<Rightarrow> flash_config" where
  "put_redis f c = c\<lparr>fc_redis := f (fc_redis c)\<rparr>"

definition put_publisher :: "(publisher_config \<Rightarrow> publisher_config) \<Rightarrow> flash_config \<Rightarrow> flash_config" where
  "put_publisher f c = c\<lparr>fc_publisher := f (fc_publisher c)\<rparr>"

definition put_logging :: "(logging_config \<Rightarrow> logging_config) \<Rightarrow> flash_config \<Rightarrow> flash_config" where
  "put_logging f c = c\<lparr>fc_logging := f (fc_logging c)\<rparr>"

definition put_metrics :: "(metrics_config \<Rightarrow> metrics_config) \<Rightarrow> flash_config \<Rightarrow> flash_config" where
  "put_metrics f c = c\<lparr>fc_metrics := f (fc_metrics c)\<rparr>"

definition put_shadow :: "(shadow_mode_config \<Rightarrow> shadow_mode_config) \<Rightarrow> flash_config \<Rightarrow> flash_config" where
  "put_shadow f c = c\<lparr>fc_shadow_mode := f (fc_shadow_mode c)\<rparr>"

definition apply_env_overrides ::
  "(string \<Rightarrow> string) \<Rightarrow> (string \<Rightarrow> bool) \<Rightarrow> (string \<Rightarrow> string option) \<Rightarrow> flash_config \<Rightarrow>
     (flash_config, 'x flash_error) result" where
  "apply_env_overrides lower blank env c0 =
     rbind (override env ''ASTRA_FLASH_WEBSOCKET_CONNECT_TIMEOUT_MS'' (parse_unsigned (2 ^ 64 - 1))
       (\<lambda>v. put_websocket (ws_connect_timeout_ms_update (\<lambda>_. of_nat v))) c0) (\<lambda>c.
     rbind (override env ''ASTRA_FLASH_WEBSOCKET_PING_INTERVAL_MS'' (parse_unsigned (2 ^ 64 - 1))
       (\<lambda>v. put_websocket (ws_ping_interval_ms_update (\<lambda>_. of_nat v))) c) (\<lambda>c.
     rbind (override env ''ASTRA_FLASH_WEBSOCKET_MAX_RECONNECT_ATTEMPTS'' (parse_unsigned (2 ^ 32 - 1))
       (\<lambda>v. put_websocket (ws_max_reconnect_attempts_update (\<lambda>_. of_nat v))) c) (\<lambda>c.
     rbind (override env ''ASTRA_FLASH_REDIS_URL'' Some
       (\<lambda>v. put_redis (rd_url_update (\<lambda>_. v))) c) (\<lambda>c.
     rbind (override env ''ASTRA_FLASH_REDIS_POOL_SIZE'' (parse_unsigned (2 ^ 32 - 1))
       (\<lambda>v. put_redis (rd_pool_size_update (\<lambda>_. of_nat v))) c) (\<lambda>c.
     rbind (override env ''ASTRA_FLASH_REDIS_DATABASE'' (parse_unsigned (2 ^ 8 - 1))
       (\<lambda>v. put_redis (rd_database_update (\<lambda>_. of_nat v))) c) (\<lambda>c.
     rbind (override env ''ASTRA_FLASH_PUBLISHER_FORMAT'' (parse_format lower)
       (\<lambda>v. put_publisher (pc_format_update (\<lambda>_. v))) c) (\<lambda>c.
     rbind (override env ''ASTRA_FLASH_PUBLISHER_BACKPRESSURE_CAPACITY'' (parse_unsigned (2 ^ 64 - 1))
       (\<lambda>v. put_publisher (pc_backpressure_update (bp_capacity_update (\<lambda>_. v)))) c) (\<lambda>c.
     rbind (override env ''ASTRA_FLASH_LOGGING_LEVEL'' (parse_level lower)
       (\<lambda>v. put_logging (lg_level_update (\<lambda>_. v))) c) (\<lambda>c.
     rbind (override env ''ASTRA_FLASH_METRICS_ENABLED'' parse_bool
       (\<lambda>v. put_metrics (mt_enabled_update (\<lambda>_. v))) c) (\<lambda>c.
     rbind (override env ''ASTRA_FLASH_METRICS_PORT'' (parse_unsigned (2 ^ 16 - 1))
       (\<lambda>v. put_metrics (mt_port_update (\<lambda>_. of_nat v))) c) (\<lambda>c.
     rbind (override env ''ASTRA_FLASH_SHADOW_MODE_ENABLED'' parse_bool
       (\<lambda>v. put_shadow (sm_enabled_update (\<lambda>_. v))) c) (\<lambda>c.
     map_ok (apply_credential_env_overrides blank env)
       (override env ''ASTRA_FLASH_SHADOW_MODE_NAMESPACE'' Some
          (\<lambda>v. put_shadow (sm_namespace_update (\<lambda>_. v))) c)))))))))))))"

section \<open>Overlays and loading\<close>

text \<open>
  \<open>serde_yaml::Value\<close> as far as merging looks at it: an insertion-ordered mapping, or anything else.
\<close>

datatype ('k, 'v) yaml = YMapping "('k \<times> ('k, 'v) yaml) list" | YOther 'v

fun assoc_update :: "'k \<Rightarrow> 'a \<Rightarrow> ('k \<times> 'a) list \<Rightarrow> ('k \<times> 'a) list" where
  "assoc_update k v [] = []"
| "assoc_update k v (e # es) = (if fst e = k then (k, v) # es else e # assoc_update k v es)"

fun deep_merge :: "('k, 'v) yaml \<Rightarrow> ('k, 'v) yaml \<Rightarrow> ('k, 'v) yaml"
  and merge_entries :: "('k \<times> ('k, 'v) yaml) list \<Rightarrow> ('k \<times> ('k, 'v) yaml) list \<Rightarrow> ('k \<times> ('k, 'v) yaml) list" where
  "deep_merge base overlay =
     (case (base, overlay) of
        (YMapping base_map, YMapping overlay_map) \<Rightarrow> YMapping (merge_entries base_map overlay_map)
      | _ \<Rightarrow> overlay)"
| "merge_entries base_map [] = base_map"
| "merge_entries base_map ((key, val) # entries) =
     merge_entries
       (case map_of base_map key of
          Some base_value \<Rightarrow> assoc_update key (deep_merge base_value val) base_map
        | None \<Rightarrow> base_map @ [(key, val)]) entries"


text \<open>What the outside world answers while a configuration is loaded.\<close>

record ('k, 'v, 'x) config_world =
  cw_exists :: "string \<Rightarrow> bool"
  cw_read :: "string \<Rightarrow> (string, 'x) result"
  cw_env_path :: "string \<Rightarrow> string \<Rightarrow> string"
  cw_parse_config :: "string \<Rightarrow> (flash_config, string) result"
  cw_parse_value :: "string \<Rightarrow> (('k, 'v) yaml, string) result"
  cw_to_value :: "flash_config \<Rightarrow> (('k, 'v) yaml, string) result"
  cw_from_value :: "('k, 'v) yaml \<Rightarrow> (flash_config, string) result"
  cw_env :: "string \<Rightarrow> string option"
  cw_lower :: "string \<Rightarrow> string"
  cw_blank :: "string \<Rightarrow> bool"
  cw_show_f64 :: "f64 \<Rightarrow> string"
  cw_url_ok :: "string \<Rightarrow> bool"

definition merge_yaml ::
  "('k, 'v, 'x) config_world \<Rightarrow> flash_config \<Rightarrow> ('k, 'v) yaml \<Rightarrow> (flash_config, 'x flash_error) result" where
  "merge_yaml w base overlay =
     rbind (map_err (\<lambda>e. FeConfigError (''Serialization error: '' @ e)) (cw_to_value w base)) (\<lambda>v.
     map_err (\<lambda>e. FeConfigError (''Merge error: '' @ e)) (cw_from_value w (deep_merge v overlay)))"

fun join_semicolons :: "string list \<Rightarrow> string" where
  "join_semicolons [] = []"
| "join_semicolons [s] = s"
| "join_semicolons (s # ss) = s @ ''; '' @ join_semicolons ss"

definition config_load ::
  "('k, 'v, 'x) config_world \<Rightarrow> string \<Rightarrow> string option \<Rightarrow> (flash_config, 'x flash_error) result" where
  "config_load w path environment =
     (if \<not> cw_exists w path then Err (FeConfigFileNotFound path)
      else
        rbind (map_err FeIoError (cw_read w path)) (\<lambda>text.
        rbind (map_err FeConfigError (cw_parse_config w text)) (\<lambda>config.
        rbind (case environment of
                 None \<Rightarrow> Ok config
               | Some name \<Rightarrow>
                   let env_path = cw_env_path w path name in
                   if cw_exists w env_path
                   then rbind (map_err FeIoError (cw_read w env_path)) (\<lambda>env_text.
                        rbind (map_err FeConfigError (cw_parse_value w env_text)) (\<lambda>overlay.
                        merge_yaml w config overlay))
                   else Ok config) (\<lambda>config.
        rbind (apply_env_overrides (cw_lower w) (cw_blank w) (cw_env w) config) (\<lambda>config.
        let errors = validate_all (cw_show_f64 w) (cw_url_ok w) config in
        if errors \<noteq> []
        then Err (FeConfigError (''Configuration validation failed: '' @ join_semicolons (map cv_display errors)))
        else Ok config)))))"

definition from_yaml :: "('k, 'v, 'x) config_world \<Rightarrow> string \<Rightarrow> (flash_config, 'x flash_error) result" where
  "from_yaml w text =
     (if cw_blank w text then Ok flash_config_default
      else map_ok (normalize_credentials (cw_blank w))
             (map_err (\<lambda>e. FeConfigError (''YAML parse error: '' @ e)) (cw_parse_config w text)))"

definition from_yaml_with_env :: "('k, 'v, 'x) config_world \<Rightarrow> string \<Rightarrow> (flash_config, 'x flash_error) result" where
  "from_yaml_with_env w text =
     rbind (from_yaml w text) (apply_env_overrides (cw_lower w) (cw_blank w) (cw_env w))"

definition from_env :: "('k, 'v, 'x) config_world \<Rightarrow> (flash_config, 'x flash_error) result" where
  "from_env w = apply_env_overrides (cw_lower w) (cw_blank w) (cw_env w) flash_config_default"

section \<open>What validation accepts\<close>

definition websocket_in_bounds :: "websocket_config \<Rightarrow> bool" where
  "websocket_in_bounds c \<longleftrightarrow>
     unat (ws_connect_timeout_ms c) \<in> {1000..60000} \<and> unat (ws_read_timeout_ms c) \<in> {1000..30000} \<and>
     unat (ws_ping_interval_ms c) \<in> {5000..120000} \<and> unat (ws_pong_timeout_ms c) \<in> {1000..60000} \<and>
     unat (ws_max_reconnect_attempts c) \<in> {1..100} \<and> unat (ws_reconnect_delay_ms c) \<in> {100..30000} \<and>
     unat (ws_max_reconnect_delay_ms c) \<in> {unat (ws_reconnect_delay_ms c)..300000} \<and>
     (\<exists>j. ws_reconnect_jitter c = FFin j \<and> 0 \<le> j \<and> j \<le> 1 / 2)"

definition thresholds_in_bounds :: "f64 \<Rightarrow> f64 \<Rightarrow> bool" where
  "thresholds_in_bounds warn critical \<longleftrightarrow>
     (\<exists>a b. warn = FFin a \<and> critical = FFin b \<and> f64_le (f64_of_rat (1 / 10)) (FFin a) \<and>
        f64_le (FFin a) (f64_of_rat (95 / 100)) \<and> a < b \<and> b \<le> 1)"

definition config_in_bounds :: "(string \<Rightarrow> bool) \<Rightarrow> flash_config \<Rightarrow> bool" where
  "config_in_bounds url_ok c \<longleftrightarrow>
     websocket_in_bounds (fc_websocket c) \<and>
     bc_max_depth (fc_orderbook c) \<in> {1..1000} \<and> bc_max_levels (fc_orderbook c) \<in> {bc_max_depth (fc_orderbook c)..10000} \<and>
     url_ok (rd_url (fc_redis c)) \<and> unat (rd_database (fc_redis c)) \<le> 15 \<and> unat (rd_pool_size (fc_redis c)) \<in> {1..100} \<and>
     unat (rd_connect_timeout_ms (fc_redis c)) \<in> {100..30000} \<and>
     pc_topic_prefix (fc_publisher c) \<noteq> [] \<and> bp_capacity (pc_backpressure (fc_publisher c)) \<in> {100..1000000} \<and>
     thresholds_in_bounds (bp_warn_threshold (pc_backpressure (fc_publisher c)))
       (bp_critical_threshold (pc_backpressure (fc_publisher c))) \<and>
     unat (lg_max_file_size_mb (fc_logging c)) \<in> {1..10000} \<and> unat (lg_max_files (fc_logging c)) \<in> {1..100} \<and>
     1024 \<le> unat (mt_port (fc_metrics c)) \<and> (\<exists>rest. mt_path (fc_metrics c) = CHR ''/'' # rest) \<and>
     (sm_enabled (fc_shadow_mode c) \<longrightarrow>
        sm_namespace (fc_shadow_mode c) \<noteq> [] \<and> CHR '':'' \<notin> set (sm_namespace (fc_shadow_mode c)))"

definition credentials_clean :: "(string \<Rightarrow> bool) \<Rightarrow> flash_config \<Rightarrow> bool" where
  "credentials_clean blank c \<longleftrightarrow>
     (\<forall>x\<in>{xs_deribit (fc_exchanges c), xs_binance (fc_exchanges c), xs_oanda (fc_exchanges c)}.
        \<forall>s. xc_api_key x = Some s \<or> xc_account_id x = Some s \<longrightarrow> \<not> blank s)"

lemma check_range_Nil [simp]: "check_range field low high n = [] \<longleftrightarrow> low \<le> n \<and> n \<le> high"
  by (simp add: check_range_def)

lemma check_f64_range_Nil [simp]:
  "check_f64_range show_f64 field low lt high ht x = [] \<longleftrightarrow> f64_le low x \<and> f64_le x high"
  by (simp add: check_f64_range_def)

lemma f64_le_simps [simp]:
  "f64_le (FFin a) (FFin b) \<longleftrightarrow> a \<le> b" "\<not> f64_le FNaN x" "\<not> f64_le x FNaN"
  "f64_le (FFin a) (FInf s) \<longleftrightarrow> \<not> s" "f64_le (FInf s) (FFin a) \<longleftrightarrow> s"
  by (cases s; auto simp: f64_le_def)+

lemma word_le_unat: "(a :: u64) < b \<longleftrightarrow> unat a < unat b" "(c :: u64) > 300000 \<longleftrightarrow> 300000 < unat c"
  "(d :: u8) > 15 \<longleftrightarrow> 15 < unat d"
  by (simp_all add: word_less_nat_alt)

lemma websocket_validate_Nil: "websocket_validate show_f64 c = [] \<longleftrightarrow> websocket_in_bounds c"
proof -
  have "f64_le (FFin 0) x \<and> f64_le x (FFin (1 / 2)) \<longleftrightarrow> (\<exists>j. x = FFin j \<and> 0 \<le> j \<and> j \<le> 1 / 2)" for x
    by (cases x) simp_all
  then show ?thesis
    by (auto simp: websocket_validate_def websocket_in_bounds_def word_le_unat)
qed

lemma f64_finite_between: "f64_le (FFin a) x \<Longrightarrow> f64_le x (FFin b) \<Longrightarrow> \<exists>r. x = FFin r"
  by (cases x) auto

lemma tenth_bounds: "\<exists>r. f64_of_rat (1 / 10) = FFin r \<and> 0 \<le> r \<and> r \<le> 1 / 2"
  "\<exists>r. f64_of_rat (95 / 100) = FFin r \<and> 7 / 8 \<le> r \<and> r \<le> 1"
proof -
  have "dyadic (7 / 8)" unfolding dyadic_def
    by (intro exI [of _ 7] exI [of _ "- 3"]) (simp add: pow2_def)
  then show "\<exists>r. f64_of_rat (1 / 10) = FFin r \<and> 0 \<le> r \<and> r \<le> 1 / 2"
    "\<exists>r. f64_of_rat (95 / 100) = FFin r \<and> 7 / 8 \<le> r \<and> r \<le> 1"
    using f64_of_rat_between [of 0 "1 / 10" "1 / 2"] dyadic_halves(2) [of 1]
      f64_of_rat_between [of "7 / 8" "95 / 100" 1] dyadic_halves(1) [of 1] by simp_all
qed

lemma backpressure_validate_Nil:
  "backpressure_validate show_f64 c = [] \<longleftrightarrow>
     bp_capacity c \<in> {100..1000000} \<and> thresholds_in_bounds (bp_warn_threshold c) (bp_critical_threshold c)"
proof -
  obtain l h where lh: "f64_of_rat (1 / 10) = FFin l" "f64_of_rat (95 / 100) = FFin h"
    using tenth_bounds by blast
  have "(f64_le (FFin l) w \<and> f64_le w (FFin h)) \<and> \<not> f64_le k w \<and> f64_le w k \<and> f64_le k (FFin 1)
     \<longleftrightarrow> (\<exists>a b. w = FFin a \<and> k = FFin b \<and> l \<le> a \<and> a \<le> h \<and> a < b \<and> b \<le> 1)" for w k
    by (cases w; cases k) auto
  then show ?thesis
    by (auto simp: backpressure_validate_def thresholds_in_bounds_def lh lh(2) [simplified])
qed

lemma validate_all_Nil: "validate_all show_f64 url_ok c = [] \<longleftrightarrow> config_in_bounds url_ok c"
proof -
  have path: "p \<noteq> [] \<and> hd p = CHR ''/'' \<longleftrightarrow> (\<exists>rest. p = CHR ''/'' # rest)" for p
    by (cases p) simp_all
  have port: "unat (p :: u16) \<le> 65535" for p using unsigned_less [of p, where 'a = nat] by simp
  show ?thesis
    unfolding validate_all_def append_is_Nil_conv websocket_validate_Nil config_in_bounds_def
    by (auto simp: publisher_validate_def backpressure_validate_Nil orderbook_validate_def redis_validate_def
        logging_validate_def metrics_validate_def shadow_mode_validate_def path port word_le_unat)
qed

lemma normalize_clean: "credentials_clean blank (normalize_credentials blank c)"
  by (auto simp: credentials_clean_def normalize_credentials_def clean_exchange_def clean_credential_def Let_def
      split: option.splits if_splits)

lemma apply_env_overrides_clean:
  "apply_env_overrides lower blank env c = Ok c' \<Longrightarrow> credentials_clean blank c'"
  unfolding apply_env_overrides_def rbind_Ok_iff map_ok_Ok_iff apply_credential_env_overrides_def Let_def
  using normalize_clean by blast

lemma config_load_Ok:
  fixes w :: "('k, 'v, 'x) config_world"
  assumes "config_load w path environment = Ok c"
  shows "validate_all (cw_show_f64 w) (cw_url_ok w) c = []" "credentials_clean (cw_blank w) c"
proof -
  from assms obtain c0 where c0: "apply_env_overrides (cw_lower w) (cw_blank w) (cw_env w) c0 = (Ok c :: (_, 'x flash_error) result)"
    and "validate_all (cw_show_f64 w) (cw_url_ok w) c = []"
    by (auto simp: config_load_def rbind_Ok_iff Let_def split: if_splits)
  then show "validate_all (cw_show_f64 w) (cw_url_ok w) c = []" "credentials_clean (cw_blank w) c"
    using apply_env_overrides_clean [OF c0] by simp_all
qed

text \<open>
  C21: Whatever the files and the environment say, a configuration that \<open>load\<close> returns
  is within every documented bound, with ordered thresholds and no NaN, and holds no
  blank credential.
\<close>

theorem loaded_config_valid:
  fixes w :: "('k, 'v, 'x) config_world"
  assumes "config_load w path environment = Ok c"
  shows "config_in_bounds (cw_url_ok w) c \<and> credentials_clean (cw_blank w) c \<and>
    config_validate show_f64 (cw_url_ok w) c = Ok ()"
  using config_load_Ok [OF assms] by (simp add: config_validate_def validate_all_Nil)

definition quiet_world :: "(string, unit, unit) config_world" where
  "quiet_world =
     \<lparr>cw_exists = (\<lambda>p. p = ''flash.yaml''), cw_read = (\<lambda>p. Ok []), cw_env_path = (\<lambda>p e. e @ p),
      cw_parse_config = (\<lambda>t. Ok flash_config_default), cw_parse_value = (\<lambda>t. Ok (YMapping [])),
      cw_to_value = (\<lambda>c. Ok (YMapping [])), cw_from_value = (\<lambda>v. Ok flash_config_default),
      cw_env = (\<lambda>n. if n = ''ASTRA_FLASH_REDIS_DATABASE'' then Some ''3'' else None),
      cw_lower = (\<lambda>s. s), cw_blank = (\<lambda>s. s = []), cw_show_f64 = (\<lambda>x. []), cw_url_ok = (\<lambda>s. s \<noteq> [])\<rparr>"

lemma default_in_bounds:
  "config_in_bounds (\<lambda>s. s \<noteq> []) (flash_config_default\<lparr>fc_redis := redis_config_default\<lparr>rd_database := 3\<rparr>\<rparr>)"
proof -
  obtain j where j: "f64_of_rat (1 / 10) = FFin j" "0 \<le> j" "j \<le> 1 / 2" using tenth_bounds(1) by blast
  obtain h where h: "f64_of_rat (95 / 100) = FFin h" "7 / 8 \<le> h" "h \<le> 1" using tenth_bounds(2) by blast
  have t: "f64_of_rat (75 / 100) = FFin (3 / 4)"
    using f64_of_rat_exact [of "3 / 4"] dyadic_halves(3) [of 3] by simp
  have "thresholds_in_bounds (bp_warn_threshold backpressure_section_default) (bp_critical_threshold backpressure_section_default)"
    unfolding thresholds_in_bounds_def backpressure_section_default_def backpressure_section.simps t h(1) j(1)
    by (intro exI [of _ "3 / 4"] exI [of _ h]) (use h j in simp)
  moreover have "websocket_in_bounds websocket_config_default"
    using j by (simp add: websocket_in_bounds_def websocket_config_default_def)
  ultimately show ?thesis
    by (simp add: config_in_bounds_def flash_config_default_def publisher_config_default_def redis_config_default_def
        book_config_default_def logging_config_default_def metrics_config_default_def shadow_mode_config_default_def
        backpressure_section_default_def)
qed

lemma quiet_load:
  "config_load quiet_world ''flash.yaml'' None = Ok (flash_config_default\<lparr>fc_redis := redis_config_default\<lparr>rd_database := 3\<rparr>\<rparr>)"
proof -
  have p: "parse_unsigned (2 ^ 8 - 1) ''3'' = Some 3" by (simp add: parse_unsigned_def digit_value_def Let_def)
  have "(apply_env_overrides (cw_lower quiet_world) (cw_blank quiet_world) (cw_env quiet_world) flash_config_default
      :: (_, unit flash_error) result) = Ok (flash_config_default\<lparr>fc_redis := redis_config_default\<lparr>rd_database := 3\<rparr>\<rparr>)"
    unfolding apply_env_overrides_def override_def
    by (simp add: quiet_world_def p [simplified] put_redis_def apply_credential_env_overrides_def normalize_credentials_def
        clean_exchange_def clean_credential_def flash_config_default_def exchanges_config_default_def
        exchange_config_default_def Let_def)
  moreover have "validate_all (cw_show_f64 quiet_world) (cw_url_ok quiet_world)
      (flash_config_default\<lparr>fc_redis := redis_config_default\<lparr>rd_database := 3\<rparr>\<rparr>) = []"
    using default_in_bounds by (simp add: validate_all_Nil quiet_world_def)
  ultimately show ?thesis
    by (simp add: config_load_def quiet_world_def Let_def)
qed

theorem loaded_config_valid_witness:
  "config_in_bounds (\<lambda>s. s \<noteq> []) (flash_config_default\<lparr>fc_redis := redis_config_default\<lparr>rd_database := 3\<rparr>\<rparr>)"
  using loaded_config_valid [OF quiet_load] by (simp add: quiet_world_def)


section \<open>What an overlay changes\<close>

text \<open>The value at a path of keys, and the paths an overlay leaves alone.\<close>

fun yget :: "'k list \<Rightarrow> ('k, 'v) yaml \<Rightarrow> ('k, 'v) yaml option" where
  "yget [] v = Some v"
| "yget (k # ks) (YMapping m) = (case map_of m k of None \<Rightarrow> None | Some v \<Rightarrow> yget ks v)"
| "yget (k # ks) (YOther x) = None"

fun untouched :: "'k list \<Rightarrow> ('k, 'v) yaml \<Rightarrow> bool" where
  "untouched [] v \<longleftrightarrow> False"
| "untouched (k # ks) (YMapping m) \<longleftrightarrow> (case map_of m k of None \<Rightarrow> True | Some v \<Rightarrow> untouched ks v)"
| "untouched (k # ks) (YOther x) \<longleftrightarrow> False"

text \<open>The keys of an \<open>IndexMap\<close> are distinct.\<close>

fun yaml_ok :: "('k, 'v) yaml \<Rightarrow> bool" where
  "yaml_ok (YOther x) = True"
| "yaml_ok (YMapping m) = (distinct (map fst m) \<and> (\<forall>e\<in>set m. yaml_ok (snd e)))"

lemma assoc_update_keys [simp]: "map fst (assoc_update k v m) = map fst m"
  by (induction m) auto

lemma map_of_assoc_update:
  "map_of (assoc_update k v m) j = (if j = k \<and> map_of m k \<noteq> None then Some v else map_of m j)"
  by (induction m) auto

lemma map_of_merge_entries:
  "distinct (map fst om) \<Longrightarrow> map_of (merge_entries bm om) k =
     (case map_of om k of
        None \<Rightarrow> map_of bm k
      | Some v \<Rightarrow> (case map_of bm k of None \<Rightarrow> Some v | Some b \<Rightarrow> Some (deep_merge b v)))"
proof (induction om arbitrary: bm)
  case Nil
  then show ?case by simp
next
  case (Cons e om)
  obtain key val where e: "e = (key, val)" by fastforce
  let ?bm = "case map_of bm key of Some b \<Rightarrow> assoc_update key (deep_merge b val) bm | None \<Rightarrow> bm @ [(key, val)]"
  have "map_of (merge_entries bm (e # om)) k = (case map_of om k of
        None \<Rightarrow> map_of ?bm k
      | Some v \<Rightarrow> (case map_of ?bm k of None \<Rightarrow> Some v | Some b \<Rightarrow> Some (deep_merge b v)))"
    using Cons.IH [of ?bm] Cons.prems by (simp add: e del: deep_merge.simps)
  moreover have "map_of om key = None" using Cons.prems by (simp add: e map_of_eq_None_iff)
  ultimately show ?case
    by (cases "map_of bm key"; cases "k = key")
      (auto simp: e map_of_assoc_update map_add_def simp del: deep_merge.simps split: option.split)
qed

lemma yaml_ok_lookup: "yaml_ok (YMapping m) \<Longrightarrow> map_of m k = Some v \<Longrightarrow> yaml_ok v"
  by (auto dest: map_of_SomeD)

lemma yget_merge:
  assumes "yaml_ok ov"
  shows "yget (k # ks) (deep_merge (YMapping bm) ov) =
    (case ov of YOther x \<Rightarrow> None
     | YMapping om \<Rightarrow>
       (case map_of om k of
          None \<Rightarrow> yget (k # ks) (YMapping bm)
        | Some v \<Rightarrow> (case map_of bm k of None \<Rightarrow> yget ks v | Some b \<Rightarrow> yget ks (deep_merge b v))))"
  using assms by (cases ov) (simp_all add: map_of_merge_entries split: option.split)

lemma deep_merge_other [simp]: "deep_merge (YOther x) ov = ov" "deep_merge b (YOther y) = YOther y"
  by (subst deep_merge.simps, simp split: yaml.split)+

declare deep_merge.simps [simp del]

lemma overlay_wins: "yaml_ok ov \<Longrightarrow> yget p ov = Some (YOther x) \<Longrightarrow> yget p (deep_merge b ov) = Some (YOther x)"
proof (induction p arbitrary: b ov)
  case Nil
  then show ?case by simp
next
  case (Cons k ks)
  from Cons.prems(2) obtain om v where ov: "ov = YMapping om" "map_of om k = Some v" "yget ks v = Some (YOther x)"
    by (cases ov) (auto split: option.splits)
  note ih = Cons.IH [OF yaml_ok_lookup [OF Cons.prems(1) [unfolded ov(1)] ov(2)] ov(3)]
  show ?case
  proof (cases b)
    case (YMapping bm)
    then show ?thesis using ih ov Cons.prems(1)
      by (simp add: yget_merge split: option.split del: yget.simps(2))
  next
    case (YOther y)
    then show ?thesis using Cons.prems(2) by simp
  qed
qed

lemma base_kept: "yaml_ok ov \<Longrightarrow> untouched p ov \<Longrightarrow> yget p b = Some v \<Longrightarrow> yget p (deep_merge b ov) = Some v"
proof (induction p arbitrary: b ov)
  case Nil
  then show ?case by simp
next
  case (Cons k ks)
  from Cons.prems(2) obtain om where ov: "ov = YMapping om" by (cases ov) auto
  from Cons.prems(3) obtain bm b' where b: "b = YMapping bm" "map_of bm k = Some b'" "yget ks b' = Some v"
    by (cases b) (auto split: option.splits)
  show ?case
  proof (cases "map_of om k")
    case None
    then show ?thesis using Cons.prems(1,3) by (simp add: ov b(1) yget_merge del: yget.simps(2))
  next
    case (Some w)
    then have "untouched ks w" "yaml_ok w"
      using Cons.prems(1,2) yaml_ok_lookup [OF Cons.prems(1) [unfolded ov] Some] by (simp_all add: ov)
    from Cons.IH [OF this(2,1) b(3)] have "yget ks (deep_merge b' w) = Some v" .
    then show ?thesis using Cons.prems(1) Some by (simp add: ov b yget_merge del: yget.simps(2))
  qed
qed

lemma nothing_invented:
  "yaml_ok ov \<Longrightarrow> yget p (deep_merge b ov) = Some (YOther x) \<Longrightarrow>
     yget p b = Some (YOther x) \<or> yget p ov = Some (YOther x)"
proof (induction p arbitrary: b ov)
  case Nil
  then show ?case by (cases b; cases ov) (simp_all add: deep_merge.simps)
next
  case (Cons k ks)
  show ?case
  proof (cases "\<exists>bm om. b = YMapping bm \<and> ov = YMapping om")
    case False
    then show ?thesis using Cons.prems by (cases b; cases ov) simp_all
  next
    case True
    then obtain bm om where eq: "b = YMapping bm" "ov = YMapping om" by blast
    show ?thesis
    proof (cases "map_of om k")
      case None
      then show ?thesis using Cons.prems by (simp add: eq yget_merge del: yget.simps(2))
    next
      case (Some w)
      have w: "yaml_ok w" using yaml_ok_lookup [OF Cons.prems(1) [unfolded eq] Some] .
      show ?thesis
      proof (cases "map_of bm k")
        case None
        then show ?thesis using Cons.prems Some by (simp add: eq yget_merge del: yget.simps(2)) simp
      next
        case (Some b')
        have "yget ks (deep_merge b' w) = Some (YOther x)"
          using Cons.prems Some \<open>map_of om k = Some w\<close> by (simp add: eq yget_merge del: yget.simps(2))
        from Cons.IH [OF w this] show ?thesis using Some \<open>map_of om k = Some w\<close> by (simp add: eq)
      qed
    qed
  qed
qed

text \<open>
  Merging an overlay into a configuration: every plain value of the overlay is in
  the result at its path, every value of the base at a path the overlay does not reach stays,
  and every plain value of the result comes from one of the two.
\<close>

theorem merge_overlays:
  assumes "yaml_ok ov"
  shows "(yget p ov = Some (YOther x) \<longrightarrow> yget p (deep_merge b ov) = Some (YOther x)) \<and>
    (untouched p ov \<and> yget p b = Some v \<longrightarrow> yget p (deep_merge b ov) = Some v) \<and>
    (yget p (deep_merge b ov) = Some (YOther x) \<longrightarrow>
       yget p b = Some (YOther x) \<or> yget p ov = Some (YOther x))"
  using overlay_wins [OF assms] base_kept [OF assms] nothing_invented [OF assms] by blast

definition base_yaml :: "(string, int) yaml" where
  "base_yaml = YMapping [(''redis'', YMapping [(''pool'', YOther 10), (''db'', YOther 0)])]"

definition overlay_yaml :: "(string, int) yaml" where
  "overlay_yaml = YMapping [(''redis'', YMapping [(''db'', YOther 7)]), (''new'', YOther 1)]"

theorem merge_overlays_witness:
  "yget [''redis'', ''db''] (deep_merge base_yaml overlay_yaml) = Some (YOther 7) \<and>
   yget [''redis'', ''pool''] (deep_merge base_yaml overlay_yaml) = Some (YOther 10)"
proof -
  have ok: "yaml_ok overlay_yaml" by (simp add: overlay_yaml_def)
  show ?thesis
    using merge_overlays [OF ok, of "[''redis'', ''db'']" 7 base_yaml "YOther 0"]
      merge_overlays [OF ok, of "[''redis'', ''pool'']" 10 base_yaml "YOther 10"]
    by (simp add: base_yaml_def overlay_yaml_def)
qed

section \<open>Numbers in the environment\<close>

lemma parse_digits_append:
  "parse_digits limit acc (xs @ ys) = (case parse_digits limit acc xs of None \<Rightarrow> None | Some a \<Rightarrow> parse_digits limit a ys)"
  by (induction xs arbitrary: acc) (simp_all split: option.split)

lemma digit_value_char: "d < 10 \<Longrightarrow> digit_value (digit_char d) = Some d"
  using of_char_digit_char [of d] by (simp add: digit_value_def Let_def)

lemma parse_show_nat: "n \<le> limit \<Longrightarrow> parse_digits limit 0 (show_nat n) = Some n"
proof (induction n rule: show_nat.induct)
  case (1 n)
  show ?case
  proof (cases "n < 10")
    case True
    then show ?thesis using "1.prems" by (simp add: show_nat_small digit_value_char)
  next
    case False
    with 1 have "parse_digits limit 0 (show_nat (n div 10)) = Some (n div 10)"
      by (meson div_le_dividend order_trans)
    moreover have "n div 10 * 10 + n mod 10 = n" by simp
    ultimately show ?thesis using False "1.prems" by (simp add: show_nat_large parse_digits_append digit_value_char)
  qed
qed

lemma show_nat_no_sign: "hd (show_nat n) \<noteq> CHR ''+''"
proof (induction n rule: show_nat.induct)
  case (1 n)
  have d: "digit_char d \<noteq> CHR ''+''" if "d < 10" for d
  proof
    assume "digit_char d = CHR ''+''"
    then have "(of_char CHR ''+'' :: nat) = 48 + d" using of_char_digit_char [of d] that by simp
    then show False by simp
  qed
  show ?case
    using 1 d by (cases "n < 10") (simp_all add: show_nat_small show_nat_large hd_append)
qed


lemma parse_unsigned_show: "n \<le> limit \<Longrightarrow> parse_unsigned limit (show_nat n) = Some n"
proof -
  assume n: "n \<le> limit"
  obtain c cs where s: "show_nat n = c # cs" by (cases "show_nat n") simp_all
  then have "c \<noteq> CHR ''+''" using show_nat_no_sign [of n] by simp
  with parse_show_nat [OF n] s show ?thesis by (simp add: parse_unsigned_def)
qed

text \<open>Without variables only the credentials are cleaned; a printed number overrides to itself.\<close>

lemma apply_env_overrides_unset:
  "apply_env_overrides lower blank (\<lambda>_. None) c = Ok (normalize_credentials blank c)"
  by (simp add: apply_env_overrides_def override_def apply_credential_env_overrides_def Let_def)

lemma override_shown:
  "env name = Some (show_nat n) \<Longrightarrow> n \<le> limit \<Longrightarrow> override env name (parse_unsigned limit) f c = Ok (f n c)"
  by (simp add: override_def parse_unsigned_show)

end
