(* ===== verification/Connector.thy ===== *)
theory Connector
  imports Heartbeat Flash_Config
begin

text \<open>
  \<open>flash/src/network/connector.rs\<close>: the WebSocket connections of the adapter. A connected
  exchange has a handle in the map and a task of its own; both share a \<open>link\<close> (the outgoing and
  the shutdown channel and two counters). Where the code awaits, the model has a step
  boundary: a task that waits for room in a channel is in a phase of its own, a caller that
  has to wait gets no result. The socket is the environment: what it yields, whether a
  write succeeds and how a handshake ends are arguments. Metrics and the tap are left out.
\<close>

section \<open>Data\<close>

datatype connection_state = CsDisconnected | CsConnecting | CsConnected | CsDisconnecting

definition cs_is_connected :: "connection_state \<Rightarrow> bool" where
  "cs_is_connected s \<longleftrightarrow> s = CsConnected"

fun cs_display :: "connection_state \<Rightarrow> string" where
  "cs_display CsDisconnected = ''disconnected''"
| "cs_display CsConnecting = ''connecting''"
| "cs_display CsConnected = ''connected''"
| "cs_display CsDisconnecting = ''disconnecting''"

datatype connector_event =
    CeConnected flash_exchange string
  | CeDisconnected flash_exchange string bool
  | CeConnectionFailed flash_exchange string u32
  | CeMessageReceived flash_exchange usize
  | CeStateChanged flash_exchange connection_state connection_state

record raw_message =
  rmg_exchange :: flash_exchange
  rmg_payload :: string
  rmg_received_at :: i64

record connection_stats =
  cst_state :: connection_state
  cst_connected_since :: "instant option"
  cst_messages_received :: u64
  cst_messages_sent :: u64
  cst_last_activity :: instant
  cst_url :: string

definition connection_stats_default :: "instant \<Rightarrow> connection_stats" where
  "connection_stats_default now =
     \<lparr>cst_state = CsDisconnected, cst_connected_since = None, cst_messages_received = 0,
      cst_messages_sent = 0, cst_last_activity = now, cst_url = ''''\<rparr>"

text \<open>
  Where a task is: in \<open>select!\<close>; awaiting room for the event of a text; awaiting room for a
  message; awaiting room for its last event; ended.
\<close>

datatype task_phase = TpSelect | TpAnnounce string | TpDeliver raw_message | TpFarewell connector_event | TpStopped

text \<open>\<open>lk_owned\<close>: the handle with the sending ends still exists.\<close>

record link =
  lk_exchange :: flash_exchange
  lk_outgoing :: "string channel"
  lk_shutdown :: "unit channel"
  lk_owned :: bool
  lk_received :: u64
  lk_sent :: u64
  lk_phase :: task_phase

record connection_handle =
  chd_state :: connection_state
  chd_link :: nat
  chd_url :: string
  chd_connected_at :: instant
  chd_last_activity :: instant

record connector =
  cn_config :: websocket_config
  cn_connections :: "flash_exchange \<rightharpoonup> connection_handle"
  cn_events :: "connector_event channel"
  cn_messages :: "raw_message channel"
  cn_links :: "nat \<rightharpoonup> link"
  cn_next :: nat

definition MESSAGE_CHANNEL_SIZE :: usize where
  "MESSAGE_CHANNEL_SIZE = 10000"

definition OUTGOING_CHANNEL_SIZE :: usize where
  "OUTGOING_CHANNEL_SIZE = 1000"

definition connector_new :: "websocket_config \<Rightarrow> connector" where
  "connector_new c =
     \<lparr>cn_config = c, cn_connections = Map.empty, cn_events = event_channel_new,
      cn_messages = \<lparr>ch_capacity = MESSAGE_CHANNEL_SIZE, ch_queue = [], ch_open = True\<rparr>,
      cn_links = Map.empty, cn_next = 0\<rparr>"

section \<open>Connecting and disconnecting\<close>

definition emit :: "connector_event \<Rightarrow> connector \<Rightarrow> connector" where
  "emit e m = m\<lparr>cn_events := try_send_event e (cn_events m)\<rparr>"

definition emit_connected :: "flash_exchange \<Rightarrow> string \<Rightarrow> connector \<Rightarrow> connector" where
  "emit_connected x url = emit (CeConnected x url)"

definition emit_disconnected :: "flash_exchange \<Rightarrow> string \<Rightarrow> bool \<Rightarrow> connector \<Rightarrow> connector" where
  "emit_disconnected x reason again = emit (CeDisconnected x reason again)"

definition emit_connection_failed :: "flash_exchange \<Rightarrow> string \<Rightarrow> u32 \<Rightarrow> connector \<Rightarrow> connector" where
  "emit_connection_failed x e attempt = emit (CeConnectionFailed x e attempt)"

definition emit_state_change ::
  "flash_exchange \<Rightarrow> connection_state \<Rightarrow> connection_state \<Rightarrow> connector \<Rightarrow> connector" where
  "emit_state_change x old new = emit (CeStateChanged x old new)"

definition put_link :: "nat \<Rightarrow> link \<Rightarrow> connector \<Rightarrow> connector" where
  "put_link k l m = m\<lparr>cn_links := (cn_links m)(k \<mapsto> l)\<rparr>"

text \<open>Dropping a handle drops the sending ends of its channels.\<close>

definition release_link :: "nat \<Rightarrow> connector \<Rightarrow> connector" where
  "release_link k m = (case cn_links m k of None \<Rightarrow> m | Some l \<Rightarrow> put_link k (l\<lparr>lk_owned := False\<rparr>) m)"

definition release_handle :: "flash_exchange \<Rightarrow> connector \<Rightarrow> connector" where
  "release_handle x m = (case cn_connections m x of None \<Rightarrow> m | Some h \<Rightarrow> release_link (chd_link h) m)"

definition link_new :: "flash_exchange \<Rightarrow> link" where
  "link_new x =
     \<lparr>lk_exchange = x,
      lk_outgoing = \<lparr>ch_capacity = OUTGOING_CHANNEL_SIZE, ch_queue = [], ch_open = True\<rparr>,
      lk_shutdown = \<lparr>ch_capacity = 1, ch_queue = [], ch_open = True\<rparr>,
      lk_owned = True, lk_received = 0, lk_sent = 0, lk_phase = TpSelect\<rparr>"

text \<open>The task is spawned and the handle inserted, which drops the handle that was there before.\<close>

definition open_link :: "instant \<Rightarrow> flash_exchange \<Rightarrow> string \<Rightarrow> connector \<Rightarrow> connector" where
  "open_link now x url m =
     (let k = cn_next m; m1 = put_link k (link_new x) (release_handle x m) in
      m1\<lparr>cn_next := Suc k,
         cn_connections := (cn_connections m1)(x \<mapsto>
           \<lparr>chd_state = CsConnected, chd_link = k, chd_url = url, chd_connected_at = now, chd_last_activity = now\<rparr>)\<rparr>)"

datatype handshake = HkOpen | HkRefused string | HkElapsed

definition connect_start :: "flash_exchange \<Rightarrow> connector \<Rightarrow> connector" where
  "connect_start x = emit_state_change x CsDisconnected CsConnecting"

definition connect_finish ::
  "string option \<Rightarrow> handshake \<Rightarrow> instant \<Rightarrow> flash_exchange \<Rightarrow> string \<Rightarrow> connector \<Rightarrow>
     (unit, 'x flash_error) result \<times> connector" where
  "connect_finish url_error outcome now x url m =
     (case url_error of
        Some e \<Rightarrow> (Err (FeConnectionFailed (''Invalid URL: '' @ e)), m)
      | None \<Rightarrow>
          (case outcome of
             HkRefused e \<Rightarrow>
               (Err (FeConnectionFailed e),
                emit_state_change x CsConnecting CsDisconnected (emit_connection_failed x e 1 m))
           | HkElapsed \<Rightarrow>
               (Err (FeConnectionTimeout (ws_connect_timeout_ms (cn_config m))),
                emit_state_change x CsConnecting CsDisconnected
                  (emit_connection_failed x ''Connection timeout'' 1 m))
           | HkOpen \<Rightarrow>
               (Ok (), emit_state_change x CsConnecting CsConnected (emit_connected x url (open_link now x url m)))))"

definition connect ::
  "string option \<Rightarrow> handshake \<Rightarrow> instant \<Rightarrow> flash_exchange \<Rightarrow> string \<Rightarrow> connector \<Rightarrow>
     (unit, 'x flash_error) result \<times> connector" where
  "connect url_error outcome now x url m = connect_finish url_error outcome now x url (connect_start x m)"

text \<open>
  \<open>disconnect\<close> removes the handle and signals the task, then waits at most five seconds for it
  to end, and reports; the handle is dropped on return.
\<close>

definition disconnect_begin :: "flash_exchange \<Rightarrow> connector \<Rightarrow> connection_handle option \<times> connector" where
  "disconnect_begin x m =
     (case cn_connections m x of
        None \<Rightarrow> (None, m)
      | Some h \<Rightarrow>
          let m1 = m\<lparr>cn_connections := (cn_connections m)(x := None)\<rparr> in
          (Some h,
           case cn_links m1 (chd_link h) of
             None \<Rightarrow> m1
           | Some l \<Rightarrow> put_link (chd_link h) (l\<lparr>lk_shutdown := snd (channel_try_send () (lk_shutdown l))\<rparr>) m1))"

definition disconnect_end :: "flash_exchange \<Rightarrow> connection_handle \<Rightarrow> connector \<Rightarrow> connector" where
  "disconnect_end x h m = release_link (chd_link h) (emit_disconnected x ''user requested'' False m)"

definition disconnect :: "flash_exchange \<Rightarrow> connector \<Rightarrow> connector" where
  "disconnect x m =
     (case disconnect_begin x m of (None, m1) \<Rightarrow> m1 | (Some h, m1) \<Rightarrow> disconnect_end x h m1)"

definition disconnect_all :: "flash_exchange list \<Rightarrow> connector \<Rightarrow> connector" where
  "disconnect_all keys m = fold disconnect keys m"

section \<open>Sending and queries\<close>

text \<open>No result: the caller waits for room.\<close>

definition connector_send ::
  "instant \<Rightarrow> flash_exchange \<Rightarrow> string \<Rightarrow> connector \<Rightarrow> (unit, 'x flash_error) result option \<times> connector" where
  "connector_send now x msg m =
     (case cn_connections m x of
        None \<Rightarrow> (Some (Err (FeDisconnected (''Not connected to '' @ flash_exchange_as_str x) False)), m)
      | Some h \<Rightarrow>
          if chd_state h \<noteq> CsConnected
          then (Some (Err (FeDisconnected (''Exchange '' @ flash_exchange_as_str x @ '' is not connected'') False)), m)
          else
            (case cn_links m (chd_link h) of
               None \<Rightarrow> (None, m)
             | Some l \<Rightarrow>
                 (case channel_try_send msg (lk_outgoing l) of
                    (Ok u, ch) \<Rightarrow>
                      (Some (Ok ()),
                       (put_link (chd_link h) (l\<lparr>lk_outgoing := ch, lk_sent := lk_sent l + 1\<rparr>) m)
                         \<lparr>cn_connections := (cn_connections m)(x \<mapsto> h\<lparr>chd_last_activity := now\<rparr>)\<rparr>)
                  | (Err (TsClosed v), ch) \<Rightarrow>
                      (Some (Err (FeChannelClosed (''outgoing_'' @ flash_exchange_as_str x))), m)
                  | _ \<Rightarrow> (None, m))))"

definition connector_state :: "flash_exchange \<Rightarrow> connector \<Rightarrow> connection_state" where
  "connector_state x m = (case cn_connections m x of None \<Rightarrow> CsDisconnected | Some h \<Rightarrow> chd_state h)"

definition connector_is_connected :: "flash_exchange \<Rightarrow> connector \<Rightarrow> bool" where
  "connector_is_connected x m = cs_is_connected (connector_state x m)"

definition connector_stats :: "flash_exchange \<Rightarrow> connector \<Rightarrow> connection_stats option" where
  "connector_stats x m =
     (case cn_connections m x of
        None \<Rightarrow> None
      | Some h \<Rightarrow>
          (case cn_links m (chd_link h) of
             None \<Rightarrow> None
           | Some l \<Rightarrow> Some
               \<lparr>cst_state = chd_state h, cst_connected_since = Some (chd_connected_at h),
                cst_messages_received = lk_received l, cst_messages_sent = lk_sent l,
                cst_last_activity = chd_last_activity h, cst_url = chd_url h\<rparr>))"

definition connected_exchanges :: "flash_exchange list \<Rightarrow> connector \<Rightarrow> flash_exchange list" where
  "connected_exchanges keys m = filter (\<lambda>x. connector_is_connected x m) keys"

section \<open>The task\<close>

datatype ws_frame = WfText string | WfBinary bytes | WfPing bytes | WfPong bytes | WfClose | WfOther

datatype read_result = RrFrame ws_frame | RrError string | RrEnd | RrElapsed

text \<open>The future is dropped when the task ends, and with it the receiving ends.\<close>

definition stop_link :: "link \<Rightarrow> link" where
  "stop_link l =
     l\<lparr>lk_phase := TpStopped, lk_outgoing := channel_drop_receiver (lk_outgoing l),
       lk_shutdown := channel_drop_receiver (lk_shutdown l)\<rparr>"

fun after_read :: "u64 \<Rightarrow> i64 \<Rightarrow> read_result \<Rightarrow> link \<Rightarrow> link" where
  "after_read read_timeout_ms now (RrFrame (WfText s)) l = l\<lparr>lk_received := lk_received l + 1, lk_phase := TpAnnounce s\<rparr>"
| "after_read read_timeout_ms now (RrFrame (WfBinary d)) l =
     (let l1 = l\<lparr>lk_received := lk_received l + 1\<rparr> in
      case from_utf8 d of
        None \<Rightarrow> l1
      | Some s \<Rightarrow> l1\<lparr>lk_phase := TpDeliver \<lparr>rmg_exchange = lk_exchange l, rmg_payload = s, rmg_received_at = now\<rparr>\<rparr>)"
| "after_read read_timeout_ms now (RrFrame (WfPing d)) l = l"
| "after_read read_timeout_ms now (RrFrame (WfPong d)) l = l"
| "after_read read_timeout_ms now (RrFrame WfClose) l =
     l\<lparr>lk_phase := TpFarewell (CeDisconnected (lk_exchange l) ''server closed connection'' False)\<rparr>"
| "after_read read_timeout_ms now (RrFrame WfOther) l = l"
| "after_read read_timeout_ms now (RrError e) l = l\<lparr>lk_phase := TpFarewell (CeDisconnected (lk_exchange l) e False)\<rparr>"
| "after_read read_timeout_ms now RrEnd l =
     l\<lparr>lk_phase := TpFarewell (CeDisconnected (lk_exchange l) ''stream ended'' False)\<rparr>"
| "after_read read_timeout_ms now RrElapsed l =
     l\<lparr>lk_phase := TpFarewell (CeDisconnected (lk_exchange l)
         (''read timeout: no data for '' @ show_nat (unat read_timeout_ms) @ ''ms'') True)\<rparr>"

text \<open>The three arms of \<open>select!\<close>, then the awaiting phases.\<close>

definition task_read :: "i64 \<Rightarrow> read_result \<Rightarrow> nat \<Rightarrow> connector \<Rightarrow> connector" where
  "task_read now r k m =
     (case cn_links m k of
        None \<Rightarrow> m
      | Some l \<Rightarrow>
          if lk_phase l = TpSelect then put_link k (after_read (ws_read_timeout_ms (cn_config m)) now r l) m else m)"

definition task_write :: "bool \<Rightarrow> nat \<Rightarrow> connector \<Rightarrow> connector" where
  "task_write written_ok k m =
     (case cn_links m k of
        None \<Rightarrow> m
      | Some l \<Rightarrow>
          if lk_phase l = TpSelect
          then (case channel_try_recv (lk_outgoing l) of
                  (None, ch) \<Rightarrow> m
                | (Some s, ch) \<Rightarrow>
                    if written_ok then put_link k (l\<lparr>lk_outgoing := ch, lk_sent := lk_sent l + 1\<rparr>) m
                    else put_link k (stop_link (l\<lparr>lk_outgoing := ch\<rparr>)) m)
          else m)"

definition task_shutdown :: "nat \<Rightarrow> connector \<Rightarrow> connector" where
  "task_shutdown k m =
     (case cn_links m k of
        None \<Rightarrow> m
      | Some l \<Rightarrow>
          if lk_phase l = TpSelect \<and> (ch_queue (lk_shutdown l) \<noteq> [] \<or> \<not> lk_owned l)
          then put_link k (stop_link l) m else m)"

definition task_continue :: "i64 \<Rightarrow> nat \<Rightarrow> connector \<Rightarrow> connector" where
  "task_continue now k m =
     (case cn_links m k of
        None \<Rightarrow> m
      | Some l \<Rightarrow>
          (case lk_phase l of
             TpAnnounce s \<Rightarrow>
               (case channel_try_send (CeMessageReceived (lk_exchange l) (length s)) (cn_events m) of
                  (Err (TsFull e), ch) \<Rightarrow> m
                | (_, ch) \<Rightarrow>
                    put_link k (l\<lparr>lk_phase := TpDeliver \<lparr>rmg_exchange = lk_exchange l, rmg_payload = s, rmg_received_at = now\<rparr>\<rparr>)
                      (m\<lparr>cn_events := ch\<rparr>))
           | TpDeliver raw \<Rightarrow>
               (case channel_try_send raw (cn_messages m) of
                  (Ok u, ch) \<Rightarrow> put_link k (l\<lparr>lk_phase := TpSelect\<rparr>) (m\<lparr>cn_messages := ch\<rparr>)
                | (Err (TsClosed v), ch) \<Rightarrow> put_link k (stop_link l) m
                | _ \<Rightarrow> m)
           | TpFarewell e \<Rightarrow>
               (case channel_try_send e (cn_events m) of
                  (Err (TsFull v), ch) \<Rightarrow> m
                | (_, ch) \<Rightarrow> put_link k (stop_link l) (m\<lparr>cn_events := ch\<rparr>))
           | _ \<Rightarrow> m))"

end
