(* ===== verification/Connector_Flow.thy ===== *)
theory Connector_Flow
  imports Connector
begin

text \<open>
  Properties of the connections: every interleaving of callers, tasks and consumers keeps the
  order of the messages in both directions, and the counters follow the traffic (the one of
  sent messages counts every message twice).
\<close>

section \<open>Interleavings\<close>

datatype conn_op =
    CoConnectStart flash_exchange
  | CoConnectFinish "string option" handshake instant flash_exchange string
  | CoDisconnectBegin flash_exchange
  | CoDisconnectEnd flash_exchange connection_handle
  | CoSend instant flash_exchange string
  | CoRead i64 read_result nat
  | CoWrite bool nat
  | CoShutdown nat
  | CoContinue i64 nat
  | CoTakeEvent
  | CoTakeMessage

fun conn_apply :: "conn_op \<Rightarrow> connector \<Rightarrow> connector" where
  "conn_apply (CoConnectStart x) m = connect_start x m"
| "conn_apply (CoConnectFinish err out now x url) m =
     snd (connect_finish err out now x url m :: (unit, unit flash_error) result \<times> connector)"
| "conn_apply (CoDisconnectBegin x) m = snd (disconnect_begin x m)"
| "conn_apply (CoDisconnectEnd x h) m = disconnect_end x h m"
| "conn_apply (CoSend now x s) m =
     snd (connector_send now x s m :: (unit, unit flash_error) result option \<times> connector)"
| "conn_apply (CoRead now r k) m = task_read now r k m"
| "conn_apply (CoWrite b k) m = task_write b k m"
| "conn_apply (CoShutdown k) m = task_shutdown k m"
| "conn_apply (CoContinue now k) m = task_continue now k m"
| "conn_apply CoTakeEvent m = m\<lparr>cn_events := snd (channel_try_recv (cn_events m))\<rparr>"
| "conn_apply CoTakeMessage m = m\<lparr>cn_messages := snd (channel_try_recv (cn_messages m))\<rparr>"

text \<open>What a step does to the outside: reads and writes of a socket, accepted sends, messages passed on and taken.\<close>

datatype conn_log =
    LgRead nat read_result
  | LgWrite nat ws_frame
  | LgSend nat string
  | LgDeliver nat raw_message
  | LgTake raw_message

fun read_log :: "nat \<Rightarrow> read_result \<Rightarrow> conn_log list" where
  "read_log k (RrFrame (WfPing d)) = [LgRead k (RrFrame (WfPing d)), LgWrite k (WfPong d)]"
| "read_log k r = [LgRead k r]"

fun link_log :: "conn_op \<Rightarrow> link \<Rightarrow> raw_message channel \<Rightarrow> conn_log list" where
  "link_log (CoRead now r k) l ms = (if lk_phase l = TpSelect then read_log k r else [])"
| "link_log (CoWrite b k) l ms =
     (if lk_phase l = TpSelect \<and> b
      then (case ch_queue (lk_outgoing l) of [] \<Rightarrow> [] | s # ss \<Rightarrow> [LgWrite k (WfText s)]) else [])"
| "link_log (CoContinue now k) l ms =
     (case lk_phase l of
        TpDeliver raw \<Rightarrow> if fst (channel_try_send raw ms) = Ok () then [LgDeliver k raw] else []
      | _ \<Rightarrow> [])"
| "link_log _ l ms = []"

fun op_link :: "conn_op \<Rightarrow> nat option" where
  "op_link (CoRead now r k) = Some k"
| "op_link (CoWrite b k) = Some k"
| "op_link (CoShutdown k) = Some k"
| "op_link (CoContinue now k) = Some k"
| "op_link _ = None"

definition log_of :: "conn_op \<Rightarrow> connector \<Rightarrow> conn_log list" where
  "log_of opn m =
     (case opn of
        CoSend now x s \<Rightarrow>
          (case cn_connections m x of
             None \<Rightarrow> []
           | Some h \<Rightarrow>
               if fst (connector_send now x s m :: (unit, unit flash_error) result option \<times> connector) = Some (Ok ())
               then [LgSend (chd_link h) s] else [])
      | CoTakeMessage \<Rightarrow> (case ch_queue (cn_messages m) of [] \<Rightarrow> [] | raw # rest \<Rightarrow> [LgTake raw])
      | _ \<Rightarrow>
          (case op_link opn of
             None \<Rightarrow> []
           | Some k \<Rightarrow> (case cn_links m k of None \<Rightarrow> [] | Some l \<Rightarrow> link_log opn l (cn_messages m))))"

fun conn_run :: "conn_op list \<Rightarrow> connector \<Rightarrow> conn_log list \<times> connector" where
  "conn_run [] m = ([], m)"
| "conn_run (opn # ops) m = (let (L, m') = conn_run ops (conn_apply opn m) in (log_of opn m @ L, m'))"

lemma conn_run_snoc:
  "conn_run (ops @ [opn]) m =
     (fst (conn_run ops m) @ log_of opn (snd (conn_run ops m)), conn_apply opn (snd (conn_run ops m)))"
  by (induction ops arbitrary: m) (auto simp: Let_def split_beta)

section \<open>The view of a link\<close>

fun read_at :: "nat \<Rightarrow> conn_log \<Rightarrow> read_result list" where
  "read_at k (LgRead j r) = (if j = k then [r] else [])"
| "read_at k _ = []"

fun written_at :: "nat \<Rightarrow> conn_log \<Rightarrow> ws_frame list" where
  "written_at k (LgWrite j f) = (if j = k then [f] else [])"
| "written_at k _ = []"

fun sent_at :: "nat \<Rightarrow> conn_log \<Rightarrow> string list" where
  "sent_at k (LgSend j s) = (if j = k then [s] else [])"
| "sent_at k _ = []"

fun delivered_at :: "nat \<Rightarrow> conn_log \<Rightarrow> raw_message list" where
  "delivered_at k (LgDeliver j raw) = (if j = k then [raw] else [])"
| "delivered_at k _ = []"

fun delivered_any :: "conn_log \<Rightarrow> raw_message list" where
  "delivered_any (LgDeliver j raw) = [raw]"
| "delivered_any _ = []"

fun taken_any :: "conn_log \<Rightarrow> raw_message list" where
  "taken_any (LgTake raw) = [raw]"
| "taken_any _ = []"

definition the_log :: "(conn_log \<Rightarrow> 'a list) \<Rightarrow> conn_log list \<Rightarrow> 'a list" where
  "the_log f L = concat (map f L)"

lemma the_log_simps [simp]:
  "the_log f [] = []" "the_log f (e # L) = f e @ the_log f L" "the_log f (L @ L') = the_log f L @ the_log f L'"
  by (simp_all add: the_log_def)

text \<open>The texts among what a socket yielded, the texts and the pongs among what was written.\<close>

fun text_of_read :: "read_result \<Rightarrow> string list" where
  "text_of_read (RrFrame (WfText s)) = [s]"
| "text_of_read (RrFrame (WfBinary d)) = (case from_utf8 d of None \<Rightarrow> [] | Some s \<Rightarrow> [s])"
| "text_of_read _ = []"

fun ping_of_read :: "read_result \<Rightarrow> bytes list" where
  "ping_of_read (RrFrame (WfPing d)) = [d]"
| "ping_of_read _ = []"

fun counts_as_message :: "read_result \<Rightarrow> bool" where
  "counts_as_message (RrFrame (WfText s)) = True"
| "counts_as_message (RrFrame (WfBinary d)) = True"
| "counts_as_message _ = False"

fun text_of_frame :: "ws_frame \<Rightarrow> string list" where
  "text_of_frame (WfText s) = [s]"
| "text_of_frame _ = []"

fun pong_of_frame :: "ws_frame \<Rightarrow> bytes list" where
  "pong_of_frame (WfPong d) = [d]"
| "pong_of_frame _ = []"

definition texts_read :: "nat \<Rightarrow> conn_log list \<Rightarrow> string list" where
  "texts_read k L = concat (map text_of_read (the_log (read_at k) L))"

definition texts_written :: "nat \<Rightarrow> conn_log list \<Rightarrow> string list" where
  "texts_written k L = concat (map text_of_frame (the_log (written_at k) L))"

definition pings_read :: "nat \<Rightarrow> conn_log list \<Rightarrow> bytes list" where
  "pings_read k L = concat (map ping_of_read (the_log (read_at k) L))"

definition pongs_written :: "nat \<Rightarrow> conn_log list \<Rightarrow> bytes list" where
  "pongs_written k L = concat (map pong_of_frame (the_log (written_at k) L))"

definition texts_sent :: "nat \<Rightarrow> conn_log list \<Rightarrow> string list" where
  "texts_sent k L = the_log (sent_at k) L"

definition messages_read :: "nat \<Rightarrow> conn_log list \<Rightarrow> nat" where
  "messages_read k L = length (filter counts_as_message (the_log (read_at k) L))"

lemmas view_defs = texts_read_def texts_written_def pings_read_def pongs_written_def texts_sent_def messages_read_def

lemma view_append [simp]:
  "texts_read k (L @ E) = texts_read k L @ texts_read k E"
  "texts_written k (L @ E) = texts_written k L @ texts_written k E"
  "pings_read k (L @ E) = pings_read k L @ pings_read k E"
  "pongs_written k (L @ E) = pongs_written k L @ pongs_written k E"
  "texts_sent k (L @ E) = texts_sent k L @ texts_sent k E"
  "messages_read k (L @ E) = messages_read k L + messages_read k E"
  by (simp_all add: view_defs)

lemma view_Nil [simp]:
  "texts_read k [] = []" "texts_written k [] = []" "pings_read k [] = []" "pongs_written k [] = []"
  "texts_sent k [] = []" "messages_read k [] = 0"
  by (simp_all add: view_defs)

text \<open>The text a task has in hand.\<close>

fun in_hand :: "task_phase \<Rightarrow> string list" where
  "in_hand (TpAnnounce s) = [s]"
| "in_hand (TpDeliver raw) = [rmg_payload raw]"
| "in_hand _ = []"

fun in_hand_exchange :: "flash_exchange \<Rightarrow> task_phase \<Rightarrow> bool" where
  "in_hand_exchange x (TpDeliver raw) \<longleftrightarrow> rmg_exchange raw = x"
| "in_hand_exchange x _ \<longleftrightarrow> True"

definition link_ok :: "nat \<Rightarrow> conn_log list \<Rightarrow> link \<Rightarrow> bool" where
  "link_ok k L l \<longleftrightarrow>
     map rmg_payload (the_log (delivered_at k) L) @ in_hand (lk_phase l) = texts_read k L \<and>
     (\<forall>raw\<in>set (the_log (delivered_at k) L). rmg_exchange raw = lk_exchange l) \<and>
     in_hand_exchange (lk_exchange l) (lk_phase l) \<and>
     (lk_phase l \<noteq> TpStopped \<longrightarrow> texts_sent k L = texts_written k L @ ch_queue (lk_outgoing l)) \<and>
     (\<exists>rest. texts_sent k L = texts_written k L @ rest) \<and>
     (ch_open (lk_outgoing l) \<longleftrightarrow> lk_phase l \<noteq> TpStopped) \<and>
     pongs_written k L = pings_read k L \<and>
     lk_received l = of_nat (messages_read k L) \<and>
     lk_sent l = of_nat (length (texts_sent k L) + length (texts_written k L))"

definition unlogged :: "nat \<Rightarrow> conn_log list \<Rightarrow> bool" where
  "unlogged k L \<longleftrightarrow> the_log (read_at k) L = [] \<and> the_log (written_at k) L = [] \<and>
     the_log (sent_at k) L = [] \<and> the_log (delivered_at k) L = []"

definition messages_ok :: "conn_log list \<Rightarrow> raw_message channel \<Rightarrow> bool" where
  "messages_ok L c \<longleftrightarrow> ch_open c \<and> channel_ok c \<and> the_log delivered_any L = the_log taken_any L @ ch_queue c"

definition conn_inv :: "conn_log list \<Rightarrow> connector \<Rightarrow> bool" where
  "conn_inv L m \<longleftrightarrow>
     messages_ok L (cn_messages m) \<and>
     (\<forall>k. case cn_links m k of None \<Rightarrow> unlogged k L | Some l \<Rightarrow> link_ok k L l) \<and>
     (\<forall>k \<ge> cn_next m. cn_links m k = None) \<and>
     (\<forall>x h. cn_connections m x = Some h \<longrightarrow> cn_links m (chd_link h) \<noteq> None)"

lemma link_ok_view:
  assumes "link_ok k L l" "the_log (read_at k) E = []" "the_log (written_at k) E = []"
    "the_log (sent_at k) E = []" "the_log (delivered_at k) E = []"
  shows "link_ok k (L @ E) l"
  using assms by (simp add: link_ok_def view_defs)

lemma unlogged_more: "unlogged k L \<Longrightarrow> unlogged k E \<Longrightarrow> unlogged k (L @ E)"
  by (simp add: unlogged_def)

lemma link_ok_quiet: "link_ok k L l \<Longrightarrow> unlogged k E \<Longrightarrow> link_ok k (L @ E) l"
  by (rule link_ok_view) (simp_all add: unlogged_def)

lemma put_link_simps [simp]:
  "cn_links (put_link k l m) = (cn_links m)(k \<mapsto> l)" "cn_messages (put_link k l m) = cn_messages m"
  "cn_connections (put_link k l m) = cn_connections m" "cn_next (put_link k l m) = cn_next m"
  "cn_events (put_link k l m) = cn_events m" "cn_config (put_link k l m) = cn_config m"
  by (simp_all add: put_link_def)

lemma emit_simps [simp]:
  "cn_links (emit e m) = cn_links m" "cn_messages (emit e m) = cn_messages m"
  "cn_connections (emit e m) = cn_connections m" "cn_next (emit e m) = cn_next m" "cn_config (emit e m) = cn_config m"
  by (simp_all add: emit_def)

lemmas emit_defs = emit_connected_def emit_disconnected_def emit_connection_failed_def emit_state_change_def

text \<open>A step that changes one link and logs only about it.\<close>

lemma conn_inv_put:
  assumes inv: "conn_inv L m" and l: "cn_links m k = Some l" and ok: "link_ok k (L @ E) l'"
    and about: "\<And>j. j \<noteq> k \<Longrightarrow> unlogged j E" and msgs: "messages_ok (L @ E) (cn_messages m')"
    and m': "cn_links m' = (cn_links m)(k \<mapsto> l')" "cn_next m' = cn_next m"
    and conns: "\<And>x h. cn_connections m' x = Some h \<Longrightarrow> \<exists>h'. cn_connections m x = Some h' \<and> chd_link h' = chd_link h"
  shows "conn_inv (L @ E) m'"
proof -
  have "case cn_links m' j of None \<Rightarrow> unlogged j (L @ E) | Some l \<Rightarrow> link_ok j (L @ E) l" for j
  proof (cases "j = k")
    case True
    then show ?thesis using ok m' by simp
  next
    case False
    have "case cn_links m j of None \<Rightarrow> unlogged j L | Some l \<Rightarrow> link_ok j L l"
      using inv by (simp add: conn_inv_def)
    then show ?thesis using False about [OF False] m'
      by (auto simp: unlogged_more link_ok_quiet split: option.splits)
  qed
  moreover have "cn_links m' j = None" if "cn_next m' \<le> j" for j
    using inv l m' that by (auto simp: conn_inv_def)
  moreover have "cn_links m' (chd_link h) \<noteq> None" if h: "cn_connections m' x = Some h" for x h
  proof -
    obtain h' where "cn_connections m x = Some h'" "chd_link h' = chd_link h" using conns [OF h] by blast
    then have "cn_links m (chd_link h) \<noteq> None" using inv unfolding conn_inv_def by metis
    then show ?thesis using m' by simp
  qed
  ultimately show ?thesis using msgs by (simp add: conn_inv_def)
qed

text \<open>A step without any effect on links.\<close>

lemma conn_inv_same:
  assumes "conn_inv L m" "cn_links m' = cn_links m" "messages_ok (L @ E) (cn_messages m')" "cn_next m' = cn_next m"
    and "\<And>k. unlogged k E" and "\<And>x h. cn_connections m' x = Some h \<Longrightarrow> cn_connections m x = Some h"
  shows "conn_inv (L @ E) m'"
proof -
  have "cn_links m (chd_link h) \<noteq> None" if h: "cn_connections m' x = Some h" for x h
    using assms(1) assms(6) [OF h] unfolding conn_inv_def by metis
  moreover have "case cn_links m j of None \<Rightarrow> unlogged j (L @ E) | Some l \<Rightarrow> link_ok j (L @ E) l" for j
  proof -
    have "case cn_links m j of None \<Rightarrow> unlogged j L | Some l \<Rightarrow> link_ok j L l"
      using assms(1) by (simp add: conn_inv_def)
    then show ?thesis using assms(5) [of j] by (auto simp: unlogged_more link_ok_quiet split: option.splits)
  qed
  ultimately show ?thesis using assms(1-4) by (simp add: conn_inv_def)
qed

lemma unlogged_Nil [simp]: "unlogged k []"
  by (simp add: unlogged_def)

lemma conn_invD: "conn_inv L m \<Longrightarrow> cn_links m k = Some l \<Longrightarrow> link_ok k L l"
  by (auto simp: conn_inv_def dest: spec [of _ k])

lemma conn_inv_messages: "conn_inv L m \<Longrightarrow> messages_ok L (cn_messages m)"
  by (simp add: conn_inv_def)

lemma link_ok_owned [simp]: "link_ok k L (l\<lparr>lk_owned := b\<rparr>) = link_ok k L l" "link_ok k L (l\<lparr>lk_shutdown := ch\<rparr>) = link_ok k L l"
  by (simp_all add: link_ok_def)

text \<open>A step that changes one link and logs nothing.\<close>

lemmas conn_inv_put_quiet = conn_inv_put [where E = "[]", simplified]

lemmas conn_inv_same_quiet = conn_inv_same [where E = "[]", simplified]

lemma release_link_inv: "conn_inv L m \<Longrightarrow> conn_inv L (release_link k m)"
proof (cases "cn_links m k")
  case (Some l)
  assume inv: "conn_inv L m"
  show ?thesis
    by (rule conn_inv_put_quiet [OF inv Some, of "l\<lparr>lk_owned := False\<rparr>"])
      (use conn_invD [OF inv Some] conn_inv_messages [OF inv] in \<open>simp_all add: release_link_def Some\<close>)
qed (simp add: release_link_def)

lemma release_handle_inv: "conn_inv L m \<Longrightarrow> conn_inv L (release_handle x m)"
  by (auto simp: release_handle_def release_link_inv split: option.splits)

lemma release_fields [simp]:
  "cn_next (release_link k m) = cn_next m" "cn_next (release_handle x m) = cn_next m"
  "cn_connections (release_handle x m) = cn_connections m" "cn_messages (release_handle x m) = cn_messages m"
  by (auto simp: release_link_def release_handle_def split: option.splits)

lemma open_link_inv:
  assumes "conn_inv L m"
  shows "conn_inv L (open_link now x url m)"
proof -
  let ?m = "release_handle x m"
  have inv: "conn_inv L ?m" using assms by (rule release_handle_inv)
  have free: "cn_links ?m (cn_next m) = None" using inv by (simp add: conn_inv_def)
  then have "unlogged (cn_next m) L"
    using inv by (auto simp: conn_inv_def dest: spec [of _ "cn_next m"])
  then have new: "link_ok (cn_next m) L (link_new x)"
    by (simp add: link_ok_def unlogged_def view_defs link_new_def)
  show ?thesis using inv new
    by (auto simp: conn_inv_def open_link_def Let_def)
qed

lemma emit_inv: "conn_inv L m \<Longrightarrow> conn_inv L (emit e m)"
  by (rule conn_inv_same_quiet) (simp_all add: conn_inv_messages)

lemma connect_finish_inv: "conn_inv L m \<Longrightarrow> conn_inv L (snd (connect_finish err out now x url m))"
  by (auto simp: connect_finish_def emit_defs emit_inv open_link_inv split: option.split handshake.split)

lemma disconnect_begin_inv:
  assumes inv: "conn_inv L m"
  shows "conn_inv L (snd (disconnect_begin x m))"
proof (cases "cn_connections m x")
  case (Some h)
  then obtain l where l: "cn_links m (chd_link h) = Some l"
    using inv unfolding conn_inv_def by blast
  show ?thesis
    by (rule conn_inv_put_quiet [OF inv l, of "l\<lparr>lk_shutdown := snd (channel_try_send () (lk_shutdown l))\<rparr>"])
      (use conn_invD [OF inv l] conn_inv_messages [OF inv]
        in \<open>auto simp: disconnect_begin_def Some l Let_def split: if_splits\<close>)
qed (simp add: disconnect_begin_def inv)

section \<open>Steps of the task\<close>

lemma after_read_ok:
  "link_ok k L l \<Longrightarrow> lk_phase l = TpSelect \<Longrightarrow> link_ok k (L @ read_log k r) (after_read t now r l)"
  by (cases "(t, now, r, l)" rule: after_read.cases)
    (auto simp: link_ok_def view_defs Let_def split: option.splits)

lemma read_log_about: "j \<noteq> k \<Longrightarrow> unlogged j (read_log k r)"
  "the_log delivered_any (read_log k r) = []" "the_log taken_any (read_log k r) = []"
  by (cases "(k, r)" rule: read_log.cases; simp add: unlogged_def)+

lemma messages_ok_more:
  "messages_ok L c \<Longrightarrow> the_log delivered_any E = [] \<Longrightarrow> the_log taken_any E = [] \<Longrightarrow> messages_ok (L @ E) c"
  by (simp add: messages_ok_def)

lemma task_read_inv:
  assumes inv: "conn_inv L m"
  shows "conn_inv (L @ log_of (CoRead now r k) m) (task_read now r k m)"
proof (cases "cn_links m k")
  case (Some l)
  show ?thesis
  proof (cases "lk_phase l = TpSelect")
    case True
    show ?thesis
      by (rule conn_inv_put [OF inv Some, of _ "after_read (ws_read_timeout_ms (cn_config m)) now r l"])
        (use True conn_invD [OF inv Some] conn_inv_messages [OF inv]
          in \<open>simp_all add: task_read_def log_of_def Some after_read_ok read_log_about messages_ok_more\<close>)
  qed (simp add: task_read_def log_of_def Some inv)
qed (simp add: task_read_def log_of_def inv)

lemma stop_link_ok:
  "link_ok k L l \<Longrightarrow> in_hand (lk_phase l) = [] \<Longrightarrow> link_ok k L (stop_link l)"
  by (auto simp: link_ok_def stop_link_def channel_drop_receiver_def)

lemma task_write_inv:
  assumes inv: "conn_inv L m"
  shows "conn_inv (L @ log_of (CoWrite b k) m) (task_write b k m)"
proof (cases "cn_links m k")
  case (Some l)
  note ok = conn_invD [OF inv Some] and msgs = conn_inv_messages [OF inv]
  show ?thesis
  proof (cases "lk_phase l = TpSelect \<and> ch_queue (lk_outgoing l) \<noteq> []")
    case True
    then obtain t ts where q: "ch_queue (lk_outgoing l) = t # ts" and sel: "lk_phase l = TpSelect"
      by (cases "ch_queue (lk_outgoing l)") auto
    define l1 where "l1 = l\<lparr>lk_outgoing := lk_outgoing l\<lparr>ch_queue := ts\<rparr>\<rparr>"
    show ?thesis
    proof (cases b)
      case True
      have "link_ok k (L @ [LgWrite k (WfText t)]) (l1\<lparr>lk_sent := lk_sent l + 1\<rparr>)"
        using ok sel q by (auto simp: link_ok_def view_defs l1_def)
      then show ?thesis
        by (intro conn_inv_put [OF inv Some])
          (use True sel q msgs in \<open>auto simp: task_write_def log_of_def Some channel_try_recv_def l1_def unlogged_def messages_ok_more\<close>)
    next
      case False
      have "link_ok k L (stop_link l1)"
        using ok sel by (auto simp: link_ok_def stop_link_def channel_drop_receiver_def l1_def)
      then show ?thesis
        by (intro conn_inv_put [OF inv Some])
          (use False sel q msgs in \<open>auto simp: task_write_def log_of_def Some channel_try_recv_def l1_def\<close>)
    qed
  next
    case False
    then show ?thesis using inv
      by (auto simp: task_write_def log_of_def Some channel_try_recv_def split: list.split)
  qed
qed (simp add: task_write_def log_of_def inv)

lemma task_shutdown_inv:
  assumes inv: "conn_inv L m"
  shows "conn_inv L (task_shutdown k m)"
proof (cases "cn_links m k")
  case (Some l)
  show ?thesis
  proof (cases "lk_phase l = TpSelect \<and> (ch_queue (lk_shutdown l) \<noteq> [] \<or> \<not> lk_owned l)")
    case True
    show ?thesis
      by (rule conn_inv_put_quiet [OF inv Some stop_link_ok [OF conn_invD [OF inv Some]]])
        (use True conn_inv_messages [OF inv] in \<open>simp_all add: task_shutdown_def Some\<close>)
  qed (use inv in \<open>auto simp: task_shutdown_def Some\<close>)
qed (simp add: task_shutdown_def inv)

lemma put_events:
  assumes inv: "conn_inv L m" and l: "cn_links m k = Some l" and ok: "link_ok k L l'"
  shows "conn_inv L (put_link k l' (m\<lparr>cn_events := ch\<rparr>))"
  by (rule conn_inv_put_quiet [OF inv l ok]) (use conn_inv_messages [OF inv] in simp_all)

lemma task_continue_inv:
  assumes inv: "conn_inv L m"
  shows "conn_inv (L @ log_of (CoContinue now k) m) (task_continue now k m)"
proof (cases "cn_links m k")
  case (Some l)
  note ok = conn_invD [OF inv Some] and msgs = conn_inv_messages [OF inv]
  show ?thesis
  proof (cases "lk_phase l")
    case (TpAnnounce t)
    have "link_ok k L (l\<lparr>lk_phase := TpDeliver \<lparr>rmg_exchange = lk_exchange l, rmg_payload = t, rmg_received_at = now\<rparr>\<rparr>)"
      using ok TpAnnounce by (simp add: link_ok_def)
    from put_events [OF inv Some this] show ?thesis
      using inv by (auto simp: task_continue_def log_of_def Some TpAnnounce split: prod.split result.split try_send_error.split)
  next
    case (TpFarewell e)
    have "link_ok k L (stop_link l)" using ok TpFarewell by (intro stop_link_ok) simp_all
    from put_events [OF inv Some this] show ?thesis
      using inv by (auto simp: task_continue_def log_of_def Some TpFarewell split: prod.split result.split try_send_error.split)
  next
    case (TpDeliver raw)
    show ?thesis
    proof (cases "length (ch_queue (cn_messages m)) < ch_capacity (cn_messages m)")
      case True
      have opn: "ch_open (cn_messages m)" using msgs by (simp add: messages_ok_def)
      have "link_ok k (L @ [LgDeliver k raw]) (l\<lparr>lk_phase := TpSelect\<rparr>)"
        using ok TpDeliver by (auto simp: link_ok_def view_defs)
      then show ?thesis
        by (intro conn_inv_put [OF inv Some])
          (use True opn msgs in \<open>auto simp: task_continue_def log_of_def Some TpDeliver channel_try_send_def unlogged_def
              messages_ok_def channel_ok_def\<close>)
    next
      case False
      have opn: "ch_open (cn_messages m)" using msgs by (simp add: messages_ok_def)
      then show ?thesis using False inv
        by (simp add: task_continue_def log_of_def Some TpDeliver channel_try_send_def)
    qed
  qed (simp_all add: task_continue_def log_of_def Some inv)
qed (simp add: task_continue_def log_of_def inv)

section \<open>Callers and consumers\<close>

lemma connector_send_inv:
  assumes inv: "conn_inv L m"
  shows "conn_inv (L @ log_of (CoSend now x t) m) (conn_apply (CoSend now x t) m)"
proof (cases "cn_connections m x")
  case (Some h)
  then obtain l where l: "cn_links m (chd_link h) = Some l"
    using inv unfolding conn_inv_def by blast
  note ok = conn_invD [OF inv l] and msgs = conn_inv_messages [OF inv]
  show ?thesis
  proof (cases "chd_state h = CsConnected \<and> ch_open (lk_outgoing l) \<and> length (ch_queue (lk_outgoing l)) < ch_capacity (lk_outgoing l)")
    case True
    let ?l = "l\<lparr>lk_outgoing := lk_outgoing l\<lparr>ch_queue := ch_queue (lk_outgoing l) @ [t]\<rparr>, lk_sent := lk_sent l + 1\<rparr>"
    have "link_ok (chd_link h) (L @ [LgSend (chd_link h) t]) ?l"
      using ok True by (auto simp: link_ok_def view_defs)
    then show ?thesis
      by (intro conn_inv_put [OF inv l])
        (use True msgs Some in \<open>auto simp: connector_send_def log_of_def l channel_try_send_def unlogged_def
            messages_ok_more split: if_splits\<close>)
  next
    case False
    then show ?thesis using inv
      by (auto simp: connector_send_def log_of_def Some l channel_try_send_def)
  qed
qed (simp add: connector_send_def log_of_def inv)

lemma take_message_inv:
  assumes inv: "conn_inv L m"
  shows "conn_inv (L @ log_of CoTakeMessage m) (conn_apply CoTakeMessage m)"
  by (rule conn_inv_same [OF inv])
    (use conn_inv_messages [OF inv]
      in \<open>auto simp: log_of_def channel_try_recv_def messages_ok_def channel_ok_def unlogged_def split: list.splits\<close>)

lemma conn_step_inv:
  assumes inv: "conn_inv L m"
  shows "conn_inv (L @ log_of opn m) (conn_apply opn m)"
proof (cases opn)
  case CoTakeEvent
  have "conn_inv L (m\<lparr>cn_events := ch\<rparr>)" for ch
    by (rule conn_inv_same_quiet [OF inv]) (use conn_inv_messages [OF inv] in simp_all)
  then show ?thesis by (simp add: CoTakeEvent log_of_def)
next
  case (CoDisconnectEnd x h)
  then show ?thesis using inv
    by (simp add: log_of_def disconnect_end_def emit_defs release_link_inv emit_inv)
next
  case (CoShutdown k)
  then show ?thesis using task_shutdown_inv [OF inv, of k]
    by (auto simp: log_of_def split: option.split)
qed (use inv in \<open>simp_all add: log_of_def connect_start_def emit_defs emit_inv connect_finish_inv disconnect_begin_inv\<close>,
  use task_read_inv [OF inv] task_write_inv [OF inv] task_continue_inv [OF inv] connector_send_inv [OF inv] take_message_inv [OF inv]
    in \<open>simp_all add: log_of_def\<close>)

lemma conn_run_inv: "conn_inv (fst (conn_run ops (connector_new c))) (snd (conn_run ops (connector_new c)))"
proof (induction ops rule: rev_induct)
  case Nil
  show ?case by (simp add: conn_inv_def connector_new_def messages_ok_def channel_ok_def)
next
  case (snoc opn ops)
  then show ?case by (simp add: conn_run_snoc conn_step_inv)
qed


definition sample_ops :: "conn_op list" where
  "sample_ops =
     [CoConnectFinish None HkOpen 0 FxDeribit ''u'', CoRead 5 (RrFrame (WfText ''a'')) 0, CoContinue 6 0, CoContinue 7 0,
      CoSend 8 FxDeribit ''s'', CoWrite True 0, CoTakeMessage]"

lemmas sample_simps = connector_new_def connect_finish_def emit_defs emit_def try_send_event_def open_link_def Let_def
  release_handle_def link_new_def put_link_def event_channel_new_def EVENT_CHANNEL_SIZE_def MESSAGE_CHANNEL_SIZE_def
  OUTGOING_CHANNEL_SIZE_def channel_try_send_def channel_try_recv_def task_read_def task_continue_def task_write_def
  connector_send_def log_of_def

lemma sample_run:
  "\<exists>m l. conn_run sample_ops (connector_new websocket_config_default) =
     ([LgRead 0 (RrFrame (WfText ''a'')), LgDeliver 0 \<lparr>rmg_exchange = FxDeribit, rmg_payload = ''a'', rmg_received_at = 6\<rparr>,
       LgSend 0 ''s'', LgWrite 0 (WfText ''s''), LgTake \<lparr>rmg_exchange = FxDeribit, rmg_payload = ''a'', rmg_received_at = 6\<rparr>], m) \<and>
     cn_links m 0 = Some l \<and> lk_phase l = TpSelect"
  by (simp add: sample_ops_def sample_simps)


text \<open>
  A connection that the server closed: the task has ended, the exchange is still reported as
  connected, and a caller learns of it only from a failing \<open>send\<close>.
\<close>

theorem closed_connection_shown_connected:
  "\<exists>m. snd (conn_run [CoConnectFinish None HkOpen 0 FxDeribit ''u'', CoRead 5 (RrFrame WfClose) 0, CoContinue 6 0]
       (connector_new websocket_config_default)) = m \<and>
     map_option lk_phase (cn_links m 0) = Some TpStopped \<and> connector_state FxDeribit m = CsConnected \<and>
     fst (connector_send 7 FxDeribit ''s'' m :: (unit, unit flash_error) result option \<times> connector) =
       Some (Err (FeChannelClosed ''outgoing_deribit''))"
  by (simp add: sample_simps connector_state_def stop_link_def channel_drop_receiver_def)

text \<open>An invalid URL leaves listeners with a connection that is forever being made.\<close>

theorem invalid_url_stays_connecting:
  "ch_queue (cn_events (snd (connect (Some e) h now x url (connector_new c) :: (unit, unit flash_error) result \<times> connector))) =
     [CeStateChanged x CsDisconnected CsConnecting]"
  by (simp add: connect_def connect_start_def sample_simps)

end
