(* ===== verification/Reconnect.thy ===== *)
theory Reconnect
  imports Heartbeat
begin

text \<open>
  \<open>flash/src/network/reconnect.rs\<close>: backoff delays and the reconnection manager. The
  precision of \<open>f64::powi\<close> is not specified, so it is an argument. The connector, the heartbeat
  manager and the metrics are held but never called by this file.
\<close>

section \<open>Status and configuration\<close>

datatype reconnection_status = RsIdle | RsReconnecting | RsWaiting | RsRestoring | RsFailed | RsDisabled

definition rs_is_idle :: "reconnection_status \<Rightarrow> bool" where
  "rs_is_idle s \<longleftrightarrow> s = RsIdle"

definition rs_is_reconnecting :: "reconnection_status \<Rightarrow> bool" where
  "rs_is_reconnecting s \<longleftrightarrow> s = RsReconnecting"

definition rs_is_active :: "reconnection_status \<Rightarrow> bool" where
  "rs_is_active s \<longleftrightarrow> s = RsReconnecting \<or> s = RsWaiting \<or> s = RsRestoring"

definition rs_is_failed :: "reconnection_status \<Rightarrow> bool" where
  "rs_is_failed s \<longleftrightarrow> s = RsFailed"

definition rs_is_disabled :: "reconnection_status \<Rightarrow> bool" where
  "rs_is_disabled s \<longleftrightarrow> s = RsDisabled"

fun rs_as_u8 :: "reconnection_status \<Rightarrow> u8" where
  "rs_as_u8 RsIdle = 0"
| "rs_as_u8 RsReconnecting = 1"
| "rs_as_u8 RsWaiting = 2"
| "rs_as_u8 RsRestoring = 3"
| "rs_as_u8 RsFailed = 4"
| "rs_as_u8 RsDisabled = 5"

fun rs_display :: "reconnection_status \<Rightarrow> string" where
  "rs_display RsIdle = ''idle''"
| "rs_display RsReconnecting = ''reconnecting''"
| "rs_display RsWaiting = ''waiting''"
| "rs_display RsRestoring = ''restoring_subscriptions''"
| "rs_display RsFailed = ''failed''"
| "rs_display RsDisabled = ''disabled''"

record reconnection_config =
  rc_initial_delay_ms :: u64
  rc_max_delay_ms :: u64
  rc_backoff_multiplier :: f64
  rc_jitter_percent :: f64
  rc_max_retries :: u32
  rc_auto_reconnect :: bool
  rc_restore_subscriptions :: bool
  rc_restore_delay_ms :: u64
  rc_request_snapshot :: bool

definition reconnection_config_default :: reconnection_config where
  "reconnection_config_default =
     \<lparr>rc_initial_delay_ms = 1000, rc_max_delay_ms = 30000, rc_backoff_multiplier = FFin 2,
      rc_jitter_percent = f64_of_rat (25 / 100), rc_max_retries = 10, rc_auto_reconnect = True,
      rc_restore_subscriptions = True, rc_restore_delay_ms = 500, rc_request_snapshot = True\<rparr>"

definition reconnection_config_validate :: "reconnection_config \<Rightarrow> (unit, string) result" where
  "reconnection_config_validate c =
     (if \<not> f64_in_range 0 (1 / 2) (rc_jitter_percent c)
      then Err ''jitter_percent must be between 0.0 and 0.5''
      else if f64_less (rc_backoff_multiplier c) (FFin 1)
      then Err ''backoff_multiplier must be >= 1.0''
      else if rc_max_delay_ms c < rc_initial_delay_ms c
      then Err ''max_delay_ms must be >= initial_delay_ms''
      else Ok ())"

definition rc_initial_delay :: "reconnection_config \<Rightarrow> duration" where
  "rc_initial_delay c = from_millis (rc_initial_delay_ms c)"

definition rc_max_delay :: "reconnection_config \<Rightarrow> duration" where
  "rc_max_delay c = from_millis (rc_max_delay_ms c)"

definition rc_restore_delay :: "reconnection_config \<Rightarrow> duration" where
  "rc_restore_delay c = from_millis (rc_restore_delay_ms c)"

text \<open>\<open>attempt.max(1).saturating_sub(1) as i32\<close>.\<close>

definition backoff_exponent :: "u32 \<Rightarrow> int" where
  "backoff_exponent attempt = sint (max attempt 1 - 1)"

definition capped_delay :: "(f64 \<Rightarrow> int \<Rightarrow> f64) \<Rightarrow> reconnection_config \<Rightarrow> u32 \<Rightarrow> f64" where
  "capped_delay power_fn c attempt =
     f64_min (f64_mul (f64_of_int (uint (rc_initial_delay_ms c)))
                (power_fn (rc_backoff_multiplier c) (backoff_exponent attempt)))
             (f64_of_int (uint (rc_max_delay_ms c)))"

definition calculate_delay :: "(f64 \<Rightarrow> int \<Rightarrow> f64) \<Rightarrow> f64 \<Rightarrow> reconnection_config \<Rightarrow> u32 \<Rightarrow> duration" where
  "calculate_delay power_fn random c attempt =
     (let capped = capped_delay power_fn c attempt in
      if f64_gt (rc_jitter_percent c) 0
      then from_millis (with_jitter random (rc_jitter_percent c) capped)
      else from_millis (f64_as_u64 capped))"

section \<open>Events and state\<close>

datatype reconnection_event =
    ReAttemptStarted flash_exchange u32 u32 u64
  | ReAttemptSucceeded flash_exchange u32 u64
  | ReAttemptFailed flash_exchange u32 string "u64 option"
  | ReRetriesExhausted flash_exchange u32 u64
  | ReRestoringSubscriptions flash_exchange usize
  | ReSubscriptionRestored flash_exchange string
  | ReSubscriptionsRestored flash_exchange usize usize
  | ReSequenceGap flash_exchange u64 u64
  | ReSnapshotRequested flash_exchange string
  | ReStarted flash_exchange
  | ReStopped flash_exchange string
  | ReBackoffStarted flash_exchange u64 u32
  | ReManualReconnect flash_exchange

record reconnect_gap =
  sg_expected :: u64
  sg_received :: u64

definition reconnect_gap_size :: "reconnect_gap \<Rightarrow> u64" where
  "reconnect_gap_size g = (if sg_expected g \<le> sg_received g then sg_received g - sg_expected g else 0)"

record reconnection_stats =
  rst_status :: reconnection_status
  rst_current_attempt :: u32
  rst_max_retries :: u32
  rst_since_started :: "duration option"
  rst_until_next_attempt :: "duration option"
  rst_last_error :: "string option"
  rst_total_attempts :: u64
  rst_successful_reconnects :: u64
  rst_success_rate :: f64

record reconnection_state =
  rs_status :: reconnection_status
  rs_attempt :: u64
  rs_last_attempt :: "instant option"
  rs_started_at :: "instant option"
  rs_url :: string
  rs_subscriptions :: "string list"
  rs_last_sequence :: u64
  rs_sequence_initialized :: bool
  rs_enabled :: bool
  rs_total_attempts :: u64
  rs_successful_reconnects :: u64
  rs_last_error :: "string option"
  rs_shutdown_tx :: "unit option"

definition reconnection_state_new :: reconnection_state where
  "reconnection_state_new =
     \<lparr>rs_status = RsDisabled, rs_attempt = 0, rs_last_attempt = None, rs_started_at = None,
      rs_url = [], rs_subscriptions = [], rs_last_sequence = 0, rs_sequence_initialized = False,
      rs_enabled = False, rs_total_attempts = 0, rs_successful_reconnects = 0, rs_last_error = None,
      rs_shutdown_tx = None\<rparr>"

record reconnection_manager =
  rm_config :: reconnection_config
  rm_states :: "flash_exchange \<rightharpoonup> reconnection_state"
  rm_events :: "reconnection_event channel"

definition reconnection_manager_new :: "reconnection_config \<Rightarrow> reconnection_manager" where
  "reconnection_manager_new c = \<lparr>rm_config = c, rm_states = Map.empty, rm_events = event_channel_new\<rparr>"

definition rm_entry :: "flash_exchange \<Rightarrow> reconnection_manager \<Rightarrow> reconnection_state" where
  "rm_entry x m = (case rm_states m x of Some s \<Rightarrow> s | None \<Rightarrow> reconnection_state_new)"

definition rm_put :: "flash_exchange \<Rightarrow> reconnection_state \<Rightarrow> reconnection_manager \<Rightarrow> reconnection_manager" where
  "rm_put x s m = m\<lparr>rm_states := (rm_states m)(x \<mapsto> s)\<rparr>"

definition rm_send :: "reconnection_event \<Rightarrow> reconnection_manager \<Rightarrow> reconnection_manager" where
  "rm_send e m = m\<lparr>rm_events := try_send_event e (rm_events m)\<rparr>"

section \<open>Operations\<close>

text \<open>\<open>enable\<close> takes the entry twice.\<close>

definition enable_begin :: "flash_exchange \<Rightarrow> string \<Rightarrow> reconnection_manager \<Rightarrow> reconnection_manager" where
  "enable_begin x url m = rm_put x ((rm_entry x m)\<lparr>rs_enabled := True, rs_url := url\<rparr>) m"

definition enable_end :: "flash_exchange \<Rightarrow> reconnection_manager \<Rightarrow> reconnection_manager" where
  "enable_end x m =
     rm_send (ReStarted x)
       (case rm_states m x of
          None \<Rightarrow> m
        | Some s \<Rightarrow> if rs_status s = RsDisabled then rm_put x (s\<lparr>rs_status := RsIdle\<rparr>) m else m)"

definition enable :: "flash_exchange \<Rightarrow> string \<Rightarrow> reconnection_manager \<Rightarrow> reconnection_manager" where
  "enable x url m = enable_end x (enable_begin x url m)"

definition disable :: "flash_exchange \<Rightarrow> reconnection_manager \<Rightarrow> reconnection_manager" where
  "disable x m =
     rm_send (ReStopped x ''user disabled'')
       (case rm_states m x of
          None \<Rightarrow> m
        | Some s \<Rightarrow> rm_put x (s\<lparr>rs_enabled := False, rs_status := RsDisabled, rs_shutdown_tx := None\<rparr>) m)"

definition reconnect_now :: "flash_exchange \<Rightarrow> reconnection_manager \<Rightarrow> (reconnection_manager, string) result" where
  "reconnect_now x m =
     (case rm_states m x of
        Some s \<Rightarrow>
          if rs_enabled s then Ok (rm_send (ReManualReconnect x) m)
          else Err (''Reconnection disabled for '' @ flash_exchange_as_str x)
      | None \<Rightarrow> Err (''Reconnection disabled for '' @ flash_exchange_as_str x))"

definition rm_status :: "flash_exchange \<Rightarrow> reconnection_manager \<Rightarrow> reconnection_status" where
  "rm_status x m = (case rm_states m x of None \<Rightarrow> RsDisabled | Some s \<Rightarrow> rs_status s)"

definition rm_is_reconnecting :: "flash_exchange \<Rightarrow> reconnection_manager \<Rightarrow> bool" where
  "rm_is_reconnecting x m = rs_is_active (rm_status x m)"

definition rm_stats :: "instant \<Rightarrow> flash_exchange \<Rightarrow> reconnection_manager \<Rightarrow> reconnection_stats option" where
  "rm_stats now x m =
     (case rm_states m x of
        None \<Rightarrow> None
      | Some s \<Rightarrow>
          if \<not> rs_enabled s then None
          else Some
            \<lparr>rst_status = rs_status s, rst_current_attempt = ucast (rs_attempt s),
             rst_max_retries = rc_max_retries (rm_config m),
             rst_since_started = map_option (\<lambda>t. now - t) (rs_started_at s),
             rst_until_next_attempt = None, rst_last_error = rs_last_error s,
             rst_total_attempts = rs_total_attempts s,
             rst_successful_reconnects = rs_successful_reconnects s,
             rst_success_rate =
               (if 0 < rs_total_attempts s
                then f64_div (f64_of_int (uint (rs_successful_reconnects s)))
                       (f64_of_int (uint (rs_total_attempts s)))
                else FFin 0)\<rparr>)"

definition register_subscription :: "flash_exchange \<Rightarrow> string \<Rightarrow> reconnection_manager \<Rightarrow> reconnection_manager" where
  "register_subscription x sub m =
     (let s = rm_entry x m in rm_put x (s\<lparr>rs_subscriptions := rs_subscriptions s @ [sub]\<rparr>) m)"

definition clear_subscriptions :: "flash_exchange \<Rightarrow> reconnection_manager \<Rightarrow> reconnection_manager" where
  "clear_subscriptions x m =
     (case rm_states m x of None \<Rightarrow> m | Some s \<Rightarrow> rm_put x (s\<lparr>rs_subscriptions := []\<rparr>) m)"

text \<open>The addition \<open>last + 1\<close> is evaluated first; it overflows after the last number.\<close>

definition reconnect_record_sequence ::
  "flash_exchange \<Rightarrow> u64 \<Rightarrow> reconnection_manager \<Rightarrow> (reconnect_gap option \<times> reconnection_manager, 'e) result" where
  "reconnect_record_sequence x n m =
     (let s = rm_entry x m in
      if \<not> rs_sequence_initialized s
      then Ok (None, rm_put x (s\<lparr>rs_last_sequence := n, rs_sequence_initialized := True\<rparr>) m)
      else
        rbind (u64_incr (rs_last_sequence s)) (\<lambda>expected.
          let m' = rm_put x (s\<lparr>rs_last_sequence := n\<rparr>) m in
          if n \<noteq> expected \<and> n \<noteq> rs_last_sequence s \<and> n > rs_last_sequence s
          then Ok (Some \<lparr>sg_expected = expected, sg_received = n\<rparr>, rm_send (ReSequenceGap x expected n) m')
          else Ok (None, m')))"

definition calculate_backoff :: "(f64 \<Rightarrow> int \<Rightarrow> f64) \<Rightarrow> f64 \<Rightarrow> u32 \<Rightarrow> reconnection_manager \<Rightarrow> duration" where
  "calculate_backoff power_fn random attempt m = calculate_delay power_fn random (rm_config m) attempt"

definition reconnect_reset :: "flash_exchange \<Rightarrow> reconnection_manager \<Rightarrow> reconnection_manager" where
  "reconnect_reset x m =
     (case rm_states m x of
        None \<Rightarrow> m
      | Some s \<Rightarrow>
          rm_put x (s\<lparr>rs_status := RsIdle, rs_attempt := 0, rs_started_at := None, rs_last_error := None,
                      rs_sequence_initialized := False, rs_last_sequence := 0\<rparr>) m)"

definition reconnect_shutdown :: "flash_exchange list \<Rightarrow> reconnection_manager \<Rightarrow> reconnection_manager" where
  "reconnect_shutdown keys m = fold disable keys m"

section \<open>Backoff\<close>

lemma f64_min_cap:
  assumes "\<not> f64_is_neg b"
  shows "\<exists>r. f64_min b (FFin (of_nat n)) = FFin r \<and> 0 \<le> r \<and> r \<le> of_nat n"
    and "b = FFin q \<Longrightarrow> f64_min b (FFin (of_nat n)) = FFin (min q (of_nat n))"
    and "b = FInf False \<or> b = FNaN \<Longrightarrow> f64_min b (FFin (of_nat n)) = FFin (of_nat n)"
  using assms by (cases b; auto simp: f64_min_def f64_is_neg_def)+

lemma calculate_delay_bounds:
  assumes "reconnection_config_validate c = Ok ()" and "unat (rc_max_delay_ms c) \<le> 2 ^ 51"
    and "in_unit random" and "\<And>k. \<not> f64_is_neg (power_fn (rc_backoff_multiplier c) k)"
  shows "calculate_delay power_fn random c attempt \<le> max 1 (3 * unat (rc_max_delay_ms c) div 2) * 10 ^ 6 \<and>
    (if f64_gt (rc_jitter_percent c) 0 then from_millis 1 \<le> calculate_delay power_fn random c attempt
     else calculate_delay power_fn random c attempt \<le> rc_max_delay c)"
proof -
  let ?n = "unat (rc_max_delay_ms c)"
  have j: "f64_in_range 0 (1 / 2) (rc_jitter_percent c)"
    using assms(1) by (auto simp: reconnection_config_validate_def split: if_splits)
  have top: "f64_of_int (uint (rc_max_delay_ms c)) = FFin (of_nat ?n)"
    by (rule f64_of_u64) (use assms(2) in simp_all)
  have "\<not> f64_is_neg (f64_mul (f64_of_int (uint (rc_initial_delay_ms c))) (power_fn (rc_backoff_multiplier c) k))" for k
    by (intro f64_mul_nonneg f64_of_int_nonneg assms(4)) simp
  from f64_min_cap(1) [OF this, of "backoff_exponent attempt" ?n]
  obtain r where r: "capped_delay power_fn c attempt = FFin r" "0 \<le> r" "r \<le> of_nat ?n"
    unfolding capped_delay_def top by blast
  show ?thesis
  proof (cases "f64_gt (rc_jitter_percent c) 0")
    case True
    then have eq: "calculate_delay power_fn random c attempt =
        unat (with_jitter random (rc_jitter_percent c) (FFin r)) * 10 ^ 6"
      by (simp add: calculate_delay_def r(1) from_millis_def)
    note b = with_jitter_bounds [OF assms(2) r(2,3) assms(3) j]
    show ?thesis
      unfolding eq if_P [OF True] using mult_le_mono1 [OF b(1), of "10 ^ 6"] mult_le_mono1 [OF b(2), of "10 ^ 6"]
      by (simp add: from_millis_def)
  next
    case False
    have "r < 2 ^ 64"
    proof -
      have "r \<le> of_nat (2 ^ 51)" using r(3) assms(2) by (meson of_nat_le_iff order_trans)
      then show ?thesis by simp
    qed
    then have "unat (f64_as_u64 (FFin r)) = nat \<lfloor>r\<rfloor>" by (intro f64_as_u64_floor r(2))
    moreover have "\<lfloor>r\<rfloor> \<le> int ?n" using floor_mono [OF r(3)] by (simp only: floor_of_nat)
    ultimately have le: "unat (f64_as_u64 (FFin r)) \<le> ?n" by (simp only: nat_le_iff)
    have eq: "calculate_delay power_fn random c attempt = unat (f64_as_u64 (FFin r)) * 10 ^ 6"
      using False by (simp add: calculate_delay_def r(1) from_millis_def)
    have "?n \<le> max 1 (3 * ?n div 2)" by simp
    from mult_le_mono1 [OF order_trans [OF le this], of "10 ^ 6"] mult_le_mono1 [OF le, of "10 ^ 6"]
    show ?thesis unfolding eq if_not_P [OF False] rc_max_delay_def from_millis_def by blast
  qed
qed

text \<open>
  The delay before any attempt stays below one and a half times the maximum, for
  any random number and whatever the precision of the power; with jitter it is at
  least a millisecond, and without jitter the maximum itself is the bound.
\<close>

theorem reconnect_delay_bounded:
  assumes "reconnection_config_validate c = Ok ()" and "unat (rc_max_delay_ms c) \<le> 2 ^ 51"
    and "in_unit random" and "\<And>k. \<not> f64_is_neg (power_fn (rc_backoff_multiplier c) k)"
  shows "calculate_delay power_fn random c attempt \<le> max 1 (3 * unat (rc_max_delay_ms c) div 2) * 10 ^ 6 \<and>
    (if f64_gt (rc_jitter_percent c) 0 then from_millis 1 \<le> calculate_delay power_fn random c attempt
     else calculate_delay power_fn random c attempt \<le> rc_max_delay c)"
  by (rule calculate_delay_bounds) (rule assms)+

lemma default_reconnection_valid: "reconnection_config_validate reconnection_config_default = Ok ()"
  using default_jitters(2)
  by (simp add: reconnection_config_validate_def reconnection_config_default_def f64_less_def)

theorem reconnect_delay_bounded_witness:
  "calculate_delay (\<lambda>b k. FFin (2 ^ nat k)) (FFin (3 / 4)) reconnection_config_default 7 \<le> 45000 * 10 ^ 6"
proof -
  have "in_unit (FFin (3 / 4))" by (simp add: in_unit_def f64_in_range_def)
  moreover have "\<not> f64_is_neg (FFin (2 ^ nat k))" for k by (simp add: f64_is_neg_def not_less)
  ultimately show ?thesis
    using reconnect_delay_bounded [OF default_reconnection_valid, of "FFin (3 / 4)" "\<lambda>b k. FFin (2 ^ nat k)" 7]
    by (simp add: reconnection_config_default_def)
qed


text \<open>
  The product of the initial delay and the power may leave the range of exact integers or of
  finite doubles; the minimum with the maximal delay then absorbs it.
\<close>

lemma f64_of_rat_huge: "2 ^ 1024 \<le> x \<Longrightarrow> f64_of_rat x = FInf False"
proof -
  assume x: "2 ^ 1024 \<le> x"
  have "dyadic (2 ^ 1024)" unfolding dyadic_def
    by (intro exI [of _ 1] exI [of _ 1024]) (simp add: pow2_def)
  then have "2 ^ 1024 \<le> rounded x" using x by (intro rounded_ge) simp_all
  then show ?thesis using x by (simp add: f64_of_rat_def round_pos_rounded)
qed

lemma f64_of_rat_scaled:
  assumes "0 < n" "n \<le> 2 ^ 53"
  shows "f64_of_rat (of_nat n * 2 ^ k) =
    (if of_nat n * 2 ^ k < (2 :: rat) ^ 1024 then FFin (of_nat n * 2 ^ k) else FInf False)"
proof -
  have "dyadic (of_nat n * 2 ^ k)" unfolding dyadic_def
    by (intro exI [of _ "int n"] exI [of _ "int k"]) (use assms in \<open>simp add: pow2_of_nat\<close>)
  moreover have "(- (2 ^ 1024) :: rat) < of_nat n * 2 ^ k"
    by (rule less_trans [of _ 0]) (use assms in simp_all)
  ultimately have "of_nat n * 2 ^ k < (2 :: rat) ^ 1024 \<Longrightarrow> f64_of_rat (of_nat n * 2 ^ k) = FFin (of_nat n * 2 ^ k)"
    by (rule f64_of_rat_exact)
  then show ?thesis using f64_of_rat_huge [of "of_nat n * 2 ^ k"] by (cases "of_nat n * 2 ^ k < (2 :: rat) ^ 1024") simp_all
qed

lemma capped_doubling:
  assumes n: "0 < n" "n \<le> m" "m \<le> 2 ^ 53"
  shows "f64_min (f64_mul (FFin (of_nat n)) (f64_of_rat (2 ^ k))) (FFin (of_nat m)) = FFin (of_nat (min (n * 2 ^ k) m))"
proof -
  have small: "(of_nat m :: rat) < 2 ^ 1024"
  proof -
    have "(of_nat m :: rat) \<le> of_nat (2 ^ 53)" using n(3) by (simp only: of_nat_le_iff)
    also have "\<dots> < 2 ^ 1024" by simp
    finally show ?thesis .
  qed
  define p :: rat where "p = of_nat n * 2 ^ k"
  have p: "0 \<le> p" "p = of_nat (n * 2 ^ k)" by (simp_all add: p_def)
  have n53: "n \<le> 2 ^ 53" using n by linarith
  have prod: "f64_mul (FFin (of_nat n)) (f64_of_rat (2 ^ k)) = (if p < 2 ^ 1024 then FFin p else FInf False)"
  proof (cases "(2 :: rat) ^ k < 2 ^ 1024")
    case True
    then have "f64_of_rat (2 ^ k) = FFin (2 ^ k)" using f64_of_rat_scaled [of 1 k] by simp
    then show ?thesis using f64_of_rat_scaled [OF n(1) n53, of k] by (simp add: p_def)
  next
    case False
    then have "f64_of_rat (2 ^ k) = FInf False" using f64_of_rat_scaled [of 1 k] by simp
    moreover have "1 * 2 ^ k \<le> p" unfolding p_def by (rule mult_right_mono) (use n in simp_all)
    ultimately show ?thesis using False n by (auto simp: f64_is_neg_def)
  qed
  show ?thesis
  proof (cases "p < 2 ^ 1024")
    case True
    have "f64_min (FFin p) (FFin (of_nat m)) = FFin (min p (of_nat m))"
      using p(1) by (intro f64_min_cap(2)) (simp_all add: f64_is_neg_def)
    with True show ?thesis by (simp add: prod p(2) of_nat_min del: of_nat_mult)
  next
    case False
    then have "of_nat m < p" using small by linarith
    then have "m < n * 2 ^ k" unfolding p(2) by (simp only: of_nat_less_iff)
    moreover have "f64_min (FInf False) (FFin (of_nat m)) = FFin (of_nat m)"
      by (rule f64_min_cap(3)) (simp_all add: f64_is_neg_def)
    ultimately show ?thesis using False by (simp add: prod)
  qed
qed

text \<open>
  With multiplier two and no jitter the delay before attempt \<open>k + 1\<close> is exactly the initial one
  times \<open>2 ^ k\<close>, cut at the maximum, in spite of the floating-point detour.
\<close>

theorem backoff_doubles:
  assumes "reconnection_config_validate c = Ok ()" and "rc_backoff_multiplier c = FFin 2"
    and "\<not> f64_gt (rc_jitter_percent c) 0" and "0 < rc_initial_delay_ms c" "unat (rc_max_delay_ms c) \<le> 2 ^ 53"
    and "\<And>k. power_fn (FFin 2) (int k) = f64_of_rat (2 ^ k)"
    and "Suc k < 2 ^ 31"
  shows "calculate_delay power_fn random c (of_nat (Suc k)) =
    min (unat (rc_initial_delay_ms c) * 2 ^ k) (unat (rc_max_delay_ms c)) * 10 ^ 6"
proof -
  let ?n = "unat (rc_initial_delay_ms c)" and ?m = "unat (rc_max_delay_ms c)"
  have le: "?n \<le> ?m"
    using assms(1) by (auto simp: reconnection_config_validate_def word_le_nat_alt not_less split: if_splits)
  have pos: "0 < ?n" using assms(4) by (simp add: word_less_nat_alt)
  have f: "f64_of_int (uint (rc_initial_delay_ms c)) = FFin (of_nat ?n)"
    "f64_of_int (uint (rc_max_delay_ms c)) = FFin (of_nat ?m)"
    by (rule f64_of_u64, rule refl, use le assms(5) in linarith)+
  have ex: "backoff_exponent (of_nat (Suc k)) = int k"
  proof -
    have "unat (of_nat (Suc k) :: u32) = Suc k" using assms(7) by (intro unat_u32_small) simp
    then have "(1 :: u32) \<le> of_nat (Suc k)" by (simp only: word_le_nat_alt) simp
    then have "backoff_exponent (of_nat (Suc k)) = sint (of_nat k :: u32)"
      by (simp add: backoff_exponent_def max_def)
    also have "\<dots> = int k" using assms(7) by (simp add: signed_of_nat signed_take_bit_int_eq_self)
    finally show ?thesis .
  qed
  have "capped_delay power_fn c (of_nat (Suc k)) = FFin (of_nat (min (?n * 2 ^ k) ?m))"
    unfolding capped_delay_def f ex assms(2,6) by (rule capped_doubling [OF pos le assms(5)])
  then have "calculate_delay power_fn random c (of_nat (Suc k)) =
      unat (f64_as_u64 (FFin (of_nat (min (?n * 2 ^ k) ?m)))) * 10 ^ 6"
    using assms(3) by (simp only: calculate_delay_def Let_def if_False from_millis_def)
  also have "unat (f64_as_u64 (FFin (of_nat (min (?n * 2 ^ k) ?m)))) = min (?n * 2 ^ k) ?m"
  proof -
    have "(of_nat (min (?n * 2 ^ k) ?m) :: rat) \<le> of_nat (2 ^ 53)"
      using assms(5) by (simp only: of_nat_le_iff min.coboundedI2)
    then have "of_nat (min (?n * 2 ^ k) ?m) < (2 :: rat) ^ 64" by (rule le_less_trans) simp
    from f64_as_u64_floor [OF of_nat_0_le_iff this] show ?thesis by (simp only: floor_of_nat nat_int)
  qed
  finally show ?thesis .
qed

definition steady_config :: reconnection_config where
  "steady_config = reconnection_config_default\<lparr>rc_jitter_percent := FFin 0\<rparr>"

theorem backoff_doubles_witness:
  "calculate_delay (\<lambda>b k. f64_of_rat (2 ^ nat k)) FNaN steady_config (of_nat (Suc 4)) = 16000 * 10 ^ 6"
proof -
  have "reconnection_config_validate steady_config = Ok ()"
    by (simp add: reconnection_config_validate_def steady_config_def reconnection_config_default_def
        f64_in_range_def f64_less_def)
  from backoff_doubles [OF this, of "\<lambda>b k. f64_of_rat (2 ^ nat k)" 4 FNaN]
  show ?thesis by (simp add: steady_config_def reconnection_config_default_def)
qed

section \<open>Sequence numbers\<close>

fun record_all ::
  "flash_exchange \<Rightarrow> u64 list \<Rightarrow> reconnection_manager \<Rightarrow> (reconnect_gap list \<times> reconnection_manager, 'e) result" where
  "record_all x [] m = Ok ([], m)"
| "record_all x (n # ns) m =
     rbind (reconnect_record_sequence x n m) (\<lambda>(g, m1).
       map_ok (\<lambda>(gs, m2). (case g of None \<Rightarrow> gs | Some g \<Rightarrow> g # gs, m2)) (record_all x ns m1))"

definition in_gap :: "u64 \<Rightarrow> reconnect_gap \<Rightarrow> bool" where
  "in_gap n g \<longleftrightarrow> sg_expected g \<le> n \<and> n < sg_received g"

definition tracking :: "flash_exchange \<Rightarrow> u64 \<Rightarrow> reconnection_manager \<Rightarrow> bool" where
  "tracking x prev m \<longleftrightarrow> (\<exists>s. rm_states m x = Some s \<and> rs_sequence_initialized s \<and> rs_last_sequence s = prev)"

lemma rm_simps [simp]:
  "rm_states (rm_put x s m) = (rm_states m)(x \<mapsto> s)" "rm_states (rm_send e m) = rm_states m"
  by (simp_all add: rm_put_def rm_send_def)

lemma record_first:
  assumes "\<not> rs_sequence_initialized (rm_entry x m)"
  shows "\<exists>m'. reconnect_record_sequence x n m = Ok (None, m') \<and> tracking x n m'"
  using assms by (simp add: reconnect_record_sequence_def Let_def tracking_def)

lemma record_next:
  assumes "tracking x prev m" "prev \<noteq> - 1"
  shows "\<exists>m'. reconnect_record_sequence x n m =
      Ok (if n > prev \<and> n \<noteq> prev + 1 then Some \<lparr>sg_expected = prev + 1, sg_received = n\<rparr> else None, m') \<and>
    tracking x n m'"
  using assms by (auto simp: reconnect_record_sequence_def Let_def tracking_def rm_entry_def u64_incr_def)

lemma record_all_tracked:
  assumes "tracking x prev m" "\<forall>n\<in>set (prev # ns). n \<noteq> - 1"
  shows "\<exists>gs m'. (record_all x ns m :: (_, 'e) result) = Ok (gs, m') \<and>
    (\<forall>g\<in>set gs. sg_expected g - 1 \<in> set (prev # ns) \<and> sg_received g \<in> set ns \<and> sg_expected g < sg_received g) \<and>
    (\<forall>k. prev < k \<and> (\<exists>n\<in>set ns. k < n) \<longrightarrow> k \<in> set ns \<or> (\<exists>g\<in>set gs. in_gap k g))"
  using assms
proof (induction ns arbitrary: prev m)
  case Nil
  then show ?case by simp
next
  case (Cons n ns)
  let ?g = "if n > prev \<and> n \<noteq> prev + 1 then Some \<lparr>sg_expected = prev + 1, sg_received = n\<rparr> else None"
  obtain m1 where m1: "(reconnect_record_sequence x n m :: (_, 'e) result) = Ok (?g, m1)" "tracking x n m1"
    using record_next [OF Cons.prems(1), of n, where 'a = 'e] Cons.prems(2) by auto
  obtain gs m' where gs: "(record_all x ns m1 :: (_, 'e) result) = Ok (gs, m')"
    "\<forall>g\<in>set gs. sg_expected g - 1 \<in> set (n # ns) \<and> sg_received g \<in> set ns \<and> sg_expected g < sg_received g"
    "\<forall>k. n < k \<and> (\<exists>n\<in>set ns. k < n) \<longrightarrow> k \<in> set ns \<or> (\<exists>g\<in>set gs. in_gap k g)"
    using Cons.IH [OF m1(2)] Cons.prems(2) by auto
  define gs' where "gs' = (case ?g of None \<Rightarrow> gs | Some g \<Rightarrow> g # gs)"
  have run: "(record_all x (n # ns) m :: (_, 'e) result) = Ok (gs', m')" by (simp add: m1(1) gs(1) gs'_def)
  have step: "prev < k \<Longrightarrow> k < n \<Longrightarrow> n \<noteq> prev + 1" "prev < k \<Longrightarrow> prev + 1 \<le> k"
    "n > prev \<Longrightarrow> n \<noteq> prev + 1 \<Longrightarrow> prev + 1 < n" for k
    using inc_le [of prev k] inc_le [of prev n] by auto
  have "\<forall>g\<in>set gs'. sg_expected g - 1 \<in> set (prev # n # ns) \<and> sg_received g \<in> set (n # ns) \<and>
      sg_expected g < sg_received g"
    using gs(2) step(3) by (auto simp: gs'_def)
  moreover have "k \<in> set (n # ns) \<or> (\<exists>g\<in>set gs'. in_gap k g)"
    if k: "prev < k" "\<exists>n'\<in>set (n # ns). k < n'" for k
  proof (cases k n rule: linorder_cases)
    case less
    then show ?thesis using step(1,2) [of k] k(1) by (auto simp: gs'_def in_gap_def)
  next
    case greater
    then have "\<exists>n'\<in>set ns. k < n'" using k(2) by auto
    then show ?thesis using greater gs(3) by (auto simp: gs'_def)
  qed simp
  ultimately show ?case using run by blast
qed

text \<open>
  Any stream of received numbers below the last one: nothing panics, every number
  between the first and the highest received one was received or lies in a reported gap, and
  every reported gap lies between two received numbers.
\<close>

theorem reconnect_gaps_complete:
  fixes m :: reconnection_manager
  assumes "\<not> rs_sequence_initialized (rm_entry x m)" "\<forall>n\<in>set (n0 # ns). n \<noteq> - 1"
  shows "\<exists>gs m'. (record_all x (n0 # ns) m :: (_, 'e) result) = Ok (gs, m') \<and>
    (\<forall>g\<in>set gs. sg_expected g - 1 \<in> set (n0 # ns) \<and> sg_received g \<in> set ns \<and> sg_expected g < sg_received g) \<and>
    (\<forall>k. n0 < k \<and> (\<exists>n\<in>set ns. k < n) \<longrightarrow> k \<in> set ns \<or> (\<exists>g\<in>set gs. in_gap k g))"
proof -
  obtain m1 where m1: "(reconnect_record_sequence x n0 m :: (_, 'e) result) = Ok (None, m1)" "tracking x n0 m1"
    using record_first [OF assms(1), of n0, where 'a = 'e] by auto
  from record_all_tracked [OF m1(2), of ns, where 'e = 'e] assms(2) show ?thesis by (auto simp: m1(1))
qed

theorem reconnect_gaps_complete_witness:
  "\<exists>gs m'. (record_all FxDeribit [10, 11, 14] (reconnection_manager_new steady_config) :: (_, unit) result) = Ok (gs, m') \<and>
     (\<exists>g\<in>set gs. in_gap 12 g)"
proof -
  have "\<not> rs_sequence_initialized (rm_entry FxDeribit (reconnection_manager_new steady_config))"
    by (simp add: rm_entry_def reconnection_manager_new_def reconnection_state_new_def)
  from reconnect_gaps_complete [OF this, of 10 "[11, 14]", where 'e = unit]
  obtain gs m' where r: "(record_all FxDeribit [10, 11, 14] (reconnection_manager_new steady_config) :: (_, unit) result) = Ok (gs, m')"
    "\<forall>k. 10 < k \<and> (\<exists>n\<in>set [11, 14]. k < n) \<longrightarrow> k \<in> set [11, 14] \<or> (\<exists>g\<in>set gs. in_gap k g)"
    by auto
  from r(2) have "\<exists>g\<in>set gs. in_gap 12 g" by (auto dest!: spec [of _ 12])
  with r(1) show ?thesis by blast
qed

text \<open>
  The last number is overwritten by an older one, so a late packet makes the next
  in-order one look like a gap of numbers that were all received.
\<close>

theorem late_packet_false_gap:
  "\<exists>m'. (record_all FxDeribit [3, 4, 5, 3, 6] (reconnection_manager_new steady_config) :: (_, unit) result)
     = Ok ([\<lparr>sg_expected = 4, sg_received = 6\<rparr>], m')"
  by (simp add: reconnect_record_sequence_def rm_entry_def reconnection_manager_new_def
      reconnection_state_new_def u64_incr_def Let_def)

text \<open>\<open>reset\<close> makes a disabled exchange idle although reconnection stays disabled.\<close>

theorem reset_shows_disabled_as_idle:
  "rm_status FxOanda (reconnect_reset FxOanda (disable FxOanda (enable FxOanda url (reconnection_manager_new c)))) = RsIdle \<and>
   rm_stats now FxOanda (reconnect_reset FxOanda (disable FxOanda (enable FxOanda url (reconnection_manager_new c)))) = None"
  by (simp add: rm_status_def rm_stats_def reconnect_reset_def disable_def enable_def enable_begin_def enable_end_def
      rm_entry_def reconnection_state_new_def)

end
