(* ===== verification/Oanda_Stream.thy ===== *)
theory Oanda_Stream
  imports Reconnect Flash_Config
begin

text \<open>
  \<open>flash/src/network/oanda_stream.rs\<close>: reading newline-delimited messages from a chunked
  body under an idle timeout, and the budget of reconnection attempts. The body and its
  timing are a list of what each await returns; the callback is the list of lines it was
  given; \<open>trim\<close> is an argument.
\<close>

section \<open>Consuming a stream of lines\<close>

definition OANDA_HEARTBEAT_INTERVAL :: duration where
  "OANDA_HEARTBEAT_INTERVAL = 5 * 10 ^ 9"

definition idle_timeout_for :: "duration \<Rightarrow> duration" where
  "idle_timeout_for read_timeout = max read_timeout (OANDA_HEARTBEAT_INTERVAL * 3)"

datatype stream_exit = SxEof | SxError string | SxIdleTimeout

text \<open>What \<open>timeout(idle_timeout, stream.next()).await\<close> gives.\<close>

datatype stream_item = ItChunk bytes | ItError string | ItEnd | ItElapsed

text \<open>The inner loop: complete lines are cut from the buffer.\<close>

fun split_line :: "string \<Rightarrow> (string \<times> string) option" where
  "split_line [] = None"
| "split_line (c # cs) =
     (if c = CHR 0x0A then Some ([], cs)
      else map_option (\<lambda>(line, rest). (c # line, rest)) (split_line cs))"

lemma split_line_shorter: "split_line s = Some (line, rest) \<Longrightarrow> length rest < length s"
  by (induction s arbitrary: line rest) (auto split: if_splits)

function drain_lines :: "(string \<Rightarrow> string) \<Rightarrow> string \<Rightarrow> string list \<times> string" where
  "drain_lines trim buffer =
     (case split_line buffer of
        None \<Rightarrow> ([], buffer)
      | Some (raw, rest) \<Rightarrow>
          let (lines, buffer') = drain_lines trim rest; line = trim raw in
          (if line = [] then lines else line # lines, buffer'))"
  by pat_completeness auto
termination
  by (relation "measure (\<lambda>(trim, buffer). length buffer)") (auto simp: split_line_shorter)

declare drain_lines.simps [simp del]

text \<open>A chunk that is not UTF-8 by itself is dropped. The list ends when nothing more is awaited.\<close>

fun consume_ndjson_stream ::
  "(string \<Rightarrow> string) \<Rightarrow> string \<Rightarrow> stream_item list \<Rightarrow> string list \<times> stream_exit option" where
  "consume_ndjson_stream trim buffer [] = ([], None)"
| "consume_ndjson_stream trim buffer (ItElapsed # items) = ([], Some SxIdleTimeout)"
| "consume_ndjson_stream trim buffer (ItEnd # items) = ([], Some SxEof)"
| "consume_ndjson_stream trim buffer (ItError e # items) = ([], Some (SxError e))"
| "consume_ndjson_stream trim buffer (ItChunk chunk # items) =
     (case from_utf8 chunk of
        None \<Rightarrow> consume_ndjson_stream trim buffer items
      | Some text \<Rightarrow>
          let (lines, buffer') = drain_lines trim (buffer @ text);
              (more, exit) = consume_ndjson_stream trim buffer' items in
          (lines @ more, exit))"

section \<open>Reconnection policy\<close>

record oanda_reconnect_policy =
  op_attempt :: u32
  op_max_attempts :: u32
  op_backoff :: reconnection_config

definition f64_clamp :: "f64 \<Rightarrow> rat \<Rightarrow> rat \<Rightarrow> f64" where
  "f64_clamp x a b =
     (if x \<noteq> FNaN \<and> f64_total_less x (FFin a) then FFin a
      else if x \<noteq> FNaN \<and> f64_total_less (FFin b) x then FFin b else x)"

definition oanda_policy_new :: "websocket_config \<Rightarrow> oanda_reconnect_policy" where
  "oanda_policy_new ws =
     \<lparr>op_attempt = 0, op_max_attempts = ws_max_reconnect_attempts ws,
      op_backoff = reconnection_config_default
        \<lparr>rc_initial_delay_ms := ws_reconnect_delay_ms ws, rc_max_delay_ms := ws_max_reconnect_delay_ms ws,
         rc_backoff_multiplier := FFin 2, rc_jitter_percent := f64_clamp (ws_reconnect_jitter ws) 0 (1 / 2),
         rc_max_retries := ws_max_reconnect_attempts ws\<rparr>\<rparr>"

definition u32_saturating_incr :: "u32 \<Rightarrow> u32" where
  "u32_saturating_incr w = (if w = - 1 then w else w + 1)"

definition begin_attempt :: "oanda_reconnect_policy \<Rightarrow> u32 option \<times> oanda_reconnect_policy" where
  "begin_attempt p =
     (let n = u32_saturating_incr (op_attempt p); p' = p\<lparr>op_attempt := n\<rparr> in
      (if op_max_attempts p \<noteq> 0 \<and> n > op_max_attempts p then None else Some n, p'))"

definition on_connected :: "oanda_reconnect_policy \<Rightarrow> oanda_reconnect_policy" where
  "on_connected p = p"

definition on_data :: "oanda_reconnect_policy \<Rightarrow> oanda_reconnect_policy" where
  "on_data p = p\<lparr>op_attempt := 0\<rparr>"

definition backoff_delay :: "(f64 \<Rightarrow> int \<Rightarrow> f64) \<Rightarrow> f64 \<Rightarrow> oanda_reconnect_policy \<Rightarrow> duration" where
  "backoff_delay power_fn random p = calculate_delay power_fn random (op_backoff p) (max (op_attempt p) 1)"

definition split_once :: "char \<Rightarrow> string \<Rightarrow> (string \<times> string) option" where
  "split_once c s =
     (if c \<in> set s then Some (takeWhile (\<lambda>x. x \<noteq> c) s, tl (dropWhile (\<lambda>x. x \<noteq> c) s)) else None)"

definition oanda_instrument :: "string \<Rightarrow> flash_instrument" where
  "oanda_instrument name =
     (case split_once (CHR ''_'') name of
        Some (base, quote) \<Rightarrow>
          if base \<noteq> [] \<and> quote \<noteq> [] then flash_instrument_new base quote FxOanda name
          else flash_instrument_new name [] FxOanda name
      | None \<Rightarrow> flash_instrument_new name [] FxOanda name)"

section \<open>Lines do not depend on the chunks\<close>

text \<open>The lines of a text that ends in a newline, read in one piece.\<close>

fun lines_of :: "string \<Rightarrow> string \<Rightarrow> string list" where
  "lines_of acc [] = []"
| "lines_of acc (c # cs) = (if c = CHR 0x0A then rev acc # lines_of [] cs else lines_of (c # acc) cs)"

definition messages_of :: "(string \<Rightarrow> string) \<Rightarrow> string \<Rightarrow> string list" where
  "messages_of trim text = filter (\<lambda>l. l \<noteq> []) (map trim (lines_of [] text))"

lemma split_line_None: "split_line s = None \<longleftrightarrow> CHR 0x0A \<notin> set s"
  by (induction s) auto

lemma split_line_Some: "split_line s = Some (line, rest) \<longleftrightarrow> s = line @ CHR 0x0A # rest \<and> CHR 0x0A \<notin> set line"
proof (induction s arbitrary: line)
  case Nil
  then show ?case by simp
next
  case (Cons c s)
  then show ?case by (cases line) (auto split: if_splits)
qed

lemma lines_of_line: "CHR 0x0A \<notin> set line \<Longrightarrow> lines_of acc (line @ CHR 0x0A # rest) = (rev acc @ line) # lines_of [] rest"
  by (induction line arbitrary: acc) auto

lemma lines_of_open: "CHR 0x0A \<notin> set line \<Longrightarrow> lines_of acc line = []"
  by (induction line arbitrary: acc) auto

lemma drain_lines_sound:
  "drain_lines trim s = (lines, rest) \<Longrightarrow> CHR 0x0A \<notin> set rest \<and> (\<forall>more. messages_of trim (s @ more) = lines @ messages_of trim (rest @ more))"
proof (induction trim s arbitrary: lines rest rule: drain_lines.induct)
  case (1 trim s)
  show ?case
  proof (cases "split_line s")
    case None
    then have "lines = []" "rest = s" using "1.prems" by (simp_all add: drain_lines.simps [of trim s])
    then show ?thesis using None by (simp add: split_line_None)
  next
    case (Some p)
    obtain raw tail where p: "p = (raw, tail)" by fastforce
    obtain ls r where rec: "drain_lines trim tail = (ls, r)" by fastforce
    from "1.IH" [OF Some p [symmetric] rec]
    have ih: "CHR 0x0A \<notin> set r" "\<And>more. messages_of trim (tail @ more) = ls @ messages_of trim (r @ more)" by blast+
    have s: "s = raw @ CHR 0x0A # tail" "CHR 0x0A \<notin> set raw" using Some by (simp_all add: p split_line_Some)
    have out: "lines = (if trim raw = [] then ls else trim raw # ls)" "rest = r"
      using "1.prems" by (auto simp: drain_lines.simps [of trim s] Some p rec Let_def split: if_splits)
    have "messages_of trim (s @ more) = (if trim raw = [] then [] else [trim raw]) @ messages_of trim (tail @ more)" for more
      using s(2) by (simp add: s(1) messages_of_def lines_of_line)
    then show ?thesis using ih by (simp add: out)
  qed
qed

text \<open>The text of the chunks up to the first item that is not a chunk.\<close>

fun received_text :: "stream_item list \<Rightarrow> string" where
  "received_text (ItChunk b # items) = chars_of b @ received_text items"
| "received_text _ = []"

fun chunks_valid :: "stream_item list \<Rightarrow> bool" where
  "chunks_valid (ItChunk b # items) \<longleftrightarrow> utf8_valid b \<and> chunks_valid items"
| "chunks_valid _ \<longleftrightarrow> True"

fun exit_of :: "stream_item list \<Rightarrow> stream_exit option" where
  "exit_of (ItChunk b # items) = exit_of items"
| "exit_of (ItElapsed # items) = Some SxIdleTimeout"
| "exit_of (ItEnd # items) = Some SxEof"
| "exit_of (ItError e # items) = Some (SxError e)"
| "exit_of [] = None"

lemma consume_messages:
  "chunks_valid items \<Longrightarrow> CHR 0x0A \<notin> set buffer \<Longrightarrow>
     consume_ndjson_stream trim buffer items = (messages_of trim (buffer @ received_text items), exit_of items)"
proof (induction items arbitrary: buffer)
  case Nil
  then show ?case by (simp add: messages_of_def lines_of_open)
next
  case (Cons item items)
  show ?case
  proof (cases item)
    case (ItChunk b)
    obtain lines rest where d: "drain_lines trim (buffer @ chars_of b) = (lines, rest)" by fastforce
    note sound = drain_lines_sound [OF d]
    have "consume_ndjson_stream trim rest items = (messages_of trim (rest @ received_text items), exit_of items)"
      using Cons.IH [of rest] Cons.prems(1) sound by (simp add: ItChunk)
    moreover have "from_utf8 b = Some (chars_of b)" using Cons.prems(1) by (simp add: ItChunk from_utf8_Some_iff)
    moreover have "messages_of trim (buffer @ chars_of b @ received_text items) = lines @ messages_of trim (rest @ received_text items)"
      using sound by simp
    ultimately show ?thesis by (simp add: ItChunk d)
  qed (use Cons.prems(2) in \<open>simp_all add: messages_of_def lines_of_open\<close>)
qed


definition sample_items :: "stream_item list" where
  "sample_items = [ItChunk (as_bytes ''a''), ItChunk (as_bytes (''b'' @ [CHR 0x0A, CHR 0x0A] @ ''c'')),
     ItChunk (as_bytes ([CHR 0x0A] @ ''d'')), ItEnd]"


text \<open>
  A character of several bytes that is cut by a chunk boundary loses both chunks, and
  with them whole messages. The text here is one line, an \<open>E\<close> with an acute accent.
\<close>

theorem split_character_loses_line:
  "fst (consume_ndjson_stream (\<lambda>s. s) [] [ItChunk [0xC3, 0x89, 10], ItEnd]) = [chars_of [0xC3, 0x89]] \<and>
   fst (consume_ndjson_stream (\<lambda>s. s) [] [ItChunk [0xC3], ItChunk [0x89, 10], ItEnd]) = []"
  by (simp add: from_utf8_def drain_lines.simps chars_of_def utf8_cont_def char_of_eq_iff)

section \<open>The attempt budget\<close>

datatype policy_op = PoBegin | PoConnected | PoData

fun policy_apply :: "policy_op \<Rightarrow> oanda_reconnect_policy \<Rightarrow> oanda_reconnect_policy" where
  "policy_apply PoBegin p = snd (begin_attempt p)"
| "policy_apply PoConnected p = on_connected p"
| "policy_apply PoData p = on_data p"

text \<open>The attempts begun since the last data.\<close>

fun begun :: "policy_op list \<Rightarrow> nat \<Rightarrow> nat" where
  "begun [] n = n"
| "begun (PoBegin # ops) n = begun ops (Suc n)"
| "begun (PoConnected # ops) n = begun ops n"
| "begun (PoData # ops) n = begun ops 0"

lemma policy_fields [simp]:
  "op_max_attempts (policy_apply h p) = op_max_attempts p" "op_backoff (policy_apply h p) = op_backoff p"
  by (cases h; simp add: begin_attempt_def on_connected_def on_data_def Let_def)+

lemma policy_fields_fold [simp]:
  "op_max_attempts (fold policy_apply ops p) = op_max_attempts p" "op_backoff (fold policy_apply ops p) = op_backoff p"
  by (induction ops arbitrary: p) simp_all

lemma saturating_incr: "unat w < 2 ^ 32 - 1 \<Longrightarrow> unat (u32_saturating_incr w) = Suc (unat w)"
proof -
  assume w: "unat w < 2 ^ 32 - 1"
  then have "w \<noteq> - 1" by (auto simp: unsigned_minus_1_eq_mask mask_eq_exp_minus_1)
  moreover have "unat (w + 1) = unat w + 1" using w by (simp add: unat_word_ariths)
  ultimately show ?thesis by (simp add: u32_saturating_incr_def)
qed

lemma policy_attempt:
  "unat (op_attempt p) = n \<Longrightarrow> n + length ops < 2 ^ 32 \<Longrightarrow> unat (op_attempt (fold policy_apply ops p)) = begun ops n"
proof (induction ops arbitrary: p n)
  case Nil
  then show ?case by simp
next
  case (Cons h ops)
  show ?case
  proof (cases h)
    case PoBegin
    have "unat (op_attempt (policy_apply h p)) = Suc n"
      using saturating_incr [of "op_attempt p"] Cons.prems by (simp add: PoBegin begin_attempt_def Let_def)
    from Cons.IH [OF this] Cons.prems show ?thesis by (simp add: PoBegin)
  next
    case PoConnected
    with Cons show ?thesis by (simp add: on_connected_def)
  next
    case PoData
    then have "unat (op_attempt (policy_apply h p)) = 0" by (simp add: on_data_def)
    from Cons.IH [OF this] Cons.prems show ?thesis by (simp add: PoData)
  qed
qed

text \<open>
  Only data refills the budget: after any events the next attempt is granted exactly
  when fewer than the maximum were begun since the last data (or there is no maximum), and it
  carries its number; a connection alone changes nothing.
\<close>

theorem attempt_budget_exact:
  assumes "length ops < 2 ^ 32 - 1"
  shows "fst (begin_attempt (fold policy_apply ops (oanda_policy_new ws))) =
    (if ws_max_reconnect_attempts ws = 0 \<or> begun ops 0 < unat (ws_max_reconnect_attempts ws)
     then Some (of_nat (Suc (begun ops 0))) else None)"
proof -
  let ?p = "fold policy_apply ops (oanda_policy_new ws)"
  have le: "begun ops n \<le> n + length ops" for n
    by (induction ops n rule: begun.induct) simp_all
  have "unat (op_attempt ?p) = begun ops 0"
    using policy_attempt [of "oanda_policy_new ws" 0 ops] assms by (simp add: oanda_policy_new_def)
  moreover have "begun ops 0 < 2 ^ 32 - 1" using le [of 0] assms by simp
  ultimately have n: "unat (u32_saturating_incr (op_attempt ?p)) = Suc (begun ops 0)"
    using saturating_incr [of "op_attempt ?p"] by simp
  moreover have "of_nat (unat (u32_saturating_incr (op_attempt ?p))) = u32_saturating_incr (op_attempt ?p)" by simp
  ultimately have "u32_saturating_incr (op_attempt ?p) = of_nat (Suc (begun ops 0))" by simp
  moreover have "op_max_attempts ?p = ws_max_reconnect_attempts ws" by (simp add: oanda_policy_new_def)
  ultimately show ?thesis
    using n by (simp add: begin_attempt_def Let_def word_less_nat_alt not_less)
qed

lemma begun_replicate: "begun (replicate k PoBegin @ ops) n = begun ops (n + k)"
  by (induction k arbitrary: n) simp_all

theorem attempt_budget_exact_witness:
  "fst (begin_attempt (fold policy_apply (replicate 10 PoBegin @ [PoConnected]) (oanda_policy_new websocket_config_default))) = None \<and>
   fst (begin_attempt (fold policy_apply [PoBegin, PoBegin, PoData, PoBegin] (oanda_policy_new websocket_config_default))) = Some 2"
  using attempt_budget_exact [of "replicate 10 PoBegin @ [PoConnected]" websocket_config_default]
    attempt_budget_exact [of "[PoBegin, PoBegin, PoData, PoBegin]" websocket_config_default]
  by (simp add: websocket_config_default_def begun_replicate)

text \<open>
  C36: From the configuration file to the delay: whatever configuration \<open>load\<close> accepted and whatever
  happened since, the policy's backoff section is valid and the delay before the next attempt
  is at most 450 seconds.
\<close>

theorem loaded_backoff_bounded:
  fixes w :: "('k, 'v, 'x) config_world"
  assumes "config_load w path environment = Ok c" and "in_unit random"
    and "\<And>k. \<not> f64_is_neg (power_fn (FFin 2) k)"
  shows "reconnection_config_validate (op_backoff (oanda_policy_new (fc_websocket c))) = Ok () \<and>
    backoff_delay power_fn random (fold policy_apply ops (oanda_policy_new (fc_websocket c))) \<le> 450 * 10 ^ 9"
proof -
  let ?b = "op_backoff (oanda_policy_new (fc_websocket c))"
  have "websocket_in_bounds (fc_websocket c)"
    using config_load_Ok(1) [OF assms(1)] by (simp add: validate_all_Nil config_in_bounds_def)
  then obtain j where ws: "ws_reconnect_jitter (fc_websocket c) = FFin j" "0 \<le> j" "j \<le> 1 / 2"
    "unat (ws_reconnect_delay_ms (fc_websocket c)) \<le> unat (ws_max_reconnect_delay_ms (fc_websocket c))"
    "unat (ws_max_reconnect_delay_ms (fc_websocket c)) \<le> 300000"
    by (auto simp: websocket_in_bounds_def)
  then have valid: "reconnection_config_validate ?b = Ok ()"
    by (auto simp: reconnection_config_validate_def oanda_policy_new_def f64_clamp_def f64_in_range_def f64_less_def
        word_le_unat)
  have top: "unat (rc_max_delay_ms ?b) \<le> 300000" using ws(5) by (simp add: oanda_policy_new_def)
  then have m: "unat (rc_max_delay_ms ?b) \<le> 2 ^ 51" by simp
  have neg: "\<not> f64_is_neg (power_fn (rc_backoff_multiplier ?b) k)" for k
    using assms(3) by (simp add: oanda_policy_new_def)
  have "backoff_delay power_fn random (fold policy_apply ops (oanda_policy_new (fc_websocket c))) \<le>
      max 1 (3 * unat (rc_max_delay_ms ?b) div 2) * 10 ^ 6"
    using calculate_delay_bounds [of ?b random power_fn, OF valid m assms(2) neg] by (simp add: backoff_delay_def)
  also have "\<dots> \<le> 450000 * 10 ^ 6" using top by (intro mult_le_mono1) simp
  finally show ?thesis using valid by simp
qed

theorem loaded_backoff_bounded_witness:
  "backoff_delay (\<lambda>b k. FFin 2) (FFin 0)
     (fold policy_apply [PoBegin, PoBegin] (oanda_policy_new websocket_config_default)) \<le> 450 * 10 ^ 9"
proof -
  have "\<not> f64_is_neg (FFin 2)" by (simp add: f64_is_neg_def)
  moreover have "in_unit (FFin 0)" by (simp add: in_unit_def f64_in_range_def)
  ultimately show ?thesis
    using loaded_backoff_bounded [OF quiet_load, of "FFin 0" "\<lambda>b k. FFin 2" "[PoBegin, PoBegin]"]
    by (simp add: flash_config_default_def)
qed

end
