(* ===== verification/Redis_Pool.thy ===== *)
theory Redis_Pool
  imports Oanda_Stream
begin

text \<open>
  \<open>flash/src/publisher/pool.rs\<close>: the pool of Redis connections. The pool inside is the one of
  the crate \<open>deadpool\<close>: what it answers to \<open>get\<close>, what its \<open>status\<close> says and what Redis replies are
  arguments; \<open>rpl_inner_closed\<close> records that \<open>close\<close> was called on it. A function that
  awaits is cut into the sections it runs under the locks; connections in use are counted by the
  callers of \<open>acquire\<close> and \<open>connection_drop\<close>. Counters of 64 bits wrap.
\<close>

section \<open>Configuration\<close>

record pool_config =
  pcf_url :: string
  pcf_max_size :: usize
  pcf_min_idle :: "usize option"
  pcf_connect_timeout_ms :: u64
  pcf_wait_timeout_ms :: u64
  pcf_health_check_interval_ms :: u64
  pcf_auto_reconnect :: bool
  pcf_max_reconnect_attempts :: u32
  pcf_reconnect_delay_ms :: u64
  pcf_database :: u8
  pcf_password :: "string option"
  pcf_tls_enabled :: bool

definition pool_config_default :: pool_config where
  "pool_config_default =
     \<lparr>pcf_url = ''redis://127.0.0.1:6379'', pcf_max_size = 10, pcf_min_idle = Some 2,
      pcf_connect_timeout_ms = 5000, pcf_wait_timeout_ms = 5000, pcf_health_check_interval_ms = 10000,
      pcf_auto_reconnect = True, pcf_max_reconnect_attempts = 10, pcf_reconnect_delay_ms = 1000,
      pcf_database = 0, pcf_password = None, pcf_tls_enabled = False\<rparr>"

datatype 'x pool_error =
    PeCreationFailed string
  | PeAcquisitionFailed string
  | PeConnectionTimeout u64
  | PePoolExhausted usize
  | PeHealthCheckFailed string
  | PeInvalidConfig string
  | PeRedisError 'x
  | PePoolClosed
  | PeDeadpoolError string

text \<open>\<open>show_x\<close> prints an error of the crate \<open>redis\<close>.\<close>

fun pool_error_display :: "('x \<Rightarrow> string) \<Rightarrow> 'x pool_error \<Rightarrow> string" where
  "pool_error_display show_x (PeCreationFailed e) = ''Failed to create pool: '' @ e"
| "pool_error_display show_x (PeAcquisitionFailed e) = ''Failed to acquire connection: '' @ e"
| "pool_error_display show_x (PeConnectionTimeout ms) = ''Connection timeout after '' @ show_nat (unat ms) @ ''ms''"
| "pool_error_display show_x (PePoolExhausted n) = ''Pool exhausted, '' @ show_nat n @ '' requests waiting''"
| "pool_error_display show_x (PeHealthCheckFailed e) = ''Health check failed: '' @ e"
| "pool_error_display show_x (PeInvalidConfig e) = ''Invalid pool configuration: '' @ e"
| "pool_error_display show_x (PeRedisError x) = ''Redis error: '' @ show_x x"
| "pool_error_display show_x PePoolClosed = ''Pool is closed''"
| "pool_error_display show_x (PeDeadpoolError e) = ''Pool error: '' @ e"

definition pool_config_validate :: "pool_config \<Rightarrow> (unit, 'x pool_error) result" where
  "pool_config_validate c =
     (if pcf_url c = [] then Err (PeInvalidConfig ''URL cannot be empty'')
      else if pcf_max_size c = 0 then Err (PeInvalidConfig ''max_size must be greater than 0'')
      else if pcf_database c > 15 then Err (PeInvalidConfig ''database must be between 0 and 15'')
      else
        (case pcf_min_idle c of
           Some n \<Rightarrow> if n > pcf_max_size c then Err (PeInvalidConfig ''min_idle cannot exceed max_size'') else Ok ()
         | None \<Rightarrow> Ok ()))"

definition pool_config_from :: "redis_config \<Rightarrow> pool_config" where
  "pool_config_from c =
     \<lparr>pcf_url = rd_url c, pcf_max_size = unat (rd_pool_size c), pcf_min_idle = Some (unat (rd_pool_size c) div 4),
      pcf_connect_timeout_ms = rd_connect_timeout_ms c, pcf_wait_timeout_ms = 5000,
      pcf_health_check_interval_ms = rd_health_check_interval_ms c, pcf_auto_reconnect = True,
      pcf_max_reconnect_attempts = 10, pcf_reconnect_delay_ms = 1000, pcf_database = rd_database c,
      pcf_password = None, pcf_tls_enabled = False\<rparr>"

section \<open>Builder\<close>

definition as_millis :: "duration \<Rightarrow> u64" where
  "as_millis d = of_nat (d div 10 ^ 6)"

definition as_micros :: "duration \<Rightarrow> u64" where
  "as_micros d = of_nat (d div 10 ^ 3)"

definition pool_builder :: "string \<Rightarrow> pool_config" where
  "pool_builder url = pool_config_default\<lparr>pcf_url := url\<rparr>"

definition builder_max_size :: "usize \<Rightarrow> pool_config \<Rightarrow> pool_config" where
  "builder_max_size n b = b\<lparr>pcf_max_size := n\<rparr>"

definition builder_min_idle :: "usize \<Rightarrow> pool_config \<Rightarrow> pool_config" where
  "builder_min_idle n b = b\<lparr>pcf_min_idle := Some n\<rparr>"

definition builder_connect_timeout :: "duration \<Rightarrow> pool_config \<Rightarrow> pool_config" where
  "builder_connect_timeout d b = b\<lparr>pcf_connect_timeout_ms := as_millis d\<rparr>"

definition builder_wait_timeout :: "duration \<Rightarrow> pool_config \<Rightarrow> pool_config" where
  "builder_wait_timeout d b = b\<lparr>pcf_wait_timeout_ms := as_millis d\<rparr>"

definition builder_health_check_interval :: "duration \<Rightarrow> pool_config \<Rightarrow> pool_config" where
  "builder_health_check_interval d b = b\<lparr>pcf_health_check_interval_ms := as_millis d\<rparr>"

definition builder_auto_reconnect :: "bool \<Rightarrow> pool_config \<Rightarrow> pool_config" where
  "builder_auto_reconnect x b = b\<lparr>pcf_auto_reconnect := x\<rparr>"

definition builder_database :: "u8 \<Rightarrow> pool_config \<Rightarrow> pool_config" where
  "builder_database db b = b\<lparr>pcf_database := db\<rparr>"

definition builder_password :: "string \<Rightarrow> pool_config \<Rightarrow> pool_config" where
  "builder_password s b = b\<lparr>pcf_password := Some s\<rparr>"

definition builder_tls :: "bool \<Rightarrow> pool_config \<Rightarrow> pool_config" where
  "builder_tls x b = b\<lparr>pcf_tls_enabled := x\<rparr>"

section \<open>State\<close>

record pool_stats =
  pst_connections_created :: u64
  pst_connections_recycled :: u64
  pst_connection_timeouts :: u64
  pst_connection_failures :: u64
  pst_current_size :: usize
  pst_idle_connections :: usize
  pst_in_use_connections :: usize
  pst_peak_in_use :: usize
  pst_commands_executed :: u64
  pst_last_health_check :: "i64 option"

definition pool_stats_default :: pool_stats where
  "pool_stats_default =
     \<lparr>pst_connections_created = 0, pst_connections_recycled = 0, pst_connection_timeouts = 0,
      pst_connection_failures = 0, pst_current_size = 0, pst_idle_connections = 0, pst_in_use_connections = 0,
      pst_peak_in_use = 0, pst_commands_executed = 0, pst_last_health_check = None\<rparr>"

datatype pool_health_status = PhHealthy | PhDegraded | PhUnhealthy | PhUnknown

record redis_server_info =
  rsi_version :: string
  rsi_connected_clients :: u32
  rsi_used_memory_bytes :: u64
  rsi_uptime_seconds :: u64

record pool_health =
  phl_status :: pool_health_status
  phl_avg_latency_us :: f64
  phl_last_latency_us :: u64
  phl_consecutive_successes :: u32
  phl_consecutive_failures :: u32
  phl_last_error :: "string option"
  phl_server_info :: "redis_server_info option"

definition pool_health_default :: pool_health where
  "pool_health_default =
     \<lparr>phl_status = PhUnknown, phl_avg_latency_us = FFin 0, phl_last_latency_us = 0,
      phl_consecutive_successes = 0, phl_consecutive_failures = 0, phl_last_error = None, phl_server_info = None\<rparr>"

datatype pool_event =
    PvCreated usize
  | PvConnectionAcquired usize
  | PvConnectionReleased u64
  | PvConnectionFailed string
  | PvHealthCheckCompleted pool_health_status u64
  | PvExhausted usize
  | PvResized usize usize

text \<open>What \<open>status\<close> of the pool inside says, and what its \<open>get\<close> comes to.\<close>

record inner_status =
  ins_size :: usize
  ins_available :: usize

datatype acquired = AqConnection inner_status | AqFailed string

record redis_pool =
  rpl_config :: pool_config
  rpl_stats :: pool_stats
  rpl_health :: pool_health
  rpl_closed :: bool
  rpl_inner_closed :: bool

text \<open>What the pool inside is built from.\<close>

record inner_setup =
  ist_url :: string
  ist_max_size :: usize
  ist_wait_timeout_ms :: u64
  ist_create_timeout_ms :: u64

definition inner_setup_of :: "pool_config \<Rightarrow> inner_setup" where
  "inner_setup_of c =
     \<lparr>ist_url = pcf_url c, ist_max_size = pcf_max_size c, ist_wait_timeout_ms = pcf_wait_timeout_ms c,
      ist_create_timeout_ms = pcf_connect_timeout_ms c\<rparr>"

definition redis_pool_new ::
  "(inner_setup \<Rightarrow> (inner_status, string) result) \<Rightarrow> pool_config \<Rightarrow> (redis_pool, 'x pool_error) result" where
  "redis_pool_new build c =
     rbind (pool_config_validate c) (\<lambda>_.
     rbind (map_err PeCreationFailed (build (inner_setup_of c))) (\<lambda>st.
     Ok \<lparr>rpl_config = c,
         rpl_stats = pool_stats_default\<lparr>pst_current_size := ins_size st, pst_idle_connections := ins_available st\<rparr>,
         rpl_health = pool_health_default, rpl_closed = False, rpl_inner_closed = False\<rparr>))"

definition from_redis_config ::
  "(inner_setup \<Rightarrow> (inner_status, string) result) \<Rightarrow> redis_config \<Rightarrow> (redis_pool, 'x pool_error) result" where
  "from_redis_config build c = redis_pool_new build (pool_config_from c)"

definition put_stats :: "(pool_stats \<Rightarrow> pool_stats) \<Rightarrow> redis_pool \<Rightarrow> redis_pool" where
  "put_stats f p = p\<lparr>rpl_stats := f (rpl_stats p)\<rparr>"

definition put_health :: "(pool_health \<Rightarrow> pool_health) \<Rightarrow> redis_pool \<Rightarrow> redis_pool" where
  "put_health f p = p\<lparr>rpl_health := f (rpl_health p)\<rparr>"

section \<open>Connections\<close>

definition count_acquired :: "inner_status \<Rightarrow> pool_stats \<Rightarrow> pool_stats" where
  "count_acquired st s =
     (let n = Suc (pst_in_use_connections s) in
      s\<lparr>pst_connections_created := pst_connections_created s + 1, pst_in_use_connections := n,
        pst_idle_connections := (if pst_idle_connections s > 0 then pst_idle_connections s - 1 else pst_idle_connections s),
        pst_peak_in_use := (if n > pst_peak_in_use s then n else pst_peak_in_use s),
        pst_current_size := ins_size st\<rparr>)"

text \<open>After the await on the pool inside.\<close>

fun acquire :: "acquired \<Rightarrow> redis_pool \<Rightarrow> (unit, 'x pool_error) result \<times> redis_pool" where
  "acquire (AqFailed e) p =
     (Err (PeAcquisitionFailed e),
      put_stats (\<lambda>s. s\<lparr>pst_connection_failures := pst_connection_failures s + 1\<rparr>) p)"
| "acquire (AqConnection st) p = (Ok (), put_stats (count_acquired st) p)"

definition pool_get :: "acquired \<Rightarrow> redis_pool \<Rightarrow> (unit, 'x pool_error) result \<times> redis_pool" where
  "pool_get aq p = (if rpl_closed p then (Err PePoolClosed, p) else acquire aq p)"

definition connection_drop :: "redis_pool \<Rightarrow> redis_pool" where
  "connection_drop = put_stats (\<lambda>s.
     s\<lparr>pst_connections_recycled := pst_connections_recycled s + 1,
       pst_in_use_connections := (if pst_in_use_connections s > 0 then pst_in_use_connections s - 1 else pst_in_use_connections s),
       pst_idle_connections := Suc (pst_idle_connections s)\<rparr>)"

definition has_available :: "inner_status \<Rightarrow> redis_pool \<Rightarrow> bool" where
  "has_available st p \<longleftrightarrow> \<not> rpl_closed p \<and> ins_available st > 0"

definition count_timeout :: "pool_stats \<Rightarrow> pool_stats" where
  "count_timeout s = s\<lparr>pst_connection_timeouts := pst_connection_timeouts s + 1\<rparr>"

text \<open>\<open>None\<close>: the time ran out while \<open>get\<close> waited, and it was dropped there.\<close>

definition pool_get_timeout ::
  "duration \<Rightarrow> acquired option \<Rightarrow> redis_pool \<Rightarrow> (unit, 'x pool_error) result \<times> redis_pool" where
  "pool_get_timeout d outcome p =
     (if rpl_closed p then (Err PePoolClosed, p)
      else
        (case outcome of
           Some aq \<Rightarrow> acquire aq p
         | None \<Rightarrow> (Err (PeConnectionTimeout (as_millis d)), put_stats count_timeout p)))"

definition pool_is_healthy :: "redis_pool \<Rightarrow> bool" where
  "pool_is_healthy p \<longleftrightarrow> phl_status (rpl_health p) = PhHealthy"

definition pool_stats_now :: "inner_status \<Rightarrow> redis_pool \<Rightarrow> pool_stats" where
  "pool_stats_now st p =
     (rpl_stats p)\<lparr>pst_current_size := ins_size st, pst_idle_connections := ins_available st\<rparr>"

definition count_command :: "pool_stats \<Rightarrow> pool_stats" where
  "count_command s = s\<lparr>pst_commands_executed := pst_commands_executed s + 1\<rparr>"

text \<open>A command on a connection of its own, which is dropped at the end; \<open>reply\<close> is the answer of Redis.\<close>

definition with_connection ::
  "(redis_pool \<Rightarrow> redis_pool) \<Rightarrow> acquired \<Rightarrow> ('a, 'x) result \<Rightarrow> redis_pool \<Rightarrow> ('a, 'x pool_error) result \<times> redis_pool" where
  "with_connection count aq reply p =
     (case pool_get aq p of
        (Ok u, p1) \<Rightarrow>
          (case reply of
             Ok v \<Rightarrow> (Ok v, connection_drop (count p1))
           | Err x \<Rightarrow> (Err (PeRedisError x), connection_drop p1)
           | Panic \<Rightarrow> (Panic, p1))
      | (Err e, p1) \<Rightarrow> (Err e, p1)
      | (Panic, p1) \<Rightarrow> (Panic, p1))"

definition pool_ping :: "acquired \<Rightarrow> (unit, 'x) result \<Rightarrow> redis_pool \<Rightarrow> (unit, 'x pool_error) result \<times> redis_pool" where
  "pool_ping aq reply p = with_connection (\<lambda>p. p) aq reply p"

definition pool_execute :: "acquired \<Rightarrow> ('a, 'x) result \<Rightarrow> redis_pool \<Rightarrow> ('a, 'x pool_error) result \<times> redis_pool" where
  "pool_execute aq reply p = with_connection (put_stats count_command) aq reply p"

definition pool_close :: "redis_pool \<Rightarrow> redis_pool" where
  "pool_close p = p\<lparr>rpl_closed := True, rpl_inner_closed := True\<rparr>"

definition pool_reset :: "redis_pool \<Rightarrow> redis_pool" where
  "pool_reset p =
     (put_health (\<lambda>h. h\<lparr>phl_status := PhUnknown, phl_consecutive_successes := 0, phl_consecutive_failures := 0,
                        phl_last_error := None\<rparr>)
        (put_stats (\<lambda>s. s\<lparr>pst_current_size := 0, pst_idle_connections := 0, pst_in_use_connections := 0\<rparr>)
           (p\<lparr>rpl_inner_closed := True\<rparr>)))\<lparr>rpl_closed := False\<rparr>"

section \<open>Health\<close>

definition latency_average :: "u64 \<Rightarrow> f64 \<Rightarrow> f64" where
  "latency_average us avg =
     (let alpha = f64_of_rat (1 / 5) in
      f64_add (f64_mul alpha (f64_of_int (uint us))) (f64_mul (f64_sub (FFin 1) alpha) avg))"

definition health_success :: "u64 \<Rightarrow> pool_health \<Rightarrow> pool_health" where
  "health_success us h =
     (let h1 = h\<lparr>phl_avg_latency_us := latency_average us (phl_avg_latency_us h), phl_last_latency_us := us,
                 phl_consecutive_successes := phl_consecutive_successes h + 1, phl_consecutive_failures := 0,
                 phl_last_error := None\<rparr> in
      h1\<lparr>phl_status := (if phl_consecutive_successes h1 \<ge> 3 \<or> phl_consecutive_failures h1 = 0
                        then PhHealthy else PhDegraded)\<rparr>)"

definition health_failure :: "string \<Rightarrow> pool_health \<Rightarrow> pool_health" where
  "health_failure e h =
     (let h1 = h\<lparr>phl_consecutive_failures := phl_consecutive_failures h + 1, phl_consecutive_successes := 0,
                 phl_last_error := Some e\<rparr> in
      h1\<lparr>phl_status := (if phl_consecutive_failures h1 \<ge> 5 then PhUnhealthy else PhDegraded)\<rparr>)"

text \<open>The section of \<open>health_check\<close> under the lock, after the ping.\<close>

definition health_record ::
  "('x \<Rightarrow> string) \<Rightarrow> (unit, 'x pool_error) result \<Rightarrow> u64 \<Rightarrow> i64 \<Rightarrow> redis_pool \<Rightarrow>
     (pool_health, 'x pool_error) result \<times> redis_pool" where
  "health_record show_x pinged us now p =
     (case pinged of
        Ok u \<Rightarrow>
          let p1 = put_stats (\<lambda>s. s\<lparr>pst_last_health_check := Some now\<rparr>) (put_health (health_success us) p) in
          (Ok (rpl_health p1), p1)
      | Err e \<Rightarrow>
          (Err (PeHealthCheckFailed (pool_error_display show_x e)),
           put_health (health_failure (pool_error_display show_x e)) p)
      | Panic \<Rightarrow> (Panic, p))"

definition health_check ::
  "('x \<Rightarrow> string) \<Rightarrow> acquired \<Rightarrow> (unit, 'x) result \<Rightarrow> u64 \<Rightarrow> i64 \<Rightarrow> redis_pool \<Rightarrow>
     (pool_health, 'x pool_error) result \<times> redis_pool" where
  "health_check show_x aq reply us now p =
     (case pool_ping aq reply p of (pinged, p1) \<Rightarrow> health_record show_x pinged us now p1)"

text \<open>\<open>str::lines\<close> and the fields of the reply to \<open>INFO\<close>; \<open>trim\<close> is \<open>str::trim\<close>.\<close>

definition strip_cr :: "string \<Rightarrow> string" where
  "strip_cr s = (if s \<noteq> [] \<and> last s = CHR 0x0D then butlast s else s)"

function str_lines :: "string \<Rightarrow> string list" where
  "str_lines s =
     (case split_line s of
        None \<Rightarrow> if s = [] then [] else [s]
      | Some (raw, rest) \<Rightarrow> strip_cr raw # str_lines rest)"
  by pat_completeness auto
termination
  by (relation "measure length") (auto simp: split_line_shorter)

declare str_lines.simps [simp del]

definition str_strip_prefix :: "string \<Rightarrow> string \<Rightarrow> string option" where
  "str_strip_prefix pre s = (if take (length pre) s = pre then Some (drop (length pre) s) else None)"

definition parse_or_zero :: "nat \<Rightarrow> string \<Rightarrow> 'w::len word" where
  "parse_or_zero limit s = (case parse_unsigned limit s of Some n \<Rightarrow> of_nat n | None \<Rightarrow> 0)"

definition info_line :: "(string \<Rightarrow> string) \<Rightarrow> string \<Rightarrow> redis_server_info \<Rightarrow> redis_server_info" where
  "info_line trim line i =
     (case str_strip_prefix ''redis_version:'' line of
        Some v \<Rightarrow> i\<lparr>rsi_version := trim v\<rparr>
      | None \<Rightarrow>
     (case str_strip_prefix ''connected_clients:'' line of
        Some v \<Rightarrow> i\<lparr>rsi_connected_clients := parse_or_zero (2 ^ 32 - 1) (trim v)\<rparr>
      | None \<Rightarrow>
     (case str_strip_prefix ''used_memory:'' line of
        Some v \<Rightarrow> i\<lparr>rsi_used_memory_bytes := parse_or_zero (2 ^ 64 - 1) (trim v)\<rparr>
      | None \<Rightarrow>
     (case str_strip_prefix ''uptime_in_seconds:'' line of
        Some v \<Rightarrow> i\<lparr>rsi_uptime_seconds := parse_or_zero (2 ^ 64 - 1) (trim v)\<rparr>
      | None \<Rightarrow> i))))"

definition parse_server_info :: "(string \<Rightarrow> string) \<Rightarrow> string \<Rightarrow> redis_server_info" where
  "parse_server_info trim info =
     fold (info_line trim) (str_lines info)
       \<lparr>rsi_version = [], rsi_connected_clients = 0, rsi_used_memory_bytes = 0, rsi_uptime_seconds = 0\<rparr>"

definition pool_server_info ::
  "(string \<Rightarrow> string) \<Rightarrow> acquired \<Rightarrow> (string, 'x) result \<Rightarrow> redis_pool \<Rightarrow>
     (redis_server_info, 'x pool_error) result \<times> redis_pool" where
  "pool_server_info trim aq reply p =
     (case pool_get aq p of
        (Ok u, p1) \<Rightarrow>
          (case reply of
             Ok text \<Rightarrow>
               let i = parse_server_info trim text in
               (Ok i, connection_drop (put_health (\<lambda>h. h\<lparr>phl_server_info := Some i\<rparr>) p1))
           | Err x \<Rightarrow> (Err (PeRedisError x), connection_drop p1)
           | Panic \<Rightarrow> (Panic, p1))
      | (Err e, p1) \<Rightarrow> (Err e, p1)
      | (Panic, p1) \<Rightarrow> (Panic, p1))"

section \<open>Interleaved calls\<close>

text \<open>
  The sections that callers run, in any order; \<open>PlAcquire\<close> and \<open>PlTimeout\<close> are the two ends of a
  \<open>get\<close> that found the pool open.
\<close>

datatype 'x pool_op =
    PlAcquire acquired
  | PlTimeout
  | PlDrop
  | PlCommand
  | PlHealth "(unit, 'x pool_error) result" u64 i64
  | PlInfo redis_server_info
  | PlClose
  | PlReset

fun pool_apply :: "('x \<Rightarrow> string) \<Rightarrow> 'x pool_op \<Rightarrow> redis_pool \<Rightarrow> redis_pool" where
  "pool_apply show_x (PlAcquire aq) p = snd (acquire aq p :: (unit, 'x pool_error) result \<times> redis_pool)"
| "pool_apply show_x PlTimeout p = put_stats count_timeout p"
| "pool_apply show_x PlDrop p = connection_drop p"
| "pool_apply show_x PlCommand p = put_stats count_command p"
| "pool_apply show_x (PlHealth r us now) p = snd (health_record show_x r us now p)"
| "pool_apply show_x (PlInfo i) p = put_health (\<lambda>h. h\<lparr>phl_server_info := Some i\<rparr>) p"
| "pool_apply show_x PlClose p = pool_close p"
| "pool_apply show_x PlReset p = pool_reset p"

text \<open>Every call of the interface is such a sequence of sections.\<close>

definition is_sections :: "('x \<Rightarrow> string) \<Rightarrow> redis_pool \<Rightarrow> redis_pool \<Rightarrow> bool" where
  "is_sections show_x p p' \<longleftrightarrow> (\<exists>ops. p' = fold (pool_apply show_x) ops p)"

lemma is_sections_refl [simp]: "is_sections show_x p p"
  unfolding is_sections_def by (intro exI [of _ "[]"]) simp

lemma is_sections_snoc: "is_sections show_x p q \<Longrightarrow> is_sections show_x p (pool_apply show_x op q)"
  unfolding is_sections_def by (metis fold_append fold_simps comp_apply)

lemma pool_get_sections:
  fixes show_x :: "'x \<Rightarrow> string"
  shows "is_sections show_x p (snd (pool_get aq p :: (unit, 'x pool_error) result \<times> redis_pool))"
  using is_sections_snoc [OF is_sections_refl, of show_x p "PlAcquire aq"] by (simp add: pool_get_def)

lemma with_connection_sections:
  fixes reply :: "('a, 'x) result" and show_x :: "'x \<Rightarrow> string"
  assumes "\<And>q. is_sections show_x p q \<Longrightarrow> is_sections show_x p (count q)"
  shows "is_sections show_x p (snd (with_connection count aq reply p))"
proof -
  obtain r p1 where get: "(pool_get aq p :: (unit, 'x pool_error) result \<times> redis_pool) = (r, p1)" by fastforce
  have p1: "is_sections show_x p p1" using pool_get_sections [of show_x p aq] by (simp add: get)
  have "is_sections show_x p (connection_drop q)" if "is_sections show_x p q" for q
    using is_sections_snoc [OF that, of PlDrop] by simp
  then show ?thesis using p1 assms [OF p1]
    by (simp add: with_connection_def get split: result.split)
qed

lemma calls_are_sections:
  fixes show_x :: "'x \<Rightarrow> string"
  shows "is_sections show_x p (snd (pool_get_timeout d outcome p :: (unit, 'x pool_error) result \<times> redis_pool))"
    "is_sections show_x p (snd (pool_execute aq (reply :: ('a, 'x) result) p))"
    "is_sections show_x p (snd (health_check show_x aq pong us now p))"
    "is_sections show_x p (snd (pool_server_info trim aq text p :: (redis_server_info, 'x pool_error) result \<times> redis_pool))"
proof -
  note snoc = is_sections_snoc [of show_x p]
  show "is_sections show_x p (snd (pool_get_timeout d outcome p :: (unit, 'x pool_error) result \<times> redis_pool))"
    using snoc [OF is_sections_refl, of PlTimeout] snoc [OF is_sections_refl, of "PlAcquire aq" for aq]
    by (simp add: pool_get_timeout_def split: option.split)
  show "is_sections show_x p (snd (pool_execute aq (reply :: ('a, 'x) result) p))"
    unfolding pool_execute_def using snoc [of _ PlCommand] by (intro with_connection_sections) simp
  obtain r p1 where ping: "pool_ping aq pong p = (r, p1)" by fastforce
  have p1: "is_sections show_x p p1"
    using with_connection_sections [of show_x p "\<lambda>p. p" aq pong] ping by (simp add: pool_ping_def)
  show "is_sections show_x p (snd (health_check show_x aq pong us now p))"
    using snoc [OF p1, of "PlHealth r us now"] by (simp add: health_check_def ping)
  obtain r2 p2 where get: "(pool_get aq p :: (unit, 'x pool_error) result \<times> redis_pool) = (r2, p2)" by fastforce
  have p2: "is_sections show_x p p2" using pool_get_sections [of show_x p aq] by (simp add: get)
  have info: "is_sections show_x p (pool_apply show_x PlDrop (pool_apply show_x (PlInfo i) p2))" for i
    by (intro snoc p2)
  show "is_sections show_x p (snd (pool_server_info trim aq text p :: (redis_server_info, 'x pool_error) result \<times> redis_pool))"
    using p2 snoc [OF p2, of PlDrop] info
    by (simp add: pool_server_info_def get Let_def split: result.split)
qed

section \<open>The counters\<close>

fun counted :: "('x pool_op \<Rightarrow> bool) \<Rightarrow> 'x pool_op list \<Rightarrow> nat" where
  "counted P ops = length (filter P ops)"

fun is_connect :: "'x pool_op \<Rightarrow> bool" where
  "is_connect (PlAcquire (AqConnection st)) = True"
| "is_connect op = False"

fun is_failure :: "'x pool_op \<Rightarrow> bool" where
  "is_failure (PlAcquire (AqFailed e)) = True"
| "is_failure op = False"

text \<open>Connections in use and the most at any moment; a connection is dropped once, by its owner.\<close>

fun usage :: "nat \<Rightarrow> nat \<Rightarrow> 'x pool_op list \<Rightarrow> (nat \<times> nat) option" where
  "usage n peak [] = Some (n, peak)"
| "usage n peak (op # ops) =
     (if is_connect op then usage (Suc n) (max peak (Suc n)) ops
      else if op = PlDrop then (if n = 0 then None else usage (n - 1) peak ops)
      else usage n peak ops)"

definition counters_of :: "redis_pool \<Rightarrow> u64 list" where
  "counters_of p =
     (let s = rpl_stats p in
      [pst_connections_created s, pst_connections_recycled s, pst_connection_failures s, pst_connection_timeouts s,
       pst_commands_executed s])"

lemmas pool_fold_defs = put_stats_def put_health_def connection_drop_def count_acquired_def count_timeout_def
  count_command_def pool_close_def health_record_def Let_def

lemma usage_exact:
  assumes "usage n peak ops = Some (n', peak')" and "PlReset \<notin> set ops"
    and "pst_in_use_connections (rpl_stats p) = n" "pst_peak_in_use (rpl_stats p) = peak"
  shows "pst_in_use_connections (rpl_stats (fold (pool_apply show_x) ops p)) = n' \<and>
    pst_peak_in_use (rpl_stats (fold (pool_apply show_x) ops p)) = peak' \<and>
    n' + counted (\<lambda>op. op = PlDrop) ops = n + counted is_connect ops"
  using assms
proof (induction ops arbitrary: n peak p)
  case (Cons op ops)
  have step: "\<exists>m q. usage m q ops = Some (n', peak') \<and>
      pst_in_use_connections (rpl_stats (pool_apply show_x op p)) = m \<and>
      pst_peak_in_use (rpl_stats (pool_apply show_x op p)) = q \<and>
      m + (if op = PlDrop then 1 else 0) = n + (if is_connect op then 1 else 0)"
    using Cons.prems
    by (cases op rule: is_connect.cases) (auto simp: pool_fold_defs max_def split: if_splits result.split)
  then obtain m q where m: "usage m q ops = Some (n', peak')"
      "pst_in_use_connections (rpl_stats (pool_apply show_x op p)) = m"
      "pst_peak_in_use (rpl_stats (pool_apply show_x op p)) = q"
      "m + (if op = PlDrop then 1 else 0) = n + (if is_connect op then 1 else 0)" by blast
  have "PlReset \<notin> set ops" using Cons.prems(2) by simp
  from Cons.IH [OF m(1) this m(2,3)] m(4) show ?case by (auto split: if_splits)
qed simp

lemma counters_exact:
  assumes "PlReset \<notin> set ops" and "counters_of p = map of_nat [a, b, c, d, e]"
  shows "counters_of (fold (pool_apply show_x) ops p) = map of_nat
    [a + counted is_connect ops, b + counted (\<lambda>op. op = PlDrop) ops, c + counted is_failure ops,
     d + counted (\<lambda>op. op = PlTimeout) ops, e + counted (\<lambda>op. op = PlCommand) ops]"
  using assms
proof (induction ops arbitrary: p a b c d e)
  case (Cons op ops)
  define k where "k P = (if P op then 1 else 0 :: nat)" for P
  have "counters_of (pool_apply show_x op p) = map of_nat
      [a + k is_connect, b + k (\<lambda>op. op = PlDrop), c + k is_failure, d + k (\<lambda>op. op = PlTimeout),
       e + k (\<lambda>op. op = PlCommand)]"
    using Cons.prems
    by (cases op rule: is_connect.cases) (auto simp: k_def counters_of_def pool_fold_defs split: result.split)
  moreover have "PlReset \<notin> set ops" using Cons.prems(1) by simp
  ultimately have "counters_of (fold (pool_apply show_x) ops (pool_apply show_x op p)) = map of_nat
    [a + k is_connect + counted is_connect ops, b + k (\<lambda>op. op = PlDrop) + counted (\<lambda>op. op = PlDrop) ops,
     c + k is_failure + counted is_failure ops, d + k (\<lambda>op. op = PlTimeout) + counted (\<lambda>op. op = PlTimeout) ops,
     e + k (\<lambda>op. op = PlCommand) + counted (\<lambda>op. op = PlCommand) ops]"
    by (intro Cons.IH)
  then show ?case by (simp add: k_def add_ac)
qed simp

lemma new_pool_fresh:
  assumes "redis_pool_new build c = Ok p"
  shows "counters_of p = map of_nat [0, 0, 0, 0, 0]" "pst_in_use_connections (rpl_stats p) = 0"
    "pst_peak_in_use (rpl_stats p) = 0" "phl_status (rpl_health p) = PhUnknown"
    "phl_consecutive_failures (rpl_health p) = 0"
  using assms by (auto simp: redis_pool_new_def rbind_Ok_iff counters_of_def pool_stats_default_def pool_health_default_def)


definition sample_pool_ops :: "string pool_op list" where
  "sample_pool_ops =
     [PlAcquire (AqConnection \<lparr>ins_size = 1, ins_available = 0\<rparr>), PlAcquire (AqConnection \<lparr>ins_size = 2, ins_available = 0\<rparr>),
      PlAcquire (AqFailed ''refused''), PlCommand, PlDrop, PlTimeout]"

definition build_two :: "inner_setup \<Rightarrow> (inner_status, string) result" where
  "build_two s = Ok \<lparr>ins_size = 0, ins_available = 0\<rparr>"

lemma sample_pool: "\<exists>p. (redis_pool_new build_two pool_config_default :: (redis_pool, string pool_error) result) = Ok p"
  by (simp add: redis_pool_new_def pool_config_validate_def pool_config_default_def build_two_def)


section \<open>The health status\<close>

text \<open>The results of the checks since the last reset, the newest first, and the status they call for.\<close>

fun check_log :: "bool list \<Rightarrow> 'x pool_op list \<Rightarrow> bool list" where
  "check_log past [] = past"
| "check_log past (PlHealth (Ok u) us now # ops) = check_log (True # past) ops"
| "check_log past (PlHealth (Err e) us now # ops) = check_log (False # past) ops"
| "check_log past (PlReset # ops) = check_log [] ops"
| "check_log past (op # ops) = check_log past ops"

fun status_for :: "bool list \<Rightarrow> pool_health_status" where
  "status_for [] = PhUnknown"
| "status_for (True # past) = PhHealthy"
| "status_for (False # past) = (if 4 \<le> length (takeWhile Not past) then PhUnhealthy else PhDegraded)"

definition health_fits :: "bool list \<Rightarrow> pool_health \<Rightarrow> bool" where
  "health_fits past h \<longleftrightarrow>
     phl_status h = status_for past \<and> unat (phl_consecutive_failures h) = length (takeWhile Not past)"

lemma health_fits_failure:
  assumes "health_fits past h" and "length past < 2 ^ 32 - 1"
  shows "health_fits (False # past) (health_failure e h)"
proof -
  let ?k = "phl_consecutive_failures h"
  have "length (takeWhile Not past) \<le> length past" by (rule length_takeWhile_le)
  then have k: "unat ?k = length (takeWhile Not past)" "unat ?k < 2 ^ 32 - 1"
    using assms by (simp_all add: health_fits_def)
  have suc: "unat (?k + 1) = Suc (unat ?k)" using k(2) by (simp add: unat_word_ariths)
  have "(5 \<le> ?k + 1) = (4 \<le> unat ?k)" by (simp add: word_le_nat_alt suc)
  with suc k(1) show ?thesis by (simp add: health_fits_def health_failure_def Let_def)
qed

lemma acquire_health: "rpl_health (snd (acquire aq p)) = rpl_health p"
  by (cases aq) (simp_all add: pool_fold_defs)

lemma health_fits_step:
  assumes "health_fits past (rpl_health p)" and "length past < 2 ^ 32 - 1"
  shows "health_fits (check_log past [op]) (rpl_health (pool_apply show_x op p))"
proof (cases "(past, [op])" rule: check_log.cases)
  case (2 past' u us now ops)
  then show ?thesis by (simp add: health_fits_def pool_fold_defs health_success_def)
next
  case (3 past' e us now ops)
  then show ?thesis using health_fits_failure [OF assms] by (simp add: pool_fold_defs)
next
  case (4 past' ops)
  then show ?thesis by (simp add: health_fits_def pool_reset_def pool_fold_defs)
qed (use assms(1) in \<open>simp_all add: health_fits_def acquire_health pool_fold_defs\<close>)

lemma check_log_Cons: "check_log past (op # ops) = check_log (check_log past [op]) ops"
  by (cases "(past, op # ops)" rule: check_log.cases) simp_all

lemma check_log_length: "length (check_log past [op]) \<le> Suc (length past)"
  by (cases "(past, [op])" rule: check_log.cases) simp_all

lemma health_fits_run:
  "health_fits past (rpl_health p) \<Longrightarrow> length past + length ops < 2 ^ 32 \<Longrightarrow>
     health_fits (check_log past ops) (rpl_health (fold (pool_apply show_x) ops p))"
proof (induction ops arbitrary: past p)
  case (Cons op ops)
  have "health_fits (check_log past [op]) (rpl_health (pool_apply show_x op p))"
    using Cons.prems by (intro health_fits_step) simp_all
  moreover have "length (check_log past [op]) + length ops < 2 ^ 32"
    using Cons.prems(2) check_log_length [of past op] by simp
  ultimately have "health_fits (check_log (check_log past [op]) ops)
      (rpl_health (fold (pool_apply show_x) ops (pool_apply show_x op p)))"
    by (rule Cons.IH)
  then show ?case by (subst check_log_Cons) simp
qed simp

text \<open>
  C31: The health status is the one that the checks since the last reset call for, whatever
  else happened in between: unknown before any, healthy after a success, degraded after one to four
  failures in a row and unhealthy from the fifth.
\<close>

theorem pool_health_follows_checks:
  assumes "redis_pool_new build c = Ok p" and "length ops < 2 ^ 32"
  shows "phl_status (rpl_health (fold (pool_apply show_x) ops p)) = status_for (check_log [] ops) \<and>
    (pool_is_healthy (fold (pool_apply show_x) ops p) \<longleftrightarrow> (\<exists>past. check_log [] ops = True # past))"
proof -
  have "health_fits [] (rpl_health p)" using new_pool_fresh(4,5) [OF assms(1)] by (simp add: health_fits_def)
  then have fits: "phl_status (rpl_health (fold (pool_apply show_x) ops p)) = status_for (check_log [] ops)"
    using health_fits_run [of "[]" p ops show_x] assms(2) by (simp add: health_fits_def)
  have "status_for past = PhHealthy \<longleftrightarrow> (\<exists>older. past = True # older)" for past
    by (cases past rule: status_for.cases) simp_all
  with fits show ?thesis by (simp add: pool_is_healthy_def)
qed

definition sample_checks :: "string pool_op list" where
  "sample_checks =
     (let bad = PlHealth (Err PePoolClosed) 7 1 in [PlHealth (Ok ()) 7 1, bad, bad, PlDrop, bad, bad, bad])"

theorem pool_health_follows_checks_witness:
  "\<exists>p. redis_pool_new build_two pool_config_default = (Ok p :: (redis_pool, string pool_error) result) \<and>
     phl_status (rpl_health (fold (pool_apply (\<lambda>s. s)) sample_checks p)) = PhUnhealthy"
proof -
  obtain p where p: "redis_pool_new build_two pool_config_default = (Ok p :: (redis_pool, string pool_error) result)"
    using sample_pool by blast
  have log: "check_log [] sample_checks = [False, False, False, False, False, True]" "length sample_checks < 2 ^ 32"
    by (simp_all add: sample_checks_def Let_def)
  show ?thesis
    using pool_health_follows_checks [OF p log(2), of "\<lambda>s. s"] p unfolding log(1) by auto
qed

section \<open>Configuration\<close>

text \<open>A loaded configuration makes a valid pool configuration.\<close>

lemma loaded_pool_config_valid:
  assumes "config_load w path environment = Ok c" and "\<not> cw_url_ok w []"
  shows "pool_config_validate (pool_config_from (fc_redis c)) = Ok ()"
proof -
  have "config_in_bounds (cw_url_ok w) c" using config_load_Ok(1) [OF assms(1)] by (simp add: validate_all_Nil)
  then have "rd_url (fc_redis c) \<noteq> []" "unat (rd_database (fc_redis c)) \<le> 15" "1 \<le> unat (rd_pool_size (fc_redis c))"
    using assms(2) by (auto simp: config_in_bounds_def)
  then show ?thesis
    by (auto simp: pool_config_validate_def pool_config_from_def word_less_nat_alt)
qed

section \<open>After a reset\<close>

text \<open>
  \<open>deadpool\<close>: a closed pool hands out no connection. The reset closes it, and then shows the pool as open: every
  later \<open>get\<close> fails.
\<close>

definition inner_lawful :: "redis_pool \<Rightarrow> acquired \<Rightarrow> bool" where
  "inner_lawful p aq \<longleftrightarrow> (rpl_inner_closed p \<longrightarrow> (\<exists>e. aq = AqFailed e))"

theorem reset_pool_unusable:
  assumes "inner_lawful (pool_reset p) aq"
  shows "\<not> rpl_closed (pool_reset p) \<and>
    (\<exists>e. fst (pool_get aq (pool_reset p) :: (unit, 'x pool_error) result \<times> redis_pool) = Err (PeAcquisitionFailed e))"
  using assms by (auto simp: inner_lawful_def pool_reset_def pool_get_def put_health_def put_stats_def)

theorem reset_pool_unusable_witness:
  "inner_lawful (pool_reset p) (AqFailed ''Pool has been closed'') \<and>
   (\<exists>e. fst (pool_get (AqFailed ''Pool has been closed'') (pool_reset p) :: (unit, unit pool_error) result \<times> redis_pool) =
      Err (PeAcquisitionFailed e))"
  using reset_pool_unusable [where 'x = unit, of p "AqFailed ''Pool has been closed''"] by (simp add: inner_lawful_def)

end
