(* ===== verification/Stream_Publisher.thy ===== *)
theory Stream_Publisher
  imports Redis_Pool Topic_Pattern Order_Book "HOL-Library.Sublist"
begin

text \<open>
  \<open>flash/src/publisher/stream.rs\<close>: publishing to Redis streams. The commands handed to a connection
  are kept in a list; what Redis replies, the clock and the serialisers are arguments.
  \<open>lower\<close> is \<open>str::to_lowercase\<close>.
\<close>

section \<open>Configuration and statistics\<close>

datatype stream_format = StJson | StBincode | StRkyv

fun stream_format_as_str :: "stream_format \<Rightarrow> string" where
  "stream_format_as_str StJson = ''json''"
| "stream_format_as_str StBincode = ''bincode''"
| "stream_format_as_str StRkyv = ''rkyv''"

record stream_config =
  stc_format :: stream_format
  stc_max_stream_length :: u64
  stc_approximate_trimming :: bool
  stc_include_timestamp :: bool
  stc_data_field :: string
  stc_format_field :: string
  stc_topic_prefix :: string

definition stream_config_default :: stream_config where
  "stream_config_default =
     \<lparr>stc_format = StBincode, stc_max_stream_length = 100000, stc_approximate_trimming = True,
      stc_include_timestamp = True, stc_data_field = ''data'', stc_format_field = ''format'',
      stc_topic_prefix = ''market_data''\<rparr>"

datatype 'x stream_error =
    SeSerializationFailed stream_format string
  | SeXaddFailed string string
  | SeInvalidTopic string
  | SeInvalidConfig string
  | SeNoConnection
  | SePoolError "'x pool_error"

definition stream_config_validate :: "stream_config \<Rightarrow> (unit, 'x stream_error) result" where
  "stream_config_validate c =
     (if stc_topic_prefix c = [] then Err (SeInvalidConfig ''topic_prefix cannot be empty'')
      else if stc_data_field c = [] then Err (SeInvalidConfig ''data_field cannot be empty'')
      else if stc_format_field c = [] then Err (SeInvalidConfig ''format_field cannot be empty'')
      else Ok ())"

definition with_stream_format :: "stream_format \<Rightarrow> stream_config \<Rightarrow> stream_config" where
  "with_stream_format f b = b\<lparr>stc_format := f\<rparr>"

definition with_max_stream_length :: "u64 \<Rightarrow> stream_config \<Rightarrow> stream_config" where
  "with_max_stream_length n b = b\<lparr>stc_max_stream_length := n\<rparr>"

definition with_approximate_trimming :: "bool \<Rightarrow> stream_config \<Rightarrow> stream_config" where
  "with_approximate_trimming x b = b\<lparr>stc_approximate_trimming := x\<rparr>"

definition with_include_timestamp :: "bool \<Rightarrow> stream_config \<Rightarrow> stream_config" where
  "with_include_timestamp x b = b\<lparr>stc_include_timestamp := x\<rparr>"

definition with_topic_prefix :: "string \<Rightarrow> stream_config \<Rightarrow> stream_config" where
  "with_topic_prefix s b = b\<lparr>stc_topic_prefix := s\<rparr>"

definition with_data_field :: "string \<Rightarrow> stream_config \<Rightarrow> stream_config" where
  "with_data_field s b = b\<lparr>stc_data_field := s\<rparr>"

definition with_format_field :: "string \<Rightarrow> stream_config \<Rightarrow> stream_config" where
  "with_format_field s b = b\<lparr>stc_format_field := s\<rparr>"

record stream_stats =
  sst_messages_published :: u64
  sst_bytes_serialized :: u64
  sst_xadd_commands :: u64
  sst_serialization_errors :: u64
  sst_publish_errors :: u64
  sst_avg_publish_latency_us :: f64
  sst_last_publish :: "i64 option"

definition stream_stats_default :: stream_stats where
  "stream_stats_default =
     \<lparr>sst_messages_published = 0, sst_bytes_serialized = 0, sst_xadd_commands = 0, sst_serialization_errors = 0,
      sst_publish_errors = 0, sst_avg_publish_latency_us = FFin 0, sst_last_publish = None\<rparr>"

definition stream_stats_reset :: "stream_stats \<Rightarrow> stream_stats" where
  "stream_stats_reset s = stream_stats_default"

definition stream_update_latency :: "f64 \<Rightarrow> stream_stats \<Rightarrow> stream_stats" where
  "stream_update_latency us s =
     (let alpha = f64_of_rat (2 / 10) in
      s\<lparr>sst_avg_publish_latency_us :=
          f64_mul_add alpha us (f64_mul (f64_sub (FFin 1) alpha) (sst_avg_publish_latency_us s))\<rparr>)"

record publish_result =
  pbr_message_id :: string
  pbr_topic :: string
  pbr_data_size :: usize
  pbr_latency_us :: u64

section \<open>Redis\<close>

text \<open>The shared pool, and the commands sent over its connections. A command is a list of arguments.\<close>

record redis_link =
  rlk_pool :: redis_pool
  rlk_sent :: "bytes list list"

definition link_take :: "acquired \<Rightarrow> redis_link \<Rightarrow> (unit, 'x pool_error) result \<times> redis_link" where
  "link_take aq k = (case pool_get aq (rlk_pool k) of (r, p) \<Rightarrow> (r, k\<lparr>rlk_pool := p\<rparr>))"

definition link_send :: "bytes list \<Rightarrow> redis_link \<Rightarrow> redis_link" where
  "link_send cmd k = k\<lparr>rlk_sent := rlk_sent k @ [cmd]\<rparr>"

definition link_release :: "redis_link \<Rightarrow> redis_link" where
  "link_release k = k\<lparr>rlk_pool := connection_drop (rlk_pool k)\<rparr>"

definition maxlen_args :: "bool \<Rightarrow> u64 \<Rightarrow> bytes list" where
  "maxlen_args approximate n =
     (if n > 0 then [as_bytes ''MAXLEN''] @ (if approximate then [as_bytes ''~''] else []) @ [as_bytes (show_nat (unat n))]
      else [])"

definition stream_xadd_command :: "stream_config \<Rightarrow> string \<Rightarrow> bytes \<Rightarrow> stream_format \<Rightarrow> i64 \<Rightarrow> bytes list" where
  "stream_xadd_command c topic data format ts =
     [as_bytes ''XADD'', as_bytes topic] @ maxlen_args (stc_approximate_trimming c) (stc_max_stream_length c) @
     [as_bytes ''*''] @
     (if stc_include_timestamp c then [as_bytes ''timestamp'', as_bytes (show_int (sint ts))] else []) @
     [as_bytes (stc_format_field c), as_bytes (stream_format_as_str format), as_bytes (stc_data_field c), data]"

section \<open>The publisher\<close>

record stream_publisher =
  spb_config :: stream_config
  spb_stats :: stream_stats
  spb_topic_builder :: topic_builder

definition stream_publisher_new :: "(string \<Rightarrow> string) \<Rightarrow> stream_config \<Rightarrow> stream_publisher" where
  "stream_publisher_new lower c =
     \<lparr>spb_config = c, spb_stats = stream_stats_default, spb_topic_builder = topic_builder_new lower (stc_topic_prefix c)\<rparr>"

definition stream_publisher_with_defaults :: "(string \<Rightarrow> string) \<Rightarrow> stream_publisher" where
  "stream_publisher_with_defaults lower = stream_publisher_new lower stream_config_default"

text \<open>\<open>serialize_book\<close> and \<open>serialize_event\<close>, with the serialisers of JSON and bincode.\<close>

definition serialized_by :: "(string \<Rightarrow> 'e) \<Rightarrow> string + bytes \<Rightarrow> (bytes, 'e) result" where
  "serialized_by f r = (case r of Inl e \<Rightarrow> Err (f e) | Inr data \<Rightarrow> Ok data)"

fun serialize_as ::
  "('a \<Rightarrow> string + bytes) \<Rightarrow> ('a \<Rightarrow> string + bytes) \<Rightarrow> stream_format \<Rightarrow> 'a \<Rightarrow> (bytes, 'x stream_error) result" where
  "serialize_as json bincode StJson v = serialized_by (SeSerializationFailed StJson) (json v)"
| "serialize_as json bincode StBincode v = serialized_by (SeSerializationFailed StBincode) (bincode v)"
| "serialize_as json bincode StRkyv v =
     serialized_by (\<lambda>e. SeSerializationFailed StRkyv (''Rkyv fallback to bincode: '' @ e)) (bincode v)"

text \<open>What one publication meets: the pool's answer, the reply, the time it took and the clock.\<close>

record 'x stream_io =
  sio_acquired :: acquired
  sio_reply :: "'x + string"
  sio_latency_us :: u64
  sio_now :: i64

definition count_publish_error :: "stream_publisher \<Rightarrow> stream_publisher" where
  "count_publish_error pub =
     pub\<lparr>spb_stats := (spb_stats pub)\<lparr>sst_publish_errors := sst_publish_errors (spb_stats pub) + 1\<rparr>\<rparr>"

definition stream_xadd ::
  "('x \<Rightarrow> string) \<Rightarrow> 'x stream_io \<Rightarrow> string \<Rightarrow> bytes \<Rightarrow> stream_format \<Rightarrow> i64 \<Rightarrow> stream_publisher \<times> redis_link \<Rightarrow>
     (string, 'x stream_error) result \<times> stream_publisher \<times> redis_link" where
  "stream_xadd show_x io topic data format ts = (\<lambda>(pub, k).
     (case link_take (sio_acquired io) k of
        (Err e, k1) \<Rightarrow> (Err (SePoolError e), pub, k1)
      | (Panic, k1) \<Rightarrow> (Panic, pub, k1)
      | (Ok u, k1) \<Rightarrow>
          let k2 = link_release (link_send (stream_xadd_command (spb_config pub) topic data format ts) k1) in
          (case sio_reply io of
             Inr message_id \<Rightarrow> (Ok message_id, pub, k2)
           | Inl x \<Rightarrow> (Err (SeXaddFailed topic (show_x x)), count_publish_error pub, k2))))"

definition count_published :: "usize \<Rightarrow> u64 \<Rightarrow> i64 \<Rightarrow> stream_stats \<Rightarrow> stream_stats" where
  "count_published n us now s =
     (stream_update_latency (f64_of_int (uint us))
       (s\<lparr>sst_messages_published := sst_messages_published s + 1,
          sst_bytes_serialized := sst_bytes_serialized s + of_nat n,
          sst_xadd_commands := sst_xadd_commands s + 1\<rparr>))\<lparr>sst_last_publish := Some now\<rparr>"

definition publish_raw ::
  "('x \<Rightarrow> string) \<Rightarrow> 'x stream_io \<Rightarrow> string \<Rightarrow> bytes \<Rightarrow> stream_format \<Rightarrow> i64 \<Rightarrow> stream_publisher \<times> redis_link \<Rightarrow>
     (publish_result, 'x stream_error) result \<times> stream_publisher \<times> redis_link" where
  "publish_raw show_x io topic data format ts st =
     (case stream_xadd show_x io topic data format ts st of
        (Ok message_id, pub, k) \<Rightarrow>
          (Ok \<lparr>pbr_message_id = message_id, pbr_topic = topic, pbr_data_size = length data,
               pbr_latency_us = sio_latency_us io\<rparr>,
           pub\<lparr>spb_stats := count_published (length data) (sio_latency_us io) (sio_now io) (spb_stats pub)\<rparr>, k)
      | (Err e, pub, k) \<Rightarrow> (Err e, pub, k)
      | (Panic, pub, k) \<Rightarrow> (Panic, pub, k))"

definition publish_serialized ::
  "('x \<Rightarrow> string) \<Rightarrow> 'x stream_io \<Rightarrow> string \<Rightarrow> (bytes, 'x stream_error) result \<Rightarrow> stream_format \<Rightarrow> i64 \<Rightarrow>
     stream_publisher \<times> redis_link \<Rightarrow> (publish_result, 'x stream_error) result \<times> stream_publisher \<times> redis_link" where
  "publish_serialized show_x io topic serialized format ts st =
     (case serialized of
        Ok data \<Rightarrow> publish_raw show_x io topic data format ts st
      | Err e \<Rightarrow> (Err e, st)
      | Panic \<Rightarrow> (Panic, st))"

definition publish_book_with_format ::
  "(string \<Rightarrow> string) \<Rightarrow> ('x \<Rightarrow> string) \<Rightarrow> ('q book_snapshot \<Rightarrow> string + bytes) \<Rightarrow>
     ('q book_snapshot \<Rightarrow> string + bytes) \<Rightarrow> 'x stream_io \<Rightarrow> 'q book_snapshot \<Rightarrow> stream_format \<Rightarrow>
     stream_publisher \<times> redis_link \<Rightarrow> (publish_result, 'x stream_error) result \<times> stream_publisher \<times> redis_link" where
  "publish_book_with_format lower show_x json bincode io s format st =
     publish_serialized show_x io
       (topic_for_instrument lower (spb_topic_builder (fst st)) (bsn_instrument s) TtBook)
       (serialize_as json bincode format s) format (bsn_timestamp s) st"

definition publish_book ::
  "(string \<Rightarrow> string) \<Rightarrow> ('x \<Rightarrow> string) \<Rightarrow> ('q book_snapshot \<Rightarrow> string + bytes) \<Rightarrow>
     ('q book_snapshot \<Rightarrow> string + bytes) \<Rightarrow> 'x stream_io \<Rightarrow> 'q book_snapshot \<Rightarrow>
     stream_publisher \<times> redis_link \<Rightarrow> (publish_result, 'x stream_error) result \<times> stream_publisher \<times> redis_link" where
  "publish_book lower show_x json bincode io s st =
     publish_book_with_format lower show_x json bincode io s (stc_format (spb_config (fst st))) st"

definition publish_event_with_format ::
  "(string \<Rightarrow> string) \<Rightarrow> ('x \<Rightarrow> string) \<Rightarrow> ('q market_event \<Rightarrow> string + bytes) \<Rightarrow>
     ('q market_event \<Rightarrow> string + bytes) \<Rightarrow> 'x stream_io \<Rightarrow> 'q market_event \<Rightarrow> stream_format \<Rightarrow>
     stream_publisher \<times> redis_link \<Rightarrow> (publish_result, 'x stream_error) result \<times> stream_publisher \<times> redis_link" where
  "publish_event_with_format lower show_x json bincode io e format st =
     publish_serialized show_x io
       (topic_for_instrument lower (spb_topic_builder (fst st)) (mev_instrument e)
          (case mev_data e of MdBook _ _ \<Rightarrow> TtBook | MdTrade _ _ _ _ \<Rightarrow> TtTrade | MdHeartbeat _ \<Rightarrow> TtEvent))
       (serialize_as json bincode format e) format (mev_timestamp e) st"

definition publish_event ::
  "(string \<Rightarrow> string) \<Rightarrow> ('x \<Rightarrow> string) \<Rightarrow> ('q market_event \<Rightarrow> string + bytes) \<Rightarrow>
     ('q market_event \<Rightarrow> string + bytes) \<Rightarrow> 'x stream_io \<Rightarrow> 'q market_event \<Rightarrow>
     stream_publisher \<times> redis_link \<Rightarrow> (publish_result, 'x stream_error) result \<times> stream_publisher \<times> redis_link" where
  "publish_event lower show_x json bincode io e st =
     publish_event_with_format lower show_x json bincode io e (stc_format (spb_config (fst st))) st"

definition publish_health ::
  "(string \<Rightarrow> string) \<Rightarrow> ('x \<Rightarrow> string) \<Rightarrow> 'x stream_io \<Rightarrow> i64 \<Rightarrow> stream_publisher \<times> redis_link \<Rightarrow>
     (publish_result, 'x stream_error) result \<times> stream_publisher \<times> redis_link" where
  "publish_health lower show_x io ts st =
     publish_raw show_x io (system_topic lower ''health'')
       (as_bytes (''{\"ts\":'' @ show_int (sint ts) @ ''}'')) StJson ts st"

definition stream_reset_stats :: "stream_publisher \<Rightarrow> stream_publisher" where
  "stream_reset_stats pub = pub\<lparr>spb_stats := stream_stats_reset (spb_stats pub)\<rparr>"

section \<open>What a reader of the stream finds\<close>

text \<open>\<open>XADD key [MAXLEN [~] n] * field value ...\<close>: the key, the limit and the fields of a command.\<close>

fun argument_pairs :: "'a list \<Rightarrow> ('a \<times> 'a) list" where
  "argument_pairs (a # b # rest) = (a, b) # argument_pairs rest"
| "argument_pairs _ = []"

definition xadd_limit :: "bytes list \<Rightarrow> bytes option \<times> bytes list" where
  "xadd_limit args =
     (case args of
        m # n # rest \<Rightarrow>
          if m \<noteq> as_bytes ''MAXLEN'' then (None, args)
          else if n = as_bytes ''~'' then (case rest of v # args2 \<Rightarrow> (Some v, args2) | [] \<Rightarrow> (None, []))
          else (Some n, rest)
      | _ \<Rightarrow> (None, args))"

fun xadd_entry :: "bytes list \<Rightarrow> (bytes \<times> bytes option \<times> (bytes \<times> bytes) list) option" where
  "xadd_entry (name # key # args) =
     (if name \<noteq> as_bytes ''XADD'' then None
      else
        (case xadd_limit args of
           (limit, star # fvs) \<Rightarrow>
             if star = as_bytes ''*'' \<and> even (length fvs) then Some (key, limit, argument_pairs fvs) else None
         | _ \<Rightarrow> None))"
| "xadd_entry _ = None"

lemma as_bytes_eq_iff [simp]: "as_bytes s = as_bytes t \<longleftrightarrow> s = t"
  by (metis chars_of_as_bytes)

lemma show_nat_digits: "\<forall>c\<in>set (show_nat n). \<exists>d<10. c = digit_char d"
proof (induction n rule: show_nat.induct)
  case (1 n)
  have "\<exists>d<10. digit_char (n mod 10) = digit_char d" by (intro exI [of _ "n mod 10"]) simp
  with 1 show ?case by (cases "n < 10") (auto simp: show_nat_small show_nat_large)
qed

lemma show_nat_not_tilde: "show_nat n \<noteq> ''~''"
proof
  assume "show_nat n = ''~''"
  then obtain d where "d < 10" "CHR ''~'' = digit_char d" using show_nat_digits [of n] by auto
  then have "(of_char (CHR ''~'') :: nat) = of_char (digit_char d)" "d < 16" by simp_all
  then show False using \<open>d < 10\<close> by (simp add: of_char_digit_char)
qed

lemma xadd_limit_maxlen:
  "xadd_limit (maxlen_args approximate n @ as_bytes ''*'' # fvs) =
     ((if n > 0 then Some (as_bytes (show_nat (unat n))) else None), as_bytes ''*'' # fvs)"
  by (cases fvs) (simp_all add: xadd_limit_def maxlen_args_def show_nat_not_tilde)



section \<open>Counting publications\<close>

datatype ('q, 'x) stream_job =
    SjBook "'x stream_io" "'q book_snapshot" stream_format
  | SjEvent "'x stream_io" "'q market_event" stream_format
  | SjRaw "'x stream_io" string bytes stream_format i64
  | SjHealth "'x stream_io" i64

text \<open>The printer and the serialisers.\<close>

record ('q, 'x) stream_world =
  swd_lower :: "string \<Rightarrow> string"
  swd_show :: "'x \<Rightarrow> string"
  swd_book_json :: "'q book_snapshot \<Rightarrow> string + bytes"
  swd_book_bincode :: "'q book_snapshot \<Rightarrow> string + bytes"
  swd_event_json :: "'q market_event \<Rightarrow> string + bytes"
  swd_event_bincode :: "'q market_event \<Rightarrow> string + bytes"

fun stream_do ::
  "('q, 'x) stream_world \<Rightarrow> ('q, 'x) stream_job \<Rightarrow> stream_publisher \<times> redis_link \<Rightarrow>
     (publish_result, 'x stream_error) result \<times> stream_publisher \<times> redis_link" where
  "stream_do w (SjBook io s format) =
     publish_book_with_format (swd_lower w) (swd_show w) (swd_book_json w) (swd_book_bincode w) io s format"
| "stream_do w (SjEvent io e format) =
     publish_event_with_format (swd_lower w) (swd_show w) (swd_event_json w) (swd_event_bincode w) io e format"
| "stream_do w (SjRaw io topic data format ts) = publish_raw (swd_show w) io topic data format ts"
| "stream_do w (SjHealth io ts) = publish_health (swd_lower w) (swd_show w) io ts"

fun stream_run ::
  "('q, 'x) stream_world \<Rightarrow> ('q, 'x) stream_job list \<Rightarrow> stream_publisher \<times> redis_link \<Rightarrow>
     (publish_result, 'x stream_error) result list \<times> stream_publisher \<times> redis_link" where
  "stream_run w [] st = ([], st)"
| "stream_run w (j # js) st =
     (case stream_do w j st of (r, st1) \<Rightarrow> case stream_run w js st1 of (rs, st2) \<Rightarrow> (r # rs, st2))"

fun is_published :: "(publish_result, 'x stream_error) result \<Rightarrow> bool" where
  "is_published (Ok v) = True"
| "is_published r = False"

fun is_refused :: "(publish_result, 'x stream_error) result \<Rightarrow> bool" where
  "is_refused (Err (SeXaddFailed topic e)) = True"
| "is_refused r = False"

fun published_size :: "(publish_result, 'x stream_error) result \<Rightarrow> nat" where
  "published_size (Ok v) = pbr_data_size v"
| "published_size r = 0"

text \<open>What one publication changes.\<close>

definition stream_effect ::
  "(publish_result, 'x stream_error) result \<Rightarrow> stream_publisher \<times> redis_link \<Rightarrow> stream_publisher \<times> redis_link \<Rightarrow> bool" where
  "stream_effect r st st' \<longleftrightarrow>
     (let s = spb_stats (fst st); s' = spb_stats (fst st') in
      sst_messages_published s' = sst_messages_published s + of_bool (is_published r) \<and>
      sst_xadd_commands s' = sst_xadd_commands s + of_bool (is_published r) \<and>
      sst_publish_errors s' = sst_publish_errors s + of_bool (is_refused r) \<and>
      sst_bytes_serialized s' = sst_bytes_serialized s + of_nat (published_size r) \<and>
      sst_serialization_errors s' = sst_serialization_errors s \<and>
      length (rlk_sent (snd st')) = length (rlk_sent (snd st)) + of_bool (is_published r) + of_bool (is_refused r) \<and>
      pst_in_use_connections (rpl_stats (rlk_pool (snd st'))) = pst_in_use_connections (rpl_stats (rlk_pool (snd st))))"

lemmas link_defs = link_take_def link_send_def link_release_def pool_get_def connection_drop_def put_stats_def
  count_acquired_def

lemma publish_raw_effect:
  "publish_raw show_x io topic data format ts st = (r, st') \<Longrightarrow> stream_effect r st st'"
  by (cases st; cases "sio_acquired io")
    (auto simp: publish_raw_def stream_xadd_def link_defs stream_effect_def count_published_def stream_update_latency_def
      count_publish_error_def Let_def split: if_splits sum.splits)

lemma serialize_as_cases:
  fixes json :: "'v \<Rightarrow> string + bytes"
  shows "(\<exists>data. serialize_as json bincode format v = (Ok data :: (bytes, 'x stream_error) result)) \<or>
   (\<exists>f e. serialize_as json bincode format v = (Err (SeSerializationFailed f e) :: (bytes, 'x stream_error) result))"
  by (cases format; cases "json v"; cases "bincode v") (simp_all add: serialized_by_def)

lemma publish_serialized_effect:
  fixes show_x :: "'x \<Rightarrow> string" and json :: "'v \<Rightarrow> string + bytes"
  assumes "publish_serialized show_x io topic (serialize_as json bincode format v) format ts st = (r, st')"
  shows "stream_effect r st st'"
proof (cases "serialize_as json bincode format v :: (bytes, 'x stream_error) result")
  case (Ok data)
  with assms show ?thesis by (intro publish_raw_effect) (simp add: publish_serialized_def)
next
  case (Err e)
  then obtain f t where "e = SeSerializationFailed f t"
    using serialize_as_cases [where 'v = 'v and 'x = 'x, of json bincode format v] by auto
  with assms Err show ?thesis by (auto simp: publish_serialized_def stream_effect_def Let_def)
next
  case Panic
  then show ?thesis using serialize_as_cases [where 'v = 'v and 'x = 'x, of json bincode format v] by auto
qed

lemma stream_do_effect: "stream_do w j st = (r, st') \<Longrightarrow> stream_effect r st st'"
  by (cases j)
    (simp_all add: publish_book_with_format_def publish_event_with_format_def publish_health_def
      publish_serialized_effect publish_raw_effect del: split_paired_All split_paired_Ex)

lemma stream_run_effect:
  assumes "stream_run w js st = (rs, st')"
  shows "let s = spb_stats (fst st); s' = spb_stats (fst st') in
      sst_messages_published s' = sst_messages_published s + of_nat (length (filter is_published rs)) \<and>
      sst_xadd_commands s' = sst_xadd_commands s + of_nat (length (filter is_published rs)) \<and>
      sst_publish_errors s' = sst_publish_errors s + of_nat (length (filter is_refused rs)) \<and>
      sst_bytes_serialized s' = sst_bytes_serialized s + of_nat (sum_list (map published_size rs)) \<and>
      sst_serialization_errors s' = sst_serialization_errors s \<and>
      length (rlk_sent (snd st')) =
        length (rlk_sent (snd st)) + length (filter is_published rs) + length (filter is_refused rs) \<and>
      pst_in_use_connections (rpl_stats (rlk_pool (snd st'))) = pst_in_use_connections (rpl_stats (rlk_pool (snd st)))"
  using assms
proof (induction js arbitrary: st rs)
  case (Cons j js)
  obtain r st1 where one: "stream_do w j st = (r, st1)" by (cases "stream_do w j st")
  obtain rest st2 where run: "stream_run w js st1 = (rest, st2)" by (cases "stream_run w js st1")
  have eqs: "rs = r # rest" "st2 = st'" using Cons.prems by (simp_all add: one run)
  show ?case
    using stream_do_effect [OF one] Cons.IH [OF run [unfolded eqs(2)]]
    by (cases "is_published r"; cases "is_refused r") (simp_all add: eqs stream_effect_def Let_def)
qed simp

text \<open>
  For any publications of books, events, raw data and health from a new publisher: the
  results say what was counted and sent. Published messages and bytes are counted exactly, an
  error is counted for each command Redis refused, one command is sent for each of
  these and none otherwise, every connection is given back, and no serialisation error is ever counted.
\<close>

theorem stream_publications_counted:
  assumes "stream_run w js (stream_publisher_new lower c, k) = (rs, pub, k')"
  shows "sst_messages_published (spb_stats pub) = of_nat (length (filter is_published rs)) \<and>
    sst_publish_errors (spb_stats pub) = of_nat (length (filter is_refused rs)) \<and>
    sst_bytes_serialized (spb_stats pub) = of_nat (sum_list (map published_size rs)) \<and>
    sst_serialization_errors (spb_stats pub) = 0 \<and>
    length (rlk_sent k') = length (rlk_sent k) + length (filter is_published rs) + length (filter is_refused rs) \<and>
    pst_in_use_connections (rpl_stats (rlk_pool k')) = pst_in_use_connections (rpl_stats (rlk_pool k))"
  using stream_run_effect [OF assms] by (simp add: Let_def stream_publisher_new_def stream_stats_default_def)

definition sample_link :: redis_link where
  "sample_link =
     \<lparr>rlk_pool =
        \<lparr>rpl_config = pool_config_default, rpl_stats = pool_stats_default, rpl_health = pool_health_default,
         rpl_closed = False, rpl_inner_closed = False\<rparr>,
      rlk_sent = []\<rparr>"

definition sample_io :: "'x + string \<Rightarrow> 'x stream_io" where
  "sample_io reply =
     \<lparr>sio_acquired = AqConnection \<lparr>ins_size = 1, ins_available = 0\<rparr>, sio_reply = reply, sio_latency_us = 9, sio_now = 5\<rparr>"

definition sample_world :: "(int, string) stream_world" where
  "sample_world =
     \<lparr>swd_lower = (\<lambda>s. s), swd_show = (\<lambda>s. s), swd_book_json = (\<lambda>s. Inl ''no''), swd_book_bincode = (\<lambda>s. Inr []),
      swd_event_json = (\<lambda>e. Inr []), swd_event_bincode = (\<lambda>e. Inr [])\<rparr>"

definition sample_jobs :: "(int, string) stream_job list" where
  "sample_jobs =
     [SjRaw (sample_io (Inr ''1-0'')) ''t'' [1, 2] StJson 5, SjRaw (sample_io (Inl ''OOM'')) ''t'' [3] StJson 5,
      SjHealth (sample_io (Inr ''2-0'')) 7]"

lemma sample_results:
  "\<exists>a b pub k. stream_run sample_world sample_jobs (stream_publisher_new (\<lambda>s. s) stream_config_default, sample_link) =
     ([Ok a, Err (SeXaddFailed ''t'' ''OOM''), Ok b], pub, k)"
  by (simp add: sample_jobs_def sample_world_def publish_raw_def publish_health_def stream_xadd_def link_defs
      count_publish_error_def sample_link_def sample_io_def Let_def split: prod.split)

theorem stream_publications_counted_witness:
  "\<exists>rs pub k. stream_run sample_world sample_jobs (stream_publisher_new (\<lambda>s. s) stream_config_default, sample_link) = (rs, pub, k) \<and>
     sst_messages_published (spb_stats pub) = 2 \<and> length (rlk_sent k) = 3"
proof -
  obtain a b pub k where run:
    "stream_run sample_world sample_jobs (stream_publisher_new (\<lambda>s. s) stream_config_default, sample_link) =
       ([Ok a, Err (SeXaddFailed ''t'' ''OOM''), Ok b], pub, k)"
    using sample_results by blast
  show ?thesis
    using stream_publications_counted [OF run] run by (simp add: sample_link_def)
qed

end
