(* ===== verification/Fusion.thy ===== *)
theory Fusion
  imports Oanda_Stream
begin

text \<open>
  \<open>flash/src/fusion/mod.rs\<close>: trading signals derived from order-book snapshots.
  The conversion of a decimal quantity to a double (print, then parse, zero on failure) is the
  parameter \<open>qty\<close>; identifiers and time stamps are generated by libraries and are arguments,
  their syntax checks are parameters of \<open>alpha_signal_validate\<close>.
\<close>

section \<open>Directions\<close>

definition FUSION_TOPIC_PREFIX :: string where
  "FUSION_TOPIC_PREFIX = ''astra:signals:flash''"

definition SOURCE_STRATEGY :: string where
  "SOURCE_STRATEGY = ''flash''"

datatype signal_direction = SdLong | SdShort | SdNeutral

fun signal_direction_as_str :: "signal_direction \<Rightarrow> string" where
  "signal_direction_as_str SdLong = ''LONG''"
| "signal_direction_as_str SdShort = ''SHORT''"
| "signal_direction_as_str SdNeutral = ''NEUTRAL''"

definition IMBALANCE_LONG_THRESHOLD :: f64 where
  "IMBALANCE_LONG_THRESHOLD = f64_of_rat (1 / 10)"

definition IMBALANCE_SHORT_THRESHOLD :: f64 where
  "IMBALANCE_SHORT_THRESHOLD = f64_of_rat (- (1 / 10))"

definition direction_from_imbalance :: "f64 \<Rightarrow> signal_direction" where
  "direction_from_imbalance x =
     (if f64_less IMBALANCE_LONG_THRESHOLD x then SdLong
      else if f64_less x IMBALANCE_SHORT_THRESHOLD then SdShort
      else SdNeutral)"

section \<open>Signals\<close>

text \<open>The object built with \<open>json!\<close>.\<close>

record signal_extra =
  sx_bid_depth :: f64
  sx_ask_depth :: f64
  sx_best_bid :: "f64 option"
  sx_best_ask :: "f64 option"
  sx_spread :: "f64 option"
  sx_imbalance :: f64
  sx_bid_levels :: usize
  sx_ask_levels :: usize
  sx_exchange :: string

record alpha_metadata =
  am_source_strategy :: string
  am_confidence :: f64
  am_regime :: "string option"
  am_raw_direction :: "f64 option"
  am_extra :: "signal_extra option"

definition alpha_metadata_new :: "f64 \<Rightarrow> alpha_metadata" where
  "alpha_metadata_new confidence =
     \<lparr>am_source_strategy = SOURCE_STRATEGY, am_confidence = f64_clamp confidence 0 1, am_regime = None,
      am_raw_direction = None, am_extra = None\<rparr>"

definition with_regime :: "string \<Rightarrow> alpha_metadata \<Rightarrow> alpha_metadata" where
  "with_regime r d = d\<lparr>am_regime := Some r\<rparr>"

definition with_raw_direction :: "f64 \<Rightarrow> alpha_metadata \<Rightarrow> alpha_metadata" where
  "with_raw_direction x d = d\<lparr>am_raw_direction := Some (f64_clamp x (- 1) 1)\<rparr>"

definition with_extra :: "signal_extra \<Rightarrow> alpha_metadata \<Rightarrow> alpha_metadata" where
  "with_extra e d = d\<lparr>am_extra := Some e\<rparr>"

definition alpha_metadata_default :: alpha_metadata where
  "alpha_metadata_default = alpha_metadata_new (FFin (1 / 2))"

record alpha_signal =
  as_signal_id :: string
  as_timestamp :: string
  as_symbol :: string
  as_signal :: signal_direction
  as_strength :: f64
  as_metadata :: alpha_metadata

definition alpha_signal_new :: "string \<Rightarrow> string \<Rightarrow> string \<Rightarrow> signal_direction \<Rightarrow> f64 \<Rightarrow> f64 \<Rightarrow> alpha_signal" where
  "alpha_signal_new uuid stamp symbol d strength confidence =
     \<lparr>as_signal_id = uuid, as_timestamp = stamp, as_symbol = symbol, as_signal = d,
      as_strength = f64_clamp strength 0 1, as_metadata = alpha_metadata_new confidence\<rparr>"

fun f64_abs :: "f64 \<Rightarrow> f64" where
  "f64_abs FNaN = FNaN"
| "f64_abs (FInf s) = FInf False"
| "f64_abs (FFin r) = FFin \<bar>r\<bar>"

text \<open>\<open>iter().map(..).sum::<f64>()\<close>.\<close>

definition side_total :: "('q \<Rightarrow> f64) \<Rightarrow> 'q price_level list \<Rightarrow> f64" where
  "side_total qty levels = fold (\<lambda>l total. f64_add total (qty (pl_quantity l))) levels (FFin 0)"

definition book_imbalance :: "f64 \<Rightarrow> f64 \<Rightarrow> f64" where
  "book_imbalance bid ask =
     (if f64_gt (f64_add bid ask) 0 then f64_div (f64_sub bid ask) (f64_add bid ask) else FFin 0)"

definition best_price :: "'q price_level list \<Rightarrow> f64 option" where
  "best_price levels = (case levels of [] \<Rightarrow> None | l # _ \<Rightarrow> Some (pl_price l))"

definition price_spread :: "f64 option \<Rightarrow> f64 option \<Rightarrow> f64 option" where
  "price_spread bid ask = (case (bid, ask) of (Some b, Some a) \<Rightarrow> Some (f64_sub a b) | _ \<Rightarrow> None)"

definition pair_symbol :: "flash_instrument \<Rightarrow> string" where
  "pair_symbol i = fi_base i @ ''_'' @ fi_quote i"

definition signal_from_book_snapshot ::
  "('q \<Rightarrow> f64) \<Rightarrow> string \<Rightarrow> string \<Rightarrow> 'q book_snapshot \<Rightarrow> f64 \<Rightarrow> alpha_signal" where
  "signal_from_book_snapshot qty uuid stamp s confidence =
     (let bid = side_total qty (bsn_bids s); ask = side_total qty (bsn_asks s);
          imbalance = book_imbalance bid ask;
          best_bid = best_price (bsn_bids s); best_ask = best_price (bsn_asks s) in
      \<lparr>as_signal_id = uuid, as_timestamp = stamp, as_symbol = pair_symbol (bsn_instrument s),
       as_signal = direction_from_imbalance imbalance,
       as_strength = f64_min (f64_abs imbalance) (FFin 1),
       as_metadata =
         with_extra
           \<lparr>sx_bid_depth = bid, sx_ask_depth = ask, sx_best_bid = best_bid, sx_best_ask = best_ask,
            sx_spread = price_spread best_bid best_ask, sx_imbalance = imbalance,
            sx_bid_levels = length (bsn_bids s), sx_ask_levels = length (bsn_asks s),
            sx_exchange = flash_exchange_as_str (fi_exchange (bsn_instrument s))\<rparr>
           (with_raw_direction imbalance (alpha_metadata_new confidence))\<rparr>)"

definition alpha_signal_validate ::
  "(string \<Rightarrow> bool) \<Rightarrow> (string \<Rightarrow> bool) \<Rightarrow> alpha_signal \<Rightarrow> (unit, string) result" where
  "alpha_signal_validate uuid_ok stamp_ok s =
     (if \<not> uuid_ok (as_signal_id s) then Err ''signal_id must be a valid UUID''
      else if \<not> stamp_ok (as_timestamp s) then Err ''timestamp must be ISO-8601 format''
      else if as_symbol s = [] then Err ''symbol cannot be empty''
      else if \<not> f64_in_range 0 1 (as_strength s) then Err ''strength must be between 0.0 and 1.0''
      else if \<not> f64_in_range 0 1 (am_confidence (as_metadata s)) then Err ''confidence must be between 0.0 and 1.0''
      else if am_source_strategy (as_metadata s) = [] then Err ''source_strategy cannot be empty''
      else Ok ())"

definition signal_topic :: "flash_exchange \<Rightarrow> alpha_signal \<Rightarrow> string" where
  "signal_topic x s = FUSION_TOPIC_PREFIX @ '':'' @ flash_exchange_as_str x @ '':'' @ as_symbol s"

definition build_fusion_topic :: "flash_instrument \<Rightarrow> string" where
  "build_fusion_topic i =
     FUSION_TOPIC_PREFIX @ '':'' @ flash_exchange_as_str (fi_exchange i) @ '':'' @ fi_base i @ ''_'' @ fi_quote i"

section \<open>Signals of real books are well formed\<close>

text \<open>Quantities below \<open>2 ^ 96\<close>, as decimals are, and at most \<open>2 ^ 52\<close> levels a side.\<close>

definition quantities_real :: "('q \<Rightarrow> f64) \<Rightarrow> 'q price_level list \<Rightarrow> bool" where
  "quantities_real qty levels \<longleftrightarrow>
     length levels \<le> 2 ^ 52 \<and> (\<forall>l\<in>set levels. f64_in_range 0 (2 ^ 96) (qty (pl_quantity l)))"

lemma dyadic_block: "n \<le> 2 ^ 53 \<Longrightarrow> dyadic (of_nat n * 2 ^ 96)"
proof -
  assume "n \<le> 2 ^ 53"
  then have "\<bar>int n\<bar> \<le> 2 ^ 53" by simp
  moreover have "of_nat n * 2 ^ 96 = of_int (int n) * pow2 96" by (simp add: pow2_def)
  ultimately show ?thesis unfolding dyadic_def by (intro exI [of _ "int n"] exI [of _ 96]) simp
qed

lemma block_small: "n \<le> 2 ^ 53 \<Longrightarrow> (of_nat n * 2 ^ 96 :: rat) \<le> 2 ^ 149"
proof -
  assume "n \<le> 2 ^ 53"
  then have "(of_nat n :: rat) \<le> of_nat (2 ^ 53)" by (simp only: of_nat_le_iff)
  then have "(of_nat n * 2 ^ 96 :: rat) \<le> of_nat (2 ^ 53) * 2 ^ 96" by (rule mult_right_mono) simp
  then show ?thesis by simp
qed

lemma total_bounded:
  assumes "\<forall>l\<in>set levels. f64_in_range 0 (2 ^ 96) (qty (pl_quantity l))"
    and "0 \<le> t" "t \<le> of_nat n * 2 ^ 96" "n + length levels \<le> 2 ^ 53"
  shows "\<exists>r. fold (\<lambda>l total. f64_add total (qty (pl_quantity l))) levels (FFin t) = FFin r \<and>
    0 \<le> r \<and> r \<le> of_nat (n + length levels) * 2 ^ 96"
  using assms
proof (induction levels arbitrary: t n)
  case Nil
  then show ?case by simp
next
  case (Cons l levels)
  obtain q where q: "qty (pl_quantity l) = FFin q" "0 \<le> q" "q \<le> 2 ^ 96"
    using Cons.prems(1) by (auto simp: f64_in_range_iff)
  have n: "Suc n \<le> 2 ^ 53" using Cons.prems(4) by simp
  have sum: "0 \<le> t + q" "t + q \<le> of_nat (Suc n) * 2 ^ 96"
    using Cons.prems(2,3) q by (simp_all add: algebra_simps)
  have "(of_nat (Suc n) * 2 ^ 96 :: rat) < 2 ^ 1024"
    using block_small [OF n] by (rule le_less_trans) simp
  then obtain r where r: "f64_of_rat (t + q) = FFin r" "0 \<le> r" "r \<le> of_nat (Suc n) * 2 ^ 96"
    using f64_of_rat_between [OF sum dyadic_0 dyadic_block [OF n]] by auto
  show ?case
    using Cons.IH [OF _ r(2,3)] Cons.prems(1,4) q(1) r(1) by simp
qed

lemma side_total_real:
  assumes "quantities_real qty levels"
  obtains r where "side_total qty levels = FFin r" "0 \<le> r" "r \<le> 2 ^ 148"
proof -
  have len: "length levels \<le> 2 ^ 52" using assms by (simp add: quantities_real_def)
  obtain r where r: "side_total qty levels = FFin r" "0 \<le> r" "r \<le> of_nat (length levels) * 2 ^ 96"
    using total_bounded [of levels qty 0 0] assms len by (auto simp: quantities_real_def side_total_def)
  have "(of_nat (length levels) :: rat) \<le> of_nat (2 ^ 52)" using len by (simp only: of_nat_le_iff)
  then have "(of_nat (length levels) * 2 ^ 96 :: rat) \<le> of_nat (2 ^ 52) * 2 ^ 96" by (rule mult_right_mono) simp
  then show ?thesis using r that by simp
qed

lemma f64_of_rat_sign:
  assumes "\<bar>x\<bar> \<le> 2 ^ 149"
  obtains r where "f64_of_rat x = FFin r" "0 \<le> x \<Longrightarrow> 0 \<le> r" "x \<le> 0 \<Longrightarrow> r \<le> 0"
proof -
  have p: "(2 :: rat) ^ 149 < 2 ^ 1024" "- ((2 :: rat) ^ 1024) < - (2 ^ 149)" "- ((2 :: rat) ^ 1024) < 0" "(0 :: rat) < 2 ^ 1024"
    by simp_all
  have le: "x \<le> 2 ^ 149" "- (2 ^ 149) \<le> x" using assms unfolding abs_le_iff by linarith+
  show ?thesis
  proof (cases "0 \<le> x")
    case True
    obtain r where "f64_of_rat x = FFin r" "0 \<le> r"
      using f64_of_rat_between [OF True le(1) dyadic_0 dyadic_power p(3,1)] by blast
    moreover have "r \<le> 0" if "x \<le> 0"
      using that True calculation by (simp add: f64_of_rat_def)
    ultimately show ?thesis using that True by blast
  next
    case False
    have d: "dyadic (- (2 ^ 149))" unfolding dyadic_uminus by (rule dyadic_power)
    have "x \<le> 0" using False by simp
    then obtain r where "f64_of_rat x = FFin r" "r \<le> 0"
      using f64_of_rat_between [OF le(2) _ d dyadic_0 p(2,4)] by blast
    then show ?thesis using that False by simp
  qed
qed

lemma imbalance_bounded:
  assumes "0 \<le> a" "a \<le> 2 ^ 148" "0 \<le> b" "b \<le> 2 ^ 148"
  obtains r where "book_imbalance (FFin a) (FFin b) = FFin r" "- 1 \<le> r" "r \<le> 1"
    "0 < r \<longrightarrow> b < a" "r < 0 \<longrightarrow> a < b"
proof -
  have big: "\<bar>a - b\<bar> \<le> a + b" "a + b \<le> 2 ^ 149" using assms by auto
  have huge: "(2 :: rat) ^ 149 \<le> 2 ^ 1023" by simp
  obtain s where s: "f64_of_rat (a + b) = FFin s" "0 \<le> s"
    using f64_of_rat_sign [of "a + b"] assms big by auto
  show ?thesis
  proof (cases "0 < s")
    case False
    then have "book_imbalance (FFin a) (FFin b) = FFin 0" using s by (simp add: book_imbalance_def)
    then show ?thesis using that [of 0] by simp
  next
    case True
    obtain d where d: "f64_of_rat (a - b) = FFin d" "0 \<le> a - b \<Longrightarrow> 0 \<le> d" "a - b \<le> 0 \<Longrightarrow> d \<le> 0"
      using f64_of_rat_sign [of "a - b"] big by (auto simp: abs_le_iff)
    have mono: "u \<le> s" if "0 \<le> x" "x \<le> a + b" "f64_of_rat x = FFin u" for x u
      using f64_of_rat_mono [OF that(1,2)] big huge s(1) that(3) by force
    have neg: "f64_of_rat (b - a) = FFin (- d)"
      using d(1) by (auto simp: f64_of_rat_def round_pos_rounded Let_def split: if_splits)
    have "\<bar>d\<bar> \<le> s"
    proof (cases "b \<le> a")
      case True
      then show ?thesis using mono [of "a - b" d] d assms by simp
    next
      case False
      then show ?thesis using mono [of "b - a" "- d"] neg d(3) assms by simp
    qed
    then have q: "- 1 \<le> d / s" "d / s \<le> 1" using True by (auto simp: abs_le_iff field_simps)
    have one: "dyadic 1" "dyadic (- 1)" using dyadic_nat(1) [of 1] by simp_all
    obtain r where r: "f64_of_rat (d / s) = FFin r" "- 1 \<le> r" "r \<le> 1"
      using f64_of_rat_between [OF q one(2,1)] by auto
    have sign: "0 \<le> d / s \<Longrightarrow> 0 \<le> r" "d / s \<le> 0 \<Longrightarrow> r \<le> 0"
      using f64_of_rat_sign [of "d / s"] q r(1) by (force simp: abs_le_iff)+
    have "book_imbalance (FFin a) (FFin b) = FFin r"
      using s d True r by (simp add: book_imbalance_def f64_sub_def)
    moreover have "b < a" if "0 < r"
    proof (rule ccontr)
      assume "\<not> b < a"
      then have "d \<le> 0" using d(3) by simp
      then have "d / s \<le> 0" using True by (simp add: divide_nonpos_pos)
      with sign(2) that show False by simp
    qed
    moreover have "a < b" if "r < 0"
    proof (rule ccontr)
      assume "\<not> a < b"
      then have "0 \<le> d" using d(2) by simp
      then have "0 \<le> d / s" using True by simp
      with sign(1) that show False by simp
    qed
    ultimately show ?thesis using that r(2,3) by blast
  qed
qed

lemma unit_literals:
  obtains t u where "IMBALANCE_LONG_THRESHOLD = FFin t" "0 \<le> t" "IMBALANCE_SHORT_THRESHOLD = FFin u" "u \<le> 0"
proof -
  have b: "\<bar>1 / 10 :: rat\<bar> \<le> 2 ^ 149" "\<bar>- (1 / 10) :: rat\<bar> \<le> 2 ^ 149" by simp_all
  obtain t where "IMBALANCE_LONG_THRESHOLD = FFin t" "0 \<le> t"
    using f64_of_rat_sign [OF b(1)] by (auto simp: IMBALANCE_LONG_THRESHOLD_def)
  moreover obtain u where "IMBALANCE_SHORT_THRESHOLD = FFin u" "u \<le> 0"
    using f64_of_rat_sign [OF b(2)] by (auto simp: IMBALANCE_SHORT_THRESHOLD_def)
  ultimately show ?thesis using that by blast
qed


definition sample_snapshot :: "int book_snapshot" where
  "sample_snapshot = to_snapshot 5 small_book"


text \<open>A confidence that is not a number passes the clamp and makes an invalid signal.\<close>

theorem nan_confidence_invalid:
  "alpha_signal_validate (\<lambda>_. True) (\<lambda>_. True) (alpha_signal_new uuid stamp ''BTC_USD'' SdLong (FFin 1) FNaN) \<noteq> Ok ()"
  by (simp add: alpha_signal_validate_def alpha_signal_new_def alpha_metadata_new_def f64_clamp_def f64_in_range_def)

end
