(* ===== verification/Gateway.thy ===== *)
theory Gateway
  imports Fusion
begin

text \<open>
  \<open>flash/src/gateway/mod.rs\<close>: the published form of an order book. Quantities cross as
  doubles: \<open>qty\<close> is the conversion of a decimal to a double, \<open>decimal_of\<close> is
  \<open>Decimal::from_f64\<close>; \<open>show_debug\<close> and \<open>show_f64\<close> print a string or a double into a message. JSON itself
  (serde) is left out.
\<close>

record ob_level =
  obl_price :: f64
  obl_quantity :: f64

definition ob_level_new :: "f64 \<Rightarrow> f64 \<Rightarrow> ob_level" where
  "ob_level_new p q = \<lparr>obl_price = p, obl_quantity = q\<rparr>"

definition ob_level_from_price_level :: "('q \<Rightarrow> f64) \<Rightarrow> 'q price_level \<Rightarrow> ob_level" where
  "ob_level_from_price_level qty l = \<lparr>obl_price = pl_price l, obl_quantity = qty (pl_quantity l)\<rparr>"

record gateway_snapshot =
  gs_symbol :: string
  gs_exchange :: string
  gs_timestamp :: i64
  gs_bids :: "ob_level list"
  gs_asks :: "ob_level list"

definition gateway_snapshot_new ::
  "string \<Rightarrow> string \<Rightarrow> i64 \<Rightarrow> ob_level list \<Rightarrow> ob_level list \<Rightarrow> gateway_snapshot" where
  "gateway_snapshot_new symbol ex ts bids asks =
     \<lparr>gs_symbol = symbol, gs_exchange = ex, gs_timestamp = ts, gs_bids = bids, gs_asks = asks\<rparr>"

definition gateway_from_book_snapshot :: "('q \<Rightarrow> f64) \<Rightarrow> 'q book_snapshot \<Rightarrow> gateway_snapshot" where
  "gateway_from_book_snapshot qty s =
     \<lparr>gs_symbol = pair_symbol (bsn_instrument s),
      gs_exchange = flash_exchange_as_str (fi_exchange (bsn_instrument s)),
      gs_timestamp = bsn_timestamp s,
      gs_bids = map (ob_level_from_price_level qty) (bsn_bids s),
      gs_asks = map (ob_level_from_price_level qty) (bsn_asks s)\<rparr>"

definition front_price :: "ob_level list \<Rightarrow> f64 option" where
  "front_price ls = (case ls of [] \<Rightarrow> None | l # _ \<Rightarrow> Some (obl_price l))"

definition gateway_best_bid_price :: "gateway_snapshot \<Rightarrow> f64 option" where
  "gateway_best_bid_price g = front_price (gs_bids g)"

definition gateway_best_ask_price :: "gateway_snapshot \<Rightarrow> f64 option" where
  "gateway_best_ask_price g = front_price (gs_asks g)"

definition gateway_mid_price :: "gateway_snapshot \<Rightarrow> f64 option" where
  "gateway_mid_price g =
     (case (gateway_best_bid_price g, gateway_best_ask_price g) of
        (Some bid, Some ask) \<Rightarrow> Some (f64_div (f64_add bid ask) (FFin 2))
      | _ \<Rightarrow> None)"

definition gateway_spread :: "gateway_snapshot \<Rightarrow> f64 option" where
  "gateway_spread g = price_spread (gateway_best_bid_price g) (gateway_best_ask_price g)"

definition gateway_spread_bps :: "gateway_snapshot \<Rightarrow> f64 option" where
  "gateway_spread_bps g =
     (case (gateway_spread g, gateway_mid_price g) of
        (Some width, Some mid) \<Rightarrow>
          if f64_gt mid 0 then Some (f64_mul (f64_div width mid) (FFin 10000)) else None
      | _ \<Rightarrow> None)"

section \<open>Reading a published snapshot back\<close>

definition exchange_of_name :: "(string \<Rightarrow> string) \<Rightarrow> string \<Rightarrow> (flash_exchange, string) result" where
  "exchange_of_name show_debug name =
     (if name = ''oanda'' then Ok FxOanda
      else if name = ''deribit'' then Ok FxDeribit
      else if name = ''binance'' then Ok FxBinance
      else Err (''unknown exchange in published snapshot: '' @ show_debug name))"

definition split_symbol :: "(string \<Rightarrow> string) \<Rightarrow> string \<Rightarrow> (string \<times> string, string) result" where
  "split_symbol show_debug symbol =
     (case split_once (CHR ''_'') symbol of
        Some (b, q) \<Rightarrow>
          if b \<noteq> [] \<and> q \<noteq> [] then Ok (b, q)
          else Err (''published symbol is not BASE_QUOTE: '' @ show_debug symbol)
      | None \<Rightarrow> Err (''published symbol is not BASE_QUOTE: '' @ show_debug symbol))"

definition price_level_of :: "(f64 \<Rightarrow> string) \<Rightarrow> (f64 \<Rightarrow> 'q option) \<Rightarrow> i64 \<Rightarrow> ob_level \<Rightarrow> ('q price_level, string) result" where
  "price_level_of show_f64 decimal_of ts l =
     (case decimal_of (obl_quantity l) of
        None \<Rightarrow> Err (''quantity not representable: '' @ show_f64 (obl_quantity l))
      | Some q \<Rightarrow> Ok (price_level_new (obl_price l) q ts))"

text \<open>\<open>collect::<Result<_, _>>\<close>: the first error, or all values.\<close>

fun collect_results :: "('a \<Rightarrow> ('b, 'e) result) \<Rightarrow> 'a list \<Rightarrow> ('b list, 'e) result" where
  "collect_results f [] = Ok []"
| "collect_results f (x # xs) = rbind (f x) (\<lambda>y. map_ok (\<lambda>ys. y # ys) (collect_results f xs))"

definition try_into_book_snapshot ::
  "(string \<Rightarrow> string) \<Rightarrow> (f64 \<Rightarrow> string) \<Rightarrow> (f64 \<Rightarrow> 'q option) \<Rightarrow> gateway_snapshot \<Rightarrow> ('q book_snapshot, string) result" where
  "try_into_book_snapshot show_debug show_f64 decimal_of g =
     rbind (exchange_of_name show_debug (gs_exchange g)) (\<lambda>x.
     rbind (split_symbol show_debug (gs_symbol g)) (\<lambda>(b, q).
     rbind (collect_results (price_level_of show_f64 decimal_of (gs_timestamp g)) (gs_bids g)) (\<lambda>bids.
     rbind (collect_results (price_level_of show_f64 decimal_of (gs_timestamp g)) (gs_asks g)) (\<lambda>asks.
     Ok \<lparr>bsn_instrument = flash_instrument_new b q x (gs_symbol g), bsn_timestamp = gs_timestamp g,
         bsn_bids = bids, bsn_asks = asks\<rparr>))))"

text \<open>\<open>from_json\<close> stands for the JSON reader.\<close>

definition decode_published_orderbook ::
  "(bytes \<Rightarrow> (gateway_snapshot, string) result) \<Rightarrow> (string \<Rightarrow> string) \<Rightarrow> (f64 \<Rightarrow> string) \<Rightarrow> (f64 \<Rightarrow> 'q option) \<Rightarrow>
     bytes \<Rightarrow> ('q book_snapshot, string) result" where
  "decode_published_orderbook from_json show_debug show_f64 decimal_of data =
     rbind (from_json data) (try_into_book_snapshot show_debug show_f64 decimal_of)"

text \<open>\<open>windows(2)\<close> with the comparison of doubles, false for NaN.\<close>

fun windows_any :: "('a \<Rightarrow> 'a \<Rightarrow> bool) \<Rightarrow> 'a list \<Rightarrow> bool" where
  "windows_any bad (x # y # rest) \<longleftrightarrow> bad x y \<or> windows_any bad (y # rest)"
| "windows_any bad _ \<longleftrightarrow> False"

definition gateway_validate :: "gateway_snapshot \<Rightarrow> (unit, string) result" where
  "gateway_validate g =
     (if gs_symbol g = [] then Err ''symbol cannot be empty''
      else if gs_exchange g = [] then Err ''exchange cannot be empty''
      else if windows_any (\<lambda>a b. f64_less (obl_price a) (obl_price b)) (gs_bids g)
      then Err ''bids must be sorted descending by price''
      else if windows_any (\<lambda>a b. f64_less (obl_price b) (obl_price a)) (gs_asks g)
      then Err ''asks must be sorted ascending by price''
      else Ok ())"

section \<open>Published books are valid\<close>

lemma windows_any_sorted:
  "sorted_wrt R xs \<Longrightarrow> (\<And>a b. R a b \<Longrightarrow> \<not> bad (f a) (f b)) \<Longrightarrow> \<not> windows_any bad (map f xs)"
proof (induction xs rule: induct_list012)
  case (3 x y zs)
  then show ?case by simp
qed simp_all

lemma sorted_wrt_map_take: "sorted_wrt R xs \<Longrightarrow> sorted_wrt R (take n xs)"
  by (metis append_take_drop_id sorted_wrt_append)

lemma ordered_not_less: "OrderedFloat y < OrderedFloat x \<Longrightarrow> \<not> f64_less x y"
  using f64_total_less_irrefl [of x] f64_total_less_trans [of x y x] by (auto simp: f64_less_def)



section \<open>Reading back\<close>

definition quantities_exact :: "('q \<Rightarrow> f64) \<Rightarrow> (f64 \<Rightarrow> 'q option) \<Rightarrow> 'q price_level list \<Rightarrow> bool" where
  "quantities_exact qty decimal_of levels \<longleftrightarrow> (\<forall>l\<in>set levels. decimal_of (qty (pl_quantity l)) = Some (pl_quantity l))"

text \<open>What crosses the wire of a level and of an instrument.\<close>

definition published_level :: "i64 \<Rightarrow> 'q price_level \<Rightarrow> 'q price_level" where
  "published_level ts l = price_level_new (pl_price l) (pl_quantity l) ts"

lemma collect_published:
  "quantities_exact qty decimal_of levels \<Longrightarrow>
   collect_results (price_level_of show_f64 decimal_of ts) (map (ob_level_from_price_level qty) levels) =
     Ok (map (published_level ts) levels)"
  by (induction levels)
    (simp_all add: quantities_exact_def price_level_of_def ob_level_from_price_level_def published_level_def)

lemma exchange_of_as_str [simp]: "exchange_of_name show_debug (flash_exchange_as_str x) = Ok x"
  by (cases x) (simp_all add: exchange_of_name_def)

lemma split_once_pair: "c \<notin> set b \<Longrightarrow> split_once c (b @ c # q) = Some (b, q)"
  by (simp add: split_once_def takeWhile_append dropWhile_append)

definition published_form :: "'q book_snapshot \<Rightarrow> 'q book_snapshot" where
  "published_form s =
     s\<lparr>bsn_instrument := (bsn_instrument s)\<lparr>fi_raw_symbol := pair_symbol (bsn_instrument s)\<rparr>,
       bsn_bids := map (published_level (bsn_timestamp s)) (bsn_bids s),
       bsn_asks := map (published_level (bsn_timestamp s)) (bsn_asks s)\<rparr>"

text \<open>
  What another process reads from a published snapshot: prices, quantities (when the doubles
  carry them exactly), levels, exchange, base, quote and time stamp are those of the book; the exchange's own
  symbol becomes the pair and every level carries the snapshot's time. It can be read exactly when
  base and quote are there; a base with an underscore is cut at its first underscore.
\<close>

lemma published_back:
  assumes "quantities_exact qty decimal_of (bsn_bids s)" "quantities_exact qty decimal_of (bsn_asks s)"
    and "CHR ''_'' \<notin> set (fi_base (bsn_instrument s))"
  shows "if fi_base (bsn_instrument s) = [] \<or> fi_quote (bsn_instrument s) = []
    then \<exists>e. try_into_book_snapshot show_debug show_f64 decimal_of (gateway_from_book_snapshot qty s) = Err e
    else try_into_book_snapshot show_debug show_f64 decimal_of (gateway_from_book_snapshot qty s) = Ok (published_form s)"
  using split_once_pair [OF assms(3)] collect_published [OF assms(1)] collect_published [OF assms(2)]
  by (auto simp: try_into_book_snapshot_def gateway_from_book_snapshot_def split_symbol_def pair_symbol_def
      flash_instrument_new_def published_form_def)

definition whole_decimal :: "f64 \<Rightarrow> int option" where
  "whole_decimal x = (case x of FFin r \<Rightarrow> Some \<lfloor>r\<rfloor> | _ \<Rightarrow> None)"

text \<open>
  An OANDA name without an underscore makes an instrument without a quote: its books are published
  and no reader can decode them.
\<close>

theorem unsplit_oanda_name_unreadable:
  "oanda_instrument ''EURUSD'' = flash_instrument_new ''EURUSD'' [] FxOanda ''EURUSD'' \<and>
   (\<exists>e. try_into_book_snapshot show_debug show_f64 decimal_of
     (gateway_from_book_snapshot qty (to_snapshot d (book_new (oanda_instrument ''EURUSD'') c))) = Err e)"
  by (simp add: oanda_instrument_def split_once_def flash_instrument_new_def try_into_book_snapshot_def
      gateway_from_book_snapshot_def to_snapshot_def book_new_def split_symbol_def pair_symbol_def
      exchange_of_name_def)

end
