(* ===== verification/Dual_Publisher.thy ===== *)
theory Dual_Publisher
  imports Stream_Publisher Gateway
begin

text \<open>
  \<open>flash/src/publisher/dual.rs\<close>: one snapshot published twice, as an order book for the gateway and as
  a signal for Fusion. The replies of Redis, the UUID and the time stamp of the signal
  and the JSON writers are arguments.
\<close>

section \<open>Configuration and statistics\<close>

definition DEFAULT_ORDERBOOK_PREFIX :: string where
  "DEFAULT_ORDERBOOK_PREFIX = ''market:orderbook:''"

definition DEFAULT_SIGNAL_CONFIDENCE :: f64 where
  "DEFAULT_SIGNAL_CONFIDENCE = f64_of_rat (8 / 10)"

record dual_config =
  dpc_orderbook_enabled :: bool
  dpc_signal_enabled :: bool
  dpc_orderbook_key_prefix :: string
  dpc_signal_key_prefix :: string
  dpc_ttl_seconds :: u64
  dpc_format :: stream_format
  dpc_signal_confidence :: f64
  dpc_max_stream_length :: u64
  dpc_shadow_mode_enabled :: bool
  dpc_shadow_mode_namespace :: string

definition dual_config_default :: dual_config where
  "dual_config_default =
     \<lparr>dpc_orderbook_enabled = True, dpc_signal_enabled = True, dpc_orderbook_key_prefix = DEFAULT_ORDERBOOK_PREFIX,
      dpc_signal_key_prefix = FUSION_TOPIC_PREFIX, dpc_ttl_seconds = 60, dpc_format = StJson,
      dpc_signal_confidence = DEFAULT_SIGNAL_CONFIDENCE, dpc_max_stream_length = 100000,
      dpc_shadow_mode_enabled = False, dpc_shadow_mode_namespace = ''rust''\<rparr>"

definition dual_orderbook_enabled :: "bool \<Rightarrow> dual_config \<Rightarrow> dual_config" where
  "dual_orderbook_enabled x b = b\<lparr>dpc_orderbook_enabled := x\<rparr>"

definition dual_signal_enabled :: "bool \<Rightarrow> dual_config \<Rightarrow> dual_config" where
  "dual_signal_enabled x b = b\<lparr>dpc_signal_enabled := x\<rparr>"

definition dual_ttl_seconds :: "u64 \<Rightarrow> dual_config \<Rightarrow> dual_config" where
  "dual_ttl_seconds n b = b\<lparr>dpc_ttl_seconds := n\<rparr>"

definition dual_orderbook_key_prefix :: "string \<Rightarrow> dual_config \<Rightarrow> dual_config" where
  "dual_orderbook_key_prefix s b = b\<lparr>dpc_orderbook_key_prefix := s\<rparr>"

definition dual_signal_key_prefix :: "string \<Rightarrow> dual_config \<Rightarrow> dual_config" where
  "dual_signal_key_prefix s b = b\<lparr>dpc_signal_key_prefix := s\<rparr>"

definition dual_format :: "stream_format \<Rightarrow> dual_config \<Rightarrow> dual_config" where
  "dual_format f b = b\<lparr>dpc_format := f\<rparr>"

definition dual_signal_confidence :: "f64 \<Rightarrow> dual_config \<Rightarrow> dual_config" where
  "dual_signal_confidence x b = b\<lparr>dpc_signal_confidence := f64_clamp x 0 1\<rparr>"

definition dual_max_stream_length :: "u64 \<Rightarrow> dual_config \<Rightarrow> dual_config" where
  "dual_max_stream_length n b = b\<lparr>dpc_max_stream_length := n\<rparr>"

definition dual_shadow_mode_enabled :: "bool \<Rightarrow> dual_config \<Rightarrow> dual_config" where
  "dual_shadow_mode_enabled x b = b\<lparr>dpc_shadow_mode_enabled := x\<rparr>"

definition dual_shadow_mode_namespace :: "string \<Rightarrow> dual_config \<Rightarrow> dual_config" where
  "dual_shadow_mode_namespace s b = b\<lparr>dpc_shadow_mode_namespace := s\<rparr>"

record dual_stats =
  dst_orderbook_published :: u64
  dst_signals_published :: u64
  dst_total_latency_us :: u64
  dst_publish_count :: u64
  dst_publish_errors :: u64

definition dual_stats_default :: dual_stats where
  "dual_stats_default =
     \<lparr>dst_orderbook_published = 0, dst_signals_published = 0, dst_total_latency_us = 0, dst_publish_count = 0,
      dst_publish_errors = 0\<rparr>"

definition dual_avg_latency_us :: "dual_stats \<Rightarrow> f64" where
  "dual_avg_latency_us s =
     (if dst_publish_count s = 0 then FFin 0
      else f64_div (f64_of_int (uint (dst_total_latency_us s))) (f64_of_int (uint (dst_publish_count s))))"

definition dual_stats_reset :: "dual_stats \<Rightarrow> dual_stats" where
  "dual_stats_reset s = dual_stats_default"

record dual_result =
  dpr_orderbook_key :: "string option"
  dpr_signal_key :: "string option"
  dpr_orderbook_message_id :: "string option"
  dpr_signal_message_id :: "string option"
  dpr_latency_us :: u64

datatype 'x dual_error =
    DePoolError "'x pool_error"
  | DeRedisError 'x
  | DeSerializationError string
  | DeNoOutputsEnabled

section \<open>Keys\<close>

definition orderbook_key :: "flash_instrument \<Rightarrow> dual_config \<Rightarrow> string" where
  "orderbook_key i c =
     (if dpc_shadow_mode_enabled c
      then dpc_orderbook_key_prefix c @ dpc_shadow_mode_namespace c @ '':'' @ fi_base i @ ''_'' @ fi_quote i
      else dpc_orderbook_key_prefix c @ fi_base i @ ''_'' @ fi_quote i)"

definition signal_key :: "flash_instrument \<Rightarrow> dual_config \<Rightarrow> string" where
  "signal_key i c =
     (if dpc_shadow_mode_enabled c
      then dpc_signal_key_prefix c @ '':'' @ dpc_shadow_mode_namespace c @ '':'' @
           flash_exchange_as_str (fi_exchange i) @ '':'' @ fi_base i @ ''_'' @ fi_quote i
      else dpc_signal_key_prefix c @ '':'' @ flash_exchange_as_str (fi_exchange i) @ '':'' @ fi_base i @ ''_'' @ fi_quote i)"

section \<open>Publishing\<close>

record dual_publisher =
  dpb_config :: dual_config
  dpb_stats :: dual_stats

definition dual_publisher_new :: "dual_config \<Rightarrow> dual_publisher" where
  "dual_publisher_new c = \<lparr>dpb_config = c, dpb_stats = dual_stats_default\<rparr>"

definition dual_publisher_with_defaults :: dual_publisher where
  "dual_publisher_with_defaults = dual_publisher_new dual_config_default"

definition dual_xadd_command :: "dual_config \<Rightarrow> string \<Rightarrow> string \<Rightarrow> bytes list" where
  "dual_xadd_command c key data =
     [as_bytes ''XADD'', as_bytes key] @ maxlen_args True (dpc_max_stream_length c) @
     [as_bytes ''*'', as_bytes ''data'', as_bytes data, as_bytes ''format'',
      as_bytes (stream_format_as_str (dpc_format c))]"

text \<open>The conversions, and what one publication meets.\<close>

record 'q dual_world =
  dwd_qty :: "'q \<Rightarrow> f64"
  dwd_gateway_json :: "gateway_snapshot \<Rightarrow> string + string"
  dwd_signal_json :: "alpha_signal \<Rightarrow> string + string"

record 'x dual_io =
  dio_acquired :: acquired
  dio_uuid :: string
  dio_stamp :: string
  dio_orderbook_reply :: "'x + string"
  dio_signal_reply :: "'x + string"
  dio_latency_us :: u64

text \<open>One output: serialised, sent, and the reply.\<close>

definition dual_output ::
  "dual_config \<Rightarrow> string \<Rightarrow> string + string \<Rightarrow> 'x + string \<Rightarrow> redis_link \<Rightarrow> (string, 'x dual_error) result \<times> redis_link" where
  "dual_output c key json reply k =
     (case json of
        Inl e \<Rightarrow> (Err (DeSerializationError e), k)
      | Inr data \<Rightarrow>
          let k1 = link_send (dual_xadd_command c key data) k in
          (case reply of Inl x \<Rightarrow> (Err (DeRedisError x), k1) | Inr message_id \<Rightarrow> (Ok message_id, k1)))"

definition gateway_data :: "'q dual_world \<Rightarrow> 'q book_snapshot \<Rightarrow> string + string" where
  "gateway_data w s = dwd_gateway_json w (gateway_from_book_snapshot (dwd_qty w) s)"

definition signal_json :: "'q dual_world \<Rightarrow> dual_config \<Rightarrow> 'x dual_io \<Rightarrow> 'q book_snapshot \<Rightarrow> string + string" where
  "signal_json w c io s =
     dwd_signal_json w (signal_from_book_snapshot (dwd_qty w) (dio_uuid io) (dio_stamp io) s (dpc_signal_confidence c))"

definition dual_counted :: "dual_result \<Rightarrow> dual_stats \<Rightarrow> dual_stats" where
  "dual_counted r s =
     s\<lparr>dst_orderbook_published := dst_orderbook_published s + (if dpr_orderbook_key r \<noteq> None then 1 else 0),
       dst_signals_published := dst_signals_published s + (if dpr_signal_key r \<noteq> None then 1 else 0),
       dst_publish_count := dst_publish_count s + 1,
       dst_total_latency_us := dst_total_latency_us s + dpr_latency_us r\<rparr>"

text \<open>The two outputs over the connection, and the result with its keys and message ids.\<close>

definition dual_first ::
  "'q dual_world \<Rightarrow> dual_config \<Rightarrow> 'x dual_io \<Rightarrow> 'q book_snapshot \<Rightarrow> dual_result \<Rightarrow> redis_link \<Rightarrow>
     (dual_result, 'x dual_error) result \<times> redis_link" where
  "dual_first w c io s r k =
     (if dpc_orderbook_enabled c
      then
        let key = orderbook_key (bsn_instrument s) c in
        (case dual_output c key (gateway_data w s) (dio_orderbook_reply io) k of
           (Ok message_id, k1) \<Rightarrow> (Ok (r\<lparr>dpr_orderbook_key := Some key, dpr_orderbook_message_id := Some message_id\<rparr>), k1)
         | (Err e, k1) \<Rightarrow> (Err e, k1)
         | (Panic, k1) \<Rightarrow> (Panic, k1))
      else (Ok r, k))"

definition dual_second ::
  "'q dual_world \<Rightarrow> dual_config \<Rightarrow> 'x dual_io \<Rightarrow> 'q book_snapshot \<Rightarrow> dual_result \<Rightarrow> redis_link \<Rightarrow>
     (dual_result, 'x dual_error) result \<times> redis_link" where
  "dual_second w c io s r k =
     (if dpc_signal_enabled c
      then
        let key = signal_key (bsn_instrument s) c in
        (case dual_output c key (signal_json w c io s) (dio_signal_reply io) k of
           (Ok message_id, k1) \<Rightarrow> (Ok (r\<lparr>dpr_signal_key := Some key, dpr_signal_message_id := Some message_id\<rparr>), k1)
         | (Err e, k1) \<Rightarrow> (Err e, k1)
         | (Panic, k1) \<Rightarrow> (Panic, k1))
      else (Ok r, k))"

definition publish_dual ::
  "'q dual_world \<Rightarrow> 'x dual_io \<Rightarrow> 'q book_snapshot \<Rightarrow> dual_publisher \<times> redis_link \<Rightarrow>
     (dual_result, 'x dual_error) result \<times> dual_publisher \<times> redis_link" where
  "publish_dual w io s = (\<lambda>(pub, k).
     (let c = dpb_config pub;
          r0 = \<lparr>dpr_orderbook_key = None, dpr_signal_key = None, dpr_orderbook_message_id = None,
                dpr_signal_message_id = None, dpr_latency_us = 0\<rparr> in
      if \<not> dpc_orderbook_enabled c \<and> \<not> dpc_signal_enabled c then (Err DeNoOutputsEnabled, pub, k)
      else
        (case link_take (dio_acquired io) k of
           (Err e, k1) \<Rightarrow> (Err (DePoolError e), pub, k1)
         | (Panic, k1) \<Rightarrow> (Panic, pub, k1)
         | (Ok u, k1) \<Rightarrow>
             (case dual_first w c io s r0 k1 of
                (Err e, k2) \<Rightarrow> (Err e, pub, link_release k2)
              | (Panic, k2) \<Rightarrow> (Panic, pub, link_release k2)
              | (Ok r1, k2) \<Rightarrow>
                  (case dual_second w c io s r1 k2 of
                     (Err e, k3) \<Rightarrow> (Err e, pub, link_release k3)
                   | (Panic, k3) \<Rightarrow> (Panic, pub, link_release k3)
                   | (Ok r2, k3) \<Rightarrow>
                       let r = r2\<lparr>dpr_latency_us := dio_latency_us io\<rparr> in
                       (Ok r, pub\<lparr>dpb_stats := dual_counted r (dpb_stats pub)\<rparr>, link_release k3))))))"

definition dual_reset_stats :: "dual_publisher \<Rightarrow> dual_publisher" where
  "dual_reset_stats pub = pub\<lparr>dpb_stats := dual_stats_reset (dpb_stats pub)\<rparr>"

section \<open>Keys of live and shadow instances\<close>

definition colon_free :: "flash_instrument \<Rightarrow> bool" where
  "colon_free i \<longleftrightarrow> CHR '':'' \<notin> set (fi_base i) \<and> CHR '':'' \<notin> set (fi_quote i)"

abbreviation colons :: "string \<Rightarrow> nat" where
  "colons s \<equiv> count_list s (CHR '':'')"

lemma colons_none [simp]: "CHR '':'' \<notin> set s \<Longrightarrow> colons s = 0"
  by (simp add: count_notin)

lemma colons_exchange [simp]: "colons (flash_exchange_as_str x) = 0"
  by (cases x) simp_all

lemma flash_exchange_as_str_inject [simp]: "flash_exchange_as_str x = flash_exchange_as_str y \<longleftrightarrow> x = y"
  by (cases x; cases y) simp_all

lemma append_char_inject:
  "c \<notin> set a \<Longrightarrow> c \<notin> set a' \<Longrightarrow> a @ c # b = a' @ c # b' \<longleftrightarrow> a = a' \<and> b = b'"
proof (induction a arbitrary: a')
  case Nil
  then show ?case by (cases a') auto
next
  case (Cons x a)
  then show ?case by (cases a') auto
qed

text \<open>
  A shadow instance never writes to a stream of a live one with the same prefixes, for
  any names without a colon and any namespace; and with one configuration the streams of signals are told
  apart by exchange, base and quote, those of books by base and quote (when bases have no
  underscore).
\<close>

theorem stream_keys_separate:
  assumes "colon_free i" "colon_free j"
    and "dpc_orderbook_key_prefix live = dpc_orderbook_key_prefix shadow"
    and "dpc_signal_key_prefix live = dpc_signal_key_prefix shadow"
    and "\<not> dpc_shadow_mode_enabled live" "dpc_shadow_mode_enabled shadow"
    and "CHR ''_'' \<notin> set (fi_base i)" "CHR ''_'' \<notin> set (fi_base j)"
  shows "orderbook_key i live \<noteq> orderbook_key j shadow \<and> signal_key i live \<noteq> signal_key j shadow \<and>
    (orderbook_key i c = orderbook_key j c \<longleftrightarrow> fi_base i = fi_base j \<and> fi_quote i = fi_quote j) \<and>
    (signal_key i c = signal_key j c \<longleftrightarrow>
       fi_exchange i = fi_exchange j \<and> fi_base i = fi_base j \<and> fi_quote i = fi_quote j)"
proof -
  have book: "colons (orderbook_key i live) < colons (orderbook_key j shadow)"
    and sig: "colons (signal_key i live) < colons (signal_key j shadow)"
    using assms(1-6) by (simp_all add: orderbook_key_def signal_key_def colon_free_def)
  have "CHR '':'' \<notin> set (flash_exchange_as_str x)" for x by (cases x) simp_all
  note split = append_char_inject [OF this this] append_char_inject [OF assms(7,8)]
  have "orderbook_key i c = orderbook_key j c \<longleftrightarrow> fi_base i = fi_base j \<and> fi_quote i = fi_quote j"
    by (simp add: orderbook_key_def split(2))
  moreover have "signal_key i c = signal_key j c \<longleftrightarrow>
      fi_exchange i = fi_exchange j \<and> fi_base i = fi_base j \<and> fi_quote i = fi_quote j"
    by (simp add: signal_key_def split)
  ultimately show ?thesis using book sig by fastforce
qed

theorem stream_keys_separate_witness:
  "signal_key (flash_instrument_new ''BTC'' ''USD'' FxDeribit ''x'') dual_config_default \<noteq>
   signal_key (flash_instrument_new ''BTC'' ''USD'' FxDeribit ''x'') (dual_shadow_mode_enabled True dual_config_default)"
  using stream_keys_separate [of "flash_instrument_new ''BTC'' ''USD'' FxDeribit ''x''"
      "flash_instrument_new ''BTC'' ''USD'' FxDeribit ''x''" dual_config_default
      "dual_shadow_mode_enabled True dual_config_default"]
  by (simp add: colon_free_def flash_instrument_new_def dual_config_default_def dual_shadow_mode_enabled_def)

section \<open>What one publication does\<close>

text \<open>The commands of a publication that goes through.\<close>

definition dual_commands :: "'q dual_world \<Rightarrow> dual_config \<Rightarrow> 'x dual_io \<Rightarrow> 'q book_snapshot \<Rightarrow> bytes list list" where
  "dual_commands w c io s =
     (case gateway_data w s of
        Inr data \<Rightarrow> if dpc_orderbook_enabled c then [dual_xadd_command c (orderbook_key (bsn_instrument s) c) data] else []
      | Inl e \<Rightarrow> []) @
     (case signal_json w c io s of
        Inr data \<Rightarrow> if dpc_signal_enabled c then [dual_xadd_command c (signal_key (bsn_instrument s) c) data] else []
      | Inl e \<Rightarrow> [])"

fun is_ok :: "('a, 'e) result \<Rightarrow> bool" where
  "is_ok (Ok v) = True"
| "is_ok r = False"

abbreviation link_in_use :: "redis_link \<Rightarrow> nat" where
  "link_in_use k \<equiv> pst_in_use_connections (rpl_stats (rlk_pool k))"

definition dual_effect ::
  "'q dual_world \<Rightarrow> 'x dual_io \<Rightarrow> 'q book_snapshot \<Rightarrow> (dual_result, 'x dual_error) result \<Rightarrow>
     dual_publisher \<times> redis_link \<Rightarrow> dual_publisher \<times> redis_link \<Rightarrow> bool" where
  "dual_effect w io s r st st' \<longleftrightarrow>
     (let full = dual_commands w (dpb_config (fst st)) io s; c = dpb_config (fst st) in
      dpb_config (fst st') = c \<and> link_in_use (snd st') = link_in_use (snd st) \<and>
      (\<exists>piece. rlk_sent (snd st') = rlk_sent (snd st) @ piece \<and> prefix piece full \<and> (is_ok r \<longrightarrow> piece = full)) \<and>
      (if is_ok r
       then \<exists>v. dpb_stats (fst st') = dual_counted v (dpb_stats (fst st)) \<and> dpr_latency_us v = dio_latency_us io \<and>
              (dpr_orderbook_key v \<noteq> None \<longleftrightarrow> dpc_orderbook_enabled c) \<and> (dpr_signal_key v \<noteq> None \<longleftrightarrow> dpc_signal_enabled c)
       else dpb_stats (fst st') = dpb_stats (fst st)))"

lemma dual_first_cases:
  assumes "dual_first w c io s v0 k = (r, k1)"
  shows "link_in_use k1 = link_in_use k \<and>
    (\<exists>piece. rlk_sent k1 = rlk_sent k @ piece \<and> prefix piece (dual_commands w c io s) \<and>
      (\<forall>v. r = Ok v \<longrightarrow> dpr_signal_key v = dpr_signal_key v0 \<and> (dpr_orderbook_key v \<noteq> dpr_orderbook_key v0 \<longrightarrow> dpc_orderbook_enabled c) \<and>
         (dpc_orderbook_enabled c \<longrightarrow> dpr_orderbook_key v \<noteq> None) \<and>
         dual_commands w c io s = piece @ (case signal_json w c io s of
            Inr data \<Rightarrow> if dpc_signal_enabled c then [dual_xadd_command c (signal_key (bsn_instrument s) c) data] else []
          | Inl e \<Rightarrow> [])))"
  using assms
  by (auto simp: dual_first_def dual_output_def dual_commands_def link_send_def Let_def split: if_splits sum.splits)

lemma dual_second_cases:
  assumes "dual_second w c io s v0 k = (r, k1)"
  shows "link_in_use k1 = link_in_use k \<and>
    (\<exists>piece. rlk_sent k1 = rlk_sent k @ piece \<and>
      prefix piece (case signal_json w c io s of
            Inr data \<Rightarrow> if dpc_signal_enabled c then [dual_xadd_command c (signal_key (bsn_instrument s) c) data] else []
          | Inl e \<Rightarrow> []) \<and>
      (\<forall>v. r = Ok v \<longrightarrow> dpr_orderbook_key v = dpr_orderbook_key v0 \<and>
         (if dpc_signal_enabled c then dpr_signal_key v \<noteq> None else dpr_signal_key v = dpr_signal_key v0) \<and>
         piece = (case signal_json w c io s of
            Inr data \<Rightarrow> if dpc_signal_enabled c then [dual_xadd_command c (signal_key (bsn_instrument s) c) data] else []
          | Inl e \<Rightarrow> [])))"
  using assms
  by (auto simp: dual_second_def dual_output_def link_send_def Let_def split: if_splits sum.splits)

lemma link_take_cases:
  assumes "link_take aq k = (t, k1)"
  shows "rlk_sent k1 = rlk_sent k" "t = Ok u \<Longrightarrow> link_in_use k1 = Suc (link_in_use k)"
    "t = Err e \<Longrightarrow> link_in_use k1 = link_in_use k" "t \<noteq> Panic"
  using assms by (cases aq; auto simp: link_defs Let_def split: if_splits)+

lemma link_release_simps [simp]:
  "rlk_sent (link_release k) = rlk_sent k" "link_in_use (link_release k) = link_in_use k - 1"
  by (simp_all add: link_defs)

lemma publish_dual_effect:
  fixes io :: "'x dual_io"
  assumes "publish_dual w io s (pub, k) = (r, pub', k')"
  shows "dual_effect w io s r (pub, k) (pub', k')"
proof -
  let ?c = "dpb_config pub"
  let ?v0 = "\<lparr>dpr_orderbook_key = None, dpr_signal_key = None, dpr_orderbook_message_id = None,
                dpr_signal_message_id = None, dpr_latency_us = 0\<rparr>"
  obtain t k1 where take: "(link_take (dio_acquired io) k :: (unit, 'x pool_error) result \<times> redis_link) = (t, k1)"
    by (cases "link_take (dio_acquired io) k :: (unit, 'x pool_error) result \<times> redis_link")
  obtain r1 k2 where one: "(dual_first w ?c io s ?v0 k1 :: (dual_result, 'x dual_error) result \<times> redis_link) = (r1, k2)"
    by (cases "dual_first w ?c io s ?v0 k1")
  note run = assms [unfolded publish_dual_def Let_def prod.case take one]
  note taken = link_take_cases [OF take]
  show ?thesis
  proof (cases "\<not> dpc_orderbook_enabled ?c \<and> \<not> dpc_signal_enabled ?c")
    case True
    then show ?thesis using run by (auto simp: dual_effect_def Let_def)
  next
    case on: False
    show ?thesis
    proof (cases t)
      case (Err e)
      then show ?thesis using run taken(1,3) on by (auto simp: dual_effect_def Let_def)
    next
      case Panic
      then show ?thesis using taken(4) by simp
    next
      case (Ok u)
      note first = dual_first_cases [OF one]
      show ?thesis
      proof (cases r1)
        case (Ok v)
        obtain r2 k3 where two: "(dual_second w ?c io s v k2 :: (dual_result, 'x dual_error) result \<times> redis_link) = (r2, k3)"
          by (cases "dual_second w ?c io s v k2")
        note second = dual_second_cases [OF two]
        show ?thesis
        proof (cases r2)
          case r2: (Ok v2)
          let ?v = "v2\<lparr>dpr_latency_us := dio_latency_us io\<rparr>"
          have res: "r = Ok ?v" "pub' = pub\<lparr>dpb_stats := dual_counted ?v (dpb_stats pub)\<rparr>" "k' = link_release k3"
            using run on \<open>t = Ok u\<close> Ok r2 by (auto simp: two)
          have keys: "dpr_orderbook_key ?v \<noteq> None \<longleftrightarrow> dpc_orderbook_enabled ?c" "dpr_signal_key ?v \<noteq> None \<longleftrightarrow> dpc_signal_enabled ?c"
            using first second Ok r2 by (auto split: if_splits)
          have sent: "rlk_sent k' = rlk_sent k @ dual_commands w ?c io s" "link_in_use k' = link_in_use k"
            using first second Ok r2 \<open>t = Ok u\<close> taken(1,2) by (auto simp: res(3))
          show ?thesis
            unfolding dual_effect_def Let_def using keys sent by (auto simp: res intro!: exI [of _ ?v])
        qed (use run on \<open>t = Ok u\<close> Ok first second taken(1,2) in \<open>auto simp: two dual_effect_def Let_def\<close>)
      qed (use run on Ok first taken(1,2) in \<open>auto simp: dual_effect_def Let_def\<close>)
    qed
  qed
qed

section \<open>From the publisher to the reader\<close>


definition sample_dual_world :: "int dual_world" where
  "sample_dual_world =
     \<lparr>dwd_qty = (\<lambda>q. FFin (of_int q)), dwd_gateway_json = (\<lambda>g. Inr ''[book]''), dwd_signal_json = (\<lambda>s. Inr ''[signal]'')\<rparr>"

definition btc_snapshot :: "int book_snapshot" where
  "btc_snapshot =
     \<lparr>bsn_instrument = flash_instrument_new ''BTC'' ''USD'' FxDeribit ''BTC-USD'', bsn_timestamp = 7,
      bsn_bids = [price_level_new (FFin 100) 2 7], bsn_asks = []\<rparr>"

definition sample_dual_io :: "unit dual_io" where
  "sample_dual_io =
     \<lparr>dio_acquired = AqConnection \<lparr>ins_size = 1, ins_available = 0\<rparr>, dio_uuid = ''id'', dio_stamp = ''now'',
      dio_orderbook_reply = Inr ''1-0'', dio_signal_reply = Inr ''2-0'', dio_latency_us = 9\<rparr>"


end
