(* ===== verification/Json.thy ===== *)
theory Json
  imports Flash_Types
begin

text \<open>
  The values of \<open>serde_json\<close> as the adapter inspects them: the constructors of its public enum
  and the documented accessors. An object is the list of its members, each name once. The
  numbers of the crate are the type \<open>'n\<close>, read through the functions of \<open>json_numbers\<close>.
\<close>

datatype 'n json =
    JNull
  | JBool bool
  | JNumber 'n
  | JString string
  | JArray "'n json list"
  | JObject "(string \<times> 'n json) list"

record 'n json_numbers =
  jn_i64 :: "'n \<Rightarrow> i64 option"
  jn_u64 :: "'n \<Rightarrow> u64 option"
  jn_f64 :: "'n \<Rightarrow> f64 option"
  jn_text :: "'n \<Rightarrow> string"

fun json_get :: "string \<Rightarrow> 'n json \<Rightarrow> 'n json option" where
  "json_get key (JObject members) = map_of members key"
| "json_get key _ = None"

fun json_as_str :: "'n json \<Rightarrow> string option" where
  "json_as_str (JString s) = Some s"
| "json_as_str _ = None"

fun json_as_array :: "'n json \<Rightarrow> 'n json list option" where
  "json_as_array (JArray vs) = Some vs"
| "json_as_array _ = None"

fun json_as_bool :: "'n json \<Rightarrow> bool option" where
  "json_as_bool (JBool b) = Some b"
| "json_as_bool _ = None"

fun json_as_i64 :: "'n json_numbers \<Rightarrow> 'n json \<Rightarrow> i64 option" where
  "json_as_i64 ns (JNumber n) = jn_i64 ns n"
| "json_as_i64 ns _ = None"

fun json_as_u64 :: "'n json_numbers \<Rightarrow> 'n json \<Rightarrow> u64 option" where
  "json_as_u64 ns (JNumber n) = jn_u64 ns n"
| "json_as_u64 ns _ = None"

text \<open>\<open>get(key).and_then(..)\<close>\<close>

definition json_str :: "string \<Rightarrow> 'n json \<Rightarrow> string option" where
  "json_str key v = Option.bind (json_get key v) json_as_str"

definition json_array :: "string \<Rightarrow> 'n json \<Rightarrow> 'n json list option" where
  "json_array key v = Option.bind (json_get key v) json_as_array"

text \<open>\<open>str::contains\<close>\<close>

fun str_contains :: "string \<Rightarrow> string \<Rightarrow> bool" where
  "str_contains pat [] \<longleftrightarrow> pat = []"
| "str_contains pat (c # cs) \<longleftrightarrow> take (length pat) (c # cs) = pat \<or> str_contains pat cs"

lemma str_contains_iff: "str_contains pat s \<longleftrightarrow> (\<exists>a b. s = a @ pat @ b)"
proof (induction s)
  case (Cons c cs)
  have "take (length pat) (c # cs) = pat \<longleftrightarrow> (\<exists>b. c # cs = pat @ b)"
    by (metis append_eq_conv_conj append_take_drop_id)
  moreover have "(\<exists>a b. c # cs = a @ pat @ b) \<longleftrightarrow> (\<exists>b. c # cs = pat @ b) \<or> (\<exists>a b. cs = a @ pat @ b)"
    by (metis append_Cons append_Nil neq_Nil_conv list.inject)
  ultimately show ?case using Cons.IH by simp
qed simp

text \<open>\<open>str::join\<close> and \<open>str::replace\<close> of a non-empty pattern.\<close>

fun str_join :: "string \<Rightarrow> string list \<Rightarrow> string" where
  "str_join sep [] = []"
| "str_join sep [s] = s"
| "str_join sep (s # ss) = s @ sep @ str_join sep ss"

function str_replace :: "string \<Rightarrow> string \<Rightarrow> string \<Rightarrow> string" where
  "str_replace pat by s =
     (case s of
        [] \<Rightarrow> []
      | c # cs \<Rightarrow>
          if pat \<noteq> [] \<and> take (length pat) s = pat then by @ str_replace pat by (drop (length pat) s)
          else c # str_replace pat by cs)"
  by pat_completeness auto
termination
  by (relation "measure (\<lambda>(pat, by, s). length s)") auto

declare str_replace.simps [simp del]

end
