(* ===== verification/Flash_Pipeline.thy ===== *)
theory Flash_Pipeline
  imports Dual_Publisher Json
begin

text \<open>
  \<open>flash/src/main.rs\<close>: the program. The OANDA task turns price lines into book updates and
  snapshots, a bounded channel carries the snapshots, the publisher task writes them to Redis. The
  clock is a function from the number of the reading to the time; JSON, decimals, float
  parsing, HTTP and Redis answers are arguments. Logging is left out.
\<close>

section \<open>Start\<close>

definition PUBLISH_CHANNEL_SIZE :: usize where
  "PUBLISH_CHANNEL_SIZE = 10000"

definition main_config ::
  "('k, 'v, 'x) config_world \<Rightarrow> string \<Rightarrow> string option \<Rightarrow> flash_config" where
  "main_config w path environment =
     (if cw_exists w path
      then (case config_load w path environment of Ok c \<Rightarrow> c | _ \<Rightarrow> flash_config_default)
      else flash_config_default)"

definition main_pool_config :: "redis_config \<Rightarrow> pool_config" where
  "main_pool_config c =
     pool_config_default\<lparr>pcf_url := rd_url c, pcf_max_size := unat (rd_pool_size c), pcf_database := rd_database c,
       pcf_connect_timeout_ms := rd_connect_timeout_ms c\<rparr>"

definition main_books :: "exchange_config \<Rightarrow> string \<rightharpoonup> 'q::linordered_ab_group_add order_book" where
  "main_books c =
     (if xc_enabled c
      then fold (\<lambda>name books. books(name \<mapsto> book_with_instrument (oanda_instrument name))) (xc_instruments c) Map.empty
      else Map.empty)"

section \<open>A line of the OANDA stream\<close>

record ('q, 'n) oanda_reader =
  ord_json :: "string \<Rightarrow> string + 'n json"
  ord_numbers :: "'n json_numbers"
  ord_f64 :: "string \<Rightarrow> f64 option"
  ord_decimal :: "i64 \<Rightarrow> 'q"

definition is_oanda_type :: "string \<Rightarrow> string \<Rightarrow> bool" where
  "is_oanda_type t line \<longleftrightarrow>
     str_contains (''\"type\":\"'' @ t @ ''\"'') line \<or> str_contains (''\"type\": \"'' @ t @ ''\"'') line"

definition oanda_level :: "('q, 'n) oanda_reader \<Rightarrow> i64 \<Rightarrow> 'n json \<Rightarrow> 'q price_level option" where
  "oanda_level r ts v =
     Option.bind (json_str ''price'' v) (\<lambda>text.
     Option.bind (Option.bind (json_get ''liquidity'' v) (json_as_i64 (ord_numbers r))) (\<lambda>liquidity.
     Option.bind (ord_f64 r text) (\<lambda>p.
     Some (price_level_new p (ord_decimal r liquidity) ts))))"

definition oanda_levels :: "('q, 'n) oanda_reader \<Rightarrow> i64 \<Rightarrow> string \<Rightarrow> 'n json \<Rightarrow> 'q price_level list" where
  "oanda_levels r ts key price =
     (case json_array key price of Some vs \<Rightarrow> List.map_filter (oanda_level r ts) vs | None \<Rightarrow> [])"

record 'q pipeline =
  pln_books :: "string \<rightharpoonup> 'q order_book"
  pln_channel :: "'q book_snapshot channel"
  pln_readings :: nat
  pln_dropped :: u64
  pln_backpressure :: bool

definition pipeline_new :: "exchange_config \<Rightarrow> 'q::linordered_ab_group_add pipeline" where
  "pipeline_new c =
     \<lparr>pln_books = main_books c,
      pln_channel = \<lparr>ch_capacity = PUBLISH_CHANNEL_SIZE, ch_queue = [], ch_open = True\<rparr>,
      pln_readings = 0, pln_dropped = 0, pln_backpressure = False\<rparr>"

text \<open>The book of the instrument is updated under the write lock.\<close>

definition update_book ::
  "string \<Rightarrow> 'q::linordered_ab_group_add book_snapshot \<Rightarrow> (string \<rightharpoonup> 'q order_book) \<Rightarrow>
     (string \<rightharpoonup> 'q order_book, string) result" where
  "update_book name s books =
     (case books name of
        None \<Rightarrow> Ok books
      | Some b \<Rightarrow> map_ok (\<lambda>b'. books(name \<mapsto> b')) (apply_snapshot (bsn_bids s) (bsn_asks s) (bsn_timestamp s) b))"

text \<open>The snapshot is handed to the publisher, or dropped and counted.\<close>

definition enqueue_snapshot :: "'q book_snapshot \<Rightarrow> 'q pipeline \<Rightarrow> 'q pipeline" where
  "enqueue_snapshot s p =
     (case channel_try_send s (pln_channel p) of
        (Ok u, ch) \<Rightarrow> p\<lparr>pln_channel := ch, pln_backpressure := False\<rparr>
      | (_, ch) \<Rightarrow> p\<lparr>pln_backpressure := True, pln_dropped := pln_dropped p + 1\<rparr>)"

definition process_oanda_message ::
  "('q::linordered_ab_group_add, 'n) oanda_reader \<Rightarrow> (nat \<Rightarrow> i64) \<Rightarrow> string \<Rightarrow> 'q pipeline \<Rightarrow>
     (unit, string) result \<times> 'q pipeline" where
  "process_oanda_message r clock line p =
     (if is_oanda_type ''HEARTBEAT'' line then (Ok (), p)
      else if \<not> is_oanda_type ''PRICE'' line then (Ok (), p)
      else
        (case ord_json r line of
           Inl e \<Rightarrow> (Err (''JSON parse error: '' @ e), p)
         | Inr price \<Rightarrow>
             (case json_str ''instrument'' price of
                None \<Rightarrow> (Err ''Missing instrument'', p)
              | Some name \<Rightarrow>
                  let ts = clock (pln_readings p);
                      p1 = p\<lparr>pln_readings := Suc (pln_readings p)\<rparr>;
                      s = \<lparr>bsn_instrument = oanda_instrument name, bsn_timestamp = ts,
                           bsn_bids = oanda_levels r ts ''bids'' price, bsn_asks = oanda_levels r ts ''asks'' price\<rparr> in
                  (case update_book name s (pln_books p1) of
                     Ok books \<Rightarrow> (Ok (), enqueue_snapshot s (p1\<lparr>pln_books := books\<rparr>))
                   | Err e \<Rightarrow> (Err e, p1)
                   | Panic \<Rightarrow> (Panic, p1)))))"

section \<open>The OANDA task\<close>

definition oanda_stream_url :: "string \<Rightarrow> string \<Rightarrow> string list \<Rightarrow> string" where
  "oanda_stream_url ws_url account instruments =
     str_replace ''ws://'' ''http://'' (str_replace ''wss://'' ''https://'' ws_url) @ ''/'' @ account @
     ''/pricing/stream?instruments='' @ str_join '','' instruments"

text \<open>What an attempt meets: no connection, a refusal, or a stream.\<close>

datatype http_outcome = HoError | HoRefused | HoStream "stream_item list"

text \<open>Each line resets the budget and is processed; its error is only logged.\<close>

fun handle_lines ::
  "('q::linordered_ab_group_add, 'n) oanda_reader \<Rightarrow> (nat \<Rightarrow> i64) \<Rightarrow> string list \<Rightarrow>
     oanda_reconnect_policy \<times> 'q pipeline \<Rightarrow> oanda_reconnect_policy \<times> 'q pipeline" where
  "handle_lines r clock [] st = st"
| "handle_lines r clock (line # ls) (pol, p) =
     handle_lines r clock ls (on_data pol, snd (process_oanda_message r clock line p))"

definition oanda_attempt ::
  "(string \<Rightarrow> string) \<Rightarrow> ('q::linordered_ab_group_add, 'n) oanda_reader \<Rightarrow> (nat \<Rightarrow> i64) \<Rightarrow> http_outcome \<Rightarrow>
     oanda_reconnect_policy \<times> 'q pipeline \<Rightarrow> oanda_reconnect_policy \<times> 'q pipeline" where
  "oanda_attempt trim r clock outcome = (\<lambda>(pol, p).
     (case outcome of
        HoStream items \<Rightarrow> handle_lines r clock (fst (consume_ndjson_stream trim [] items)) (on_connected pol, p)
      | _ \<Rightarrow> (pol, p)))"

text \<open>The loop over the attempts so far; true when the task has given up.\<close>

fun oanda_loop ::
  "(string \<Rightarrow> string) \<Rightarrow> ('q::linordered_ab_group_add, 'n) oanda_reader \<Rightarrow> (nat \<Rightarrow> i64) \<Rightarrow> http_outcome list \<Rightarrow>
     oanda_reconnect_policy \<times> 'q pipeline \<Rightarrow> bool \<times> oanda_reconnect_policy \<times> 'q pipeline" where
  "oanda_loop trim r clock [] st = (False, st)"
| "oanda_loop trim r clock (h # hs) (pol, p) =
     (case begin_attempt pol of
        (None, pol') \<Rightarrow> (True, pol', p)
      | (Some n, pol') \<Rightarrow> oanda_loop trim r clock hs (oanda_attempt trim r clock h (pol', p)))"

definition run_oanda_stream ::
  "(string \<Rightarrow> string) \<Rightarrow> ('q::linordered_ab_group_add, 'n) oanda_reader \<Rightarrow> (nat \<Rightarrow> i64) \<Rightarrow> exchange_config \<Rightarrow>
     websocket_config \<Rightarrow> http_outcome list \<Rightarrow> 'q pipeline \<Rightarrow> bool \<times> 'q pipeline" where
  "run_oanda_stream trim r clock c ws outcomes p =
     (if xc_account_id c = None \<or> xc_api_key c = None then (True, p)
      else (case oanda_loop trim r clock outcomes (oanda_policy_new ws, p) of (stopped, pol, p') \<Rightarrow> (stopped, p')))"

section \<open>The publisher task\<close>

record publisher_task =
  pbt_publisher :: dual_publisher
  pbt_link :: redis_link
  pbt_publish_count :: u64
  pbt_error_count :: u64

definition publisher_task_new :: "redis_pool \<Rightarrow> publisher_task" where
  "publisher_task_new pool =
     \<lparr>pbt_publisher = dual_publisher_new dual_config_default, pbt_link = \<lparr>rlk_pool = pool, rlk_sent = []\<rparr>,
      pbt_publish_count = 0, pbt_error_count = 0\<rparr>"

text \<open>One turn of the loop, for a snapshot that was received.\<close>

definition publisher_turn ::
  "'q dual_world \<Rightarrow> 'x dual_io \<Rightarrow> 'q book_snapshot \<Rightarrow> publisher_task \<Rightarrow>
     (dual_result, 'x dual_error) result \<times> publisher_task" where
  "publisher_turn w io s t =
     (case publish_dual w io s (pbt_publisher t, pbt_link t) of
        (r, pub, k) \<Rightarrow>
          let t1 = t\<lparr>pbt_publisher := pub, pbt_link := k\<rparr> in
          (r, case r of
                Ok v \<Rightarrow> t1\<lparr>pbt_publish_count := pbt_publish_count t + 1\<rparr>
              | _ \<Rightarrow> t1\<lparr>pbt_error_count := pbt_error_count t + 1\<rparr>))"

end
