(* ===== verification/Pipeline_Flow.thy ===== *)
theory Pipeline_Flow
  imports Flash_Pipeline
begin

text \<open>
  What the program of \<open>flash/src/main.rs\<close> promises as a whole. The OANDA task and the publisher task
  run interleaved; the log keeps what was built and what was taken from the channel.
\<close>

section \<open>Runs\<close>

text \<open>The snapshot a line stands for.\<close>

definition line_snapshot ::
  "('q, 'n) oanda_reader \<Rightarrow> i64 \<Rightarrow> string \<Rightarrow> 'q book_snapshot option" where
  "line_snapshot r ts line =
     (if is_oanda_type ''HEARTBEAT'' line \<or> \<not> is_oanda_type ''PRICE'' line then None
      else
        (case ord_json r line of
           Inl e \<Rightarrow> None
         | Inr price \<Rightarrow>
             map_option (\<lambda>name.
               \<lparr>bsn_instrument = oanda_instrument name, bsn_timestamp = ts,
                bsn_bids = oanda_levels r ts ''bids'' price, bsn_asks = oanda_levels r ts ''asks'' price\<rparr>)
               (json_str ''instrument'' price)))"

datatype 'x pipeline_op = PoLine string | PoPublish "'x dual_io"

text \<open>Snapshots built, with whether the channel took them; publications, with whether they succeeded.\<close>

record ('q, 'x) pipeline_log =
  plg_built :: "('q book_snapshot \<times> bool) list"
  plg_taken :: "('q book_snapshot \<times> 'x dual_io \<times> bool) list"

record ('q, 'x) pipeline_state =
  pls_pipeline :: "'q pipeline"
  pls_task :: publisher_task
  pls_log :: "('q, 'x) pipeline_log"

definition pipeline_init :: "exchange_config \<Rightarrow> redis_pool \<Rightarrow> ('q::linordered_ab_group_add, 'x) pipeline_state" where
  "pipeline_init c pool =
     \<lparr>pls_pipeline = pipeline_new c, pls_task = publisher_task_new pool, pls_log = \<lparr>plg_built = [], plg_taken = []\<rparr>\<rparr>"

fun pipeline_do ::
  "('q::linordered_ab_group_add, 'n) oanda_reader \<Rightarrow> 'q dual_world \<Rightarrow> (nat \<Rightarrow> i64) \<Rightarrow> 'x pipeline_op \<Rightarrow>
     ('q, 'x) pipeline_state \<Rightarrow> ('q, 'x) pipeline_state" where
  "pipeline_do r w clock (PoLine line) st =
     (let p = pls_pipeline st; g = pls_log st in
      st\<lparr>pls_pipeline := snd (process_oanda_message r clock line p),
         pls_log := (case line_snapshot r (clock (pln_readings p)) line of
           None \<Rightarrow> g
         | Some s \<Rightarrow> g\<lparr>plg_built := plg_built g @
             [(s, length (ch_queue (pln_channel p)) < ch_capacity (pln_channel p))]\<rparr>)\<rparr>)"
| "pipeline_do r w clock (PoPublish io) st =
     (let p = pls_pipeline st; g = pls_log st in
      case channel_try_recv (pln_channel p) of
        (None, ch) \<Rightarrow> st
      | (Some s, ch) \<Rightarrow>
          (case publisher_turn w io s (pls_task st) of (res, t) \<Rightarrow>
             st\<lparr>pls_pipeline := p\<lparr>pln_channel := ch\<rparr>, pls_task := t,
                pls_log := g\<lparr>plg_taken := plg_taken g @ [(s, io, is_ok res)]\<rparr>\<rparr>))"

section \<open>Messages\<close>

lemma oanda_instrument_raw [simp]: "fi_raw_symbol (oanda_instrument name) = name"
  by (simp add: oanda_instrument_def flash_instrument_new_def split: option.split)

lemma process_line:
  fixes p :: "'q::linordered_ab_group_add pipeline"
  shows "line_snapshot r (clock (pln_readings p)) line = None \<Longrightarrow> snd (process_oanda_message r clock line p) = p"
    and "line_snapshot r (clock (pln_readings p)) line = Some s \<Longrightarrow>
      update_book (fi_raw_symbol (bsn_instrument s)) s (pln_books p) = Ok books \<Longrightarrow>
      snd (process_oanda_message r clock line p) =
        enqueue_snapshot s (p\<lparr>pln_readings := Suc (pln_readings p), pln_books := books\<rparr>)"
  by (auto simp: line_snapshot_def process_oanda_message_def Let_def split: if_splits sum.splits option.splits)

section \<open>Books\<close>

definition messages_for :: "string \<Rightarrow> ('q book_snapshot \<times> bool) list \<Rightarrow> 'q book_snapshot list" where
  "messages_for name built = filter (\<lambda>s. fi_raw_symbol (bsn_instrument s) = name) (map fst built)"

lemma messages_for_snoc [simp]:
  "messages_for name [] = []"
  "messages_for name (built @ [(s, ok)]) =
     messages_for name built @ (if fi_raw_symbol (bsn_instrument s) = name then [s] else [])"
  by (simp_all add: messages_for_def)

text \<open>A book shows the last message for it, and only that one.\<close>

definition shows_message :: "string \<Rightarrow> 'q::linordered_ab_group_add book_snapshot \<Rightarrow> 'q order_book \<Rightarrow> bool" where
  "shows_message name s b \<longleftrightarrow>
     (\<exists>b0. book_from_snapshot (oanda_instrument name) book_config_default (bsn_bids s) (bsn_asks s) (bsn_timestamp s) =
         (Ok b0 :: (_, string) result) \<and>
       all_bids b = all_bids b0 \<and> all_asks b = all_asks b0 \<and> ob_best_bid b = ob_best_bid b0 \<and>
       ob_best_ask b = ob_best_ask b0 \<and> ob_total_bid_qty b = ob_total_bid_qty b0 \<and> ob_total_ask_qty b = ob_total_ask_qty b0)"

definition book_current :: "string \<Rightarrow> 'q::linordered_ab_group_add book_snapshot list \<Rightarrow> 'q order_book \<Rightarrow> bool" where
  "book_current name ms b \<longleftrightarrow>
     ob_config b = book_config_default \<and> ob_instrument b = oanda_instrument name \<and>
     unat (bs_snapshot_count (ob_stats b)) = length ms \<and>
     (if ms = [] then b = book_with_instrument (oanda_instrument name) else shows_message name (last ms) b)"

lemma main_books_eq:
  fixes c :: exchange_config
  shows "(main_books c :: string \<rightharpoonup> 'q::linordered_ab_group_add order_book) name =
     (if xc_enabled c \<and> name \<in> set (xc_instruments c) then Some (book_with_instrument (oanda_instrument name)) else None)"
proof -
  have "fold (\<lambda>name books. books(name \<mapsto> book_with_instrument (oanda_instrument name))) names m name =
      (if name \<in> set names then Some (book_with_instrument (oanda_instrument name)) else m name)"
    for names and m :: "string \<rightharpoonup> 'q order_book"
    by (induction names arbitrary: m) auto
  then show ?thesis by (simp add: main_books_def)
qed

lemma book_current_new: "book_current name [] (book_with_instrument (oanda_instrument name))"
  by (simp add: book_current_def book_with_instrument_def book_new_def book_stats_default_def)

lemma apply_snapshot_total:
  "unat (bs_snapshot_count (ob_stats b)) + 1 < 2 ^ 64 \<Longrightarrow> \<exists>b'. apply_snapshot bids asks ts b = (Ok b' :: (_, 'e) result)"
  by (simp add: apply_snapshot_def u64_incr_eq Let_def book_cache_defs split: prod.split)

lemma book_current_step:
  assumes "book_current name ms b" and "Suc (length ms) < 2 ^ 64"
  shows "\<exists>b'. apply_snapshot (bsn_bids s) (bsn_asks s) (bsn_timestamp s) b = (Ok b' :: (_, string) result) \<and>
    book_current name (ms @ [s]) b'"
proof -
  have count: "unat (bs_snapshot_count (ob_stats b)) + 1 < 2 ^ 64"
    using assms by (simp add: book_current_def)
  obtain n where n: "u64_incr (bs_snapshot_count (ob_stats b)) = (Ok n :: (u64, string) result)" "unat n = Suc (length ms)"
    using count assms(1) by (auto simp: u64_incr_eq book_current_def unat_u64_incr)
  have conf: "ob_config b = book_config_default" "ob_instrument b = oanda_instrument name"
    using assms(1) by (simp_all add: book_current_def)
  obtain b' where b': "apply_snapshot (bsn_bids s) (bsn_asks s) (bsn_timestamp s) b = (Ok b' :: (_, string) result)"
    using apply_snapshot_total [OF count] by blast
  have "unat (bs_snapshot_count (ob_stats (book_new (oanda_instrument name) book_config_default :: 'a order_book))) + 1 < 2 ^ 64"
    by (simp add: book_new_def book_stats_default_def)
  then obtain b0 where b0: "book_from_snapshot (oanda_instrument name) book_config_default (bsn_bids s) (bsn_asks s)
      (bsn_timestamp s) = (Ok b0 :: (_, string) result)"
    unfolding book_from_snapshot_def using apply_snapshot_total by blast
  let ?levels = "\<lambda>ls. snapshot_levels (bc_auto_prune book_config_default) (take (bc_max_levels book_config_default) ls) ([], 0)"
  obtain bm bq where bids: "?levels (bsn_bids s) = (bm, bq)" by fastforce
  obtain am aq where asks: "?levels (bsn_asks s) = (am, aq)" by fastforce
  have fields: "ob_config b' = ob_config b \<and> ob_instrument b' = ob_instrument b \<and> bs_snapshot_count (ob_stats b') = n \<and>
      (ob_bids b', ob_asks b', ob_best_bid b', ob_best_ask b', ob_total_bid_qty b', ob_total_ask_qty b') =
        (bm, am, btm_last bm, btm_first am, bq, aq)"
    using b' n(1) by (auto simp: apply_snapshot_def conf(1) bids asks Let_def book_cache_defs)
  have "(ob_bids b0, ob_asks b0, ob_best_bid b0, ob_best_ask b0, ob_total_bid_qty b0, ob_total_ask_qty b0) =
        (bm, am, btm_last bm, btm_first am, bq, aq)"
    using b0 by (auto simp: book_from_snapshot_def apply_snapshot_def book_new_def bids asks Let_def book_cache_defs
        map_ok_Ok_iff)
  then have same: "ob_bids b' = ob_bids b0 \<and> ob_asks b' = ob_asks b0 \<and> ob_best_bid b' = ob_best_bid b0 \<and>
      ob_best_ask b' = ob_best_ask b0 \<and> ob_total_bid_qty b' = ob_total_bid_qty b0 \<and> ob_total_ask_qty b' = ob_total_ask_qty b0"
    using fields by simp
  have "shows_message name s b'"
    unfolding shows_message_def by (intro exI [of _ b0]) (simp add: b0 same all_bids_def all_asks_def)
  then show ?thesis using b' fields conf n(2) by (auto simp: book_current_def)
qed

lemma update_book_current:
  fixes books :: "string \<rightharpoonup> 'q::linordered_ab_group_add order_book"
  assumes cur: "\<forall>name b. books name = Some b \<longrightarrow> book_current name (messages_for name built) b"
    and len: "Suc (length built) < 2 ^ 64"
  shows "\<exists>books'. update_book (fi_raw_symbol (bsn_instrument s)) s books = Ok books' \<and> dom books' = dom books \<and>
    (\<forall>name b. books' name = Some b \<longrightarrow> book_current name (messages_for name (built @ [(s, ok)])) b)"
proof (cases "books (fi_raw_symbol (bsn_instrument s))")
  case None
  then show ?thesis using cur by (auto simp: update_book_def)
next
  case (Some b)
  let ?name = "fi_raw_symbol (bsn_instrument s)"
  have "length (messages_for ?name built) \<le> length built"
    unfolding messages_for_def by (metis length_filter_le length_map)
  then obtain b' where b': "apply_snapshot (bsn_bids s) (bsn_asks s) (bsn_timestamp s) b = (Ok b' :: (_, string) result)"
      "book_current ?name (messages_for ?name built @ [s]) b'"
    using book_current_step [of ?name "messages_for ?name built" b s] cur Some len by auto
  then show ?thesis using cur Some by (auto simp: update_book_def)
qed

section \<open>The invariant\<close>

definition queue_exact :: "('q, 'x) pipeline_state \<Rightarrow> bool" where
  "queue_exact st \<longleftrightarrow>
     (let p = pls_pipeline st; g = pls_log st in
      map fst (plg_taken g) @ ch_queue (pln_channel p) = map fst (filter snd (plg_built g)) \<and>
      pln_dropped p = of_nat (length (filter (\<lambda>x. \<not> snd x) (plg_built g))) \<and>
      pln_readings p = length (plg_built g) \<and>
      ch_open (pln_channel p) \<and> ch_capacity (pln_channel p) = PUBLISH_CHANNEL_SIZE \<and>
      length (ch_queue (pln_channel p)) \<le> PUBLISH_CHANNEL_SIZE)"

text \<open>The commands of each publication, all of them when it succeeded.\<close>

definition publication_ok :: "'q dual_world \<Rightarrow> 'q book_snapshot \<times> 'x dual_io \<times> bool \<Rightarrow> bytes list list \<Rightarrow> bool" where
  "publication_ok w = (\<lambda>(s, io, ok) piece.
     prefix piece (dual_commands w dual_config_default io s) \<and> (ok \<longrightarrow> piece = dual_commands w dual_config_default io s))"

definition task_exact :: "'q dual_world \<Rightarrow> ('q, 'x) pipeline_state \<Rightarrow> bool" where
  "task_exact w st \<longleftrightarrow>
     (let t = pls_task st; taken = plg_taken (pls_log st); good = length (filter (\<lambda>(s, io, ok). ok) taken) in
      dpb_config (pbt_publisher t) = dual_config_default \<and>
      pbt_publish_count t = of_nat good \<and> pbt_error_count t = of_nat (length taken - good) \<and>
      dst_publish_count (dpb_stats (pbt_publisher t)) = of_nat good \<and>
      dst_orderbook_published (dpb_stats (pbt_publisher t)) = of_nat good \<and>
      dst_signals_published (dpb_stats (pbt_publisher t)) = of_nat good \<and>
      (\<exists>pieces. rlk_sent (pbt_link t) = concat pieces \<and> list_all2 (publication_ok w) taken pieces))"

definition books_exact :: "exchange_config \<Rightarrow> ('q::linordered_ab_group_add, 'x) pipeline_state \<Rightarrow> bool" where
  "books_exact c st \<longleftrightarrow>
     (let p = pls_pipeline st; g = pls_log st in
      dom (pln_books p) = (if xc_enabled c then set (xc_instruments c) else {}) \<and>
      (\<forall>name b. pln_books p name = Some b \<longrightarrow> book_current name (messages_for name (plg_built g)) b))"

lemma pipeline_init_exact:
  "queue_exact (pipeline_init c pool)" "task_exact w (pipeline_init c pool)" "books_exact c (pipeline_init c pool)"
proof -
  show "queue_exact (pipeline_init c pool)"
    by (simp add: queue_exact_def pipeline_init_def pipeline_new_def)
  show "task_exact w (pipeline_init c pool)"
    by (simp add: task_exact_def pipeline_init_def publisher_task_new_def dual_publisher_new_def dual_stats_default_def)
  show "books_exact c (pipeline_init c pool)"
    by (auto simp: books_exact_def pipeline_init_def pipeline_new_def main_books_eq book_current_new split: if_splits)
qed

lemma line_exact:
  assumes q: "queue_exact st" and b: "books_exact c st" and len: "Suc (length (plg_built (pls_log st))) < 2 ^ 64"
  shows "queue_exact (pipeline_do r w clock (PoLine line) st) \<and> books_exact c (pipeline_do r w clock (PoLine line) st)"
proof (cases "line_snapshot r (clock (pln_readings (pls_pipeline st))) line")
  case None
  then have "pipeline_do r w clock (PoLine line) st = st" by (simp add: process_line(1) Let_def)
  then show ?thesis using q b by simp
next
  case (Some s)
  define p where "p = pls_pipeline st"
  define fits where "fits = (length (ch_queue (pln_channel p)) < ch_capacity (pln_channel p))"
  obtain books where books: "update_book (fi_raw_symbol (bsn_instrument s)) s (pln_books p) = Ok books"
      "dom books = dom (pln_books p)"
      "\<forall>name b. books name = Some b \<longrightarrow> book_current name (messages_for name (plg_built (pls_log st) @ [(s, fits)])) b"
    using update_book_current [OF _ len, of "pln_books p" s fits] b by (auto simp: books_exact_def p_def Let_def)
  have pipe: "pls_pipeline (pipeline_do r w clock (PoLine line) st) =
      enqueue_snapshot s (p\<lparr>pln_readings := Suc (pln_readings p), pln_books := books\<rparr>)"
    using process_line(2) [where clock = clock and p = "pls_pipeline st", OF Some books(1) [unfolded p_def]] by (simp add: p_def Let_def)
  have log: "pls_log (pipeline_do r w clock (PoLine line) st) =
      (pls_log st)\<lparr>plg_built := plg_built (pls_log st) @ [(s, fits)]\<rparr>"
    using Some by (simp add: p_def fits_def Let_def)
  have "pln_books (enqueue_snapshot s p') = pln_books p'" for p' :: "'a pipeline"
    by (simp add: enqueue_snapshot_def split: prod.split result.split)
  then have "books_exact c (pipeline_do r w clock (PoLine line) st)"
    using books(2,3) b unfolding books_exact_def pipe log by (simp add: p_def Let_def)
  moreover have "queue_exact (pipeline_do r w clock (PoLine line) st)"
    using q unfolding queue_exact_def pipe log
    by (auto simp: enqueue_snapshot_def channel_try_send_def fits_def p_def Let_def)
  ultimately show ?thesis by simp
qed

lemma publisher_turn_exact:
  assumes turn: "publisher_turn w io s t = (res, t')" and conf: "dpb_config (pbt_publisher t) = dual_config_default"
  shows "dpb_config (pbt_publisher t') = dual_config_default \<and>
    pbt_publish_count t' = pbt_publish_count t + of_bool (is_ok res) \<and>
    pbt_error_count t' = pbt_error_count t + of_bool (\<not> is_ok res) \<and>
    dst_publish_count (dpb_stats (pbt_publisher t')) = dst_publish_count (dpb_stats (pbt_publisher t)) + of_bool (is_ok res) \<and>
    dst_orderbook_published (dpb_stats (pbt_publisher t')) =
      dst_orderbook_published (dpb_stats (pbt_publisher t)) + of_bool (is_ok res) \<and>
    dst_signals_published (dpb_stats (pbt_publisher t')) =
      dst_signals_published (dpb_stats (pbt_publisher t)) + of_bool (is_ok res) \<and>
    (\<exists>piece. rlk_sent (pbt_link t') = rlk_sent (pbt_link t) @ piece \<and> publication_ok w (s, io, is_ok res) piece)"
proof -
  obtain r pub k where pd: "publish_dual w io s (pbt_publisher t, pbt_link t) = (r, pub, k)"
    by (cases "publish_dual w io s (pbt_publisher t, pbt_link t)") auto
  have on: "dpc_orderbook_enabled dual_config_default" "dpc_signal_enabled dual_config_default"
    by (simp_all add: dual_config_default_def)
  note effect = publish_dual_effect [OF pd, unfolded dual_effect_def Let_def fst_conv snd_conv conf]
  have eqs: "res = r" "pbt_publisher t' = pub" "pbt_link t' = k"
      "pbt_publish_count t' = pbt_publish_count t + of_bool (is_ok r)"
      "pbt_error_count t' = pbt_error_count t + of_bool (\<not> is_ok r)"
    using turn by (auto simp: publisher_turn_def pd Let_def split: result.splits)
  show ?thesis
    using effect on unfolding eqs publication_ok_def by (cases "is_ok r") (auto simp: dual_counted_def)
qed

lemma publish_exact:
  assumes q: "queue_exact st" and t: "task_exact w st" and b: "books_exact c st"
  shows "queue_exact (pipeline_do r w clock (PoPublish io) st) \<and> task_exact w (pipeline_do r w clock (PoPublish io) st) \<and>
    books_exact c (pipeline_do r w clock (PoPublish io) st)"
proof (cases "ch_queue (pln_channel (pls_pipeline st))")
  case Nil
  then have "pipeline_do r w clock (PoPublish io) st = st" by (simp add: channel_try_recv_def Let_def)
  then show ?thesis using q t b by simp
next
  case (Cons s rest)
  let ?p = "pls_pipeline st"
  obtain res t' where turn: "publisher_turn w io s (pls_task st) = (res, t')"
    by (cases "publisher_turn w io s (pls_task st)")
  have st': "pipeline_do r w clock (PoPublish io) st =
      st\<lparr>pls_pipeline := ?p\<lparr>pln_channel := (pln_channel ?p)\<lparr>ch_queue := rest\<rparr>\<rparr>, pls_task := t',
         pls_log := (pls_log st)\<lparr>plg_taken := plg_taken (pls_log st) @ [(s, io, is_ok res)]\<rparr>\<rparr>"
    using Cons turn by (simp add: channel_try_recv_def Let_def)
  have "queue_exact (pipeline_do r w clock (PoPublish io) st)"
    using q Cons unfolding st' by (simp add: queue_exact_def Let_def)
  moreover have "books_exact c (pipeline_do r w clock (PoPublish io) st)"
    using b unfolding st' by (simp add: books_exact_def Let_def)
  moreover have "task_exact w (pipeline_do r w clock (PoPublish io) st)"
  proof -
    obtain pieces where pieces: "rlk_sent (pbt_link (pls_task st)) = concat pieces"
        "list_all2 (publication_ok w) (plg_taken (pls_log st)) pieces"
      using t by (auto simp: task_exact_def Let_def)
    have conf: "dpb_config (pbt_publisher (pls_task st)) = dual_config_default"
      using t by (simp add: task_exact_def Let_def)
    note turned = publisher_turn_exact [OF turn conf]
    then obtain piece where piece: "rlk_sent (pbt_link t') = concat (pieces @ [piece])" "publication_ok w (s, io, is_ok res) piece"
      using pieces(1) by auto
    have "list_all2 (publication_ok w) (plg_taken (pls_log st) @ [(s, io, is_ok res)]) (pieces @ [piece])"
      using pieces(2) piece(2) by (simp add: list_all2_appendI)
    then have sent: "\<exists>pieces. rlk_sent (pbt_link t') = concat pieces \<and>
        list_all2 (publication_ok w) (plg_taken (pls_log st) @ [(s, io, is_ok res)]) pieces"
      using piece(1) by blast
    have "length (filter (\<lambda>(s, io, ok). ok) (plg_taken (pls_log st))) \<le> length (plg_taken (pls_log st))"
      by (rule length_filter_le)
    then show ?thesis
      using t turned sent unfolding st' by (cases "is_ok res") (simp_all add: task_exact_def Let_def Suc_diff_le)
  qed
  ultimately show ?thesis by simp
qed

lemma pipeline_run_exact:
  assumes "length (plg_built (pls_log st)) + length ops < 2 ^ 64"
    and "queue_exact st" "task_exact w st" "books_exact c st"
  shows "queue_exact (fold (pipeline_do r w clock) ops st) \<and> task_exact w (fold (pipeline_do r w clock) ops st) \<and>
    books_exact c (fold (pipeline_do r w clock) ops st)"
  using assms
proof (induction ops arbitrary: st)
  case (Cons op ops)
  have "queue_exact (pipeline_do r w clock op st) \<and> task_exact w (pipeline_do r w clock op st) \<and>
      books_exact c (pipeline_do r w clock op st) \<and>
      length (plg_built (pls_log (pipeline_do r w clock op st))) \<le> Suc (length (plg_built (pls_log st)))"
  proof (cases op)
    case (PoLine line)
    have "task_exact w (pipeline_do r w clock (PoLine line) st)"
      using Cons.prems(3) by (simp add: task_exact_def Let_def split: option.split)
    moreover have "length (plg_built (pls_log (pipeline_do r w clock (PoLine line) st))) \<le> Suc (length (plg_built (pls_log st)))"
      by (simp add: Let_def split: option.split)
    ultimately show ?thesis using line_exact [OF Cons.prems(2,4)] Cons.prems(1) PoLine by simp
  next
    case (PoPublish io)
    have "plg_built (pls_log (pipeline_do r w clock (PoPublish io) st)) = plg_built (pls_log st)"
      by (simp add: Let_def split: prod.split option.split)
    then show ?thesis using publish_exact [OF Cons.prems(2,3,4)] PoPublish by simp
  qed
  then show ?case using Cons.IH [of "pipeline_do r w clock op st"] Cons.prems(1) by simp
qed simp

section \<open>What the program promises\<close>


definition sample_price :: "int json" where
  "sample_price =
     JObject [(''instrument'', JString ''EUR_USD''),
              (''bids'', JArray [JObject [(''price'', JString ''1.5''), (''liquidity'', JNumber 10)]]),
              (''asks'', JArray [JObject [(''price'', JString ''x''), (''liquidity'', JNumber 10)],
                                 JObject [(''price'', JString ''2''), (''liquidity'', JNumber 7)]])]"

definition sample_reader :: "(int, int) oanda_reader" where
  "sample_reader =
     \<lparr>ord_json = (\<lambda>line. Inr sample_price),
      ord_numbers = \<lparr>jn_i64 = (\<lambda>n. Some (word_of_int n)), jn_u64 = (\<lambda>n. None), jn_f64 = (\<lambda>n. None), jn_text = (\<lambda>n. [])\<rparr>,
      ord_f64 = (\<lambda>t. if t = ''1.5'' then Some (FFin (3 / 2)) else if t = ''2'' then Some (FFin 2) else None),
      ord_decimal = sint\<rparr>"

definition sample_exchange :: exchange_config where
  "sample_exchange = exchange_config_default\<lparr>xc_enabled := True, xc_instruments := [''EUR_USD'']\<rparr>"

definition price_line :: string where
  "price_line = ''{\"type\":\"PRICE\"}''"

definition eur_snapshot :: "int book_snapshot" where
  "eur_snapshot =
     \<lparr>bsn_instrument = flash_instrument_new ''EUR'' ''USD'' FxOanda ''EUR_USD'', bsn_timestamp = 4,
      bsn_bids = [price_level_new (FFin (3 / 2)) 10 4], bsn_asks = [price_level_new (FFin 2) 7 4]\<rparr>"

lemma sample_line: "line_snapshot sample_reader 4 price_line = Some eur_snapshot"
  by (simp add: line_snapshot_def is_oanda_type_def price_line_def sample_reader_def sample_price_def json_str_def
      oanda_levels_def json_array_def oanda_level_def eur_snapshot_def oanda_instrument_def split_once_def
      price_level_new_def map_filter_simps)

abbreviation sample_init :: "(int, unit) pipeline_state" where
  "sample_init \<equiv> pipeline_init sample_exchange (rlk_pool sample_link)"

abbreviation sample_do :: "unit pipeline_op \<Rightarrow> (int, unit) pipeline_state \<Rightarrow> (int, unit) pipeline_state" where
  "sample_do \<equiv> pipeline_do sample_reader sample_dual_world (\<lambda>n. 4)"

lemma sample_first_log:
  "pls_log (sample_do (PoLine price_line) sample_init) = \<lparr>plg_built = [(eur_snapshot, True)], plg_taken = []\<rparr>"
  by (simp add: sample_line pipeline_init_def pipeline_new_def PUBLISH_CHANNEL_SIZE_def)


text \<open>
  C28: The books are those of the configured instruments, and each shows exactly its last
  price line: it has the levels, best prices and totals of a new book given that message alone, or is
  new when there was none. No line makes the task panic.
\<close>

theorem pipeline_books_current:
  assumes "st = fold (pipeline_do r w clock) ops (pipeline_init c pool)" and "length ops < 2 ^ 64"
  shows "dom (pln_books (pls_pipeline st)) = (if xc_enabled c then set (xc_instruments c) else {}) \<and>
    (\<forall>name b. pln_books (pls_pipeline st) name = Some b \<longrightarrow>
       ob_instrument b = oanda_instrument name \<and>
       (let ms = messages_for name (plg_built (pls_log st)) in
        unat (bs_snapshot_count (ob_stats b)) = length ms \<and>
        (if ms = [] then b = book_with_instrument (oanda_instrument name) else shows_message name (last ms) b)))"
proof -
  have "books_exact c st"
    using pipeline_run_exact [where ops = ops and r = r and clock = clock, OF _ pipeline_init_exact] assms
    by (simp add: pipeline_init_def)
  then show ?thesis unfolding books_exact_def book_current_def Let_def by blast
qed

theorem pipeline_books_current_witness:
  "\<exists>b. pln_books (pls_pipeline (fold sample_do [PoLine price_line] sample_init)) ''EUR_USD'' = Some b \<and>
     shows_message ''EUR_USD'' eur_snapshot b"
proof -
  let ?st = "fold sample_do [PoLine price_line] sample_init"
  have ms: "messages_for ''EUR_USD'' (plg_built (pls_log ?st)) = [eur_snapshot]"
    by (simp add: sample_first_log messages_for_def eur_snapshot_def flash_instrument_new_def del: pipeline_do.simps)
  have "length [PoLine price_line :: unit pipeline_op] < 2 ^ 64" by simp
  note cur = pipeline_books_current [OF refl this, of sample_reader sample_dual_world "\<lambda>n. 4"
      sample_exchange "rlk_pool sample_link"]
  have "''EUR_USD'' \<in> dom (pln_books (pls_pipeline ?st))"
    unfolding cur [THEN conjunct1] by (simp add: sample_exchange_def)
  then obtain b where b: "pln_books (pls_pipeline ?st) ''EUR_USD'' = Some b" by blast
  with cur [THEN conjunct2, rule_format, OF this] show ?thesis unfolding ms Let_def by auto
qed

section \<open>The OANDA task runs lines\<close>

lemma handle_lines_eq:
  "snd (handle_lines r clock ls (pol, p)) = fold (\<lambda>line p. snd (process_oanda_message r clock line p)) ls p"
  by (induction ls arbitrary: pol p) simp_all

lemma oanda_loop_lines:
  "\<exists>ls. snd (snd (oanda_loop trim r clock outcomes (pol, p))) =
     fold (\<lambda>line p. snd (process_oanda_message r clock line p)) ls p"
proof (induction outcomes arbitrary: pol p)
  case Nil
  show ?case by (rule exI [of _ "[]"]) simp
next
  case (Cons h hs)
  obtain n pol' where attempt: "begin_attempt pol = (n, pol')" by fastforce
  show ?case
  proof (cases n)
    case None
    then show ?thesis by (intro exI [of _ "[]"]) (simp add: attempt)
  next
    case (Some k)
    obtain pol2 p2 where one: "oanda_attempt trim r clock h (pol', p) = (pol2, p2)" by fastforce
    have "\<exists>ls. p2 = fold (\<lambda>line p. snd (process_oanda_message r clock line p)) ls p"
    proof (cases h)
      case (HoStream items)
      then show ?thesis using one handle_lines_eq [of r clock _ "on_connected pol'" p]
        by (auto simp: oanda_attempt_def intro!: exI [of _ "fst (consume_ndjson_stream trim [] items)"] dest: arg_cong [of _ _ snd])
    qed (use one in \<open>auto simp: oanda_attempt_def intro!: exI [of _ "[]"]\<close>)
    then obtain ls where ls: "p2 = fold (\<lambda>line p. snd (process_oanda_message r clock line p)) ls p" by blast
    obtain ls' where "snd (snd (oanda_loop trim r clock hs (pol2, p2))) =
        fold (\<lambda>line p. snd (process_oanda_message r clock line p)) ls' p2"
      using Cons.IH by blast
    then show ?thesis using Some attempt one ls by (intro exI [of _ "ls @ ls'"]) simp
  qed
qed

section \<open>Starting\<close>

text \<open>
  With a loaded configuration the pool configuration of the library is always valid, but the
  one that \<open>main\<close> builds has the default of two idle connections: the program starts exactly when the
  pool is at least of size two, and otherwise ends with an error although the size is in range.
\<close>

theorem loaded_config_starts:
  assumes "config_load cw path environment = Ok c" and "\<not> cw_url_ok cw []"
  shows "pool_config_validate (pool_config_from (fc_redis c)) = (Ok () :: (unit, 'e pool_error) result) \<and>
    (pool_config_validate (main_pool_config (fc_redis c)) = (Ok () :: (unit, 'e pool_error) result) \<longleftrightarrow> 2 \<le> unat (rd_pool_size (fc_redis c))) \<and>
    (unat (rd_pool_size (fc_redis c)) = 1 \<longrightarrow>
       redis_pool_new build (main_pool_config (fc_redis c)) = (Err (PeInvalidConfig ''min_idle cannot exceed max_size'') :: (_, 'e pool_error) result))"
proof -
  have "config_in_bounds (cw_url_ok cw) c" using config_load_Ok(1) [OF assms(1)] by (simp add: validate_all_Nil)
  then have "rd_url (fc_redis c) \<noteq> []" "\<not> rd_database (fc_redis c) > 15" "1 \<le> unat (rd_pool_size (fc_redis c))"
    using assms(2) by (auto simp: config_in_bounds_def word_less_nat_alt)
  then have main: "pool_config_validate (main_pool_config (fc_redis c)) =
      (if 2 \<le> unat (rd_pool_size (fc_redis c)) then Ok ()
       else (Err (PeInvalidConfig ''min_idle cannot exceed max_size'') :: (_, 'e pool_error) result))"
    by (simp add: pool_config_validate_def main_pool_config_def pool_config_default_def)
  show ?thesis
    using loaded_pool_config_valid [OF assms] by (simp add: main redis_pool_new_def)
qed

theorem loaded_config_starts_witness:
  "pool_config_validate (main_pool_config (redis_config_default\<lparr>rd_database := 3\<rparr>)) = (Ok () :: (_, unit pool_error) result)"
proof -
  have "\<not> cw_url_ok quiet_world []" by (simp add: quiet_world_def)
  from loaded_config_starts [where 'e = unit, OF quiet_load this]
  show ?thesis by (simp add: redis_config_default_def)
qed

end
