(* ===== verification/Adapter_Common.thy ===== *)
theory Adapter_Common
  imports Json Flash_Config
begin

text \<open>
  \<open>flash/src/network/adapters/common.rs\<close> and \<open>traits.rs\<close>: reading prices, quantities, time stamps and
  levels from JSON, and what all exchange adapters promise. JSON text, numbers of other
  crates and \<open>chrono\<close> are behind \<open>adapter_world\<close>; \<open>'x\<close> are the errors of \<open>serde_json\<close>. The clock is a
  function from the number of the reading to the time.
\<close>

section \<open>The outside\<close>

record ('q, 'n, 'x) adapter_world =
  aw_parse :: "string \<Rightarrow> 'x + 'n json"
  aw_show :: "'n json \<Rightarrow> string"
  aw_debug :: "'n json \<Rightarrow> string"
  aw_numbers :: "'n json_numbers"
  aw_f64 :: "string \<Rightarrow> string + f64"
  aw_decimal :: "string \<Rightarrow> string + 'q"
  aw_decimal_u64 :: "u64 \<Rightarrow> 'q"
  aw_number_u64 :: "u64 \<Rightarrow> 'n"
  aw_number_i64 :: "i64 \<Rightarrow> 'n"
  aw_iso :: "string \<Rightarrow> 'x + i64"
  aw_lower :: "string \<Rightarrow> string"
  aw_json_error :: "string \<Rightarrow> 'x"

definition of_sum :: "('e \<Rightarrow> 'f) \<Rightarrow> 'e + 'a \<Rightarrow> ('a, 'f) result" where
  "of_sum f r = (case r of Inl e \<Rightarrow> Err (f e) | Inr v \<Rightarrow> Ok v)"

lemma of_sum_not_Panic [simp]: "of_sum f r \<noteq> Panic"
  by (simp add: of_sum_def split: sum.split)

text \<open>\<open>str::parse::<i64>\<close>: an optional sign and digits.\<close>

definition parse_signed :: "string \<Rightarrow> i64 option" where
  "parse_signed s =
     (case s of
        [] \<Rightarrow> None
      | c # cs \<Rightarrow>
          if c = CHR ''-''
          then (if cs = [] then None else map_option (\<lambda>n. word_of_int (- int n)) (parse_digits (2 ^ 63) 0 cs))
          else map_option word_of_nat (parse_unsigned (2 ^ 63 - 1) s))"

section \<open>Fields\<close>

fun parse_price :: "('q, 'n, 'x) adapter_world \<Rightarrow> 'n json \<Rightarrow> (f64, 'x flash_error) result" where
  "parse_price w (JString s) = of_sum (\<lambda>e. FeInvalidPrice (FFin 0) (''Failed to parse price string: '' @ e)) (aw_f64 w s)"
| "parse_price w (JNumber n) =
     ok_or (FeInvalidPrice (FFin 0) ''Number not representable as f64'') (jn_f64 (aw_numbers w) n)"
| "parse_price w v = Err (FeInvalidPrice (FFin 0) (''Expected string or number, got '' @ aw_debug w v))"

definition decimal_from_str :: "('q, 'n, 'x) adapter_world \<Rightarrow> string \<Rightarrow> ('q, 'x flash_error) result" where
  "decimal_from_str w s = of_sum (\<lambda>e. FeInvalidQuantity s (''Failed to parse quantity: '' @ e)) (aw_decimal w s)"

fun parse_quantity :: "('q, 'n, 'x) adapter_world \<Rightarrow> 'n json \<Rightarrow> ('q, 'x flash_error) result" where
  "parse_quantity w (JString s) = decimal_from_str w s"
| "parse_quantity w (JNumber n) = decimal_from_str w (jn_text (aw_numbers w) n)"
| "parse_quantity w v = Err (FeInvalidQuantity (aw_debug w v) ''Expected string or number'')"

fun timestamp_number :: "('q, 'n, 'x) adapter_world \<Rightarrow> 'n json \<Rightarrow> (i64, 'x flash_error) result" where
  "timestamp_number w (JNumber n) = ok_or (FeParseError (aw_json_error w ''invalid'')) (jn_i64 (aw_numbers w) n)"
| "timestamp_number w (JString s) = ok_or (FeParseError (aw_json_error w ''invalid'')) (parse_signed s)"
| "timestamp_number w v = Err (FeParseError (aw_json_error w ''invalid''))"

definition parse_timestamp :: "('q, 'n, 'x) adapter_world \<Rightarrow> 'n json \<Rightarrow> bool \<Rightarrow> (i64, 'x flash_error) result" where
  "parse_timestamp w v is_millis =
     rbind (timestamp_number w v) (\<lambda>ts. if is_millis then i64_mul ts 1000 else Ok ts)"

definition parse_iso_timestamp :: "('q, 'n, 'x) adapter_world \<Rightarrow> string \<Rightarrow> (i64, 'x flash_error) result" where
  "parse_iso_timestamp w s = of_sum FeParseError (aw_iso w s)"

definition parse_level_array :: "('q, 'n, 'x) adapter_world \<Rightarrow> 'n json list \<Rightarrow> i64 \<Rightarrow> ('q price_level, 'x flash_error) result" where
  "parse_level_array w vs ts =
     (case vs of
        v0 # v1 # rest \<Rightarrow>
          rbind (parse_price w v0) (\<lambda>p. rbind (parse_quantity w v1) (\<lambda>q. Ok (price_level_new p q ts)))
      | _ \<Rightarrow> Err (FeParseError (aw_json_error w ''[]'')))"

text \<open>Items that are not arrays are skipped; the first bad level ends the whole.\<close>

fun parse_levels :: "('q, 'n, 'x) adapter_world \<Rightarrow> i64 \<Rightarrow> 'n json list \<Rightarrow> ('q price_level list, 'x flash_error) result" where
  "parse_levels w ts [] = Ok []"
| "parse_levels w ts (v # vs) =
     (case json_as_array v of
        None \<Rightarrow> parse_levels w ts vs
      | Some item \<Rightarrow>
          rbind (parse_level_array w item ts) (\<lambda>l. map_ok (\<lambda>ls. l # ls) (parse_levels w ts vs)))"

definition parse_levels_array :: "('q, 'n, 'x) adapter_world \<Rightarrow> 'n json \<Rightarrow> i64 \<Rightarrow> ('q price_level list, 'x flash_error) result" where
  "parse_levels_array w v ts =
     (case json_as_array v of
        None \<Rightarrow> Err (FeParseError (aw_json_error w ''not_array''))
      | Some vs \<Rightarrow> parse_levels w ts vs)"

definition get_str :: "'n json \<Rightarrow> string \<Rightarrow> string" where
  "get_str v key = (case json_str key v of Some s \<Rightarrow> s | None \<Rightarrow> [])"

definition get_i64 :: "'n json_numbers \<Rightarrow> 'n json \<Rightarrow> string \<Rightarrow> i64" where
  "get_i64 ns v key = (case Option.bind (json_get key v) (json_as_i64 ns) of Some n \<Rightarrow> n | None \<Rightarrow> 0)"

definition get_u64 :: "'n json_numbers \<Rightarrow> 'n json \<Rightarrow> string \<Rightarrow> u64" where
  "get_u64 ns v key = (case Option.bind (json_get key v) (json_as_u64 ns) of Some n \<Rightarrow> n | None \<Rightarrow> 0)"

definition contains_field :: "string \<Rightarrow> string \<Rightarrow> bool" where
  "contains_field raw field \<longleftrightarrow> str_contains field raw"

definition get_or :: "string \<Rightarrow> 'n json \<Rightarrow> 'n json \<Rightarrow> 'n json" where
  "get_or key fallback v = (case json_get key v of Some u \<Rightarrow> u | None \<Rightarrow> fallback)"

text \<open>\<open>unwrap_or_else(|_| now_micros())\<close>, with the number of clock readings so far.\<close>

fun or_now :: "(nat \<Rightarrow> i64) \<Rightarrow> nat \<Rightarrow> (i64, 'e) result \<Rightarrow> (i64 \<times> nat, 'e) result" where
  "or_now clock k (Ok ts) = Ok (ts, k)"
| "or_now clock k (Err e) = Ok (clock k, Suc k)"
| "or_now clock k Panic = Panic"

text \<open>\<open>map_or(0.0, |v| parse_price(v).unwrap_or(0.0))\<close> and the like.\<close>

definition ok_value :: "'a \<Rightarrow> ('a, 'e) result \<Rightarrow> 'a" where
  "ok_value d r = (case r of Ok v \<Rightarrow> v | _ \<Rightarrow> d)"

definition price_or_zero :: "('q, 'n, 'x) adapter_world \<Rightarrow> string \<Rightarrow> 'n json \<Rightarrow> f64" where
  "price_or_zero w key v = (case json_get key v of None \<Rightarrow> FFin 0 | Some p \<Rightarrow> ok_value (FFin 0) (parse_price w p))"

definition quantity_or_zero :: "('q::zero, 'n, 'x) adapter_world \<Rightarrow> string \<Rightarrow> 'n json \<Rightarrow> 'q" where
  "quantity_or_zero w key v = (case json_get key v of None \<Rightarrow> 0 | Some q \<Rightarrow> ok_value 0 (parse_quantity w q))"

section \<open>Rate limits\<close>

record rate_limit =
  rl_ws_messages_per_second :: u32
  rl_min_interval_ms :: u64
  rl_max_subscriptions :: u32

definition rate_limit_deribit :: rate_limit where
  "rate_limit_deribit = \<lparr>rl_ws_messages_per_second = 100, rl_min_interval_ms = 10, rl_max_subscriptions = 200\<rparr>"

definition rate_limit_binance :: rate_limit where
  "rate_limit_binance = \<lparr>rl_ws_messages_per_second = 5, rl_min_interval_ms = 200, rl_max_subscriptions = 1024\<rparr>"

definition rate_limit_oanda :: rate_limit where
  "rate_limit_oanda = \<lparr>rl_ws_messages_per_second = 120, rl_min_interval_ms = 8, rl_max_subscriptions = 100\<rparr>"

definition rate_limit_default :: rate_limit where
  "rate_limit_default = \<lparr>rl_ws_messages_per_second = 10, rl_min_interval_ms = 100, rl_max_subscriptions = 100\<rparr>"

section \<open>What every adapter promises\<close>

text \<open>
  An event of an adapter is one of its exchange, its type fits its data, and the levels of a
  book carry the time of the event.
\<close>

fun data_fits :: "i64 \<Rightarrow> market_event_type \<Rightarrow> 'q market_data \<Rightarrow> bool" where
  "data_fits ts t (MdBook bids asks) \<longleftrightarrow>
     t \<in> {MeSnapshot, MeDelta} \<and> (\<forall>l\<in>set (bids @ asks). pl_timestamp l = ts \<and> pl_order_count l = None)"
| "data_fits ts t (MdTrade p q s i) \<longleftrightarrow> t = MeTrade"
| "data_fits ts t (MdHeartbeat u) \<longleftrightarrow> t = MeHeartbeat \<and> u = ts"

definition event_fits :: "flash_exchange \<Rightarrow> 'q market_event \<Rightarrow> bool" where
  "event_fits x e \<longleftrightarrow>
     fi_exchange (mev_instrument e) = x \<and> data_fits (mev_timestamp e) (mev_event_type e) (mev_data e)"

lemma parse_levels_stamped:
  "parse_levels w ts vs = Ok ls \<Longrightarrow> \<forall>l\<in>set ls. pl_timestamp l = ts \<and> pl_order_count l = None"
  by (induction vs arbitrary: ls)
    (auto simp: rbind_Ok_iff map_ok_Ok_iff parse_level_array_def price_level_new_def split: option.splits list.splits)

lemma parse_levels_array_stamped:
  assumes "parse_levels_array w v ts = Ok ls"
  shows "\<forall>l\<in>set ls. pl_timestamp l = ts \<and> pl_order_count l = None"
proof (cases "json_as_array v")
  case (Some vs)
  with assms show ?thesis by (intro parse_levels_stamped [of w ts vs]) (simp add: parse_levels_array_def)
qed (use assms in \<open>simp add: parse_levels_array_def\<close>)

locale exchange_adapter =
  fixes exchange :: flash_exchange
    and parse_message :: "string \<Rightarrow> ('q market_event list, 'e) result"
  assumes events_fit: "parse_message raw = Ok es \<Longrightarrow> e \<in> set es \<Longrightarrow> event_fits exchange e"
begin

text \<open>What a consumer of a whole session gets: the events of the messages that parse.\<close>

lemma session_fits:
  assumes "e \<in> set (concat (map (\<lambda>raw. case parse_message raw of Ok es \<Rightarrow> es | _ \<Rightarrow> []) raws))"
  shows "event_fits exchange e"
proof -
  obtain raw where "e \<in> set (case parse_message raw of Ok es \<Rightarrow> es | _ \<Rightarrow> [])"
    using assms by auto
  then show ?thesis by (cases "parse_message raw") (simp_all add: events_fit)
qed

lemma session_books_stamped:
  "e \<in> set (concat (map (\<lambda>raw. case parse_message raw of Ok es \<Rightarrow> es | _ \<Rightarrow> []) raws)) \<Longrightarrow>
     mev_data e = MdBook bids asks \<Longrightarrow> l \<in> set bids \<union> set asks \<Longrightarrow> pl_timestamp l = mev_timestamp e"
  using session_fits [of e raws] by (auto simp: event_fits_def)

end

section \<open>Levels\<close>

text \<open>Which arrays of levels are read, and as what.\<close>

lemma parse_levels_plain:
  assumes "list_all2 (\<lambda>v l. \<exists>p q rest. v = JArray (JString p # JString q # rest) \<and>
      aw_f64 w p = Inr (pl_price l) \<and> aw_decimal w q = Inr (pl_quantity l) \<and>
      l = price_level_new (pl_price l) (pl_quantity l) ts) vs ls"
  shows "parse_levels w ts vs = Ok ls"
  using assms
  by (induction rule: list_all2_induct) (auto simp: parse_level_array_def decimal_from_str_def of_sum_def)

end
