(* ===== verification/Adapters.thy ===== *)
theory Adapters
  imports Adapter_Common
begin

text \<open>
  \<open>flash/src/network/adapters/\<close>: the adapters of OANDA (\<open>oanda.rs\<close>), Binance (\<open>binance.rs\<close>) and
  Deribit (\<open>deribit.rs\<close>), and the choice among them (\<open>mod.rs\<close>). Binance unwraps combined streams by
  printing and parsing again; that recursion has fuel.
\<close>

section \<open>Text\<close>

fun split_char :: "char \<Rightarrow> string \<Rightarrow> string list" where
  "split_char c [] = [[]]"
| "split_char c (d # ds) =
     (if d = c then [] # split_char c ds
      else (case split_char c ds of [] \<Rightarrow> [[d]] | p # ps \<Rightarrow> (d # p) # ps))"

definition str_strip_suffix :: "string \<Rightarrow> string \<Rightarrow> string option" where
  "str_strip_suffix suf s =
     (if length suf \<le> length s \<and> drop (length s - length suf) s = suf then Some (take (length s - length suf) s) else None)"

definition str_starts_with :: "string \<Rightarrow> string \<Rightarrow> bool" where
  "str_starts_with pre s \<longleftrightarrow> take (length pre) s = pre"

text \<open>\<open>str::split_at\<close> panics inside a character.\<close>

definition str_split_at :: "nat \<Rightarrow> string \<Rightarrow> (string \<times> string, 'e) result" where
  "str_split_at n s =
     (if n = length s \<or> n < length s \<and> \<not> utf8_cont (of_char (s ! n)) then Ok (take n s, drop n s) else Panic)"

definition nth_part :: "nat \<Rightarrow> string list \<Rightarrow> string option" where
  "nth_part i ps = (if i < length ps then Some (ps ! i) else None)"

section \<open>OANDA\<close>

record oanda_level_text =
  olt_price :: string
  olt_liquidity :: i64

record oanda_price =
  opr_msg_type :: string
  opr_time :: string
  opr_instrument :: string
  opr_bids :: "oanda_level_text list"
  opr_asks :: "oanda_level_text list"

record oanda_heartbeat =
  ohb_msg_type :: string
  ohb_time :: string

definition oanda_level_new :: "string \<Rightarrow> i64 \<Rightarrow> oanda_level_text" where
  "oanda_level_new p n = \<lparr>olt_price = p, olt_liquidity = n\<rparr>"

definition oanda_level_price_f64 :: "('q, 'n, 'x) adapter_world \<Rightarrow> oanda_level_text \<Rightarrow> f64 option" where
  "oanda_level_price_f64 w l = (case aw_f64 w (olt_price l) of Inr v \<Rightarrow> Some v | Inl e \<Rightarrow> None)"

definition oanda_price_is_valid :: "oanda_price \<Rightarrow> bool" where
  "oanda_price_is_valid m \<longleftrightarrow> opr_msg_type m = ''PRICE'' \<and> opr_instrument m \<noteq> []"

definition oanda_first_price :: "('q, 'n, 'x) adapter_world \<Rightarrow> oanda_level_text list \<Rightarrow> f64 option" where
  "oanda_first_price w ls = (case ls of [] \<Rightarrow> None | l # rest \<Rightarrow> oanda_level_price_f64 w l)"

definition oanda_mid_price :: "('q, 'n, 'x) adapter_world \<Rightarrow> oanda_price \<Rightarrow> f64 option" where
  "oanda_mid_price w m =
     (case (oanda_first_price w (opr_bids m), oanda_first_price w (opr_asks m)) of
        (Some bid, Some ask) \<Rightarrow> Some (f64_div (f64_add bid ask) (FFin 2)) | _ \<Rightarrow> None)"

definition oanda_spread :: "('q, 'n, 'x) adapter_world \<Rightarrow> oanda_price \<Rightarrow> f64 option" where
  "oanda_spread w m =
     (case (oanda_first_price w (opr_bids m), oanda_first_price w (opr_asks m)) of
        (Some bid, Some ask) \<Rightarrow> Some (f64_sub ask bid) | _ \<Rightarrow> None)"

definition oanda_total_liquidity :: "oanda_level_text list \<Rightarrow> (i64, 'e) result" where
  "oanda_total_liquidity ls = fold (\<lambda>l acc. rbind acc (\<lambda>n. i64_add n (olt_liquidity l))) ls (Ok 0)"

definition OANDA_WS_URL_PRACTICE :: string where
  "OANDA_WS_URL_PRACTICE = ''wss://stream-fxpractice.oanda.com/v3/accounts''"

definition OANDA_WS_URL_LIVE :: string where
  "OANDA_WS_URL_LIVE = ''wss://stream-fxtrade.oanda.com/v3/accounts''"

record oanda_adapter =
  oad_account_id :: string
  oad_access_token :: "string option"
  oad_use_live :: bool

definition oanda_adapter_new :: "string \<Rightarrow> oanda_adapter" where
  "oanda_adapter_new account = \<lparr>oad_account_id = account, oad_access_token = None, oad_use_live = False\<rparr>"

definition oanda_with_token :: "string \<Rightarrow> string \<Rightarrow> oanda_adapter" where
  "oanda_with_token account token = \<lparr>oad_account_id = account, oad_access_token = Some token, oad_use_live = False\<rparr>"

definition oanda_with_live :: "bool \<Rightarrow> oanda_adapter \<Rightarrow> oanda_adapter" where
  "oanda_with_live live a = a\<lparr>oad_use_live := live\<rparr>"

definition oanda_parse_instrument :: "string \<Rightarrow> flash_instrument" where
  "oanda_parse_instrument symbol =
     (case split_char (CHR ''_'') symbol of
        [b, q] \<Rightarrow> flash_instrument_new b q FxOanda symbol
      | _ \<Rightarrow> flash_instrument_new symbol [] FxOanda symbol)"

definition oanda_liquidity_level :: "('q, 'n, 'x) adapter_world \<Rightarrow> i64 \<Rightarrow> 'n json \<Rightarrow> 'q price_level" where
  "oanda_liquidity_level w ts v =
     price_level_new (price_or_zero w ''price'' v) (aw_decimal_u64 w (get_u64 (aw_numbers w) v ''liquidity'')) ts"

definition oanda_liquidity_levels :: "('q, 'n, 'x) adapter_world \<Rightarrow> i64 \<Rightarrow> string \<Rightarrow> 'n json \<Rightarrow> 'q price_level list" where
  "oanda_liquidity_levels w ts key v =
     (case json_as_array (get_or key (JArray []) v) of
        None \<Rightarrow> [] | Some vs \<Rightarrow> map (oanda_liquidity_level w ts) vs)"

text \<open>The time of a message, or the clock; with the number of readings.\<close>

definition oanda_time :: "('q, 'n, 'x) adapter_world \<Rightarrow> (nat \<Rightarrow> i64) \<Rightarrow> 'n json \<Rightarrow> i64 \<times> nat" where
  "oanda_time w clock v =
     (case json_str ''time'' v of
        None \<Rightarrow> (clock 0, 1)
      | Some s \<Rightarrow> (case parse_iso_timestamp w s of Ok ts \<Rightarrow> (ts, 0) | _ \<Rightarrow> (clock 0, 1)))"

definition oanda_parse_price_message :: "('q, 'n, 'x) adapter_world \<Rightarrow> (nat \<Rightarrow> i64) \<Rightarrow> 'n json \<Rightarrow> 'q market_event" where
  "oanda_parse_price_message w clock v =
     (case oanda_time w clock v of
        (ts, k) \<Rightarrow>
          \<lparr>mev_event_type = MeSnapshot, mev_instrument = oanda_parse_instrument (get_str v ''instrument''),
           mev_timestamp = ts, mev_local_timestamp = clock k, mev_sequence = None,
           mev_data = MdBook (oanda_liquidity_levels w ts ''bids'' v) (oanda_liquidity_levels w ts ''asks'' v)\<rparr>)"

definition oanda_parse_heartbeat_message :: "('q, 'n, 'x) adapter_world \<Rightarrow> (nat \<Rightarrow> i64) \<Rightarrow> 'n json \<Rightarrow> 'q market_event" where
  "oanda_parse_heartbeat_message w clock v =
     (case oanda_time w clock v of
        (ts, k) \<Rightarrow>
          \<lparr>mev_event_type = MeHeartbeat, mev_instrument = flash_instrument_new [] [] FxOanda [],
           mev_timestamp = ts, mev_local_timestamp = clock k, mev_sequence = None, mev_data = MdHeartbeat ts\<rparr>)"

definition oanda_parse_error :: "('q, 'n, 'x) adapter_world \<Rightarrow> string \<Rightarrow> 'x flash_error option" where
  "oanda_parse_error w raw =
     (case aw_parse w raw of
        Inl e \<Rightarrow> None
      | Inr v \<Rightarrow> Some (FeExchangeError ''oanda'' 0
          (case json_str ''errorMessage'' v of Some m \<Rightarrow> m | None \<Rightarrow> ''Unknown error'')))"

definition oanda_parse_message ::
  "('q, 'n, 'x) adapter_world \<Rightarrow> (nat \<Rightarrow> i64) \<Rightarrow> string \<Rightarrow> ('q market_event list, 'x flash_error) result" where
  "oanda_parse_message w clock raw =
     (case (if contains_field raw ''\"errorMessage\"'' then oanda_parse_error w raw else None) of
        Some err \<Rightarrow> Err err
      | None \<Rightarrow>
          rbind (of_sum FeParseError (aw_parse w raw)) (\<lambda>v.
          if get_str v ''type'' = ''PRICE'' then Ok [oanda_parse_price_message w clock v] else Ok []))"

definition oanda_websocket_url :: "oanda_adapter \<Rightarrow> string" where
  "oanda_websocket_url a = (if oad_use_live a then OANDA_WS_URL_LIVE else OANDA_WS_URL_PRACTICE)"

definition oanda_streaming_url :: "flash_instrument list \<Rightarrow> oanda_adapter \<Rightarrow> string" where
  "oanda_streaming_url instruments a =
     oanda_websocket_url a @ ''/'' @ oad_account_id a @ ''/pricing/stream?instruments='' @
     str_join '','' (map fi_raw_symbol instruments)"

definition oanda_is_heartbeat :: "string \<Rightarrow> bool" where
  "oanda_is_heartbeat raw \<longleftrightarrow> contains_field raw ''\"type\":\"HEARTBEAT\"''"

definition oanda_build_auth :: "oanda_adapter \<Rightarrow> string option" where
  "oanda_build_auth a = map_option (\<lambda>token. ''Authorization: Bearer '' @ token) (oad_access_token a)"

section \<open>Requests with an id\<close>

text \<open>\<open>fetch_add(1)\<close> wraps.\<close>

definition next_request_id :: "u64 \<Rightarrow> u64 \<times> u64" where
  "next_request_id n = (n, n + 1)"

section \<open>Binance\<close>

datatype update_interval = Ms1000 | Ms100

fun update_interval_as_str :: "update_interval \<Rightarrow> string" where
  "update_interval_as_str Ms1000 = []"
| "update_interval_as_str Ms100 = ''@100ms''"

definition BINANCE_WS_URL :: string where
  "BINANCE_WS_URL = ''wss://stream.binance.com:9443/ws''"

record binance_adapter =
  bad_next_id :: u64
  bad_interval :: update_interval

definition binance_with_interval :: "update_interval \<Rightarrow> binance_adapter" where
  "binance_with_interval i = \<lparr>bad_next_id = 1, bad_interval = i\<rparr>"

definition binance_default :: binance_adapter where
  "binance_default = \<lparr>bad_next_id = 1, bad_interval = Ms1000\<rparr>"

fun strip_quote :: "string list \<Rightarrow> string \<Rightarrow> (string \<times> string) option" where
  "strip_quote [] symbol = None"
| "strip_quote (q # qs) symbol =
     (case str_strip_suffix q symbol of Some base \<Rightarrow> Some (base, q) | None \<Rightarrow> strip_quote qs symbol)"

definition binance_parse_instrument :: "string \<Rightarrow> (flash_instrument, 'e) result" where
  "binance_parse_instrument symbol =
     (case strip_quote [''USDT'', ''BUSD'', ''BTC'', ''ETH'', ''BNB'', ''USD''] symbol of
        Some (base, q) \<Rightarrow> Ok (flash_instrument_new base q FxBinance symbol)
      | None \<Rightarrow>
          if length symbol > 4
          then rbind (str_split_at (length symbol - 4) symbol) (\<lambda>(base, q). Ok (flash_instrument_new base q FxBinance symbol))
          else Ok (flash_instrument_new symbol ''USDT'' FxBinance symbol))"

definition binance_event ::
  "market_event_type \<Rightarrow> flash_instrument \<Rightarrow> i64 \<Rightarrow> i64 \<Rightarrow> u64 option \<Rightarrow> 'q market_data \<Rightarrow> 'q market_event" where
  "binance_event t i ts local_ts sq d =
     \<lparr>mev_event_type = t, mev_instrument = i, mev_timestamp = ts, mev_local_timestamp = local_ts,
      mev_sequence = sq, mev_data = d\<rparr>"

definition json_u64 :: "('q, 'n, 'x) adapter_world \<Rightarrow> string \<Rightarrow> 'n json \<Rightarrow> u64 option" where
  "json_u64 w key v = Option.bind (json_get key v) (json_as_u64 (aw_numbers w))"

definition binance_parse_depth_update ::
  "('q, 'n, 'x) adapter_world \<Rightarrow> (nat \<Rightarrow> i64) \<Rightarrow> 'n json \<Rightarrow> ('q market_event, 'x flash_error) result" where
  "binance_parse_depth_update w clock v =
     rbind (binance_parse_instrument (get_str v ''s'')) (\<lambda>i.
     rbind (or_now clock 0 (parse_timestamp w (get_or ''E'' JNull v) True)) (\<lambda>(ts, k).
     rbind (parse_levels_array w (get_or ''b'' (JArray []) v) ts) (\<lambda>bids.
     rbind (parse_levels_array w (get_or ''a'' (JArray []) v) ts) (\<lambda>asks.
     Ok (binance_event MeDelta i ts (clock k) (json_u64 w ''u'' v) (MdBook bids asks))))))"

definition binance_parse_partial_depth ::
  "('q, 'n, 'x) adapter_world \<Rightarrow> (nat \<Rightarrow> i64) \<Rightarrow> 'n json \<Rightarrow> ('q market_event, 'x flash_error) result" where
  "binance_parse_partial_depth w clock v =
     (let ts = clock 0 in
      rbind (parse_levels_array w (get_or ''bids'' (JArray []) v) ts) (\<lambda>bids.
      rbind (parse_levels_array w (get_or ''asks'' (JArray []) v) ts) (\<lambda>asks.
      Ok (binance_event MeSnapshot (flash_instrument_new ''UNKNOWN'' ''USDT'' FxBinance ''UNKNOWN'') ts ts
            (json_u64 w ''lastUpdateId'' v) (MdBook bids asks)))))"

definition binance_parse_trade_message ::
  "('q::zero, 'n, 'x) adapter_world \<Rightarrow> (nat \<Rightarrow> i64) \<Rightarrow> 'n json \<Rightarrow> ('q market_event, 'x flash_error) result" where
  "binance_parse_trade_message w clock v =
     rbind (binance_parse_instrument (get_str v ''s'')) (\<lambda>i.
     rbind (or_now clock 0 (parse_timestamp w (get_or ''E'' JNull v) True)) (\<lambda>(ts, k).
     let maker = (case Option.bind (json_get ''m'' v) json_as_bool of Some b \<Rightarrow> b | None \<Rightarrow> False) in
     Ok (binance_event MeTrade i ts (clock k) None
          (MdTrade (price_or_zero w ''p'' v) (quantity_or_zero w ''q'' v) (if maker then Ask else Bid)
             (map_option (\<lambda>n. show_nat (unat n)) (json_u64 w ''t'' v))))))"

definition json_error_code :: "('q, 'n, 'x) adapter_world \<Rightarrow> string \<Rightarrow> string \<Rightarrow> (i64 \<times> string) option" where
  "json_error_code w message_key raw =
     (case aw_parse w raw of
        Inl e \<Rightarrow> None
      | Inr v \<Rightarrow>
          Option.bind (json_get ''error'' v) (\<lambda>err.
          Option.bind (Option.bind (json_get ''code'' err) (json_as_i64 (aw_numbers w))) (\<lambda>code.
          Some (code, case json_str message_key err of Some m \<Rightarrow> m | None \<Rightarrow> ''Unknown error''))))"

definition binance_parse_error :: "('q, 'n, 'x) adapter_world \<Rightarrow> string \<Rightarrow> 'x flash_error option" where
  "binance_parse_error w raw =
     map_option (\<lambda>(code, message).
       if sint code = - 1003 then FeRateLimited ''binance'' 1000
       else FeExchangeError ''binance'' (ucast code) message)
     (json_error_code w ''msg'' raw)"

definition binance_dispatch ::
  "('q::zero, 'n, 'x) adapter_world \<Rightarrow> (nat \<Rightarrow> i64) \<Rightarrow> 'n json \<Rightarrow> ('q market_event list, 'x flash_error) result" where
  "binance_dispatch w clock v =
     (let t = get_str v ''e'' in
      if t = ''depthUpdate'' then map_ok (\<lambda>e. [e]) (binance_parse_depth_update w clock v)
      else if t = ''trade'' then map_ok (\<lambda>e. [e]) (binance_parse_trade_message w clock v)
      else if t = [] \<and> json_get ''bids'' v \<noteq> None \<and> json_get ''asks'' v \<noteq> None
      then map_ok (\<lambda>e. [e]) (binance_parse_partial_depth w clock v)
      else Ok [])"

fun binance_parse_message ::
  "('q::zero, 'n, 'x) adapter_world \<Rightarrow> (nat \<Rightarrow> i64) \<Rightarrow> nat \<Rightarrow> string \<Rightarrow> ('q market_event list, 'x flash_error) result option" where
  "binance_parse_message w clock 0 raw = None"
| "binance_parse_message w clock (Suc fuel) raw =
     (case (if contains_field raw ''\"error\"'' then binance_parse_error w raw else None) of
        Some err \<Rightarrow> Some (Err err)
      | None \<Rightarrow>
          (case aw_parse w raw of
             Inl e \<Rightarrow> Some (Err (FeParseError e))
           | Inr v \<Rightarrow>
               (case json_get ''data'' v of
                  Some d \<Rightarrow> binance_parse_message w clock fuel (aw_show w d)
                | None \<Rightarrow> Some (binance_dispatch w clock v))))"

definition binance_build_stream :: "('q, 'n, 'x) adapter_world \<Rightarrow> binance_adapter \<Rightarrow> flash_instrument \<Rightarrow> string" where
  "binance_build_stream w a i = aw_lower w (fi_raw_symbol i) @ ''@depth'' @ update_interval_as_str (bad_interval a)"

definition binance_request ::
  "('q, 'n, 'x) adapter_world \<Rightarrow> string \<Rightarrow> flash_instrument list \<Rightarrow> binance_adapter \<Rightarrow> string list \<times> binance_adapter" where
  "binance_request w verb instruments a =
     (if instruments = [] then ([], a)
      else
        (case next_request_id (bad_next_id a) of
           (n, n') \<Rightarrow>
             ([aw_show w (JObject [(''method'', JString verb),
                 (''params'', JArray (map (\<lambda>i. JString (binance_build_stream w a i)) instruments)),
                 (''id'', JNumber (aw_number_u64 w n))])],
              a\<lparr>bad_next_id := n'\<rparr>)))"

definition binance_build_subscribe ::
  "('q, 'n, 'x) adapter_world \<Rightarrow> flash_instrument list \<Rightarrow> binance_adapter \<Rightarrow> string list \<times> binance_adapter" where
  "binance_build_subscribe w = binance_request w ''SUBSCRIBE''"

definition binance_build_unsubscribe ::
  "('q, 'n, 'x) adapter_world \<Rightarrow> flash_instrument list \<Rightarrow> binance_adapter \<Rightarrow> string list \<times> binance_adapter" where
  "binance_build_unsubscribe w = binance_request w ''UNSUBSCRIBE''"

definition binance_is_subscription_response :: "string \<Rightarrow> bool" where
  "binance_is_subscription_response raw \<longleftrightarrow> contains_field raw ''\"result\"'' \<and> contains_field raw ''\"id\"''"

section \<open>Deribit\<close>

datatype book_interval = BiRaw | BiMs100 | BiNone

fun book_interval_as_str :: "book_interval \<Rightarrow> string" where
  "book_interval_as_str BiRaw = ''raw''"
| "book_interval_as_str BiMs100 = ''100ms''"
| "book_interval_as_str BiNone = ''none''"

definition DERIBIT_WS_URL :: string where
  "DERIBIT_WS_URL = ''wss://www.deribit.com/ws/api/v2''"

record deribit_adapter =
  dad_next_id :: u64
  dad_interval :: book_interval

definition deribit_with_interval :: "book_interval \<Rightarrow> deribit_adapter" where
  "deribit_with_interval i = \<lparr>dad_next_id = 1, dad_interval = i\<rparr>"

definition deribit_default :: deribit_adapter where
  "deribit_default = \<lparr>dad_next_id = 1, dad_interval = BiMs100\<rparr>"

definition deribit_parse_instrument :: "string \<Rightarrow> flash_instrument" where
  "deribit_parse_instrument symbol =
     flash_instrument_new (case nth_part 0 (split_char (CHR ''-'') symbol) of Some b \<Rightarrow> b | None \<Rightarrow> symbol) ''USD'' FxDeribit symbol"

definition channel_name :: "string \<Rightarrow> string" where
  "channel_name channel = (case nth_part 1 (split_char (CHR ''.'') channel) of Some n \<Rightarrow> n | None \<Rightarrow> ''UNKNOWN'')"

definition deribit_parse_book_message ::
  "('q, 'n, 'x) adapter_world \<Rightarrow> (nat \<Rightarrow> i64) \<Rightarrow> 'n json \<Rightarrow> string \<Rightarrow> ('q market_event, 'x flash_error) result" where
  "deribit_parse_book_message w clock data channel =
     (let name = (case json_str ''instrument_name'' data of Some n \<Rightarrow> n | None \<Rightarrow> channel_name channel) in
      rbind (or_now clock 0 (parse_timestamp w (get_or ''timestamp'' JNull data) True)) (\<lambda>(ts, k).
      rbind (parse_levels_array w (get_or ''bids'' (JArray []) data) ts) (\<lambda>bids.
      rbind (parse_levels_array w (get_or ''asks'' (JArray []) data) ts) (\<lambda>asks.
      Ok \<lparr>mev_event_type = (if get_str data ''type'' = ''snapshot'' then MeSnapshot else MeDelta),
          mev_instrument = deribit_parse_instrument name, mev_timestamp = ts, mev_local_timestamp = clock k,
          mev_sequence = json_u64 w ''change_id'' data, mev_data = MdBook bids asks\<rparr>))))"

definition trade_id_of :: "('q, 'n, 'x) adapter_world \<Rightarrow> 'n json \<Rightarrow> string option" where
  "trade_id_of w v =
     (case json_as_str v of
        Some s \<Rightarrow> Some s | None \<Rightarrow> map_option (\<lambda>n. show_nat (unat n)) (json_as_u64 (aw_numbers w) v))"

fun deribit_parse_trades ::
  "('q::zero, 'n, 'x) adapter_world \<Rightarrow> (nat \<Rightarrow> i64) \<Rightarrow> nat \<Rightarrow> string \<Rightarrow> 'n json list \<Rightarrow> ('q market_event list, 'x flash_error) result" where
  "deribit_parse_trades w clock k channel [] = Ok []"
| "deribit_parse_trades w clock k channel (t # trades) =
     (let name = get_str t ''instrument_name'' in
      rbind (or_now clock k (parse_timestamp w (get_or ''timestamp'' JNull t) True)) (\<lambda>(ts, k').
      map_ok (\<lambda>es.
        \<lparr>mev_event_type = MeTrade,
         mev_instrument = deribit_parse_instrument (if name = [] then channel_name channel else name),
         mev_timestamp = ts, mev_local_timestamp = clock k', mev_sequence = None,
         mev_data = MdTrade (price_or_zero w ''price'' t) (quantity_or_zero w ''amount'' t)
           (if get_str t ''direction'' = ''buy'' then Bid else Ask)
           (Option.bind (json_get ''trade_id'' t) (trade_id_of w))\<rparr> # es)
      (deribit_parse_trades w clock (Suc k') channel trades)))"

definition deribit_parse_trade_message ::
  "('q::zero, 'n, 'x) adapter_world \<Rightarrow> (nat \<Rightarrow> i64) \<Rightarrow> 'n json \<Rightarrow> string \<Rightarrow> ('q market_event list, 'x flash_error) result" where
  "deribit_parse_trade_message w clock data channel =
     (case json_as_array data of
        None \<Rightarrow> Err (FeUnknownMessageFormat ''Expected trades array'')
      | Some trades \<Rightarrow> deribit_parse_trades w clock 0 channel trades)"

definition deribit_parse_error :: "('q, 'n, 'x) adapter_world \<Rightarrow> string \<Rightarrow> 'x flash_error option" where
  "deribit_parse_error w raw =
     map_option (\<lambda>(code, message).
       if sint code = 10020 then FeRateLimited ''deribit'' 1000
       else if sint code = 13009 then FeAuthenticationFailed ''deribit'' message
       else FeExchangeError ''deribit'' (ucast code) message)
     (json_error_code w ''message'' raw)"

definition deribit_is_heartbeat :: "string \<Rightarrow> bool" where
  "deribit_is_heartbeat raw \<longleftrightarrow> contains_field raw ''\"method\":\"heartbeat\"''"

definition deribit_parse_message ::
  "('q::zero, 'n, 'x) adapter_world \<Rightarrow> (nat \<Rightarrow> i64) \<Rightarrow> string \<Rightarrow> ('q market_event list, 'x flash_error) result" where
  "deribit_parse_message w clock raw =
     (if deribit_is_heartbeat raw then Ok []
      else
        (case (if contains_field raw ''\"error\"'' then deribit_parse_error w raw else None) of
           Some err \<Rightarrow> Err err
         | None \<Rightarrow>
             rbind (of_sum FeParseError (aw_parse w raw)) (\<lambda>v.
             if get_str v ''method'' \<noteq> ''subscription'' then Ok []
             else
               rbind (ok_or (FeUnknownMessageFormat ''Missing params'') (json_get ''params'' v)) (\<lambda>params.
               rbind (ok_or (FeUnknownMessageFormat ''Missing data in params'') (json_get ''data'' params)) (\<lambda>data.
               let channel = get_str params ''channel'' in
               if str_starts_with ''book.'' channel
               then map_ok (\<lambda>e. [e]) (deribit_parse_book_message w clock data channel)
               else if str_starts_with ''trades.'' channel then deribit_parse_trade_message w clock data channel
               else Ok [])))))"

definition deribit_build_channel :: "deribit_adapter \<Rightarrow> flash_instrument \<Rightarrow> string" where
  "deribit_build_channel a i = ''book.'' @ fi_raw_symbol i @ ''.'' @ book_interval_as_str (dad_interval a)"

definition deribit_request ::
  "('q, 'n, 'x) adapter_world \<Rightarrow> string \<Rightarrow> 'n json \<Rightarrow> deribit_adapter \<Rightarrow> string \<times> deribit_adapter" where
  "deribit_request w verb params a =
     (case next_request_id (dad_next_id a) of
        (n, n') \<Rightarrow>
          (aw_show w (JObject [(''jsonrpc'', JString ''2.0''), (''id'', JNumber (aw_number_u64 w n)),
             (''method'', JString verb), (''params'', params)]),
           a\<lparr>dad_next_id := n'\<rparr>))"

definition deribit_channels_request ::
  "('q, 'n, 'x) adapter_world \<Rightarrow> string \<Rightarrow> flash_instrument list \<Rightarrow> deribit_adapter \<Rightarrow> string list \<times> deribit_adapter" where
  "deribit_channels_request w verb instruments a =
     (if instruments = [] then ([], a)
      else
        (case deribit_request w verb
            (JObject [(''channels'', JArray (map (\<lambda>i. JString (deribit_build_channel a i)) instruments))]) a of
           (msg, a') \<Rightarrow> ([msg], a')))"

definition deribit_build_subscribe ::
  "('q, 'n, 'x) adapter_world \<Rightarrow> flash_instrument list \<Rightarrow> deribit_adapter \<Rightarrow> string list \<times> deribit_adapter" where
  "deribit_build_subscribe w = deribit_channels_request w ''public/subscribe''"

definition deribit_build_unsubscribe ::
  "('q, 'n, 'x) adapter_world \<Rightarrow> flash_instrument list \<Rightarrow> deribit_adapter \<Rightarrow> string list \<times> deribit_adapter" where
  "deribit_build_unsubscribe w = deribit_channels_request w ''public/unsubscribe''"

definition deribit_handle_ping ::
  "('q, 'n, 'x) adapter_world \<Rightarrow> bytes \<Rightarrow> deribit_adapter \<Rightarrow> bytes option \<times> deribit_adapter" where
  "deribit_handle_ping w payload a =
     (case from_utf8 payload of
        None \<Rightarrow> (None, a)
      | Some s \<Rightarrow>
          if deribit_is_heartbeat s \<or> contains_field s ''test_request''
          then (case deribit_request w ''public/test'' (JObject []) a of (msg, a') \<Rightarrow> (Some (as_bytes msg), a'))
          else (None, a))"

definition deribit_is_subscription_response :: "string \<Rightarrow> bool" where
  "deribit_is_subscription_response raw \<longleftrightarrow> contains_field raw ''\"result\"'' \<and> \<not> contains_field raw ''\"method\"''"

definition deribit_build_auth ::
  "('q, 'n, 'x) adapter_world \<Rightarrow> string \<Rightarrow> string \<Rightarrow> i64 \<Rightarrow> deribit_adapter \<Rightarrow> string option \<times> deribit_adapter" where
  "deribit_build_auth w api_key api_secret ts a =
     (case deribit_request w ''public/auth''
         (JObject [(''grant_type'', JString ''client_credentials''), (''client_id'', JString api_key),
            (''client_secret'', JString api_secret), (''timestamp'', JNumber (aw_number_i64 w ts))]) a of
        (msg, a') \<Rightarrow> (Some msg, a'))"

section \<open>Choosing an adapter\<close>

datatype any_adapter = AnyDeribit deribit_adapter | AnyBinance binance_adapter | AnyOanda oanda_adapter

fun create_adapter :: "flash_exchange \<Rightarrow> any_adapter" where
  "create_adapter FxDeribit = AnyDeribit deribit_default"
| "create_adapter FxBinance = AnyBinance binance_default"
| "create_adapter FxOanda = AnyOanda (oanda_adapter_new ''default'')"

fun any_exchange :: "any_adapter \<Rightarrow> flash_exchange" where
  "any_exchange (AnyDeribit a) = FxDeribit"
| "any_exchange (AnyBinance a) = FxBinance"
| "any_exchange (AnyOanda a) = FxOanda"

text \<open>The fuel of Binance is given; out of fuel counts as a panic.\<close>

fun any_parse_message ::
  "('q::zero, 'n, 'x) adapter_world \<Rightarrow> (nat \<Rightarrow> i64) \<Rightarrow> nat \<Rightarrow> any_adapter \<Rightarrow> string \<Rightarrow> ('q market_event list, 'x flash_error) result" where
  "any_parse_message w clock fuel (AnyDeribit a) raw = deribit_parse_message w clock raw"
| "any_parse_message w clock fuel (AnyBinance a) raw =
     (case binance_parse_message w clock fuel raw of Some r \<Rightarrow> r | None \<Rightarrow> Panic)"
| "any_parse_message w clock fuel (AnyOanda a) raw = oanda_parse_message w clock raw"

fun any_build_subscribe ::
  "('q, 'n, 'x) adapter_world \<Rightarrow> flash_instrument list \<Rightarrow> any_adapter \<Rightarrow> string list \<times> any_adapter" where
  "any_build_subscribe w is (AnyDeribit a) = map_prod id AnyDeribit (deribit_build_subscribe w is a)"
| "any_build_subscribe w is (AnyBinance a) = map_prod id AnyBinance (binance_build_subscribe w is a)"
| "any_build_subscribe w is (AnyOanda a) = ([], AnyOanda a)"

fun any_build_unsubscribe ::
  "('q, 'n, 'x) adapter_world \<Rightarrow> flash_instrument list \<Rightarrow> any_adapter \<Rightarrow> string list \<times> any_adapter" where
  "any_build_unsubscribe w is (AnyDeribit a) = map_prod id AnyDeribit (deribit_build_unsubscribe w is a)"
| "any_build_unsubscribe w is (AnyBinance a) = map_prod id AnyBinance (binance_build_unsubscribe w is a)"
| "any_build_unsubscribe w is (AnyOanda a) = ([], AnyOanda a)"

fun any_handle_ping :: "('q, 'n, 'x) adapter_world \<Rightarrow> bytes \<Rightarrow> any_adapter \<Rightarrow> bytes option \<times> any_adapter" where
  "any_handle_ping w payload (AnyDeribit a) = map_prod id AnyDeribit (deribit_handle_ping w payload a)"
| "any_handle_ping w payload a = (None, a)"

fun any_is_heartbeat :: "any_adapter \<Rightarrow> string \<Rightarrow> bool" where
  "any_is_heartbeat (AnyDeribit a) raw = deribit_is_heartbeat raw"
| "any_is_heartbeat (AnyBinance a) raw = False"
| "any_is_heartbeat (AnyOanda a) raw = oanda_is_heartbeat raw"

fun any_is_subscription_response :: "any_adapter \<Rightarrow> string \<Rightarrow> bool" where
  "any_is_subscription_response (AnyDeribit a) raw = deribit_is_subscription_response raw"
| "any_is_subscription_response (AnyBinance a) raw = binance_is_subscription_response raw"
| "any_is_subscription_response (AnyOanda a) raw = False"

fun any_websocket_url :: "any_adapter \<Rightarrow> string" where
  "any_websocket_url (AnyDeribit a) = DERIBIT_WS_URL"
| "any_websocket_url (AnyBinance a) = BINANCE_WS_URL"
| "any_websocket_url (AnyOanda a) = oanda_websocket_url a"

fun any_rate_limit :: "any_adapter \<Rightarrow> rate_limit" where
  "any_rate_limit (AnyDeribit a) = rate_limit_deribit"
| "any_rate_limit (AnyBinance a) = rate_limit_binance"
| "any_rate_limit (AnyOanda a) = rate_limit_oanda"

section \<open>The adapters keep the contract\<close>

lemma or_now_event: "or_now clock k r = Ok v \<Longrightarrow> \<exists>ts k'. v = (ts, k')"
  by (cases v) simp

lemma oanda_events_fit:
  "oanda_parse_message w clock raw = Ok es \<Longrightarrow> e \<in> set es \<Longrightarrow> event_fits FxOanda e"
  by (auto simp: oanda_parse_message_def rbind_Ok_iff event_fits_def oanda_parse_price_message_def
      oanda_parse_instrument_def flash_instrument_new_def oanda_liquidity_levels_def oanda_liquidity_level_def
      price_level_new_def split: option.splits if_splits prod.splits list.splits)

lemma binance_instrument_exchange: "binance_parse_instrument symbol = Ok i \<Longrightarrow> fi_exchange i = FxBinance"
  by (auto simp: binance_parse_instrument_def flash_instrument_new_def rbind_Ok_iff split: option.splits if_splits prod.splits)

lemma binance_dispatch_fits:
  assumes "binance_dispatch w clock v = Ok es" "e \<in> set es"
  shows "event_fits FxBinance e"
proof -
  note defs = binance_parse_depth_update_def binance_parse_trade_message_def binance_parse_partial_depth_def Let_def
    rbind_Ok_iff event_fits_def binance_event_def flash_instrument_new_def
  note stamped = parse_levels_array_stamped binance_instrument_exchange
  have "event_fits FxBinance e" if "binance_parse_depth_update w clock v = Ok e"
    using that by (auto simp: defs dest!: stamped)
  moreover have "event_fits FxBinance e" if "binance_parse_trade_message w clock v = Ok e"
    using that by (auto simp: defs dest!: stamped)
  moreover have "event_fits FxBinance e" if "binance_parse_partial_depth w clock v = Ok e"
    using that by (auto simp: defs dest!: stamped)
  ultimately show ?thesis
    using assms by (auto simp: binance_dispatch_def Let_def map_ok_Ok_iff split: if_splits)
qed

lemma binance_events_fit:
  "binance_parse_message w clock fuel raw = Some (Ok es) \<Longrightarrow> e \<in> set es \<Longrightarrow> event_fits FxBinance e"
  by (induction fuel arbitrary: raw) (auto simp: binance_dispatch_fits split: option.splits sum.splits)

lemma deribit_trades_fit:
  "deribit_parse_trades w clock k channel ts = Ok es \<Longrightarrow> e \<in> set es \<Longrightarrow> event_fits FxDeribit e"
  by (induction ts arbitrary: k es)
    (auto simp: rbind_Ok_iff map_ok_Ok_iff event_fits_def deribit_parse_instrument_def flash_instrument_new_def Let_def)

lemma deribit_book_fits:
  "deribit_parse_book_message w clock data channel = Ok e \<Longrightarrow> event_fits FxDeribit e"
  by (auto simp: deribit_parse_book_message_def Let_def rbind_Ok_iff event_fits_def deribit_parse_instrument_def
      flash_instrument_new_def dest!: parse_levels_array_stamped)

lemma deribit_events_fit:
  assumes "deribit_parse_message w clock raw = Ok es" "e \<in> set es"
  shows "event_fits FxDeribit e"
proof -
  have "es = [] \<or> (\<exists>data channel. map_ok (\<lambda>e. [e]) (deribit_parse_book_message w clock data channel) = Ok es \<or>
      deribit_parse_trade_message w clock data channel = Ok es)"
    using assms(1) by (auto simp: deribit_parse_message_def rbind_Ok_iff Let_def split: if_splits option.splits)
  then show ?thesis
    using assms(2) deribit_book_fits deribit_trades_fit
    by (auto simp: deribit_parse_trade_message_def map_ok_Ok_iff split: option.splits)
qed

end
