(* ===== verification/Adapters_Contract.thy ===== *)
theory Adapters_Contract
  imports Adapters
begin

text \<open>
  The adapters as providers of \<open>exchange_adapter\<close>, the end of Binance's unwrapping, and inputs on which the
  readers of symbols and time stamps panic.
\<close>

interpretation oanda_feed: exchange_adapter FxOanda "oanda_parse_message w clock"
  for w :: "('q, 'n, 'x) adapter_world" and clock :: "nat \<Rightarrow> i64"
  by unfold_locales (rule oanda_events_fit)

interpretation deribit_feed: exchange_adapter FxDeribit "deribit_parse_message w clock"
  for w :: "('q::zero, 'n, 'x) adapter_world" and clock :: "nat \<Rightarrow> i64"
  by unfold_locales (rule deribit_events_fit)

lemma any_events_fit:
  assumes "any_parse_message w clock fuel a raw = Ok es" "e \<in> set es"
  shows "event_fits (any_exchange a) e"
proof (cases a)
  case (AnyDeribit d)
  then show ?thesis using assms deribit_feed.events_fit by simp
next
  case (AnyBinance b)
  then show ?thesis using assms binance_events_fit by (auto split: option.splits)
next
  case (AnyOanda o')
  then show ?thesis using assms oanda_feed.events_fit by simp
qed

interpretation any_feed: exchange_adapter "any_exchange a" "any_parse_message w clock fuel a"
  for w :: "('q::zero, 'n, 'x) adapter_world" and clock :: "nat \<Rightarrow> i64" and fuel :: nat and a :: any_adapter
  by unfold_locales (rule any_events_fit)

lemma create_adapter_exchange [simp]: "any_exchange (create_adapter x) = x"
  by (cases x) simp_all

section \<open>Sessions\<close>

text \<open>
  C27: Whatever text an exchange sends, every event of the session of its adapter is an event
  of that exchange whose type fits its data, and the levels of a book carry the time of the
  event.
\<close>

theorem adapter_sessions_typed:
  assumes "e \<in> set (concat (map (\<lambda>raw. case any_parse_message w clock fuel (create_adapter x) raw of
      Ok es \<Rightarrow> es | _ \<Rightarrow> []) raws))"
  shows "fi_exchange (mev_instrument e) = x \<and>
    (md_is_book (mev_data e) \<longleftrightarrow> mev_event_type e \<in> {MeSnapshot, MeDelta}) \<and>
    (md_is_trade (mev_data e) \<longleftrightarrow> mev_event_type e = MeTrade) \<and>
    (\<forall>bids asks. mev_data e = MdBook bids asks \<longrightarrow> (\<forall>l\<in>set bids \<union> set asks. pl_timestamp l = mev_timestamp e))"
proof -
  have fits: "event_fits x e" using any_feed.session_fits [OF assms] by simp
  then have "(md_is_book (mev_data e) \<longleftrightarrow> mev_event_type e \<in> {MeSnapshot, MeDelta}) \<and>
      (md_is_trade (mev_data e) \<longleftrightarrow> mev_event_type e = MeTrade)"
    by (cases "mev_data e") (auto simp: event_fits_def)
  then show ?thesis using fits any_feed.session_books_stamped [OF assms] by (auto simp: event_fits_def)
qed

definition sample_trade :: "int json" where
  "sample_trade =
     JObject [(''method'', JString ''subscription''),
       (''params'', JObject [(''channel'', JString ''trades.BTC-PERPETUAL.raw''),
          (''data'', JArray [JObject [(''timestamp'', JNumber 5), (''price'', JNumber 2), (''direction'', JString ''buy'')]])])]"

definition sample_adapter_world :: "(int, int, string) adapter_world" where
  "sample_adapter_world =
     \<lparr>aw_parse = (\<lambda>s. Inr sample_trade), aw_show = (\<lambda>v. ''{}''), aw_debug = (\<lambda>v. []),
      aw_numbers = \<lparr>jn_i64 = (\<lambda>n. Some (word_of_int n)), jn_u64 = (\<lambda>n. Some (word_of_int n)),
                    jn_f64 = (\<lambda>n. Some (FFin (of_int n))), jn_text = (\<lambda>n. [])\<rparr>,
      aw_f64 = (\<lambda>s. Inl ''no''), aw_decimal = (\<lambda>s. Inl ''no''), aw_decimal_u64 = uint,
      aw_number_u64 = uint, aw_number_i64 = sint, aw_iso = (\<lambda>s. Inl ''no''), aw_lower = (\<lambda>s. s),
      aw_json_error = (\<lambda>s. s)\<rparr>"

theorem adapter_sessions_typed_witness:
  "\<exists>e. any_parse_message sample_adapter_world (\<lambda>n. 9) 1 (create_adapter FxDeribit) ''{}'' = Ok [e] \<and>
     fi_exchange (mev_instrument e) = FxDeribit \<and> (md_is_trade (mev_data e) \<longleftrightarrow> mev_event_type e = MeTrade)"
proof -
  have ms: "i64_mul 5 1000 = (Ok 5000 :: (i64, string flash_error) result)"
    by (simp add: i64_mul_def i64_checked_def in_i64_def)
  obtain e where e: "any_parse_message sample_adapter_world (\<lambda>n. 9) 1 (create_adapter FxDeribit) ''{}'' = Ok [e]"
    by (simp add: deribit_parse_message_def deribit_is_heartbeat_def contains_field_def sample_adapter_world_def
        sample_trade_def of_sum_def get_str_def json_str_def str_starts_with_def deribit_parse_trade_message_def
        get_or_def parse_timestamp_def ms Let_def)
  show ?thesis
    using adapter_sessions_typed [of e sample_adapter_world "\<lambda>n. 9" 1 FxDeribit "[''{}'']"] e by simp
qed

section \<open>Combined streams\<close>

lemma json_get_size: "json_get key v = Some u \<Longrightarrow> size u < size v"
proof (cases v)
  case (JObject ms)
  moreover have "map_of ms key = Some u \<Longrightarrow> size u < Suc (size_list (size_prod (\<lambda>_. 0) size) ms)"
    by (induction ms) (auto split: if_splits)
  ultimately show "json_get key v = Some u \<Longrightarrow> size u < size v" by simp
qed simp_all

lemma binance_fuel_suffices:
  assumes "\<And>v u. aw_parse w (aw_show w v) = Inr u \<Longrightarrow> size u \<le> size v"
    and "\<And>u. aw_parse w raw = Inr u \<Longrightarrow> size u < fuel" and "0 < fuel"
  shows "\<exists>r. \<forall>more. binance_parse_message w clock (fuel + more) raw = Some r"
  using assms(2,3)
proof (induction fuel arbitrary: raw)
  case (Suc fuel)
  show ?case
  proof (cases "\<exists>v d. aw_parse w raw = Inr v \<and> json_get ''data'' v = Some d")
    case True
    then obtain v d where v: "aw_parse w raw = Inr v" "json_get ''data'' v = Some d" by blast
    have d: "size d < fuel" using json_get_size [OF v(2)] Suc.prems(1) [OF v(1)] by simp
    then obtain r where r: "\<forall>more. binance_parse_message w clock (fuel + more) (aw_show w d) = Some r"
      using Suc.IH [of "aw_show w d"] assms(1) [of d] by fastforce
    show ?thesis
    proof (cases "if contains_field raw ''\"error\"'' then binance_parse_error w raw else None")
      case None
      then show ?thesis using v r by auto
    next
      case (Some e)
      then show ?thesis using v by (auto split: if_splits)
    qed
  next
    case False
    then show ?thesis by (cases "aw_parse w raw"; cases "binance_parse_error w raw") auto
  qed
qed simp

text \<open>
  C34: Unwrapping combined streams ends: printing and parsing a value back makes it no larger
  (it gives the value itself), so for every text there is an amount of fuel from which on
  the result is there and no longer depends on the fuel.
\<close>

theorem binance_unwrapping_ends:
  assumes "\<And>v u. aw_parse w (aw_show w v) = Inr u \<Longrightarrow> size u \<le> size v"
  shows "\<exists>r n. \<forall>fuel\<ge>n. binance_parse_message w clock fuel raw = Some r"
proof -
  let ?n = "case aw_parse w raw of Inr u \<Rightarrow> Suc (size u) | Inl e \<Rightarrow> 1"
  have fuel: "0 < ?n" "\<And>u. aw_parse w raw = Inr u \<Longrightarrow> size u < ?n" by (simp_all split: sum.split)
  obtain r where r: "\<forall>more. binance_parse_message w clock (?n + more) raw = Some r"
    using binance_fuel_suffices [where w = w and raw = raw and fuel = ?n and clock = clock, OF assms fuel(2,1)] by blast
  have "binance_parse_message w clock fuel raw = Some r" if "?n \<le> fuel" for fuel
    using r [rule_format, of "fuel - ?n"] that by simp
  then show ?thesis by blast
qed

lemma json_size_pos: "0 < size (v :: 'n json)"
  by (cases v) simp_all

definition null_world :: "(int, int, string) adapter_world" where
  "null_world = sample_adapter_world\<lparr>aw_parse := (\<lambda>s. if s = ''{}'' then Inr JNull else Inr (JObject [(''data'', JNull)]))\<rparr>"

theorem binance_unwrapping_ends_witness:
  "\<exists>r n. \<forall>fuel\<ge>n. binance_parse_message null_world (\<lambda>n. 9) fuel ''x'' = Some r"
  by (rule binance_unwrapping_ends) (auto simp: null_world_def sample_adapter_world_def Suc_le_eq json_size_pos)

section \<open>Inputs that panic\<close>

text \<open>A symbol whose last four bytes begin inside a character, and a time stamp that overflows in microseconds.\<close>

theorem binance_symbol_panics:
  "binance_parse_instrument (''AB'' @ [CHR 0xC3, CHR 0xA9] @ ''CDE'') = (Panic :: (_, unit flash_error) result)"
  by (simp add: binance_parse_instrument_def str_strip_suffix_def str_split_at_def utf8_cont_def of_char_def)

theorem huge_timestamp_panics:
  "parse_timestamp sample_adapter_world (JNumber (2 ^ 62)) True = (Panic :: (i64, string flash_error) result)"
  by (simp add: parse_timestamp_def sample_adapter_world_def i64_mul_def i64_checked_def in_i64_def)

end
