(* ===== verification/Cli.thy ===== *)
theory Cli
  imports Tap Verify_Report
begin

text \<open>
  \<open>cli.rs\<close> and \<open>bin/main.rs\<close>: the commands of the \<open>blackbox\<close> program over the reader of journals. A file is
  what the operating system gives for its path; argument parsing is left out, a command is a value. The order in
  which the hash map of the record types is walked is the argument \<open>order\<close>.
\<close>

section \<open>Formats and errors\<close>

datatype output_format = OfText | OfJson | OfSummary

definition output_format_from_str :: "(string \<Rightarrow> string) \<Rightarrow> string \<Rightarrow> (output_format, string) result" where
  "output_format_from_str lower s =
     (if lower s = ''text'' then Ok OfText
      else if lower s = ''json'' then Ok OfJson
      else if lower s = ''summary'' then Ok OfSummary
      else Err (''Invalid format '' @ [CHR 39] @ s @ [CHR 39] @ ''. Valid values: text, json, summary''))"

fun output_format_display :: "output_format \<Rightarrow> string" where
  "output_format_display OfText = ''text''"
| "output_format_display OfJson = ''json''"
| "output_format_display OfSummary = ''summary''"

datatype cli_error =
    CliFileNotFound string
  | CliReaderError reader_error
  | CliIo io_error
  | CliInvalidArgument string

definition hex_word :: "string \<Rightarrow> u32 \<Rightarrow> string" where
  "hex_word digits v = map (\<lambda>i. digits ! (unat v div 16 ^ i mod 16)) (rev [0..<8])"

fun reader_error_display :: "(io_error \<Rightarrow> string) \<Rightarrow> reader_error \<Rightarrow> string" where
  "reader_error_display show_io (RdIo e) = ''I/O error: '' @ show_io e"
| "reader_error_display show_io (RdInvalidHeader e) = ''Invalid header: '' @ header_error_display e"
| "reader_error_display show_io (RdCorruptRecord offset expected actual) =
     ''Corrupt record at offset '' @ show_nat (unat offset) @ '': CRC mismatch (expected '' @
     hex_word ''0123456789abcdef'' expected @ '', got '' @ hex_word ''0123456789abcdef'' actual @ '')''"
| "reader_error_display show_io (RdUnexpectedEof expected available) =
     ''Unexpected end of file: expected '' @ show_nat expected @ '' bytes, only '' @ show_nat available @ '' available''"
| "reader_error_display show_io (RdFileTooSmall expected actual) =
     ''File too small: expected at least '' @ show_nat expected @ '' bytes, got '' @ show_nat actual"
| "reader_error_display show_io (RdSchemaDecompress msg) = ''Schema decompression failed: '' @ msg"
| "reader_error_display show_io (RdInvalidSchemaBlock e) = ''Invalid schema block: '' @ header_error_display e"
| "reader_error_display show_io (RdSchemaHashMismatch expected actual) =
     ''Schema hash mismatch: expected 0x'' @ hex_word ''0123456789ABCDEF'' expected @ '', computed 0x'' @
     hex_word ''0123456789ABCDEF'' actual"

fun cli_error_display :: "(io_error \<Rightarrow> string) \<Rightarrow> cli_error \<Rightarrow> string" where
  "cli_error_display show_io (CliFileNotFound path) = ''Journal file not found: '' @ path"
| "cli_error_display show_io (CliReaderError e) = ''Journal read error: '' @ reader_error_display show_io e"
| "cli_error_display show_io (CliIo e) = ''I/O error: '' @ show_io e"
| "cli_error_display show_io (CliInvalidArgument msg) = ''Invalid argument: '' @ msg"

definition replace_char :: "char \<Rightarrow> string \<Rightarrow> string \<Rightarrow> string" where
  "replace_char c by s = concat (map (\<lambda>x. if x = c then by else [x]) s)"

fun record_type_debug :: "record_type \<Rightarrow> string" where
  "record_type_debug RtUnknown = ''Unknown''"
| "record_type_debug RtSessionStart = ''SessionStart''"
| "record_type_debug RtSessionEnd = ''SessionEnd''"
| "record_type_debug RtCheckpoint = ''Checkpoint''"
| "record_type_debug RtRawFrame = ''RawFrame''"
| "record_type_debug RtQuoteUpdate = ''QuoteUpdate''"
| "record_type_debug RtTrade = ''Trade''"
| "record_type_debug RtBookSnapshot = ''BookSnapshot''"
| "record_type_debug RtOrderSubmit = ''OrderSubmit''"
| "record_type_debug RtOrderAck = ''OrderAck''"
| "record_type_debug RtOrderFill = ''OrderFill''"
| "record_type_debug RtOrderCancel = ''OrderCancel''"
| "record_type_debug RtStateChange = ''StateChange''"
| "record_type_debug RtSignal = ''Signal''"

section \<open>Opening and iterating\<close>

text \<open>What the operating system says of a path: whether it exists, its contents, its length.\<close>

record cli_file =
  clf_path :: string
  clf_exists :: bool
  clf_mapped :: "(bytes, io_error) result"
  clf_len :: "(u64, io_error) result"

definition cli_open :: "deps \<Rightarrow> cli_file \<Rightarrow> (journal_reader, cli_error) result" where
  "cli_open d f =
     (if \<not> clf_exists f then Err (CliFileNotFound (clf_path f))
      else map_err CliReaderError (reader_open d (clf_mapped f)))"

text \<open>
  \<open>for result in reader\<close>: the body gives the next state and whether the loop goes on. Errors of the reader are
  items; \<open>read_next\<close> itself has no other error.
\<close>

function for_each ::
  "deps \<Rightarrow> (reader_error + jrecord \<Rightarrow> 's \<Rightarrow> ('s \<times> bool, 'e) result) \<Rightarrow> journal_reader \<Rightarrow> 's \<Rightarrow> ('s, 'e) result" where
  "for_each d body r s =
     (case read_next d r of
        Ok (None, r') \<Rightarrow> Ok s
      | Ok (Some x, r') \<Rightarrow>
          (case body x s of
             Ok (s', continue) \<Rightarrow> if continue then for_each d body r' s' else Ok s'
           | Err e \<Rightarrow> Err e
           | Panic \<Rightarrow> Panic)
      | _ \<Rightarrow> Panic)"
  by auto
termination
proof (relation "measure (\<lambda>(d, body, r, s). if jr_finished r then 0 else Suc (length (jr_mmap r) - jr_read_position r))")
  fix d :: deps and body :: "reader_error + jrecord \<Rightarrow> 's \<Rightarrow> ('s \<times> bool, 'e) result" and r s p o' r' x q s' c
  assume "read_next d r = Ok p" and "(o', r') = p" and "o' = Some x"
  with read_next_ok [of d r "Some x" r']
  have "same_file r r'" "\<not> jr_finished r" "jr_finished r' \<or> moves_to r r'" by auto
  then show "((d, body, r', s'), d, body, r, s) \<in> measure (\<lambda>(d, body, r, s). if jr_finished r then 0
      else Suc (length (jr_mmap r) - jr_read_position r))"
    by (auto simp: moves_to_def same_file_def)
qed simp

declare for_each.simps [simp del]


section \<open>info\<close>

record journal_info =
  jin_path :: string
  jin_file_size :: u64
  jin_format_version :: "u8 \<times> u8"
  jin_schema_version :: "u8 \<times> u8"
  jin_session_start :: i64
  jin_session_end :: i64
  jin_record_count :: u64
  jin_schema_xml :: "string option"

definition execute_info :: "deps \<Rightarrow> cli_file \<Rightarrow> bool \<Rightarrow> (journal_info, cli_error) result" where
  "execute_info d f show_schema =
     rbind (cli_open d f) (\<lambda>r.
     rbind (map_err CliIo (clf_len f)) (\<lambda>len.
     let h = jr_header r in
     Ok \<lparr>jin_path = clf_path f, jin_file_size = len,
         jin_format_version = (fh_format_major h, fh_format_minor h),
         jin_schema_version = (fh_schema_major h, fh_schema_minor h),
         jin_session_start = fh_session_start h, jin_session_end = fh_session_end h,
         jin_record_count = fh_record_count h,
         jin_schema_xml = (if show_schema then Some (jr_schema_xml r) else None)\<rparr>))"

definition show_u8 :: "u8 \<Rightarrow> string" where
  "show_u8 v = show_nat (unat v)"

definition show_version :: "u8 \<times> u8 \<Rightarrow> string" where
  "show_version v = show_u8 (fst v) @ ''.'' @ show_u8 (snd v)"

text \<open>Microseconds as seconds, with two digits.\<close>

definition show_seconds :: "i64 \<Rightarrow> string" where
  "show_seconds us = f64_fixed 2 (f64_div (f64_of_int (sint us)) (FFin 1000000))"

definition i64_max0 :: "i64 \<Rightarrow> i64" where
  "i64_max0 x = (if sint x < 0 then 0 else x)"

definition micro_sign :: string where
  "micro_sign = [CHR 0xCE, CHR 0xBC]"

definition journal_info_to_text :: "journal_info \<Rightarrow> (string, 'e) result" where
  "journal_info_to_text i =
     map_ok (\<lambda>duration.
       join_with nl
         ([''Journal: '' @ jin_path i,
           ''File size: '' @ show_nat (unat (jin_file_size i)) @ '' bytes'',
           ''Format version: '' @ show_version (jin_format_version i),
           ''Schema version: '' @ show_version (jin_schema_version i),
           ''Session start: '' @ show_int (sint (jin_session_start i)) @ '' '' @ micro_sign @ ''s'',
           ''Session end: '' @ show_int (sint (jin_session_end i)) @ '' '' @ micro_sign @ ''s'',
           ''Duration: '' @ show_seconds (i64_max0 duration) @ '' seconds'',
           ''Record count: '' @ show_nat (unat (jin_record_count i))] @
          (case jin_schema_xml i of None \<Rightarrow> [] | Some xml \<Rightarrow> [[], ''--- Embedded Schema ---'', xml])))
       (i64_sub (jin_session_end i) (jin_session_start i))"

definition journal_info_to_json :: "journal_info \<Rightarrow> string" where
  "journal_info_to_json i =
     ''{'' @ nl @
     ''  '' @ json_field ''path'' (json_string (replace_char (CHR 92) [CHR 92, CHR 92] (jin_path i))) @ '','' @ nl @
     ''  '' @ json_field ''file_size'' (show_nat (unat (jin_file_size i))) @ '','' @ nl @
     ''  '' @ json_field ''format_version'' (json_string (show_version (jin_format_version i))) @ '','' @ nl @
     ''  '' @ json_field ''schema_version'' (json_string (show_version (jin_schema_version i))) @ '','' @ nl @
     ''  '' @ json_field ''session_start'' (show_int (sint (jin_session_start i))) @ '','' @ nl @
     ''  '' @ json_field ''session_end'' (show_int (sint (jin_session_end i))) @ '','' @ nl @
     ''  '' @ json_field ''record_count'' (show_nat (unat (jin_record_count i))) @ nl @
     ''}'' @ nl"

definition journal_info_summary :: "journal_info \<Rightarrow> (string, 'e) result" where
  "journal_info_summary i =
     map_ok (\<lambda>duration. jin_path i @ '': '' @ show_nat (unat (jin_record_count i)) @ '' records, '' @
         show_seconds duration @ ''s duration'')
       (i64_sub (jin_session_end i) (jin_session_start i))"

section \<open>stats\<close>

record journal_stats =
  jst_total_records :: u64
  jst_total_payload_bytes :: u64
  jst_records_by_type :: "(record_type \<times> u64) list"
  jst_session_duration_us :: i64
  jst_avg_record_size :: f64
  jst_records_per_second :: f64

text \<open>Counting a record: one more record, its bytes, one more of its type.\<close>

fun bump :: "record_type \<Rightarrow> (record_type \<times> u64) list \<Rightarrow> ((record_type \<times> u64) list, 'e) result" where
  "bump t [] = Ok [(t, 1)]"
| "bump t ((u, n) # counts) =
     (if u = t then map_ok (\<lambda>m. (u, m) # counts) (u64_incr n) else map_ok (\<lambda>cs. (u, n) # cs) (bump t counts))"

definition u64_plus :: "u64 \<Rightarrow> usize \<Rightarrow> (u64, 'e) result" where
  "u64_plus a n = (if unat a + n < 2 ^ 64 then Ok (a + of_nat n) else Panic)"

fun count_record ::
  "reader_error + jrecord \<Rightarrow> u64 \<times> u64 \<times> (record_type \<times> u64) list \<Rightarrow>
     ((u64 \<times> u64 \<times> (record_type \<times> u64) list) \<times> bool, cli_error) result" where
  "count_record (Inl e) s = Err (CliReaderError e)"
| "count_record (Inr x) (n, nbytes, counts) =
     rbind (u64_incr n) (\<lambda>n'.
     rbind (u64_plus nbytes (length (jr_payload x))) (\<lambda>nbytes'.
     rbind (bump (jrecord_record_type x) counts) (\<lambda>counts'. Ok ((n', nbytes', counts'), True))))"

definition f64_of_u64 :: "u64 \<Rightarrow> f64" where
  "f64_of_u64 n = f64_of_int (uint n)"

definition execute_stats ::
  "deps \<Rightarrow> ((record_type \<times> u64) list \<Rightarrow> (record_type \<times> u64) list) \<Rightarrow> cli_file \<Rightarrow> (journal_stats, cli_error) result" where
  "execute_stats d order f =
     rbind (cli_open d f) (\<lambda>r.
     rbind (i64_sub (fh_session_end (jr_header r)) (fh_session_start (jr_header r))) (\<lambda>span.
     let duration = i64_max0 span in
     rbind (for_each d count_record r (0, 0, [])) (\<lambda>(n, nbytes, counts).
     Ok \<lparr>jst_total_records = n, jst_total_payload_bytes = nbytes,
         jst_records_by_type = sort_key (\<lambda>p. - uint (snd p)) (order counts),
         jst_session_duration_us = duration,
         jst_avg_record_size = (if n > 0 then f64_div (f64_of_u64 nbytes) (f64_of_u64 n) else FFin 0),
         jst_records_per_second =
           (if sint duration > 0
            then f64_div (f64_mul (f64_of_u64 n) (FFin 1000000)) (f64_of_int (sint duration)) else FFin 0)\<rparr>)))"

definition type_line :: "u64 \<Rightarrow> record_type \<times> u64 \<Rightarrow> string" where
  "type_line all p =
     ''  '' @ record_type_debug (fst p) @ '': '' @ show_nat (unat (snd p)) @ '' ('' @
     f64_fixed 1 (if all > 0 then f64_mul (f64_div (f64_of_u64 (snd p)) (f64_of_u64 all)) (FFin 100) else FFin 0) @
     ''%)''"

definition journal_stats_to_text :: "bool \<Rightarrow> journal_stats \<Rightarrow> string" where
  "journal_stats_to_text detailed s =
     join_with nl
       ([''Total records: '' @ show_nat (unat (jst_total_records s)),
         ''Total payload bytes: '' @ show_nat (unat (jst_total_payload_bytes s)),
         ''Average record size: '' @ f64_fixed 2 (jst_avg_record_size s) @ '' bytes'',
         ''Session duration: '' @ show_seconds (jst_session_duration_us s) @ '' seconds'',
         ''Records per second: '' @ f64_fixed 2 (jst_records_per_second s)] @
        (if detailed \<and> jst_records_by_type s \<noteq> []
         then [[], ''--- Records by Type ---''] @ map (type_line (jst_total_records s)) (jst_records_by_type s)
         else []))"

fun json_type_counts :: "(record_type \<times> u64) list \<Rightarrow> string" where
  "json_type_counts [] = []"
| "json_type_counts ((t, n) # ps) =
     ''    '' @ json_field (record_type_debug t) (show_nat (unat n)) @ (if ps = [] then [] else '','') @ nl @
     json_type_counts ps"

definition journal_stats_to_json :: "journal_stats \<Rightarrow> string" where
  "journal_stats_to_json s =
     ''{'' @ nl @
     ''  '' @ json_field ''total_records'' (show_nat (unat (jst_total_records s))) @ '','' @ nl @
     ''  '' @ json_field ''total_payload_bytes'' (show_nat (unat (jst_total_payload_bytes s))) @ '','' @ nl @
     ''  '' @ json_field ''avg_record_size'' (f64_fixed 2 (jst_avg_record_size s)) @ '','' @ nl @
     ''  '' @ json_field ''session_duration_us'' (show_int (sint (jst_session_duration_us s))) @ '','' @ nl @
     ''  '' @ json_field ''records_per_second'' (f64_fixed 2 (jst_records_per_second s)) @ '','' @ nl @
     ''  '' @ json_field ''records_by_type'' ''{'' @ nl @ json_type_counts (jst_records_by_type s) @
     ''  }'' @ nl @ ''}'' @ nl"

definition journal_stats_summary :: "journal_stats \<Rightarrow> string" where
  "journal_stats_summary s =
     show_nat (unat (jst_total_records s)) @ '' records, '' @ f64_fixed 2 (jst_avg_record_size s) @ '' bytes avg, '' @
     f64_fixed 0 (jst_records_per_second s) @ '' rec/sec''"

section \<open>dump\<close>

record dumped_record =
  dmp_index :: usize
  dmp_timestamp :: i64
  dmp_record_type :: record_type
  dmp_exchange_id :: u8
  dmp_payload_size :: usize
  dmp_payload_preview :: string

definition hex_preview :: "bytes \<Rightarrow> usize \<Rightarrow> string" where
  "hex_preview bs limit = concat (map hex2 (take limit bs)) @ (if length bs > limit then ''...'' else [])"

text \<open>\<open>is_ascii_graphic\<close> or \<open>is_ascii_whitespace\<close>.\<close>

definition printable :: "char \<Rightarrow> bool" where
  "printable c \<longleftrightarrow> (let n = (of_char c :: nat) in 33 \<le> n \<and> n \<le> 126 \<or> n \<in> {32, 9, 10, 12, 13})"

definition payload_preview :: "bytes \<Rightarrow> string" where
  "payload_preview payload =
     (if length payload \<le> 64
      then (case from_utf8 payload of
              Some text \<Rightarrow>
                if list_all printable text
                then quote_char @ replace_char (CHR 13) ([CHR 92] @ ''r'') (replace_char (CHR 10) ([CHR 92] @ ''n'') text) @ quote_char
                else hex_preview payload 32
            | None \<Rightarrow> hex_preview payload 32)
      else hex_preview payload 32)"

definition dumped_record_of :: "usize \<Rightarrow> jrecord \<Rightarrow> dumped_record" where
  "dumped_record_of i x =
     \<lparr>dmp_index = i, dmp_timestamp = rh_timestamp (jr_rec_header x), dmp_record_type = jrecord_record_type x,
      dmp_exchange_id = rh_exchange_id (jr_rec_header x), dmp_payload_size = length (jr_payload x),
      dmp_payload_preview = payload_preview (jr_payload x)\<rparr>"

text \<open>The state of the loop: the index of the next item and the records so far.\<close>

definition dump_item ::
  "usize \<Rightarrow> reader_error + jrecord \<Rightarrow> usize \<times> dumped_record list \<Rightarrow> ((usize \<times> dumped_record list) \<times> bool, cli_error) result" where
  "dump_item max_records item s =
     (case s of (i, out) \<Rightarrow>
        if i \<ge> max_records then Ok (s, False)
        else
          (case item of
             Inl e \<Rightarrow> Err (CliReaderError e)
           | Inr x \<Rightarrow> Ok ((Suc i, out @ [dumped_record_of i x]), True)))"

definition execute_dump ::
  "deps \<Rightarrow> cli_file \<Rightarrow> usize option \<Rightarrow> string option \<Rightarrow> (dumped_record list, cli_error) result" where
  "execute_dump d f limit type_filter =
     rbind (cli_open d f) (\<lambda>r.
     map_ok snd (for_each d (dump_item (case limit of None \<Rightarrow> usize_limit - 1 | Some n \<Rightarrow> n)) r (0, [])))"

definition dumped_to_text :: "dumped_record \<Rightarrow> string" where
  "dumped_to_text x =
     ''['' @ show_nat (dmp_index x) @ ''] ts='' @ show_int (sint (dmp_timestamp x)) @ '' type='' @
     record_type_debug (dmp_record_type x) @ '' ex='' @ show_u8 (dmp_exchange_id x) @ '' size='' @
     show_nat (dmp_payload_size x) @ '' payload='' @ dmp_payload_preview x"

definition compact_field :: "string \<Rightarrow> string \<Rightarrow> string" where
  "compact_field name val = quote_char @ name @ quote_char @ '':'' @ val"

definition dumped_to_json :: "dumped_record \<Rightarrow> string" where
  "dumped_to_json x =
     ''{'' @ compact_field ''index'' (show_nat (dmp_index x)) @ '','' @
     compact_field ''timestamp'' (show_int (sint (dmp_timestamp x))) @ '','' @
     compact_field ''record_type'' (json_string (record_type_debug (dmp_record_type x))) @ '','' @
     compact_field ''exchange_id'' (show_u8 (dmp_exchange_id x)) @ '','' @
     compact_field ''payload_size'' (show_nat (dmp_payload_size x)) @ '','' @
     compact_field ''payload_preview'' (json_string (replace_quotes (dmp_payload_preview x))) @ ''}''"


section \<open>verify\<close>

text \<open>The statistics so far and the sequence number of the last checkpoint.\<close>

definition check_checkpoint ::
  "bool \<Rightarrow> bytes \<Rightarrow> verification_stats \<times> u64 option \<Rightarrow> ((verification_stats \<times> u64 option) \<times> bool, cli_error) result" where
  "check_checkpoint stop payload s =
     (case s of (stats, last_sequence) \<Rightarrow>
        (case checkpoint_from_bytes payload of
           Err e \<Rightarrow> map_ok (\<lambda>n. ((stats\<lparr>vs_errors := n\<rparr>, last_sequence), \<not> stop)) (u64_incr (vs_errors stats))
         | Ok cp \<Rightarrow>
             let q = ckp_sequence cp;
                 regressed = (case last_sequence of None \<Rightarrow> False | Some prev \<Rightarrow> q \<le> prev) in
             if regressed
             then map_ok (\<lambda>n. ((stats\<lparr>vs_checkpoints_mismatched := n,
                     vs_first_mismatch_sequence := Some (case vs_first_mismatch_sequence stats of None \<Rightarrow> q | Some q0 \<Rightarrow> q0)\<rparr>,
                     Some q), \<not> stop)) (u64_incr (vs_checkpoints_mismatched stats))
             else Ok ((stats, Some q), True)
         | Panic \<Rightarrow> Panic))"

fun verify_item ::
  "bool \<Rightarrow> reader_error + jrecord \<Rightarrow> verification_stats \<times> u64 option \<Rightarrow>
     ((verification_stats \<times> u64 option) \<times> bool, cli_error) result" where
  "verify_item stop (Inl e) s = Err (CliReaderError e)"
| "verify_item stop (Inr x) (stats, last_sequence) =
     rbind (u64_incr (vs_events_processed stats)) (\<lambda>n.
     let stats1 = stats\<lparr>vs_events_processed := n\<rparr> in
     if jrecord_record_type x \<noteq> RtCheckpoint then Ok ((stats1, last_sequence), True)
     else
       rbind (u64_incr (vs_checkpoints_found stats1)) (\<lambda>m.
       check_checkpoint stop (jr_payload x) (stats1\<lparr>vs_checkpoints_found := m\<rparr>, last_sequence)))"

fun show_sequence :: "u64 option \<Rightarrow> string" where
  "show_sequence None = ''None''"
| "show_sequence (Some q) = ''Some('' @ show_nat (unat q) @ '')''"

definition verify_recommend :: "verification_stats \<Rightarrow> comparison_report \<Rightarrow> comparison_report" where
  "verify_recommend stats report =
     (if vs_is_successful stats
      then
        (let report1 = report\<lparr>rp_status := RepIncomplete\<rparr> in
         if vs_checkpoints_found stats = 0
         then add_recommendation ''No checkpoints found. Verification requires checkpoint records in the journal.'' report1
         else add_recommendation (''Checkpoints parsed and in sequence, but state hashes were NOT compared: '' @
                ''that requires a state hasher (VerifyingReplayEngine). checkpoints_matched = 0.'') report1)
      else
        (let report1 =
           (if vs_errors stats > 0
            then add_recommendation (show_nat (unat (vs_errors stats)) @
                   '' checkpoint record(s) could not be parsed as the 48-byte checkpoint layout.'') report
            else report) in
         if vs_checkpoints_mismatched stats > 0
         then add_recommendation (show_nat (unat (vs_checkpoints_mismatched stats)) @
                '' checkpoint(s) out of sequence (first at sequence '' @
                show_sequence (vs_first_mismatch_sequence stats) @ '').'') report1
         else report1))"

definition execute_verify :: "deps \<Rightarrow> cli_file \<Rightarrow> bool \<Rightarrow> (comparison_report, cli_error) result" where
  "execute_verify d f stop =
     rbind (cli_open d f) (\<lambda>r.
     rbind (for_each d (verify_item stop) r (verification_stats_new, None)) (\<lambda>(stats, last_sequence).
     map_ok (\<lambda>report. verify_recommend stats (report_with_title (''Verification Report: '' @ clf_path f) report))
       (report_from_stats stats [])))"

section \<open>The program\<close>

definition format_report :: "output_format \<Rightarrow> comparison_report \<Rightarrow> string" where
  "format_report fmt r =
     (case fmt of OfText \<Rightarrow> report_to_text r | OfJson \<Rightarrow> report_to_json r | OfSummary \<Rightarrow> report_to_summary r)"

definition format_dump :: "output_format \<Rightarrow> dumped_record list \<Rightarrow> string" where
  "format_dump fmt xs =
     (case fmt of
        OfText \<Rightarrow> join_with nl (map dumped_to_text xs)
      | OfJson \<Rightarrow> ''['' @ nl @ ''  '' @ join_with ('','' @ nl @ ''  '') (map dumped_to_json xs) @ nl @ '']''
      | OfSummary \<Rightarrow> show_nat (length xs) @ '' records dumped'')"

definition format_info :: "output_format \<Rightarrow> journal_info \<Rightarrow> (string, 'e) result" where
  "format_info fmt i =
     (case fmt of OfText \<Rightarrow> journal_info_to_text i | OfJson \<Rightarrow> Ok (journal_info_to_json i)
      | OfSummary \<Rightarrow> journal_info_summary i)"

definition format_stats :: "output_format \<Rightarrow> journal_stats \<Rightarrow> string" where
  "format_stats fmt s =
     (case fmt of OfText \<Rightarrow> journal_stats_to_text True s | OfJson \<Rightarrow> journal_stats_to_json s
      | OfSummary \<Rightarrow> journal_stats_summary s)"

datatype cli_command =
    CmdInfo string bool
  | CmdVerify string output_format "string option" bool
  | CmdDump string "nat option" "string option" output_format
  | CmdStats string bool

text \<open>The file system: what is at a path, and whether a file can be created and written there.\<close>

record cli_world =
  clw_file :: "string \<Rightarrow> cli_file"
  clw_write :: "string \<Rightarrow> string \<Rightarrow> (unit, io_error) result"
  clw_order :: "(record_type \<times> u64) list \<Rightarrow> (record_type \<times> u64) list"
  clw_show_io :: "io_error \<Rightarrow> string"

text \<open>What a run leaves: the lines on the standard output, those on the standard error, and the exit code.\<close>

record cli_run =
  clr_out :: "string list"
  clr_err :: "string list"
  clr_code :: nat

fun verify_exit_code :: "report_status \<Rightarrow> nat" where
  "verify_exit_code RepPass = 0"
| "verify_exit_code RepIncomplete = 1"
| "verify_exit_code RepFail = 2"

fun run_command :: "deps \<Rightarrow> cli_world \<Rightarrow> cli_command \<Rightarrow> (string list \<times> nat, cli_error) result" where
  "run_command d w (CmdInfo journal schema) =
     rbind (execute_info d (clw_file w journal) schema) (\<lambda>info.
     map_ok (\<lambda>text. ([text], 0)) (journal_info_to_text info))"
| "run_command d w (CmdVerify journal fmt out stop) =
     rbind (execute_verify d (clw_file w journal) stop) (\<lambda>report.
     let text = format_report fmt report; code = verify_exit_code (rp_status report) in
     case out of
       None \<Rightarrow> Ok ([text], code)
     | Some path \<Rightarrow>
         map_ok (\<lambda>_. ([''Report written to: '' @ path], code)) (map_err CliIo (clw_write w path (text @ nl))))"
| "run_command d w (CmdDump journal limit type_filter fmt) =
     map_ok (\<lambda>records. ([format_dump fmt records], 0)) (execute_dump d (clw_file w journal) limit type_filter)"
| "run_command d w (CmdStats journal detailed) =
     map_ok (\<lambda>stats. ([journal_stats_to_text detailed stats], 0)) (execute_stats d (clw_order w) (clw_file w journal))"

definition cli_main :: "deps \<Rightarrow> cli_world \<Rightarrow> cli_command \<Rightarrow> (cli_run, 'e) result" where
  "cli_main d w cmd =
     (case run_command d w cmd of
        Ok (out, code) \<Rightarrow> Ok \<lparr>clr_out = out, clr_err = [], clr_code = code\<rparr>
      | Err e \<Rightarrow> Ok \<lparr>clr_out = [], clr_err = [''Error: '' @ cli_error_display (clw_show_io w) e], clr_code = 1\<rparr>
      | Panic \<Rightarrow> Panic)"

end
