(* ===== verification/Cli_Flow.thy ===== *)
theory Cli_Flow
  imports Cli "HOL-Library.Multiset"
begin

text \<open>
  What the commands of the \<open>blackbox\<close> program tell of a journal, and what they tell of a recording made through
  the tap: the composition of tap, writer, reader and command line.
\<close>

section \<open>The loop over a reader\<close>

fun loop_over :: "('x \<Rightarrow> 's \<Rightarrow> ('s \<times> bool, 'e) result) \<Rightarrow> 'x list \<Rightarrow> 's \<Rightarrow> ('s, 'e) result" where
  "loop_over body [] s = Ok s"
| "loop_over body (x # xs) s =
     (case body x s of
        Ok (s', continue) \<Rightarrow> if continue then loop_over body xs s' else Ok s'
      | Err e \<Rightarrow> Err e
      | Panic \<Rightarrow> Panic)"

lemma for_each_loop: "read_all d r = Ok (xs, r') \<Longrightarrow> for_each d body r s = loop_over body xs s"
proof (induction d r arbitrary: xs r' s rule: read_all.induct)
  case (1 d r)
  obtain x r1 where x: "read_next d r = Ok (x, r1)"
    using "1.prems" by (cases "read_next d r") (auto simp: read_all.simps [of d r])
  show ?case
  proof (cases x)
    case None
    then show ?thesis using x "1.prems" by (simp add: read_all.simps [of d r] for_each.simps [of d body r])
  next
    case (Some y)
    obtain ys where ys: "read_all d r1 = Ok (ys, r')" "xs = y # ys"
      using "1.prems" x Some by (auto simp: read_all.simps [of d r] rbind_Ok_iff)
    have "for_each d body r1 s' = loop_over body ys s'" for s'
      using "1.IH" [OF x refl Some ys(1)] .
    then show ?thesis
      using x Some ys(2) by (simp add: for_each.simps [of d body r] split: result.split prod.split)
  qed
qed

lemma loop_over_append_continue:
  assumes "loop_over body xs s = Ok s'" and "\<And>x t t' c. x \<in> set xs \<Longrightarrow> body x t = Ok (t', c) \<Longrightarrow> c"
  shows "loop_over body (xs @ ys) s = loop_over body ys s'"
  using assms
proof (induction xs arbitrary: s)
  case (Cons x xs)
  show ?case
  proof (cases "body x s")
    case (Ok p)
    obtain t c where p: "p = (t, c)" by (cases p)
    with Ok Cons.prems(2) have c: c by auto
    with Ok p Cons.prems(1) have "loop_over body xs t = Ok s'" by simp
    from Cons.IH [OF this] Cons.prems(2) show ?thesis using Ok p c by auto
  qed (use Cons.prems(1) in simp_all)
qed simp

section \<open>dump\<close>

lemma dump_loop:
  assumes "length out \<le> n"
  shows "loop_over (dump_item n) (map Inr recs @ map Inl errs) (length out, out) =
     (if errs = [] \<or> n \<le> length out + length recs
      then Ok (min n (length out + length recs),
             out @ map2 dumped_record_of [length out..<n] (take (n - length out) recs))
      else Err (CliReaderError (hd errs)))"
  using assms
proof (induction recs arbitrary: out)
  case Nil
  then show ?case by (cases errs) (auto simp: dump_item_def)
next
  case (Cons x recs)
  show ?case
  proof (cases "n = length out")
    case True
    then show ?thesis by (simp add: dump_item_def)
  next
    case False
    with Cons.prems have "length (out @ [dumped_record_of (length out) x]) \<le> n" by simp
    note IH = Cons.IH [OF this]
    have "n - length out = Suc (n - Suc (length out))" using False Cons.prems by simp
    moreover have "[length out..<n] = length out # [Suc (length out)..<n]"
      using False Cons.prems by (simp add: upt_conv_Cons)
    ultimately show ?thesis using IH False Cons.prems by (simp add: dump_item_def)
  qed
qed

text \<open>
  \<open>dump\<close> gives the first \<open>limit\<close> records of the journal, each with its index, type, exchange,
  time and size, and whatever the type filter asks; it fails exactly when the journal is damaged before the limit
  is reached.
\<close>

theorem dump_exact:
  assumes "cli_open d f = Ok r" and "read_all d r = Ok (map Inr recs @ map Inl errs, r')"
  shows "execute_dump d f (Some n) filter1 =
    (if errs = [] \<or> n \<le> length recs then Ok (map2 dumped_record_of [0..<n] (take n recs))
     else Err (CliReaderError (hd errs)))"
  using dump_loop [of "[]" n recs errs]
  by (simp add: execute_dump_def assms(1) for_each_loop [OF assms(2)])

section \<open>stats\<close>

lemma bump_counts:
  assumes "distinct (map fst cs)" and "\<And>t n. (t, n) \<in> set cs \<Longrightarrow> unat n < 2 ^ 64 - 1"
  shows "\<exists>cs'. bump t cs = (Ok cs' :: (_, 'e) result) \<and> distinct (map fst cs') \<and> fst ` set cs' = insert t (fst ` set cs) \<and>
    map_of cs' = (map_of cs)(t \<mapsto> (case map_of cs t of None \<Rightarrow> 1 | Some n \<Rightarrow> n + 1))"
  using assms
proof (induction cs)
  case (Cons c cs)
  obtain u n where c: "c = (u, n)" by (cases c)
  show ?case
  proof (cases "u = t")
    case True
    have "unat n + 1 < 2 ^ 64" using Cons.prems(2) [of u n] c by simp
    then have "bump t ((u, n) # cs) = (Ok ((u, n + 1) # cs) :: (_, 'e) result)" using True by (simp add: u64_incr_eq)
    then show ?thesis using c True Cons.prems(1) by (intro exI [of _ "(u, n + 1) # cs"]) auto
  next
    case False
    obtain cs' where cs': "bump t cs = (Ok cs' :: (_, 'e) result)" "distinct (map fst cs')"
      "fst ` set cs' = insert t (fst ` set cs)"
      "map_of cs' = (map_of cs)(t \<mapsto> (case map_of cs t of None \<Rightarrow> 1 | Some n \<Rightarrow> n + 1))"
      using Cons by fastforce
    then show ?thesis using c False Cons.prems(1)
      by (intro exI [of _ "(u, n) # cs'"]) (auto simp: fun_upd_twist)
  qed
qed simp


definition records_of_type :: "record_type \<Rightarrow> jrecord list \<Rightarrow> nat" where
  "records_of_type t recs = length (filter (\<lambda>x. jrecord_record_type x = t) recs)"

definition counted_as :: "(record_type \<times> u64) list \<Rightarrow> record_type \<Rightarrow> nat" where
  "counted_as cs t = (case map_of cs t of None \<Rightarrow> 0 | Some n \<Rightarrow> unat n)"

definition counts_ok :: "nat \<Rightarrow> (record_type \<times> u64) list \<Rightarrow> bool" where
  "counts_ok k cs \<longleftrightarrow> distinct (map fst cs) \<and> (\<forall>t n. map_of cs t = Some n \<longrightarrow> 0 < unat n \<and> unat n \<le> k)"

lemma counts_okD: "counts_ok k cs \<Longrightarrow> map_of cs t = Some n \<Longrightarrow> 0 < unat n \<and> unat n \<le> k"
  unfolding counts_ok_def by blast

lemma bump_ok:
  assumes "counts_ok k cs" and "Suc k < 2 ^ 64"
  shows "\<exists>cs'. bump t cs = (Ok cs' :: (_, 'e) result) \<and> counts_ok (Suc k) cs' \<and>
    (\<forall>u. counted_as cs' u = counted_as cs u + (if u = t then 1 else 0))"
proof -
  have small: "unat n < 2 ^ 64 - 1" if "(u, n) \<in> set cs" for u n
  proof -
    have "map_of cs u = Some n" using assms(1) that by (simp add: counts_ok_def)
    then have "unat n \<le> k" using assms(1) unfolding counts_ok_def by blast
    then show ?thesis using assms(2) by simp
  qed
  obtain cs' where cs': "bump t cs = (Ok cs' :: (_, 'e) result)" "distinct (map fst cs')"
    "map_of cs' = (map_of cs)(t \<mapsto> (case map_of cs t of None \<Rightarrow> 1 | Some n \<Rightarrow> n + 1))"
    using bump_counts [of cs t, where 'e = 'e] assms(1) small by (auto simp: counts_ok_def)
  have suc: "unat (n + 1) = Suc (unat n)" if "map_of cs t = Some n" for n
    using small [OF map_of_SomeD [OF that]] by (simp add: unat_word_ariths)
  have "0 < unat m \<and> unat m \<le> Suc k" if "map_of cs' u = Some m" for u m
  proof (cases "u = t")
    case True
    then show ?thesis using that cs'(3) suc counts_okD [OF assms(1), of t] by (cases "map_of cs t") auto
  next
    case False
    then show ?thesis using that cs'(3) counts_okD [OF assms(1), of u m] by simp
  qed
  then have "counts_ok (Suc k) cs'" using cs'(2) unfolding counts_ok_def by blast
  moreover have "counted_as cs' u = counted_as cs u + (if u = t then 1 else 0)" for u
    using cs'(3) suc by (auto simp: counted_as_def split: option.split)
  ultimately show ?thesis using cs'(1) by blast
qed

lemma stats_loop:
  assumes "counts_ok (unat n) cs" and "unat n + length recs < 2 ^ 64"
    and "unat b + sum_list (map (\<lambda>x. length (jr_payload x)) recs) < 2 ^ 64"
  shows "\<exists>n' b' cs'. loop_over count_record (map Inr recs) (n, b, cs) = Ok (n', b', cs') \<and>
    unat n' = unat n + length recs \<and> unat b' = unat b + sum_list (map (\<lambda>x. length (jr_payload x)) recs) \<and>
    counts_ok (unat n') cs' \<and> (\<forall>t. counted_as cs' t = counted_as cs t + records_of_type t recs)"
  using assms
proof (induction recs arbitrary: n b cs)
  case Nil
  then show ?case by (simp add: records_of_type_def)
next
  case (Cons x recs)
  let ?t = "jrecord_record_type x" and ?k = "length (jr_payload x)"
  obtain cs1 where cs1: "bump ?t cs = (Ok cs1 :: (_, cli_error) result)" "counts_ok (Suc (unat n)) cs1"
    "\<forall>u. counted_as cs1 u = counted_as cs u + (if u = ?t then 1 else 0)"
    using bump_ok [OF Cons.prems(1), of ?t] Cons.prems(2) by auto
  have n: "unat (n + 1) = Suc (unat n)" "u64_incr n = (Ok (n + 1) :: (_, cli_error) result)"
    using Cons.prems(2) by (simp_all add: unat_u64_incr u64_incr_eq)
  have b: "u64_plus b ?k = (Ok (b + of_nat ?k) :: (_, cli_error) result)" "unat (b + of_nat ?k) = unat b + ?k"
    using Cons.prems(3) by (simp_all add: u64_plus_def unat_word_ariths unat_of_nat)
  have "unat (n + 1) + length recs < 2 ^ 64"
    "unat (b + of_nat ?k) + sum_list (map (\<lambda>x. length (jr_payload x)) recs) < 2 ^ 64"
    using Cons.prems n(1) b(2) by simp_all
  from Cons.IH [of "n + 1" cs1 "b + of_nat ?k", OF _ this] cs1(2) n(1)
  obtain n' b' cs' where "loop_over count_record (map Inr recs) (n + 1, b + of_nat ?k, cs1) = Ok (n', b', cs')"
    "unat n' = unat (n + 1) + length recs" "unat b' = unat (b + of_nat ?k) + sum_list (map (\<lambda>x. length (jr_payload x)) recs)"
    "counts_ok (unat n') cs'" "\<forall>t. counted_as cs' t = counted_as cs1 t + records_of_type t recs"
    by auto
  with cs1 n b show ?case by (intro exI [of _ n'] exI [of _ b'] exI [of _ cs']) (simp add: records_of_type_def)
qed

lemma sort_key_descending: "sorted_wrt (\<lambda>p q. snd q \<le> snd p) (sort_key (\<lambda>p. - uint (snd p)) (xs :: ('a \<times> u64) list))"
  using sorted_sort_key [of "\<lambda>p. - uint (snd p)" xs]
  by (simp add: sorted_map word_le_def)

text \<open>
  For an undamaged journal \<open>stats\<close> is exact: records and bytes are counted, every type that
  occurs is listed once with its number of records, and the list is in descending order, whatever order the hash
  map is walked in; a session that ends before it starts has duration 0.
\<close>

theorem stats_exact:
  assumes "cli_open d f = Ok r" and "read_all d r = Ok (map Inr recs, r')"
    and "\<And>xs. mset (order xs) = mset xs"
    and "length recs < 2 ^ 64" and "sum_list (map (\<lambda>x. length (jr_payload x)) recs) < 2 ^ 64"
    and "in_i64 (sint (fh_session_end (jr_header r)) - sint (fh_session_start (jr_header r)))"
  shows "\<exists>s. execute_stats d order f = Ok s \<and> unat (jst_total_records s) = length recs \<and>
    unat (jst_total_payload_bytes s) = sum_list (map (\<lambda>x. length (jr_payload x)) recs) \<and>
    distinct (map fst (jst_records_by_type s)) \<and> sorted_wrt (\<lambda>p q. snd q \<le> snd p) (jst_records_by_type s) \<and>
    (\<forall>t n. (t, n) \<in> set (jst_records_by_type s) \<longleftrightarrow> 0 < unat n \<and> unat n = records_of_type t recs) \<and>
    sint (jst_session_duration_us s) = max 0 (sint (fh_session_end (jr_header r)) - sint (fh_session_start (jr_header r)))"
proof -
  obtain n b cs where loop: "loop_over count_record (map Inr recs) (0, 0, []) = Ok (n, b, cs)"
    "unat n = length recs" "unat b = sum_list (map (\<lambda>x. length (jr_payload x)) recs)"
    "counts_ok (unat n) cs" "\<forall>t. counted_as cs t = records_of_type t recs"
    using stats_loop [of 0 "[]" recs 0] assms(4,5) by (auto simp: counts_ok_def counted_as_def)
  have order: "set (order cs) = set cs" by (rule mset_eq_setD) (rule assms(3))
  have "mset (map fst (sort_key (\<lambda>p. - uint (snd p)) (order cs))) = mset (map fst cs)" by (simp add: assms(3))
  then have dist: "distinct (map fst (sort_key (\<lambda>p. - uint (snd p)) (order cs)))"
    using mset_eq_imp_distinct_iff loop(4) unfolding counts_ok_def by blast
  have mem: "(t, k) \<in> set cs \<longleftrightarrow> 0 < unat k \<and> unat k = records_of_type t recs" for t k
  proof -
    have "(t, k) \<in> set cs \<longleftrightarrow> map_of cs t = Some k" using loop(4) by (simp add: counts_ok_def)
    moreover have "counted_as cs t = records_of_type t recs" using loop(5) by blast
    ultimately show ?thesis using counts_okD [OF loop(4), of t]
      by (cases "map_of cs t") (auto simp: counted_as_def word_unat_eq_iff)
  qed
  have span: "i64_sub (fh_session_end (jr_header r)) (fh_session_start (jr_header r)) =
      (Ok (fh_session_end (jr_header r) - fh_session_start (jr_header r)) :: (_, cli_error) result)"
    using assms(6) by (simp add: i64_sub_eq)
  have "sint (i64_max0 (fh_session_end (jr_header r) - fh_session_start (jr_header r))) =
      max 0 (sint (fh_session_end (jr_header r)) - sint (fh_session_start (jr_header r)))"
    using assms(6) by (simp add: i64_max0_def sint_i64_minus)
  then show ?thesis
    using loop(1-3) dist mem order sort_key_descending [of "order cs"]
    by (simp add: execute_stats_def assms(1) for_each_loop [OF assms(2)] span Let_def)
qed


section \<open>verify\<close>

text \<open>The checkpoint records, those that cannot be read, and the sequence numbers of the others.\<close>

definition checkpoint_payloads :: "jrecord list \<Rightarrow> bytes list" where
  "checkpoint_payloads recs = map jr_payload (filter (\<lambda>x. jrecord_record_type x = RtCheckpoint) recs)"

definition sequences :: "bytes list \<Rightarrow> u64 list" where
  "sequences ps = concat (map (\<lambda>p. case checkpoint_from_bytes p of Ok c \<Rightarrow> [ckp_sequence c] | _ \<Rightarrow> []) ps)"

definition unreadable :: "bytes list \<Rightarrow> nat" where
  "unreadable ps = length (filter (\<lambda>p. length p < 48) ps)"

fun descents :: "u64 list \<Rightarrow> nat" where
  "descents (a # b # qs) = (if b \<le> a then 1 else 0) + descents (b # qs)"
| "descents _ = 0"

fun first_descent :: "u64 list \<Rightarrow> u64 option" where
  "first_descent (a # b # qs) = (if b \<le> a then Some b else first_descent (b # qs))"
| "first_descent _ = None"

lemma descents_0_iff: "descents qs = 0 \<longleftrightarrow> sorted_wrt (<) qs"
proof (induction qs rule: descents.induct)
  case (1 a b qs)
  then show ?case by (auto simp: not_le intro: order.strict_trans)
qed simp_all

lemma checkpoint_from_bytes_cases:
  obtains c where "checkpoint_from_bytes p = Ok c" "48 \<le> length p"
  | "checkpoint_from_bytes p = Err (CkInvalidSize 48 (length p))" "length p < 48"
  by (cases "length p < 48")
    (auto simp: checkpoint_from_bytes_def checkpoint_data_from_bytes_def CHECKPOINT_DATA_SIZE_def subslice_def)

abbreviation with_last :: "u64 option \<Rightarrow> u64 list \<Rightarrow> u64 list" where
  "with_last last_sequence qs \<equiv> (case last_sequence of None \<Rightarrow> [] | Some a \<Rightarrow> [a]) @ qs"

definition scan_ok :: "verification_stats \<Rightarrow> u64 option \<Rightarrow> jrecord list \<Rightarrow> verification_stats \<Rightarrow> bool" where
  "scan_ok s l recs s' \<longleftrightarrow>
     (let ps = checkpoint_payloads recs; qs = with_last l (sequences ps) in
      unat (vs_events_processed s') = unat (vs_events_processed s) + length recs \<and>
      unat (vs_checkpoints_found s') = unat (vs_checkpoints_found s) + length ps \<and>
      vs_checkpoints_matched s' = vs_checkpoints_matched s \<and>
      unat (vs_errors s') = unat (vs_errors s) + unreadable ps \<and>
      unat (vs_checkpoints_mismatched s') = unat (vs_checkpoints_mismatched s) + descents qs \<and>
      vs_first_mismatch_sequence s' =
        (case vs_first_mismatch_sequence s of None \<Rightarrow> first_descent qs | Some q \<Rightarrow> Some q))"

definition room_for :: "nat \<Rightarrow> verification_stats \<Rightarrow> bool" where
  "room_for n s \<longleftrightarrow> unat (vs_events_processed s) + n < 2 ^ 64 \<and> unat (vs_checkpoints_found s) + n < 2 ^ 64 \<and>
     unat (vs_errors s) + n < 2 ^ 64 \<and> unat (vs_checkpoints_mismatched s) + n < 2 ^ 64"

lemma room_incr:
  assumes "room_for (Suc n) s"
  shows "w \<in> {vs_events_processed s, vs_checkpoints_found s, vs_errors s, vs_checkpoints_mismatched s} \<Longrightarrow>
    u64_incr w = (Ok (w + 1) :: (_, 'e) result) \<and> unat (w + 1) = Suc (unat w) \<and> unat w + Suc n < 2 ^ 64"
  using assms by (auto simp: room_for_def u64_incr_eq unat_u64_incr)

definition last_after :: "u64 option \<Rightarrow> jrecord \<Rightarrow> u64 option" where
  "last_after l x = (case sequences (checkpoint_payloads [x]) of [] \<Rightarrow> l | q # qs \<Rightarrow> Some q)"

lemmas scan_defs = room_for_def scan_ok_def checkpoint_payloads_def sequences_def unreadable_def last_after_def

text \<open>One record, when the loop does not stop at problems.\<close>

lemma verify_record:
  assumes "room_for (Suc n) s"
  shows "\<exists>s'. verify_item False (Inr x) (s, l) = Ok ((s', last_after l x), True) \<and> room_for n s' \<and> scan_ok s l [x] s'"
proof -
  note incr = room_incr [OF assms, where 'e = cli_error, of "vs_events_processed s", simplified]
    room_incr [OF assms, where 'e = cli_error, of "vs_checkpoints_found s", simplified]
    room_incr [OF assms, where 'e = cli_error, of "vs_errors s", simplified]
    room_incr [OF assms, where 'e = cli_error, of "vs_checkpoints_mismatched s", simplified]
  show ?thesis
  proof (cases "jrecord_record_type x = RtCheckpoint")
    case False
    then show ?thesis using incr by (cases l) (simp_all add: scan_defs split: option.split)
  next
    case ck: True
    show ?thesis
    proof (cases rule: checkpoint_from_bytes_cases [of "jr_payload x"])
      case (1 c)
      then show ?thesis
        using incr ck by (cases l; cases "vs_first_mismatch_sequence s") (simp_all add: scan_defs check_checkpoint_def Let_def)
    next
      case 2
      then show ?thesis
        using incr ck by (cases l; cases "vs_first_mismatch_sequence s") (simp_all add: scan_defs check_checkpoint_def Let_def)
    qed
  qed
qed


lemma sequences_single: "sequences [p] = [] \<or> (\<exists>q. sequences [p] = [q])"
  by (simp add: sequences_def split: result.split)

lemma last_after_cons:
  "checkpoint_payloads (x # recs) = checkpoint_payloads [x] @ checkpoint_payloads recs"
  "sequences (ps @ ps') = sequences ps @ sequences ps'"
  "unreadable (ps @ ps') = unreadable ps + unreadable ps'"
  by (simp_all add: scan_defs)

lemma payloads_single: "checkpoint_payloads [x] = [] \<or> checkpoint_payloads [x] = [jr_payload x]"
  by (simp add: checkpoint_payloads_def)

lemma scan_trans:
  assumes "scan_ok s l [x] s1" and "scan_ok s1 (last_after l x) recs s'"
  shows "scan_ok s l (x # recs) s'"
proof -
  let ?q = "sequences (checkpoint_payloads [x])" and ?qs = "sequences (checkpoint_payloads recs)"
  have q: "?q = [] \<or> (\<exists>q. ?q = [q])"
    using payloads_single [of x] sequences_single [of "jr_payload x"] by (auto simp: sequences_def)
  then have d: "descents (with_last l (?q @ ?qs)) = descents (with_last l ?q) + descents (with_last (last_after l x) ?qs)"
    "first_descent (with_last l (?q @ ?qs)) =
       (case first_descent (with_last l ?q) of None \<Rightarrow> first_descent (with_last (last_after l x) ?qs) | Some a \<Rightarrow> Some a)"
    by (auto simp: last_after_def split: option.split)
  show ?thesis
    using assms d unfolding scan_ok_def Let_def last_after_cons(1) [of x recs] last_after_cons(2,3)
    by (simp split: option.splits)
qed

lemma verify_scan:
  assumes "room_for (length recs) s"
  shows "\<exists>s' l'. loop_over (verify_item False) (map Inr recs @ xs) (s, l) = loop_over (verify_item False) xs (s', l') \<and>
    scan_ok s l recs s'"
  using assms
proof (induction recs arbitrary: s l)
  case Nil
  show ?case
    by (intro exI [of _ s] exI [of _ l]) (cases l, simp_all add: scan_defs split: option.split)
next
  case (Cons x recs)
  obtain s1 where s1: "verify_item False (Inr x) (s, l) = Ok ((s1, last_after l x), True)" "room_for (length recs) s1"
    "scan_ok s l [x] s1"
    using verify_record [of "length recs" s] Cons.prems by auto
  obtain s' l' where "loop_over (verify_item False) (map Inr recs @ xs) (s1, last_after l x) =
      loop_over (verify_item False) xs (s', l')" "scan_ok s1 (last_after l x) recs s'"
    using Cons.IH [OF s1(2)] by blast
  then show ?case using s1(1) scan_trans [OF s1(3)] by auto
qed


text \<open>Whether anything the command checks is wrong.\<close>

definition sound_from :: "u64 option \<Rightarrow> jrecord list \<Rightarrow> bool" where
  "sound_from l recs \<longleftrightarrow>
     unreadable (checkpoint_payloads recs) = 0 \<and> descents (with_last l (sequences (checkpoint_payloads recs))) = 0"

lemma scan_successful:
  assumes "scan_ok s l recs s'" and "vs_is_successful s"
  shows "vs_is_successful s' \<longleftrightarrow> sound_from l recs"
  using assms by (auto simp: scan_ok_def sound_from_def vs_is_successful_def unat_eq_zero Let_def)

lemma verify_item_stops:
  assumes "verify_item False (Inr x) (s, l) = Ok ((s', l'), True)" and "vs_is_successful s"
  shows "verify_item True (Inr x) (s, l) = Ok ((s', l'), vs_is_successful s')"
proof -
  have "vs_errors s = 0" "vs_checkpoints_mismatched s = 0" using assms(2) by (simp_all add: vs_is_successful_def)
  then show ?thesis
    using assms(1) by (auto simp: check_checkpoint_def vs_is_successful_def u64_incr_def rbind_Ok_iff map_ok_Ok_iff Let_def
        split: if_splits result.splits option.splits)
qed

lemma stop_scan:
  assumes "room_for (length recs) s" and "vs_is_successful s"
  shows "\<exists>s' l'. loop_over (verify_item True) (map Inr recs) (s, l) = Ok (s', l') \<and> (vs_is_successful s' \<longleftrightarrow> sound_from l recs)"
  using assms
proof (induction recs arbitrary: s l)
  case Nil
  then show ?case by (cases l) (simp_all add: sound_from_def scan_defs)
next
  case (Cons x recs)
  obtain s1 where s1: "verify_item False (Inr x) (s, l) = Ok ((s1, last_after l x), True)" "room_for (length recs) s1"
    "scan_ok s l [x] s1"
    using verify_record [of "length recs" s] Cons.prems(1) by auto
  note item = verify_item_stops [OF s1(1) Cons.prems(2)]
  obtain s2 l2 where s2: "loop_over (verify_item False) (map Inr recs @ []) (s1, last_after l x) = Ok (s2, l2)"
    "scan_ok s1 (last_after l x) recs s2"
    using verify_scan [OF s1(2), of "[]" "last_after l x"] by auto
  have all: "vs_is_successful s2 \<longleftrightarrow> sound_from l (x # recs)"
    using scan_successful [OF scan_trans [OF s1(3) s2(2)] Cons.prems(2)] .
  show ?case
  proof (cases "vs_is_successful s1")
    case True
    from Cons.IH [OF s1(2) True, of "last_after l x"] obtain s' l' where
      "loop_over (verify_item True) (map Inr recs) (s1, last_after l x) = Ok (s', l')"
      "vs_is_successful s' \<longleftrightarrow> sound_from (last_after l x) recs" by blast
    with item True all scan_successful [OF s2(2) True] show ?thesis by auto
  next
    case False
    then have "\<not> vs_is_successful s2"
      using s2(2) by (auto simp: scan_ok_def vs_is_successful_def Let_def unat_eq_zero)
    with item False all show ?thesis by simp
  qed
qed

lemma report_of_stats:
  "\<exists>rep. report_from_stats stats [] = (Ok rep :: (_, 'e) result) \<and> rp_stats rep = stats \<and>
     rp_status rep = (if vs_is_successful stats then RepPass else RepFail)"
  by (simp add: report_from_stats_def generate_recommendations_def report_new_def Let_def)

lemma recommend_status:
  "rp_stats (verify_recommend stats rep) = rp_stats rep"
  "rp_status (verify_recommend stats rep) = (if vs_is_successful stats then RepIncomplete else rp_status rep)"
  by (simp_all add: verify_recommend_def add_recommendation_def Let_def)

lemma room_for_new: "n < 2 ^ 64 \<Longrightarrow> room_for n verification_stats_new"
  by (simp add: room_for_def verification_stats_new_def)

lemma sound_iff: "sound_from None recs \<longleftrightarrow>
    (\<forall>p\<in>set (checkpoint_payloads recs). 48 \<le> length p) \<and> sorted_wrt (<) (sequences (checkpoint_payloads recs))"
  by (auto simp: sound_from_def descents_0_iff unreadable_def filter_empty_conv not_less)

lemma verify_report:
  assumes "cli_open d f = Ok r" and "read_all d r = Ok (map Inr recs, r')" and "length recs < 2 ^ 64"
  shows "\<exists>rep s. execute_verify d f stop = Ok rep \<and> rp_stats rep = s \<and>
    rp_status rep = (if sound_from None recs then RepIncomplete else RepFail) \<and>
    (\<not> stop \<longrightarrow> scan_ok verification_stats_new None recs s)"
proof -
  let ?s = verification_stats_new
  have new: "vs_is_successful ?s" by (simp add: vs_is_successful_def verification_stats_new_def)
  have "\<exists>s l. loop_over (verify_item stop) (map Inr recs) (?s, None) = Ok (s, l) \<and>
      (vs_is_successful s \<longleftrightarrow> sound_from None recs) \<and> (\<not> stop \<longrightarrow> scan_ok ?s None recs s)"
  proof (cases stop)
    case True
    then show ?thesis using stop_scan [OF room_for_new [OF assms(3)] new, of None] by auto
  next
    case False
    obtain s l where "loop_over (verify_item False) (map Inr recs @ []) (?s, None) = Ok (s, l)" "scan_ok ?s None recs s"
      using verify_scan [OF room_for_new [OF assms(3)], of "[]" None] by auto
    then show ?thesis using False scan_successful [OF _ new] by auto
  qed
  then obtain s l where s: "loop_over (verify_item stop) (map Inr recs) (?s, None) = Ok (s, l)"
    "vs_is_successful s \<longleftrightarrow> sound_from None recs" "\<not> stop \<longrightarrow> scan_ok ?s None recs s" by blast
  obtain rep where rep: "report_from_stats s [] = (Ok rep :: (_, cli_error) result)" "rp_stats rep = s"
    "rp_status rep = (if vs_is_successful s then RepPass else RepFail)"
    using report_of_stats by blast
  show ?thesis
    using s(2,3) rep(2,3)
    by (auto simp: execute_verify_def assms(1) for_each_loop [OF assms(2)] s(1) rep(1) recommend_status report_with_title_def)
qed


text \<open>
  C30: For an undamaged journal \<open>verify\<close> never passes: the report is incomplete exactly when every
  checkpoint record can be read and the sequence numbers rise strictly, and a failure otherwise, whether it stops
  at the first problem or not; without stopping it counts records, checkpoints, unreadable ones and the steps back
  exactly, and names the first of these. A damaged record ends the command with an error instead of a report.
\<close>

theorem verify_exact:
  assumes "cli_open d f = Ok r" and "read_all d r = Ok (map Inr recs @ map Inl errs, r')"
    and "length recs < 2 ^ 64" and "ps = checkpoint_payloads recs"
  shows "(errs \<noteq> [] \<longrightarrow> execute_verify d f False = Err (CliReaderError (hd errs))) \<and>
    (errs = [] \<longrightarrow> (\<exists>rep s. execute_verify d f stop = Ok rep \<and> rp_stats rep = s \<and>
       rp_status rep = (if (\<forall>p\<in>set ps. 48 \<le> length p) \<and> sorted_wrt (<) (sequences ps) then RepIncomplete else RepFail) \<and>
       (\<not> stop \<longrightarrow> unat (vs_events_processed s) = length recs \<and> unat (vs_checkpoints_found s) = length ps \<and>
          vs_checkpoints_matched s = 0 \<and> unat (vs_errors s) = unreadable ps \<and>
          unat (vs_checkpoints_mismatched s) = descents (sequences ps) \<and>
          vs_first_mismatch_sequence s = first_descent (sequences ps))))"
proof (cases "errs = []")
  case True
  then have "read_all d r = Ok (map Inr recs, r')" using assms(2) by simp
  from verify_report [OF assms(1) this assms(3), of stop] True show ?thesis
    by (auto simp: sound_iff scan_ok_def assms(4) verification_stats_new_def Let_def)
next
  case False
  obtain s' l' where "loop_over (verify_item False) (map Inr recs @ map Inl errs) (verification_stats_new, None) =
      loop_over (verify_item False) (map Inl errs) (s', l')"
    using verify_scan [OF room_for_new [OF assms(3)]] by blast
  with False show ?thesis
    by (cases errs) (simp_all add: execute_verify_def assms(1) for_each_loop [OF assms(2)])
qed

section \<open>A recording through the tap\<close>

lemma subseq_sequences: "subseq ps ps' \<Longrightarrow> subseq (sequences ps) (sequences ps')"
  by (induction rule: list_emb.induct) (auto simp: sequences_def intro: list_emb_append_mono list_emb_append2)

lemma subseq_sorted_wrt: "subseq xs ys \<Longrightarrow> sorted_wrt P ys \<Longrightarrow> sorted_wrt P xs"
  by (induction rule: list_emb.induct) (auto dest: list_emb_set)

lemma recorded_sequences:
  assumes "\<forall>e \<in> set es. event_ok e" and "unat n + length es < 2 ^ 64"
    and "qs = sequences (map entry_payload (filter (\<lambda>e. be_record_type e = 3) (concat (map op_entries (tap_writer_ops n es)))))"
  shows "sorted_wrt (<) qs \<and> (\<forall>q\<in>set qs. n \<le> q)"
  using assms
proof (induction n es arbitrary: qs rule: tap_writer_ops.induct)
  case (5 n h ts es)
  let ?rest = "sequences (map entry_payload (filter (\<lambda>e. be_record_type e = 3)
      (concat (map op_entries (tap_writer_ops (n + 1) es)))))"
  have n: "unat (n + 1) = Suc (unat n)" using "5.prems"(2) by (simp add: unat_u64_incr)
  have "unat (n + 1) + length es < 2 ^ 64" using "5.prems"(2) n by simp
  with "5.IH" "5.prems"(1) have rest: "sorted_wrt (<) ?rest" "\<forall>q\<in>set ?rest. n + 1 \<le> q" by simp_all
  have "be_record_type (buffer_entry_new 3 0 ts p) = 3" for p by (simp add: buffer_entry_new_def)
  then have "qs = n # ?rest"
    using "5.prems"(1,3) by (simp add: sequences_def checkpoint_payload_parses checkpoint_new_def)
  moreover have "n < q" if "n + 1 \<le> q" for q using that n by (simp add: word_less_nat_alt word_le_nat_alt)
  ultimately show ?case using rest by (auto intro: order.strict_implies_order)
qed (auto simp: sequences_def buffer_entry_new_def)

lemma record_type_checkpoint: "jrecord_record_type x = RtCheckpoint \<longleftrightarrow> rh_record_type (jr_rec_header x) = 3"
  by (simp add: jrecord_record_type_def record_type_from_u16_def)

lemma payloads_of_views:
  "map record_view recs = map entry_view written \<Longrightarrow>
     checkpoint_payloads recs = map entry_payload (filter (\<lambda>e. be_record_type e = 3) written)"
proof (induction recs arbitrary: written)
  case (Cons x recs)
  then obtain e written' where "written = e # written'" by (cases written) auto
  with Cons show ?case
    by (auto simp: checkpoint_payloads_def record_type_checkpoint record_view_def entry_view_def)
qed (simp add: checkpoint_payloads_def)


lemma recorded_length: "length (concat (map op_entries (tap_writer_ops n es))) \<le> length es"
  by (induction n es rule: tap_writer_ops.induct) simp_all

lemma written_checkpoints_sound:
  assumes "\<forall>e \<in> set es. event_ok e" and "length es < 2 ^ 64"
    and "map record_view recs = map entry_view written" and "subseq written (recorded_entries es)"
  shows "sound_from None recs"
proof -
  let ?cps = "\<lambda>xs. map entry_payload (filter (\<lambda>e. be_record_type e = 3) xs)"
  have sub: "subseq (?cps written) (?cps (recorded_entries es))"
    using assms(4) by (intro subseq_map subseq_filter)
  have "sorted_wrt (<) (sequences (?cps (recorded_entries es)))"
    using recorded_sequences [OF assms(1), of 0] assms(2) by (simp add: recorded_entries_def)
  then have sorted: "sorted_wrt (<) (sequences (?cps written))"
    using subseq_sequences [OF sub] by (rule subseq_sorted_wrt [rotated])
  have "48 \<le> length p" if "p \<in> set (?cps written)" for p
  proof -
    from that obtain e where e: "e \<in> set (recorded_entries es)" "be_record_type e = 3" "p = entry_payload e"
      using list_emb_set [OF assms(4)] by auto
    obtain m h ts where h: "TapCheckpoint h ts \<in> set es" "p = checkpoint_payload m ts h"
      using checkpoint_entries [of e 0 es] e by (auto simp: recorded_entries_def)
    then have "length h = 32" using assms(1) by fastforce
    with h(2) show ?thesis by (simp add: checkpoint_payload_def)
  qed
  then show ?thesis using sorted by (simp add: sound_iff payloads_of_views [OF assms(3)])
qed

text \<open>
  C29: A recording made through the tap, however it interleaves with the background thread, is never
  reported as damaged or failed: after \<open>close\<close>, \<open>verify\<close> of the file leaves an incomplete report with any option,
  and the program prints no error and ends with the exit code 1 of an incomplete report.
\<close>

theorem recording_verifies:
  assumes "deps_sane d" and "create_block d (wc_compress_schema config) = Ok b"
    and "schema_fits config b" and "writer_create d os now session config = Ok w0"
    and "\<forall>e \<in> set es. event_ok e" and "\<forall>e \<in> set (recorded_entries es). entry_readable e"
    and "length es < 2 ^ 64"
  shows "\<exists>t' w1 w2. tap_run d es (journal_tap_new w0) = Ok t' \<and> jt_writer t' = Some w1 \<and>
    close_internal d None None w1 = Some (Ok w2) \<and>
    (\<forall>w path. clf_exists (clw_file w path) \<and> clf_mapped (clw_file w path) = Ok (jw_file w2) \<longrightarrow>
       (\<exists>rep. execute_verify d (clw_file w path) stop = Ok rep \<and> rp_status rep = RepIncomplete) \<and>
       (\<exists>run. cli_main d w (CmdVerify path fmt None stop) = (Ok run :: (_, 'e) result) \<and> clr_err run = [] \<and> clr_code run = 1))"
proof -
  obtain t' w1 w2 r recs r' written where session: "tap_run d es (journal_tap_new w0) = Ok t'" "jt_writer t' = Some w1"
    "close_internal d None None w1 = Some (Ok w2)" "reader_open d (Ok (jw_file w2)) = Ok r"
    "read_all d r = Ok (map Inr recs, r')" and views: "map record_view recs = map entry_view written"
    and sub: "subseq written (recorded_entries es)"
    using tap_session [OF assms(1-6)] by blast
  have "length recs = length written" using views by (metis length_map)
  also have "\<dots> \<le> length (recorded_entries es)" using sub by (rule list_emb_length)
  also have "\<dots> \<le> length es" unfolding recorded_entries_def
    by (rule recorded_length)
  finally have len: "length recs < 2 ^ 64" using assms(7) by simp
  have sound: "sound_from None recs" by (rule written_checkpoints_sound [OF assms(5,7) views sub])
  have "(\<exists>rep. execute_verify d f stop = Ok rep \<and> rp_status rep = RepIncomplete)"
    if "clf_exists f" "clf_mapped f = Ok (jw_file w2)" for f
  proof -
    have "cli_open d f = Ok r" using that session(4) by (simp add: cli_open_def)
    from verify_report [OF this session(5) len, of stop] sound show ?thesis by auto
  qed
  then show ?thesis using session(1-3)
    by (fastforce simp: cli_main_def)
qed


section \<open>Examples\<close>

text \<open>A journal with a trade and a checkpoint record that is too short.\<close>

definition faulty_checkpoint :: "record_header \<times> bytes" where
  "faulty_checkpoint = ((record_header_new 5 RtCheckpoint 0 1 1)\<lparr>rh_crc32 := crc32_hash [9]\<rparr>, [9])"

definition sample_journal :: cli_file where
  "sample_journal =
     \<lparr>clf_path = ''a.journal'', clf_exists = True,
      clf_mapped = Ok (example_file @ records_image [example_record, faulty_checkpoint]), clf_len = Ok 218\<rparr>"

definition sample_records :: "jrecord list" where
  "sample_records = jrecords_at 166 [example_record, faulty_checkpoint]"

lemma faulty_checkpoint_wf: "record_wf faulty_checkpoint" "crc_ok example_deps faulty_checkpoint"
proof -
  have "to_le (5 :: i64) \<noteq> FOOTER_MAGIC" by (simp add: to_le_def FOOTER_MAGIC_def as_bytes_def)
  then show "record_wf faulty_checkpoint"
    by (simp add: record_wf_def faulty_checkpoint_def record_header_new_def readable_by_timestamp)
  show "crc_ok example_deps faulty_checkpoint"
    by (simp add: crc_ok_def faulty_checkpoint_def example_deps_def record_header_new_def)
qed

lemma sample_opens:
  obtains r r' where "cli_open example_deps sample_journal = Ok r" "read_all example_deps r = Ok (map Inr sample_records, r')"
    "jr_header r = example_header"
proof -
  let ?rest = "records_image [example_record, faulty_checkpoint]"
  let ?r = "\<lparr>jr_mmap = example_file @ ?rest, jr_header = example_header, jr_schema_xml = ''<sbe/>'',
        jr_read_position = 166, jr_records_read = 0, jr_finished = False, jr_config = reader_config_default\<rparr>"
  have small: "length ?rest < 2 ^ 62"
    by (simp add: example_record_def faulty_checkpoint_def del: record_image.simps)
  have open_r: "cli_open example_deps sample_journal = Ok ?r"
    using open_example [OF small, of reader_config_default] by (simp add: cli_open_def sample_journal_def reader_open_def)
  have "\<exists>r'. read_all example_deps ?r = Ok (map Inr (jrecords_at (length example_file) [example_record, faulty_checkpoint]), r')
    \<and> jr_read_position r' = length example_file + length ?rest \<and> same_file ?r r' \<and> jr_finished r'"
    by (rule read_all_image [where rest = "[]"])
      (use small in \<open>simp_all add: length_example_file example_record_wf faulty_checkpoint_wf journal_end_def
         del: record_image.simps records_image_simps\<close>)
  then obtain r' where "read_all example_deps ?r = Ok (map Inr sample_records, r')"
    by (auto simp: length_example_file sample_records_def)
  with open_r that show ?thesis by simp
qed

lemma sample_checkpoints: "checkpoint_payloads sample_records = [[9]]" "length sample_records = 2"
  "sum_list (map (\<lambda>x. length (jr_payload x)) sample_records) = 4"
  by (simp_all add: sample_records_def checkpoint_payloads_def example_record_def faulty_checkpoint_def
      jrecord_record_type_def record_header_new_def record_type_from_u16_def)

theorem verify_exact_witness:
  "\<exists>rep s. execute_verify example_deps sample_journal False = Ok rep \<and> rp_stats rep = s \<and> rp_status rep = RepFail \<and>
     unat (vs_events_processed s) = 2 \<and> unat (vs_errors s) = 1"
proof -
  obtain r r' where r: "cli_open example_deps sample_journal = Ok r"
    "read_all example_deps r = Ok (map Inr sample_records, r')" by (rule sample_opens)
  have "read_all example_deps r = Ok (map Inr sample_records @ map Inl [], r')" using r(2) by simp
  from verify_exact [OF r(1) this _ refl, of False] show ?thesis
    by (auto simp: sample_checkpoints unreadable_def)
qed

theorem dump_exact_witness:
  "\<exists>x. execute_dump example_deps sample_journal (Some 1) (Some ''Checkpoint'') = Ok [x] \<and> dmp_record_type x = RtTrade \<and>
     dmp_payload_size x = 3"
proof -
  obtain r r' where r: "cli_open example_deps sample_journal = Ok r"
    "read_all example_deps r = Ok (map Inr sample_records, r')" by (rule sample_opens)
  have "read_all example_deps r = Ok (map Inr sample_records @ map Inl [], r')" using r(2) by simp
  from dump_exact [OF r(1) this, of 1 "Some ''Checkpoint''"] show ?thesis
    by (simp add: sample_records_def dumped_record_of_def example_record_def record_header_new_def jrecord_record_type_def
        record_type_from_u16_def)
qed

theorem stats_exact_witness:
  "\<exists>s. execute_stats example_deps rev sample_journal = Ok s \<and> unat (jst_total_records s) = 2 \<and>
     (RtTrade, 1) \<in> set (jst_records_by_type s)"
proof -
  obtain r r' where r: "cli_open example_deps sample_journal = Ok r"
    "read_all example_deps r = Ok (map Inr sample_records, r')" "jr_header r = example_header" by (rule sample_opens)
  have "records_of_type RtTrade sample_records = 1"
    by (simp add: records_of_type_def sample_records_def example_record_def faulty_checkpoint_def
      jrecord_record_type_def record_header_new_def record_type_from_u16_def)
  moreover have "in_i64 (sint (fh_session_end (jr_header r)) - sint (fh_session_start (jr_header r)))"
    by (simp add: r(3) example_header_def new_with_timestamp_def new_with_session_start_def in_i64_def)
  ultimately show ?thesis
    using stats_exact [OF r(1,2), of rev] by (fastforce simp: sample_checkpoints)
qed

theorem recording_verifies_witness:
  "\<exists>w0 t' w1 w2. writer_create example_deps os_ok None None example_config = Ok w0 \<and>
    tap_run example_deps [TapIngress ExBinance [1, 2] 4 5, TapBackground, TapCheckpoint (replicate 32 7) 6]
      (journal_tap_new w0) = Ok t' \<and> jt_writer t' = Some w1 \<and> close_internal example_deps None None w1 = Some (Ok w2) \<and>
    (\<exists>rep. execute_verify example_deps \<lparr>clf_path = ''a'', clf_exists = True, clf_mapped = Ok (jw_file w2), clf_len = Ok 9\<rparr> True
       = Ok rep \<and> rp_status rep = RepIncomplete)"
proof -
  let ?es = "[TapIngress ExBinance [1, 2] 4 5, TapBackground, TapCheckpoint (replicate 32 7) 6]"
  obtain w0 where w0: "writer_create example_deps os_ok None None example_config = Ok w0"
    using example_writer by blast
  have ev: "\<forall>e \<in> set ?es. event_ok e" by simp
  have "to_le (5 :: i64) \<noteq> FOOTER_MAGIC" "to_le (6 :: i64) \<noteq> FOOTER_MAGIC"
    by (simp_all add: to_le_def FOOTER_MAGIC_def as_bytes_def)
  then have readable: "\<forall>e \<in> set (recorded_entries ?es). entry_readable e"
    by (simp add: recorded_entries_def entry_readable_def buffer_entry_new_def)
  have len: "length ?es < 2 ^ 64" by simp
  obtain t' w1 w2 where w: "tap_run example_deps ?es (journal_tap_new w0) = Ok t'" "jt_writer t' = Some w1"
    "close_internal example_deps None None w1 = Some (Ok w2)"
    and cli: "\<forall>w path. clf_exists (clw_file w path) \<and> clf_mapped (clw_file w path) = Ok (jw_file w2) \<longrightarrow>
       (\<exists>rep. execute_verify example_deps (clw_file w path) True = Ok rep \<and> rp_status rep = RepIncomplete) \<and>
       (\<exists>run. cli_main example_deps w (CmdVerify path OfText None True) = (Ok run :: (_, unit) result) \<and>
          clr_err run = [] \<and> clr_code run = 1)"
    using recording_verifies [where 'e = unit, OF example_deps_sane example_block example_fits w0 ev readable len, of True OfText]
    by blast
  let ?f = "\<lparr>clf_path = ''a'', clf_exists = True, clf_mapped = Ok (jw_file w2), clf_len = Ok 9\<rparr>"
  have "\<exists>rep. execute_verify example_deps ?f True = Ok rep \<and> rp_status rep = RepIncomplete"
    using cli [rule_format, of "\<lparr>clw_file = (\<lambda>_. ?f), clw_write = (\<lambda>_ _. Ok ()), clw_order = (\<lambda>x. x), clw_show_io = (\<lambda>_. [])\<rparr>"
      "''a''"] by simp
  with w0 w show ?thesis by blast
qed

section \<open>Exit codes and hostile headers\<close>

text \<open>
  A damaged journal ends the program with the exit code of a sound one, and session times further apart than 63 bits
  make \<open>info\<close> and \<open>stats\<close> panic.
\<close>

lemma damage_exits_like_sound:
  assumes "cli_open d (clw_file w path) = Ok r" and "read_all d r = Ok (map Inr recs @ [Inl e], r')"
    and "length recs < 2 ^ 64"
  shows "\<exists>run. cli_main d w (CmdVerify path fmt out False) = (Ok run :: (_, 'e) result) \<and> clr_code run = verify_exit_code RepIncomplete"
proof -
  obtain s' l' where "loop_over (verify_item False) (map Inr recs @ [Inl e]) (verification_stats_new, None) =
      loop_over (verify_item False) [Inl e] (s', l')"
    using verify_scan [OF room_for_new [OF assms(3)]] by blast
  then have "execute_verify d (clw_file w path) False = Err (CliReaderError e)"
    by (simp add: execute_verify_def assms(1) for_each_loop [OF assms(2)])
  then show ?thesis by (simp add: cli_main_def)
qed

lemma session_span_panics:
  assumes "cli_open d f = Ok r" and "\<not> in_i64 (sint (fh_session_end (jr_header r)) - sint (fh_session_start (jr_header r)))"
  shows "execute_stats d order f = Panic"
    and "execute_info d f schema = Ok i \<Longrightarrow> journal_info_to_text i = (Panic :: (_, 'e) result)"
  using assms by (auto simp: execute_stats_def execute_info_def journal_info_to_text_def i64_sub_eq rbind_Ok_iff Let_def)

end
