(* ===== verification/Py_Types.thy ===== *)
theory Py_Types
  imports Order_Book
begin

text \<open>
  \<open>flash/src/bindings/types.rs\<close>: the values that Python sees, and the conversions between them and the types of
  the library. A quantity is a text on the Python side: \<open>dt_show\<close> is \<open>Decimal\<close>'s \<open>to_string\<close>, \<open>dt_parse\<close> its
  \<open>from_str\<close>, \<open>dt_f64\<close> is \<open>str::parse::<f64>\<close> and \<open>dt_show_f64\<close> prints a double. The hash of an instrument is left out.
\<close>

record 'q decimal_text =
  dt_show :: "'q \<Rightarrow> string"
  dt_parse :: "string \<Rightarrow> 'q option"
  dt_f64 :: "string \<Rightarrow> f64 option"
  dt_show_f64 :: "f64 \<Rightarrow> string"

section \<open>Enumerations\<close>

datatype py_exchange = PyDeribit | PyBinance | PyOanda

fun py_exchange_as_str :: "py_exchange \<Rightarrow> string" where
  "py_exchange_as_str PyDeribit = ''deribit''"
| "py_exchange_as_str PyBinance = ''binance''"
| "py_exchange_as_str PyOanda = ''oanda''"

text \<open>\<open>to_uppercase\<close> of an ASCII text.\<close>

definition ascii_upper :: "string \<Rightarrow> string" where
  "ascii_upper s = map (\<lambda>c. let n = (of_char c :: nat) in if 97 \<le> n \<and> n \<le> 122 then char_of (n - 32) else c) s"

definition py_exchange_repr :: "py_exchange \<Rightarrow> string" where
  "py_exchange_repr e = ''Exchange.'' @ ascii_upper (py_exchange_as_str e)"

fun py_exchange_of :: "flash_exchange \<Rightarrow> py_exchange" where
  "py_exchange_of FxDeribit = PyDeribit"
| "py_exchange_of FxBinance = PyBinance"
| "py_exchange_of FxOanda = PyOanda"

fun exchange_of_py :: "py_exchange \<Rightarrow> flash_exchange" where
  "exchange_of_py PyDeribit = FxDeribit"
| "exchange_of_py PyBinance = FxBinance"
| "exchange_of_py PyOanda = FxOanda"

datatype py_side = PyBid | PyAsk

fun py_side_opposite :: "py_side \<Rightarrow> py_side" where
  "py_side_opposite PyBid = PyAsk"
| "py_side_opposite PyAsk = PyBid"

fun py_side_as_str :: "py_side \<Rightarrow> string" where
  "py_side_as_str PyBid = ''bid''"
| "py_side_as_str PyAsk = ''ask''"

definition py_side_repr :: "py_side \<Rightarrow> string" where
  "py_side_repr s = ''Side.'' @ ascii_upper (py_side_as_str s)"

fun py_side_of :: "book_side \<Rightarrow> py_side" where
  "py_side_of Bid = PyBid"
| "py_side_of Ask = PyAsk"

fun side_of_py :: "py_side \<Rightarrow> book_side" where
  "side_of_py PyBid = Bid"
| "side_of_py PyAsk = Ask"

datatype py_event_type = PySnapshot | PyDelta | PyTrade | PyHeartbeat

fun py_event_type_as_str :: "py_event_type \<Rightarrow> string" where
  "py_event_type_as_str PySnapshot = ''snapshot''"
| "py_event_type_as_str PyDelta = ''delta''"
| "py_event_type_as_str PyTrade = ''trade''"
| "py_event_type_as_str PyHeartbeat = ''heartbeat''"

definition py_event_type_repr :: "py_event_type \<Rightarrow> string" where
  "py_event_type_repr t = ''MarketEventType.'' @ ascii_upper (py_event_type_as_str t)"

fun py_event_type_of :: "market_event_type \<Rightarrow> py_event_type" where
  "py_event_type_of MeSnapshot = PySnapshot"
| "py_event_type_of MeDelta = PyDelta"
| "py_event_type_of MeTrade = PyTrade"
| "py_event_type_of MeHeartbeat = PyHeartbeat"

fun event_type_of_py :: "py_event_type \<Rightarrow> market_event_type" where
  "event_type_of_py PySnapshot = MeSnapshot"
| "event_type_of_py PyDelta = MeDelta"
| "event_type_of_py PyTrade = MeTrade"
| "event_type_of_py PyHeartbeat = MeHeartbeat"

section \<open>Instruments and levels\<close>

record py_instrument =
  pyi_base :: string
  pyi_quote :: string
  pyi_exchange :: py_exchange
  pyi_raw_symbol :: string

definition py_instrument_new :: "string \<Rightarrow> string \<Rightarrow> py_exchange \<Rightarrow> string \<Rightarrow> py_instrument" where
  "py_instrument_new base quote ex raw =
     \<lparr>pyi_base = base, pyi_quote = quote, pyi_exchange = ex, pyi_raw_symbol = raw\<rparr>"

definition py_instrument_symbol :: "py_instrument \<Rightarrow> string" where
  "py_instrument_symbol i = pyi_base i @ ''/'' @ pyi_quote i"

text \<open>A text in single quotes.\<close>

definition py_quoted :: "string \<Rightarrow> string" where
  "py_quoted s = [CHR 39] @ s @ [CHR 39]"

definition py_instrument_repr :: "py_instrument \<Rightarrow> string" where
  "py_instrument_repr i =
     ''Instrument(base='' @ py_quoted (pyi_base i) @ '', quote='' @ py_quoted (pyi_quote i) @ '', exchange='' @
     py_exchange_repr (pyi_exchange i) @ '', raw_symbol='' @ py_quoted (pyi_raw_symbol i) @ '')''"

definition py_instrument_str :: "py_instrument \<Rightarrow> string" where
  "py_instrument_str i = py_exchange_as_str (pyi_exchange i) @ '':'' @ pyi_raw_symbol i"

definition py_instrument_eq :: "py_instrument \<Rightarrow> py_instrument \<Rightarrow> bool" where
  "py_instrument_eq i j \<longleftrightarrow> pyi_base i = pyi_base j \<and> pyi_quote i = pyi_quote j \<and> pyi_exchange i = pyi_exchange j \<and>
     pyi_raw_symbol i = pyi_raw_symbol j"

definition py_instrument_of :: "flash_instrument \<Rightarrow> py_instrument" where
  "py_instrument_of i =
     \<lparr>pyi_base = fi_base i, pyi_quote = fi_quote i, pyi_exchange = py_exchange_of (fi_exchange i),
      pyi_raw_symbol = fi_raw_symbol i\<rparr>"

definition instrument_of_py :: "py_instrument \<Rightarrow> flash_instrument" where
  "instrument_of_py i =
     \<lparr>fi_base = pyi_base i, fi_quote = pyi_quote i, fi_exchange = exchange_of_py (pyi_exchange i),
      fi_raw_symbol = pyi_raw_symbol i\<rparr>"

record py_level =
  pyl_price :: f64
  pyl_quantity :: string
  pyl_order_count :: "u32 option"
  pyl_timestamp :: i64

definition py_level_new :: "f64 \<Rightarrow> string \<Rightarrow> i64 \<Rightarrow> u32 option \<Rightarrow> py_level" where
  "py_level_new p q ts n = \<lparr>pyl_price = p, pyl_quantity = q, pyl_order_count = n, pyl_timestamp = ts\<rparr>"

definition py_quantity_as_float :: "'q decimal_text \<Rightarrow> py_level \<Rightarrow> f64" where
  "py_quantity_as_float d l = (case dt_f64 d (pyl_quantity l) of Some x \<Rightarrow> x | None \<Rightarrow> FFin 0)"

definition py_level_is_empty :: "'q decimal_text \<Rightarrow> py_level \<Rightarrow> bool" where
  "py_level_is_empty d l \<longleftrightarrow> pyl_quantity l = ''0'' \<or> pyl_quantity l = ''0.0'' \<or>
     (case dt_f64 d (pyl_quantity l) of None \<Rightarrow> True | Some x \<Rightarrow> f64_eq x (FFin 0))"

definition py_level_repr :: "'q decimal_text \<Rightarrow> py_level \<Rightarrow> string" where
  "py_level_repr d l =
     ''PriceLevel(price='' @ dt_show_f64 d (pyl_price l) @ '', quantity='' @ py_quoted (pyl_quantity l) @
     '', timestamp='' @ show_int (sint (pyl_timestamp l)) @ '')''"

definition py_level_str :: "'q decimal_text \<Rightarrow> py_level \<Rightarrow> string" where
  "py_level_str d l = pyl_quantity l @ '' @ '' @ dt_show_f64 d (pyl_price l)"

definition py_level_of :: "'q decimal_text \<Rightarrow> 'q price_level \<Rightarrow> py_level" where
  "py_level_of d l =
     \<lparr>pyl_price = pl_price l, pyl_quantity = dt_show d (pl_quantity l), pyl_order_count = pl_order_count l,
      pyl_timestamp = pl_timestamp l\<rparr>"

definition decimal_or_zero :: "'q::zero decimal_text \<Rightarrow> string \<Rightarrow> 'q" where
  "decimal_or_zero d s = (case dt_parse d s of Some q \<Rightarrow> q | None \<Rightarrow> 0)"

definition level_of_py :: "'q::zero decimal_text \<Rightarrow> py_level \<Rightarrow> 'q price_level" where
  "level_of_py d l =
     \<lparr>pl_price = pyl_price l, pl_quantity = decimal_or_zero d (pyl_quantity l), pl_order_count = pyl_order_count l,
      pl_timestamp = pyl_timestamp l\<rparr>"

section \<open>Data and events\<close>

datatype py_data =
    PyBookData "py_level list" "py_level list"
  | PyTradeData f64 string py_side "string option"
  | PyHeartbeatData i64

fun py_is_book :: "py_data \<Rightarrow> bool" where
  "py_is_book (PyBookData b a) = True"
| "py_is_book _ = False"

fun py_is_trade :: "py_data \<Rightarrow> bool" where
  "py_is_trade (PyTradeData p q s i) = True"
| "py_is_trade _ = False"

fun py_is_heartbeat :: "py_data \<Rightarrow> bool" where
  "py_is_heartbeat (PyHeartbeatData t) = True"
| "py_is_heartbeat _ = False"

text \<open>The error of the three accessors is a Python type error with its message.\<close>

fun py_as_book :: "py_data \<Rightarrow> (py_level list \<times> py_level list, string) result" where
  "py_as_book (PyBookData bids asks) = Ok (bids, asks)"
| "py_as_book _ = Err ''Not book data''"

fun py_as_trade :: "py_data \<Rightarrow> (f64 \<times> string \<times> py_side \<times> string option, string) result" where
  "py_as_trade (PyTradeData p q s i) = Ok (p, q, s, i)"
| "py_as_trade _ = Err ''Not trade data''"

fun py_as_heartbeat :: "py_data \<Rightarrow> (i64, string) result" where
  "py_as_heartbeat (PyHeartbeatData t) = Ok t"
| "py_as_heartbeat _ = Err ''Not heartbeat data''"

fun py_data_repr :: "'q decimal_text \<Rightarrow> py_data \<Rightarrow> string" where
  "py_data_repr d (PyBookData bids asks) =
     ''MarketData.Book(bids='' @ show_nat (length bids) @ '', asks='' @ show_nat (length asks) @ '')''"
| "py_data_repr d (PyTradeData p q s i) =
     ''MarketData.Trade(price='' @ dt_show_f64 d p @ '', quantity='' @ py_quoted q @ '', side='' @ py_side_repr s @ '')''"
| "py_data_repr d (PyHeartbeatData t) = ''MarketData.Heartbeat(exchange_time='' @ show_int (sint t) @ '')''"

fun py_data_of :: "'q decimal_text \<Rightarrow> 'q market_data \<Rightarrow> py_data" where
  "py_data_of d (MdBook bids asks) = PyBookData (map (py_level_of d) bids) (map (py_level_of d) asks)"
| "py_data_of d (MdTrade p q s i) = PyTradeData p (dt_show d q) (py_side_of s) i"
| "py_data_of d (MdHeartbeat t) = PyHeartbeatData t"

fun data_of_py :: "'q::zero decimal_text \<Rightarrow> py_data \<Rightarrow> 'q market_data" where
  "data_of_py d (PyBookData bids asks) = MdBook (map (level_of_py d) bids) (map (level_of_py d) asks)"
| "data_of_py d (PyTradeData p q s i) = MdTrade p (decimal_or_zero d q) (side_of_py s) i"
| "data_of_py d (PyHeartbeatData t) = MdHeartbeat t"

record py_event =
  pye_event_type :: py_event_type
  pye_instrument :: py_instrument
  pye_timestamp :: i64
  pye_local_timestamp :: i64
  pye_sequence :: "u64 option"
  pye_data :: py_data

definition py_latency_micros :: "py_event \<Rightarrow> (i64, 'e) result" where
  "py_latency_micros e = i64_sub (pye_local_timestamp e) (pye_timestamp e)"

definition py_event_repr :: "py_event \<Rightarrow> (string, 'e) result" where
  "py_event_repr e =
     map_ok (\<lambda>us. ''MarketEvent(type='' @ py_event_type_repr (pye_event_type e) @ '', instrument='' @
         py_instrument_str (pye_instrument e) @ '', timestamp='' @ show_int (sint (pye_timestamp e)) @
         '', latency_us='' @ show_int (sint us) @ '')'')
       (py_latency_micros e)"

definition py_event_of :: "'q decimal_text \<Rightarrow> 'q market_event \<Rightarrow> py_event" where
  "py_event_of d e =
     \<lparr>pye_event_type = py_event_type_of (mev_event_type e), pye_instrument = py_instrument_of (mev_instrument e),
      pye_timestamp = mev_timestamp e, pye_local_timestamp = mev_local_timestamp e, pye_sequence = mev_sequence e,
      pye_data = py_data_of d (mev_data e)\<rparr>"

definition event_of_py :: "'q::zero decimal_text \<Rightarrow> py_event \<Rightarrow> 'q market_event" where
  "event_of_py d e =
     \<lparr>mev_event_type = event_type_of_py (pye_event_type e), mev_instrument = instrument_of_py (pye_instrument e),
      mev_timestamp = pye_timestamp e, mev_local_timestamp = pye_local_timestamp e, mev_sequence = pye_sequence e,
      mev_data = data_of_py d (pye_data e)\<rparr>"

section \<open>Snapshots\<close>

record py_snapshot =
  pys_instrument :: py_instrument
  pys_timestamp :: i64
  pys_bids :: "py_level list"
  pys_asks :: "py_level list"

fun py_front :: "py_level list \<Rightarrow> py_level option" where
  "py_front [] = None"
| "py_front (l # ls) = Some l"

definition py_snapshot_mid_price :: "py_snapshot \<Rightarrow> f64 option" where
  "py_snapshot_mid_price s =
     (case (py_front (pys_bids s), py_front (pys_asks s)) of
        (Some bid, Some ask) \<Rightarrow> Some (f64_div (f64_add (pyl_price bid) (pyl_price ask)) (FFin 2))
      | _ \<Rightarrow> None)"

definition py_snapshot_spread :: "py_snapshot \<Rightarrow> f64 option" where
  "py_snapshot_spread s =
     (case (py_front (pys_bids s), py_front (pys_asks s)) of
        (Some bid, Some ask) \<Rightarrow> Some (f64_sub (pyl_price ask) (pyl_price bid))
      | _ \<Rightarrow> None)"

definition py_snapshot_repr :: "py_snapshot \<Rightarrow> string" where
  "py_snapshot_repr s =
     ''BookSnapshot(instrument='' @ py_instrument_str (pys_instrument s) @ '', bids='' @ show_nat (length (pys_bids s)) @
     '', asks='' @ show_nat (length (pys_asks s)) @ '', timestamp='' @ show_int (sint (pys_timestamp s)) @ '')''"

definition py_snapshot_of :: "'q decimal_text \<Rightarrow> 'q book_snapshot \<Rightarrow> py_snapshot" where
  "py_snapshot_of d s =
     \<lparr>pys_instrument = py_instrument_of (bsn_instrument s), pys_timestamp = bsn_timestamp s,
      pys_bids = map (py_level_of d) (bsn_bids s), pys_asks = map (py_level_of d) (bsn_asks s)\<rparr>"

definition snapshot_of_py :: "'q::zero decimal_text \<Rightarrow> py_snapshot \<Rightarrow> 'q book_snapshot" where
  "snapshot_of_py d s =
     \<lparr>bsn_instrument = instrument_of_py (pys_instrument s), bsn_timestamp = pys_timestamp s,
      bsn_bids = map (level_of_py d) (pys_bids s), bsn_asks = map (level_of_py d) (pys_asks s)\<rparr>"

section \<open>To Python and back\<close>

lemma py_exchange_roundtrip [simp]: "exchange_of_py (py_exchange_of x) = x" "py_exchange_of (exchange_of_py y) = y"
  by (cases x, simp_all) (cases y, simp_all)

lemma py_side_roundtrip [simp]: "side_of_py (py_side_of x) = x" "py_side_of (side_of_py y) = y"
  by (cases x, simp_all) (cases y, simp_all)

lemma py_event_type_roundtrip [simp]: "event_type_of_py (py_event_type_of x) = x" "py_event_type_of (event_type_of_py y) = y"
  by (cases x, simp_all) (cases y, simp_all)

lemma py_exchange_name: "py_exchange_as_str (py_exchange_of x) = flash_exchange_as_str x"
  by (cases x) simp_all

lemma py_event_type_name: "py_event_type_as_str (py_event_type_of t) = market_event_type_as_str t"
  by (cases t) simp_all

lemma py_instrument_names:
  "py_instrument_symbol (py_instrument_of i) = flash_instrument_symbol i"
  "py_instrument_str (py_instrument_of i) = flash_instrument_display i"
  by (simp_all add: py_instrument_symbol_def flash_instrument_symbol_def py_instrument_str_def
      flash_instrument_display_def py_instrument_of_def py_exchange_name)

lemma py_instrument_roundtrip [simp]:
  "instrument_of_py (py_instrument_of i) = i" "py_instrument_of (instrument_of_py pi') = pi'"
  by (simp_all add: instrument_of_py_def py_instrument_of_def)

lemma py_level_roundtrip:
  "dt_parse d (dt_show d (pl_quantity l)) = Some (pl_quantity l) \<Longrightarrow> level_of_py d (py_level_of d l) = l"
  by (simp add: level_of_py_def py_level_of_def decimal_or_zero_def)

lemma py_levels_roundtrip:
  assumes "\<And>q. dt_parse d (dt_show d q) = Some q"
  shows "map (level_of_py d) (map (py_level_of d) ls) = ls"
  using py_level_roundtrip assms by (induction ls) auto


definition unary_text :: "nat decimal_text" where
  "unary_text =
     \<lparr>dt_show = (\<lambda>n. replicate n (CHR ''1'')), dt_parse = (\<lambda>s. if set s \<subseteq> {CHR ''1''} then Some (length s) else None),
      dt_f64 = (\<lambda>s. None), dt_show_f64 = (\<lambda>x. [])\<rparr>"


text \<open>A quantity that is no number comes in as zero: the level it is for is removed from the book.\<close>

lemma unparsable_quantity_removes:
  "dt_parse d (pyl_quantity l) = None \<Longrightarrow> price_level_is_empty (level_of_py d l)"
  by (simp add: price_level_is_empty_def level_of_py_def decimal_or_zero_def)

end
