(* ===== verification/Spec2Isabelle.thy ===== *)
theory Spec2Isabelle
  imports Codec_Registry Ring_Concurrent Verify_Report Tap Book_Delta Order_Manager Topic_Router Book_Snapshot Batch
    Thread_Safe_Book Connector_Flow Pipeline_Flow Adapters_Contract Cli_Flow Py_Types
begin

text \<open>
  Header.
\<close>

end
